(* ===== verification/Prelude.thy ===== *)
theory Prelude
  imports "HOL-Library.Word"
begin

unbundle bit_operations_syntax

text \<open>
  Shared vocabulary of the development: the C integer types of \<open>include/types.h\<close> as words,
  the fatal outcome of \<open>fatal_failure\<close>, and the word and list lemmas that several
  components use.  \<open>unsigned long\<close> is 64 bits wide (the monitor is a 64-bit program,
  \<open>BYTES_PER_LONG\<close> is 8) and \<open>int\<close> is 32 bits wide.
\<close>

type_synonym u8 = "8 word"
type_synonym u16 = "16 word"
type_synonym u32 = "32 word"
type_synonym u64 = "64 word"

text \<open>
  \<open>fatal_failure\<close> prints its message and executes an undefined instruction, so nothing after
  it runs: a function that may call it returns a sum whose left side carries the message.  The other
  way to stop is an access to an address that the page tables of the monitor do not map; it installs no
  handler for the exception.
\<close>

datatype fatal = Fatal string | Page_fault u64

type_synonym 'a res = "fatal + 'a"

definition fatal_failure :: "string \<Rightarrow> 'a res" where
  "fatal_failure msg = Inl (Fatal msg)"

text \<open>\<open>line s\<close> is the C literal whose text is \<open>s\<close> followed by a newline.\<close>

definition line :: "string \<Rightarrow> string" where
  "line s = s @ [CHR 0x0A]"

text \<open>A call of \<open>outf\<close>: the format string and the values passed for its directives; \<open>ArgP p\<close> is the
  string in memory at address \<open>p\<close>.\<close>

datatype out_arg = ArgX u64 | ArgS string | ArgP u64

type_synonym out_call = "string \<times> out_arg list"

definition bindr :: "'a res \<Rightarrow> ('a \<Rightarrow> 'b res) \<Rightarrow> 'b res" where
  "bindr r f = (case r of Inl e \<Rightarrow> Inl e | Inr x \<Rightarrow> f x)"

named_theorems res_simps \<open>evaluation of fatal outcomes\<close>

lemma bindr_simps [simp, res_simps]:
  "bindr (Inr x) f = f x"
  "bindr (Inl e) f = Inl e"
  by (simp_all add: bindr_def)

lemma bindr_fatal [simp, res_simps]: "bindr (fatal_failure s) f = fatal_failure s"
  by (simp add: fatal_failure_def)

lemma fatal_failure_neq [simp, res_simps]:
  "fatal_failure s \<noteq> Inr x"
  "Inr x \<noteq> fatal_failure s"
  by (simp_all add: fatal_failure_def)

lemma bindr_eq_Inr: "bindr r f = Inr y \<longleftrightarrow> (\<exists>x. r = Inr x \<and> f x = Inr y)"
  by (cases r) simp_all

lemma bindr_cong [fundef_cong]:
  "r = r' \<Longrightarrow> (\<And>x. r' = Inr x \<Longrightarrow> f x = g x) \<Longrightarrow> bindr r f = bindr r' g"
  by (cases r') simp_all

text \<open>A computation that may also fail to return: \<open>None\<close>.\<close>

type_synonym 'a run = "'a res option"

definition bindo :: "'a run \<Rightarrow> ('a \<Rightarrow> 'b run) \<Rightarrow> 'b run" where
  "bindo r f = (case r of None \<Rightarrow> None | Some (Inl e) \<Rightarrow> Some (Inl e) | Some (Inr x) \<Rightarrow> f x)"

lemma bindo_simps [simp, res_simps]:
  "bindo None f = None"
  "bindo (Some (Inl e)) f = Some (Inl e)"
  "bindo (Some (Inr x)) f = f x"
  by (simp_all add: bindo_def)

lemma bindo_fatal [simp, res_simps]: "bindo (Some (fatal_failure s)) f = Some (fatal_failure s)"
  by (simp add: fatal_failure_def)

lemma bindo_eq_Inr: "bindo r f = Some (Inr y) \<longleftrightarrow> (\<exists>x. r = Some (Inr x) \<and> f x = Some (Inr y))"
  by (simp add: bindo_def split: option.splits sum.splits)

lemma bindo_cong [fundef_cong]:
  "r = r' \<Longrightarrow> (\<And>x. r' = Some (Inr x) \<Longrightarrow> f x = g x) \<Longrightarrow> bindo r f = bindo r' g"
  by (simp add: bindo_def split: option.splits sum.splits)

subsection \<open>C conversions\<close>

text \<open>
  A C condition is true when its value is not zero.  \<open>to_int\<close> is the conversion of an
  \<open>unsigned long\<close> to \<open>int\<close>: it keeps the low 32 bits.
\<close>

definition ctrue :: "'a::len word \<Rightarrow> bool" where
  "ctrue w \<longleftrightarrow> w \<noteq> 0"

definition to_int :: "u64 \<Rightarrow> u32" where
  "to_int w = ucast w"

text \<open>
  Left shift of a value of type \<open>int\<close> whose result is stored in an \<open>unsigned long\<close>: the
  shift is done in 32 bits and the result is sign extended.
\<close>

definition shl_int :: "u32 \<Rightarrow> nat \<Rightarrow> u64" where
  "shl_int w n = scast (push_bit n w)"

subsection \<open>Words\<close>

lemma unat_word_less [simp]: "unat (w :: 'a::len word) < 2 ^ LENGTH('a)"
  by (rule unsigned_less)

lemma u64_bounded: "unat (w :: u64) < 2 ^ 64"
  using unsigned_less [of w] by simp

lemma unat_of_nat_u64: "n < 2 ^ 64 \<Longrightarrow> unat (of_nat n :: u64) = n"
  by (simp add: unat_of_nat)

lemma unat_ucast_up:
  assumes "LENGTH('a) \<le> LENGTH('b)"
  shows "unat (ucast (w :: 'a::len word) :: 'b::len word) = unat w"
proof -
  have "unat w < 2 ^ LENGTH('b)"
    using unsigned_less [of w] assms
    by (metis less_le_trans one_le_numeral power_increasing)
  then show ?thesis
    by (simp add: unsigned_ucast_eq take_bit_nat_eq_self)
qed

lemma unat_ucast_u64 [simp]:
  "unat (ucast (w :: u32) :: u64) = unat w"
  "unat (ucast (b :: u8) :: u64) = unat b"
  "unat (ucast (h :: u16) :: u64) = unat h"
  by (simp_all add: unat_ucast_up)

lemma word_and_bit_iff_ctrue:
  "ctrue (w AND push_bit n 1) \<longleftrightarrow> n < LENGTH('a) \<and> bit w n" for w :: "'a::len word"
proof -
  have "w AND push_bit n 1 = (if n < LENGTH('a) \<and> bit w n then push_bit n 1 else 0)"
    by (rule bit_word_eqI) (auto simp: bit_simps)
  moreover have "n < LENGTH('a) \<Longrightarrow> push_bit n (1 :: 'a word) \<noteq> 0"
    by (auto simp: bit_eq_iff bit_simps)
  ultimately show ?thesis
    by (auto simp: ctrue_def)
qed

text \<open>The two masks of \<open>map_alloc\<close>: \<open>(1 << n) - 1\<close> and \<open>- (1 << n)\<close>.\<close>

lemma low_mask_eq: "2 ^ n - 1 = (mask n :: 'a::len word)"
  by (simp add: mask_eq_exp_minus_1)

lemma high_mask_eq: "- (2 ^ n) = (NOT (mask n) :: 'a::len word)"
  by (simp add: mask_eq_exp_minus_1 minus_eq_not_minus_1)

lemma bit_low_mask:
  "bit (2 ^ n - 1 :: 'a::len word) k \<longleftrightarrow> k < LENGTH('a) \<and> k < n"
  by (auto simp: low_mask_eq bit_simps)

lemma bit_high_mask:
  "bit (- (2 ^ n) :: 'a::len word) k \<longleftrightarrow> k < LENGTH('a) \<and> n \<le> k"
  by (auto simp: high_mask_eq bit_simps)

lemma unat_drop_bit: "unat (drop_bit n w) = unat w div 2 ^ n" for w :: "'a::len word"
  unfolding unat_drop_bit_eq by (rule drop_bit_eq_div)

lemma unat_take_bit: "unat (take_bit n w) = unat w mod 2 ^ n" for w :: "'a::len word"
  unfolding unsigned_take_bit_eq by (rule take_bit_eq_mod)

lemma unat_inc: "i < n \<Longrightarrow> unat (i + 1) = Suc (unat i)" for i :: u64
  using u64_bounded [of n] by (auto simp: word_less_nat_alt unat_plus_if')

lemma word_inc_measure: "i < n \<Longrightarrow> unat n - unat (i + 1) < unat n - unat i" for i :: u64
  by (simp add: unat_inc word_less_nat_alt)

lemma bit_word_unat: "bit w k \<longleftrightarrow> odd (unat w div 2 ^ k)" for w :: "'a::len word"
proof -
  have "bit (unat w) k \<longleftrightarrow> bit w k"
    by (simp add: bit_simps)
  then show ?thesis by (simp add: bit_iff_odd)
qed

lemma odd_div_2: "r < 4 \<Longrightarrow> odd ((4 * q + r) div 2) \<longleftrightarrow> 2 \<le> r" for q r :: nat
  by presburger

end
