(* ===== verification/Memory.thy ===== *)
theory Memory
  imports Prelude
begin

text \<open>
  Physical memory.  The monitor runs with its own memory identity mapped and reads and writes
  guest memory, page tables, the allocation bitmap and its tables through raw pointers, so the
  store is one total function from 64-bit addresses to bytes.  \<open>load_le n\<close> and
  \<open>store_le n\<close> are the little-endian accesses of \<open>n\<close> bytes; addresses wrap around
  at \<open>2 ^ 64\<close>, as pointer arithmetic does.
\<close>

type_synonym mem = "u64 \<Rightarrow> u8"

primrec load_le :: "nat \<Rightarrow> mem \<Rightarrow> u64 \<Rightarrow> 'a::len word" where
  "load_le 0 m a = 0"
| "load_le (Suc n) m a = ucast (m a) OR push_bit 8 (load_le n m (a + 1))"

primrec store_le :: "nat \<Rightarrow> mem \<Rightarrow> u64 \<Rightarrow> 'a::len word \<Rightarrow> mem" where
  "store_le 0 m a v = m"
| "store_le (Suc n) m a v = store_le n (m(a := ucast v)) (a + 1) (drop_bit 8 v)"

abbreviation load16 :: "mem \<Rightarrow> u64 \<Rightarrow> u16" where "load16 \<equiv> load_le 2"
abbreviation load32 :: "mem \<Rightarrow> u64 \<Rightarrow> u32" where "load32 \<equiv> load_le 4"
abbreviation load64 :: "mem \<Rightarrow> u64 \<Rightarrow> u64" where "load64 \<equiv> load_le 8"
abbreviation store16 :: "mem \<Rightarrow> u64 \<Rightarrow> u16 \<Rightarrow> mem" where "store16 \<equiv> store_le 2"
abbreviation store32 :: "mem \<Rightarrow> u64 \<Rightarrow> u32 \<Rightarrow> mem" where "store32 \<equiv> store_le 4"
abbreviation store64 :: "mem \<Rightarrow> u64 \<Rightarrow> u64 \<Rightarrow> mem" where "store64 \<equiv> store_le 8"

text \<open>An address range of \<open>n\<close> bytes, with the distance from its start as the index.\<close>

definition in_range :: "u64 \<Rightarrow> nat \<Rightarrow> u64 \<Rightarrow> bool" where
  "in_range a n x \<longleftrightarrow> unat (x - a) < n"

definition disjoint_ranges :: "u64 \<Rightarrow> nat \<Rightarrow> u64 \<Rightarrow> nat \<Rightarrow> bool" where
  "disjoint_ranges a n b k \<longleftrightarrow> (\<forall>x. \<not> (in_range a n x \<and> in_range b k x))"

named_theorems mem_simps \<open>reading back what was written\<close>

lemma bit_load_le:
  "bit (load_le n m a :: 'a::len word) k \<longleftrightarrow>
     k < 8 * n \<and> k < LENGTH('a) \<and> bit (m (a + of_nat (k div 8))) (k mod 8)"
proof (induction n arbitrary: a k)
  case (Suc n)
  show ?case
  proof (cases "k < 8")
    case True
    then show ?thesis by (auto simp: bit_simps)
  next
    case False
    then obtain j where j: "k = j + 8"
      by (metis add.commute le_Suc_ex not_less)
    have addr: "a + 1 + of_nat (j div 8) = a + of_nat (k div 8)"
      by (simp add: j add.assoc [symmetric] div_add_self2)
    have nb: "\<not> bit (m a) k"
      using False bit_imp_le_length [of "m a" k] by auto
    have sub: "k - 8 = j" "k mod 8 = j mod 8"
      using j by simp_all
    show ?thesis
      using False Suc.IH [of "a + 1" j] nb
      by (auto simp: bit_simps sub addr j simp del: of_nat_add)
  qed
qed simp

lemma store_le_apply:
  "n < 2 ^ 64 \<Longrightarrow> store_le n m a v x =
     (if unat (x - a) < n then ucast (drop_bit (8 * unat (x - a)) v) else m x)"
proof (induction n arbitrary: m a v)
  case (Suc n)
  show ?case
  proof (cases "x = a")
    case True
    have "a - (a + 1) = (-1 :: u64)" by simp
    then have "unat (a - (a + 1)) = 2 ^ 64 - 1"
      by (simp only: unsigned_minus_1_eq_mask) (simp add: mask_eq_exp_minus_1)
    then show ?thesis using True Suc by simp
  next
    case False
    then have "x - a \<noteq> 0" by simp
    then have "unat (x - a) = Suc (unat (x - a - 1))"
      by (metis Suc_pred' unat_gt_0 unat_minus_one)
    moreover have "x - a - 1 = x - (a + 1)" by simp
    ultimately have "unat (x - a) = Suc (unat (x - (a + 1)))" by simp
    then show ?thesis using False Suc by (simp add: drop_bit_drop_bit add.commute)
  qed
qed simp

lemma store_le_other:
  "n < 2 ^ 64 \<Longrightarrow> \<not> in_range a n x \<Longrightarrow> store_le n m a v x = m x"
  by (simp add: store_le_apply in_range_def)

lemma load_le_cong:
  assumes "\<And>i. i < n \<Longrightarrow> m (a + of_nat i) = m' (a + of_nat i)"
  shows "load_le n m a = (load_le n m' a :: 'a::len word)"
  by (rule bit_word_eqI) (auto simp: bit_load_le assms less_mult_imp_div_less mult.commute)

lemma load_store_same:
  assumes "8 * n = LENGTH('a)" and "n < 2 ^ 64"
  shows "load_le n (store_le n m a v) a = (v :: 'a::len word)"
proof (rule bit_word_eqI)
  fix k assume k: "k < LENGTH('a)"
  then have d: "k div 8 < n" using assms(1) by linarith
  then have "unat (of_nat (k div 8) :: u64) = k div 8"
    using assms(2) by (intro unat_of_nat_u64) linarith
  then have "store_le n m a v (a + of_nat (k div 8)) = ucast (drop_bit (8 * (k div 8)) v)"
    using assms(2) d by (simp add: store_le_apply)
  then show "bit (load_le n (store_le n m a v) a :: 'a word) k = bit v k"
    using k assms(1) by (simp add: bit_load_le bit_simps)
qed

lemma load_store_disjoint:
  assumes "disjoint_ranges a n b k" and "n < 2 ^ 64" and "k < 2 ^ 64"
  shows "load_le n (store_le k m b v) a = load_le n m a"
proof (rule load_le_cong)
  fix i assume "i < n"
  then have "in_range a n (a + of_nat i)"
    using assms(2) by (simp add: in_range_def unat_of_nat_u64 del: unat_of_nat)
  then have "\<not> in_range b k (a + of_nat i)"
    using assms(1) by (auto simp: disjoint_ranges_def)
  then show "store_le k m b v (a + of_nat i) = m (a + of_nat i)"
    by (rule store_le_other [OF assms(3)])
qed

text \<open>Two accesses at fixed offsets from one base: the distances are computed by \<open>simp\<close>.\<close>

lemma disjoint_gap:
  assumes "n \<le> unat (b - a)" and "k \<le> unat (a - b)"
  shows "disjoint_ranges a n b k"
proof (cases "a = b")
  case True
  then show ?thesis using assms by (simp add: disjoint_ranges_def in_range_def)
next
  case False
  have sum: "unat (a - b) = 2 ^ 64 - unat (b - a)"
    using False u64_bounded [of a] u64_bounded [of b] by (auto simp: unat_sub_if' word_unat_eq_iff)
  show ?thesis unfolding disjoint_ranges_def
  proof (intro allI notI)
    fix x assume x: "in_range a n x \<and> in_range b k x"
    have split: "x - a = (x - b) + (b - a)" by simp
    have "unat (x - a) = unat (x - b) + unat (b - a) \<or> 2 ^ 64 \<le> unat (x - b) + unat (b - a)"
      unfolding split unat_plus_if' by auto
    then show False using x assms sum u64_bounded [of "b - a"] by (auto simp: in_range_def)
  qed
qed

lemma load_store_gap [mem_simps]:
  assumes "n \<le> unat (b - a)" and "k \<le> unat (a - b)"
  shows "load_le n (store_le k m b v) a = load_le n m a"
proof -
  have "n < 2 ^ 64" "k < 2 ^ 64" using assms u64_bounded [of "b - a"] u64_bounded [of "a - b"] by linarith+
  then show ?thesis using assms by (intro load_store_disjoint disjoint_gap)
qed

lemmas load_store [simp, mem_simps] =
  load_store_same [of 2, where 'a = 16, simplified]
  load_store_same [of 4, where 'a = 32, simplified]
  load_store_same [of 8, where 'a = 64, simplified]

text \<open>
  Arrays in memory.  Two different elements of an array of \<open>w\<close>-byte elements do not overlap, as
  long as the array does not wrap around the address space; no alignment is needed.
\<close>

lemma disjoint_offsets:
  assumes "p + n \<le> q" and "q + k \<le> 2 ^ 64"
  shows "disjoint_ranges (base + of_nat p) n (base + of_nat q) k"
  unfolding disjoint_ranges_def
proof (intro allI notI)
  fix x assume x: "in_range (base + of_nat p) n x \<and> in_range (base + of_nat q) k x"
  define i where "i = unat (x - (base + of_nat p))"
  define j where "j = unat (x - (base + of_nat q))"
  have ij: "i < n" "j < k" using x by (simp_all add: i_def j_def in_range_def)
  have "x = base + of_nat (p + i)" by (simp add: i_def)
  moreover have "x = base + of_nat (q + j)" by (simp add: j_def)
  ultimately have "(of_nat (p + i) :: u64) = of_nat (q + j)" by (metis add_left_cancel)
  then have "unat (of_nat (p + i) :: u64) = unat (of_nat (q + j) :: u64)" by (rule arg_cong)
  moreover have "p + i < 2 ^ 64" "q + j < 2 ^ 64" using ij assms by linarith+
  ultimately have "p + i = q + j" by (simp only: unat_of_nat_u64)
  then show False using ij assms by linarith
qed

lemma disjoint_sym: "disjoint_ranges a n b k \<longleftrightarrow> disjoint_ranges b k a n"
  by (auto simp: disjoint_ranges_def)

lemma disjoint_array:
  assumes "i \<noteq> j" and "w * Suc i \<le> 2 ^ 64" and "w * Suc j \<le> 2 ^ 64"
  shows "disjoint_ranges (base + of_nat (w * i)) w (base + of_nat (w * j)) w"
proof (cases "i < j")
  case True
  then have "w * Suc i \<le> w * j" by (simp add: Suc_le_eq del: mult_Suc_right)
  then show ?thesis using assms by (intro disjoint_offsets) (simp_all add: mult_ac)
next
  case False
  then have "w * Suc j \<le> w * i" using assms(1) by (intro mult_le_mono2) linarith
  then show ?thesis using assms by (subst disjoint_sym, intro disjoint_offsets) (simp_all add: mult_ac)
qed
lemma load_store_array:
  assumes "i \<noteq> j" and "w * Suc i \<le> 2 ^ 64" and "w * Suc j \<le> 2 ^ 64" and "w < 2^64"
  shows "load_le w (store_le w m (base + of_nat (w * j)) v) (base + of_nat (w * i)) = load_le w m (base + of_nat (w * i))"
  using assms by (intro load_store_disjoint disjoint_array)

lemma unat_minus_less:
  fixes w q :: u64
  assumes "unat q + n \<le> 2 ^ 64"
  shows "unat (w - q) < n \<longleftrightarrow> unat q \<le> unat w \<and> unat w < unat q + n"
  using assms u64_bounded [of w] u64_bounded [of q] by (auto simp: unat_sub_if')

lemma in_range_offset:
  assumes "q + n \<le> 2 ^ 64"
  shows "in_range (base + of_nat q) n x \<longleftrightarrow> q \<le> unat (x - base) \<and> unat (x - base) < q + n"
proof (cases "n = 0")
  case False
  then have q: "unat (of_nat q :: u64) = q"
    using assms by (intro unat_of_nat_u64) linarith
  then show ?thesis
    using unat_minus_less [of "of_nat q" n "x - base"] assms
    by (simp only: in_range_def diff_diff_add)
qed (simp add: in_range_def)

subsection \<open>The interface of a table\<close>

text \<open>
  A table in memory: an entry read after a write is the one written, if it is the same entry, and
  the old one otherwise.  The monitor keeps its bitmap, its page tables and its lists in such
  tables.
\<close>

locale word_table =
  fixes get :: "'s \<Rightarrow> nat \<Rightarrow> 'v"
    and put :: "'s \<Rightarrow> nat \<Rightarrow> 'v \<Rightarrow> 's"
    and slots :: nat
  assumes get_put_same: "i < slots \<Longrightarrow> get (put s i v) i = v"
    and get_put_other: "i < slots \<Longrightarrow> j < slots \<Longrightarrow> i \<noteq> j \<Longrightarrow> get (put s i v) j = get s j"
begin

lemma get_put: "i < slots \<Longrightarrow> j < slots \<Longrightarrow> get (put s i v) j = (if i = j then v else get s j)"
  by (auto simp: get_put_same get_put_other)

text \<open>Filling a list of slots: each slot has the value the list gives it.\<close>

lemma get_fill:
  assumes "\<forall>i \<in> set is. i < slots" and "j < slots"
  shows "get (foldl (\<lambda>s i. put s i (f i)) s is) j = (if j \<in> set is then f j else get s j)"
  using assms(1)
proof (induction "is" arbitrary: s)
  case (Cons i "is")
  then show ?case using assms(2) by (auto simp: get_put)
qed simp

text \<open>An update in place of every slot of a range.\<close>

lemma get_map_slots:
  assumes "n \<le> slots" and "j < slots"
  shows "get (foldl (\<lambda>s i. put s i (f (get s i))) s [0 ..< n]) j = (if j < n then f (get s j) else get s j)"
  using assms
  by (induction n) (auto simp: get_put)

end

end
