(* ===== verification/Pages.thy ===== *)
theory Pages
  imports Prelude
begin

text \<open>
  The page arithmetic and page table constants of \<open>include/page.h\<close>.  The masks are
  \<open>int\<close> constants in the code; applied to an \<open>unsigned long\<close> they are sign extended, so
  \<open>PAGE_MASK\<close> clears exactly the twelve low bits.
\<close>

abbreviation PAGE_SHIFT :: nat where "PAGE_SHIFT \<equiv> 12"
abbreviation PAGE_SHIFT_2MB :: nat where "PAGE_SHIFT_2MB \<equiv> 21"
abbreviation PAGE_SHIFT_4MB :: nat where "PAGE_SHIFT_4MB \<equiv> 22"

definition PAGE_SIZE :: u64 where "PAGE_SIZE = push_bit PAGE_SHIFT 1"
definition PAGE_MASK :: u64 where "PAGE_MASK = NOT (PAGE_SIZE - 1)"
definition PAGE_SIZE_2MB :: u64 where "PAGE_SIZE_2MB = push_bit PAGE_SHIFT_2MB 1"
definition PAGE_MASK_2MB :: u64 where "PAGE_MASK_2MB = NOT (PAGE_SIZE_2MB - 1)"
definition PAGE_SIZE_4MB :: u64 where "PAGE_SIZE_4MB = push_bit PAGE_SHIFT_4MB 1"
definition PAGE_MASK_4MB :: u64 where "PAGE_MASK_4MB = NOT (PAGE_SIZE_4MB - 1)"

definition PFN_UP :: "u64 \<Rightarrow> u64" where "PFN_UP x = drop_bit PAGE_SHIFT (x + PAGE_SIZE - 1)"
definition PFN_DOWN :: "u64 \<Rightarrow> u64" where "PFN_DOWN x = drop_bit PAGE_SHIFT x"

definition PAGE_UP :: "u64 \<Rightarrow> u64" where "PAGE_UP p = (p + (PAGE_SIZE - 1)) AND PAGE_MASK"
definition PAGE_DOWN :: "u64 \<Rightarrow> u64" where "PAGE_DOWN p = p AND PAGE_MASK"
definition PAGE_UP_2MB :: "u64 \<Rightarrow> u64" where
  "PAGE_UP_2MB p = (p + (PAGE_SIZE_2MB - 1)) AND PAGE_MASK_2MB"
definition PAGE_DOWN_2MB :: "u64 \<Rightarrow> u64" where "PAGE_DOWN_2MB p = p AND PAGE_MASK_2MB"
definition PAGE_UP_4MB :: "u64 \<Rightarrow> u64" where
  "PAGE_UP_4MB p = (p + (PAGE_SIZE_4MB - 1)) AND PAGE_MASK_4MB"
definition PAGE_DOWN_4MB :: "u64 \<Rightarrow> u64" where "PAGE_DOWN_4MB p = p AND PAGE_MASK_4MB"

definition PTTEF_PRESENT :: u32 where "PTTEF_PRESENT = push_bit 0 1"
definition PTTEF_RW :: u32 where "PTTEF_RW = push_bit 1 1"
definition PTTEF_US :: u32 where "PTTEF_US = push_bit 2 1"
definition PTTEF_PAGE_SIZE :: u32 where "PTTEF_PAGE_SIZE = push_bit 7 1"

subsection \<open>Rounding\<close>

lemmas page_consts = PAGE_SIZE_def PAGE_MASK_def PAGE_SIZE_2MB_def PAGE_MASK_2MB_def
  PAGE_SIZE_4MB_def PAGE_MASK_4MB_def

text \<open>Clearing the low \<open>n\<close> bits rounds down to a multiple of \<open>2 ^ n\<close>.\<close>

lemma and_not_low_mask: "p AND NOT (2 ^ n - 1) = push_bit n (drop_bit n p)" for p :: u64
  by (rule bit_word_eqI) (auto simp: bit_simps bit_low_mask)

lemma unat_push_drop: "unat (push_bit n (drop_bit n p)) = unat p div 2 ^ n * 2 ^ n" for p :: u64
proof -
  have "push_bit n (drop_bit n p) = p - take_bit n p"
    by (metis add_diff_cancel_right' bits_ident)
  moreover have "unat (take_bit n p) \<le> unat p"
    unfolding unat_take_bit by simp
  ultimately have "unat (push_bit n (drop_bit n p)) = unat p - unat (take_bit n p)"
    by (simp only: unat_sub word_le_nat_alt)
  then show ?thesis
    by (simp only: unat_take_bit minus_mod_eq_div_mult)
qed

lemma unat_PAGE_DOWN: "unat (PAGE_DOWN p) = unat p div 4096 * 4096"
proof -
  have "PAGE_DOWN p = push_bit 12 (drop_bit 12 p)"
    using and_not_low_mask [of p 12] by (simp add: PAGE_DOWN_def PAGE_MASK_def PAGE_SIZE_def)
  then show ?thesis
    by (simp only: unat_push_drop) simp
qed

lemma unat_plus_4095: "unat p + 4095 < 2 ^ 64 \<Longrightarrow> unat (p + 4095) = unat p + 4095" for p :: u64
  by (simp add: unat_plus_if')

lemma unat_PAGE_UP:
  assumes "unat p + 4095 < 2 ^ 64"
  shows "unat (PAGE_UP p) = (unat p + 4095) div 4096 * 4096"
proof -
  have "PAGE_UP p = PAGE_DOWN (p + 4095)"
    by (simp add: PAGE_UP_def PAGE_DOWN_def PAGE_SIZE_def)
  then show ?thesis by (simp only: unat_PAGE_DOWN unat_plus_4095 [OF assms])
qed

lemma unat_shr_page: "unat (drop_bit PAGE_SHIFT p) = unat p div 4096" for p :: u64
  by (simp only: unat_drop_bit) simp

lemma unat_PFN_DOWN: "unat (PFN_DOWN p) = unat p div 4096"
  by (simp only: PFN_DOWN_def unat_shr_page)

lemma unat_PFN_UP:
  assumes "unat p + 4095 < 2 ^ 64"
  shows "unat (PFN_UP p) = (unat p + 4095) div 4096"
proof -
  have "p + PAGE_SIZE - 1 = p + 4095"
    by (simp add: PAGE_SIZE_def)
  then show ?thesis
    by (simp only: PFN_UP_def unat_shr_page unat_plus_4095 assms)
qed

end
