(* ===== verification/E820.thy ===== *)
theory E820
  imports Memory Pages
begin

text \<open>
  \<open>kernel/e820.c\<close>, \<open>include/e820.h\<close>, \<open>include/multiboot.h\<close>: the physical memory map.
  GRUB leaves a list of \<open>struct memory_map\<close> entries in memory; \<open>setup_memory_region\<close>
  copies it into the monitor's own \<open>e820_map\<close>, \<open>get_nr_pages\<close> and \<open>get_max_pfn\<close>
  measure it, and \<open>hide_memory\<close>, which nothing calls, edits GRUB's list in place so that the guest
  would not see the monitor.  The \<open>outf\<close> traces of these boot functions are not modelled.
\<close>

subsection \<open>Data\<close>

definition E820_MAX_ENTRIES :: nat where "E820_MAX_ENTRIES = 128"

definition E820_RAM :: u32 where "E820_RAM = 1"
definition E820_RESERVED :: u32 where "E820_RESERVED = 2"
definition E820_ACPI :: u32 where "E820_ACPI = 3"
definition E820_NVS :: u32 where "E820_NVS = 4"

record e820_entry =
  addr :: u64
  size_of :: u64
  etype :: u32

text \<open>\<open>emap\<close> is the array of \<open>E820_MAX_ENTRIES\<close> entries; the first \<open>nr_map\<close> are in use.\<close>

record e820_map =
  nr_map :: nat
  emap :: "e820_entry list"

definition entries :: "e820_map \<Rightarrow> e820_entry list" where
  "entries e = take (nr_map e) (emap e)"

definition wf_e820 :: "e820_map \<Rightarrow> bool" where
  "wf_e820 e \<longleftrightarrow> nr_map e \<le> E820_MAX_ENTRIES \<and> length (emap e) = E820_MAX_ENTRIES"

record multiboot_info =
  mbi_flags :: u32
  mbi_cmdline :: u32
  mmap_length :: u32
  mmap_addr :: u32

definition MBI_CMDLINE :: u32 where "MBI_CMDLINE = push_bit 2 1"
definition MBI_MEMMAP :: u32 where "MBI_MEMMAP = push_bit 6 1"

text \<open>\<open>struct memory_map\<close>: six 32-bit fields, \<open>size\<close> first.\<close>

definition mmap_size :: "mem \<Rightarrow> u64 \<Rightarrow> u32" where "mmap_size m p = load32 m p"
definition base_addr_low :: "mem \<Rightarrow> u64 \<Rightarrow> u32" where "base_addr_low m p = load32 m (p + 4)"
definition base_addr_high :: "mem \<Rightarrow> u64 \<Rightarrow> u32" where "base_addr_high m p = load32 m (p + 8)"
definition length_low :: "mem \<Rightarrow> u64 \<Rightarrow> u32" where "length_low m p = load32 m (p + 12)"
definition length_high :: "mem \<Rightarrow> u64 \<Rightarrow> u32" where "length_high m p = load32 m (p + 16)"
definition mmap_type :: "mem \<Rightarrow> u64 \<Rightarrow> u32" where "mmap_type m p = load32 m (p + 20)"

definition join64 :: "u32 \<Rightarrow> u32 \<Rightarrow> u64" where
  "join64 high low = push_bit 32 (ucast high) OR ucast low"

subsection \<open>Building the map\<close>

definition add_memory_region :: "e820_map \<Rightarrow> u64 \<Rightarrow> u64 \<Rightarrow> u32 \<Rightarrow> e820_map res" where
  "add_memory_region e start sz ty =
     (if nr_map e \<ge> E820_MAX_ENTRIES
      then fatal_failure (line ''Too many entries in the memory map.'')
      else Inr (e\<lparr>emap := (emap e)[nr_map e := \<lparr>addr = start, size_of = sz, etype = ty\<rparr>],
                  nr_map := nr_map e + 1\<rparr>))"

text \<open>
  The \<open>while\<close> loop of \<open>setup_memory_region\<close>.  The offset is 64 bits wide and grows by at
  least four bytes a step, so the loop ends whatever the sizes found in memory are.
\<close>

lemma mmap_step_less:
  assumes "p < (ucast (len :: u32) :: u64)"
  shows "unat (ucast len :: u64) - unat (p + (ucast (s :: u32) + 4)) <
    unat (ucast len :: u64) - unat (p :: u64)"
proof -
  have l: "unat (ucast len :: u64) < 2 ^ 32" and s: "unat (ucast s :: u64) < 2 ^ 32"
    using unsigned_less [of len] unsigned_less [of s] by simp_all
  have p: "unat p < unat (ucast len :: u64)"
    using assms by (simp add: word_less_nat_alt)
  have "unat (p + (ucast s + 4)) = unat p + (unat (ucast s :: u64) + 4)"
    using l s p by (simp add: unat_plus_if')
  then show ?thesis using p by linarith
qed

function setup_loop :: "mem \<Rightarrow> multiboot_info \<Rightarrow> u64 \<Rightarrow> e820_map \<Rightarrow> e820_map res" where
  "setup_loop m mbi p e =
     (if p < ucast (mmap_length mbi) then
        let mmap = ucast (mmap_addr mbi) + p;
            start = join64 (base_addr_high m mmap) (base_addr_low m mmap);
            sz = join64 (length_high m mmap) (length_low m mmap)
        in bindr (add_memory_region e start sz (mmap_type m mmap))
             (\<lambda>e'. setup_loop m mbi (p + (ucast (mmap_size m mmap) + 4)) e')
      else Inr e)"
  by pat_completeness auto
termination
  by (relation "measure (\<lambda>(m, mbi, p, e). unat (ucast (mmap_length mbi) :: u64) - unat p)")
    (simp, simp only: in_measure split, rule mmap_step_less)

declare setup_loop.simps [simp del]

definition setup_memory_region :: "mem \<Rightarrow> multiboot_info \<Rightarrow> e820_map \<Rightarrow> e820_map res" where
  "setup_memory_region m mbi e =
     (if \<not> ctrue (mbi_flags mbi AND MBI_MEMMAP)
      then fatal_failure (line ''Bootloader provided no memory information.'')
      else setup_loop m mbi 0 (e\<lparr>nr_map := 0\<rparr>))"

subsection \<open>Measuring the map\<close>

text \<open>The loops run over the first \<open>nr_map\<close> entries and skip those that are not RAM.\<close>

primrec nr_pages_loop :: "u64 \<Rightarrow> e820_entry list \<Rightarrow> u64" where
  "nr_pages_loop n [] = n"
| "nr_pages_loop n (p # ps) =
     (if etype p \<noteq> E820_RAM then nr_pages_loop n ps
      else nr_pages_loop (n + drop_bit PAGE_SHIFT (size_of p)) ps)"

definition get_nr_pages :: "e820_map \<Rightarrow> u64" where
  "get_nr_pages e = nr_pages_loop 0 (entries e)"

primrec max_pfn_loop :: "u64 \<Rightarrow> e820_entry list \<Rightarrow> u64" where
  "max_pfn_loop n [] = n"
| "max_pfn_loop n (p # ps) =
     (if etype p \<noteq> E820_RAM then max_pfn_loop n ps
      else let start = PFN_UP (addr p); end = PFN_DOWN (addr p + size_of p)
           in max_pfn_loop (if start < end \<and> end > n then end else n) ps)"

definition get_max_pfn :: "e820_map \<Rightarrow> u64" where
  "get_max_pfn e = max_pfn_loop 0 (entries e)"

text \<open>The trace of \<open>e820_print_map\<close>: its calls of \<open>outf\<close>, in order.\<close>

definition print_entry :: "e820_entry \<Rightarrow> out_call list" where
  "print_entry p =
     [('' %x -'', [ArgX (addr p)]), ('' %x '', [ArgX (addr p + size_of p)]),
      if etype p = E820_RAM then (line ''(usable)'', [])
      else if etype p = E820_RESERVED then (line ''(reserved)'', [])
      else if etype p = E820_ACPI then (line ''(ACPI data)'', [])
      else if etype p = E820_NVS then (line ''(ACPI NVS)'', [])
      else (line ''type %x'', [ArgX (ucast (etype p))])]"

definition e820_print_map :: "e820_map \<Rightarrow> out_call list" where
  "e820_print_map e =
     (line ''BIOS-provided physical RAM map:'', []) # concat (map print_entry (entries e))"

subsection \<open>Hiding the monitor from the guest\<close>

definition set_type :: "mem \<Rightarrow> u64 \<Rightarrow> u32 \<Rightarrow> mem" where
  "set_type m p t = store32 m (p + 20) t"
definition set_base :: "mem \<Rightarrow> u64 \<Rightarrow> u64 \<Rightarrow> mem" where
  "set_base m p v = store32 (store32 m (p + 4) (ucast v)) (p + 8) (ucast (drop_bit 32 v))"
definition set_length :: "mem \<Rightarrow> u64 \<Rightarrow> u64 \<Rightarrow> mem" where
  "set_length m p v = store32 (store32 m (p + 12) (ucast v)) (p + 16) (ucast (drop_bit 32 v))"

definition mmap_base64 :: "mem \<Rightarrow> u64 \<Rightarrow> u64" where
  "mmap_base64 m p = join64 (base_addr_high m p) (base_addr_low m p)"
definition mmap_length64 :: "mem \<Rightarrow> u64 \<Rightarrow> u64" where
  "mmap_length64 m p = join64 (length_high m p) (length_low m p)"

text \<open>
  The body of the loop for the entry at \<open>p\<close>, from the type test to the end.  The replace
  request is the pair of \<open>replace_start\<close> and \<open>replace_size\<close>.  The locals
  \<open>newstart\<close> and \<open>newend\<close> are not initialised in the code: what they hold when no branch
  sets them is the argument \<open>junk\<close>.
\<close>

definition hide_entry ::
    "u64 \<Rightarrow> u64 \<Rightarrow> u64 \<times> u64 \<Rightarrow> u64 \<Rightarrow> mem \<times> u64 \<times> u64 \<Rightarrow> mem \<times> u64 \<times> u64" where
  "hide_entry hidestart hideend junk p = (\<lambda>(m, replace_start, replace_size).
     if mmap_type m p \<noteq> E820_RAM then
       (if replace_size \<noteq> 0 \<and> mmap_type m p = E820_RESERVED
        then (set_length (set_base (set_type m p E820_RAM) p replace_start) p replace_size,
              replace_start, 0)
        else (m, replace_start, replace_size))
     else
       let start = mmap_base64 m p;
           sz = mmap_length64 m p;
           end = start + sz
       in if start < hidestart \<and> end > hideend
          then (set_length m p (hidestart - start), hideend + 1, end - (hideend + 1))
          else
            let b_start = hidestart \<le> start \<and> start \<le> hideend;
                b_end = hidestart \<le> end \<and> end \<le> hideend;
                newstart = (if b_start then hideend + 1 else fst junk);
                newend = (if b_end then hidestart - 1 else snd junk)
            in if \<not> b_start \<and> \<not> b_end then (m, replace_start, replace_size)
               else if end > start
               then (set_length (set_base m p newstart) p (newend - newstart),
                     replace_start, replace_size)
               else (set_type m p E820_RESERVED, replace_start, replace_size))"

text \<open>
  The loop.  The offset is a 32-bit variable; it may wrap around when the sizes read from memory
  are large, so the loop need not end.  The step to the next entry is taken before the entry is
  edited.  \<open>junk\<close> gives the uninitialised locals of each round.
\<close>

partial_function (option) hide_loop ::
    "u32 \<Rightarrow> u64 \<Rightarrow> u64 \<Rightarrow> u64 \<Rightarrow> (u32 \<Rightarrow> u64 \<times> u64) \<Rightarrow> u32 \<Rightarrow> mem \<times> u64 \<times> u64 \<Rightarrow> mem option"
  where
  "hide_loop len map_base hidestart hideend junk offset st =
     (if offset < len then
        let p = map_base + ucast offset
        in hide_loop len map_base hidestart hideend junk
             (offset + (mmap_size (fst st) p + 4)) (hide_entry hidestart hideend (junk offset) p st)
      else Some (fst st))"

definition hide_memory ::
    "mem \<Rightarrow> multiboot_info \<Rightarrow> u64 \<Rightarrow> u64 \<Rightarrow> (u32 \<Rightarrow> u64 \<times> u64) \<Rightarrow> mem option" where
  "hide_memory m mbi hidestart len junk =
     hide_loop (mmap_length mbi) (ucast (mmap_addr mbi)) hidestart (hidestart + len - 1) junk 0
       (m, 0, 0)"

subsection \<open>Reading and writing one entry\<close>

lemma join64_split [simp]: "join64 (ucast (drop_bit 32 v)) (ucast v) = v" for v :: u64
  by (rule bit_word_eqI) (auto simp: join64_def bit_simps)

lemmas mmap_fields = mmap_size_def base_addr_low_def base_addr_high_def length_low_def
  length_high_def mmap_type_def mmap_base64_def mmap_length64_def

lemma set_type_fields [mem_simps]:
  "mmap_size (set_type m p t) p = mmap_size m p"
  "mmap_base64 (set_type m p t) p = mmap_base64 m p"
  "mmap_length64 (set_type m p t) p = mmap_length64 m p"
  "mmap_type (set_type m p t) p = t"
  by (simp_all add: set_type_def mmap_fields mem_simps)

lemma set_base_fields [mem_simps]:
  "mmap_size (set_base m p v) p = mmap_size m p"
  "mmap_base64 (set_base m p v) p = v"
  "mmap_length64 (set_base m p v) p = mmap_length64 m p"
  "mmap_type (set_base m p v) p = mmap_type m p"
  by (simp_all add: set_base_def mmap_fields mem_simps)

lemma set_length_fields [mem_simps]:
  "mmap_size (set_length m p v) p = mmap_size m p"
  "mmap_base64 (set_length m p v) p = mmap_base64 m p"
  "mmap_length64 (set_length m p v) p = v"
  "mmap_type (set_length m p v) p = mmap_type m p"
  by (simp_all add: set_length_def mmap_fields mem_simps)

text \<open>An entry as a value, and a list of entries laid out from \<open>p\<close>, 24 bytes each.\<close>

definition mmap_entry :: "mem \<Rightarrow> u64 \<Rightarrow> e820_entry" where
  "mmap_entry m p = \<lparr>addr = mmap_base64 m p, size_of = mmap_length64 m p, etype = mmap_type m p\<rparr>"

fun laid_out :: "mem \<Rightarrow> u64 \<Rightarrow> e820_entry list \<Rightarrow> bool" where
  "laid_out m p [] \<longleftrightarrow> True"
| "laid_out m p (x # xs) \<longleftrightarrow>
     mmap_size m p = 20 \<and> mmap_entry m p = x \<and> laid_out m (p + 24) xs"

lemma add_memory_region_push:
  assumes "wf_e820 e" and "nr_map e < E820_MAX_ENTRIES"
  obtains e' where "add_memory_region e s l t = Inr e'" and "wf_e820 e'"
    and "nr_map e' = Suc (nr_map e)"
    and "entries e' = entries e @ [\<lparr>addr = s, size_of = l, etype = t\<rparr>]"
proof -
  have len: "nr_map e < length (emap e)" using assms by (simp add: wf_e820_def)
  have "take (Suc (nr_map e)) ((emap e)[nr_map e := x]) = take (nr_map e) (emap e) @ [x]" for x
    using len by (simp add: take_Suc_conv_app_nth)
  then show thesis
    using assms by (intro that) (auto simp: add_memory_region_def wf_e820_def entries_def)
qed

lemma setup_loop_step:
  assumes "laid_out m (ucast (mmap_addr mbi) + p) (x # es)"
    and "unat p + 24 * length (x # es) = unat (mmap_length mbi)"
  shows "setup_loop m mbi p e =
      bindr (add_memory_region e (addr x) (size_of x) (etype x)) (setup_loop m mbi (p + 24))"
proof -
  let ?q = "ucast (mmap_addr mbi) + p"
  have more: "p < ucast (mmap_length mbi)" using assms(2) by (simp add: word_less_nat_alt)
  have x: "mmap_size m ?q = 20" "addr x = join64 (base_addr_high m ?q) (base_addr_low m ?q)"
      "size_of x = join64 (length_high m ?q) (length_low m ?q)" "etype x = mmap_type m ?q"
    using assms(1) by (auto simp: mmap_entry_def mmap_base64_def mmap_length64_def)
  show ?thesis
    unfolding setup_loop.simps [of m mbi p e] Let_def x(2-4) x(1) using more by simp
qed

lemma unat_step:
  assumes "unat p + 24 * length (x # es) = unat (len :: u32)"
  shows "unat (p + 24 :: u64) = unat p + 24"
proof -
  have "unat len < 2 ^ 32" using unat_word_less [of len] by simp
  then show ?thesis using assms by (simp add: unat_plus_if')
qed

lemma setup_loop_laid_out:
  assumes "laid_out m (ucast (mmap_addr mbi) + p) es" and "wf_e820 e"
    and "unat p + 24 * length es = unat (mmap_length mbi)"
  shows "if nr_map e + length es \<le> E820_MAX_ENTRIES
    then \<exists>e'. setup_loop m mbi p e = Inr e' \<and> wf_e820 e' \<and> entries e' = entries e @ es
    else setup_loop m mbi p e = fatal_failure (line ''Too many entries in the memory map.'')"
  using assms
proof (induction es arbitrary: p e)
  case Nil
  then have "\<not> p < ucast (mmap_length mbi)" by (simp add: word_less_nat_alt)
  then show ?case using Nil by (auto simp: setup_loop.simps [of m mbi p e] wf_e820_def)
next
  case (Cons x es)
  have p24: "unat (p + 24) = unat p + 24" by (rule unat_step [OF Cons.prems(3)])
  note step = setup_loop_step [OF Cons.prems(1,3)]
  show ?case
  proof (cases "nr_map e < E820_MAX_ENTRIES")
    case False
    then show ?thesis by (simp add: step add_memory_region_def)
  next
    case True
    obtain e1 where e1: "add_memory_region e (addr x) (size_of x) (etype x) = Inr e1"
      "wf_e820 e1" "nr_map e1 = Suc (nr_map e)" "entries e1 = entries e @ [\<lparr>addr = addr x, size_of = size_of x, etype = etype x\<rparr>]"
      by (rule add_memory_region_push [OF Cons.prems(2) True])
    have "laid_out m (ucast (mmap_addr mbi) + (p + 24)) es"
      using Cons.prems(1) by (simp add: add.assoc)
    moreover have "unat (p + 24) + 24 * length es = unat (mmap_length mbi)"
      using Cons.prems(3) p24 by simp
    ultimately have "if nr_map e1 + length es \<le> E820_MAX_ENTRIES
      then \<exists>e'. setup_loop m mbi (p + 24) e1 = Inr e' \<and> wf_e820 e' \<and> entries e' = entries e1 @ es
      else setup_loop m mbi (p + 24) e1 = fatal_failure (line ''Too many entries in the memory map.'')"
      using e1(2) by (intro Cons.IH)
    moreover have "\<lparr>addr = addr x, size_of = size_of x, etype = etype x\<rparr> = x" by simp
    ultimately show ?thesis unfolding step e1(1) by (auto simp: e1(3,4) split: if_splits)
  qed
qed

lemma setup_memory_region_laid_out:
  assumes "ctrue (mbi_flags mbi AND MBI_MEMMAP)" and "length (emap e) = E820_MAX_ENTRIES"
    and "laid_out m (ucast (mmap_addr mbi)) es" and "24 * length es = unat (mmap_length mbi)"
  shows "if length es \<le> E820_MAX_ENTRIES
    then \<exists>e'. setup_memory_region m mbi e = Inr e' \<and> wf_e820 e' \<and> entries e' = es
    else setup_memory_region m mbi e = fatal_failure (line ''Too many entries in the memory map.'')"
proof -
  have "wf_e820 (e\<lparr>nr_map := 0\<rparr>)" "entries (e\<lparr>nr_map := 0\<rparr>) = []" "nr_map (e\<lparr>nr_map := 0\<rparr>) = 0"
    using assms(2) by (simp_all add: wf_e820_def entries_def)
  then show ?thesis
    using setup_loop_laid_out [of m mbi 0 es "e\<lparr>nr_map := 0\<rparr>"] assms
    by (auto simp: setup_memory_region_def split: if_splits)
qed

subsection \<open>The highest page\<close>

text \<open>The last page number of the whole pages of a RAM region, 0 if there is none.\<close>

definition region_pfn :: "e820_entry \<Rightarrow> u64" where
  "region_pfn p = (if etype p = E820_RAM \<and> PFN_UP (addr p) < PFN_DOWN (addr p + size_of p)
     then PFN_DOWN (addr p + size_of p) else 0)"

lemma max_pfn_loop_max: "max_pfn_loop n ps = fold (\<lambda>p. max (region_pfn p)) ps n"
  by (induction ps arbitrary: n) (auto simp: region_pfn_def Let_def max_def)

lemma get_max_pfn_greatest:
  "p \<in> set (entries e) \<Longrightarrow> region_pfn p \<le> get_max_pfn e"
  "get_max_pfn e = 0 \<or> (\<exists>p \<in> set (entries e). get_max_pfn e = region_pfn p)"
proof -
  have eq: "get_max_pfn e = Max (set (0 # map region_pfn (entries e)))"
    unfolding Max.set_eq_fold get_max_pfn_def max_pfn_loop_max fold_map comp_def by simp
  show "p \<in> set (entries e) \<Longrightarrow> region_pfn p \<le> get_max_pfn e"
    unfolding eq by (intro Max_ge) auto
  show "get_max_pfn e = 0 \<or> (\<exists>p \<in> set (entries e). get_max_pfn e = region_pfn p)"
    using Max_in [of "set (0 # map region_pfn (entries e))"] unfolding eq by auto
qed

lemma nr_pages_loop_sum:
  "nr_pages_loop n ps =
     n + sum_list (map (\<lambda>p. drop_bit PAGE_SHIFT (size_of p)) (filter (\<lambda>p. etype p = E820_RAM) ps))"
  by (induction ps arbitrary: n) simp_all


subsection \<open>What hiding does to an entry\<close>

lemma hide_loop_end: "\<not> offset < len \<Longrightarrow> hide_loop len b hs he junk offset st = Some (fst st)"
  by (simp add: hide_loop.simps)

lemma hide_loop_next:
  assumes "offset < len" and "mmap_size (fst st) (b + ucast offset) = 20"
  shows "hide_loop len b hs he junk offset st =
    hide_loop len b hs he junk (offset + 24) (hide_entry hs he (junk offset) (b + ucast offset) st)"
  using assms by (simp add: hide_loop.simps [of len b hs he junk offset] Let_def)

text \<open>Editing one entry leaves the next one alone.\<close>

lemma next_entry [mem_simps]:
  "mmap_size (set_type m p t) (p + 24) = mmap_size m (p + 24)"
  "mmap_size (set_base m p v) (p + 24) = mmap_size m (p + 24)"
  "mmap_size (set_length m p v) (p + 24) = mmap_size m (p + 24)"
  "mmap_entry (set_type m p t) (p + 24) = mmap_entry m (p + 24)"
  "mmap_entry (set_base m p v) (p + 24) = mmap_entry m (p + 24)"
  "mmap_entry (set_length m p v) (p + 24) = mmap_entry m (p + 24)"
  by (simp_all add: set_type_def set_base_def set_length_def mmap_entry_def mmap_fields mem_simps)

lemma previous_entry [mem_simps]:
  "mmap_size (set_type m (p + 24) t) p = mmap_size m p"
  "mmap_size (set_base m (p + 24) v) p = mmap_size m p"
  "mmap_size (set_length m (p + 24) v) p = mmap_size m p"
  "mmap_entry (set_type m (p + 24) t) p = mmap_entry m p"
  "mmap_entry (set_base m (p + 24) v) p = mmap_entry m p"
  "mmap_entry (set_length m (p + 24) v) p = mmap_entry m p"
  by (simp_all add: set_type_def set_base_def set_length_def mmap_entry_def mmap_fields mem_simps)

lemma hide_entry_split:
  assumes "mmap_entry m p = \<lparr>addr = s, size_of = l, etype = E820_RAM\<rparr>"
    and "s < hs" and "s + l > he"
  shows "hide_entry hs he junk p (m, r) = (set_length m p (hs - s), he + 1, s + l - (he + 1))"
  using assms by (cases r) (auto simp: hide_entry_def mmap_entry_def Let_def)

lemma hide_entry_replace:
  assumes "mmap_type m p = E820_RESERVED" and "rz \<noteq> 0"
  shows "hide_entry hs he junk p (m, rs, rz) =
    (set_length (set_base (set_type m p E820_RAM) p rs) p rz, rs, 0)"
  using assms by (simp add: hide_entry_def E820_RAM_def E820_RESERVED_def)

text \<open>A RAM region that meets the hidden one and is not split gets a new start and end.\<close>

lemma hide_entry_adjust:
  assumes "mmap_entry m p = \<lparr>addr = s, size_of = l, etype = E820_RAM\<rparr>"
    and "\<not> (s < hs \<and> s + l > he)" and "s < s + l"
    and "hs \<le> s \<and> s \<le> he \<or> hs \<le> s + l \<and> s + l \<le> he"
  shows "hide_entry hs he junk p (m, r) =
    (let ns = (if hs \<le> s \<and> s \<le> he then he + 1 else fst junk);
         ne = (if hs \<le> s + l \<and> s + l \<le> he then hs - 1 else snd junk)
     in (set_length (set_base m p ns) p (ne - ns), r))"
  using assms by (cases r) (auto simp: hide_entry_def mmap_entry_def Let_def)

lemma hide_memory_split:
  assumes "laid_out m b [\<lparr>addr = s, size_of = l, etype = E820_RAM\<rparr>,
      \<lparr>addr = s2, size_of = l2, etype = E820_RESERVED\<rparr>]"
    and "b = ucast (mmap_addr mbi)" and "mmap_length mbi = 48"
    and "s < hs" and "hs + len - 1 < s + l" and "s + l \<noteq> hs + len"
  shows "\<exists>m'. hide_memory m mbi hs len junk = Some m' \<and>
    laid_out m' b [\<lparr>addr = s, size_of = hs - s, etype = E820_RAM\<rparr>,
      \<lparr>addr = hs + len, size_of = s + l - (hs + len), etype = E820_RAM\<rparr>]"
proof -
  let ?m1 = "set_length m b (hs - s)"
  let ?m2 = "set_length (set_base (set_type ?m1 (b + 24) E820_RAM) (b + 24) (hs + len)) (b + 24)
    (s + l - (hs + len))"
  have e1: "mmap_entry m b = \<lparr>addr = s, size_of = l, etype = E820_RAM\<rparr>" "mmap_size m b = 20"
    "mmap_entry m (b + 24) = \<lparr>addr = s2, size_of = l2, etype = E820_RESERVED\<rparr>"
    "mmap_size m (b + 24) = 20"
    using assms(1) by simp_all
  have r: "mmap_type ?m1 (b + 24) = E820_RESERVED"
    using e1(3) next_entry(6) [of m b "hs - s"] by (simp add: mmap_entry_def)
  have nz: "s + l - (hs + len) \<noteq> 0" using assms(6) by simp
  have "hide_memory m mbi hs len junk =
      hide_loop 48 b hs (hs + len - 1) junk 24 (?m1, hs + len, s + l - (hs + len))"
    using hide_loop_next [of 0 48 "(m, 0, 0)" b hs "hs + len - 1" junk] e1
      hide_entry_split [OF e1(1) assms(4,5), of "junk 0" "(0, 0)"]
    by (simp add: hide_memory_def assms(2,3))
  also have "\<dots> = Some ?m2"
    using hide_loop_next [of 24 48 "(?m1, hs + len, s + l - (hs + len))" b hs "hs + len - 1" junk]
      hide_entry_replace [OF r nz, of hs "hs + len - 1" "junk 24" "hs + len"] e1(4)
    by (simp add: mem_simps hide_loop_end)
  finally have "hide_memory m mbi hs len junk = Some ?m2" .
  moreover have "mmap_entry ?m1 b = \<lparr>addr = s, size_of = hs - s, etype = E820_RAM\<rparr>"
    using e1(1) by (simp add: mmap_entry_def mem_simps)
  ultimately show ?thesis
    using e1 by (auto simp: mem_simps) (simp add: mmap_entry_def mem_simps)
qed

lemma hide_memory_overlap_unspecified:
  assumes "laid_out m b [\<lparr>addr = s, size_of = l, etype = E820_RAM\<rparr>]"
    and "b = ucast (mmap_addr mbi)" and "mmap_length mbi = 24"
    and "hs \<le> s" and "s \<le> hs + len - 1" and "hs + len - 1 < s + l"
  shows "\<exists>junk m'. hide_memory m mbi hs len junk = Some m' \<and>
    mmap_entry m' b = \<lparr>addr = hs + len, size_of = L, etype = E820_RAM\<rparr>"
proof -
  let ?j = "\<lambda>_. (0, L + (hs + len))"
  let ?m1 = "set_length (set_base m b (hs + len)) b L"
  have e1: "mmap_entry m b = \<lparr>addr = s, size_of = l, etype = E820_RAM\<rparr>" "mmap_size m b = 20"
    using assms(1) by simp_all
  have "hide_entry hs (hs + len - 1) (0, L + (hs + len)) b (m, 0, 0) = (?m1, 0, 0)"
    using hide_entry_adjust [OF e1(1), of hs "hs + len - 1" "(0, L + (hs + len))" "(0, 0)"]
      assms(4,5) order_le_less_trans [OF assms(5,6)] assms(6)
    by (simp add: Let_def not_less not_le not_le [THEN iffD2, OF assms(6)])
  then have "hide_memory m mbi hs len ?j = Some ?m1"
    using hide_loop_next [of 0 24 "(m, 0, 0)" b hs "hs + len - 1" ?j] e1(2)
    by (simp add: hide_memory_def assms(2,3) hide_loop_end)
  moreover have "mmap_entry ?m1 b = \<lparr>addr = hs + len, size_of = L, etype = E820_RAM\<rparr>"
    using e1(1) by (simp add: mmap_entry_def mem_simps)
  ultimately show ?thesis by blast
qed


lemma hide_memory_contained:
  assumes "laid_out m b [\<lparr>addr = s, size_of = l, etype = E820_RAM\<rparr>]"
    and "b = ucast (mmap_addr mbi)" and "mmap_length mbi = 24"
    and "hs \<le> s" and "s < s + l" and "s + l \<le> hs + len - 1"
  shows "\<exists>m'. hide_memory m mbi hs len junk = Some m' \<and>
    mmap_entry m' b = \<lparr>addr = hs + len, size_of = - 1 - len, etype = E820_RAM\<rparr>"
proof -
  let ?m1 = "set_length (set_base m b (hs + len)) b (- 1 - len)"
  have e1: "mmap_entry m b = \<lparr>addr = s, size_of = l, etype = E820_RAM\<rparr>" "mmap_size m b = 20"
    using assms(1) by simp_all
  have "s \<le> hs + len - 1" "hs \<le> s + l" using assms(4-6) by order+
  then have "hide_entry hs (hs + len - 1) (junk 0) b (m, 0, 0) = (?m1, 0, 0)"
    using hide_entry_adjust [OF e1(1), of hs "hs + len - 1" "junk 0" "(0, 0)"] assms(4-6)
    by (simp add: Let_def not_less leD)
  then have "hide_memory m mbi hs len junk = Some ?m1"
    using hide_loop_next [of 0 24 "(m, 0, 0)" b hs "hs + len - 1" junk] e1(2)
    by (simp add: hide_memory_def assms(2,3) hide_loop_end)
  moreover have "mmap_entry ?m1 b = \<lparr>addr = hs + len, size_of = - 1 - len, etype = E820_RAM\<rparr>"
    using e1(1) by (simp add: mmap_entry_def mem_simps)
  ultimately show ?thesis by blast
qed


subsection \<open>Properties of the memory map\<close>

text \<open>The entry written at \<open>p\<close> by its fields, for concrete lists.\<close>

definition put_entry :: "mem \<Rightarrow> u64 \<Rightarrow> e820_entry \<Rightarrow> mem" where
  "put_entry m p x = store32 (set_type (set_length (set_base m p (addr x)) p (size_of x)) p (etype x)) p 20"

lemma put_entry_at [mem_simps]:
  "mmap_size (put_entry m p x) p = 20"
  "mmap_entry (put_entry m p x) p = x"
  by (simp_all add: put_entry_def mmap_entry_def mmap_fields set_base_def set_length_def set_type_def mem_simps)

lemma put_entry_next [mem_simps]:
  "mmap_size (put_entry m p x) (p + 24) = mmap_size m (p + 24)"
  "mmap_entry (put_entry m p x) (p + 24) = mmap_entry m (p + 24)"
  by (simp_all add: put_entry_def mmap_entry_def mmap_fields set_base_def set_length_def set_type_def mem_simps)

text \<open>C22: \<open>setup_memory_region\<close> reads GRUB's list exactly: when the entries are laid out one
  after the other over the announced length, the map holds these entries in order if there are
  at most 128 of them, and the monitor stops otherwise.\<close>

theorem setup_memory_region_exact:
  assumes "ctrue (mbi_flags mbi AND MBI_MEMMAP)" and "length (emap e) = E820_MAX_ENTRIES"
    and "laid_out m (ucast (mmap_addr mbi)) es" and "24 * length es = unat (mmap_length mbi)"
  shows "if length es \<le> E820_MAX_ENTRIES
    then \<exists>e'. setup_memory_region m mbi e = Inr e' \<and> wf_e820 e' \<and> entries e' = es
    else setup_memory_region m mbi e = fatal_failure (line ''Too many entries in the memory map.'')"
  by (rule setup_memory_region_laid_out [OF assms])

theorem setup_memory_region_exact_witness:
  "\<exists>e'. setup_memory_region
      (put_entry (put_entry (\<lambda>_. 0) (0x9000 + 24) \<lparr>addr = 0xF0000, size_of = 0x10000, etype = 2\<rparr>)
        0x9000 \<lparr>addr = 0, size_of = 0x9F000, etype = 1\<rparr>)
      \<lparr>mbi_flags = 0x40, mbi_cmdline = 0, mmap_length = 48, mmap_addr = 0x9000\<rparr>
      \<lparr>nr_map = 7, emap = replicate 128 \<lparr>addr = 0, size_of = 0, etype = 0\<rparr>\<rparr> = Inr e' \<and>
    entries e' = [\<lparr>addr = 0, size_of = 0x9F000, etype = 1\<rparr>, \<lparr>addr = 0xF0000, size_of = 0x10000, etype = 2\<rparr>]"
proof -
  let ?x = "\<lparr>addr = 0, size_of = 0x9F000, etype = 1\<rparr>" and ?y = "\<lparr>addr = 0xF0000, size_of = 0x10000, etype = 2\<rparr>"
  let ?m = "put_entry (put_entry (\<lambda>_. 0) (0x9000 + 24) ?y) 0x9000 ?x"
  let ?mbi = "\<lparr>mbi_flags = 0x40, mbi_cmdline = 0, mmap_length = 48, mmap_addr = 0x9000\<rparr>"
  have a: "ctrue (mbi_flags ?mbi AND MBI_MEMMAP)" by (simp add: ctrue_def MBI_MEMMAP_def)
  have l: "laid_out ?m (ucast (mmap_addr ?mbi)) [?x, ?y]"
    using put_entry_next [of _ "0x9000"] put_entry_at [of _ "0x9000 + 24"] put_entry_at [of _ "0x9000"] by simp
  show ?thesis
    using setup_memory_region_exact [OF a _ l, of "\<lparr>nr_map = 7, emap = replicate 128 \<lparr>addr = 0, size_of = 0, etype = 0\<rparr>\<rparr>"]
    by (auto simp: E820_MAX_ENTRIES_def)
qed

text \<open>\<open>get_max_pfn\<close> is the greatest end page number of the RAM regions that hold a whole
  page, 0 without one, and \<open>get_nr_pages\<close> is the sum of the RAM regions' page counts.\<close>

theorem get_max_pfn_max:
  "(\<forall>p \<in> set (entries e). region_pfn p \<le> get_max_pfn e) \<and>
   (get_max_pfn e = 0 \<or> (\<exists>p \<in> set (entries e). get_max_pfn e = region_pfn p)) \<and>
   get_nr_pages e = sum_list (map (\<lambda>p. drop_bit PAGE_SHIFT (size_of p))
     (filter (\<lambda>p. etype p = E820_RAM) (entries e)))"
  using get_max_pfn_greatest by (simp add: get_nr_pages_def nr_pages_loop_sum)

theorem get_max_pfn_max_witness:
  "region_pfn \<lparr>addr = 0, size_of = 0x9F000, etype = 1\<rparr> \<le>
    get_max_pfn \<lparr>nr_map = 1, emap = [\<lparr>addr = 0, size_of = 0x9F000, etype = 1\<rparr>]\<rparr>"
  using get_max_pfn_max [of "\<lparr>nr_map = 1, emap = [\<lparr>addr = 0, size_of = 0x9F000, etype = 1\<rparr>]\<rparr>"]
  by (simp add: entries_def)

text \<open>\<open>hide_memory\<close> on a RAM region that covers the monitor splits it: the region now ends
  where the monitor starts, and the next reserved entry becomes the RAM after the monitor.\<close>

theorem hide_memory_splits:
  assumes "laid_out m b [\<lparr>addr = s, size_of = l, etype = E820_RAM\<rparr>,
      \<lparr>addr = s2, size_of = l2, etype = E820_RESERVED\<rparr>]"
    and "b = ucast (mmap_addr mbi)" and "mmap_length mbi = 48"
    and "s < hs" and "hs + len - 1 < s + l" and "s + l \<noteq> hs + len"
  shows "\<exists>m'. hide_memory m mbi hs len junk = Some m' \<and>
    laid_out m' b [\<lparr>addr = s, size_of = hs - s, etype = E820_RAM\<rparr>,
      \<lparr>addr = hs + len, size_of = s + l - (hs + len), etype = E820_RAM\<rparr>]"
  by (rule hide_memory_split [OF assms])

theorem hide_memory_splits_witness:
  "\<exists>m'. hide_memory
      (put_entry (put_entry (\<lambda>_. 0) (0x9000 + 24) \<lparr>addr = 0xF0000000, size_of = 0x10000, etype = E820_RESERVED\<rparr>)
        0x9000 \<lparr>addr = 0x100000, size_of = 0x3FF00000, etype = E820_RAM\<rparr>)
      \<lparr>mbi_flags = 0x40, mbi_cmdline = 0, mmap_length = 48, mmap_addr = 0x9000\<rparr>
      0x8000000 0x3000000 (\<lambda>_. (0, 0)) = Some m' \<and>
    laid_out m' 0x9000 [\<lparr>addr = 0x100000, size_of = 0x8000000 - 0x100000, etype = E820_RAM\<rparr>,
      \<lparr>addr = 0x8000000 + 0x3000000, size_of = 0x100000 + 0x3FF00000 - (0x8000000 + 0x3000000), etype = E820_RAM\<rparr>]"
proof -
  let ?x = "\<lparr>addr = 0x100000, size_of = 0x3FF00000, etype = E820_RAM\<rparr>"
    and ?y = "\<lparr>addr = 0xF0000000, size_of = 0x10000, etype = E820_RESERVED\<rparr>"
  let ?m = "put_entry (put_entry (\<lambda>_. 0) (0x9000 + 24) ?y) 0x9000 ?x"
  let ?mbi = "\<lparr>mbi_flags = 0x40, mbi_cmdline = 0, mmap_length = 48, mmap_addr = 0x9000\<rparr>"
  have l: "laid_out ?m 0x9000 [?x, ?y]"
    using put_entry_next [of _ "0x9000"] put_entry_at [of _ "0x9000 + 24"] put_entry_at [of _ "0x9000"] by simp
  show ?thesis
    by (rule hide_memory_splits [OF l]) simp_all
qed

text \<open>When a RAM region starts inside the hidden region and ends after it, the length that
  \<open>hide_memory\<close> gives the guest is whatever the uninitialised \<open>newend\<close> held: every length is
  possible.\<close>

theorem hide_memory_overlap_any_length:
  assumes "laid_out m b [\<lparr>addr = s, size_of = l, etype = E820_RAM\<rparr>]"
    and "b = ucast (mmap_addr mbi)" and "mmap_length mbi = 24"
    and "hs \<le> s" and "s \<le> hs + len - 1" and "hs + len - 1 < s + l"
  shows "\<exists>junk m'. hide_memory m mbi hs len junk = Some m' \<and>
    mmap_entry m' b = \<lparr>addr = hs + len, size_of = L, etype = E820_RAM\<rparr>"
  by (rule hide_memory_overlap_unspecified [OF assms])

theorem hide_memory_overlap_any_length_witness:
  "\<exists>junk m'. hide_memory (put_entry (\<lambda>_. 0) 0x9000 \<lparr>addr = 0x9000000, size_of = 0x10000000, etype = E820_RAM\<rparr>)
      \<lparr>mbi_flags = 0x40, mbi_cmdline = 0, mmap_length = 24, mmap_addr = 0x9000\<rparr>
      0x8000000 0x3000000 junk = Some m' \<and>
    mmap_entry m' 0x9000 = \<lparr>addr = 0x8000000 + 0x3000000, size_of = 0xFFFFFFFFFFFF, etype = E820_RAM\<rparr>"
proof -
  let ?x = "\<lparr>addr = 0x9000000, size_of = 0x10000000, etype = E820_RAM\<rparr>"
  let ?mbi = "\<lparr>mbi_flags = 0x40, mbi_cmdline = 0, mmap_length = 24, mmap_addr = 0x9000\<rparr>"
  have l: "laid_out (put_entry (\<lambda>_. 0) 0x9000 ?x) 0x9000 [?x]"
    using put_entry_at [of _ "0x9000"] by simp
  show ?thesis
    by (rule hide_memory_overlap_any_length [OF l]) simp_all
qed

text \<open>A RAM region that lies inside the hidden region is not hidden: the entry stays RAM,
  starts right after the monitor and has a length that wraps around.\<close>

theorem hide_memory_keeps_contained:
  assumes "laid_out m b [\<lparr>addr = s, size_of = l, etype = E820_RAM\<rparr>]"
    and "b = ucast (mmap_addr mbi)" and "mmap_length mbi = 24"
    and "hs \<le> s" and "s < s + l" and "s + l \<le> hs + len - 1"
  shows "\<exists>m'. hide_memory m mbi hs len junk = Some m' \<and>
    mmap_entry m' b = \<lparr>addr = hs + len, size_of = - 1 - len, etype = E820_RAM\<rparr>"
  by (rule hide_memory_contained [OF assms])

theorem hide_memory_keeps_contained_witness:
  "\<exists>m'. hide_memory (put_entry (\<lambda>_. 0) 0x9000 \<lparr>addr = 0x9000000, size_of = 0x100000, etype = E820_RAM\<rparr>)
      \<lparr>mbi_flags = 0x40, mbi_cmdline = 0, mmap_length = 24, mmap_addr = 0x9000\<rparr>
      0x8000000 0x3000000 (\<lambda>_. (0, 0)) = Some m' \<and>
    mmap_entry m' 0x9000 = \<lparr>addr = 0x8000000 + 0x3000000, size_of = - 1 - 0x3000000, etype = E820_RAM\<rparr>"
proof -
  let ?x = "\<lparr>addr = 0x9000000, size_of = 0x100000, etype = E820_RAM\<rparr>"
  let ?mbi = "\<lparr>mbi_flags = 0x40, mbi_cmdline = 0, mmap_length = 24, mmap_addr = 0x9000\<rparr>"
  have l: "laid_out (put_entry (\<lambda>_. 0) 0x9000 ?x) 0x9000 [?x]"
    using put_entry_at [of _ "0x9000"] by simp
  show ?thesis
    by (rule hide_memory_keeps_contained [OF l]) simp_all
qed


end
