(* ===== verification/CString.thy ===== *)
theory CString
  imports Memory
begin

text \<open>
  \<open>kernel/string.c\<close>: the C string and memory routines, over memory and pointers.  A routine
  that runs to a terminating NUL that need not be there is a partial function: \<open>None\<close> means
  that it does not return.  \<open>char\<close> is signed, as on x86.
\<close>

subsection \<open>Definitions\<close>

partial_function (option) strstr_match :: "mem \<Rightarrow> u64 \<Rightarrow> u64 \<Rightarrow> bool option" where
  "strstr_match m bp sp =
     (if m sp = 0 then Some True
      else if m bp = m sp then strstr_match m (bp + 1) (sp + 1)
      else Some False)"

partial_function (option) strstr_loop :: "mem \<Rightarrow> u64 \<Rightarrow> u64 \<Rightarrow> u64 option" where
  "strstr_loop m buf sub =
     (if m buf = 0 then Some 0
      else Option.bind (strstr_match m buf sub)
        (\<lambda>found. if found then Some buf else strstr_loop m (buf + 1) sub))"

definition strstr :: "mem \<Rightarrow> u64 \<Rightarrow> u64 \<Rightarrow> u64 option" where
  "strstr m buf sub = (if m sub = 0 then Some buf else strstr_loop m buf sub)"

partial_function (option) strlen_loop :: "mem \<Rightarrow> u64 \<Rightarrow> u32 \<Rightarrow> u32 option" where
  "strlen_loop m s n = (if m s = 0 then Some n else strlen_loop m (s + 1) (n + 1))"

definition strlen :: "mem \<Rightarrow> u64 \<Rightarrow> u32 option" where
  "strlen m s = strlen_loop m s 0"

text \<open>
  \<open>__res\<close> is a \<open>signed char\<close>: the difference of the two characters is cut to eight bits and
  then sign extended to the \<open>int\<close> result.
\<close>

partial_function (option) strcmp :: "mem \<Rightarrow> u64 \<Rightarrow> u64 \<Rightarrow> u32 option" where
  "strcmp m cs ct =
     (if m cs - m ct \<noteq> 0 \<or> m cs = 0 then Some (scast (m cs - m ct))
      else strcmp m (cs + 1) (ct + 1))"

partial_function (option) strcpy :: "mem \<Rightarrow> u64 \<Rightarrow> u64 \<Rightarrow> mem option" where
  "strcpy m dest src =
     (if m src = 0 then Some (m(dest := m src))
      else strcpy (m(dest := m src)) (dest + 1) (src + 1))"

lemma word_dec_measure: "count \<noteq> 0 \<Longrightarrow> unat (count - 1) < unat count" for count :: "'a::len word"
  by (simp add: unat_minus_one unat_gt_0)

function strncmp :: "mem \<Rightarrow> u64 \<Rightarrow> u64 \<Rightarrow> u64 \<Rightarrow> u32" where
  "strncmp m cs ct count =
     (if count \<noteq> 0 then
        (if m cs - m ct \<noteq> 0 \<or> m cs = 0 then scast (m cs - m ct)
         else strncmp m (cs + 1) (ct + 1) (count - 1))
      else 0)"
  by pat_completeness auto
termination
  by (relation "measure (\<lambda>(m, cs, ct, count). unat count)")
    (simp, simp only: in_measure split, rule word_dec_measure)

partial_function (option) strchr :: "mem \<Rightarrow> u64 \<Rightarrow> u8 \<Rightarrow> u64 option" where
  "strchr m s c =
     (if m s = 0 then Some 0 else if m s = c then Some s else strchr m (s + 1) c)"

text \<open>\<open>size\<close> counts down here; the code counts \<open>i\<close> up to it.\<close>

primrec strncpy_loop :: "nat \<Rightarrow> mem \<Rightarrow> u64 \<Rightarrow> u64 \<Rightarrow> mem" where
  "strncpy_loop 0 m dst src = m"
| "strncpy_loop (Suc n) m dst src =
     (let m' = m(dst := m src)
      in strncpy_loop n m' (dst + 1) (if m' src \<noteq> 0 then src + 1 else src))"

definition strncpy :: "mem \<Rightarrow> u64 \<Rightarrow> u64 \<Rightarrow> u64 \<Rightarrow> mem" where
  "strncpy m dst src sz = strncpy_loop (unat sz) m dst src"

partial_function (option) strrchr_loop :: "mem \<Rightarrow> u64 \<Rightarrow> u32 \<Rightarrow> u64 \<Rightarrow> u64 option" where
  "strrchr_loop m p ch save =
     (let save' = (if scast (m p) = ch then p else save)
      in if m p = 0 then Some save' else strrchr_loop m (p + 1) ch save')"

definition strrchr :: "mem \<Rightarrow> u64 \<Rightarrow> u32 \<Rightarrow> u64 option" where
  "strrchr m p ch = strrchr_loop m p ch 0"

definition strcase_charmap :: "u8 list" where
  "strcase_charmap = [
     0, 1, 2, 3, 4, 5, 6, 7, 8, 9, 10, 11, 12, 13, 14, 15,
     16, 17, 18, 19, 20, 21, 22, 23, 24, 25, 26, 27, 28, 29, 30, 31,
     32, 33, 34, 35, 36, 37, 38, 39, 40, 41, 42, 43, 44, 45, 46, 47,
     48, 49, 50, 51, 52, 53, 54, 55, 56, 57, 58, 59, 60, 61, 62, 63,
     64, 97, 98, 99, 100, 101, 102, 103, 104, 105, 106, 107, 108, 109, 110, 111,
     112, 113, 114, 115, 116, 117, 118, 119, 120, 121, 122, 91, 92, 93, 94, 95,
     96, 97, 98, 99, 100, 101, 102, 103, 104, 105, 106, 107, 108, 109, 110, 111,
     112, 113, 114, 115, 116, 117, 118, 119, 120, 121, 122, 123, 124, 125, 126, 127,
     128, 129, 130, 131, 132, 133, 134, 135, 136, 137, 138, 139, 140, 141, 142, 143,
     144, 145, 146, 147, 148, 149, 150, 151, 152, 153, 154, 155, 156, 157, 158, 159,
     160, 161, 162, 163, 164, 165, 166, 167, 168, 169, 170, 171, 172, 173, 174, 175,
     176, 177, 178, 179, 180, 181, 182, 183, 184, 185, 186, 187, 188, 189, 190, 191,
     192, 193, 194, 195, 196, 197, 198, 199, 200, 201, 202, 203, 204, 205, 206, 207,
     208, 209, 210, 211, 212, 213, 214, 215, 216, 217, 218, 219, 220, 221, 222, 223,
     224, 225, 226, 227, 228, 229, 230, 231, 232, 233, 234, 235, 236, 237, 238, 239,
     240, 241, 242, 243, 244, 245, 246, 247, 248, 249, 250, 251, 252, 253, 254, 255]"

definition cm :: "u8 \<Rightarrow> u8" where
  "cm c = strcase_charmap ! unat c"

text \<open>\<open>n\<close> is the \<open>int\<close> that \<open>len\<close> is copied to.\<close>

function strncasecmp_loop :: "mem \<Rightarrow> u64 \<Rightarrow> u64 \<Rightarrow> u32 \<Rightarrow> u32" where
  "strncasecmp_loop m us1 us2 n =
     (if n \<noteq> 0 then
        (if cm (m us1) = cm (m us2) then
           (if m us1 = 0 then 0 else strncasecmp_loop m (us1 + 1) (us2 + 1) (n - 1))
         else ucast (cm (m us1)) - ucast (cm (m us2)))
      else 0)"
  by pat_completeness auto
termination
  by (relation "measure (\<lambda>(m, us1, us2, n). unat n)")
    (simp, simp only: in_measure split, rule word_dec_measure)

definition strncasecmp :: "mem \<Rightarrow> u64 \<Rightarrow> u64 \<Rightarrow> u64 \<Rightarrow> u32" where
  "strncasecmp m s1 s2 len = strncasecmp_loop m s1 s2 (ucast len)"

declare strncmp.simps [simp del] strncasecmp_loop.simps [simp del]

text \<open>
  \<open>__inline_memcpy\<close>: \<open>rep movsl\<close> copies \<open>n / 4\<close> long words upwards, then \<open>movsw\<close> and
  \<open>movsb\<close> copy the two low bits' worth of the rest.
\<close>

primrec rep_movsl :: "nat \<Rightarrow> mem \<Rightarrow> u64 \<Rightarrow> u64 \<Rightarrow> mem" where
  "rep_movsl 0 m dst src = m"
| "rep_movsl (Suc n) m dst src = rep_movsl n (store32 m dst (load32 m src)) (dst + 4) (src + 4)"

definition inline_memcpy :: "mem \<Rightarrow> u64 \<Rightarrow> u64 \<Rightarrow> u64 \<Rightarrow> mem" where
  "inline_memcpy m dst src n =
     (let m1 = rep_movsl (unat n div 4) m dst src;
          d1 = dst + 4 * (n div 4); s1 = src + 4 * (n div 4);
          m2 = (if ctrue (n AND 2) then store16 m1 d1 (load16 m1 s1) else m1);
          d2 = (if ctrue (n AND 2) then d1 + 2 else d1);
          s2 = (if ctrue (n AND 2) then s1 + 2 else s1)
      in if ctrue (n AND 1) then m2(d2 := m2 s2) else m2)"

definition memcpy :: "mem \<Rightarrow> u64 \<Rightarrow> u64 \<Rightarrow> u64 \<Rightarrow> mem" where
  "memcpy m dst src n = inline_memcpy m dst src n"

primrec copy_down :: "nat \<Rightarrow> mem \<Rightarrow> u64 \<Rightarrow> u64 \<Rightarrow> mem" where
  "copy_down 0 m p s = m"
| "copy_down (Suc n) m p s = copy_down n (m(p - 1 := m (s - 1))) (p - 1) (s - 1)"

definition memmove :: "mem \<Rightarrow> u64 \<Rightarrow> u64 \<Rightarrow> u64 \<Rightarrow> mem" where
  "memmove m dst src count =
     (if dst < src then inline_memcpy m dst src count
      else copy_down (unat count) m (dst + count) (src + count))"

primrec memset_loop :: "nat \<Rightarrow> mem \<Rightarrow> u64 \<Rightarrow> u8 \<Rightarrow> mem" where
  "memset_loop 0 m xs c = m"
| "memset_loop (Suc n) m xs c = memset_loop n (m(xs := c)) (xs + 1) c"

definition memset :: "mem \<Rightarrow> u64 \<Rightarrow> u32 \<Rightarrow> u64 \<Rightarrow> mem" where
  "memset m s c count = memset_loop (unat count) m s (ucast c)"

subsection \<open>Memory blocks\<close>

lemma memset_loop_apply:
  "n < 2 ^ 64 \<Longrightarrow> memset_loop n m s c x = (if in_range s n x then c else m x)"
proof (induction n arbitrary: m s)
  case 0
  then show ?case by (simp add: in_range_def)
next
  case (Suc n)
  have "in_range (s + 1) n x \<longleftrightarrow> 1 \<le> unat (x - s) \<and> unat (x - s) < Suc n"
    using in_range_offset [of 1 n s x] Suc.prems by simp
  then have r: "in_range (s + 1) n x \<longleftrightarrow> x \<noteq> s \<and> in_range s (Suc n) x"
    using unat_gt_0 [of "x - s"] by (auto simp: in_range_def)
  have z: "in_range s (Suc n) s" by (simp add: in_range_def)
  have "memset_loop (Suc n) m s c x = (if in_range (s + 1) n x then c else (m(s := c)) x)"
    unfolding memset_loop.simps using Suc.prems by (intro Suc.IH) simp
  then show ?case
    using z by (auto simp: r)
qed

lemma memset_apply: "memset m s c n x = (if in_range s (unat n) x then ucast c else m x)"
  unfolding memset_def by (rule memset_loop_apply) (rule u64_bounded)

definition copied :: "mem \<Rightarrow> mem \<Rightarrow> u64 \<Rightarrow> u64 \<Rightarrow> nat \<Rightarrow> bool" where
  "copied m m' d s n \<longleftrightarrow> (\<forall>x. m' x = (if in_range d n x then m (s + (x - d)) else m x))"

lemma copied_refl: "copied m m d s 0"
  by (simp add: copied_def in_range_def)

lemma store_load_copied:
  assumes "8 * n = LENGTH('a)" and "n < 2 ^ 64"
  shows "copied m (store_le n m d (load_le n m s :: 'a::len word)) d s n"
  unfolding copied_def
proof
  fix x
  show "store_le n m d (load_le n m s :: 'a word) x = (if in_range d n x then m (s + (x - d)) else m x)"
  proof (cases "in_range d n x")
    case True
    then have r: "unat (x - d) < n" by (simp add: in_range_def)
    have "ucast (drop_bit (8 * unat (x - d)) (load_le n m s :: 'a word)) = m (s + (x - d))"
    proof (rule bit_word_eqI)
      fix k assume "k < LENGTH(8)"
      then have k: "k < 8" by simp
      have "8 * unat (x - d) + k < 8 * n" using r k by linarith
      moreover have "(8 * unat (x - d) + k) div 8 = unat (x - d)" "(8 * unat (x - d) + k) mod 8 = k"
        using k by simp_all
      ultimately show "bit (ucast (drop_bit (8 * unat (x - d)) (load_le n m s :: 'a word)) :: u8) k
          = bit (m (s + (x - d))) k"
        using k assms(1) by (simp add: bit_simps bit_load_le)
    qed
    then show ?thesis using True r by (simp add: store_le_apply [OF assms(2)])
  qed (simp add: store_le_other [OF assms(2)])
qed

lemma copied_step:
  assumes c1: "copied m m1 d s n" and c2: "copied m1 m2 (d + of_nat n) (s + of_nat n) k"
    and sep: "d = s \<or> n + k \<le> unat (d - s)" and len: "n + k < 2 ^ 64"
  shows "copied m m2 d s (n + k)"
  unfolding copied_def
proof
  fix x
  have rk: "in_range (d + of_nat n) k x \<longleftrightarrow> n \<le> unat (x - d) \<and> unat (x - d) < n + k"
    using len by (intro in_range_offset) simp
  show "m2 x = (if in_range d (n + k) x then m (s + (x - d)) else m x)"
  proof (cases "in_range (d + of_nat n) k x")
    case True
    let ?y = "s + of_nat n + (x - (d + of_nat n))"
    have y: "?y = s + (x - d)" by simp
    have "m1 ?y = m (s + (x - d))"
    proof (cases "in_range d n (s + (x - d))")
      case False
      then show ?thesis using c1 by (simp add: copied_def)
    next
      case in1: True
      have xd: "n \<le> unat (x - d)" "unat (x - d) < n + k" using True rk by auto
      have "s + (x - d) - d = (x - d) - (d - s)" by (simp add: algebra_simps)
      then have "unat ((x - d) - (d - s)) < n" using in1 by (simp only: in_range_def)
      then have "d = s" using sep xd len u64_bounded [of "x - d"] u64_bounded [of "d - s"]
        unat_sub_if' [of "x - d" "d - s"] by (auto split: if_splits)
      then show ?thesis using c1 by (simp add: copied_def)
    qed
    then show ?thesis using True rk c2 y by (simp add: copied_def in_range_def)
  next
    case False
    then have "m2 x = m1 x" using c2 by (simp add: copied_def)
    then show ?thesis using False rk c1 by (auto simp: copied_def in_range_def)
  qed
qed

lemma rep_movsl_copied:
  assumes "d = s \<or> 4 * n \<le> unat (d - s)" and "4 * n < 2 ^ 64"
  shows "copied m (rep_movsl n m d s) d s (4 * n)"
  using assms
proof (induction n arbitrary: m d s)
  case 0
  then show ?case by (simp add: copied_refl)
next
  case (Suc n)
  have "copied m (store32 m d (load32 m s)) d s 4"
    by (rule store_load_copied) simp_all
  moreover have "copied (store32 m d (load32 m s)) (rep_movsl (Suc n) m d s)
      (d + of_nat 4) (s + of_nat 4) (4 * n)"
    using Suc.IH [of "d + 4" "s + 4" "store32 m d (load32 m s)"] Suc.prems by auto
  ultimately have "copied m (rep_movsl (Suc n) m d s) d s (4 + 4 * n)"
    using Suc.prems by (intro copied_step) auto
  then show ?case by simp
qed

lemma inline_memcpy_copied:
  assumes "d = s \<or> unat n \<le> unat (d - s)"
  shows "copied m (inline_memcpy m d s n) d s (unat n)"
proof -
  define q where "q = unat n div 4"
  define r where "r = unat n mod 4"
  have n: "unat n = 4 * q + r" and r: "r < 4" by (simp_all add: q_def r_def)
  have lim: "unat n < 2 ^ 64" by (rule u64_bounded)
  have b2: "ctrue (n AND 2) \<longleftrightarrow> 2 \<le> r" and b1: "ctrue (n AND 1) \<longleftrightarrow> odd r"
    using word_and_bit_iff_ctrue [of n 1] word_and_bit_iff_ctrue [of n 0] n r
    by (auto simp: bit_word_unat odd_div_2)
  have ad: "4 * (n div 4) = of_nat (4 * q)"
    unfolding q_def word_arith_nat_div [of n 4] by simp
  define m1 where "m1 = rep_movsl q m d s"
  define m2 where "m2 = (if 2 \<le> r then store16 m1 (d + of_nat (4 * q)) (load16 m1 (s + of_nat (4 * q))) else m1)"
  define k where "k = (if 2 \<le> r then 4 * q + 2 else 4 * q)"
  have k: "k \<le> unat n" using n by (auto simp: k_def)
  have eq: "inline_memcpy m d s n = (if odd r then m2(d + of_nat k := m2 (s + of_nat k)) else m2)"
    unfolding inline_memcpy_def Let_def b1 b2 ad q_def [symmetric] m1_def [symmetric] m2_def k_def by (auto simp: ac_simps)
  have c1: "copied m m1 d s (4 * q)"
    unfolding m1_def using assms n lim by (intro rep_movsl_copied) auto
  have "copied m1 (store16 m1 (d + of_nat (4 * q)) (load16 m1 (s + of_nat (4 * q)))) (d + of_nat (4 * q)) (s + of_nat (4 * q)) 2"
    by (rule store_load_copied) simp_all
  then have "2 \<le> r \<Longrightarrow> copied m (store16 m1 (d + of_nat (4 * q)) (load16 m1 (s + of_nat (4 * q)))) d s (4 * q + 2)"
    using assms n lim by (intro copied_step [OF c1]) auto
  then have c2: "copied m m2 d s k"
    using c1 by (auto simp: m2_def k_def)
  have "copied m2 (m2(d + of_nat k := m2 (s + of_nat k))) (d + of_nat k) (s + of_nat k) 1"
    by (auto simp: copied_def in_range_def unat_eq_zero)
  note c3 = copied_step [OF c2 this]
  have kn: "odd r \<Longrightarrow> k + 1 = unat n" "even r \<Longrightarrow> k = unat n"
    using n r by (auto simp: k_def elim!: oddE evenE)
  have "odd r \<Longrightarrow> copied m (m2(d + of_nat k := m2 (s + of_nat k))) d s (unat n)"
    using c3 kn(1) assms lim by metis
  then show ?thesis using c2 kn(2) by (auto simp: eq)
qed

lemma copy_down_copied:
  assumes "d = s \<or> n \<le> unat (s - d)" and "n < 2 ^ 64"
  shows "copied m (copy_down n m (d + of_nat n) (s + of_nat n)) d s n"
  using assms
proof (induction n arbitrary: m)
  case 0
  then show ?case by (simp add: copied_refl)
next
  case (Suc n)
  let ?m = "m(d + of_nat n := m (s + of_nat n))"
  have c: "copied ?m (copy_down n ?m (d + of_nat n) (s + of_nat n)) d s n"
    using Suc.prems by (intro Suc.IH) auto
  have n: "unat (of_nat n :: u64) = n"
    using Suc.prems by (intro unat_of_nat_u64) simp
  have keep: "?m (s + (x - d)) = m (s + (x - d))" if "in_range d n x" for x
  proof (cases "s + (x - d) = d + of_nat n")
    case True
    then have "s - d = of_nat n - (x - d)" by (simp add: algebra_simps)
    moreover have "unat (of_nat n - (x - d)) = n - unat (x - d)"
      using that n by (simp add: in_range_def unat_sub_if')
    ultimately have "unat (s - d) \<le> n" by (simp only: diff_le_self)
    then have "d = s" using Suc.prems(1) by linarith
    then show ?thesis by simp
  qed simp
  have r: "in_range d (Suc n) x \<longleftrightarrow> in_range d n x \<or> x = d + of_nat n" for x
  proof -
    have "x = d + of_nat n \<longleftrightarrow> unat (x - d) = unat (of_nat n :: u64)"
      by (metis add_diff_cancel_left' diff_add_cancel add.commute word_unat_eq_iff)
    then show ?thesis using n by (auto simp: in_range_def simp del: unat_of_nat)
  qed
  have "\<not> in_range d n (d + of_nat n)" using n by (simp add: in_range_def)
  then show ?case
    using c keep by (auto simp: copied_def r)
qed

lemma memmove_correct:
  assumes "unat d + unat n \<le> 2 ^ 64" and "unat s + unat n \<le> 2 ^ 64"
  shows "copied m (memmove m d s n) d s (unat n)"
proof (cases "d < s")
  case True
  then have "unat n \<le> unat (d - s)"
    using assms by (simp add: word_less_nat_alt unat_sub_if')
  then show ?thesis using True by (simp add: memmove_def inline_memcpy_copied)
next
  case False
  have "d = s \<or> unat n \<le> unat (s - d)"
    using False assms by (auto simp: word_less_nat_alt unat_sub_if' word_unat_eq_iff)
  then show ?thesis
    using False copy_down_copied [of d s "unat n" m] u64_bounded [of n] by (simp add: memmove_def)
qed

definition cstr :: "mem \<Rightarrow> u64 \<Rightarrow> u8 list \<Rightarrow> bool" where
  "cstr m p s \<longleftrightarrow> (\<forall>i < length s. m (p + of_nat i) = s ! i \<and> s ! i \<noteq> 0) \<and> m (p + of_nat (length s)) = 0"

lemma cstr_Nil [simp]: "cstr m p [] \<longleftrightarrow> m p = 0"
  by (simp add: cstr_def)

lemma cstr_Cons [simp]: "cstr m p (c # s) \<longleftrightarrow> m p = c \<and> c \<noteq> 0 \<and> cstr m (p + 1) s"
  unfolding cstr_def length_Cons All_less_Suc2 by (simp add: add.assoc)

lemma strlen_loop_cstr: "cstr m p s \<Longrightarrow> strlen_loop m p n = Some (n + of_nat (length s))"
  by (induction s arbitrary: p n) (simp_all add: strlen_loop.simps add.assoc)

lemma strlen_correct: "cstr m p s \<Longrightarrow> strlen m p = Some (of_nat (length s))"
  by (simp add: strlen_def strlen_loop_cstr)

lemma scast_zero_iff: "scast (b :: u8) = (0 :: u32) \<longleftrightarrow> b = 0"
proof -
  have "ucast (scast b :: u32) = b"
    by (rule bit_word_eqI) (simp add: bit_simps)
  then show ?thesis by auto
qed

lemma strcmp_correct:
  "cstr m p s \<Longrightarrow> cstr m q t \<Longrightarrow> \<exists>r. strcmp m p q = Some r \<and> (r = 0 \<longleftrightarrow> s = t)"
proof (induction s arbitrary: p q t)
  case Nil
  then show ?case by (cases t) (simp_all add: strcmp.simps [of m p q] scast_zero_iff)
next
  case (Cons c s)
  show ?case
  proof (cases t)
    case Nil
    then show ?thesis using Cons.prems by (simp add: strcmp.simps [of m p q] scast_zero_iff)
  next
    case (Cons d t')
    then show ?thesis
      using Cons.prems Cons.IH [of "p + 1" "q + 1" t']
      by (auto simp: strcmp.simps [of m p q] scast_zero_iff)
  qed
qed


lemma cm_lower: "cm c = (if 65 \<le> c \<and> c \<le> 90 then c + 32 else c)"
proof -
  have all: "list_all (\<lambda>k. cm (of_nat k) =
      (if 65 \<le> (of_nat k :: u8) \<and> (of_nat k :: u8) \<le> 90 then of_nat k + 32 else of_nat k)) [0..<256]"
    by code_simp
  have "unat c \<in> set [0..<256]"
    using unsigned_less [of c, where 'a = nat] by simp
  with all have "cm (of_nat (unat c)) = (if 65 \<le> (of_nat (unat c) :: u8) \<and> (of_nat (unat c) :: u8) \<le> 90
      then of_nat (unat c) + 32 else of_nat (unat c))"
    by (simp only: list_all_iff)
  then show ?thesis by simp
qed

lemma strncmp_zero_iff:
  "strncmp m p q n = 0 \<longleftrightarrow>
     (\<forall>i < unat n. (\<forall>j < i. m (p + of_nat j) \<noteq> 0) \<longrightarrow> m (p + of_nat i) = m (q + of_nat i))"
proof (induction "unat n" arbitrary: p q n)
  case 0
  then show ?case by (simp add: strncmp.simps [of m p q 0] unat_eq_zero)
next
  case (Suc k)
  then have n: "n \<noteq> 0" by auto
  then have k: "unat (n - 1) = k" using Suc.hyps(2) by (simp add: unat_minus_one)
  have IH: "strncmp m (p + 1) (q + 1) (n - 1) = 0 \<longleftrightarrow>
      (\<forall>i < k. (\<forall>j < i. m (p + of_nat (Suc j)) \<noteq> 0) \<longrightarrow> m (p + of_nat (Suc i)) = m (q + of_nat (Suc i)))"
    using Suc.hyps(1) [of "n - 1" "p + 1" "q + 1"] k by (simp add: add.assoc)
  show ?case
    unfolding Suc.hyps(2) [symmetric] All_less_Suc2
    using n IH by (auto simp: strncmp.simps [of m p q n] scast_zero_iff All_less_Suc2)
qed

subsection \<open>Properties of the string routines\<close>

lemma byte_copied: "copied m (m(d := m s)) d s 1"
  by (auto simp: copied_def in_range_def unat_eq_zero)

lemma cstr_other:
  assumes "cstr m p s" and "\<And>i. i \<le> length s \<Longrightarrow> m' (p + of_nat i) = m (p + of_nat i)"
  shows "cstr m' p s"
  using assms by (auto simp: cstr_def)

lemma strcpy_copied:
  assumes "cstr m src s" and "d = src \<or> Suc (length s) \<le> unat (d - src)"
    and "Suc (length s) < 2 ^ 64"
  shows "\<exists>m'. strcpy m d src = Some m' \<and> copied m m' d src (Suc (length s))"
  using assms
proof (induction s arbitrary: m d src)
  case Nil
  then show ?case using byte_copied [of m d src] by (auto simp: strcpy.simps [of m d src])
next
  case (Cons c s)
  let ?m1 = "m(d := m src)"
  have keep: "cstr ?m1 (src + 1) s"
  proof (rule cstr_other)
    show "cstr m (src + 1) s" using Cons.prems(1) by simp
    fix i assume i: "i \<le> length s"
    have "src + 1 + of_nat i \<noteq> d \<or> d = src"
    proof (rule ccontr)
      assume "\<not> ?thesis"
      then have "d - src = of_nat (Suc i)" and ne: "d \<noteq> src" by auto
      moreover have "unat (of_nat (Suc i) :: u64) = Suc i"
        using i Cons.prems(3) by (intro unat_of_nat_u64) simp
      ultimately have "unat (d - src) = Suc i" by (simp only:)
      then show False using ne i Cons.prems(2) by simp
    qed
    then show "?m1 (src + 1 + of_nat i) = m (src + 1 + of_nat i)"
      by (metis fun_upd_other fun_upd_triv)
  qed
  obtain m' where m': "strcpy ?m1 (d + 1) (src + 1) = Some m'"
    "copied ?m1 m' (d + 1) (src + 1) (Suc (length s))"
  proof -
    have "d + 1 = src + 1 \<or> Suc (length s) \<le> unat ((d + 1) - (src + 1))"
      using Cons.prems(2) by auto
    moreover have "Suc (length s) < 2 ^ 64" using Cons.prems(3) by simp
    ultimately show thesis using Cons.IH [OF keep, of "d + 1"] that by blast
  qed
  have "copied m m' d src (1 + Suc (length s))"
    using m'(2) Cons.prems(2,3) by (intro copied_step [OF byte_copied]) auto
  then show ?case using m'(1) Cons.prems(1) by (auto simp: strcpy.simps [of m d src])
qed

text \<open>\<open>strcpy\<close> returns when the source is a NUL-terminated string that does not overlap the
  destination from below, the destination then holds the string with its terminator, and no
  other byte changes.\<close>

theorem strcpy_correct:
  assumes "cstr m src s" and "d = src \<or> Suc (length s) \<le> unat (d - src)"
    and "Suc (length s) < 2 ^ 64"
  shows "\<exists>m'. strcpy m d src = Some m' \<and> cstr m' d s \<and>
    (\<forall>x. \<not> in_range d (Suc (length s)) x \<longrightarrow> m' x = m x)"
proof -
  obtain m' where m': "strcpy m d src = Some m'" "copied m m' d src (Suc (length s))"
    using strcpy_copied [OF assms] by blast
  have "m' (d + of_nat i) = m (src + of_nat i)" if "i \<le> length s" for i
    using m'(2) that assms(3) by (auto simp: copied_def in_range_def unat_of_nat_u64 simp del: unat_of_nat)
  then have "cstr m' d s" using assms(1) by (auto simp: cstr_def)
  then show ?thesis using m' by (auto simp: copied_def)
qed

theorem strcpy_correct_witness:
  "\<exists>m'. strcpy ((\<lambda>_. 0)(100 := 65, 101 := 66)) 500 100 = Some m' \<and> cstr m' 500 [65, 66]"
proof -
  have "cstr ((\<lambda>_. 0)(100 := 65, 101 := 66)) 100 [65, 66]" by simp
  then show ?thesis using strcpy_correct [of "(\<lambda>_. 0)(100 := 65, 101 := 66)" 100 "[65, 66]" 500] by auto
qed

text \<open>C39: \<open>memmove\<close> copies the block whatever the overlap of source and destination, when neither runs past
  the end of the address space, and changes no other byte; \<open>rep movsl\<close>, the two tail moves and the downward byte loop together
  have this one specification.\<close>

theorem memmove_copies:
  assumes "unat d + unat n \<le> 2 ^ 64" and "unat s + unat n \<le> 2 ^ 64"
  shows "\<forall>x. memmove m d s n x = (if in_range d (unat n) x then m (s + (x - d)) else m x)"
  using memmove_correct [OF assms, of m] by (simp add: copied_def)

theorem memmove_copies_witness:
  "memmove (\<lambda>x. ucast x) 102 100 7 105 = 103"
  using memmove_copies [of 102 7 100 "\<lambda>x. ucast x"] by (simp add: in_range_def)

text \<open>\<open>strcmp\<close> returns for NUL-terminated strings, with zero exactly for equal strings.\<close>

theorem strcmp_equality:
  assumes "cstr m p s" and "cstr m q t"
  shows "\<exists>r. strcmp m p q = Some r \<and> (r = 0 \<longleftrightarrow> s = t)"
  by (rule strcmp_correct [OF assms])

theorem strcmp_equality_witness:
  "\<exists>r. strcmp ((\<lambda>_. 0)(100 := 65, 101 := 66, 200 := 65)) 100 200 = Some r \<and> r \<noteq> 0"
  using strcmp_equality [of "(\<lambda>_. 0)(100 := 65, 101 := 66, 200 := 65)" 100 "[65, 66]" 200 "[65]"]
  by auto


end
