(* ===== verification/Alloc.thy ===== *)
theory Alloc
  imports E820 Pages CString
begin

text \<open>
  \<open>kernel/alloc.c\<close>: the host page allocator.  One bit of the allocation bitmap stands for one
  4 KB page (1 = occupied); the bitmap is an array of \<open>unsigned long\<close> in the monitor's own
  memory.  The operations are the C functions over that memory; the lemmas say which pages they
  mark, which words they touch and what \<open>alloc_pages\<close> returns.
\<close>

subsection \<open>The bitmap\<close>

abbreviation ALLOC_BITMAP_SHIFT :: nat where "ALLOC_BITMAP_SHIFT \<equiv> 6"

record naive_allocator =
  alloc_bitmap :: u64
  max_page :: u64

definition tbl_get :: "mem \<Rightarrow> u64 \<Rightarrow> u64 \<Rightarrow> u64" where
  "tbl_get m tbl idx = load64 m (tbl + 8 * idx)"

definition tbl_set :: "mem \<Rightarrow> u64 \<Rightarrow> u64 \<Rightarrow> u64 \<Rightarrow> mem" where
  "tbl_set m tbl idx v = store64 m (tbl + 8 * idx) v"

definition get_alloc_bitmap_idx :: "u64 \<Rightarrow> u64" where
  "get_alloc_bitmap_idx pfn = drop_bit ALLOC_BITMAP_SHIFT pfn"

definition get_alloc_bitmap_offset :: "u64 \<Rightarrow> u64" where
  "get_alloc_bitmap_offset pfn = pfn AND (push_bit ALLOC_BITMAP_SHIFT 1 - 1)"

text \<open>\<open>1UL << n\<close>\<close>

definition bit_ul :: "u64 \<Rightarrow> u64" where
  "bit_ul n = push_bit (unat n) 1"

text \<open>The test of one page has result type \<open>int\<close>: the masked word is converted to 32 bits.\<close>

definition allocated_in_map :: "mem \<Rightarrow> naive_allocator \<Rightarrow> u64 \<Rightarrow> u32" where
  "allocated_in_map m nalloc pfn =
     (let tbl = alloc_bitmap nalloc;
          idx = get_alloc_bitmap_idx pfn;
          offset = get_alloc_bitmap_offset pfn
      in to_int (tbl_get m tbl idx AND bit_ul offset))"

text \<open>The inner \<open>for\<close> loop of \<open>map_alloc\<close> and \<open>map_free\<close>; it returns the memory and
  the final value of \<open>curr_idx\<close>.\<close>

function fill_words :: "mem \<Rightarrow> u64 \<Rightarrow> u64 \<Rightarrow> u64 \<Rightarrow> u64 \<Rightarrow> mem \<times> u64" where
  "fill_words m tbl curr_idx end_idx v =
     (if curr_idx < end_idx
      then fill_words (tbl_set m tbl curr_idx v) tbl (curr_idx + 1) end_idx v
      else (m, curr_idx))"
  by pat_completeness auto
termination
  by (relation "measure (\<lambda>(m, tbl, curr_idx, end_idx, v). unat end_idx - unat curr_idx)")
    (simp, simp only: in_measure split, rule word_inc_measure)

declare fill_words.simps [simp del]

definition map_alloc :: "mem \<Rightarrow> naive_allocator \<Rightarrow> u64 \<Rightarrow> u64 \<Rightarrow> mem" where
  "map_alloc m nalloc first_page nr_pages =
     (let tbl = alloc_bitmap nalloc;
          curr_idx = get_alloc_bitmap_idx first_page;
          start_off = get_alloc_bitmap_offset first_page;
          end_idx = get_alloc_bitmap_idx (first_page + nr_pages);
          end_off = get_alloc_bitmap_offset (first_page + nr_pages)
      in if curr_idx = end_idx
         then tbl_set m tbl curr_idx
                (tbl_get m tbl curr_idx OR ((bit_ul end_off - 1) AND (- bit_ul start_off)))
         else
           let m1 = tbl_set m tbl curr_idx (tbl_get m tbl curr_idx OR - bit_ul start_off);
               (m2, curr_idx) = fill_words m1 tbl (curr_idx + 1) end_idx (NOT 0)
           in tbl_set m2 tbl curr_idx (tbl_get m2 tbl curr_idx OR (bit_ul end_off - 1)))"

definition map_free :: "mem \<Rightarrow> naive_allocator \<Rightarrow> u64 \<Rightarrow> u64 \<Rightarrow> mem" where
  "map_free m nalloc first_page nr_pages =
     (let tbl = alloc_bitmap nalloc;
          curr_idx = get_alloc_bitmap_idx first_page;
          start_off = get_alloc_bitmap_offset first_page;
          end_idx = get_alloc_bitmap_idx (first_page + nr_pages);
          end_off = get_alloc_bitmap_offset (first_page + nr_pages)
      in if curr_idx = end_idx
         then tbl_set m tbl curr_idx
                (tbl_get m tbl curr_idx AND (- bit_ul end_off OR (bit_ul start_off - 1)))
         else
           let m1 = tbl_set m tbl curr_idx (tbl_get m tbl curr_idx AND (bit_ul start_off - 1));
               (m2, curr_idx) = fill_words m1 tbl (curr_idx + 1) end_idx 0
           in tbl_set m2 tbl curr_idx (tbl_get m2 tbl curr_idx AND - bit_ul end_off))"

subsection \<open>The bitmap at boot\<close>

record pmem_layout =
  pml_max_page :: u64
  total_pages :: u64
  vmm_pmem_start :: u64
  vmm_heap_start :: u64
  vmm_pmem_end :: u64
  pml_e820 :: e820_map

definition free_alloc_bitmap_region :: "mem \<Rightarrow> naive_allocator \<Rightarrow> u64 \<Rightarrow> u64 \<Rightarrow> mem" where
  "free_alloc_bitmap_region m nalloc s e =
     (let start = PAGE_UP s; end = PAGE_DOWN e
      in if end \<le> start then m
         else map_free m nalloc (drop_bit PAGE_SHIFT start) (drop_bit PAGE_SHIFT (end - start)))"

text \<open>\<open>host\<close> is the global \<open>host_naive_allocator\<close>.\<close>

definition free_host_alloc_bitmap_region :: "mem \<Rightarrow> naive_allocator \<Rightarrow> u64 \<Rightarrow> u64 \<Rightarrow> mem" where
  "free_host_alloc_bitmap_region m host s e = free_alloc_bitmap_region m host s e"

primrec init_host_loop :: "mem \<Rightarrow> naive_allocator \<Rightarrow> pmem_layout \<Rightarrow> e820_entry list \<Rightarrow> mem" where
  "init_host_loop m host pml [] = m"
| "init_host_loop m host pml (p # ps) =
     (if etype p \<noteq> E820_RAM then init_host_loop m host pml ps
      else
        let start = addr p; end = start + size_of p
        in if end < vmm_heap_start pml then init_host_loop m host pml ps
           else if start > vmm_pmem_end pml then init_host_loop m host pml ps
           else
             let start = (if start < vmm_heap_start pml then vmm_heap_start pml else start);
                 end = (if end > vmm_pmem_end pml then vmm_pmem_end pml else end)
             in init_host_loop (free_host_alloc_bitmap_region m host start end) host pml ps)"

definition init_host_alloc_bitmap ::
    "mem \<Rightarrow> naive_allocator \<Rightarrow> e820_map \<Rightarrow> pmem_layout \<Rightarrow> mem" where
  "init_host_alloc_bitmap m host e820 pml = init_host_loop m host pml (entries e820)"

text \<open>\<open>sizeof (unsigned long)\<close> is 8.  The result is the memory, the allocator and the layout
  with its heap start.\<close>

definition naive_memmap_init ::
    "mem \<Rightarrow> e820_map \<Rightarrow> pmem_layout \<Rightarrow> (mem \<times> naive_allocator \<times> pmem_layout) res" where
  "naive_memmap_init m e820 pml =
     (let host_ab_start = PAGE_UP 0x8100000;
          mapsize_bytes = pml_max_page pml div 8;
          mapsize_rounded = PAGE_UP (mapsize_bytes + 8);
          pml = pml\<lparr>vmm_heap_start := host_ab_start + mapsize_rounded\<rparr>
      in if vmm_heap_start pml \<ge> vmm_pmem_end pml
         then fatal_failure (line ''No space left for VMM heap.'')
         else
           let host = \<lparr>alloc_bitmap = host_ab_start, max_page = pml_max_page pml\<rparr>;
               m = memset m (alloc_bitmap host) (NOT 0) mapsize_rounded
           in Inr (init_host_alloc_bitmap m host e820 pml, host, pml))"

subsection \<open>Allocation\<close>

function free_region_from :: "mem \<Rightarrow> naive_allocator \<Rightarrow> u64 \<Rightarrow> u64 \<Rightarrow> u64 \<Rightarrow> bool" where
  "free_region_from m nalloc pfn nr_pfns i =
     (if i < nr_pfns
      then (if ctrue (allocated_in_map m nalloc (pfn + i)) then False
            else free_region_from m nalloc pfn nr_pfns (i + 1))
      else True)"
  by pat_completeness auto
termination
  by (relation "measure (\<lambda>(m, nalloc, pfn, nr_pfns, i). unat nr_pfns - unat i)")
    (simp, simp only: in_measure split, rule word_inc_measure)

declare free_region_from.simps [simp del]

definition is_free_contiguous_region :: "mem \<Rightarrow> naive_allocator \<Rightarrow> u64 \<Rightarrow> u64 \<Rightarrow> bool" where
  "is_free_contiguous_region m nalloc pfn nr_pfns = free_region_from m nalloc pfn nr_pfns 0"

text \<open>
  The search loop of \<open>alloc_pages\<close>.  It need not end when \<open>pfn_align\<close> is zero or the page
  number wraps around, so its result is an \<open>option\<close>: \<open>None\<close> is "does not return".
\<close>

partial_function (option) alloc_loop ::
    "mem \<Rightarrow> naive_allocator \<Rightarrow> u64 \<Rightarrow> u64 \<Rightarrow> u64 \<Rightarrow> (u64 \<times> mem) res option" where
  "alloc_loop m nalloc nr_pfns pfn_align i =
     (if i + nr_pfns < max_page nalloc
      then (if is_free_contiguous_region m nalloc i nr_pfns
            then Some (Inr (i, map_alloc m nalloc i nr_pfns))
            else alloc_loop m nalloc nr_pfns pfn_align (i + pfn_align))
      else Some (fatal_failure (line ''alloc_pages failed'')))"

definition alloc_pages ::
    "mem \<Rightarrow> u64 \<Rightarrow> u64 \<Rightarrow> naive_allocator \<Rightarrow> (u64 \<times> mem) res option" where
  "alloc_pages m nr_pfns pfn_align nalloc = alloc_loop m nalloc nr_pfns pfn_align 0"

definition alloc_host_pages ::
    "mem \<Rightarrow> naive_allocator \<Rightarrow> u64 \<Rightarrow> u64 \<Rightarrow> (u64 \<times> mem) res option" where
  "alloc_host_pages m host nr_pfns pfn_align = alloc_pages m nr_pfns pfn_align host"

subsection \<open>What the bitmap operations mark\<close>

text \<open>Page \<open>p\<close> is occupied in the bitmap at \<open>tbl\<close>.\<close>

definition page_bit :: "mem \<Rightarrow> u64 \<Rightarrow> nat \<Rightarrow> bool" where
  "page_bit m tbl p = bit (tbl_get m tbl (of_nat (p div 64))) (p mod 64)"

lemma tbl_get_set:
  assumes "i < 2 ^ 60" and "j < 2 ^ 60"
  shows "tbl_get (tbl_set m tbl (of_nat i) v) tbl (of_nat j) =
    (if i = j then v else tbl_get m tbl (of_nat j))"
proof -
  have a: "tbl + 8 * of_nat k = tbl + of_nat (8 * k)" for k by simp
  show ?thesis
    using assms by (auto simp: tbl_get_def tbl_set_def a simp del: of_nat_mult
        intro!: load_store_array)
qed

text \<open>The words of the bitmap are a table in memory.\<close>

interpretation bitmap: word_table "\<lambda>m i. tbl_get m t (of_nat i)" "\<lambda>m i v. tbl_set m t (of_nat i) v"
  "2 ^ 60" for t
  by unfold_locales (simp_all add: tbl_get_set)

lemma tbl_set_frame:
  assumes "i < 2 ^ 60" and "unat (x - tbl) < 8 * i \<or> 8 * Suc i \<le> unat (x - tbl)"
  shows "tbl_set m tbl (of_nat i) v x = m x"
proof -
  have "in_range (tbl + of_nat (8 * i)) 8 x \<longleftrightarrow> 8 * i \<le> unat (x - tbl) \<and> unat (x - tbl) < 8 * i + 8"
    using assms(1) by (intro in_range_offset) simp
  then have "\<not> in_range (tbl + of_nat (8 * i)) 8 x" using assms(2) by auto
  then have "store64 m (tbl + of_nat (8 * i)) v x = m x" by (intro store_le_other) simp_all
  then show ?thesis by (simp add: tbl_set_def)
qed

lemma idx_of_nat: "get_alloc_bitmap_idx pfn = of_nat (unat pfn div 64)"
proof -
  have "unat (drop_bit 6 pfn) = unat pfn div 64" by (simp only: unat_drop_bit) simp
  then have "of_nat (unat (drop_bit 6 pfn)) = (of_nat (unat pfn div 64) :: u64)" by (simp only:)
  moreover have "of_nat (unat (drop_bit 6 pfn)) = drop_bit 6 pfn" by simp
  ultimately show ?thesis by (simp only: get_alloc_bitmap_idx_def)
qed

lemma offset_unat: "unat (get_alloc_bitmap_offset pfn) = unat pfn mod 64"
proof -
  have "get_alloc_bitmap_offset pfn = take_bit 6 pfn"
    by (simp add: get_alloc_bitmap_offset_def take_bit_eq_mask mask_eq_exp_minus_1)
  then show ?thesis by (simp only: unat_take_bit) simp
qed

lemma bit_ul_offset: "bit_ul (get_alloc_bitmap_offset pfn) = 2 ^ (unat pfn mod 64)"
  by (simp add: bit_ul_def offset_unat)

lemma fill_words_spec:
  assumes "i \<le> e" and "e < 2 ^ 60"
  shows "\<exists>m'. fill_words m tbl (of_nat i) (of_nat e) v = (m', of_nat e) \<and>
    (\<forall>j < 2 ^ 60. tbl_get m' tbl (of_nat j) =
       (if i \<le> j \<and> j < e then v else tbl_get m tbl (of_nat j))) \<and>
    (\<forall>x. unat (x - tbl) < 8 * i \<or> 8 * e \<le> unat (x - tbl) \<longrightarrow> m' x = m x)"
  using assms(1)
proof (induction i arbitrary: m rule: inc_induct)
  case base
  then show ?case by (auto simp: fill_words.simps)
next
  case (step n)
  let ?m = "tbl_set m tbl (of_nat n) v"
  have lt: "(of_nat n :: u64) < of_nat e"
    using step.hyps assms(2) by (simp add: word_less_nat_alt unat_of_nat_u64 del: unat_of_nat)
  have "of_nat n + (1 :: u64) = of_nat (Suc n)" by simp
  then have eq: "fill_words m tbl (of_nat n) (of_nat e) v =
      fill_words ?m tbl (of_nat (Suc n)) (of_nat e) v"
    using lt by (simp only: fill_words.simps [of m tbl "of_nat n"] if_True)
  have frame: "?m x = m x" if "unat (x - tbl) < 8 * n \<or> 8 * e \<le> unat (x - tbl)" for x
    using that step.hyps assms(2) tbl_set_frame [of n x tbl m v] by auto
  show ?case
    unfolding eq using step.IH [of ?m] step.hyps assms(2) frame
    by (fastforce simp: tbl_get_set not_less_eq_eq le_less_Suc_eq Suc_le_eq)
qed

lemma pos_less_iff:
  "(f :: nat) < p \<longleftrightarrow> f div 64 < p div 64 \<or> f div 64 = p div 64 \<and> f mod 64 < p mod 64"
proof -
  define a b c d where "a = f div 64" and "b = f mod 64" and "c = p div 64" and "d = p mod 64"
  have "f = 64 * a + b" "p = 64 * c + d" "b < 64" "d < 64"
    by (simp_all add: a_def b_def c_def d_def)
  then have "f < p \<longleftrightarrow> a < c \<or> a = c \<and> b < d" by arith
  then show ?thesis by (simp only: a_def b_def c_def d_def)
qed

lemma pos_le_iff:
  "(f :: nat) \<le> p \<longleftrightarrow> f div 64 < p div 64 \<or> f div 64 = p div 64 \<and> f mod 64 \<le> p mod 64"
  using pos_less_iff [of p f] by (auto simp: not_less [symmetric])

text \<open>
  The general shape of both bitmap operations: the words touched are those from the index
  \<open>a\<close> of the first page to the index \<open>e\<close> of the page after the last.
\<close>

definition span_result :: "mem \<Rightarrow> mem \<Rightarrow> u64 \<Rightarrow> nat \<Rightarrow> nat \<Rightarrow> (nat \<Rightarrow> u64) \<Rightarrow> bool" where
  "span_result m m' tbl a e w \<longleftrightarrow>
     (\<forall>j < 2 ^ 60. tbl_get m' tbl (of_nat j) =
        (if a \<le> j \<and> j \<le> e then w j else tbl_get m tbl (of_nat j))) \<and>
     (\<forall>x. unat (x - tbl) < 8 * a \<or> 8 * Suc e \<le> unat (x - tbl) \<longrightarrow> m' x = m x)"

lemma span_one:
  assumes "a < 2 ^ 60"
  shows "span_result m (tbl_set m tbl (of_nat a) v) tbl a a (\<lambda>_. v)"
  using assms by (auto simp: span_result_def tbl_get_set tbl_set_frame)

lemma span_many:
  assumes ae: "a < e" and e: "e < 2 ^ 60"
  obtains m2 where
    "fill_words (tbl_set m tbl (of_nat a) x) tbl (of_nat a + 1) (of_nat e) v = (m2, of_nat e)"
    and "tbl_get m2 tbl (of_nat e) = tbl_get m tbl (of_nat e)"
    and "\<And>y. span_result m (tbl_set m2 tbl (of_nat e) y) tbl a e
      (\<lambda>j. if j = a then x else if j = e then y else v)"
proof -
  let ?m1 = "tbl_set m tbl (of_nat a) x"
  have suc: "of_nat a + (1 :: u64) = of_nat (Suc a)" by simp
  obtain m2 where m2: "fill_words ?m1 tbl (of_nat (Suc a)) (of_nat e) v = (m2, of_nat e)"
    and get: "\<And>j. j < 2 ^ 60 \<Longrightarrow> tbl_get m2 tbl (of_nat j) =
       (if Suc a \<le> j \<and> j < e then v else tbl_get ?m1 tbl (of_nat j))"
    and frame: "\<And>z. unat (z - tbl) < 8 * Suc a \<or> 8 * e \<le> unat (z - tbl) \<Longrightarrow> m2 z = ?m1 z"
    using fill_words_spec [of "Suc a" e ?m1 tbl v] ae e by (metis Suc_leI)
  have "tbl_get m2 tbl (of_nat e) = tbl_get m tbl (of_nat e)"
    using get [of e] ae e by (simp add: tbl_get_set)
  moreover have "span_result m (tbl_set m2 tbl (of_nat e) y) tbl a e
      (\<lambda>j. if j = a then x else if j = e then y else v)" for y
    using ae e get frame by (auto simp: span_result_def tbl_get_set tbl_set_frame)
  ultimately show thesis using that m2 by (simp only: suc)
qed

lemma of_nat_index_neq:
  assumes "a < e" and "e < 2 ^ 60"
  shows "(of_nat a :: u64) \<noteq> of_nat e"
proof
  assume "(of_nat a :: u64) = of_nat e"
  then have "unat (of_nat a :: u64) = unat (of_nat e :: u64)" by simp
  then show False using assms by (simp add: unat_of_nat_u64 del: unat_of_nat)
qed

text \<open>The pages from \<open>f\<close> to \<open>f + n - 1\<close>, by word index and bit.\<close>

definition span_bit :: "nat \<Rightarrow> nat \<Rightarrow> nat \<Rightarrow> bool" where
  "span_bit f n p \<longleftrightarrow> f \<le> p \<and> p < f + n"

lemma span_bit_iff:
  "span_bit f n p \<longleftrightarrow>
     (f div 64 < p div 64 \<or> f div 64 = p div 64 \<and> f mod 64 \<le> p mod 64) \<and>
     (p div 64 < (f + n) div 64 \<or> p div 64 = (f + n) div 64 \<and> p mod 64 < (f + n) mod 64)"
  unfolding span_bit_def pos_le_iff [of f] pos_less_iff [of p] by (rule refl)

lemma span_bounds:
  assumes "unat f + unat n < 2 ^ 64"
  shows "unat (f + n :: u64) = unat f + unat n" and "unat f div 64 \<le> (unat f + unat n) div 64"
    and "(unat f + unat n) div 64 < 2 ^ 60"
  using assms by (auto simp: unat_plus_if' div_le_mono div_less_iff_less_mult)

lemma map_alloc_span:
  assumes "unat f + unat n < 2 ^ 64"
  shows "\<exists>w. span_result m (map_alloc m na f n) (alloc_bitmap na)
      (unat f div 64) ((unat f + unat n) div 64) w \<and>
    (\<forall>p. unat f div 64 \<le> p div 64 \<and> p div 64 \<le> (unat f + unat n) div 64 \<longrightarrow>
      (bit (w (p div 64)) (p mod 64) \<longleftrightarrow>
        page_bit m (alloc_bitmap na) p \<or> span_bit (unat f) (unat n) p))"
proof -
  let ?t = "alloc_bitmap na" and ?a = "unat f div 64" and ?e = "(unat f + unat n) div 64"
  let ?so = "unat f mod 64" and ?eo = "(unat f + unat n) mod 64"
  note b = span_bounds [OF assms]
  show ?thesis
  proof (cases "?a = ?e")
    case True
    then have "map_alloc m na f n = tbl_set m ?t (of_nat ?a)
        (tbl_get m ?t (of_nat ?a) OR ((2 ^ ?eo - 1) AND (- (2 ^ ?so))))"
      by (simp add: map_alloc_def Let_def idx_of_nat bit_ul_offset b(1))
    then show ?thesis
      using span_one [of ?a m ?t] True b
      by (intro exI conjI) (auto simp: page_bit_def span_bit_iff bit_simps bit_low_mask bit_high_mask)
  next
    case False
    then have ae: "?a < ?e" using b(2) by simp
    obtain m2 where m2: "fill_words (tbl_set m ?t (of_nat ?a) (tbl_get m ?t (of_nat ?a) OR - (2 ^ ?so)))
        ?t (of_nat ?a + 1) (of_nat ?e) (NOT 0) = (m2, of_nat ?e)"
      "tbl_get m2 ?t (of_nat ?e) = tbl_get m ?t (of_nat ?e)"
      "\<And>y. span_result m (tbl_set m2 ?t (of_nat ?e) y) ?t ?a ?e
        (\<lambda>j. if j = ?a then tbl_get m ?t (of_nat ?a) OR - (2 ^ ?so) else if j = ?e then y else NOT 0)"
      using span_many [OF ae b(3), of m ?t "tbl_get m ?t (of_nat ?a) OR - (2 ^ ?so)" "NOT 0"] by blast
    have "map_alloc m na f n =
        tbl_set m2 ?t (of_nat ?e) (tbl_get m ?t (of_nat ?e) OR (2 ^ ?eo - 1))"
      unfolding map_alloc_def Let_def idx_of_nat bit_ul_offset b(1) m2(1)
      using of_nat_index_neq [OF ae b(3)] by (simp add: m2(2))
    then show ?thesis
      using m2(3) ae
      by (intro exI conjI) (auto simp: page_bit_def span_bit_iff bit_simps bit_low_mask bit_high_mask)
  qed
qed

lemma map_free_span:
  assumes "unat f + unat n < 2 ^ 64"
  shows "\<exists>w. span_result m (map_free m na f n) (alloc_bitmap na)
      (unat f div 64) ((unat f + unat n) div 64) w \<and>
    (\<forall>p. unat f div 64 \<le> p div 64 \<and> p div 64 \<le> (unat f + unat n) div 64 \<longrightarrow>
      (bit (w (p div 64)) (p mod 64) \<longleftrightarrow>
        page_bit m (alloc_bitmap na) p \<and> \<not> span_bit (unat f) (unat n) p))"
proof -
  let ?t = "alloc_bitmap na" and ?a = "unat f div 64" and ?e = "(unat f + unat n) div 64"
  let ?so = "unat f mod 64" and ?eo = "(unat f + unat n) mod 64"
  note b = span_bounds [OF assms]
  show ?thesis
  proof (cases "?a = ?e")
    case True
    then have "map_free m na f n = tbl_set m ?t (of_nat ?a)
        (tbl_get m ?t (of_nat ?a) AND (- (2 ^ ?eo) OR (2 ^ ?so - 1)))"
      by (simp add: map_free_def Let_def idx_of_nat bit_ul_offset b(1))
    then show ?thesis
      using span_one [of ?a m ?t] True b
      by (intro exI conjI) (auto simp: page_bit_def span_bit_iff bit_simps bit_low_mask bit_high_mask)
  next
    case False
    then have ae: "?a < ?e" using b(2) by simp
    obtain m2 where m2: "fill_words (tbl_set m ?t (of_nat ?a) (tbl_get m ?t (of_nat ?a) AND (2 ^ ?so - 1)))
        ?t (of_nat ?a + 1) (of_nat ?e) 0 = (m2, of_nat ?e)"
      "tbl_get m2 ?t (of_nat ?e) = tbl_get m ?t (of_nat ?e)"
      "\<And>y. span_result m (tbl_set m2 ?t (of_nat ?e) y) ?t ?a ?e
        (\<lambda>j. if j = ?a then tbl_get m ?t (of_nat ?a) AND (2 ^ ?so - 1) else if j = ?e then y else 0)"
      using span_many [OF ae b(3), of m ?t "tbl_get m ?t (of_nat ?a) AND (2 ^ ?so - 1)" 0] by blast
    have "map_free m na f n =
        tbl_set m2 ?t (of_nat ?e) (tbl_get m ?t (of_nat ?e) AND - (2 ^ ?eo))"
      unfolding map_free_def Let_def idx_of_nat bit_ul_offset b(1) m2(1)
      using of_nat_index_neq [OF ae b(3)] by (simp add: m2(2))
    then show ?thesis
      using m2(3) ae
      by (intro exI conjI) (auto simp: page_bit_def span_bit_iff bit_simps bit_low_mask bit_high_mask split: if_splits)
  qed
qed

lemma map_alloc_bits:
  assumes "unat f + unat n < 2 ^ 64" and "p < 2 ^ 64"
  shows "page_bit (map_alloc m na f n) (alloc_bitmap na) p \<longleftrightarrow>
    page_bit m (alloc_bitmap na) p \<or> (unat f \<le> p \<and> p < unat f + unat n)"
proof -
  have "p div 64 < 2 ^ 60" using assms(2) by (simp add: div_less_iff_less_mult)
  then show ?thesis
    using map_alloc_span [OF assms(1), of m na] span_bit_iff [of "unat f" "unat n" p]
    unfolding span_bit_def span_result_def page_bit_def by (metis le_less_linear less_imp_le)
qed

lemma map_free_bits:
  assumes "unat f + unat n < 2 ^ 64" and "p < 2 ^ 64"
  shows "page_bit (map_free m na f n) (alloc_bitmap na) p \<longleftrightarrow>
    page_bit m (alloc_bitmap na) p \<and> \<not> (unat f \<le> p \<and> p < unat f + unat n)"
proof -
  have "p div 64 < 2 ^ 60" using assms(2) by (simp add: div_less_iff_less_mult)
  then show ?thesis
    using map_free_span [OF assms(1), of m na] span_bit_iff [of "unat f" "unat n" p]
    unfolding span_bit_def span_result_def page_bit_def by (metis le_less_linear less_imp_le)
qed

text \<open>The bytes the operations touch are those of the words of the pages \<open>f\<close> to \<open>f + n\<close>,
  the last one included: \<open>map_alloc\<close> reads and rewrites the word of the page after the last.\<close>

lemma map_alloc_frame:
  assumes "unat f + unat n < 2 ^ 64"
    and "unat (x - alloc_bitmap na) < 8 * (unat f div 64) \<or>
      8 * Suc ((unat f + unat n) div 64) \<le> unat (x - alloc_bitmap na)"
  shows "map_alloc m na f n x = m x"
  using map_alloc_span [OF assms(1), of m na] assms(2) unfolding span_result_def by blast

lemma map_free_frame:
  assumes "unat f + unat n < 2 ^ 64"
    and "unat (x - alloc_bitmap na) < 8 * (unat f div 64) \<or>
      8 * Suc ((unat f + unat n) div 64) \<le> unat (x - alloc_bitmap na)"
  shows "map_free m na f n x = m x"
  using map_free_span [OF assms(1), of m na] assms(2) unfolding span_result_def by blast


subsection \<open>What the search finds\<close>

text \<open>Page \<open>p\<close> looks occupied to \<open>allocated_in_map\<close>: the upper half of each word is lost
  in the conversion to \<open>int\<close>.\<close>

definition seen_allocated :: "mem \<Rightarrow> naive_allocator \<Rightarrow> nat \<Rightarrow> bool" where
  "seen_allocated m na p \<longleftrightarrow> page_bit m (alloc_bitmap na) p \<and> p mod 64 < 32"

lemma ctrue_to_int_bit:
  assumes "k < 64"
  shows "ctrue (to_int (w AND 2 ^ k)) \<longleftrightarrow> bit w k \<and> k < 32"
proof -
  have "to_int (w AND 2 ^ k) = 0 \<longleftrightarrow> (\<forall>n < 32. \<not> (bit w n \<and> n = k))"
    by (auto simp: bit_eq_iff to_int_def bit_simps)
  then show ?thesis by (auto simp: ctrue_def)
qed

lemma allocated_in_map_iff:
  "ctrue (allocated_in_map m na pfn) \<longleftrightarrow> seen_allocated m na (unat pfn)"
  by (simp add: allocated_in_map_def seen_allocated_def page_bit_def idx_of_nat bit_ul_offset
      ctrue_to_int_bit Let_def)

definition region_seems_free :: "mem \<Rightarrow> naive_allocator \<Rightarrow> nat \<Rightarrow> nat \<Rightarrow> bool" where
  "region_seems_free m na n f \<longleftrightarrow> (\<forall>k < n. \<not> seen_allocated m na (f + k))"

lemma free_region_from_iff:
  assumes "unat pfn + unat n < 2 ^ 64" and "i \<le> unat n"
  shows "free_region_from m na pfn n (of_nat i) \<longleftrightarrow>
    (\<forall>k. i \<le> k \<and> k < unat n \<longrightarrow> \<not> seen_allocated m na (unat pfn + k))"
  using assms(2)
proof (induction i rule: inc_induct)
  case base
  then show ?case by (simp add: free_region_from.simps) linarith
next
  case (step j)
  have j: "unat (of_nat j :: u64) = j" using step.hyps unat_word_less [of n]
    by (simp add: unat_of_nat_u64 del: unat_of_nat)
  have lt: "(of_nat j :: u64) < n" using step.hyps by (simp add: word_less_nat_alt j del: unat_of_nat)
  have pj: "unat (pfn + of_nat j) = unat pfn + j"
    using assms(1) step.hyps j by (simp add: unat_plus_if' del: unat_of_nat)
  have suc: "of_nat j + (1 :: u64) = of_nat (Suc j)" by simp
  have "free_region_from m na pfn n (of_nat j) \<longleftrightarrow>
      \<not> seen_allocated m na (unat pfn + j) \<and> free_region_from m na pfn n (of_nat (Suc j))"
    using lt by (simp only: free_region_from.simps [of m na pfn n "of_nat j"]
      allocated_in_map_iff pj suc if_True) simp
  then show ?case using step.IH step.hyps
    by (simp add: Suc_le_eq) (metis le_neq_implies_less less_imp_le order_refl)
qed

lemma is_free_contiguous_region_iff:
  assumes "unat pfn + unat n < 2 ^ 64"
  shows "is_free_contiguous_region m na pfn n \<longleftrightarrow> region_seems_free m na (unat n) (unat pfn)"
  using free_region_from_iff [OF assms, of 0]
  by (simp add: is_free_contiguous_region_def region_seems_free_def)

text \<open>
  The promise of \<open>alloc_pages\<close>: the first multiple of the alignment whose region seems free
  and ends before the last page.
\<close>

definition first_fit :: "mem \<Rightarrow> naive_allocator \<Rightarrow> nat \<Rightarrow> nat \<Rightarrow> nat option" where
  "first_fit m na n a =
     List.find (region_seems_free m na n)
       (filter (\<lambda>i. a dvd i) [0 ..< unat (max_page na) - n])"

definition alloc_outcome ::
    "mem \<Rightarrow> naive_allocator \<Rightarrow> u64 \<Rightarrow> nat option \<Rightarrow> (u64 \<times> mem) res" where
  "alloc_outcome m na n r = (case r of
      None \<Rightarrow> fatal_failure (line ''alloc_pages failed'')
    | Some i \<Rightarrow> Inr (of_nat i, map_alloc m na (of_nat i) n))"

lemma filter_dvd_step:
  assumes "(a :: nat) dvd i" and "0 < a" and "i < M"
  shows "filter (\<lambda>i. a dvd i) [i ..< M] = i # filter (\<lambda>i. a dvd i) [i + a ..< M]"
proof -
  have none: "filter (\<lambda>i. a dvd i) [Suc i ..< k] = []" if "k \<le> i + a" for k
  proof -
    have "\<not> a dvd j" if "Suc i \<le> j" "j < k" for j
    proof
      assume "a dvd j"
      then have "a dvd j - i" using assms(1) by (rule dvd_diff_nat)
      moreover have "0 < j - i" "j - i < a" using that \<open>k \<le> i + a\<close> by auto
      ultimately show False by (simp add: nat_dvd_not_less)
    qed
    then show ?thesis by (simp add: filter_empty_conv)
  qed
  have s: "[i ..< M] = i # [Suc i ..< M]" using assms(3) by (simp add: upt_conv_Cons)
  show ?thesis
  proof (cases "i + a \<le> M")
    case True
    then have "[Suc i ..< M] = [Suc i ..< i + a] @ [i + a ..< M]"
      using upt_add_eq_append [of "Suc i" "i + a" "M - (i + a)"] assms(2) by simp
    then show ?thesis using s none [of "i + a"] assms(1) by simp
  next
    case False
    then show ?thesis using s none [of M] assms(1) by simp
  qed
qed

lemma alloc_loop_first_fit:
  assumes "0 < unat a" and "unat (max_page na) + unat n + unat a < 2 ^ 64"
    and "unat a dvd i" and "i < unat (max_page na) + unat a"
  shows "alloc_loop m na n a (of_nat i) = Some (alloc_outcome m na n
    (List.find (region_seems_free m na (unat n))
      (filter (\<lambda>i. unat a dvd i) [i ..< unat (max_page na) - unat n])))"
  using assms(3,4)
proof (induction "unat (max_page na) + unat a - i" arbitrary: i rule: less_induct)
  case less
  let ?M = "unat (max_page na) - unat n"
  have i: "unat (of_nat i :: u64) = i" using less.prems assms(2)
    by (simp add: unat_of_nat_u64 del: unat_of_nat)
  have sum: "unat (of_nat i + n) = i + unat n"
    using less.prems assms(2) i by (simp add: unat_plus_if' del: unat_of_nat)
  have guard: "of_nat i + n < max_page na \<longleftrightarrow> i < ?M"
    unfolding word_less_nat_alt sum by arith
  have nxt: "of_nat i + a = of_nat (i + unat a)" by simp
  show ?case
  proof (cases "i < ?M")
    case False
    then show ?thesis by (simp add: alloc_loop.simps guard alloc_outcome_def)
  next
    case True
    have free: "is_free_contiguous_region m na (of_nat i) n \<longleftrightarrow> region_seems_free m na (unat n) i"
      using is_free_contiguous_region_iff [of "of_nat i" n m na] i True assms(2)
        unat_word_less [of "max_page na"] by (simp del: unat_of_nat)
    have rec: "alloc_loop m na n a (of_nat (i + unat a)) = Some (alloc_outcome m na n
      (List.find (region_seems_free m na (unat n))
        (filter (\<lambda>i. unat a dvd i) [i + unat a ..< ?M])))"
      using less.prems True assms(1) by (intro less.hyps) auto
    show ?thesis
      unfolding alloc_loop.simps [of m na n a "of_nat i"] guard free nxt rec
        filter_dvd_step [OF less.prems(1) assms(1) True]
      using True by (simp add: alloc_outcome_def)
  qed
qed

lemma alloc_pages_first_fit:
  assumes "0 < unat a" and "unat (max_page na) + unat n + unat a < 2 ^ 64"
  shows "alloc_pages m n a na = Some (alloc_outcome m na n (first_fit m na (unat n) (unat a)))"
  using alloc_loop_first_fit [OF assms, of 0 m] assms(1)
  by (simp add: alloc_pages_def first_fit_def)


subsection \<open>The interface of a page bitmap\<close>

text \<open>
  What a client of the bitmap relies on: marking and unmarking a run of pages changes the state
  of exactly those pages.  Pages are numbered below \<open>limit\<close>.
\<close>

locale page_bitmap =
  fixes marked :: "'s \<Rightarrow> nat \<Rightarrow> bool"
    and mark :: "'s \<Rightarrow> nat \<Rightarrow> nat \<Rightarrow> 's"
    and unmark :: "'s \<Rightarrow> nat \<Rightarrow> nat \<Rightarrow> 's"
    and limit :: nat
  assumes marked_mark: "f + n < limit \<Longrightarrow> p < limit \<Longrightarrow>
      marked (mark s f n) p \<longleftrightarrow> marked s p \<or> (f \<le> p \<and> p < f + n)"
    and marked_unmark: "f + n < limit \<Longrightarrow> p < limit \<Longrightarrow>
      marked (unmark s f n) p \<longleftrightarrow> marked s p \<and> \<not> (f \<le> p \<and> p < f + n)"
begin

lemma unmark_mark:
  assumes "f + n < limit" and "\<forall>k < n. \<not> marked s (f + k)" and "p < limit"
  shows "marked (unmark (mark s f n) f n) p \<longleftrightarrow> marked s p"
  using assms by (auto simp: marked_mark marked_unmark dest: spec [of _ "p - f"])

lemma mark_independent:
  assumes "f + n < limit" and "p < limit" and "p < f \<or> f + n \<le> p"
  shows "marked (mark s f n) p \<longleftrightarrow> marked s p"
  using assms by (auto simp: marked_mark)

lemma used_mark:
  assumes "f + n < limit" and "\<forall>k < n. \<not> marked s (f + k)"
  shows "card {p. p < limit \<and> marked (mark s f n) p} = card {p. p < limit \<and> marked s p} + n"
proof -
  have "{p. p < limit \<and> marked (mark s f n) p} = {p. p < limit \<and> marked s p} \<union> {f ..< f + n}"
    using assms(1) by (auto simp: marked_mark)
  moreover have "{p. p < limit \<and> marked s p} \<inter> {f ..< f + n} = {}"
  proof -
    have "\<not> marked s p" if "f \<le> p" "p < f + n" for p
      using assms(2) that by (auto dest: spec [of _ "p - f"])
    then show ?thesis by auto
  qed
  ultimately show ?thesis
    by (simp add: card_Un_disjoint)
qed

end

text \<open>The monitor's bitmap is one, for page numbers of an \<open>unsigned long\<close>.\<close>

interpretation host: page_bitmap
  "\<lambda>m. page_bit m (alloc_bitmap na)"
  "\<lambda>m f n. map_alloc m na (of_nat f) (of_nat n)"
  "\<lambda>m f n. map_free m na (of_nat f) (of_nat n)"
  "2 ^ 64" for na
  by unfold_locales
    (auto simp: map_alloc_bits map_free_bits unat_of_nat_u64 simp del: unat_of_nat)

subsection \<open>The heap after initialisation\<close>

text \<open>The pages that one entry of the memory map frees, in terms of the code's rounding.\<close>

definition entry_frees :: "pmem_layout \<Rightarrow> e820_entry \<Rightarrow> nat \<Rightarrow> bool" where
  "entry_frees pml e p \<longleftrightarrow> etype e = E820_RAM \<and>
     vmm_heap_start pml \<le> addr e + size_of e \<and> addr e \<le> vmm_pmem_end pml \<and>
     unat (PAGE_UP (max (addr e) (vmm_heap_start pml))) \<le> 4096 * p \<and>
     4096 * p < unat (PAGE_DOWN (min (addr e + size_of e) (vmm_pmem_end pml)))"

lemma PAGE_UP_aligned: "4096 dvd unat (PAGE_UP p)"
proof -
  have "PAGE_UP p = PAGE_DOWN (p + (PAGE_SIZE - 1))" by (simp add: PAGE_UP_def PAGE_DOWN_def)
  then show ?thesis by (simp add: unat_PAGE_DOWN)
qed

lemma free_alloc_bitmap_region_bits:
  assumes "p < 2 ^ 64"
  shows "page_bit (free_alloc_bitmap_region m na s e) (alloc_bitmap na) p \<longleftrightarrow>
    page_bit m (alloc_bitmap na) p \<and>
    \<not> (unat (PAGE_UP s) \<le> 4096 * p \<and> 4096 * p < unat (PAGE_DOWN e))"
proof (cases "PAGE_DOWN e \<le> PAGE_UP s")
  case True
  then show ?thesis by (auto simp: free_alloc_bitmap_region_def word_le_nat_alt)
next
  case False
  let ?f = "drop_bit PAGE_SHIFT (PAGE_UP s)" and ?n = "drop_bit PAGE_SHIFT (PAGE_DOWN e - PAGE_UP s)"
  obtain a where a: "unat (PAGE_UP s) = 4096 * a" using PAGE_UP_aligned by (rule dvdE)
  obtain b where b: "unat (PAGE_DOWN e) = 4096 * b" unfolding unat_PAGE_DOWN by (metis mult.commute)
  have "a < b" using False a b by (simp add: word_le_nat_alt)
  moreover have "unat (PAGE_DOWN e - PAGE_UP s) = 4096 * b - 4096 * a"
    using False a b by (simp add: unat_sub word_le_nat_alt)
  moreover have "4096 * b - 4096 * a = 4096 * (b - a)" by (simp add: diff_mult_distrib2)
  moreover have "4096 * b < 2 ^ 64" using b u64_bounded [of "PAGE_DOWN e"] by simp
  ultimately have f: "unat ?f = a" and n: "unat ?n = b - a" and ab: "a + (b - a) = b" "b < 2 ^ 64"
    unfolding unat_shr_page a by simp_all
  have "free_alloc_bitmap_region m na s e = map_free m na ?f ?n"
    using False by (simp add: free_alloc_bitmap_region_def Let_def)
  moreover have "unat ?f + unat ?n < 2 ^ 64" by (simp only: f n ab)
  ultimately show ?thesis
    using map_free_bits [of ?f ?n p m na] assms unfolding f n ab a b by simp
qed

lemma init_host_loop_bits:
  assumes "p < 2 ^ 64"
  shows "page_bit (init_host_loop m host pml es) (alloc_bitmap host) p \<longleftrightarrow>
    page_bit m (alloc_bitmap host) p \<and> \<not> (\<exists>e \<in> set es. entry_frees pml e p)"
proof (induction es arbitrary: m)
  case (Cons e es)
  show ?case
  proof (cases "etype e = E820_RAM \<and> vmm_heap_start pml \<le> addr e + size_of e \<and> addr e \<le> vmm_pmem_end pml")
    case False
    then have "init_host_loop m host pml (e # es) = init_host_loop m host pml es"
      by (auto simp: Let_def not_le)
    moreover have "\<not> entry_frees pml e p" using False unfolding entry_frees_def by blast
    ultimately show ?thesis using Cons.IH by simp
  next
    case True
    have "(if addr e < vmm_heap_start pml then vmm_heap_start pml else addr e) = max (addr e) (vmm_heap_start pml)"
      "(if addr e + size_of e > vmm_pmem_end pml then vmm_pmem_end pml else addr e + size_of e) =
        min (addr e + size_of e) (vmm_pmem_end pml)"
      by (auto simp: max_def min_def)
    then have "init_host_loop m host pml (e # es) = init_host_loop
        (free_alloc_bitmap_region m host (max (addr e) (vmm_heap_start pml))
          (min (addr e + size_of e) (vmm_pmem_end pml))) host pml es"
      using True by (simp add: Let_def free_host_alloc_bitmap_region_def not_le [symmetric])
    then show ?thesis
      using True by (simp add: Cons.IH free_alloc_bitmap_region_bits [OF assms] entry_frees_def)
  qed
qed simp

text \<open>In plain numbers: a whole page of a RAM region, inside the heap.\<close>

definition heap_page :: "pmem_layout \<Rightarrow> e820_entry \<Rightarrow> nat \<Rightarrow> bool" where
  "heap_page pml e p \<longleftrightarrow> etype e = E820_RAM \<and>
     unat (addr e) \<le> 4096 * p \<and> 4096 * p + 4096 \<le> unat (addr e) + unat (size_of e) \<and>
     unat (vmm_heap_start pml) \<le> 4096 * p \<and> 4096 * p + 4096 \<le> unat (vmm_pmem_end pml)"

lemma round_up_le: "(x + 4095) div 4096 * 4096 \<le> 4096 * p \<longleftrightarrow> x \<le> 4096 * (p :: nat)"
proof -
  have "(x + 4095) div 4096 \<le> p \<longleftrightarrow> (x + 4095) div 4096 < Suc p" by (simp only: less_Suc_eq_le)
  also have "\<dots> \<longleftrightarrow> x + 4095 < Suc p * 4096" by (rule div_less_iff_less_mult) simp
  finally show ?thesis by auto
qed

lemma round_down_less: "4096 * p < x div 4096 * 4096 \<longleftrightarrow> 4096 * p + 4096 \<le> (x :: nat)"
proof -
  have "p < x div 4096 \<longleftrightarrow> Suc p \<le> x div 4096" by (rule Suc_le_eq [symmetric])
  also have "\<dots> \<longleftrightarrow> Suc p * 4096 \<le> x" by (rule less_eq_div_iff_mult_less_eq) simp
  finally show ?thesis by auto
qed

lemma entry_frees_heap_page:
  assumes "unat (vmm_pmem_end pml) + 4095 < 2 ^ 64" and "vmm_heap_start pml \<le> vmm_pmem_end pml"
    and "unat (addr e) + unat (size_of e) < 2 ^ 64"
  shows "entry_frees pml e p \<longleftrightarrow> heap_page pml e p"
proof -
  have sum: "unat (addr e + size_of e) = unat (addr e) + unat (size_of e)"
    using assms(3) by (simp add: unat_plus_if')
  have up: "unat (PAGE_UP (max (addr e) (vmm_heap_start pml))) \<le> 4096 * p \<longleftrightarrow>
      unat (addr e) \<le> 4096 * p \<and> unat (vmm_heap_start pml) \<le> 4096 * p"
    if "addr e \<le> vmm_pmem_end pml"
  proof -
    have "unat (max (addr e) (vmm_heap_start pml)) + 4095 < 2 ^ 64"
      using that assms(1,2) by (auto simp: max_def word_le_nat_alt)
    then show ?thesis
      by (simp only: unat_PAGE_UP round_up_le) (auto simp: max_def word_le_nat_alt)
  qed
  have down: "4096 * p < unat (PAGE_DOWN (min (addr e + size_of e) (vmm_pmem_end pml))) \<longleftrightarrow>
      4096 * p + 4096 \<le> unat (addr e) + unat (size_of e) \<and> 4096 * p + 4096 \<le> unat (vmm_pmem_end pml)"
    by (simp only: unat_PAGE_DOWN round_down_less) (auto simp: min_def word_le_nat_alt sum)
  show ?thesis
  proof (cases "addr e \<le> vmm_pmem_end pml")
    case True
    then show ?thesis
      by (auto simp: entry_frees_def heap_page_def up down word_le_nat_alt sum)
  next
    case False
    then show ?thesis by (auto simp: entry_frees_def heap_page_def word_le_nat_alt)
  qed
qed


lemma memset_ones:
  assumes "p < 8 * unat n" and "p < 2 ^ 64"
  shows "page_bit (memset m tbl (NOT 0) n) tbl p"
proof -
  let ?q = "p div 64"
  have n: "8 * ?q + p mod 64 div 8 < unat n"
  proof -
    have "(64 * ?q + p mod 64) div 8 = 8 * ?q + p mod 64 div 8"
      using div_mult_self1 [of 8 "p mod 64" "8 * ?q"] by (simp add: add.commute)
    then have "8 * ?q + p mod 64 div 8 = p div 8" by simp
    then show ?thesis using assms(1) by linarith
  qed
  have "tbl + 8 * of_nat ?q + of_nat (p mod 64 div 8) - tbl = of_nat (8 * ?q + p mod 64 div 8)"
    by simp
  then have "unat (tbl + 8 * of_nat ?q + of_nat (p mod 64 div 8) - tbl) = 8 * ?q + p mod 64 div 8"
    using n u64_bounded [of n] by (simp only: unat_of_nat_u64)
  then show ?thesis
    using n less_trans [OF mod_less_divisor [of 8 "p mod 64"], of 32]
    by (simp add: page_bit_def tbl_get_def bit_load_le memset_apply in_range_def bit_simps)
qed

text \<open>
  After initialisation the free pages are exactly the whole RAM pages of the heap.  The
  hypotheses say that the addresses of the map and of the heap end do not wrap around.
\<close>

lemma naive_memmap_init_heap:
  assumes "naive_memmap_init m e820 pml = Inr (m', host, pml')"
    and "unat (pml_max_page pml) div 8 + 8 + 4095 < 2 ^ 64"
    and "unat (vmm_pmem_end pml) + 4095 < 2 ^ 64"
    and "\<forall>e \<in> set (entries e820). unat (addr e) + unat (size_of e) < 2 ^ 64"
    and "p < unat (pml_max_page pml)"
  shows "page_bit m' (alloc_bitmap host) p \<longleftrightarrow> \<not> (\<exists>e \<in> set (entries e820). heap_page pml' e p)"
proof -
  let ?size = "PAGE_UP (pml_max_page pml div 8 + 8)"
  have pml': "vmm_pmem_end pml' = vmm_pmem_end pml" "vmm_heap_start pml' \<le> vmm_pmem_end pml'"
    and m': "m' = init_host_loop (memset m (alloc_bitmap host) (NOT 0) ?size) host pml' (entries e820)"
    using assms(1) by (auto simp: naive_memmap_init_def Let_def init_host_alloc_bitmap_def
        split: if_splits)
  have "unat (pml_max_page pml div 8 + 8) = unat (pml_max_page pml) div 8 + 8"
    using assms(2) by (simp add: unat_plus_if' unat_div)
  then have "p < 8 * unat ?size" and p: "p < 2 ^ 64"
    using assms(2,5) u64_bounded [of "pml_max_page pml"] by (simp_all add: unat_PAGE_UP)
  then have "page_bit (memset m (alloc_bitmap host) (NOT 0) ?size) (alloc_bitmap host) p"
    by (intro memset_ones)
  moreover have "entry_frees pml' e p \<longleftrightarrow> heap_page pml' e p" if "e \<in> set (entries e820)" for e
    using that assms(3,4) pml' by (intro entry_frees_heap_page) auto
  ultimately show ?thesis unfolding m' init_host_loop_bits [OF p] by auto
qed


subsection \<open>What an allocation returns\<close>

lemma first_fit_Some:
  assumes "first_fit m na n a = Some i"
  shows "a dvd i" and "i + n < unat (max_page na)" and "region_seems_free m na n i"
    and "\<And>j. j < i \<Longrightarrow> a dvd j \<Longrightarrow> \<not> region_seems_free m na n j"
proof -
  let ?xs = "filter (\<lambda>i. a dvd i) [0 ..< unat (max_page na) - n]"
  obtain k where k: "k < length ?xs" "region_seems_free m na n (?xs ! k)" "i = ?xs ! k"
    "\<forall>l < k. \<not> region_seems_free m na n (?xs ! l)"
    using assms unfolding first_fit_def find_Some_iff by blast
  then have i: "i \<in> set ?xs" by (metis nth_mem)
  then show "a dvd i" "i + n < unat (max_page na)" by auto
  show "region_seems_free m na n i" using k by simp
  fix j assume j: "j < i" "a dvd j"
  then have "j \<in> set ?xs" using i by auto
  then obtain l where l: "l < length ?xs" "?xs ! l = j" by (metis in_set_conv_nth)
  have "sorted_wrt (<) ?xs" by (intro sorted_wrt_filter) simp
  then have "l < k"
    using l k j by (metis linorder_neqE_nat order_less_asym sorted_wrt_nth_less)
  then show "\<not> region_seems_free m na n j" using k(4) l by auto
qed

lemma first_fit_None:
  "first_fit m na n a = None \<longleftrightarrow>
    (\<forall>i. a dvd i \<and> i + n < unat (max_page na) \<longrightarrow> \<not> region_seems_free m na n i)"
  unfolding first_fit_def find_None_iff by auto

lemma alloc_host_pages_result:
  assumes "0 < unat a" and "unat (max_page na) + unat n + unat a < 2 ^ 64"
    and "alloc_host_pages m na n a = Some (Inr (r, m'))"
  shows "unat a dvd unat r" and "unat r + unat n < unat (max_page na)"
    and "region_seems_free m na (unat n) (unat r)" and "m' = map_alloc m na r n"
    and "\<And>j. j < unat r \<Longrightarrow> unat a dvd j \<Longrightarrow> \<not> region_seems_free m na (unat n) j"
proof -
  obtain i where i: "first_fit m na (unat n) (unat a) = Some i" and r: "r = of_nat i"
    and m': "m' = map_alloc m na (of_nat i) n"
    using assms(3) alloc_pages_first_fit [OF assms(1,2), of m]
    by (auto simp: alloc_host_pages_def alloc_outcome_def split: option.splits)
  have "i < 2 ^ 64" using first_fit_Some(2) [OF i] u64_bounded [of "max_page na"] by linarith
  then have ri: "unat r = i" unfolding r by (rule unat_of_nat_u64)
  show "unat a dvd unat r" "unat r + unat n < unat (max_page na)"
    "region_seems_free m na (unat n) (unat r)" "m' = map_alloc m na r n"
    using first_fit_Some [OF i] ri m' r by simp_all
  show "\<And>j. j < unat r \<Longrightarrow> unat a dvd j \<Longrightarrow> \<not> region_seems_free m na (unat n) j"
    using first_fit_Some(4) [OF i] ri by simp
qed

text \<open>A few pages are taken when the first \<open>k\<close> of the 32 low pages are occupied: they start at page \<open>k\<close>,
  and when \<open>k\<close> is 32 they do so again and again, whatever the bitmap says of them.\<close>

lemma first_fit_low:
  assumes "\<forall>p < 32. page_bit m (alloc_bitmap na) p \<longleftrightarrow> p < k" and "k \<le> 32" and "0 < n" and "n \<le> 32"
    and "k + n < unat (max_page na)"
  shows "first_fit m na n 1 = Some k"
proof -
  have free: "region_seems_free m na n k"
    unfolding region_seems_free_def seen_allocated_def
  proof (intro allI impI)
    fix j assume "j < n"
    then show "\<not> (page_bit m (alloc_bitmap na) (k + j) \<and> (k + j) mod 64 < 32)"
      using assms(1,2,4) by (cases "k + j < 32") auto
  qed
  have full: "\<not> region_seems_free m na n j" if "j < k" for j
    using assms(1,2,3) that by (auto simp: region_seems_free_def seen_allocated_def intro!: exI [of _ 0])
  show ?thesis
  proof (cases "first_fit m na n 1")
    case None
    then show ?thesis using free assms(5) by (auto simp: first_fit_None)
  next
    case (Some i)
    have "\<not> i < k" using full first_fit_Some(3) [OF Some] by blast
    moreover have "\<not> k < i" using free first_fit_Some(4) [OF Some, of k] by auto
    ultimately show ?thesis using Some by simp
  qed
qed

lemma alloc_low_pages:
  assumes "\<forall>p < 32. page_bit m (alloc_bitmap na) p \<longleftrightarrow> p < k" and "k \<le> 32" and "0 < unat n" and "unat n \<le> 32"
    and "k + unat n < unat (max_page na)" and "unat (max_page na) + unat n + 1 < 2 ^ 64"
  shows "alloc_host_pages m na n 1 = Some (Inr (of_nat k, map_alloc m na (of_nat k) n))"
    and "\<forall>p < 32. page_bit (map_alloc m na (of_nat k) n) (alloc_bitmap na) p \<longleftrightarrow> p < k + unat n"
proof -
  show "alloc_host_pages m na n 1 = Some (Inr (of_nat k, map_alloc m na (of_nat k) n))"
    using alloc_pages_first_fit [of 1 na n m] first_fit_low [OF assms(1-5)] assms(6)
    by (simp add: alloc_host_pages_def alloc_outcome_def)
  have "unat (of_nat k :: u64) = k" using assms(2) by (intro unat_of_nat_u64) simp
  then show "\<forall>p < 32. page_bit (map_alloc m na (of_nat k) n) (alloc_bitmap na) p \<longleftrightarrow> p < k + unat n"
    using assms(1,2,4) by (auto simp: map_alloc_bits)
qed

lemma alloc_one_page_32:
  assumes "\<forall>p < 32. page_bit m (alloc_bitmap na) p" and "33 < unat (max_page na)"
    and "unat (max_page na) + 2 < 2 ^ 64"
  shows "alloc_host_pages m na 1 1 = Some (Inr (32, map_alloc m na 32 1))"
    and "\<forall>p < 32. page_bit (map_alloc m na 32 1) (alloc_bitmap na) p"
  using alloc_low_pages [of m na 32 1] assms by auto

text \<open>The heap starts after the bitmap, which starts at 0x8100000.\<close>

lemma memmap_heap_start:
  assumes "naive_memmap_init m e820 pml = Inr (m', host, pml')"
    and "unat (pml_max_page pml) div 8 + 8 + 4095 < 2 ^ 64"
  shows "0x8100000 \<le> vmm_heap_start pml'"
proof -
  let ?x = "pml_max_page pml div 8 + 8"
  have up: "PAGE_UP 0x8100000 = 0x8100000" by (simp add: PAGE_UP_def PAGE_MASK_def PAGE_SIZE_def)
  have x: "unat ?x = unat (pml_max_page pml) div 8 + 8"
    using assms(2) by (simp add: unat_plus_if' unat_div)
  have "unat (pml_max_page pml) div 8 < 2 ^ 61" using u64_bounded [of "pml_max_page pml"]
    by (simp add: div_less_iff_less_mult)
  then have "unat (PAGE_UP ?x) \<le> 2 ^ 61 + 8 + 4095"
    unfolding unat_PAGE_UP [of ?x, unfolded x, OF assms(2)]
    using div_times_less_eq_dividend [of "unat (pml_max_page pml) div 8 + 8 + 4095" 4096] by linarith
  moreover have "vmm_heap_start pml' = 0x8100000 + PAGE_UP ?x"
    using assms(1) by (auto simp: naive_memmap_init_def Let_def up split: if_splits)
  ultimately show ?thesis by (simp add: word_le_nat_alt unat_plus_if')
qed

lemma memmap_low_pages:
  assumes "naive_memmap_init m e820 pml = Inr (m0, host, pml')"
    and "unat (pml_max_page pml) div 8 + 8 + 4095 < 2 ^ 64"
    and "unat (vmm_pmem_end pml) + 4095 < 2 ^ 64"
    and "\<forall>e \<in> set (entries e820). unat (addr e) + unat (size_of e) < 2 ^ 64"
    and "33 < unat (pml_max_page pml)"
  shows "\<forall>p \<le> 32. page_bit m0 (alloc_bitmap host) p" and "max_page host = pml_max_page pml"
    and "alloc_bitmap host = 0x8100000"
proof -
  show "max_page host = pml_max_page pml" "alloc_bitmap host = 0x8100000"
    using assms(1) by (auto simp: naive_memmap_init_def Let_def PAGE_UP_def PAGE_MASK_def PAGE_SIZE_def
        split: if_splits)
  have hs: "0x8100000 \<le> vmm_heap_start pml'" by (rule memmap_heap_start [OF assms(1,2)])
  show "\<forall>p \<le> 32. page_bit m0 (alloc_bitmap host) p"
  proof (intro allI impI)
    fix p :: nat assume "p \<le> 32"
    then have "\<not> heap_page pml' e p" for e
      using hs by (auto simp: heap_page_def word_le_nat_alt)
    then show "page_bit m0 (alloc_bitmap host) p"
      using naive_memmap_init_heap [OF assms(1-4), of p] \<open>p \<le> 32\<close> assms(5) by auto
  qed
qed

subsection \<open>Properties of the allocator\<close>

text \<open>C21: \<open>map_alloc\<close> marks exactly the requested pages as occupied, leaves every other page
  of the bitmap as it was, and writes no byte outside the words of the pages \<open>f\<close> to
  \<open>f + n\<close>.\<close>

theorem map_alloc_exact:
  assumes "unat f + unat n < 2 ^ 64"
  shows "(\<forall>p < 2 ^ 64. page_bit (map_alloc m na f n) (alloc_bitmap na) p =
      (page_bit m (alloc_bitmap na) p \<or> unat f \<le> p \<and> p < unat f + unat n)) \<and>
    (\<forall>x. unat (x - alloc_bitmap na) < 8 * (unat f div 64) \<or>
      8 * Suc ((unat f + unat n) div 64) \<le> unat (x - alloc_bitmap na) \<longrightarrow>
      map_alloc m na f n x = m x)"
  using map_alloc_bits [OF assms] map_alloc_frame [OF assms] by simp

theorem map_alloc_exact_witness:
  "page_bit (map_alloc (\<lambda>_. 0) \<lparr>alloc_bitmap = 0x8100000, max_page = 1000\<rparr> 60 10) 0x8100000 69 \<and>
   \<not> page_bit (map_alloc (\<lambda>_. 0) \<lparr>alloc_bitmap = 0x8100000, max_page = 1000\<rparr> 60 10) 0x8100000 70"
proof -
  have z: "\<not> page_bit (\<lambda>_. 0) t p" for t p
    by (simp add: page_bit_def tbl_get_def bit_load_le)
  show ?thesis
    using map_alloc_exact [of 60 10 "\<lambda>_. 0" "\<lparr>alloc_bitmap = 0x8100000, max_page = 1000\<rparr>"]
    by (simp add: z)
qed

text \<open>\<open>map_free\<close> undoes \<open>map_alloc\<close>: when the pages were free, allocating and then
  freeing them gives back every bit of the bitmap; and allocating \<open>n\<close> free pages makes the
  number of occupied pages grow by exactly \<open>n\<close>.\<close>

theorem map_free_undoes_map_alloc:
  assumes "f + n < 2 ^ 64" and "\<forall>k < n. \<not> page_bit m (alloc_bitmap na) (f + k)"
  shows "(\<forall>p < 2 ^ 64. page_bit (map_free (map_alloc m na (of_nat f) (of_nat n)) na
        (of_nat f) (of_nat n)) (alloc_bitmap na) p = page_bit m (alloc_bitmap na) p) \<and>
    card {p. p < 2 ^ 64 \<and> page_bit (map_alloc m na (of_nat f) (of_nat n)) (alloc_bitmap na) p} =
    card {p. p < 2 ^ 64 \<and> page_bit m (alloc_bitmap na) p} + n"
  using host.unmark_mark [OF assms] host.used_mark [OF assms] by blast

theorem map_free_undoes_map_alloc_witness:
  "card {p. p < 2 ^ 64 \<and> page_bit (map_alloc (\<lambda>_. 0) \<lparr>alloc_bitmap = 0x8100000, max_page = 1000\<rparr>
      (of_nat 60) (of_nat 10)) 0x8100000 p} = (10 :: nat)"
proof -
  have z: "\<not> page_bit (\<lambda>_. 0) t p" for t p
    by (simp add: page_bit_def tbl_get_def bit_load_le)
  show ?thesis
    using map_free_undoes_map_alloc [of 60 10 "\<lambda>_. 0" "\<lparr>alloc_bitmap = 0x8100000, max_page = 1000\<rparr>"]
    by (simp add: z)
qed

text \<open>C11: for an alignment that is not 0, and numbers of pages whose sum does not wrap around, \<open>alloc_host_pages\<close>
  always returns: with the first multiple of the alignment whose pages all look free to the test of the code
  (which does not see the upper half of a word of the bitmap) and end before the last page, the bitmap then marking
  them, or with the fatal failure, exactly when there is no such multiple.\<close>

theorem alloc_host_pages_first_fit:
  assumes "0 < unat a" and "unat (max_page na) + unat n + unat a < 2 ^ 64"
  shows "(\<exists>r. alloc_host_pages m na n a = Some (Inr (r, map_alloc m na r n)) \<and>
      unat a dvd unat r \<and> unat r + unat n < unat (max_page na) \<and>
      region_seems_free m na (unat n) (unat r) \<and>
      (\<forall>j < unat r. unat a dvd j \<longrightarrow> \<not> region_seems_free m na (unat n) j)) \<or>
    alloc_host_pages m na n a = Some (fatal_failure (line ''alloc_pages failed'')) \<and>
    (\<forall>i. unat a dvd i \<and> i + unat n < unat (max_page na) \<longrightarrow>
      \<not> region_seems_free m na (unat n) i)"
proof (cases "first_fit m na (unat n) (unat a)")
  case None
  then have "alloc_host_pages m na n a = Some (fatal_failure (line ''alloc_pages failed''))"
    using alloc_pages_first_fit [OF assms, of m]
    by (simp add: alloc_host_pages_def alloc_outcome_def)
  then show ?thesis using None unfolding first_fit_None by blast
next
  case (Some i)
  have "alloc_host_pages m na n a = Some (Inr (of_nat i, map_alloc m na (of_nat i) n))"
    using alloc_pages_first_fit [OF assms, of m] Some
    by (simp add: alloc_host_pages_def alloc_outcome_def)
  then show ?thesis
    using alloc_host_pages_result [OF assms] by blast
qed

theorem alloc_host_pages_first_fit_witness:
  "\<exists>out. alloc_host_pages (\<lambda>_. 0) \<lparr>alloc_bitmap = 0x8100000, max_page = 1000\<rparr> 8 512 = Some out"
  using alloc_host_pages_first_fit [of 512 "\<lparr>alloc_bitmap = 0x8100000, max_page = 1000\<rparr>" 8 "\<lambda>_. 0"]
  by auto

text \<open>After initialisation the bitmap marks a page as free exactly when it is a whole RAM
  page inside the monitor's heap; the low pages, the monitor's image and the bitmap are
  occupied.\<close>

theorem memmap_init_frees_heap:
  assumes "naive_memmap_init m e820 pml = Inr (m', host, pml')"
    and "unat (pml_max_page pml) div 8 + 8 + 4095 < 2 ^ 64"
    and "unat (vmm_pmem_end pml) + 4095 < 2 ^ 64"
    and "\<forall>e \<in> set (entries e820). unat (addr e) + unat (size_of e) < 2 ^ 64"
    and "p < unat (pml_max_page pml)"
  shows "page_bit m' (alloc_bitmap host) p \<longleftrightarrow> \<not> (\<exists>e \<in> set (entries e820). heap_page pml' e p)"
  by (rule naive_memmap_init_heap [OF assms])

definition example_layout :: pmem_layout where
  "example_layout = \<lparr>pml_max_page = 0x10000, total_pages = 0x10000, vmm_pmem_start = 0x8000000,
     vmm_heap_start = 0, vmm_pmem_end = 0xAFFFFFF,
     pml_e820 = \<lparr>nr_map = 1, emap = [\<lparr>addr = 0x100000, size_of = 0xFF00000, etype = E820_RAM\<rparr>]\<rparr>\<rparr>"

lemma example_init:
  "\<exists>m' host. naive_memmap_init m (pml_e820 example_layout) example_layout =
     Inr (m', host, example_layout\<lparr>vmm_heap_start := 0x8103000\<rparr>) \<and>
     alloc_bitmap host = 0x8100000 \<and> max_page host = 0x10000"
  by (simp add: naive_memmap_init_def Let_def example_layout_def PAGE_UP_def PAGE_MASK_def PAGE_SIZE_def)

theorem memmap_init_frees_heap_witness:
  "\<exists>m' host pml'. naive_memmap_init (\<lambda>_. 0) (pml_e820 example_layout) example_layout =
     Inr (m', host, pml') \<and> \<not> page_bit m' (alloc_bitmap host) 0x9000 \<and> page_bit m' (alloc_bitmap host) 0x20"
proof -
  obtain m' host where i: "naive_memmap_init (\<lambda>_. 0) (pml_e820 example_layout) example_layout =
     Inr (m', host, example_layout\<lparr>vmm_heap_start := 0x8103000\<rparr>)"
    using example_init by blast
  show ?thesis
    using memmap_init_frees_heap [OF i, where p = "0x9000"] memmap_init_frees_heap [OF i, where p = "0x20"] i
    by (auto simp: example_layout_def entries_def heap_page_def)
qed

text \<open>Requests for one page, one after the other, with nothing else in between.\<close>

primrec requests :: "nat \<Rightarrow> naive_allocator \<Rightarrow> mem \<Rightarrow> (u64 list \<times> mem) run" where
  "requests 0 host m = Some (Inr ([], m))"
| "requests (Suc n) host m =
     bindo (alloc_host_pages m host 1 1) (\<lambda>(pfn, m).
     bindo (requests n host m) (\<lambda>(pfns, m). Some (Inr (pfn # pfns, m))))"

lemma requests_same:
  assumes "\<forall>p < 32. page_bit m (alloc_bitmap host) p" and "33 < unat (max_page host)" and "unat (max_page host) + 2 < 2 ^ 64"
  shows "\<exists>m'. requests n host m = Some (Inr (replicate n 32, m'))"
  using assms(1)
proof (induction n arbitrary: m)
  case (Suc n)
  show ?case
    using alloc_one_page_32 [OF Suc.prems assms(2,3)] Suc.IH [of "map_alloc m host 32 1"] by auto
qed simp

text \<open>C17: because \<open>allocated_in_map\<close> returns \<open>int\<close>, the allocator hands out the same page again and again: after
  its initialisation, which needs more than 33 pages and regions that do not pass the end of the address
  space (the other conditions exclude sizes within some pages of \<open>2 ^ 64\<close>), each of any number of successive
  requests for one page returns page 32, although this page is marked as occupied from the start
  and lies below the heap.\<close>

theorem alloc_host_pages_repeats:
  assumes "naive_memmap_init m e820 pml = Inr (m0, host, pml')"
    and "unat (pml_max_page pml) div 8 + 8 + 4095 < 2 ^ 64"
    and "unat (vmm_pmem_end pml) + 4095 < 2 ^ 64"
    and "\<forall>e \<in> set (entries e820). unat (addr e) + unat (size_of e) < 2 ^ 64"
    and "33 < unat (pml_max_page pml)" and "unat (pml_max_page pml) + 2 < 2 ^ 64"
  shows "(\<forall>n. \<exists>m1. requests n host m0 = Some (Inr (replicate n 32, m1))) \<and>
    page_bit m0 (alloc_bitmap host) 32 \<and> 33 * 4096 \<le> unat (vmm_heap_start pml')"
proof -
  note low = memmap_low_pages [OF assms(1-5)]
  have l: "\<forall>p < 32. page_bit m0 (alloc_bitmap host) p" using low(1) by simp
  have b: "33 < unat (max_page host)" "unat (max_page host) + 2 < 2 ^ 64"
    using assms(5,6) by (simp_all only: low(2))
  have "33 * 4096 \<le> unat (vmm_heap_start pml')"
    using memmap_heap_start [OF assms(1,2)] by (simp add: word_le_nat_alt)
  then show ?thesis using requests_same [OF l b] low(1) by simp
qed

theorem alloc_host_pages_repeats_witness:
  "\<exists>m0 host m1. requests 3 host m0 = Some (Inr ([32, 32, 32], m1))"
proof -
  obtain m' host where i: "naive_memmap_init (\<lambda>_. 0) (pml_e820 example_layout) example_layout =
     Inr (m', host, example_layout\<lparr>vmm_heap_start := 0x8103000\<rparr>)"
    using example_init by blast
  have "\<exists>m1. requests 3 host m' = Some (Inr (replicate 3 32, m1))"
    using alloc_host_pages_repeats [OF i] by (simp add: example_layout_def entries_def del: requests.simps)
  then show ?thesis by (auto simp: numeral_eq_Suc simp del: requests.simps)
qed


end
