(* ===== verification/Printf.thy ===== *)
theory Printf
  imports CString
begin

text \<open>
  \<open>kernel/printf.c\<close>, \<open>kernel/serial.c\<close>, \<open>include/portio.h\<close>: formatted output.  \<open>vsnprintf\<close>
  writes into a buffer in memory; \<open>outf\<close> sends the buffer to the serial port, byte by byte.  A
  format is the character list of the C literal, the variable arguments are a list of
  \<open>out_arg\<close>.  \<open>None\<close> stands for a call whose arguments do not fit its format, whose behaviour C
  leaves undefined; strings given by their address (\<open>ArgP\<close>) are outside this model of the
  formatter.  The counters are of type \<open>int\<close> and never negative: they are natural numbers
  here, and a call whose counter would pass \<open>INT_MAX\<close>, which C leaves undefined, is \<open>None\<close>.  A format is
  shorter than \<open>2 ^ 31\<close> characters.
\<close>

subsection \<open>The screen\<close>

definition VIDEO_MEM :: u64 where "VIDEO_MEM = 0xb8000"
definition COLS :: nat where "COLS = 80"
definition LINES :: nat where "LINES = 25"

record screen_info =
  orig_x :: nat
  orig_y :: nat

definition clear_screen :: "mem \<Rightarrow> mem \<times> screen_info" where
  "clear_screen m = (memset m VIDEO_MEM 0 (of_nat (COLS * LINES)), \<lparr>orig_x = 0, orig_y = 0\<rparr>)"

text \<open>The loop of \<open>scroll\<close>: \<open>k\<close> cells are left, the next one at index \<open>i\<close>.\<close>

primrec blank_cells :: "nat \<Rightarrow> mem \<Rightarrow> nat \<Rightarrow> mem" where
  "blank_cells 0 m i = m"
| "blank_cells (Suc k) m i = blank_cells k (m(VIDEO_MEM + of_nat i := 0x20)) (i + 2)"

definition scroll :: "mem \<Rightarrow> mem" where
  "scroll m =
     (let m1 = memmove m VIDEO_MEM (VIDEO_MEM + of_nat (COLS * 2)) (of_nat ((LINES - 1) * COLS * 2))
      in blank_cells COLS m1 ((LINES - 1) * COLS * 2))"

definition new_line :: "mem \<Rightarrow> nat \<Rightarrow> mem \<times> nat \<times> nat" where
  "new_line m y = (if y + 1 \<ge> LINES then (scroll m, 0, y) else (m, 0, y + 1))"

definition put_cell :: "mem \<times> nat \<times> nat \<Rightarrow> u8 \<Rightarrow> mem \<times> nat \<times> nat" where
  "put_cell = (\<lambda>(m, x, y) c.
     if c = 0x0A then new_line m y
     else
       let m = m(VIDEO_MEM + of_nat ((x + COLS * y) * 2) := c)
       in if x + 1 \<ge> COLS then new_line m y else (m, x + 1, y))"

text \<open>The string is given by its characters; it does not lie in the video memory.\<close>

definition putstr :: "mem \<Rightarrow> screen_info \<Rightarrow> u8 list \<Rightarrow> mem \<times> screen_info" where
  "putstr m scr s =
     (let (m, x, y) = foldl put_cell (m, orig_x scr, orig_y scr) s
      in (m, \<lparr>orig_x = x, orig_y = y\<rparr>))"

subsection \<open>Formatting\<close>

abbreviation ch :: "char \<Rightarrow> u8" where "ch c \<equiv> of_char c"

definition DIGITS :: string where "DIGITS = ''0123456789abcdef''"

lemma hex_digits_measure:
  assumes "drop_bit 4 n \<noteq> 0"
  shows "unat (drop_bit 4 n) < unat (n :: u64)"
proof -
  have "unat (drop_bit 4 n) = unat n div 16" by (simp only: unat_drop_bit) simp
  moreover have "unat (drop_bit 4 n) \<noteq> 0" using assms by (simp only: unat_eq_zero not_False_eq_True)
  ultimately show ?thesis by simp
qed

text \<open>The \<open>do\<close> loop of \<open>number\<close>: the digits of \<open>tmp\<close>, the lowest first.\<close>

function hex_digits :: "u64 \<Rightarrow> string" where
  "hex_digits n =
     DIGITS ! unat (n AND 0xf) # (if drop_bit 4 n \<noteq> 0 then hex_digits (drop_bit 4 n) else [])"
  by pat_completeness auto

termination
  by (relation "measure unat") (simp, simp only: in_measure, rule hex_digits_measure)

declare hex_digits.simps [simp del]

text \<open>The copy of the digits into the buffer: \<open>i\<close> digits are done, \<open>ds\<close> are left.\<close>

primrec put_digits :: "mem \<Rightarrow> u64 \<Rightarrow> nat \<Rightarrow> nat \<Rightarrow> nat \<Rightarrow> string \<Rightarrow> mem" where
  "put_digits m buf sz j i [] = m"
| "put_digits m buf sz j i (d # ds) =
     put_digits (if j + i < sz then m(buf + of_nat (j + 2 + i) := ch d) else m) buf sz j (i + 1) ds"

definition number :: "mem \<Rightarrow> u64 \<Rightarrow> nat \<Rightarrow> nat \<Rightarrow> u64 \<Rightarrow> nat \<times> mem" where
  "number m buf sz j num =
     (let tmp = hex_digits num;
          len = length tmp;
          m = m(buf + of_nat j := ch CHR ''0'');
          m = m(buf + of_nat (j + 1) := ch CHR ''x'')
      in (len + 2, put_digits m buf sz j 0 (rev tmp)))"

definition PUT_CHAR :: "mem \<Rightarrow> u64 \<Rightarrow> nat \<Rightarrow> nat \<Rightarrow> u8 \<Rightarrow> mem \<times> nat" where
  "PUT_CHAR m buf index sz c =
     (if index < sz then m(buf + of_nat index := c) else m, index + 1)"

primrec put_string :: "mem \<Rightarrow> u64 \<Rightarrow> nat \<Rightarrow> nat \<Rightarrow> string \<Rightarrow> mem \<times> nat" where
  "put_string m buf j sz [] = (m, j)"
| "put_string m buf j sz (c # s) =
     (let (m, j) = PUT_CHAR m buf j sz (ch c) in put_string m buf j sz s)"

definition INT_MAX :: nat where "INT_MAX = 2 ^ 31 - 1"

text \<open>The loop of \<open>vsnprintf\<close>: \<open>j\<close> is the number of characters so far, of which those beyond the size of
  the buffer are only counted.\<close>

fun vsn_loop :: "mem \<Rightarrow> u64 \<Rightarrow> nat \<Rightarrow> nat \<Rightarrow> string \<Rightarrow> out_arg list \<Rightarrow> (nat \<times> mem) res option" where
  "vsn_loop m buf sz j [] args = (if INT_MAX < j then None else Some (Inr (j, m)))"
| "vsn_loop m buf sz j (c # fmt) args =
     (if INT_MAX < j then None
      else if c \<noteq> CHR ''%'' then
        (let (m, j) = PUT_CHAR m buf j sz (ch c) in vsn_loop m buf sz j fmt args)
      else case fmt of
        [] \<Rightarrow> Some (fatal_failure ''vsnprintf'')
      | d # fmt \<Rightarrow>
          if d = CHR ''c'' then
            (case args of ArgX n # args \<Rightarrow>
               (let (m, j) = PUT_CHAR m buf j sz (ucast n) in vsn_loop m buf sz j fmt args)
             | _ \<Rightarrow> None)
          else if d = CHR ''s'' then
            (case args of ArgS s # args \<Rightarrow>
               (let (m, j) = put_string m buf j sz s in vsn_loop m buf sz j fmt args)
             | _ \<Rightarrow> None)
          else if d = CHR ''x'' then
            (case args of ArgX n # args \<Rightarrow>
               (let (k, m) = number m buf sz j n in vsn_loop m buf sz (j + k) fmt args)
             | _ \<Rightarrow> None)
          else if d = CHR ''%'' then
            (let (m, j) = PUT_CHAR m buf j sz (ch CHR ''%'') in vsn_loop m buf sz j fmt args)
          else Some (fatal_failure ''vsnprintf''))"

definition vsnprintf ::
    "mem \<Rightarrow> u64 \<Rightarrow> nat \<Rightarrow> string \<Rightarrow> out_arg list \<Rightarrow> (nat \<times> mem) res option" where
  "vsnprintf m buf sz fmt args =
     (if sz = 0 then Some (Inr (0, m))
      else map_option (\<lambda>r. bindr r (\<lambda>(j, m).
             Inr (j, if j < sz then m(buf + of_nat j := 0) else m)))
           (vsn_loop m buf sz 0 fmt args))"

subsection \<open>The serial port\<close>

definition BUF_SIZE :: nat where "BUF_SIZE = 1024"

text \<open>A port write: the 16-bit port number and the byte.\<close>

type_synonym port_write = "u16 \<times> u8"

definition outchar :: "u16 \<Rightarrow> u8 \<Rightarrow> port_write" where "outchar p d = (p, d)"

text \<open>\<open>port\<close> is the global port number, an \<open>unsigned int\<close>.\<close>

definition putchar_serial :: "u32 \<Rightarrow> u8 \<Rightarrow> port_write" where
  "putchar_serial port c = outchar (ucast port) c"

text \<open>The loop of \<open>outf\<close> over the buffer: \<open>k\<close> more characters may be sent.\<close>

primrec send_buf :: "nat \<Rightarrow> u32 \<Rightarrow> mem \<Rightarrow> u64 \<Rightarrow> port_write list" where
  "send_buf 0 port m s = []"
| "send_buf (Suc k) port m s =
     (if m s = 0 then [] else putchar_serial port (m s) # send_buf k port m (s + 1))"

definition outf ::
    "mem \<Rightarrow> u64 \<Rightarrow> u32 \<Rightarrow> string \<Rightarrow> out_arg list \<Rightarrow> (mem \<times> port_write list) res option" where
  "outf m buf port fmt args =
     map_option (\<lambda>r. bindr r (\<lambda>(_, m). Inr (m, send_buf BUF_SIZE port m buf)))
       (vsnprintf m buf BUF_SIZE fmt args)"

text \<open>The port number of COM1 is read from the BIOS data area.  The result is the new \<open>port\<close> and
  the port writes before the test message (the calls of \<open>printf\<close> do nothing).\<close>

definition setup_serial :: "mem \<Rightarrow> u32 \<times> port_write list" where
  "setup_serial m =
     (let port = load32 m 0x400
      in (port, [outchar (ucast (port + 1)) 0, outchar (ucast (port + 3)) 0x80,
                 outchar (ucast port) 0x0C, outchar (ucast (port + 1)) 0,
                 outchar (ucast (port + 3)) 0x03, outchar (ucast (port + 2)) 0xC7,
                 outchar (ucast (port + 4)) 0x0B]))"

text \<open>The message that ends \<open>setup_serial\<close>, a call of \<open>outf\<close>.\<close>

definition serial_test :: "out_call list" where
  "serial_test = [(CHR 0x0A # line ''Serial Port Initialized Successfully'' @ line (line ''==================''), [])]"

subsection \<open>Messages to the screen\<close>

text \<open>\<open>printf\<close> returns before it formats anything, so that the screen stays the guest's: memory and the
  cursor are those of before, whatever it is called with.\<close>

definition printf :: "string \<Rightarrow> out_arg list \<Rightarrow> mem \<times> screen_info \<Rightarrow> mem \<times> screen_info" where
  "printf fmt args st = st"

text \<open>The inner loop of \<open>print_binary\<close>: the bits of a byte, the lowest first.\<close>

definition print_bits :: "u8 \<Rightarrow> mem \<times> screen_info \<Rightarrow> mem \<times> screen_info" where
  "print_bits c st = foldl (\<lambda>st j. printf [DIGITS ! unat (drop_bit j c AND 1)] [] st) st [0..<8]"

definition print_binary :: "u64 \<Rightarrow> nat \<Rightarrow> mem \<times> screen_info \<Rightarrow> mem \<times> screen_info" where
  "print_binary p len st =
     foldl (\<lambda>st i.
         let st = print_bits (fst st (p + of_nat i)) st;
             st = printf '' '' [] st
         in if i AND 3 = 3 then printf (line []) [] st else st) st [0..<len]"

subsection \<open>The last words of the monitor\<close>

text \<open>\<open>kernel/failure.c\<close>: what \<open>fatal_failure\<close> sends before the undefined instruction of \<open>die\<close>; the message
  is the format of a call without arguments.  The outer result is that of the calls: a
  directive in the message is one that \<open>vsnprintf\<close> has no argument for, or that it refuses.\<close>

definition fatal_output :: "mem \<Rightarrow> u64 \<Rightarrow> u32 \<Rightarrow> string \<Rightarrow> (mem \<times> port_write list) res option" where
  "fatal_output m buf port msg =
     bindo (outf m buf port ''FATAL FAILURE: '' []) (\<lambda>(m, sent).
     bindo (outf m buf port msg []) (\<lambda>(m, sent').
     Some (Inr (m, sent @ sent'))))"

definition breakpoint :: "mem \<Rightarrow> u64 \<Rightarrow> u32 \<Rightarrow> string \<Rightarrow> (mem \<times> port_write list) res option" where
  "breakpoint m buf port szMsg = outf m buf port szMsg []"

subsection \<open>Hexadecimal digits\<close>

text \<open>The value of one digit and of a digit list, lowest digit first.\<close>

definition digit_value :: "char \<Rightarrow> nat" where
  "digit_value c = (if c \<in> set ''abcdef'' then of_char c - 87 else of_char c - 48)"

definition hex_value :: "string \<Rightarrow> nat" where
  "hex_value ds = foldr (\<lambda>d v. digit_value d + 16 * v) ds 0"

lemma digit_value_DIGITS: "k < 16 \<Longrightarrow> digit_value (DIGITS ! k) = k"
proof -
  have "list_all (\<lambda>k. digit_value (DIGITS ! k) = k) [0..<16]" by code_simp
  then show "k < 16 \<Longrightarrow> digit_value (DIGITS ! k) = k" by (simp add: list_all_iff)
qed

lemma DIGITS_visible: "k < 16 \<Longrightarrow> ch (DIGITS ! k) \<noteq> 0"
proof -
  have "list_all (\<lambda>k. ch (DIGITS ! k) \<noteq> 0) [0..<16]" by code_simp
  then show "k < 16 \<Longrightarrow> ch (DIGITS ! k) \<noteq> 0" by (simp add: list_all_iff)
qed

lemma unat_low_nibble: "unat (n AND 0xf) = unat n mod 16" for n :: u64
proof -
  have "n AND 0xf = take_bit 4 n" by (simp add: take_bit_eq_mask mask_eq_exp_minus_1)
  then show ?thesis by (simp only: unat_take_bit) simp
qed

lemma unat_shr_nibble: "unat (drop_bit 4 n) = unat n div 16" for n :: u64
  by (simp only: unat_drop_bit) simp

lemma hex_value_hex_digits: "hex_value (hex_digits n) = unat n"
proof (induction n rule: hex_digits.induct)
  case (1 n)
  have d: "digit_value (DIGITS ! (unat n mod 16)) = unat n mod 16" by (rule digit_value_DIGITS) simp
  show ?case
  proof (cases "drop_bit 4 n = 0")
    case True
    then have "unat n div 16 = 0" using unat_shr_nibble [of n] by (simp only: unat_0)
    then have "unat n mod 16 = unat n" by simp
    then show ?thesis using True d
      by (simp add: hex_digits.simps [of n] hex_value_def unat_low_nibble)
  next
    case False
    have IH: "hex_value (hex_digits (drop_bit 4 n)) = unat n div 16"
      using 1 [OF False] unat_shr_nibble [of n] by (simp only:)
    have "hex_value (hex_digits n) = unat n mod 16 + 16 * hex_value (hex_digits (drop_bit 4 n))"
      using False d by (simp only: hex_digits.simps [of n] hex_value_def unat_low_nibble
        if_True foldr_Cons comp_def not_False_eq_True)
    also have "\<dots> = unat n" unfolding IH by simp
    finally show ?thesis .
  qed
qed

lemma hex_digits_length: "unat n < 16 ^ Suc k \<Longrightarrow> length (hex_digits n) \<le> Suc k"
proof (induction k arbitrary: n)
  case 0
  then have "unat (drop_bit 4 n) = 0" unfolding unat_shr_nibble by simp
  then have "drop_bit 4 n = 0" by (simp only: unat_eq_zero)
  then show ?case by (simp add: hex_digits.simps [of n])
next
  case (Suc k)
  have "unat (drop_bit 4 n) < 16 ^ Suc k"
    unfolding unat_shr_nibble using Suc.prems by (simp add: div_less_iff_less_mult)
  then show ?case using Suc.IH [of "drop_bit 4 n"] by (simp add: hex_digits.simps [of n])
qed

lemma hex_digits_max: "length (hex_digits n) \<le> 16"
  using hex_digits_length [of n 15] u64_bounded [of n] by simp

lemma hex_digits_visible: "c \<in> set (hex_digits n) \<Longrightarrow> ch c \<noteq> 0"
proof (induction n rule: hex_digits.induct)
  case (1 n)
  have "ch (DIGITS ! (unat n mod 16)) \<noteq> 0" by (rule DIGITS_visible) simp
  then show ?case
    using 1 by (auto simp: hex_digits.simps [of n] unat_low_nibble split: if_splits)
qed

subsection \<open>The text of a call\<close>

text \<open>\<open>put_list\<close> writes bytes one after the other; every routine is an instance of it as long
  as the buffer is large enough.\<close>

primrec put_list :: "mem \<Rightarrow> u64 \<Rightarrow> u8 list \<Rightarrow> mem" where
  "put_list m p [] = m"
| "put_list m p (b # bs) = put_list (m(p := b)) (p + 1) bs"

lemma put_list_append:
  "put_list m p (as @ bs) = put_list (put_list m p as) (p + of_nat (length as)) bs"
  by (induction as arbitrary: m p) (simp_all add: add.assoc)

lemma put_list_apply:
  "length bs < 2 ^ 64 \<Longrightarrow> put_list m p bs x =
    (if in_range p (length bs) x then bs ! unat (x - p) else m x)"
proof (induction bs arbitrary: m p)
  case Nil
  then show ?case by (simp add: in_range_def)
next
  case (Cons b bs)
  have r: "in_range (p + 1) (length bs) x \<longleftrightarrow> 1 \<le> unat (x - p) \<and> unat (x - p) < Suc (length bs)"
    using in_range_offset [of 1 "length bs" p x] Cons.prems by simp
  have IH: "put_list m p (b # bs) x =
      (if in_range (p + 1) (length bs) x then bs ! unat (x - (p + 1)) else (m(p := b)) x)"
    using Cons.IH [of "m(p := b)" "p + 1"] Cons.prems by (simp del: fun_upd_apply)
  show ?case
  proof (cases "x = p")
    case True
    then show ?thesis unfolding IH r by (simp add: in_range_def)
  next
    case False
    then have g: "1 \<le> unat (x - p)" using unat_gt_0 [of "x - p"] by auto
    have e: "x - (p + 1) = x - p - 1" and nz: "x - p \<noteq> 0" using False by simp_all
    have "unat (x - (p + 1)) = unat (x - p) - 1" unfolding e by (rule unat_minus_one [OF nz])
    then show ?thesis
      unfolding IH r using False g by (simp add: in_range_def nth_Cons')
  qed
qed

lemma put_list_cstr:
  assumes "0 \<notin> set s" and "length s < 2 ^ 64 - 1"
  shows "cstr (put_list m p (s @ [0])) p s"
proof -
  have "put_list m p (s @ [0]) (p + of_nat i) = (s @ [0]) ! i" if "i \<le> length s" for i
    using put_list_apply [of "s @ [0]" m p "p + of_nat i"] that assms(2)
    by (simp add: in_range_def unat_of_nat_u64 del: unat_of_nat put_list.simps)
  then show ?thesis
    using assms(1) by (auto simp: cstr_def nth_append in_set_conv_nth)
qed

text \<open>The text of a call, written without the routines: the numerals of the number system with base 16.\<close>

definition numeral_of :: "nat \<Rightarrow> char" where
  "numeral_of k = (if k < 10 then char_of (48 + k) else char_of (87 + k))"

fun hexadecimal :: "nat \<Rightarrow> string" where
  "hexadecimal n = (if n < 16 then [numeral_of n] else hexadecimal (n div 16) @ [numeral_of (n mod 16)])"

declare hexadecimal.simps [simp del]

definition hex_text :: "u64 \<Rightarrow> u8 list" where
  "hex_text n = map ch (''0x'' @ hexadecimal (unat n))"

lemma DIGITS_numeral: "k < 16 \<Longrightarrow> DIGITS ! k = numeral_of k"
proof -
  have "list_all (\<lambda>k. DIGITS ! k = numeral_of k) [0..<16]" by code_simp
  then show "k < 16 \<Longrightarrow> DIGITS ! k = numeral_of k" by (simp add: list_all_iff)
qed

lemma rev_hex_digits: "rev (hex_digits n) = hexadecimal (unat n)"
proof (induction n rule: hex_digits.induct)
  case (1 n)
  have d: "DIGITS ! (unat n mod 16) = numeral_of (unat n mod 16)" by (rule DIGITS_numeral) simp
  show ?case
  proof (cases "drop_bit 4 n = 0")
    case True
    then have "unat n div 16 = 0" using unat_shr_nibble [of n] by (simp only: unat_0)
    then have "unat n < 16" by simp
    then show ?thesis using True d by (simp add: hex_digits.simps [of n] hexadecimal.simps [of "unat n"] unat_low_nibble)
  next
    case False
    then have "unat (drop_bit 4 n) \<noteq> 0" by (simp only: unat_eq_zero not_False_eq_True)
    then have big: "\<not> unat n < 16" unfolding unat_shr_nibble by simp
    have "rev (hex_digits n) = rev (hex_digits (drop_bit 4 n)) @ [DIGITS ! (unat n mod 16)]"
      using False by (simp add: hex_digits.simps [of n] unat_low_nibble)
    also have "\<dots> = hexadecimal (unat n div 16) @ [numeral_of (unat n mod 16)]"
      unfolding 1 [OF False] d unat_shr_nibble ..
    finally show ?thesis using big by (simp only: hexadecimal.simps [of "unat n"] if_False)
  qed
qed

lemma hex_text_digits: "hex_text n = map ch (''0x'' @ rev (hex_digits n))"
  by (simp add: hex_text_def rev_hex_digits)

fun render :: "string \<Rightarrow> out_arg list \<Rightarrow> u8 list option" where
  "render [] args = Some []"
| "render (c # fmt) args =
     (if c \<noteq> CHR ''%'' then map_option ((@) [ch c]) (render fmt args)
      else case fmt of
        [] \<Rightarrow> None
      | d # fmt \<Rightarrow>
          if d = CHR ''c'' then
            (case args of ArgX n # args \<Rightarrow> map_option ((@) [ucast n]) (render fmt args) | _ \<Rightarrow> None)
          else if d = CHR ''s'' then
            (case args of ArgS s # args \<Rightarrow> map_option ((@) (map ch s)) (render fmt args) | _ \<Rightarrow> None)
          else if d = CHR ''x'' then
            (case args of ArgX n # args \<Rightarrow> map_option ((@) (hex_text n)) (render fmt args) | _ \<Rightarrow> None)
          else if d = CHR ''%'' then map_option ((@) [ch CHR ''%'']) (render fmt args)
          else None)"

lemma PUT_CHAR_list: "j < sz \<Longrightarrow> PUT_CHAR m buf j sz c = (put_list m (buf + of_nat j) [c], j + length [c])"
  by (simp add: PUT_CHAR_def)

lemma put_string_list:
  "j + length s \<le> sz \<Longrightarrow>
    put_string m buf j sz s = (put_list m (buf + of_nat j) (map ch s), j + length (map ch s))"
  by (induction s arbitrary: m j) (simp_all add: PUT_CHAR_def ac_simps)

lemma put_digits_list:
  "j + 2 + i + length ds \<le> sz \<Longrightarrow>
    put_digits m buf sz j i ds = put_list m (buf + of_nat (j + 2 + i)) (map ch ds)"
  by (induction ds arbitrary: m i) (simp_all add: ac_simps)

lemma number_list:
  assumes "j + length (hex_text n) \<le> sz"
  shows "number m buf sz j n = (length (hex_text n), put_list m (buf + of_nat j) (hex_text n))"
  using assms by (simp add: number_def hex_text_digits Let_def put_digits_list put_list_append ac_simps)

lemma vsn_loop_render:
  assumes "render fmt args = Some out" and "j + length out < sz" and "j + length out \<le> INT_MAX"
  shows "vsn_loop m buf sz j fmt args =
    Some (Inr (j + length out, put_list m (buf + of_nat j) out))"
  using assms
proof (induction m buf sz j fmt args arbitrary: out rule: vsn_loop.induct)
  case (2 m buf sz j c fmt args)
  note step = PUT_CHAR_list put_string_list number_list put_list_append ac_simps
  have int: "\<not> INT_MAX < j" using "2.prems"(3) by simp
  show ?case
  proof (cases "c = CHR ''%''")
    case False
    then show ?thesis using 2 int by (auto simp: step simp del: fun_upd_apply)
  next
    case True
    then obtain d fmt' where f: "fmt = d # fmt'" using "2.prems" by (auto split: list.splits)
    show ?thesis
    proof (cases "d = CHR ''x''")
      case d: True
      then obtain n args' rest where a: "args = ArgX n # args'" "render fmt' args' = Some rest"
        "out = hex_text n @ rest"
        using "2.prems"(1) True f by (auto split: list.splits out_arg.splits)
      have num: "number m buf sz j n = (length (hex_text n), put_list m (buf + of_nat j) (hex_text n))"
        using "2.prems"(2) a by (intro number_list) simp
      have "vsn_loop (put_list m (buf + of_nat j) (hex_text n)) buf sz (j + length (hex_text n)) fmt' args' =
        Some (Inr (j + length (hex_text n) + length rest,
          put_list (put_list m (buf + of_nat j) (hex_text n)) (buf + of_nat (j + length (hex_text n))) rest))"
        using 2(4) [OF int, of d fmt'] True f d a num "2.prems"(2,3) by simp
      then show ?thesis using True f d a num int by (simp add: put_list_append add.assoc)
    next
      case False
      then show ?thesis
        using 2 int True unfolding f
        by (auto simp: step simp del: fun_upd_apply split: list.splits out_arg.splits if_splits)
    qed
  qed
qed simp


lemma vsnprintf_render:
  assumes "render fmt args = Some out" and "length out < sz" and "length out \<le> INT_MAX"
  shows "vsnprintf m buf sz fmt args = Some (Inr (length out, put_list m buf (out @ [0])))"
  using vsn_loop_render [OF assms(1), of 0 sz m buf] assms(2,3)
  by (simp add: vsnprintf_def put_list_append)

lemma send_buf_cstr:
  "cstr m s bs \<Longrightarrow> send_buf k port m s = map (putchar_serial port) (take k bs)"
proof (induction k arbitrary: s bs)
  case (Suc k)
  then show ?case by (cases bs) auto
qed simp

lemma send_buf_bound: "length (send_buf k port m s) \<le> k"
  by (induction k arbitrary: s) auto

text \<open>Once the index is past the size, no character of a string is stored.\<close>

lemma put_string_full:
  "sz \<le> j \<Longrightarrow> put_string m buf j sz s = (m, j + length s)"
  by (induction s arbitrary: j) (simp_all add: PUT_CHAR_def)

lemma put_string_length: "snd (put_string m buf j sz s) = j + length s"
  by (induction s arbitrary: m j) (simp_all add: PUT_CHAR_def)

lemma put_digits_full: "sz \<le> j \<Longrightarrow> put_digits m buf sz j i ds = m"
  by (induction ds arbitrary: i) simp_all

subsection \<open>Formats the printer does not know\<close>

definition bad_format :: "string \<Rightarrow> bool" where
  "bad_format f \<longleftrightarrow>
     (\<exists>s d rest. f = s @ CHR ''%'' # d # rest \<and> length s \<le> INT_MAX \<and> CHR ''%'' \<notin> set s \<and> d \<notin> set ''csx%'')"

lemma bad_formatI:
  assumes "n + 1 < length f" and "f ! n = CHR ''%''" and "CHR ''%'' \<notin> set (take n f)" and "f ! (n + 1) \<notin> set ''csx%''"
    and "n \<le> INT_MAX"
  shows "bad_format f"
proof -
  have "f = take n f @ f ! n # f ! (n + 1) # drop (n + 2) f"
    using assms(1) by (simp add: Cons_nth_drop_Suc)
  moreover have "length (take n f) \<le> INT_MAX" using assms(5) by simp
  ultimately show ?thesis using assms unfolding bad_format_def by metis
qed

lemma vsn_loop_bad:
  assumes "bad_format f"
  shows "vsn_loop m buf sz 0 f args = Some (fatal_failure ''vsnprintf'')"
proof -
  obtain s d rest where f: "f = s @ CHR ''%'' # d # rest" "length s \<le> INT_MAX" "CHR ''%'' \<notin> set s" "d \<notin> set ''csx%''"
    using assms by (auto simp: bad_format_def)
  have "vsn_loop m buf sz j (s @ CHR ''%'' # d # rest) args = Some (fatal_failure ''vsnprintf'')"
    if "j + length s \<le> INT_MAX" for j
    using f(3,4) that by (induction s arbitrary: m j) (auto simp: PUT_CHAR_def case_prod_beta Let_def)
  from this [of 0] show ?thesis using f(2) by (simp add: f(1))
qed

lemma outf_bad: "bad_format f \<Longrightarrow> outf m buf port f args = Some (fatal_failure ''vsnprintf'')"
  by (simp add: outf_def vsnprintf_def vsn_loop_bad BUF_SIZE_def fatal_failure_def)

text \<open>The first directive of a format decides.\<close>

definition refused :: "string \<Rightarrow> bool" where
  "refused f = (length f \<le> INT_MAX \<and> (case dropWhile (\<lambda>c. c \<noteq> CHR ''%'') f of _ # d # _ \<Rightarrow> d \<notin> set ''csx%'' | _ \<Rightarrow> False))"

lemma refused_bad: "refused f \<Longrightarrow> bad_format f"
proof -
  assume r: "refused f"
  then obtain c d rest where t: "dropWhile (\<lambda>c. c \<noteq> CHR ''%'') f = c # d # rest" "d \<notin> set ''csx%''" "length f \<le> INT_MAX"
    by (auto simp: refused_def split: list.splits)
  have "f = takeWhile (\<lambda>c. c \<noteq> CHR ''%'') f @ CHR ''%'' # d # rest"
    using takeWhile_dropWhile_id [of "\<lambda>c. c \<noteq> CHR ''%''" f] t(1) hd_dropWhile [of "\<lambda>c. c \<noteq> CHR ''%''" f]
    by (metis list.distinct(1) list.sel(1))
  moreover have "CHR ''%'' \<notin> set (takeWhile (\<lambda>c. c \<noteq> CHR ''%'') f)" by (auto dest: set_takeWhileD)
  moreover have "length (takeWhile (\<lambda>c. c \<noteq> CHR ''%'') f) \<le> INT_MAX"
    using length_takeWhile_le [of "\<lambda>c. c \<noteq> CHR ''%''" f] t(3) by (rule order_trans)
  ultimately show ?thesis using t(2) unfolding bad_format_def by blast
qed

subsection \<open>Properties of the formatted output\<close>

text \<open>C40: \<open>vsnprintf\<close> renders.  The text of a call has each character of the format, and in the place of each
  directive the character, the string or the hexadecimal numeral (after the prefix 0x) of its
  argument.  When the text has no NUL, is at most \<open>INT_MAX\<close> characters long and fits into the buffer with
  its terminator, the buffer then holds exactly this text as a C string, the result is its length, and no
  byte outside the text and its terminator changes.\<close>

theorem vsnprintf_renders:
  assumes "render fmt args = Some out" and "length out < sz" and "length out \<le> INT_MAX" and "0 \<notin> set out"
  shows "\<exists>m'. vsnprintf m buf sz fmt args = Some (Inr (length out, m')) \<and> cstr m' buf out \<and>
    (\<forall>x. \<not> in_range buf (Suc (length out)) x \<longrightarrow> m' x = m x)"
  using vsnprintf_render [OF assms(1-3), of m buf] put_list_cstr [OF assms(4), of m buf] assms(2,3)
    put_list_apply [of "out @ [0]" m buf]
  by (auto simp: INT_MAX_def simp del: put_list.simps)

theorem vsnprintf_renders_witness:
  "\<exists>m'. vsnprintf (\<lambda>_. 0) 0x1000 1024 ''at %x'' [ArgX 0x1f] = Some (Inr (7, m')) \<and>
    cstr m' 0x1000 [97, 116, 32, 48, 120, 49, 102]"
proof -
  have n: "numeral_of 1 = CHR ''1''" "numeral_of 15 = CHR ''f''" by code_simp+
  have "render ''at %x'' [ArgX 0x1f] = Some [97, 116, 32, 48, 120, 49, 102]"
    by (simp add: hex_text_def hexadecimal.simps n [simplified])
  from vsnprintf_renders [OF this, of 1024 "\<lambda>_. 0" "0x1000"] show ?thesis
    by (auto simp: INT_MAX_def simp del: cstr_Cons)
qed

text \<open>The digits that \<open>number\<close> prints for \<open>%x\<close> read back as the number, there are at most
  16 of them, so the 64 bytes of \<open>tmp\<close> are enough, and none is a NUL.\<close>

theorem number_digits_roundtrip:
  "hex_value (hex_digits n) = unat n \<and> length (hex_digits n) \<le> 16 \<and> 0 \<notin> set (hex_text n)"
  using hex_value_hex_digits hex_digits_max [of n] hex_digits_visible
  by (auto simp: hex_text_digits)

theorem number_digits_roundtrip_witness:
  "hex_value (hex_digits 0xdeadbeef) = 0xdeadbeef"
  using number_digits_roundtrip [of "0xdeadbeef"] by simp

text \<open>\<open>outf\<close> sends the text of the call to the serial port, one byte after the other, when it
  fits into the buffer.\<close>

theorem outf_sends_text:
  assumes "render fmt args = Some out" and "length out < BUF_SIZE" and "0 \<notin> set out"
  shows "\<exists>m'. outf m buf port fmt args = Some (Inr (m', map (\<lambda>c. (ucast port, c)) out))"
  using vsnprintf_render [OF assms(1,2), of m buf] put_list_cstr [OF assms(3), of m buf] assms(2)
  by (auto simp: INT_MAX_def outf_def send_buf_cstr putchar_serial_def [abs_def] outchar_def BUF_SIZE_def
      simp del: put_list.simps)

theorem outf_sends_text_witness:
  "\<exists>m'. outf (\<lambda>_. 0) 0x1000 0x3f8 ''%s'' [ArgS ''hi''] = Some (Inr (m', [(0x3f8, 104), (0x3f8, 105)]))"
  using outf_sends_text [of "''%s''" "[ArgS ''hi'']" "[104, 105]" "\<lambda>_. 0" "0x1000" "0x3f8"]
  by (auto simp: BUF_SIZE_def)

text \<open>\<open>number\<close> does not respect the size of the buffer: after a string that fills it, a
  \<open>%x\<close> still stores its prefix, past the end of the buffer.\<close>

theorem vsnprintf_overruns:
  assumes "0 < sz" and "sz \<le> length s" and "length s < 2 ^ 31 - 19"
  shows "\<exists>j m'. vsnprintf m buf sz ''%s%x'' [ArgS s, ArgX n] = Some (Inr (j, m')) \<and>
    m' (buf + of_nat (length s)) = ch CHR ''0'' \<and> sz \<le> length s"
proof -
  obtain m1 where s: "put_string m buf 0 sz s = (m1, length s)"
    using put_string_length [of m buf 0 sz s] by (cases "put_string m buf 0 sz s") auto
  have ne: "(of_nat (length s) :: u64) \<noteq> of_nat (length s + 1)"
  proof
    assume "(of_nat (length s) :: u64) = of_nat (length s + 1)"
    then have "unat (of_nat (length s) :: u64) = unat (of_nat (length s + 1) :: u64)" by (rule arg_cong)
    then show False using assms(3) by (simp add: unat_of_nat_u64 del: unat_of_nat of_nat_add of_nat_Suc)
  qed
  show ?thesis
    using assms ne hex_digits_max [of n] by (simp add: vsnprintf_def s number_def Let_def put_digits_full INT_MAX_def)
qed

theorem vsnprintf_overruns_witness:
  "\<exists>j m'. vsnprintf (\<lambda>_. 0) 0x1000 2 ''%s%x'' [ArgS ''ab'', ArgX 5] = Some (Inr (j, m')) \<and>
    m' 0x1002 = ch CHR ''0''"
  using vsnprintf_overruns [of 2 "''ab''" "\<lambda>_. 0" "0x1000" 5] by auto

subsection \<open>Properties of the last words\<close>

lemma render_plain: "CHR ''%'' \<notin> set s \<Longrightarrow> render s args = Some (map ch s)"
  by (induction s) auto

lemma outf_plain:
  assumes "CHR ''%'' \<notin> set s" and "0 \<notin> ch ` set s" and "length s < BUF_SIZE"
  shows "\<exists>m'. outf m buf port s [] = Some (Inr (m', map (\<lambda>c. (ucast port, ch c)) s))"
  using vsnprintf_render [OF render_plain [OF assms(1), of "[]"], of BUF_SIZE m buf] assms(2,3)
    put_list_cstr [of "map ch s" m buf]
  by (auto simp: INT_MAX_def outf_def send_buf_cstr putchar_serial_def [abs_def] outchar_def BUF_SIZE_def
    comp_def simp del: put_list.simps)

text \<open>A message without directives that fits into the buffer leaves the monitor complete, after the
  fixed text, although both calls use the same static buffer.\<close>

theorem fatal_message_sent:
  assumes "CHR ''%'' \<notin> set msg" and "0 \<notin> ch ` set msg" and "length msg < BUF_SIZE"
  shows "\<exists>m'. fatal_output m buf port msg =
    Some (Inr (m', map (\<lambda>c. (ucast port, ch c)) (''FATAL FAILURE: '' @ msg)))"
proof -
  obtain m1 where "outf m buf port ''FATAL FAILURE: '' [] =
      Some (Inr (m1, map (\<lambda>c. (ucast port, ch c)) ''FATAL FAILURE: ''))"
    using outf_plain [of "''FATAL FAILURE: ''" m buf port] by (auto simp: BUF_SIZE_def)
  moreover obtain m2 where "outf m1 buf port msg [] = Some (Inr (m2, map (\<lambda>c. (ucast port, ch c)) msg))"
    using outf_plain [OF assms, of m1 buf port] by blast
  ultimately show ?thesis by (simp add: fatal_output_def)
qed

theorem fatal_message_sent_witness:
  "\<exists>m'. fatal_output (\<lambda>_. 0) 0x1000 0x3f8 ''!'' =
    Some (Inr (m', map (\<lambda>c. (0x3f8, ch c)) ''FATAL FAILURE: !''))"
  using fatal_message_sent [of "''!''" "\<lambda>_. 0" "0x1000" "0x3f8"] by (auto simp: BUF_SIZE_def)

lemma printf_state [simp]: "printf fmt args st = st" by (simp add: printf_def)

lemma print_binary_state: "print_binary p len st = st"
proof -
  have "print_bits c st = st" for c st
    by (simp add: print_bits_def upt_rec)
  then show ?thesis by (induction len) (simp_all add: print_binary_def Let_def)
qed

subsection \<open>Properties of the screen\<close>

definition wf_screen :: "screen_info \<Rightarrow> bool" where
  "wf_screen scr \<longleftrightarrow> orig_x scr < COLS \<and> orig_y scr < LINES"

text \<open>The video memory: two bytes a cell.\<close>

definition video :: "u64 \<Rightarrow> bool" where
  "video x \<longleftrightarrow> in_range VIDEO_MEM (2 * COLS * LINES) x"

lemma video_cell:
  assumes "i < 2 * COLS * LINES"
  shows "video (VIDEO_MEM + of_nat i)"
proof -
  have "unat (of_nat i :: u64) = i" using assms by (intro unat_of_nat_u64) (simp add: COLS_def LINES_def)
  then show ?thesis using assms by (simp add: video_def in_range_def del: unat_of_nat)
qed

lemma blank_cells_other:
  "i + 2 * k \<le> 2 * COLS * LINES \<Longrightarrow> \<not> video x \<Longrightarrow> blank_cells k m i x = m x"
proof (induction k arbitrary: m i)
  case (Suc k)
  then have "x \<noteq> VIDEO_MEM + of_nat i" using video_cell [of i] by auto
  then show ?case using Suc by simp
qed simp

lemma scroll_other: "\<not> video x \<Longrightarrow> scroll m x = m x"
proof -
  assume v: "\<not> video x"
  have n: "unat (of_nat ((LINES - 1) * COLS * 2) :: u64) = 3840" by (simp add: LINES_def COLS_def)
  have "\<not> in_range VIDEO_MEM 3840 x" using v by (simp add: video_def in_range_def COLS_def LINES_def)
  moreover have "copied m (memmove m VIDEO_MEM (VIDEO_MEM + of_nat (COLS * 2))
      (of_nat ((LINES - 1) * COLS * 2))) VIDEO_MEM (VIDEO_MEM + of_nat (COLS * 2)) 3840"
    using memmove_correct [of VIDEO_MEM "of_nat ((LINES - 1) * COLS * 2)" "VIDEO_MEM + of_nat (COLS * 2)" m]
    unfolding n by (simp add: VIDEO_MEM_def COLS_def)
  ultimately show ?thesis
    using v by (simp add: scroll_def Let_def blank_cells_other copied_def LINES_def COLS_def)
qed

lemma put_cell_keeps:
  assumes "put_cell (m, x, y) c = (m', x', y')" and "x < COLS" and "y < LINES"
  shows "x' < COLS \<and> y' < LINES \<and> (\<forall>a. \<not> video a \<longrightarrow> m' a = m a)"
proof -
  have "(x + COLS * y) * 2 < 2 * COLS * LINES"
    using assms(2,3) by (simp add: COLS_def LINES_def)
  then have "\<not> video a \<Longrightarrow> a \<noteq> VIDEO_MEM + of_nat ((x + COLS * y) * 2)" for a
    using video_cell by blast
  then show ?thesis
    using assms by (auto simp: put_cell_def new_line_def Let_def scroll_other COLS_def LINES_def
        split: if_splits)
qed

lemma foldl_put_cell:
  assumes "foldl put_cell (m, x, y) s = (m', x', y')" and "x < COLS" and "y < LINES"
  shows "x' < COLS \<and> y' < LINES \<and> (\<forall>a. \<not> video a \<longrightarrow> m' a = m a)"
  using assms
proof (induction s arbitrary: m x y)
  case (Cons c s)
  obtain m1 x1 y1 where one: "put_cell (m, x, y) c = (m1, x1, y1)" by (cases "put_cell (m, x, y) c") auto
  then have rest: "foldl put_cell (m1, x1, y1) s = (m', x', y')" using Cons.prems(1) by simp
  have k: "x1 < COLS" "y1 < LINES" "\<And>a. \<not> video a \<Longrightarrow> m1 a = m a"
    using put_cell_keeps [OF one Cons.prems(2,3)] by blast+
  then show ?case using Cons.IH [OF rest k(1,2)] by metis
qed simp

text \<open>\<open>putstr\<close> keeps the cursor on the screen and writes nothing outside the 4000 bytes of the
  video memory, whatever the text, scrolling included.\<close>

theorem putstr_stays_on_screen:
  assumes "wf_screen scr" and "putstr m scr s = (m', scr')"
  shows "wf_screen scr' \<and> (\<forall>a. \<not> video a \<longrightarrow> m' a = m a)"
proof -
  show ?thesis
    using assms foldl_put_cell [of m "orig_x scr" "orig_y scr" s]
    by (auto simp: putstr_def wf_screen_def split: prod.splits)
qed

theorem putstr_stays_on_screen_witness:
  "wf_screen (snd (putstr (\<lambda>_. 0) \<lparr>orig_x = 79, orig_y = 24\<rparr> [65, 10, 66]))"
  using putstr_stays_on_screen [of "\<lparr>orig_x = 79, orig_y = 24\<rparr>" "\<lambda>_. 0" "[65, 10, 66]"]
  by (cases "putstr (\<lambda>_. 0) \<lparr>orig_x = 79, orig_y = 24\<rparr> [65, 10, 66]")
    (simp add: wf_screen_def COLS_def LINES_def)

text \<open>\<open>clear_screen\<close> clears only the upper half of the screen: it fills \<open>COLS * LINES\<close> bytes
  where a cell takes two.\<close>

theorem clear_screen_half:
  "fst (clear_screen m) a = (if in_range VIDEO_MEM 2000 a then 0 else m a) \<and>
   video (VIDEO_MEM + 2000) \<and> fst (clear_screen m) (VIDEO_MEM + 2000) = m (VIDEO_MEM + 2000)"
  using video_cell [of 2000]
  by (simp add: clear_screen_def memset_apply in_range_def COLS_def LINES_def)


end
