(* ===== verification/Paging.thy ===== *)
theory Paging
  imports Alloc
begin

text \<open>
  \<open>kernel/page.c\<close> and the page table entries of \<open>include/page.h\<close>: building the nested page
  tables (4 MB and 2 MB pages) and walking the guest's page tables.  Entries are words in memory
  and their bit-fields are ranges of bits.  A bit-field narrower than \<open>int\<close> is promoted to
  \<open>int\<close>, so its left shifts are 32-bit shifts whose result is sign extended (\<open>shl_int\<close>).
  The 40-bit \<open>non_term.base\<close> is taken with its declared type \<open>u64\<close> (the difference
  to a 40-bit type shows only for physical addresses from \<open>2 ^ 40\<close>).
\<close>

subsection \<open>Entries\<close>

definition get_field :: "'a::len word \<Rightarrow> nat \<Rightarrow> nat \<Rightarrow> 'a word" where
  "get_field w lo n = take_bit n (drop_bit lo w)"

definition set_field :: "'a::len word \<Rightarrow> nat \<Rightarrow> nat \<Rightarrow> 'a word \<Rightarrow> 'a word" where
  "set_field w lo n v = (w AND NOT (push_bit lo (mask n))) OR push_bit lo (take_bit n v)"

lemma bit_set_field: "bit (set_field w lo n v) k \<longleftrightarrow>
    (if lo \<le> k \<and> k < lo + n then k < LENGTH('a) \<and> bit v (k - lo) else bit w k)"
  for w :: "'a::len word"
  by (auto simp: set_field_def bit_simps dest: bit_imp_le_length)

lemma get_set_field: "lo + n \<le> LENGTH('a) \<Longrightarrow> get_field (set_field w lo n v) lo n = take_bit n v"
  for w :: "'a::len word"
  by (rule bit_word_eqI) (auto simp: get_field_def set_field_def bit_simps)

lemma get_set_field_other:
  "lo + n \<le> lo' \<or> lo' + n' \<le> lo \<Longrightarrow> get_field (set_field w lo n v) lo' n' = get_field w lo' n'"
  for w :: "'a::len word"
  by (rule bit_word_eqI)
    (auto simp: get_field_def set_field_def bit_simps dest: bit_imp_le_length)

definition PGT_LEVEL_PML4 :: nat where "PGT_LEVEL_PML4 = 4"
definition PGT_LEVEL_PDP :: nat where "PGT_LEVEL_PDP = 3"
definition PGT_LEVEL_PD :: nat where "PGT_LEVEL_PD = 2"
definition PGT_LEVEL_PT :: nat where "PGT_LEVEL_PT = 1"

text \<open>\<open>struct pd4M_entry\<close>: flags 0-12, basehigh 13-20, rsvr 21, baselow 22-31.\<close>

definition pd4M_flags :: "u32 \<Rightarrow> u32" where "pd4M_flags e = get_field e 0 13"
definition pd4M_basehigh :: "u32 \<Rightarrow> u32" where "pd4M_basehigh e = get_field e 13 8"
definition pd4M_baselow :: "u32 \<Rightarrow> u32" where "pd4M_baselow e = get_field e 22 10"

text \<open>\<open>union pgt_entry_4kb\<close>: flags 0-11, base 12-31.\<close>

definition pte_flags :: "u32 \<Rightarrow> u32" where "pte_flags e = get_field e 0 12"
definition pte_base :: "u32 \<Rightarrow> u32" where "pte_base e = get_field e 12 20"

text \<open>\<open>union pgt_entry_2mb\<close>: non_term has flags 0-11 and base 12-51, term flags 0-20 and base
  21-51.\<close>

definition non_term_flags :: "u64 \<Rightarrow> u64" where "non_term_flags e = get_field e 0 12"
definition non_term_base :: "u64 \<Rightarrow> u64" where "non_term_base e = get_field e 12 40"
definition term_flags :: "u64 \<Rightarrow> u64" where "term_flags e = get_field e 0 21"
definition term_base :: "u64 \<Rightarrow> u64" where "term_base e = get_field e 21 31"

definition entry2mb_is_present :: "u64 \<Rightarrow> bool" where
  "entry2mb_is_present e \<longleftrightarrow> ctrue (term_flags e AND ucast PTTEF_PRESENT)"
definition entry4mb_is_present :: "u32 \<Rightarrow> bool" where
  "entry4mb_is_present e \<longleftrightarrow> ctrue (pd4M_flags e AND PTTEF_PRESENT)"
definition entry4kb_is_present :: "u32 \<Rightarrow> bool" where
  "entry4kb_is_present e \<longleftrightarrow> ctrue (pte_flags e AND PTTEF_PRESENT)"

definition get_index_pae2mb :: "u64 \<Rightarrow> nat \<Rightarrow> u64 res" where
  "get_index_pae2mb vaddr level =
     (let msk = push_bit 9 1 - 1
      in if level = PGT_LEVEL_PML4 then Inr (drop_bit 39 vaddr AND msk)
         else if level = PGT_LEVEL_PDP then Inr (drop_bit 30 vaddr AND msk)
         else if level = PGT_LEVEL_PD then Inr (drop_bit 21 vaddr AND msk)
         else fatal_failure (line ''get_index_pae2mb get_index_pae2mb wrong level''))"

definition get_index_4kb :: "u64 \<Rightarrow> nat \<Rightarrow> u64 res" where
  "get_index_4kb vaddr level =
     (let msk = push_bit 10 1 - 1
      in if level = PGT_LEVEL_PD then Inr (drop_bit 22 vaddr AND msk)
         else if level = PGT_LEVEL_PT then Inr (drop_bit 12 vaddr AND msk)
         else fatal_failure (line ''get_index_4kb wrong level''))"

text \<open>The address of an entry.\<close>

definition get_entry :: "u64 \<Rightarrow> u64 \<Rightarrow> nat \<Rightarrow> u64 res" where
  "get_entry base vaddr level =
     bindr (get_index_pae2mb vaddr level) (\<lambda>index. Inr (base + index * 8))"

definition get_entry4kb :: "u64 \<Rightarrow> u64 \<Rightarrow> nat \<Rightarrow> u64 res" where
  "get_entry4kb base vaddr level =
     bindr (get_index_4kb vaddr level) (\<lambda>index. Inr (base + index * 4))"

definition get_pt_entry4mb :: "u64 \<Rightarrow> u64 \<Rightarrow> u64" where
  "get_pt_entry4mb base linearaddr = base + drop_bit 22 linearaddr * 4"

subsection \<open>Building tables\<close>

definition pg_table_alloc :: "mem \<Rightarrow> naive_allocator \<Rightarrow> (u64 \<times> mem) run" where
  "pg_table_alloc m host =
     bindo (alloc_host_pages m host 1 1) (\<lambda>(pfn, m).
       let paddr = push_bit PAGE_SHIFT pfn
       in Some (Inr (paddr, memset m paddr 0 PAGE_SIZE)))"

definition pml4_table_alloc :: "mem \<Rightarrow> naive_allocator \<Rightarrow> (u64 \<times> mem) run" where
  "pml4_table_alloc m host = pg_table_alloc m host"

text \<open>The index of \<open>mmap_4mb\<close> is an \<open>int\<close>; \<open>flags\<close> is an \<open>int\<close> with -1 for the default.\<close>

definition mmap_4mb :: "mem \<Rightarrow> u64 \<Rightarrow> u64 \<Rightarrow> u64 \<Rightarrow> u32 \<Rightarrow> mem" where
  "mmap_4mb m pg_table vaddr paddr flags =
     (let index = to_int (drop_bit PAGE_SHIFT_4MB vaddr);
          p = pg_table + scast index * 4;
          base = drop_bit PAGE_SHIFT_4MB paddr;
          e = load32 m p;
          e = set_field e 22 10 (ucast base);
          e = set_field e 13 8 0;
          e = set_field e 21 1 0;
          e = set_field e 0 13
                (if flags = - 1 then PTTEF_PRESENT OR PTTEF_RW OR PTTEF_PAGE_SIZE OR PTTEF_US else flags)
      in store32 m p e)"

text \<open>\<open>__mmap_2mb\<close>, the entry of the last level and the recursion.\<close>

definition map_pd_entry :: "mem \<Rightarrow> u64 \<Rightarrow> u64 \<Rightarrow> bool \<Rightarrow> mem" where
  "map_pd_entry m p paddr is_user =
     (let e = set_field (load64 m p) 21 31 (drop_bit PAGE_SHIFT_2MB paddr);
          e = set_field e 0 21 (ucast (PTTEF_PRESENT OR PTTEF_RW OR PTTEF_PAGE_SIZE));
          e = (if is_user then set_field e 0 21 (term_flags e OR ucast PTTEF_US) else e)
      in store64 m p e)"

definition map_non_term :: "mem \<Rightarrow> u64 \<Rightarrow> u64 \<Rightarrow> mem" where
  "map_non_term m p paddr =
     (let e = set_field (load64 m p) 12 40 (drop_bit PAGE_SHIFT paddr);
          e = set_field e 0 12 (ucast (PTTEF_PRESENT OR PTTEF_RW OR PTTEF_US))
      in store64 m p e)"

lemma get_entry_level: "get_entry base vaddr level = Inr p \<Longrightarrow> 2 \<le> level"
  by (auto simp: get_entry_def get_index_pae2mb_def PGT_LEVEL_PML4_def PGT_LEVEL_PDP_def
      PGT_LEVEL_PD_def Let_def split: if_splits)

text \<open>\<open>__mmap_2mb\<close> uses the physical address of an entry as a pointer.  The page tables of \<open>kernel/boot.S\<close>,
  which the monitor runs on (\<open>Bootstrap\<close>), map the first 256 MB onto themselves and nothing between 1 GB and
  the end of the lower half of the address space: an access there is a page fault.  The other
  addresses, which are mapped by memory that is not initialised, or by the second alias, are not followed: \<open>None\<close>.\<close>

definition entry_access :: "u64 \<Rightarrow> unit run" where
  "entry_access p =
     (if unat p < 2 ^ 28 then Some (Inr ())
      else if 2 ^ 30 \<le> unat p \<and> unat p < 2 ^ 47 then Some (Inl (Page_fault p)) else None)"

definition mmap_line :: "nat \<Rightarrow> u64 \<Rightarrow> u64 \<Rightarrow> out_call" where
  "mmap_line level vaddr paddr =
     (line ''__mmap: level=%x, vaddr=%x, paddr=%x.'', [ArgX (of_nat level), ArgX vaddr, ArgX paddr])"

text \<open>The result is the memory and the calls of \<open>outf\<close>.\<close>

function mmap_2mb ::
    "mem \<Rightarrow> naive_allocator \<Rightarrow> u64 \<Rightarrow> u64 \<Rightarrow> u64 \<Rightarrow> nat \<Rightarrow> bool \<Rightarrow> (mem \<times> out_call list) run" where
  "mmap_2mb m host base vaddr paddr level is_user =
     bindo (Some (get_entry base vaddr level)) (\<lambda>p.
     bindo (entry_access p) (\<lambda>_.
       if level = PGT_LEVEL_PD then Some (Inr (map_pd_entry m p paddr is_user, [mmap_line level vaddr paddr]))
       else
         bindo (if \<not> entry2mb_is_present (load64 m p)
                then bindo (pg_table_alloc m host) (\<lambda>(t, m). Some (Inr (map_non_term m p t)))
                else Some (Inr m)) (\<lambda>m.
         bindo (mmap_2mb m host (push_bit PAGE_SHIFT (non_term_base (load64 m p))) vaddr paddr
                  (level - 1) is_user) (\<lambda>(m, calls).
           Some (Inr (m, mmap_line level vaddr paddr # calls))))))"
  by pat_completeness auto
termination
  by (relation "measure (\<lambda>(m, host, base, vaddr, paddr, level, is_user). level)")
    (auto dest: get_entry_level)

declare mmap_2mb.simps [simp del]

definition mmap_pml4 ::
    "mem \<Rightarrow> naive_allocator \<Rightarrow> u64 \<Rightarrow> u64 \<Rightarrow> u64 \<Rightarrow> bool \<Rightarrow> (mem \<times> out_call list) run" where
  "mmap_pml4 m host pml4_table vaddr paddr is_user =
     mmap_2mb m host pml4_table vaddr paddr PGT_LEVEL_PML4 is_user"

text \<open>The trace of a mapping.\<close>

definition mmap_lines :: "u64 \<Rightarrow> u64 \<Rightarrow> out_call list" where
  "mmap_lines vaddr paddr =
     [mmap_line PGT_LEVEL_PML4 vaddr paddr, mmap_line PGT_LEVEL_PDP vaddr paddr, mmap_line PGT_LEVEL_PD vaddr paddr]"

lemma entry_access_low [simp]: "unat p < 2 ^ 28 \<Longrightarrow> entry_access p = Some (Inr ())"
  by (simp add: entry_access_def)

subsection \<open>Walking tables\<close>

text \<open>\<open>__linear2physical_legacy2mb\<close>: \<open>term.base << PAGE_SHIFT_2MB\<close> is a 32-bit shift.\<close>

function walk_2mb :: "mem \<Rightarrow> u64 \<Rightarrow> u64 \<Rightarrow> nat \<Rightarrow> u64 res" where
  "walk_2mb m base vaddr level =
     bindr (get_entry base vaddr level) (\<lambda>p.
       let e = load64 m p
       in if \<not> entry2mb_is_present e then fatal_failure (line ''Page table entry is not present.'')
          else if level = PGT_LEVEL_PD then
            (if \<not> ctrue (term_flags e AND ucast PTTEF_PAGE_SIZE)
             then fatal_failure (line ''Not 2 Mbyte page size.'')
             else Inr (shl_int (ucast (term_base e)) PAGE_SHIFT_2MB
                       + (vaddr AND (push_bit PAGE_SHIFT_2MB 1 - 1))))
          else walk_2mb m (push_bit PAGE_SHIFT (non_term_base e)) vaddr (level - 1))"
  by pat_completeness auto
termination
  by (relation "measure (\<lambda>(m, base, vaddr, level). level)") (auto dest: get_entry_level)

declare walk_2mb.simps [simp del]

definition linear2physical_legacy2mb :: "mem \<Rightarrow> u64 \<Rightarrow> u64 \<Rightarrow> u64 res" where
  "linear2physical_legacy2mb m pml4_table vaddr =
     (if pml4_table = 0 then Inr vaddr else walk_2mb m pml4_table vaddr PGT_LEVEL_PML4)"

lemma get_entry4kb_level: "get_entry4kb base la level = Inr p \<Longrightarrow> 1 \<le> level \<and> level \<le> 2"
  by (auto simp: get_entry4kb_def get_index_4kb_def PGT_LEVEL_PD_def PGT_LEVEL_PT_def Let_def
      split: if_splits)

text \<open>\<open>__linear2physical_legacy4kb\<close>, with the entry step \<open>___linear2physical_legacy4kb\<close> written
  out; an entry that is not present gives -1.\<close>

function walk_4kb :: "mem \<Rightarrow> u64 \<Rightarrow> u64 \<Rightarrow> nat \<Rightarrow> u64 res" where
  "walk_4kb m tbl linearaddr level =
     bindr (get_entry4kb tbl linearaddr level) (\<lambda>p.
       let e = load32 m p
       in if \<not> entry4kb_is_present e then Inr (- 1)
          else
            let base = shl_int (pte_base e) PAGE_SHIFT
            in if level = PGT_LEVEL_PT
               then Inr (base + (linearaddr AND (push_bit PAGE_SHIFT 1 - 1)))
               else walk_4kb m base linearaddr (level - 1))"
  by pat_completeness auto
termination
  by (relation "measure (\<lambda>(m, tbl, linearaddr, level). level)") (auto dest: get_entry4kb_level)

declare walk_4kb.simps [simp del]

definition entry_4kb :: "mem \<Rightarrow> u32 \<Rightarrow> u64 \<Rightarrow> nat \<Rightarrow> u64 res" where
  "entry_4kb m e linearaddr level =
     (let base = shl_int (pte_base e) PAGE_SHIFT
      in if level = PGT_LEVEL_PT
         then Inr (base + (linearaddr AND (push_bit PAGE_SHIFT 1 - 1)))
         else walk_4kb m base linearaddr (level - 1))"

definition linear2physical_legacy4kb :: "mem \<Rightarrow> u64 \<Rightarrow> u64 \<Rightarrow> u64 res" where
  "linear2physical_legacy4kb m tbl linearaddr = walk_4kb m tbl linearaddr PGT_LEVEL_PD"

text \<open>Without the page size flag the entry is taken as the address of a page table at once, its
  present flag is not looked at.\<close>

definition linear2physical_legacy4mb :: "mem \<Rightarrow> u64 \<Rightarrow> u64 \<Rightarrow> u64 res" where
  "linear2physical_legacy4mb m tbl linearaddr =
     (let e = load32 m (get_pt_entry4mb tbl linearaddr)
      in if ctrue (pd4M_flags e AND PTTEF_PAGE_SIZE) then
           (if \<not> entry4mb_is_present e then Inr (- 1)
            else Inr (shl_int (pd4M_baselow e) 22
                      + (linearaddr AND (push_bit PAGE_SHIFT_4MB 1 - 1))))
         else entry_4kb m e linearaddr PGT_LEVEL_PD)"

definition X86_CR0_PE :: u64 where "X86_CR0_PE = 0x00000001"
definition X86_CR0_PG :: u64 where "X86_CR0_PG = 0x80000000"
definition X86_CR4_PSE :: u64 where "X86_CR4_PSE = 0x0010"
definition X86_CR4_PAE :: u64 where "X86_CR4_PAE = 0x0020"

definition linear_2_physical :: "mem \<Rightarrow> u64 \<Rightarrow> u64 \<Rightarrow> u64 \<Rightarrow> u64 \<Rightarrow> u64 res" where
  "linear_2_physical m cr0 cr3 cr4 guest_linear =
     (if \<not> ctrue (cr0 AND X86_CR0_PE) then Inr guest_linear
      else if ctrue (cr4 AND X86_CR4_PAE)
      then fatal_failure ''Converting address in 2mb PAE paging mode not supported yet!''
      else if \<not> ctrue (cr0 AND X86_CR0_PG) then Inr guest_linear
      else if \<not> ctrue (cr4 AND X86_CR4_PSE) then linear2physical_legacy4kb m cr3 guest_linear
      else linear2physical_legacy4mb m cr3 guest_linear)"

text \<open>The trace of \<open>print_4MB_pg_table\<close>.\<close>

definition print_4mb_entry :: "mem \<Rightarrow> u64 \<Rightarrow> nat \<Rightarrow> out_call list" where
  "print_4mb_entry m tbl i =
     (let e = load32 m (tbl + of_nat i * 4)
      in if \<not> entry4mb_is_present e then []
         else [(''index=%x, vaddr=%x, paddr = %x'',
                [ArgX (of_nat i), ArgX (shl_int (of_nat i) PAGE_SHIFT_4MB),
                 ArgX (push_bit PAGE_SHIFT_4MB (ucast (pd4M_baselow e))
                       + push_bit 32 (ucast (pd4M_basehigh e)))]),
               (line '', flags=%x'', [ArgX (ucast (pd4M_flags e))])])"

definition print_4MB_pg_table :: "mem \<Rightarrow> u64 \<Rightarrow> out_call list" where
  "print_4MB_pg_table m tbl = concat (map (print_4mb_entry m tbl) [0..<1024])"

text \<open>The trace of \<open>print_pml4_2MB_pg_table\<close>.  \<open>i << shift\<close> is a shift of an \<open>int\<close>, which C leaves undefined
  where it overflows; \<open>ub\<close> is its value there.\<close>

definition shl_c :: "(nat \<Rightarrow> nat \<Rightarrow> u64) \<Rightarrow> nat \<Rightarrow> nat \<Rightarrow> u64" where
  "shl_c ub i k = (if k < 32 \<and> i * 2 ^ k < 2 ^ 31 then of_nat (i * 2 ^ k) else ub i k)"

primrec collect :: "(nat \<Rightarrow> out_call list res) \<Rightarrow> nat list \<Rightarrow> out_call list res" where
  "collect f [] = Inr []"
| "collect f (i # is) = bindr (f i) (\<lambda>cs. bindr (collect f is) (\<lambda>cs'. Inr (cs @ cs')))"

definition pd_line :: "nat \<Rightarrow> u64 \<Rightarrow> out_call" where
  "pd_line i e =
     (line ''level=%x, index=%x, voffset=%x, paddr = %x, flags=%x PD'',
      [ArgX (of_nat PGT_LEVEL_PD), ArgX (of_nat i), ArgX (shl_int (of_nat i) PAGE_SHIFT_2MB),
       ArgX (shl_int (ucast (term_base e)) PAGE_SHIFT_2MB), ArgX (term_flags e)])"

definition table_line :: "(nat \<Rightarrow> nat \<Rightarrow> u64) \<Rightarrow> nat \<Rightarrow> nat \<Rightarrow> nat \<Rightarrow> u64 \<Rightarrow> out_call" where
  "table_line ub level i shift e =
     (line ''level=%x, index=%x, vbase=%x, paddr %x, flags=%x'',
      [ArgX (of_nat level), ArgX (of_nat i), ArgX (shl_c ub i shift),
       ArgX (push_bit PAGE_SHIFT (non_term_base e)), ArgX (non_term_flags e)])"

text \<open>\<open>print_2mb_table level\<close> is \<open>__print_pml4_2MB_pg_table\<close>.  The calls before a fatal one are
  not in its result.\<close>

primrec print_2mb_table :: "nat \<Rightarrow> (nat \<Rightarrow> nat \<Rightarrow> u64) \<Rightarrow> mem \<Rightarrow> u64 \<Rightarrow> out_call list res" where
  "print_2mb_table 0 ub m base =
     collect (\<lambda>i. if \<not> entry2mb_is_present (load64 m (base + of_nat i * 8)) then Inr []
       else fatal_failure ''__print_pml4_2MB_pg_table wrong paging level'') [0..<512]"
| "print_2mb_table (Suc l) ub m base =
     collect (\<lambda>i.
       let e = load64 m (base + of_nat i * 8); level = Suc l
       in if \<not> entry2mb_is_present e then Inr []
          else if level = PGT_LEVEL_PD then Inr [pd_line i e]
          else if level = PGT_LEVEL_PML4 \<or> level = PGT_LEVEL_PDP then
            bindr (print_2mb_table l ub m (push_bit PAGE_SHIFT (non_term_base e))) (\<lambda>cs.
              Inr (table_line ub level i (if level = PGT_LEVEL_PML4 then 39 else 30) e # cs))
          else fatal_failure ''__print_pml4_2MB_pg_table wrong paging level'') [0..<512]"

definition print_pml4_2MB_pg_table :: "(nat \<Rightarrow> nat \<Rightarrow> u64) \<Rightarrow> mem \<Rightarrow> u64 \<Rightarrow> out_call list res" where
  "print_pml4_2MB_pg_table ub m pml4_table =
     (let rule = (line ''-----------------------------------------'', [])
      in bindr (print_2mb_table PGT_LEVEL_PML4 ub m pml4_table) (\<lambda>cs. Inr (rule # cs @ [rule])))"

lemma collect_returns: "(\<And>i. i \<in> set is \<Longrightarrow> \<exists>cs. f i = Inr cs) \<Longrightarrow> \<exists>cs. collect f is = Inr cs"
proof (induction "is")
  case (Cons i "is")
  then obtain a b where "f i = Inr a" "collect f is = Inr b" by (metis list.set_intros)
  then show ?case by simp
qed simp

lemma print_2mb_table_returns: "1 < level \<Longrightarrow> level \<le> PGT_LEVEL_PML4 \<Longrightarrow> \<exists>cs. print_2mb_table level ub m base = Inr cs"
proof (induction level arbitrary: base)
  case (Suc l)
  have below: "\<exists>cs. print_2mb_table l ub m b = Inr cs" if "Suc l \<noteq> PGT_LEVEL_PD" for b
    using Suc that by (auto simp: PGT_LEVEL_PD_def PGT_LEVEL_PML4_def)
  have levels: "Suc l = PGT_LEVEL_PML4 \<or> Suc l = PGT_LEVEL_PDP" if "Suc l \<noteq> PGT_LEVEL_PD"
    using Suc.prems that by (auto simp: PGT_LEVEL_PD_def PGT_LEVEL_PML4_def PGT_LEVEL_PDP_def)
  show ?case
  proof (cases "Suc l = PGT_LEVEL_PD")
    case True
    then show ?thesis
      unfolding print_2mb_table.simps Let_def by (intro collect_returns) (simp only: if_True split: if_split, blast)
  next
    case False
    show ?thesis
      unfolding print_2mb_table.simps Let_def
    proof (intro collect_returns)
      fix i
      obtain cs where "print_2mb_table l ub m (push_bit PAGE_SHIFT (non_term_base (load64 m (base + of_nat i * 8)))) = Inr cs"
        using below [OF False] by blast
      then show "\<exists>cs. (if \<not> entry2mb_is_present (load64 m (base + of_nat i * 8)) then Inr []
          else if Suc l = PGT_LEVEL_PD then Inr [pd_line i (load64 m (base + of_nat i * 8))]
          else if Suc l = PGT_LEVEL_PML4 \<or> Suc l = PGT_LEVEL_PDP then
            bindr (print_2mb_table l ub m (push_bit PAGE_SHIFT (non_term_base (load64 m (base + of_nat i * 8))))) (\<lambda>cs.
              Inr (table_line ub (Suc l) i (if Suc l = PGT_LEVEL_PML4 then 39 else 30) (load64 m (base + of_nat i * 8)) # cs))
          else fatal_failure ''__print_pml4_2MB_pg_table wrong paging level'') = Inr cs"
        using False levels [OF False] by (simp only: bindr_simps if_True if_False split: if_split) blast
    qed
  qed
qed simp

text \<open>The walk of \<open>print_pml4_2MB_pg_table\<close> goes through three levels of tables, whatever they hold, and never
  meets the level it stops the monitor at.\<close>

theorem print_pml4_returns:
  "\<exists>cs. print_pml4_2MB_pg_table ub m pml4_table = Inr cs"
  using print_2mb_table_returns [of PGT_LEVEL_PML4 ub m pml4_table]
  by (auto simp: print_pml4_2MB_pg_table_def Let_def PGT_LEVEL_PML4_def)

subsection \<open>Tables of words in memory\<close>

text \<open>The entry \<open>i\<close> of a table of 32-bit entries.\<close>

definition pd_get :: "u64 \<Rightarrow> mem \<Rightarrow> nat \<Rightarrow> u32" where
  "pd_get t m i = load32 m (t + of_nat (4 * i))"

definition pd_set :: "u64 \<Rightarrow> mem \<Rightarrow> nat \<Rightarrow> u32 \<Rightarrow> mem" where
  "pd_set t m i e = store32 m (t + of_nat (4 * i)) e"

interpretation pd: word_table "pd_get t" "pd_set t" 1024 for t
  by unfold_locales (simp_all add: pd_get_def pd_set_def load_store_array del: of_nat_mult)

text \<open>The four fields are the whole entry, so \<open>mmap_4mb\<close> overwrites it.\<close>

definition pd4M_make :: "u32 \<Rightarrow> u32 \<Rightarrow> u32" where
  "pd4M_make baselow flags = push_bit 22 baselow OR take_bit 13 flags"

lemma set_all_fields:
  "set_field (set_field (set_field (set_field e 22 10 b) 13 8 0) 21 1 0) 0 13 f =
     pd4M_make (take_bit 10 b) f" for e :: u32
  by (rule bit_word_eqI) (auto simp: bit_set_field pd4M_make_def bit_simps)

lemma pd4M_make_fields [simp]:
  "pd4M_flags (pd4M_make b f) = take_bit 13 f"
  "pd4M_baselow (pd4M_make (take_bit 10 b) f) = take_bit 10 b"
  "pd4M_basehigh (pd4M_make b f) = 0"
  by (rule bit_word_eqI, auto simp: get_field_def pd4M_flags_def pd4M_baselow_def pd4M_basehigh_def
      pd4M_make_def bit_simps)+

definition default_flags :: u32 where
  "default_flags = PTTEF_PRESENT OR PTTEF_RW OR PTTEF_PAGE_SIZE OR PTTEF_US"

lemma index_4mb:
  assumes "unat vaddr < 2 ^ 32"
  shows "scast (to_int (drop_bit PAGE_SHIFT_4MB vaddr)) * 4 = (of_nat (4 * (unat vaddr div 2 ^ 22)) :: u64)"
proof -
  have d: "unat (drop_bit 22 vaddr) = unat vaddr div 2 ^ 22" by (simp only: unat_drop_bit)
  have small: "unat (drop_bit 22 vaddr) < 1024" unfolding d using assms by (simp add: div_less_iff_less_mult)
  have v: "\<not> bit vaddr n" if "32 \<le> n" for n
  proof -
    have "unat vaddr < 2 ^ n" using assms that by (meson less_le_trans one_le_numeral power_increasing)
    then show ?thesis by (simp add: bit_word_unat)
  qed
  have "scast (to_int (drop_bit 22 vaddr)) = drop_bit 22 vaddr"
    by (rule bit_word_eqI) (auto simp: to_int_def bit_simps v min_def)
  also have "drop_bit 22 vaddr = of_nat (unat vaddr div 2 ^ 22)"
    unfolding d [symmetric] by simp
  finally show ?thesis by simp
qed

lemma mmap_4mb_set:
  assumes "unat vaddr < 2 ^ 32"
  shows "mmap_4mb m t vaddr paddr flags = pd_set t m (unat vaddr div 2 ^ 22)
    (pd4M_make (take_bit 10 (ucast (drop_bit 22 paddr))) (if flags = - 1 then default_flags else flags))"
  unfolding mmap_4mb_def Let_def set_all_fields pd_set_def index_4mb [OF assms]
  by (simp only: default_flags_def)


lemma get_pt_entry4mb_nat: "get_pt_entry4mb t la = t + of_nat (4 * (unat la div 2 ^ 22))"
proof -
  have "drop_bit 22 la = of_nat (unat (drop_bit 22 la))" by simp
  also have "unat (drop_bit 22 la) = unat la div 2 ^ 22" by (simp only: unat_drop_bit)
  finally show ?thesis by (simp add: get_pt_entry4mb_def mult.commute)
qed

lemma default_flags_eval: "default_flags = 0x87"
  by (simp add: default_flags_def PTTEF_PRESENT_def PTTEF_RW_def PTTEF_PAGE_SIZE_def PTTEF_US_def)

lemma bit_beyond: "unat w < 2 ^ n \<Longrightarrow> n \<le> k \<Longrightarrow> \<not> bit w k" for w :: "'a::len word"
proof -
  assume "unat w < 2 ^ n" "n \<le> k"
  then have "unat w < 2 ^ k" by (meson less_le_trans one_le_numeral power_increasing)
  then show ?thesis by (simp add: bit_word_unat)
qed

text \<open>Below 2 GB the 32-bit shift of a base gives the base address.\<close>

lemma shl_int_baselow:
  assumes "unat paddr < 2 ^ 31"
  shows "shl_int (take_bit 10 (ucast (drop_bit 22 paddr))) 22 = push_bit 22 (drop_bit 22 paddr)"
  by (rule bit_word_eqI)
    (use bit_beyond [OF assms] in \<open>auto simp: shl_int_def bit_simps min_def\<close>)

lemma shl_int_pte_base:
  "shl_int (pte_base e) 12 = scast (e AND NOT (mask 12))"
  by (simp add: shl_int_def) (rule arg_cong [where f = scast], rule bit_word_eqI,
    auto simp: pte_base_def get_field_def bit_simps)

lemma scast_low: "\<not> bit w 31 \<Longrightarrow> scast w = (ucast w :: u64)" for w :: u32
proof (rule bit_word_eqI)
  fix n assume w: "\<not> bit w 31"
  have "n = 31" if "bit w n" "31 \<le> n" for n using that bit_imp_le_length [OF that(1)] by simp
  then show "bit (scast w :: u64) n = bit (ucast w :: u64) n" if "n < LENGTH(64)"
    using w that by (auto simp: bit_simps min_def)
qed

lemma walk_mapped_4mb:
  assumes "unat paddr < 2 ^ 31"
    and e: "pd_get t m (unat la div 2 ^ 22) =
      pd4M_make (take_bit 10 (ucast (drop_bit 22 paddr))) default_flags"
  shows "linear2physical_legacy4mb m t la = Inr (PAGE_DOWN_4MB paddr + (la AND (PAGE_SIZE_4MB - 1)))"
proof -
  have l: "load32 m (get_pt_entry4mb t la) = pd4M_make (take_bit 10 (ucast (drop_bit 22 paddr))) default_flags"
    using e by (simp add: pd_get_def get_pt_entry4mb_nat)
  have f: "take_bit 13 default_flags = 0x87" by (simp add: default_flags_eval)
  have d: "push_bit 22 (drop_bit 22 paddr) = PAGE_DOWN_4MB paddr"
    using and_not_low_mask [of paddr 22] by (simp add: PAGE_DOWN_4MB_def PAGE_MASK_4MB_def PAGE_SIZE_4MB_def)
  show ?thesis
    unfolding linear2physical_legacy4mb_def Let_def l entry4mb_is_present_def pd4M_make_fields f
      shl_int_baselow [OF assms(1)] d
    by (simp add: PTTEF_PAGE_SIZE_def PTTEF_PRESENT_def ctrue_def PAGE_SIZE_4MB_def)
qed

subsection \<open>The walk of 4 KB pages\<close>

text \<open>The two-level walk the processor performs: \<open>None\<close> for an entry that is not present.\<close>

definition frame_of :: "u32 \<Rightarrow> u64" where
  "frame_of e = ucast (e AND NOT (mask 12))"

definition arch_walk :: "mem \<Rightarrow> u64 \<Rightarrow> u64 \<Rightarrow> u64 option" where
  "arch_walk m cr3 la =
     (let pde = load32 m (cr3 + of_nat (4 * (unat la div 2 ^ 22 mod 1024)))
      in if \<not> bit pde 0 then None
         else
           let pte = load32 m (frame_of pde + of_nat (4 * (unat la div 2 ^ 12 mod 1024)))
           in if \<not> bit pte 0 then None
              else Some (frame_of pte + of_nat (unat la mod 2 ^ 12)))"

text \<open>The tables used lie below 2 GB, where the code's sign extension has no effect.\<close>

definition walk_low :: "mem \<Rightarrow> u64 \<Rightarrow> u64 \<Rightarrow> bool" where
  "walk_low m cr3 la =
     (let pde = load32 m (cr3 + of_nat (4 * (unat la div 2 ^ 22 mod 1024)))
      in \<not> bit pde 31 \<and>
         \<not> bit (load32 m (frame_of pde + of_nat (4 * (unat la div 2 ^ 12 mod 1024)))) 31)"

lemma index_10: "(drop_bit k la AND (push_bit 10 1 - 1)) * 4 = (of_nat (4 * (unat la div 2 ^ k mod 1024)) :: u64)"
proof -
  have "drop_bit k la AND (push_bit 10 1 - 1) = take_bit 10 (drop_bit k la)"
    by (simp add: take_bit_eq_mask mask_eq_exp_minus_1)
  also have "\<dots> = of_nat (unat (take_bit 10 (drop_bit k la)))" by simp
  also have "unat (take_bit 10 (drop_bit k la)) = unat la div 2 ^ k mod 1024"
    by (simp only: unat_take_bit unat_drop_bit) simp
  finally show ?thesis by (simp add: mult.commute)
qed

lemma offset_12: "la AND (push_bit 12 1 - 1) = (of_nat (unat la mod 2 ^ 12) :: u64)"
proof -
  have "la AND (push_bit 12 1 - 1) = take_bit 12 la"
    by (simp add: take_bit_eq_mask mask_eq_exp_minus_1)
  also have "\<dots> = of_nat (unat (take_bit 12 la))" by simp
  finally show ?thesis by (simp only: unat_take_bit)
qed

lemma present_4kb: "entry4kb_is_present e \<longleftrightarrow> bit e 0"
proof -
  have "pte_flags e AND PTTEF_PRESENT = (if bit e 0 then 1 else 0)"
    by (rule bit_word_eqI) (auto simp: pte_flags_def get_field_def PTTEF_PRESENT_def bit_simps intro: gr0I)
  then show ?thesis by (simp add: entry4kb_is_present_def ctrue_def)
qed

lemma base_low: "\<not> bit e 31 \<Longrightarrow> shl_int (pte_base e) 12 = frame_of e"
  unfolding shl_int_pte_base frame_of_def by (rule scast_low) (simp add: bit_simps)

lemma walk_4kb_levels:
  "walk_4kb m t la PGT_LEVEL_PT =
     (let e = load32 m (t + of_nat (4 * (unat la div 2 ^ 12 mod 1024)))
      in if \<not> bit e 0 then Inr (- 1)
         else Inr (shl_int (pte_base e) 12 + of_nat (unat la mod 2 ^ 12)))"
  "walk_4kb m t la PGT_LEVEL_PD =
     (let e = load32 m (t + of_nat (4 * (unat la div 2 ^ 22 mod 1024)))
      in if \<not> bit e 0 then Inr (- 1) else walk_4kb m (shl_int (pte_base e) 12) la PGT_LEVEL_PT)"
  unfolding walk_4kb.simps [of m t la PGT_LEVEL_PT] walk_4kb.simps [of m t la PGT_LEVEL_PD]
  unfolding get_entry4kb_def get_index_4kb_def Let_def present_4kb offset_12
  by (simp_all add: PGT_LEVEL_PT_def PGT_LEVEL_PD_def index_10 [of 12, simplified] index_10 [of 22, simplified])

lemma walk_4kb_arch:
  assumes "walk_low m cr3 la"
  shows "linear2physical_legacy4kb m cr3 la =
    Inr (case arch_walk m cr3 la of None \<Rightarrow> - 1 | Some a \<Rightarrow> a)"
  using assms unfolding linear2physical_legacy4kb_def walk_4kb_levels arch_walk_def walk_low_def Let_def
  by (simp add: base_low)


subsection \<open>The 2 MB tables\<close>

lemma index_9: "(drop_bit k la AND (push_bit 9 1 - 1)) * 8 = (of_nat (8 * (unat la div 2 ^ k mod 512)) :: u64)"
proof -
  have "drop_bit k la AND (push_bit 9 1 - 1) = take_bit 9 (drop_bit k la)"
    by (simp add: take_bit_eq_mask mask_eq_exp_minus_1)
  also have "\<dots> = of_nat (unat (take_bit 9 (drop_bit k la)))" by simp
  also have "unat (take_bit 9 (drop_bit k la)) = unat la div 2 ^ k mod 512"
    by (simp only: unat_take_bit unat_drop_bit) simp
  finally show ?thesis by (simp add: mult.commute)
qed

text \<open>The address of the entry for \<open>la\<close> in a table of the given shift.\<close>

definition slot_2mb :: "u64 \<Rightarrow> u64 \<Rightarrow> nat \<Rightarrow> u64" where
  "slot_2mb t la k = t + of_nat (8 * (unat la div 2 ^ k mod 512))"

lemma get_entry_levels:
  "get_entry t la PGT_LEVEL_PML4 = Inr (slot_2mb t la 39)"
  "get_entry t la PGT_LEVEL_PDP = Inr (slot_2mb t la 30)"
  "get_entry t la PGT_LEVEL_PD = Inr (slot_2mb t la 21)"
  unfolding get_entry_def get_index_pae2mb_def Let_def slot_2mb_def
  by (simp_all add: PGT_LEVEL_PML4_def PGT_LEVEL_PDP_def PGT_LEVEL_PD_def
      index_9 [of 39, simplified] index_9 [of 30, simplified] index_9 [of 21, simplified])

definition next_table :: "u64 \<Rightarrow> u64" where
  "next_table e = push_bit PAGE_SHIFT (non_term_base e)"

lemma level_neq:
  "PGT_LEVEL_PML4 \<noteq> PGT_LEVEL_PD" "PGT_LEVEL_PDP \<noteq> PGT_LEVEL_PD"
  "PGT_LEVEL_PML4 - 1 = PGT_LEVEL_PDP" "PGT_LEVEL_PDP - 1 = PGT_LEVEL_PD"
  by (simp_all add: PGT_LEVEL_PML4_def PGT_LEVEL_PDP_def PGT_LEVEL_PD_def)

lemma present_2mb: "entry2mb_is_present e \<longleftrightarrow> bit e 0"
proof -
  have "term_flags e AND ucast PTTEF_PRESENT = (if bit e 0 then 1 else 0)"
    by (rule bit_word_eqI) (auto simp: term_flags_def get_field_def PTTEF_PRESENT_def bit_simps intro: gr0I)
  then show ?thesis by (simp add: entry2mb_is_present_def ctrue_def)
qed

text \<open>The leaf entry: the fields that \<open>map_pd_entry\<close> sets, the bits 52-63 kept.\<close>

definition leaf_flags :: "bool \<Rightarrow> u64" where
  "leaf_flags is_user = (if is_user then 0x87 else 0x83)"

definition leaf_2mb :: "u64 \<Rightarrow> u64 \<Rightarrow> bool \<Rightarrow> u64" where
  "leaf_2mb e paddr is_user =
     set_field (set_field e 21 31 (drop_bit PAGE_SHIFT_2MB paddr)) 0 21 (leaf_flags is_user)"

lemma map_pd_entry_leaf: "map_pd_entry m p paddr is_user = store64 m p (leaf_2mb (load64 m p) paddr is_user)"
proof -
  have f: "ucast (PTTEF_PRESENT OR PTTEF_RW OR PTTEF_PAGE_SIZE) = (0x83 :: u64)"
    by (simp add: PTTEF_PRESENT_def PTTEF_RW_def PTTEF_PAGE_SIZE_def)
  have tf: "term_flags (set_field e 0 21 0x83) = 0x83" for e
    by (simp add: term_flags_def get_set_field)
  have twice: "set_field (set_field e 0 21 a) 0 21 b = set_field e 0 21 b" for e a b :: u64
    by (rule bit_word_eqI) (auto simp: bit_set_field)
  show ?thesis
    by (simp only: map_pd_entry_def Let_def f tf leaf_2mb_def leaf_flags_def twice)
      (auto simp: PTTEF_US_def twice tf)
qed

lemma leaf_2mb_fields:
  "term_flags (leaf_2mb e paddr u) = leaf_flags u"
  "term_base (leaf_2mb e paddr u) = take_bit 31 (drop_bit PAGE_SHIFT_2MB paddr)"
proof -
  show "term_flags (leaf_2mb e paddr u) = leaf_flags u"
    by (simp add: term_flags_def leaf_2mb_def get_set_field leaf_flags_def)
  show "term_base (leaf_2mb e paddr u) = take_bit 31 (drop_bit PAGE_SHIFT_2MB paddr)"
    unfolding term_base_def leaf_2mb_def by (subst get_set_field_other) (simp_all add: get_set_field)
qed

lemma shl_int_term_base:
  assumes "unat paddr < 2 ^ 31"
  shows "shl_int (ucast (take_bit 31 (drop_bit 21 paddr))) 21 = push_bit 21 (drop_bit 21 paddr)"
  by (rule bit_word_eqI)
    (use bit_beyond [OF assms] in \<open>auto simp: shl_int_def bit_simps min_def\<close>)

lemma walk_2mb_levels:
  "walk_2mb m t la PGT_LEVEL_PML4 =
     (let e = load64 m (slot_2mb t la 39)
      in if \<not> bit e 0 then fatal_failure (line ''Page table entry is not present.'')
         else walk_2mb m (next_table e) la PGT_LEVEL_PDP)"
  "walk_2mb m t la PGT_LEVEL_PDP =
     (let e = load64 m (slot_2mb t la 30)
      in if \<not> bit e 0 then fatal_failure (line ''Page table entry is not present.'')
         else walk_2mb m (next_table e) la PGT_LEVEL_PD)"
  unfolding walk_2mb.simps [of m t la PGT_LEVEL_PML4] walk_2mb.simps [of m t la PGT_LEVEL_PDP]
    get_entry_levels bindr_simps Let_def present_2mb
  by (simp_all add: level_neq level_neq [unfolded One_nat_def] next_table_def)

lemma mmap_2mb_present:
  assumes "bit (load64 m (slot_2mb t v 39)) 0"
    and "t3 = next_table (load64 m (slot_2mb t v 39))"
    and "bit (load64 m (slot_2mb t3 v 30)) 0"
    and "t2 = next_table (load64 m (slot_2mb t3 v 30))"
    and "unat (slot_2mb t v 39) < 2 ^ 28" "unat (slot_2mb t3 v 30) < 2 ^ 28" "unat (slot_2mb t2 v 21) < 2 ^ 28"
  shows "mmap_pml4 m host t v paddr u =
    Some (Inr (map_pd_entry m (slot_2mb t2 v 21) paddr u, mmap_lines v paddr))"
  using assms
  by (simp add: mmap_pml4_def mmap_lines_def level_neq level_neq [unfolded One_nat_def] next_table_def get_entry_levels present_2mb
      mmap_2mb.simps [of m host t v paddr PGT_LEVEL_PML4 u] mmap_2mb.simps [of m host _ v paddr PGT_LEVEL_PDP u]
      mmap_2mb.simps [of m host _ v paddr PGT_LEVEL_PD u])

lemma mmap_2mb_walk:
  assumes "unat paddr < 2 ^ 31" and "t \<noteq> 0"
    and p4: "bit (load64 m (slot_2mb t v 39)) 0"
    and t3: "t3 = next_table (load64 m (slot_2mb t v 39))"
    and p3: "bit (load64 m (slot_2mb t3 v 30)) 0"
    and t2: "t2 = next_table (load64 m (slot_2mb t3 v 30))"
    and d4: "disjoint_ranges (slot_2mb t v 39) 8 (slot_2mb t2 v 21) 8"
    and d3: "disjoint_ranges (slot_2mb t3 v 30) 8 (slot_2mb t2 v 21) 8"
  shows "linear2physical_legacy2mb (map_pd_entry m (slot_2mb t2 v 21) paddr u) t v =
    Inr (PAGE_DOWN_2MB paddr + (v AND (PAGE_SIZE_2MB - 1)))"
proof -
  let ?m = "map_pd_entry m (slot_2mb t2 v 21) paddr u"
  have k4: "load64 ?m (slot_2mb t v 39) = load64 m (slot_2mb t v 39)"
    unfolding map_pd_entry_leaf using d4 by (intro load_store_disjoint) simp_all
  have k3: "load64 ?m (slot_2mb t3 v 30) = load64 m (slot_2mb t3 v 30)"
    unfolding map_pd_entry_leaf using d3 by (intro load_store_disjoint) simp_all
  obtain e where l: "load64 ?m (slot_2mb t2 v 21) = leaf_2mb e paddr u"
    by (simp add: map_pd_entry_leaf)
  have b: "bit (leaf_2mb e paddr u) 0"
    using leaf_2mb_fields(1) [of e paddr u] present_2mb [of "leaf_2mb e paddr u"]
    by (simp add: entry2mb_is_present_def leaf_flags_def PTTEF_PRESENT_def ctrue_def split: if_splits)
  have d: "push_bit 21 (drop_bit 21 paddr) = PAGE_DOWN_2MB paddr"
    using and_not_low_mask [of paddr 21] by (simp add: PAGE_DOWN_2MB_def PAGE_MASK_2MB_def PAGE_SIZE_2MB_def)
  have ps: "ctrue (leaf_flags u AND ucast PTTEF_PAGE_SIZE)"
    by (simp add: leaf_flags_def PTTEF_PAGE_SIZE_def ctrue_def)
  have "walk_2mb ?m t2 v PGT_LEVEL_PD = Inr (PAGE_DOWN_2MB paddr + (v AND (PAGE_SIZE_2MB - 1)))"
    unfolding walk_2mb.simps [of ?m t2 v PGT_LEVEL_PD] get_entry_levels bindr_simps Let_def l present_2mb
      leaf_2mb_fields shl_int_term_base [OF assms(1)] d
    using b ps by (simp add: PAGE_SIZE_2MB_def)
  then show ?thesis
    unfolding linear2physical_legacy2mb_def walk_2mb_levels Let_def k4 t3 [symmetric] k3 t2 [symmetric]
    using assms(2) p4 p3 by simp
qed


subsection \<open>Allocating a table\<close>

text \<open>The state of the allocator after boot, as far as requests for one page go.\<close>

definition low_pages_taken :: "mem \<Rightarrow> naive_allocator \<Rightarrow> bool" where
  "low_pages_taken m host \<longleftrightarrow> (\<forall>p < 32. page_bit m (alloc_bitmap host) p) \<and>
     alloc_bitmap host = 0x8100000 \<and> 33 < unat (max_page host) \<and> unat (max_page host) + 2 < 2 ^ 64"

lemma page_bit_cong:
  assumes "p < 64" and "\<And>i. i < 8 \<Longrightarrow> m (tbl + of_nat i) = m' (tbl + of_nat i)"
  shows "page_bit m tbl p \<longleftrightarrow> page_bit m' tbl p"
  using load_le_cong [of 8 m tbl m', where 'a = 64] assms by (simp add: page_bit_def tbl_get_def)

lemma low_pages_frame:
  assumes "low_pages_taken m host" and "\<And>x. in_range 0x8100000 8 x \<Longrightarrow> m' x = m x"
  shows "low_pages_taken m' host"
proof -
  have "m' (0x8100000 + of_nat i) = m (0x8100000 + of_nat i)" if "i < 8" for i :: nat
    using that assms(2) by (simp add: in_range_def unat_of_nat_u64 del: unat_of_nat)
  then have "page_bit m' 0x8100000 p = page_bit m 0x8100000 p" if "p < 32" for p
    using that by (intro page_bit_cong) simp_all
  then show ?thesis using assms(1) by (auto simp: low_pages_taken_def)
qed

lemma page_20000: "in_range 0x8100000 8 x \<Longrightarrow> \<not> in_range 0x20000 4096 x"
proof -
  assume "in_range 0x8100000 8 x"
  then have "unat x \<ge> 0x8100000"
    using unat_minus_less [of "0x8100000" 8 x] by (simp add: in_range_def)
  then show ?thesis
    using unat_minus_less [of "0x20000" 4096 x] by (simp add: in_range_def)
qed

lemma alloc_page_20000:
  assumes "low_pages_taken m host"
  shows "\<exists>m'. alloc_host_pages m host 1 1 = Some (Inr (32, m')) \<and> low_pages_taken m' host"
  using alloc_one_page_32 [of m host] assms by (auto simp: low_pages_taken_def)

lemma pg_table_alloc_20000:
  assumes "low_pages_taken m host"
  shows "\<exists>m'. pg_table_alloc m host = Some (Inr (0x20000, m')) \<and> low_pages_taken m' host \<and>
    (\<forall>x. in_range 0x20000 4096 x \<longrightarrow> m' x = 0)"
proof -
  obtain m1 where m1: "alloc_host_pages m host 1 1 = Some (Inr (32, m1))" "low_pages_taken m1 host"
    using alloc_page_20000 [OF assms] by blast
  let ?m = "memset m1 0x20000 0 PAGE_SIZE"
  have s: "unat PAGE_SIZE = 4096" by (simp add: PAGE_SIZE_def)
  have "pg_table_alloc m host = Some (Inr (0x20000, ?m))"
    by (simp add: pg_table_alloc_def m1 Let_def)
  moreover have "low_pages_taken ?m host"
    using m1(2) by (rule low_pages_frame) (simp add: memset_apply s page_20000)
  ultimately show ?thesis by (auto simp: memset_apply s)
qed

text \<open>A 32-bit value with its sign bit set is sign extended: it loses \<open>2 ^ 32\<close>.\<close>

lemma scast_high:
  fixes w :: u32
  assumes "bit w 31"
  shows "scast w = (ucast w :: u64) - 2 ^ 32"
proof -
  have "(ucast w :: u64) AND (- (2 ^ 32)) = 0"
    by (rule bit_word_eqI) (simp only: bit_and_iff bit_high_mask, auto simp: bit_simps dest: bit_imp_le_length)
  then have "(ucast w :: u64) + (- (2 ^ 32)) = ucast w OR (- (2 ^ 32))"
    by (rule disjunctive_add_eq_or)
  also have "\<dots> = scast w"
  proof (rule bit_word_eqI)
    fix n assume n: "n < LENGTH(64)"
    show "bit (ucast w OR - (2 ^ 32) :: u64) n = bit (scast w :: u64) n"
      unfolding bit_or_iff bit_high_mask using n assms
      by (cases "n < 31"; cases "n = 31") (auto simp: bit_simps min_def dest: bit_imp_le_length)
  qed
  finally show ?thesis by simp
qed

lemma walk_4mb_high:
  assumes e: "load32 m (get_pt_entry4mb t la) = pd4M_make (take_bit 10 b) default_flags" and "bit b 9"
  shows "linear2physical_legacy4mb m t la =
    Inr (ucast (push_bit 22 b) - 2 ^ 32 + (la AND (PAGE_SIZE_4MB - 1)))"
proof -
  have f: "take_bit 13 default_flags = 0x87" by (simp add: default_flags_eval)
  have p: "push_bit 22 (take_bit 10 b) = push_bit 22 b"
    by (rule bit_word_eqI) (auto simp: bit_simps)
  have "bit (push_bit 22 b) 31" using assms(2) by (simp add: bit_simps)
  then have s: "shl_int (take_bit 10 b) 22 = ucast (push_bit 22 b) - 2 ^ 32"
    unfolding shl_int_def p by (rule scast_high)
  show ?thesis
    unfolding linear2physical_legacy4mb_def Let_def e entry4mb_is_present_def pd4M_make_fields f s
    by (simp add: PTTEF_PAGE_SIZE_def PTTEF_PRESENT_def ctrue_def PAGE_SIZE_4MB_def)
qed


subsection \<open>Properties of the page tables\<close>

text \<open>\<open>mmap_4mb\<close> with the default flags maps: walking the table afterwards takes an address
  of the 4 MB page to the same offset of the physical page, for physical addresses below 2 GB,
  and every other entry of the table is as it was.\<close>

theorem mmap_4mb_maps:
  assumes "unat vaddr < 2 ^ 32" and "unat paddr < 2 ^ 31"
    and "unat la < 2 ^ 32" and "unat la div 2 ^ 22 = unat vaddr div 2 ^ 22"
  shows "linear2physical_legacy4mb (mmap_4mb m t vaddr paddr (- 1)) t la =
      Inr (PAGE_DOWN_4MB paddr + (la AND (PAGE_SIZE_4MB - 1))) \<and>
    (\<forall>i < 1024. i \<noteq> unat vaddr div 2 ^ 22 \<longrightarrow>
      pd_get t (mmap_4mb m t vaddr paddr (- 1)) i = pd_get t m i)"
proof -
  have i: "unat vaddr div 2 ^ 22 < 1024" using assms(1) by (simp add: div_less_iff_less_mult)
  have s: "mmap_4mb m t vaddr paddr (- 1) = pd_set t m (unat vaddr div 2 ^ 22)
    (pd4M_make (take_bit 10 (ucast (drop_bit 22 paddr))) default_flags)"
    using mmap_4mb_set [OF assms(1), of m t paddr "- 1"] by (simp only: simp_thms if_True)
  show ?thesis
    unfolding s using i assms(4) pd.get_put [OF i, of _ t m]
    by (auto intro!: walk_mapped_4mb [OF assms(2)])
qed

theorem mmap_4mb_maps_witness:
  "linear2physical_legacy4mb (mmap_4mb (\<lambda>_. 0) 0x20000 0x800000 0xC00000 (- 1)) 0x20000 0x812345 =
    Inr 0xC12345"
  using mmap_4mb_maps [of "0x800000" "0xC00000" "0x812345" "\<lambda>_. 0" "0x20000"]
  by (simp add: PAGE_DOWN_4MB_def PAGE_MASK_4MB_def PAGE_SIZE_4MB_def)

text \<open>C23: \<open>mmap_pml4\<close> maps.  The root table is not at address 0, its entry for the address and the entry of the
  second table are present, these two entries and the page directory entry lie below 256 MB, where
  the monitor can access them, and the page directory entry overlaps neither of the other two (which
  is not so for the tables that the monitor's allocator gives out: they all share a page).  Then the page directory entry
  is the only thing written, and walking the tables afterwards takes the address to the same offset of the
  2 MB physical page, for physical addresses below 2 GB.\<close>

theorem mmap_pml4_maps:
  assumes "unat paddr < 2 ^ 31" and "t \<noteq> 0"
    and "bit (load64 m (slot_2mb t v 39)) 0" and "t3 = next_table (load64 m (slot_2mb t v 39))"
    and "bit (load64 m (slot_2mb t3 v 30)) 0" and "t2 = next_table (load64 m (slot_2mb t3 v 30))"
    and "unat (slot_2mb t v 39) < 2 ^ 28" "unat (slot_2mb t3 v 30) < 2 ^ 28" "unat (slot_2mb t2 v 21) < 2 ^ 28"
    and "disjoint_ranges (slot_2mb t v 39) 8 (slot_2mb t2 v 21) 8"
    and "disjoint_ranges (slot_2mb t3 v 30) 8 (slot_2mb t2 v 21) 8"
  shows "\<exists>m'. mmap_pml4 m host t v paddr u = Some (Inr (m', mmap_lines v paddr)) \<and>
    linear2physical_legacy2mb m' t v = Inr (PAGE_DOWN_2MB paddr + (v AND (PAGE_SIZE_2MB - 1))) \<and>
    (\<forall>x. \<not> in_range (slot_2mb t2 v 21) 8 x \<longrightarrow> m' x = m x)"
  using mmap_2mb_present [OF assms(3-9), of host paddr u] mmap_2mb_walk [OF assms(1-6,10,11), of u]
  by (auto simp: map_pd_entry_leaf store_le_other)

definition example_tables :: mem where
  "example_tables = store64 (store64 (\<lambda>_. 0) 0x20000 0x21007) 0x21000 0x22007"

theorem mmap_pml4_maps_witness:
  "\<exists>m'. mmap_pml4 example_tables \<lparr>alloc_bitmap = 0, max_page = 0\<rparr> 0x20000 0x400000 0x600000 True =
      Some (Inr (m', mmap_lines 0x400000 0x600000)) \<and>
    linear2physical_legacy2mb m' 0x20000 0x400000 = Inr (PAGE_DOWN_2MB 0x600000 + (0x400000 AND (PAGE_SIZE_2MB - 1)))"
proof -
  have l: "load64 example_tables 0x20000 = 0x21007" "load64 example_tables 0x21000 = 0x22007"
    by (simp_all add: example_tables_def mem_simps)
  have s: "slot_2mb 0x20000 0x400000 39 = 0x20000" "slot_2mb 0x21000 0x400000 30 = 0x21000"
    "slot_2mb 0x22000 0x400000 21 = 0x22010" by (simp_all add: slot_2mb_def)
  have n: "next_table 0x21007 = 0x21000" "next_table 0x22007 = 0x22000"
    by (simp_all add: next_table_def non_term_base_def get_field_def)
  have d: "disjoint_ranges 0x20000 8 0x22010 8" "disjoint_ranges 0x21000 8 0x22010 8"
    by (rule disjoint_gap; simp)+
  show ?thesis
    using mmap_pml4_maps [of "0x600000" "0x20000" example_tables "0x400000" "0x21000" "0x22000"
      "\<lparr>alloc_bitmap = 0, max_page = 0\<rparr>" True]
    by (auto simp: s l n d)
qed

text \<open>C24: with paging on and 4 KB pages, \<open>linear_2_physical\<close> is the processor's two-level walk, -1
  standing for an entry that is not present, as long as the entries point below 2 GB; without
  protection or paging it is the identity, and PAE is refused.\<close>

theorem linear_2_physical_arch:
  assumes "walk_low m cr3 la"
  shows "linear_2_physical m cr0 cr3 cr4 la =
    (if \<not> bit cr0 0 then Inr la
     else if bit cr4 5 then fatal_failure ''Converting address in 2mb PAE paging mode not supported yet!''
     else if \<not> bit cr0 31 then Inr la
     else if \<not> bit cr4 4 then Inr (case arch_walk m cr3 la of None \<Rightarrow> - 1 | Some a \<Rightarrow> a)
     else linear2physical_legacy4mb m cr3 la)"
proof -
  have "ctrue (w AND push_bit n 1) \<longleftrightarrow> n < 64 \<and> bit w n" for w :: u64 and n
    using word_and_bit_iff_ctrue [of w n] by simp
  from this [of _ 0] this [of _ 4] this [of _ 5] this [of _ 31]
  show ?thesis
    using walk_4kb_arch [OF assms]
    by (simp add: linear_2_physical_def X86_CR0_PE_def X86_CR0_PG_def X86_CR4_PAE_def X86_CR4_PSE_def)
qed

theorem linear_2_physical_arch_witness:
  "linear_2_physical (\<lambda>_. 0) 0x80000001 0x1000 0 0x12345678 = Inr (- 1)"
proof -
  have z: "load32 (\<lambda>_. 0) a = 0" for a by (rule bit_word_eqI) (simp add: bit_load_le)
  have "walk_low (\<lambda>_. 0) 0x1000 0x12345678" by (simp add: walk_low_def z Let_def)
  from linear_2_physical_arch [OF this, of "0x80000001" 0] show ?thesis
    by (simp add: arch_walk_def z Let_def bit_word_unat)
qed

text \<open>For a 4 MB page from 2 GB on the translation is wrong: the 32-bit shift of
  \<open>baselow\<close> is negative and its sign extension takes \<open>2 ^ 32\<close> off the physical address.\<close>

theorem linear2physical_4mb_sign_extended:
  assumes "load32 m (get_pt_entry4mb t la) = pd4M_make (take_bit 10 b) default_flags" and "bit b 9"
  shows "linear2physical_legacy4mb m t la =
    Inr (ucast (push_bit 22 b) - 2 ^ 32 + (la AND (PAGE_SIZE_4MB - 1)))"
  by (rule walk_4mb_high [OF assms])

theorem linear2physical_4mb_sign_extended_witness:
  "linear2physical_legacy4mb (store32 (\<lambda>_. 0) 0x20000 (pd4M_make (take_bit 10 512) default_flags)) 0x20000 0x1234 =
    Inr 0xFFFFFFFF80001234"
proof -
  have "get_pt_entry4mb 0x20000 0x1234 = 0x20000" by (simp add: get_pt_entry4mb_def)
  then show ?thesis
    using linear2physical_4mb_sign_extended [of "store32 (\<lambda>_. 0) 0x20000 (pd4M_make (take_bit 10 512) default_flags)"
      "0x20000" "0x1234" 512]
    by (simp add: bit_word_unat PAGE_SIZE_4MB_def)
qed

text \<open>A memory of ones satisfies the condition on the allocator.\<close>

lemma low_pages_example:
  "low_pages_taken (\<lambda>_. 0xFF) \<lparr>alloc_bitmap = 0x8100000, max_page = 0x10000\<rparr>"
proof -
  have "page_bit (\<lambda>_. 0xFF) t p" for t p
  proof -
    have "(0xFF :: u8) = - 1" by simp
    then have "bit (0xFF :: u8) k" if "k < 8" for k
      using that by (simp only: bit_minus_1_iff) simp
    then show ?thesis by (simp add: page_bit_def tbl_get_def bit_load_le)
  qed
  then show ?thesis by (simp add: low_pages_taken_def)
qed

text \<open>After boot every page table is allocated at the same address 0x20000, and each allocation
  clears the table that is already there.\<close>

theorem pg_table_alloc_aliases:
  assumes "low_pages_taken m host"
  shows "\<exists>m1 m2. pg_table_alloc m host = Some (Inr (0x20000, m1)) \<and>
    pg_table_alloc (store64 m1 0x20000 e) host = Some (Inr (0x20000, m2)) \<and> load64 m2 0x20000 = 0"
proof -
  obtain m1 where m1: "pg_table_alloc m host = Some (Inr (0x20000, m1))" "low_pages_taken m1 host"
    using pg_table_alloc_20000 [OF assms] by blast
  have "low_pages_taken (store64 m1 0x20000 e) host"
  proof (rule low_pages_frame [OF m1(2)])
    fix x assume "in_range 0x8100000 8 x"
    then have "\<not> in_range 0x20000 4096 x" by (rule page_20000)
    then show "store64 m1 0x20000 e x = m1 x" by (intro store_le_other) (auto simp: in_range_def)
  qed
  then obtain m2 where m2: "pg_table_alloc (store64 m1 0x20000 e) host = Some (Inr (0x20000, m2))"
    "\<And>x. in_range 0x20000 4096 x \<Longrightarrow> m2 x = 0"
    using pg_table_alloc_20000 by blast
  have "load64 m2 0x20000 = (load64 (\<lambda>_. 0) 0x20000 :: u64)"
  proof (rule load_le_cong)
    fix i :: nat assume "i < 8"
    then show "m2 (0x20000 + of_nat i) = 0"
      by (intro m2(2)) (simp add: in_range_def unat_of_nat_u64 del: unat_of_nat)
  qed
  also have "\<dots> = 0" by (rule bit_word_eqI) (simp add: bit_load_le)
  finally show ?thesis using m1(1) m2(1) by blast
qed

theorem pg_table_alloc_aliases_witness:
  "\<exists>m1 m2. pg_table_alloc (\<lambda>_. 0xFF) \<lparr>alloc_bitmap = 0x8100000, max_page = 0x10000\<rparr> = Some (Inr (0x20000, m1)) \<and>
    pg_table_alloc (store64 m1 0x20000 7) \<lparr>alloc_bitmap = 0x8100000, max_page = 0x10000\<rparr> = Some (Inr (0x20000, m2)) \<and>
    load64 m2 0x20000 = 0"
  by (rule pg_table_alloc_aliases [OF low_pages_example])

end
