(* ===== verification/Vmcb.thy ===== *)
theory Vmcb
  imports Paging
begin

text \<open>
  The virtual machine control block: \<open>include/vmcb.h\<close>, \<open>kernel/vmcb.c\<close> and the parts of
  \<open>include/cpu.h\<close>, \<open>include/msr-index.h\<close>, \<open>include/intercept.h\<close> it uses.  The block is a
  record with the fields of \<open>struct vmcb\<close>, without the reserved ones; the unions
  \<open>eventinj_t\<close>, \<open>vintr_t\<close> and \<open>lbrctrl_t\<close> are their 64-bit value.  The enumerations of
  intercept bits and exit codes are lists of names and values.
\<close>

subsection \<open>Data\<close>

record seg_selector =
  sel :: u16
  attrs :: u16
  limit :: u32
  base :: u64

definition zero_seg :: seg_selector where
  "zero_seg = \<lparr>sel = 0, attrs = 0, limit = 0, base = 0\<rparr>"

record vmcb =
  cr_intercepts :: u32
  dr_intercepts :: u32
  exception_intercepts :: u32
  general1_intercepts :: u32
  general2_intercepts :: u32
  pause_filter_count :: u16
  iopm_base_pa :: u64
  msrpm_base_pa :: u64
  tsc_offset :: u64
  guest_asid :: u32
  tlb_control :: u8
  vintr :: u64
  interrupt_shadow :: u64
  exitcode :: u64
  exitinfo1 :: u64
  exitinfo2 :: u64
  exitintinfo :: u64
  np_enable :: u64
  eventinj :: u64
  vmcb_n_cr3 :: u64
  lbr_control :: u64
  nextrip :: u64
  es :: seg_selector
  cs :: seg_selector
  ss :: seg_selector
  ds :: seg_selector
  fs :: seg_selector
  gs :: seg_selector
  gdtr :: seg_selector
  ldtr :: seg_selector
  idtr :: seg_selector
  tr :: seg_selector
  cpl :: u8
  efer :: u64
  cr4 :: u64
  cr3 :: u64
  cr0 :: u64
  dr7 :: u64
  dr6 :: u64
  rflags :: u64
  rip :: u64
  rsp :: u64
  rax :: u64
  star :: u64
  lstar :: u64
  cstar :: u64
  sfmask :: u64
  kerngsbase :: u64
  sysenter_cs :: u64
  sysenter_esp :: u64
  sysenter_eip :: u64
  cr2 :: u64
  pdpe0 :: u64
  pdpe1 :: u64
  pdpe2 :: u64
  pdpe3 :: u64
  g_pat :: u64
  debugctlmsr :: u64
  lastbranchfromip :: u64
  lastbranchtoip :: u64
  lastintfromip :: u64
  lastinttoip :: u64

text \<open>A block filled with zero bytes.\<close>

definition zero_vmcb :: vmcb where
  "zero_vmcb =
    \<lparr>cr_intercepts = 0, dr_intercepts = 0, exception_intercepts = 0, general1_intercepts =
     0, general2_intercepts = 0, pause_filter_count = 0, iopm_base_pa = 0, msrpm_base_pa = 0,
     tsc_offset = 0, guest_asid = 0, tlb_control = 0, vintr = 0, interrupt_shadow = 0, exitcode = 0,
     exitinfo1 = 0, exitinfo2 = 0, exitintinfo = 0, np_enable = 0, eventinj = 0, vmcb_n_cr3 = 0,
     lbr_control = 0, nextrip = 0, es = zero_seg, cs = zero_seg, ss = zero_seg, ds = zero_seg, fs =
     zero_seg, gs = zero_seg, gdtr = zero_seg, ldtr = zero_seg, idtr = zero_seg, tr = zero_seg, cpl
     = 0, efer = 0, cr4 = 0, cr3 = 0, cr0 = 0, dr7 = 0, dr6 = 0, rflags = 0, rip = 0, rsp = 0, rax =
     0, star = 0, lstar = 0, cstar = 0, sfmask = 0, kerngsbase = 0, sysenter_cs = 0, sysenter_esp =
     0, sysenter_eip = 0, cr2 = 0, pdpe0 = 0, pdpe1 = 0, pdpe2 = 0, pdpe3 = 0, g_pat = 0,
     debugctlmsr = 0, lastbranchfromip = 0, lastbranchtoip = 0, lastintfromip = 0, lastinttoip =
     0\<rparr>"

subsection \<open>Intercept bits and exit codes\<close>

definition GenericIntercept1bits :: "(string \<times> u32) list" where
  "GenericIntercept1bits = [
     (''GENERAL1_INTERCEPT_INTR'', push_bit 0 1),
     (''GENERAL1_INTERCEPT_NMI'', push_bit 1 1),
     (''GENERAL1_INTERCEPT_SMI'', push_bit 2 1),
     (''GENERAL1_INTERCEPT_INIT'', push_bit 3 1),
     (''GENERAL1_INTERCEPT_VINTR'', push_bit 4 1),
     (''GENERAL1_INTERCEPT_CR0_SEL_WRITE'', push_bit 5 1),
     (''GENERAL1_INTERCEPT_IDTR_READ'', push_bit 6 1),
     (''GENERAL1_INTERCEPT_GDTR_READ'', push_bit 7 1),
     (''GENERAL1_INTERCEPT_LDTR_READ'', push_bit 8 1),
     (''GENERAL1_INTERCEPT_TR_READ'', push_bit 9 1),
     (''GENERAL1_INTERCEPT_IDTR_WRITE'', push_bit 10 1),
     (''GENERAL1_INTERCEPT_GDTR_WRITE'', push_bit 11 1),
     (''GENERAL1_INTERCEPT_LDTR_WRITE'', push_bit 12 1),
     (''GENERAL1_INTERCEPT_TR_WRITE'', push_bit 13 1),
     (''GENERAL1_INTERCEPT_RDTSC'', push_bit 14 1),
     (''GENERAL1_INTERCEPT_RDPMC'', push_bit 15 1),
     (''GENERAL1_INTERCEPT_PUSHF'', push_bit 16 1),
     (''GENERAL1_INTERCEPT_POPF'', push_bit 17 1),
     (''GENERAL1_INTERCEPT_CPUID'', push_bit 18 1),
     (''GENERAL1_INTERCEPT_RSM'', push_bit 19 1),
     (''GENERAL1_INTERCEPT_IRET'', push_bit 20 1),
     (''GENERAL1_INTERCEPT_SWINT'', push_bit 21 1),
     (''GENERAL1_INTERCEPT_INVD'', push_bit 22 1),
     (''GENERAL1_INTERCEPT_PAUSE'', push_bit 23 1),
     (''GENERAL1_INTERCEPT_HLT'', push_bit 24 1),
     (''GENERAL1_INTERCEPT_INVLPG'', push_bit 25 1),
     (''GENERAL1_INTERCEPT_INVLPGA'', push_bit 26 1),
     (''GENERAL1_INTERCEPT_IOIO_PROT'', push_bit 27 1),
     (''GENERAL1_INTERCEPT_MSR_PROT'', push_bit 28 1),
     (''GENERAL1_INTERCEPT_TASK_SWITCH'', push_bit 29 1),
     (''GENERAL1_INTERCEPT_FERR_FREEZE'', push_bit 30 1),
     (''GENERAL1_INTERCEPT_SHUTDOWN_EVT'', push_bit 31 1)]"

definition GenericIntercept2bits :: "(string \<times> u32) list" where
  "GenericIntercept2bits = [
     (''GENERAL2_INTERCEPT_VMRUN'', push_bit 0 1),
     (''GENERAL2_INTERCEPT_VMMCALL'', push_bit 1 1),
     (''GENERAL2_INTERCEPT_VMLOAD'', push_bit 2 1),
     (''GENERAL2_INTERCEPT_VMSAVE'', push_bit 3 1),
     (''GENERAL2_INTERCEPT_STGI'', push_bit 4 1),
     (''GENERAL2_INTERCEPT_CLGI'', push_bit 5 1),
     (''GENERAL2_INTERCEPT_SKINIT'', push_bit 6 1),
     (''GENERAL2_INTERCEPT_RDTSCP'', push_bit 7 1),
     (''GENERAL2_INTERCEPT_ICEBP'', push_bit 8 1),
     (''GENERAL2_INTERCEPT_WBINVD'', push_bit 9 1),
     (''GENERAL2_INTERCEPT_MONITOR'', push_bit 10 1),
     (''GENERAL2_INTERCEPT_MWAIT'', push_bit 11 1),
     (''GENERAL2_INTERCEPT_MWAIT_CONDITIONAL'', push_bit 12 1)]"

definition CRInterceptBits :: "(string \<times> u32) list" where
  "CRInterceptBits = [
     (''CR_INTERCEPT_CR0_READ'', push_bit 0 1),
     (''CR_INTERCEPT_CR1_READ'', push_bit 1 1),
     (''CR_INTERCEPT_CR2_READ'', push_bit 2 1),
     (''CR_INTERCEPT_CR3_READ'', push_bit 3 1),
     (''CR_INTERCEPT_CR4_READ'', push_bit 4 1),
     (''CR_INTERCEPT_CR5_READ'', push_bit 5 1),
     (''CR_INTERCEPT_CR6_READ'', push_bit 6 1),
     (''CR_INTERCEPT_CR7_READ'', push_bit 7 1),
     (''CR_INTERCEPT_CR8_READ'', push_bit 8 1),
     (''CR_INTERCEPT_CR9_READ'', push_bit 9 1),
     (''CR_INTERCEPT_CR10_READ'', push_bit 10 1),
     (''CR_INTERCEPT_CR11_READ'', push_bit 11 1),
     (''CR_INTERCEPT_CR12_READ'', push_bit 12 1),
     (''CR_INTERCEPT_CR13_READ'', push_bit 13 1),
     (''CR_INTERCEPT_CR14_READ'', push_bit 14 1),
     (''CR_INTERCEPT_CR15_READ'', push_bit 15 1),
     (''CR_INTERCEPT_CR0_WRITE'', push_bit 16 1),
     (''CR_INTERCEPT_CR1_WRITE'', push_bit 17 1),
     (''CR_INTERCEPT_CR2_WRITE'', push_bit 18 1),
     (''CR_INTERCEPT_CR3_WRITE'', push_bit 19 1),
     (''CR_INTERCEPT_CR4_WRITE'', push_bit 20 1),
     (''CR_INTERCEPT_CR5_WRITE'', push_bit 21 1),
     (''CR_INTERCEPT_CR6_WRITE'', push_bit 22 1),
     (''CR_INTERCEPT_CR7_WRITE'', push_bit 23 1),
     (''CR_INTERCEPT_CR8_WRITE'', push_bit 24 1),
     (''CR_INTERCEPT_CR9_WRITE'', push_bit 25 1),
     (''CR_INTERCEPT_CR10_WRITE'', push_bit 26 1),
     (''CR_INTERCEPT_CR11_WRITE'', push_bit 27 1),
     (''CR_INTERCEPT_CR12_WRITE'', push_bit 28 1),
     (''CR_INTERCEPT_CR13_WRITE'', push_bit 29 1),
     (''CR_INTERCEPT_CR14_WRITE'', push_bit 30 1),
     (''CR_INTERCEPT_CR15_WRITE'', push_bit 31 1)]"

definition DRInterceptBits :: "(string \<times> u32) list" where
  "DRInterceptBits = [
     (''DR_INTERCEPT_DR0_READ'', push_bit 0 1),
     (''DR_INTERCEPT_DR1_READ'', push_bit 1 1),
     (''DR_INTERCEPT_DR2_READ'', push_bit 2 1),
     (''DR_INTERCEPT_DR3_READ'', push_bit 3 1),
     (''DR_INTERCEPT_DR4_READ'', push_bit 4 1),
     (''DR_INTERCEPT_DR5_READ'', push_bit 5 1),
     (''DR_INTERCEPT_DR6_READ'', push_bit 6 1),
     (''DR_INTERCEPT_DR7_READ'', push_bit 7 1),
     (''DR_INTERCEPT_DR8_READ'', push_bit 8 1),
     (''DR_INTERCEPT_DR9_READ'', push_bit 9 1),
     (''DR_INTERCEPT_DR10_READ'', push_bit 10 1),
     (''DR_INTERCEPT_DR11_READ'', push_bit 11 1),
     (''DR_INTERCEPT_DR12_READ'', push_bit 12 1),
     (''DR_INTERCEPT_DR13_READ'', push_bit 13 1),
     (''DR_INTERCEPT_DR14_READ'', push_bit 14 1),
     (''DR_INTERCEPT_DR15_READ'', push_bit 15 1),
     (''DR_INTERCEPT_DR0_WRITE'', push_bit 16 1),
     (''DR_INTERCEPT_DR1_WRITE'', push_bit 17 1),
     (''DR_INTERCEPT_DR2_WRITE'', push_bit 18 1),
     (''DR_INTERCEPT_DR3_WRITE'', push_bit 19 1),
     (''DR_INTERCEPT_DR4_WRITE'', push_bit 20 1),
     (''DR_INTERCEPT_DR5_WRITE'', push_bit 21 1),
     (''DR_INTERCEPT_DR6_WRITE'', push_bit 22 1),
     (''DR_INTERCEPT_DR7_WRITE'', push_bit 23 1),
     (''DR_INTERCEPT_DR8_WRITE'', push_bit 24 1),
     (''DR_INTERCEPT_DR9_WRITE'', push_bit 25 1),
     (''DR_INTERCEPT_DR10_WRITE'', push_bit 26 1),
     (''DR_INTERCEPT_DR11_WRITE'', push_bit 27 1),
     (''DR_INTERCEPT_DR12_WRITE'', push_bit 28 1),
     (''DR_INTERCEPT_DR13_WRITE'', push_bit 29 1),
     (''DR_INTERCEPT_DR14_WRITE'', push_bit 30 1),
     (''DR_INTERCEPT_DR15_WRITE'', push_bit 31 1)]"

definition VMEXIT_EXITCODE :: "(string \<times> u64) list" where
  "VMEXIT_EXITCODE = [
     (''VMEXIT_CR0_READ'', 0),
     (''VMEXIT_CR1_READ'', 1),
     (''VMEXIT_CR2_READ'', 2),
     (''VMEXIT_CR3_READ'', 3),
     (''VMEXIT_CR4_READ'', 4),
     (''VMEXIT_CR5_READ'', 5),
     (''VMEXIT_CR6_READ'', 6),
     (''VMEXIT_CR7_READ'', 7),
     (''VMEXIT_CR8_READ'', 8),
     (''VMEXIT_CR9_READ'', 9),
     (''VMEXIT_CR10_READ'', 10),
     (''VMEXIT_CR11_READ'', 11),
     (''VMEXIT_CR12_READ'', 12),
     (''VMEXIT_CR13_READ'', 13),
     (''VMEXIT_CR14_READ'', 14),
     (''VMEXIT_CR15_READ'', 15),
     (''VMEXIT_CR0_WRITE'', 16),
     (''VMEXIT_CR1_WRITE'', 17),
     (''VMEXIT_CR2_WRITE'', 18),
     (''VMEXIT_CR3_WRITE'', 19),
     (''VMEXIT_CR4_WRITE'', 20),
     (''VMEXIT_CR5_WRITE'', 21),
     (''VMEXIT_CR6_WRITE'', 22),
     (''VMEXIT_CR7_WRITE'', 23),
     (''VMEXIT_CR8_WRITE'', 24),
     (''VMEXIT_CR9_WRITE'', 25),
     (''VMEXIT_CR10_WRITE'', 26),
     (''VMEXIT_CR11_WRITE'', 27),
     (''VMEXIT_CR12_WRITE'', 28),
     (''VMEXIT_CR13_WRITE'', 29),
     (''VMEXIT_CR14_WRITE'', 30),
     (''VMEXIT_CR15_WRITE'', 31),
     (''VMEXIT_DR0_READ'', 32),
     (''VMEXIT_DR1_READ'', 33),
     (''VMEXIT_DR2_READ'', 34),
     (''VMEXIT_DR3_READ'', 35),
     (''VMEXIT_DR4_READ'', 36),
     (''VMEXIT_DR5_READ'', 37),
     (''VMEXIT_DR6_READ'', 38),
     (''VMEXIT_DR7_READ'', 39),
     (''VMEXIT_DR8_READ'', 40),
     (''VMEXIT_DR9_READ'', 41),
     (''VMEXIT_DR10_READ'', 42),
     (''VMEXIT_DR11_READ'', 43),
     (''VMEXIT_DR12_READ'', 44),
     (''VMEXIT_DR13_READ'', 45),
     (''VMEXIT_DR14_READ'', 46),
     (''VMEXIT_DR15_READ'', 47),
     (''VMEXIT_DR0_WRITE'', 48),
     (''VMEXIT_DR1_WRITE'', 49),
     (''VMEXIT_DR2_WRITE'', 50),
     (''VMEXIT_DR3_WRITE'', 51),
     (''VMEXIT_DR4_WRITE'', 52),
     (''VMEXIT_DR5_WRITE'', 53),
     (''VMEXIT_DR6_WRITE'', 54),
     (''VMEXIT_DR7_WRITE'', 55),
     (''VMEXIT_DR8_WRITE'', 56),
     (''VMEXIT_DR9_WRITE'', 57),
     (''VMEXIT_DR10_WRITE'', 58),
     (''VMEXIT_DR11_WRITE'', 59),
     (''VMEXIT_DR12_WRITE'', 60),
     (''VMEXIT_DR13_WRITE'', 61),
     (''VMEXIT_DR14_WRITE'', 62),
     (''VMEXIT_DR15_WRITE'', 63),
     (''VMEXIT_EXCEPTION_DE'', 64),
     (''VMEXIT_EXCEPTION_DB'', 65),
     (''VMEXIT_EXCEPTION_NMI'', 66),
     (''VMEXIT_EXCEPTION_BP'', 67),
     (''VMEXIT_EXCEPTION_OF'', 68),
     (''VMEXIT_EXCEPTION_BR'', 69),
     (''VMEXIT_EXCEPTION_UD'', 70),
     (''VMEXIT_EXCEPTION_NM'', 71),
     (''VMEXIT_EXCEPTION_DF'', 72),
     (''VMEXIT_EXCEPTION_09'', 73),
     (''VMEXIT_EXCEPTION_TS'', 74),
     (''VMEXIT_EXCEPTION_NP'', 75),
     (''VMEXIT_EXCEPTION_SS'', 76),
     (''VMEXIT_EXCEPTION_GP'', 77),
     (''VMEXIT_EXCEPTION_PF'', 78),
     (''VMEXIT_EXCEPTION_15'', 79),
     (''VMEXIT_EXCEPTION_MF'', 80),
     (''VMEXIT_EXCEPTION_AC'', 81),
     (''VMEXIT_EXCEPTION_MC'', 82),
     (''VMEXIT_EXCEPTION_XF'', 83),
     (''VMEXIT_INTR'', 96),
     (''VMEXIT_NMI'', 97),
     (''VMEXIT_SMI'', 98),
     (''VMEXIT_INIT'', 99),
     (''VMEXIT_VINTR'', 100),
     (''VMEXIT_CR0_SEL_WRITE'', 101),
     (''VMEXIT_IDTR_READ'', 102),
     (''VMEXIT_GDTR_READ'', 103),
     (''VMEXIT_LDTR_READ'', 104),
     (''VMEXIT_TR_READ'', 105),
     (''VMEXIT_IDTR_WRITE'', 106),
     (''VMEXIT_GDTR_WRITE'', 107),
     (''VMEXIT_LDTR_WRITE'', 108),
     (''VMEXIT_TR_WRITE'', 109),
     (''VMEXIT_RDTSC'', 110),
     (''VMEXIT_RDPMC'', 111),
     (''VMEXIT_PUSHF'', 112),
     (''VMEXIT_POPF'', 113),
     (''VMEXIT_CPUID'', 114),
     (''VMEXIT_RSM'', 115),
     (''VMEXIT_IRET'', 116),
     (''VMEXIT_SWINT'', 117),
     (''VMEXIT_INVD'', 118),
     (''VMEXIT_PAUSE'', 119),
     (''VMEXIT_HLT'', 120),
     (''VMEXIT_INVLPG'', 121),
     (''VMEXIT_INVLPGA'', 122),
     (''VMEXIT_IOIO'', 123),
     (''VMEXIT_MSR'', 124),
     (''VMEXIT_TASK_SWITCH'', 125),
     (''VMEXIT_FERR_FREEZE'', 126),
     (''VMEXIT_SHUTDOWN'', 127),
     (''VMEXIT_VMRUN'', 128),
     (''VMEXIT_VMMCALL'', 129),
     (''VMEXIT_VMLOAD'', 130),
     (''VMEXIT_VMSAVE'', 131),
     (''VMEXIT_STGI'', 132),
     (''VMEXIT_CLGI'', 133),
     (''VMEXIT_SKINIT'', 134),
     (''VMEXIT_RDTSCP'', 135),
     (''VMEXIT_ICEBP'', 136),
     (''VMEXIT_WBINVD'', 137),
     (''VMEXIT_MONITOR'', 138),
     (''VMEXIT_MWAIT'', 139),
     (''VMEXIT_MWAIT_CONDITIONAL'', 140),
     (''VMEXIT_NPF'', 1024),
     (''VMEXIT_INVALID'', - 1)]"

text \<open>The exit codes the handlers name.\<close>

definition VMEXIT_CR3_WRITE :: u64 where "VMEXIT_CR3_WRITE = 19"
definition VMEXIT_EXCEPTION_DE :: u64 where "VMEXIT_EXCEPTION_DE = 64"
definition VMEXIT_EXCEPTION_DB :: u64 where "VMEXIT_EXCEPTION_DB = 65"
definition VMEXIT_EXCEPTION_TS :: u64 where "VMEXIT_EXCEPTION_TS = 74"
definition VMEXIT_EXCEPTION_GP :: u64 where "VMEXIT_EXCEPTION_GP = 77"
definition VMEXIT_EXCEPTION_PF :: u64 where "VMEXIT_EXCEPTION_PF = 78"
definition VMEXIT_EXCEPTION_XF :: u64 where "VMEXIT_EXCEPTION_XF = 83"
definition VMEXIT_POPF :: u64 where "VMEXIT_POPF = 113"
definition VMEXIT_IRET :: u64 where "VMEXIT_IRET = 116"
definition VMEXIT_SWINT :: u64 where "VMEXIT_SWINT = 117"
definition VMEXIT_MSR :: u64 where "VMEXIT_MSR = 124"
definition VMEXIT_VMMCALL :: u64 where "VMEXIT_VMMCALL = 129"
definition VMEXIT_NPF :: u64 where "VMEXIT_NPF = 1024"
definition VMEXIT_INVALID :: u64 where "VMEXIT_INVALID = - 1"

definition EVENT_TYPE_EXCEPTION :: u64 where "EVENT_TYPE_EXCEPTION = 3"
definition EVENT_TYPE_SWINT :: u64 where "EVENT_TYPE_SWINT = 4"

text \<open>The fields of \<open>eventinj_t\<close>: vector 0-7, type 8-10, ev 11, v 31, errorcode 32-63.\<close>

definition ev_vector :: "u64 \<Rightarrow> u64" where "ev_vector e = get_field e 0 8"
definition ev_type :: "u64 \<Rightarrow> u64" where "ev_type e = get_field e 8 3"
definition ev_ev :: "u64 \<Rightarrow> u64" where "ev_ev e = get_field e 11 1"
definition ev_v :: "u64 \<Rightarrow> u64" where "ev_v e = get_field e 31 1"
definition ev_errorcode :: "u64 \<Rightarrow> u64" where "ev_errorcode e = get_field e 32 32"

text \<open>The intercept flags of \<open>include/intercept.h\<close>.\<close>

definition INTRCPT_WRITE_CR3 :: u32 where "INTRCPT_WRITE_CR3 = push_bit (16 + 3) 1"
definition INTRCPT_DB :: u32 where "INTRCPT_DB = push_bit 1 1"
definition INTRCPT_PF :: u32 where "INTRCPT_PF = push_bit 14 1"
definition INTRCPT_IRET :: u32 where "INTRCPT_IRET = push_bit 20 1"
definition INTRCPT_POPF :: u32 where "INTRCPT_POPF = push_bit 17 1"
definition INTRCPT_INTN :: u32 where "INTRCPT_INTN = push_bit 21 1"
definition INTRCPT_VMRUN :: u32 where "INTRCPT_VMRUN = push_bit 0 1"
definition INTRCPT_VMMCALL :: u32 where "INTRCPT_VMMCALL = push_bit 1 1"

definition X86_RFLAGS_TF :: u64 where "X86_RFLAGS_TF = 0x00000100"
definition X86_CR0_NW :: u64 where "X86_CR0_NW = 0x20000000"
definition X86_CR0_CD :: u64 where "X86_CR0_CD = 0x40000000"
definition X86_DR6_BS :: u64 where "X86_DR6_BS = push_bit 14 1"
definition EFER_LME :: u64 where "EFER_LME = push_bit 8 1"
definition EFER_LMA :: u64 where "EFER_LMA = push_bit 10 1"
definition EFER_SVME :: u64 where "EFER_SVME = push_bit 12 1"

subsection \<open>The consistency checks\<close>

definition BIT_MASK :: "nat \<Rightarrow> u64" where "BIT_MASK n = NOT (push_bit n (NOT 0))"
definition SUB_BIT :: "u64 \<Rightarrow> nat \<Rightarrow> nat \<Rightarrow> u64" where
  "SUB_BIT x start len = drop_bit start x AND BIT_MASK len"

text \<open>A check returns an \<open>int\<close>; a 64-bit value is cut to 32 bits on return.\<close>

definition of_bool32 :: "bool \<Rightarrow> u32" where "of_bool32 b = (if b then 1 else 0)"

definition check_efer_svme :: "vmcb \<Rightarrow> u32" where
  "check_efer_svme v = of_bool32 (\<not> ctrue (efer v AND EFER_SVME))"
definition check_cr0cd_cr0nw :: "vmcb \<Rightarrow> u32" where
  "check_cr0cd_cr0nw v = of_bool32 (\<not> ctrue (cr0 v AND X86_CR0_CD) \<and> ctrue (cr0 v AND X86_CR0_NW))"
definition check_cr0_32_63 :: "vmcb \<Rightarrow> u32" where
  "check_cr0_32_63 v = to_int (SUB_BIT (cr0 v) 32 32)"
definition check_cr4_11_63 :: "vmcb \<Rightarrow> u32" where
  "check_cr4_11_63 v = to_int (SUB_BIT (cr4 v) 11 53)"
definition check_dr6_32_63 :: "vmcb \<Rightarrow> u32" where
  "check_dr6_32_63 v = to_int (SUB_BIT (dr6 v) 32 32)"
definition check_dr7_32_63 :: "vmcb \<Rightarrow> u32" where
  "check_dr7_32_63 v = to_int (SUB_BIT (dr7 v) 32 32)"
definition check_efer_15_63 :: "vmcb \<Rightarrow> u32" where
  "check_efer_15_63 v = to_int (SUB_BIT (efer v) 15 49)"
definition check_eferlme_cr0pg_cr4pae :: "vmcb \<Rightarrow> u32" where
  "check_eferlme_cr0pg_cr4pae v =
     of_bool32 (ctrue (efer v AND EFER_LME) \<and> ctrue (cr0 v AND X86_CR0_PG) \<and>
       \<not> ctrue (cr4 v AND X86_CR4_PAE))"
definition check_eferlme_cr0pg_cr0pe :: "vmcb \<Rightarrow> u32" where
  "check_eferlme_cr0pg_cr0pe v =
     of_bool32 (ctrue (efer v AND EFER_LME) \<and> ctrue (cr0 v AND X86_CR0_PG) \<and>
       \<not> ctrue (cr0 v AND X86_CR0_PE))"
definition check_eferlme_cr0pg_cr4pae_csl_csd :: "vmcb \<Rightarrow> u32" where
  "check_eferlme_cr0pg_cr4pae_csl_csd v =
     of_bool32 (ctrue (efer v AND EFER_LME) \<and> ctrue (cr0 v AND X86_CR0_PG) \<and>
       ctrue (cr4 v AND X86_CR4_PAE) \<and>
       ctrue (get_field (attrs (cs v)) 9 1) \<and> ctrue (get_field (attrs (cs v)) 10 1))"
definition check_vmrun_intercept :: "vmcb \<Rightarrow> u32" where
  "check_vmrun_intercept v = of_bool32 (\<not> ctrue (general2_intercepts v AND INTRCPT_VMRUN))"
definition check_msr_ioio_intercept_tables :: "vmcb \<Rightarrow> u32" where
  "check_msr_ioio_intercept_tables v = 0"

definition consistency_tbl :: "((vmcb \<Rightarrow> u32) \<times> string) list" where
  "consistency_tbl =
     [(check_efer_svme, line ''EFER.SVME is not set.''),
      (check_cr0cd_cr0nw, line ''CR0.CD is not set, and CR0.NW is set.''),
      (check_cr0_32_63, line ''CR0[32:63] are not zero.''),
      (check_cr4_11_63, line ''CR4[11:63] are not zero.''),
      (check_dr6_32_63, line ''DR6[32:63] are not zero.''),
      (check_dr7_32_63, line ''DR7[32:63] are not zero.''),
      (check_efer_15_63, line ''EFER[15:63] are not zero.''),
      (check_eferlme_cr0pg_cr4pae, line ''EFER.LME is set, CR0.PG is set, and CR4.PAE is not set.''),
      (check_eferlme_cr0pg_cr0pe, line ''EFER.LME is set, CR0.PG is set, and CR4.PE is not set.''),
      (check_eferlme_cr0pg_cr4pae_csl_csd, line ''EFER.LME, CR0.PG, CR4.PAE, CS.L, and CS.D are set.''),
      (check_vmrun_intercept, line ''The VMRUN intercept bit is clear.''),
      (check_msr_ioio_intercept_tables, line ''Wrong The MSR or IOIO intercept tables address.'')]"

text \<open>The loop over the table: the output before the fatal failure, or none.\<close>

primrec run_checks :: "vmcb \<Rightarrow> ((vmcb \<Rightarrow> u32) \<times> string) list \<Rightarrow> out_call list \<times> unit res" where
  "run_checks v [] = ([], Inr ())"
| "run_checks v (c # tbl) =
     (if ctrue (fst c v) then ([(snd c, [])], fatal_failure (line ''Consistency check failed.''))
      else run_checks v tbl)"

definition vmcb_check_consistency :: "vmcb \<Rightarrow> out_call list \<times> unit res" where
  "vmcb_check_consistency v = run_checks v consistency_tbl"

subsection \<open>Traces\<close>

definition seg_selector_dump :: "string \<Rightarrow> seg_selector \<Rightarrow> out_call list" where
  "seg_selector_dump name s =
     [(line ''%s: sel=%x, attr=%x, limit=%x, base=%x'',
       [ArgS name, ArgX (ucast (sel s)), ArgX (ucast (attrs s)), ArgX (ucast (limit s)), ArgX (base s)])]"

text \<open>\<open>sizeof (struct vmcb)\<close> is 4096; \<open>p\<close> is the address of the block.\<close>

definition vmcb_dump :: "u64 \<Rightarrow> vmcb \<Rightarrow> out_call list" where
  "vmcb_dump p v =
     [(line (''Dumping guest'' @ [CHR 0x27] @ ''s current state''), []),
      (line ''Size of VMCB = %x, address = %x'', [ArgX 4096, ArgX p]),
      (line ''cr_intercepts = %x dr_intercepts = %x exception_intercepts = %x'',
        [ArgX (ucast (cr_intercepts v)), ArgX (ucast (dr_intercepts v)), ArgX (ucast (exception_intercepts v))]),
      (line ''general1_intercepts = %x general2_intercepts = %x'',
        [ArgX (ucast (general1_intercepts v)), ArgX (ucast (general2_intercepts v))]),
      (line ''iopm_base_pa = %x msrpm_base_pa = %x tsc_offset = %x'',
        [ArgX (iopm_base_pa v), ArgX (msrpm_base_pa v), ArgX (tsc_offset v)]),
      (line ''tlb_control = %x vintr = %x interrupt_shadow = %x'',
        [ArgX (ucast (tlb_control v)), ArgX (vintr v), ArgX (interrupt_shadow v)]),
      (line ''exitcode = %x exitintinfo = %x'', [ArgX (exitcode v), ArgX (exitintinfo v)]),
      (line ''exitinfo1 = %x exitinfo2 = %x '', [ArgX (exitinfo1 v), ArgX (exitinfo2 v)]),
      (line ''np_enable = %x guest_asid = %x'', [ArgX (np_enable v), ArgX (ucast (guest_asid v))]),
      (line ''cpl = %x efer = %x star = %x lstar = %x'',
        [ArgX (ucast (cpl v)), ArgX (efer v), ArgX (star v), ArgX (lstar v)]),
      (line ''CR0 = %x CR2 = %x'', [ArgX (cr0 v), ArgX (cr2 v)]),
      (line ''CR3 = %x CR4 = %x'', [ArgX (cr3 v), ArgX (cr4 v)]),
      (line ''RSP = %x  RIP = %x'', [ArgX (rsp v), ArgX (rip v)]),
      (line ''RAX = %x  RFLAGS=%x'', [ArgX (rax v), ArgX (rflags v)]),
      (line ''DR6 = %x, DR7 = %x'', [ArgX (dr6 v), ArgX (dr7 v)]),
      (line ''CSTAR = %x SFMask = %x'', [ArgX (cstar v), ArgX (sfmask v)]),
      (line ''KernGSBase = %x PAT = %x '', [ArgX (kerngsbase v), ArgX (g_pat v)])]
     @ seg_selector_dump ''CS'' (cs v) @ seg_selector_dump ''DS'' (ds v)
     @ seg_selector_dump ''SS'' (ss v) @ seg_selector_dump ''ES'' (es v)
     @ seg_selector_dump ''FS'' (fs v) @ seg_selector_dump ''GS'' (gs v)
     @ seg_selector_dump ''GDTR'' (gdtr v) @ seg_selector_dump ''LDTR'' (ldtr v)
     @ seg_selector_dump ''IDTR'' (idtr v) @ seg_selector_dump ''TR'' (tr v)"

definition print_vmexit_exitcode :: "vmcb \<Rightarrow> out_call list" where
  "print_vmexit_exitcode v =
     [(''#VMEXIT: '', []),
      if exitcode v = VMEXIT_EXCEPTION_PF then (''EXCP (page fault)'', [])
      else if exitcode v = VMEXIT_NPF then (''NPF (nested-paging: host-level page fault)'', [])
      else if exitcode v = VMEXIT_INVALID then (''INVALID'', [])
      else (''%x'', [ArgX (exitcode v)]),
      (line [], []),
      (''exitinfo1 (error_code) = %x, '', [ArgX (exitinfo1 v)]),
      (''exitinfo2 = %x, '', [ArgX (exitinfo2 v)]),
      (line ''exitINTinfo = %x'', [ArgX (exitintinfo v)])]"

text \<open>The two last messages run over two source lines; the tabs of the second are in the literal.\<close>

definition print_page_errorcode :: "u64 \<Rightarrow> out_call list" where
  "print_page_errorcode errcode =
     [(if ctrue (errcode AND 1) then line ''page fault was caused by a page-protection violation''
       else line ''page fault was caused by a not-present page'', []),
      (if ctrue (errcode AND 2) then line ''memory access was write''
       else line ''memory access was read'', []),
      (if ctrue (errcode AND 4) then line ''an access in user mode caused the page fault''
       else line ''an access in supervisor mode caused the page fault'', [])]
     @ (if ctrue (errcode AND 8)
        then [(''error caused by reading a '' @ [CHR 0x27, CHR ''1'', CHR 0x27] @ '' from reserved field, ''
               @ replicate 3 (CHR 0x09) @ line ''when CR4.PSE=1 or CR4.PAE=1'', [])] else [])
     @ (if ctrue (errcode AND 16)
        then [(''error caused by instruction fetch, when '' @ replicate 3 (CHR 0x09)
               @ ''EFER.NXE=1 && CR4.PAE=1'', [])] else [])"

subsection \<open>What the checks accept\<close>

lemma ctrue_of_bool32 [simp]: "ctrue (of_bool32 b) \<longleftrightarrow> b"
  by (simp add: of_bool32_def ctrue_def)

lemma and_flag: "ctrue (w AND push_bit n 1) \<longleftrightarrow> n < 64 \<and> bit w n" for w :: u64
  using word_and_bit_iff_ctrue [of w n] by simp

lemma flag_bits:
  "ctrue (w AND EFER_SVME) \<longleftrightarrow> bit w 12"
  "ctrue (w AND EFER_LME) \<longleftrightarrow> bit w 8"
  "ctrue (w AND X86_CR0_CD) \<longleftrightarrow> bit w 30"
  "ctrue (w AND X86_CR0_NW) \<longleftrightarrow> bit w 29"
  "ctrue (w AND X86_CR0_PG) \<longleftrightarrow> bit w 31"
  "ctrue (w AND X86_CR0_PE) \<longleftrightarrow> bit w 0"
  "ctrue (w AND X86_CR4_PAE) \<longleftrightarrow> bit w 5"
  using and_flag [of w 12] and_flag [of w 8] and_flag [of w 30] and_flag [of w 29] and_flag [of w 31]
    and_flag [of w 0] and_flag [of w 5]
  by (simp_all add: EFER_SVME_def EFER_LME_def X86_CR0_CD_def X86_CR0_NW_def X86_CR0_PG_def
      X86_CR0_PE_def X86_CR4_PAE_def)

lemma vmrun_bit: "ctrue (w AND INTRCPT_VMRUN) \<longleftrightarrow> bit w 0"
  using word_and_bit_iff_ctrue [of w 0] by (simp add: INTRCPT_VMRUN_def)

lemma bit_SUB_BIT: "bit (SUB_BIT x start len) k \<longleftrightarrow> k < len \<and> bit x (start + k)"
  by (auto simp: SUB_BIT_def BIT_MASK_def bit_simps dest: bit_imp_le_length)

text \<open>The conversion to \<open>int\<close> leaves 32 of the bits that the check names.\<close>

lemma ctrue_SUB_BIT: "ctrue (to_int (SUB_BIT x start len)) \<longleftrightarrow> (\<exists>k < min len 32. bit x (start + k))"
proof -
  have "to_int (SUB_BIT x start len) = 0 \<longleftrightarrow> (\<forall>k. \<not> (k < 32 \<and> k < len \<and> bit x (start + k)))"
    by (auto simp: bit_eq_iff to_int_def bit_simps bit_SUB_BIT)
  then show ?thesis by (auto simp: ctrue_def)
qed

lemma get_field_bit: "ctrue (get_field w n 1) \<longleftrightarrow> bit w n" for w :: "'a::len word"
proof -
  have "get_field w n 1 = of_bool (bit w n)"
    by (simp add: get_field_def mod_2_eq_odd bit_iff_odd_drop_bit)
  then show ?thesis by (simp add: ctrue_def)
qed

lemma run_checks_ok:
  "snd (run_checks v tbl) = Inr () \<longleftrightarrow> (\<forall>c \<in> set tbl. \<not> ctrue (fst c v))"
  "run_checks v tbl = ([], Inr ()) \<longleftrightarrow> (\<forall>c \<in> set tbl. \<not> ctrue (fst c v))"
  by (induction tbl) auto

lemma SUB_BIT_clear:
  "\<not> ctrue (to_int (SUB_BIT x start len)) \<longleftrightarrow>
    (\<forall>k. start \<le> k \<and> k < start + min len 32 \<longrightarrow> \<not> bit x k)"
  unfolding ctrue_SUB_BIT by (metis add_less_cancel_left le_add1 le_iff_add)

text \<open>A state the checks accept, bit by bit.\<close>

definition accepted_state :: "vmcb \<Rightarrow> bool" where
  "accepted_state v \<longleftrightarrow>
     bit (efer v) 12 \<and> (bit (cr0 v) 29 \<longrightarrow> bit (cr0 v) 30) \<and>
     (\<forall>k. 32 \<le> k \<and> k < 64 \<longrightarrow> \<not> bit (cr0 v) k) \<and>
     (\<forall>k. 11 \<le> k \<and> k < 43 \<longrightarrow> \<not> bit (cr4 v) k) \<and>
     (\<forall>k. 32 \<le> k \<and> k < 64 \<longrightarrow> \<not> bit (dr6 v) k) \<and>
     (\<forall>k. 32 \<le> k \<and> k < 64 \<longrightarrow> \<not> bit (dr7 v) k) \<and>
     (\<forall>k. 15 \<le> k \<and> k < 47 \<longrightarrow> \<not> bit (efer v) k) \<and>
     (bit (efer v) 8 \<and> bit (cr0 v) 31 \<longrightarrow> bit (cr4 v) 5 \<and> bit (cr0 v) 0 \<and>
       \<not> (bit (attrs (cs v)) 9 \<and> bit (attrs (cs v)) 10)) \<and>
     bit (general2_intercepts v) 0"

lemma consistency_accepts:
  "vmcb_check_consistency v = ([], Inr ()) \<longleftrightarrow> accepted_state v"
proof -
  have "vmcb_check_consistency v = ([], Inr ()) \<longleftrightarrow>
      \<not> ctrue (check_efer_svme v) \<and> \<not> ctrue (check_cr0cd_cr0nw v) \<and> \<not> ctrue (check_cr0_32_63 v) \<and>
      \<not> ctrue (check_cr4_11_63 v) \<and> \<not> ctrue (check_dr6_32_63 v) \<and> \<not> ctrue (check_dr7_32_63 v) \<and>
      \<not> ctrue (check_efer_15_63 v) \<and> \<not> ctrue (check_eferlme_cr0pg_cr4pae v) \<and>
      \<not> ctrue (check_eferlme_cr0pg_cr0pe v) \<and> \<not> ctrue (check_eferlme_cr0pg_cr4pae_csl_csd v) \<and>
      \<not> ctrue (check_vmrun_intercept v) \<and> \<not> ctrue (check_msr_ioio_intercept_tables v)"
    unfolding vmcb_check_consistency_def run_checks_ok consistency_tbl_def by simp
  also have "\<dots> \<longleftrightarrow> accepted_state v"
    unfolding check_efer_svme_def check_cr0cd_cr0nw_def check_cr0_32_63_def check_cr4_11_63_def
      check_dr6_32_63_def check_dr7_32_63_def check_efer_15_63_def check_eferlme_cr0pg_cr4pae_def
      check_eferlme_cr0pg_cr0pe_def check_eferlme_cr0pg_cr4pae_csl_csd_def check_vmrun_intercept_def
      check_msr_ioio_intercept_tables_def ctrue_of_bool32 flag_bits vmrun_bit SUB_BIT_clear
      get_field_bit accepted_state_def
    by (simp add: ctrue_def) argo
  finally show ?thesis .
qed

subsection \<open>Properties of the control block\<close>

lemma run_checks_stops:
  assumes "run_checks v tbl \<noteq> ([], Inr ())"
  shows "\<exists>c \<in> set tbl. ctrue (fst c v) \<and>
    run_checks v tbl = ([(snd c, [])], fatal_failure (line ''Consistency check failed.''))"
  using assms by (induction tbl) auto

text \<open>C25: \<open>vmcb_check_consistency\<close> returns without a word in exactly these states, and in every other it
  prints the message of a check that failed and stops the monitor; of CR4[11:63] and EFER[15:63] it looks at
  32 bits only.\<close>

theorem vmcb_check_consistency_accepts:
  "if bit (efer v) 12 \<and> (bit (cr0 v) 29 \<longrightarrow> bit (cr0 v) 30) \<and>
     (\<forall>k. 32 \<le> k \<and> k < 64 \<longrightarrow> \<not> bit (cr0 v) k) \<and>
     (\<forall>k. 11 \<le> k \<and> k < 43 \<longrightarrow> \<not> bit (cr4 v) k) \<and>
     (\<forall>k. 32 \<le> k \<and> k < 64 \<longrightarrow> \<not> bit (dr6 v) k) \<and>
     (\<forall>k. 32 \<le> k \<and> k < 64 \<longrightarrow> \<not> bit (dr7 v) k) \<and>
     (\<forall>k. 15 \<le> k \<and> k < 47 \<longrightarrow> \<not> bit (efer v) k) \<and>
     (bit (efer v) 8 \<and> bit (cr0 v) 31 \<longrightarrow> bit (cr4 v) 5 \<and> bit (cr0 v) 0 \<and>
       \<not> (bit (attrs (cs v)) 9 \<and> bit (attrs (cs v)) 10)) \<and>
     bit (general2_intercepts v) 0
   then vmcb_check_consistency v = ([], Inr ())
   else \<exists>(check, msg) \<in> set consistency_tbl. ctrue (check v) \<and>
     vmcb_check_consistency v = ([(msg, [])], fatal_failure (line ''Consistency check failed.''))"
proof -
  have "if accepted_state v then vmcb_check_consistency v = ([], Inr ())
    else \<exists>(check, msg) \<in> set consistency_tbl. ctrue (check v) \<and>
      vmcb_check_consistency v = ([(msg, [])], fatal_failure (line ''Consistency check failed.''))"
    using consistency_accepts [of v] run_checks_stops [of v consistency_tbl]
    by (fastforce simp: vmcb_check_consistency_def)
  then show ?thesis unfolding accepted_state_def .
qed

theorem vmcb_check_consistency_accepts_witness:
  "vmcb_check_consistency (zero_vmcb\<lparr>efer := EFER_SVME, general2_intercepts := 3,
     cr4 := push_bit 43 1\<rparr>) = ([], Inr ())"
proof -
  have e: "bit EFER_SVME k \<longleftrightarrow> k = 12" for k
    by (simp only: EFER_SVME_def bit_push_bit_iff) (auto simp: bit_simps)
  have c: "bit (push_bit 43 1 :: u64) k \<longleftrightarrow> k = 43" for k
    by (simp only: bit_push_bit_iff) (auto simp: bit_simps)
  show ?thesis
    using vmcb_check_consistency_accepts [of "zero_vmcb\<lparr>efer := EFER_SVME, general2_intercepts := 3, cr4 := push_bit 43 1\<rparr>"]
    by (simp add: zero_vmcb_def zero_seg_def e c del: push_bit_of_1 split: if_splits)
qed

text \<open>The tables of exit codes and intercept bits fit together: bit \<open>k\<close> of the control and
  debug register intercepts has the exit code with the same register and access, bit \<open>k\<close> of
  the two general words has exit code 96 + \<open>k\<close> and 128 + \<open>k\<close>, and the codes and flags the
  handlers use are those of the tables.\<close>

theorem exit_codes_match_intercepts:
  "map (\<lambda>(n, v). ''VMEXIT_'' @ drop 13 n) CRInterceptBits = map fst (take 32 VMEXIT_EXITCODE) \<and>
   map (\<lambda>(n, v). ''VMEXIT_'' @ drop 13 n) DRInterceptBits = map fst (take 32 (drop 32 VMEXIT_EXITCODE)) \<and>
   map snd CRInterceptBits = map (\<lambda>k. push_bit k 1) [0..<32] \<and>
   map snd DRInterceptBits = map (\<lambda>k. push_bit k 1) [0..<32] \<and>
   map snd (take 84 VMEXIT_EXITCODE) = map of_nat [0..<84] \<and>
   map snd (take 45 (drop 84 VMEXIT_EXITCODE)) = map of_nat [96..<141] \<and>
   map snd GenericIntercept1bits = map (\<lambda>k. push_bit k 1) [0..<32] \<and>
   map snd GenericIntercept2bits = map (\<lambda>k. push_bit k 1) [0..<13] \<and>
   VMEXIT_EXITCODE ! 19 = (''VMEXIT_CR3_WRITE'', VMEXIT_CR3_WRITE) \<and>
   VMEXIT_EXITCODE ! 65 = (''VMEXIT_EXCEPTION_DB'', VMEXIT_EXCEPTION_DB) \<and>
   VMEXIT_EXITCODE ! 78 = (''VMEXIT_EXCEPTION_PF'', VMEXIT_EXCEPTION_PF) \<and>
   VMEXIT_EXITCODE ! 101 = (''VMEXIT_POPF'', VMEXIT_POPF) \<and>
   VMEXIT_EXITCODE ! 104 = (''VMEXIT_IRET'', VMEXIT_IRET) \<and>
   VMEXIT_EXITCODE ! 105 = (''VMEXIT_SWINT'', VMEXIT_SWINT) \<and>
   VMEXIT_EXITCODE ! 112 = (''VMEXIT_MSR'', VMEXIT_MSR) \<and>
   VMEXIT_EXITCODE ! 117 = (''VMEXIT_VMMCALL'', VMEXIT_VMMCALL) \<and>
   GenericIntercept1bits ! 20 = (''GENERAL1_INTERCEPT_IRET'', INTRCPT_IRET) \<and>
   GenericIntercept1bits ! 21 = (''GENERAL1_INTERCEPT_SWINT'', INTRCPT_INTN) \<and>
   GenericIntercept1bits ! 17 = (''GENERAL1_INTERCEPT_POPF'', INTRCPT_POPF) \<and>
   CRInterceptBits ! 19 = (''CR_INTERCEPT_CR3_WRITE'', INTRCPT_WRITE_CR3)"
  unfolding VMEXIT_CR3_WRITE_def VMEXIT_EXCEPTION_DB_def VMEXIT_EXCEPTION_PF_def VMEXIT_POPF_def
    VMEXIT_IRET_def VMEXIT_SWINT_def VMEXIT_MSR_def VMEXIT_VMMCALL_def INTRCPT_IRET_def INTRCPT_INTN_def
    INTRCPT_POPF_def INTRCPT_WRITE_CR3_def
  by (intro conjI)
    (simp_all add: CRInterceptBits_def DRInterceptBits_def VMEXIT_EXITCODE_def GenericIntercept1bits_def
      GenericIntercept2bits_def upt_conv_Cons)

end
