(* ===== verification/VmInfo.thy ===== *)
theory VmInfo
  imports Vmcb
begin

text \<open>
  \<open>include/vm.h\<close>, \<open>kernel/vm.c\<close>, \<open>kernel/segment.c\<close>: the monitor's record of the virtual
  machine, its nested page tables, the interceptions, and the three lists it keeps in pages of
  its heap (open files, tracked processes, threads waiting for a system call).

  A \<open>machine\<close> is the whole state the exit handlers work on: memory, the \<open>vm_info\<close>, the
  control block it points to, the guest registers \<open>g_rbx\<close> and so on, and the calls of
  \<open>outf\<close> so far.  The list lengths are natural numbers.  \<open>uninit\<close> is what a local variable
  holds that the code does not initialise.  The handler fields of \<open>vm_info\<close> are function pointers
  that \<open>init_amd\<close> sets once; the exit dispatcher calls those functions directly.

  The control block is a record of its own beside the memory.  The one way the code clears it through another
  pointer at start-up is \<open>create_intercept_table\<close> (\<open>clear_over\<close>).  All other writes go to the memory only:
  where the guest makes its page tables overlap the block, what \<open>vm_protect_all_nonPAE_guestpage\<close> and
  \<open>vm_unprotect_all_nonPAE_guestpage\<close> write there changes the block of the program and not the record.  Statements about these functions are about guests
  whose tables lie elsewhere.
\<close>

subsection \<open>State\<close>

record gregs =
  g_rbp :: u64
  g_rbx :: u64
  g_rcx :: u64
  g_rdx :: u64
  g_rsi :: u64
  g_rdi :: u64

record vm_info =
  vmcb_ptr :: u64
  vmcs_ptr :: u64
  asid :: u32
  n_cr3 :: u64
  io_intercept_table :: u64
  msr_intercept_table :: u64
  msr_count :: u32
  msr_area :: u64
  host_msr_count :: u32
  host_msr_area :: u64
  waitingRetSysCall :: u8
  org_sysenter_cs :: u64
  itc_flag :: u32
  itc_skip_flag :: u32
  fmap :: u64
  nOpenFile :: nat
  syscallmap :: u64
  nWaitingThreads :: nat
  nTrackedProcess :: nat
  ptracked :: u64
  btrackcurrent :: u8

definition zero_vm_info :: vm_info where
  "zero_vm_info = \<lparr>vmcb_ptr = 0, vmcs_ptr = 0, asid = 0, n_cr3 = 0, io_intercept_table = 0,
     msr_intercept_table = 0, msr_count = 0, msr_area = 0, host_msr_count = 0,
     host_msr_area = 0, waitingRetSysCall = 0, org_sysenter_cs = 0, itc_flag = 0,
     itc_skip_flag = 0, fmap = 0, nOpenFile = 0, syscallmap = 0, nWaitingThreads = 0,
     nTrackedProcess = 0, ptracked = 0, btrackcurrent = 0\<rparr>"

record machine =
  ram :: mem
  vm :: vm_info
  vcb :: vmcb
  regs :: gregs
  con :: "out_call list"
  uninit :: u32

text \<open>A call of \<open>outf\<close>.\<close>

definition say :: "string \<Rightarrow> out_arg list \<Rightarrow> machine \<Rightarrow> machine" where
  "say f args s = s\<lparr>con := con s @ [(f, args)]\<rparr>"

definition say_all :: "out_call list \<Rightarrow> machine \<Rightarrow> machine" where
  "say_all calls s = s\<lparr>con := con s @ calls\<rparr>"

definition upd_vm :: "(vm_info \<Rightarrow> vm_info) \<Rightarrow> machine \<Rightarrow> machine" where
  "upd_vm f s = s\<lparr>vm := f (vm s)\<rparr>"

definition upd_vcb :: "(vmcb \<Rightarrow> vmcb) \<Rightarrow> machine \<Rightarrow> machine" where
  "upd_vcb f s = s\<lparr>vcb := f (vcb s)\<rparr>"

definition upd_ram :: "(mem \<Rightarrow> mem) \<Rightarrow> machine \<Rightarrow> machine" where
  "upd_ram f s = s\<lparr>ram := f (ram s)\<rparr>"

lemmas machine_upd = say_def say_all_def upd_vm_def upd_vcb_def upd_ram_def

definition USER_CMD_ENABLE :: u64 where "USER_CMD_ENABLE = 0"
definition USER_CMD_DISABLE :: u64 where "USER_CMD_DISABLE = 1"
definition USER_CMD_TEST :: u64 where "USER_CMD_TEST = 9"
definition USER_ITC_SWINT :: u32 where "USER_ITC_SWINT = push_bit 0 1"
definition USER_ITC_TASKSWITCH :: u32 where "USER_ITC_TASKSWITCH = push_bit 1 1"
definition USER_ITC_SYSCALL :: u32 where "USER_ITC_SYSCALL = push_bit 2 1"
definition USER_ITC_IRET :: u32 where "USER_ITC_IRET = push_bit 3 1"
definition USER_SINGLE_STEPPING :: u32 where "USER_SINGLE_STEPPING = push_bit 4 1"
definition USER_UNPACK :: u32 where "USER_UNPACK = push_bit 5 1"
definition USER_ITC_ALL :: u32 where "USER_ITC_ALL = 0xFF"

subsection \<open>Segmentation\<close>

text \<open>\<open>u16\<close> times \<open>int\<close> plus \<open>unsigned int\<close> is a 32-bit sum; the base is a \<open>u32\<close>.\<close>

definition real_mode_linear :: "u16 \<Rightarrow> u64 \<Rightarrow> u64" where
  "real_mode_linear seg_select offset =
     ucast ((ucast seg_select * 0x10 + ucast (offset AND 0xFFFF)) :: u32)"

definition descriptor_base :: "u64 \<Rightarrow> u32" where
  "descriptor_base seg_descriptor =
     (let base1 = (ucast (drop_bit 16 seg_descriptor) :: u32) AND 0xFFFF;
          base2 = (ucast (drop_bit 32 seg_descriptor) :: u32) AND 0xFF;
          base3 = (ucast (drop_bit 56 seg_descriptor) :: u32) AND 0xFF
      in base1 + push_bit 16 base2 + push_bit 24 base3)"

definition glogic_2_glinear :: "mem \<Rightarrow> vmcb \<Rightarrow> u16 \<Rightarrow> u64 \<Rightarrow> u64 res" where
  "glogic_2_glinear m v seg_select offset =
     (if \<not> ctrue (cr0 v AND X86_CR0_PE) then Inr (real_mode_linear seg_select offset)
      else if seg_select = 0 then Inr offset
      else if ctrue (cr4 v AND X86_CR4_PAE)
      then fatal_failure ''Converting address in 2mb PAE paging mode not supported yet!''
      else
        let gdt_index = (ucast (drop_bit 3 seg_select) :: u32);
            gdtentry_linearaddr = base (gdtr v) + ucast (8 * gdt_index)
        in bindr
             (if \<not> ctrue (cr0 v AND X86_CR0_PG) then Inr gdtentry_linearaddr
              else if \<not> ctrue (cr4 v AND X86_CR4_PSE)
              then linear2physical_legacy4kb m (cr3 v) gdtentry_linearaddr
              else linear2physical_legacy4mb m (cr3 v) gdtentry_linearaddr)
             (\<lambda>gdtentry_physaddr.
               Inr (ucast (descriptor_base (load64 m gdtentry_physaddr)) + offset)))"

subsection \<open>Nested page tables\<close>

definition create_intercept_table :: "mem \<Rightarrow> naive_allocator \<Rightarrow> u64 \<Rightarrow> (u64 \<times> mem) run" where
  "create_intercept_table m host sz =
     bindo (alloc_host_pages m host (drop_bit PAGE_SHIFT sz) 1) (\<lambda>(pfn, m).
       Some (Inr (push_bit PAGE_SHIFT pfn, memset m (push_bit PAGE_SHIFT pfn) 0x00 sz)))"

text \<open>The pages of the loop of \<open>create_4mb_nested_pagetable\<close>: \<open>i << PAGE_SHIFT_4MB\<close> is a 32-bit
  shift.  \<open>skipped\<close> is the pair of \<open>continue\<close> conditions.\<close>

definition skipped :: "u64 \<Rightarrow> u64 \<Rightarrow> u64 \<Rightarrow> u64 \<Rightarrow> u64 \<Rightarrow> bool" where
  "skipped vmm_pagestart vmm_pageend sz sz' guest_paddr \<longleftrightarrow>
     guest_paddr \<ge> vmm_pagestart \<and> guest_paddr \<le> vmm_pageend \<or>
     guest_paddr + sz \<ge> vmm_pagestart \<and> guest_paddr + sz' \<le> vmm_pageend"

definition map_4mb_step :: "u64 \<Rightarrow> u64 \<Rightarrow> u64 \<Rightarrow> mem \<Rightarrow> nat \<Rightarrow> mem" where
  "map_4mb_step pg vmm_pagestart vmm_pageend m i =
     (let guest_paddr = shl_int (of_nat i) PAGE_SHIFT_4MB
      in if skipped vmm_pagestart vmm_pageend PAGE_SIZE_4MB PAGE_SIZE_4MB guest_paddr then m
         else mmap_4mb m pg guest_paddr guest_paddr (- 1))"

definition create_4mb_nested_pagetable ::
    "naive_allocator \<Rightarrow> u64 \<Rightarrow> u64 \<Rightarrow> machine \<Rightarrow> (u64 \<times> machine) run" where
  "create_4mb_nested_pagetable host vmm_start vmm_size s =
     bindo (pg_table_alloc (ram s) host) (\<lambda>(pg, m).
       let vmm_pagestart = PAGE_DOWN_4MB vmm_start;
           vmm_pageend = PAGE_UP_4MB (vmm_start + vmm_size) - 1;
           s = say (line ''VMM start = %x; VMM end = %x.'') [ArgX vmm_pagestart, ArgX vmm_pageend] s;
           m = foldl (map_4mb_step pg vmm_pagestart vmm_pageend) m [0 ..< 1024]
       in Some (Inr (pg, say (line ''Nested page table created.'') [] (s\<lparr>ram := m\<rparr>))))"

text \<open>The loop of \<open>create_2mb_nested_pagetable\<close> from page \<open>i\<close>, \<open>n\<close> pages to go, with the trace of its mappings.  Its
  second condition mixes the two page sizes.\<close>

primrec map_2mb_loop ::
    "nat \<Rightarrow> naive_allocator \<Rightarrow> u64 \<Rightarrow> u64 \<Rightarrow> u64 \<Rightarrow> nat \<Rightarrow> mem \<Rightarrow> (mem \<times> out_call list) run" where
  "map_2mb_loop 0 host pg vmm_pagestart vmm_pageend i m = Some (Inr (m, []))"
| "map_2mb_loop (Suc n) host pg vmm_pagestart vmm_pageend i m =
     (let guest_paddr = shl_int (of_nat i) PAGE_SHIFT_2MB
      in bindo
           (if skipped vmm_pagestart vmm_pageend PAGE_SIZE_2MB PAGE_SIZE_4MB guest_paddr
            then Some (Inr (m, []))
            else mmap_pml4 m host pg guest_paddr guest_paddr True) (\<lambda>(m, calls).
         bindo (map_2mb_loop n host pg vmm_pagestart vmm_pageend (i + 1) m) (\<lambda>(m, calls').
           Some (Inr (m, calls @ calls')))))"

definition create_2mb_nested_pagetable ::
    "naive_allocator \<Rightarrow> u64 \<Rightarrow> u64 \<Rightarrow> machine \<Rightarrow> (u64 \<times> machine) run" where
  "create_2mb_nested_pagetable host vmm_start vmm_size s =
     bindo (pml4_table_alloc (ram s) host) (\<lambda>(pg, m).
       let vmm_pagestart = PAGE_DOWN_2MB vmm_start;
           vmm_pageend = PAGE_UP_2MB (vmm_start + vmm_size) - 1;
           s = say (line ''VMM start = %x; VMM end = %x.'') [ArgX vmm_pagestart, ArgX vmm_pageend] s
       in bindo (map_2mb_loop 1024 host pg vmm_pagestart vmm_pageend 0 m) (\<lambda>(m, calls).
            Some (Inr (pg, say (line ''Nested page table created.'') [] ((say_all calls s)\<lparr>ram := m\<rparr>)))))"

text \<open>\<open>set_4mb_pagetable_attr\<close> has 32-bit parameters; a \<open>u16\<close> flag is never -1.\<close>

definition set_4mb_pagetable_attr :: "mem \<Rightarrow> u32 \<Rightarrow> u32 \<Rightarrow> u16 \<Rightarrow> mem" where
  "set_4mb_pagetable_attr m pg linearaddr attr =
     mmap_4mb m (ucast pg) (ucast linearaddr) (ucast linearaddr) (ucast attr)"

definition get_4mb_pagetable_attr :: "mem \<Rightarrow> u64 \<Rightarrow> u64 \<Rightarrow> u16" where
  "get_4mb_pagetable_attr m pg linearaddr =
     (let index = to_int (drop_bit PAGE_SHIFT_4MB linearaddr)
      in ucast (pd4M_flags (load32 m (pg + scast index * 4))))"

definition vm_protect_all_page :: "u64 \<Rightarrow> mem \<Rightarrow> mem" where
  "vm_protect_all_page pg m =
     foldl (\<lambda>m index. pd_set pg m index (pd_get pg m index AND (0xFFFFFFFF - PTTEF_RW))) m [0 ..< 1024]"

definition vm_unprotect_page :: "u64 \<Rightarrow> mem \<Rightarrow> mem" where
  "vm_unprotect_page pg m =
     foldl (\<lambda>m index. pd_set pg m index (pd_get pg m index OR PTTEF_RW)) m [0 ..< 1024]"

definition vm_protect_all_nonPAE_nestedpage :: "machine \<Rightarrow> machine" where
  "vm_protect_all_nonPAE_nestedpage s =
     upd_ram (vm_protect_all_page (n_cr3 (vm s))) (say (line ''protect all pages'') [] s)"

definition vm_protect_all_nonPAE_guestpage :: "machine \<Rightarrow> machine" where
  "vm_protect_all_nonPAE_guestpage s =
     upd_ram (vm_protect_all_page (cr3 (vcb s))) (say (line ''protect all GUEST pages'') [] s)"

definition vm_unprotect_all_nonPAE_nestedpage :: "machine \<Rightarrow> machine" where
  "vm_unprotect_all_nonPAE_nestedpage s =
     upd_ram (vm_unprotect_page (n_cr3 (vm s))) (say (line ''unprotect all pages'') [] s)"

definition vm_unprotect_all_nonPAE_guestpage :: "machine \<Rightarrow> machine" where
  "vm_unprotect_all_nonPAE_guestpage s =
     upd_ram (vm_unprotect_page (cr3 (vcb s))) (say (line ''unprotect all GUEST pages'') [] s)"

subsection \<open>Interceptions\<close>

definition when_flag :: "u32 \<Rightarrow> u32 \<Rightarrow> (machine \<Rightarrow> machine) \<Rightarrow> machine \<Rightarrow> machine" where
  "when_flag flags f act s = (if ctrue (flags AND f) then act s else s)"

definition vm_disable_intercept :: "u32 \<Rightarrow> machine \<Rightarrow> machine" where
  "vm_disable_intercept flags s =
     (let s = when_flag flags USER_UNPACK (\<lambda>s. vm_unprotect_all_nonPAE_guestpage
                (upd_vcb (\<lambda>v. v\<lparr>exception_intercepts := exception_intercepts v AND NOT INTRCPT_PF\<rparr>) s)) s;
          s = when_flag flags USER_ITC_TASKSWITCH
                (upd_vcb (\<lambda>v. v\<lparr>cr_intercepts := cr_intercepts v AND NOT INTRCPT_WRITE_CR3\<rparr>)) s;
          s = when_flag flags USER_ITC_SWINT
                (upd_vcb (\<lambda>v. v\<lparr>general1_intercepts := general1_intercepts v AND NOT INTRCPT_INTN\<rparr>)) s;
          s = when_flag flags USER_ITC_IRET
                (upd_vcb (\<lambda>v. v\<lparr>general1_intercepts := general1_intercepts v AND NOT INTRCPT_IRET\<rparr>)) s;
          s = when_flag flags USER_ITC_SYSCALL
                (upd_vcb (\<lambda>v. v\<lparr>general1_intercepts := general1_intercepts v AND NOT INTRCPT_INTN\<rparr>)) s
      in when_flag flags USER_SINGLE_STEPPING
           (upd_vcb (\<lambda>v. v\<lparr>rflags := rflags v AND NOT X86_RFLAGS_TF,
              exception_intercepts := exception_intercepts v AND NOT INTRCPT_DB\<rparr>)) s)"

definition vm_enable_intercept :: "u32 \<Rightarrow> machine \<Rightarrow> machine" where
  "vm_enable_intercept flags s =
     (let s = when_flag flags USER_UNPACK (\<lambda>s. vm_protect_all_nonPAE_guestpage
                (upd_vcb (\<lambda>v. v\<lparr>exception_intercepts := exception_intercepts v OR INTRCPT_PF\<rparr>) s)) s;
          s = when_flag flags USER_ITC_TASKSWITCH
                (upd_vcb (\<lambda>v. v\<lparr>cr_intercepts := cr_intercepts v OR INTRCPT_WRITE_CR3\<rparr>)) s;
          s = when_flag flags USER_ITC_SWINT
                (upd_vcb (\<lambda>v. v\<lparr>general1_intercepts := general1_intercepts v OR INTRCPT_INTN\<rparr>)) s;
          s = when_flag flags USER_ITC_IRET
                (upd_vcb (\<lambda>v. v\<lparr>general1_intercepts := general1_intercepts v OR INTRCPT_IRET\<rparr>)) s;
          s = when_flag flags USER_ITC_SYSCALL
                (upd_vcb (\<lambda>v. v\<lparr>general1_intercepts := general1_intercepts v OR INTRCPT_INTN\<rparr>)) s
      in when_flag flags USER_SINGLE_STEPPING
           (upd_vcb (\<lambda>v. v\<lparr>rflags := rflags v OR X86_RFLAGS_TF,
              exception_intercepts := exception_intercepts v OR INTRCPT_DB\<rparr>)) s)"

subsection \<open>Open files\<close>

text \<open>\<open>struct fid2name_map\<close>: the descriptor in four bytes, then 20 bytes of name.\<close>

definition VM_MAX_FILENAME :: u64 where "VM_MAX_FILENAME = 20"

definition get_fid2name_entry :: "u64 \<Rightarrow> nat \<Rightarrow> u64" where
  "get_fid2name_entry tbl index = tbl + of_nat (24 * index)"

definition vm_add_fileid2name_map :: "u32 \<Rightarrow> u64 \<Rightarrow> machine \<Rightarrow> machine" where
  "vm_add_fileid2name_map fid name s =
     (let nxt = get_fid2name_entry (fmap (vm s)) (nOpenFile (vm s));
          m = store32 (ram s) nxt fid;
          m = memcpy m (nxt + 4) name VM_MAX_FILENAME;
          m = m(nxt + 4 + (VM_MAX_FILENAME - 1) := 0)
      in upd_vm (\<lambda>v. v\<lparr>nOpenFile := nOpenFile v + 1\<rparr>) (s\<lparr>ram := m\<rparr>))"

text \<open>The inner loop: entry \<open>j + 1\<close> is copied to \<open>j\<close>, for the \<open>j\<close> of the list.\<close>

definition shift_fid_entries :: "u64 \<Rightarrow> nat list \<Rightarrow> mem \<Rightarrow> mem" where
  "shift_fid_entries tbl js m =
     foldl (\<lambda>m j. memcpy m (get_fid2name_entry tbl j) (get_fid2name_entry tbl (j + 1)) 24) m js"

function remove_fid_loop :: "u64 \<Rightarrow> u32 \<Rightarrow> nat \<Rightarrow> nat \<Rightarrow> mem \<Rightarrow> mem \<times> nat" where
  "remove_fid_loop tbl fid n i m =
     (if i < n then
        (if load32 m (get_fid2name_entry tbl i) = fid
         then remove_fid_loop tbl fid (n - 1) (i + 1) (shift_fid_entries tbl [i ..< n - 1] m)
         else remove_fid_loop tbl fid n (i + 1) m)
      else (m, n))"
  by pat_completeness auto
termination by (relation "measure (\<lambda>(tbl, fid, n, i, m). n - i)") auto

declare remove_fid_loop.simps [simp del]

definition vm_remove_fileid2name_map :: "u32 \<Rightarrow> machine \<Rightarrow> machine" where
  "vm_remove_fileid2name_map fid s =
     (let (m, n) = remove_fid_loop (fmap (vm s)) fid (nOpenFile (vm s)) 0 (ram s)
      in upd_vm (\<lambda>v. v\<lparr>nOpenFile := n\<rparr>) (s\<lparr>ram := m\<rparr>))"

text \<open>The result is the address of the name, or 0.\<close>

definition vm_get_fname_from_id :: "machine \<Rightarrow> u32 \<Rightarrow> u64" where
  "vm_get_fname_from_id s fid =
     (case List.find (\<lambda>i. load32 (ram s) (get_fid2name_entry (fmap (vm s)) i) = fid)
             [0 ..< nOpenFile (vm s)] of
        None \<Rightarrow> 0
      | Some i \<Rightarrow> get_fid2name_entry (fmap (vm s)) i + 4)"

subsection \<open>Tracked processes\<close>

definition VM_MAX_PNAME_LEN :: nat where "VM_MAX_PNAME_LEN = 20"

definition get_tracked_name_pointer :: "u64 \<Rightarrow> nat \<Rightarrow> u64" where
  "get_tracked_name_pointer tbl index = tbl + of_nat (VM_MAX_PNAME_LEN * index)"

text \<open>\<open>vm_is_process_tracked\<close> returns 1 before its loop.\<close>

definition vm_is_process_tracked :: "machine \<Rightarrow> u64 \<Rightarrow> u32" where
  "vm_is_process_tracked s pname = 1"

definition vm_add_tracked_process :: "u64 \<Rightarrow> machine \<Rightarrow> machine run" where
  "vm_add_tracked_process pname s =
     (if ctrue (vm_is_process_tracked s pname) then Some (Inr s)
      else
        Option.bind (strcpy (ram s) (get_tracked_name_pointer (ptracked (vm s)) (nTrackedProcess (vm s))) pname)
          (\<lambda>m. Some (Inr (upd_vm (\<lambda>v. v\<lparr>nTrackedProcess := nTrackedProcess v + 1\<rparr>) (s\<lparr>ram := m\<rparr>)))))"

primrec shift_names :: "u64 \<Rightarrow> nat list \<Rightarrow> mem \<Rightarrow> mem option" where
  "shift_names tbl [] m = Some m"
| "shift_names tbl (j # js) m =
     Option.bind (strcpy m (get_tracked_name_pointer tbl j) (get_tracked_name_pointer tbl (j + 1)))
       (shift_names tbl js)"

text \<open>The loop looks at the entries of the list \<open>is\<close>.\<close>

primrec remove_tracked_loop :: "u64 \<Rightarrow> u64 \<Rightarrow> nat \<Rightarrow> nat list \<Rightarrow> mem \<Rightarrow> (mem \<times> nat) option" where
  "remove_tracked_loop tbl pname n [] m = Some (m, n)"
| "remove_tracked_loop tbl pname n (i # is) m =
     Option.bind (strcmp m (get_tracked_name_pointer tbl i) pname) (\<lambda>r.
       if r = 0 then Option.bind (shift_names tbl [i ..< n - 1] m) (\<lambda>m. Some (m, n - 1))
       else remove_tracked_loop tbl pname n is m)"

definition vm_remove_tracked_process :: "u64 \<Rightarrow> machine \<Rightarrow> machine run" where
  "vm_remove_tracked_process pname s =
     (let n = nTrackedProcess (vm s)
      in Option.bind (remove_tracked_loop (ptracked (vm s)) pname n [0 ..< n] (ram s))
           (\<lambda>(m, n). Some (Inr (upd_vm (\<lambda>v. v\<lparr>nTrackedProcess := n\<rparr>) (s\<lparr>ram := m\<rparr>)))))"

subsection \<open>Waiting threads\<close>

text \<open>\<open>struct syscall_info\<close> in memory: \<open>syscallno\<close> at 0, \<open>arg\<close> at 8, \<open>datasize\<close> at 16,
  \<open>socketno\<close> at 20; \<open>struct tid2syscall_map\<close>: \<open>tid\<close> at 0, \<open>info\<close> at 8.  The padding bytes
  are never read.\<close>

record syscall_info =
  syscallno :: u32
  arg :: u64
  datasize :: u32
  socketno :: u32

definition get_syscallmap_entry :: "u64 \<Rightarrow> nat \<Rightarrow> u64" where
  "get_syscallmap_entry tbl index = tbl + of_nat (32 * index)"

definition load_info :: "mem \<Rightarrow> u64 \<Rightarrow> syscall_info" where
  "load_info m p = \<lparr>syscallno = load32 m p, arg = load64 m (p + 8), datasize = load32 m (p + 16),
     socketno = load32 m (p + 20)\<rparr>"

definition store_info :: "mem \<Rightarrow> u64 \<Rightarrow> syscall_info \<Rightarrow> mem" where
  "store_info m p info =
     store32 (store32 (store64 (store32 m p (syscallno info)) (p + 8) (arg info)) (p + 16) (datasize info))
       (p + 20) (socketno info)"

definition vm_add_waiting_thread :: "u32 \<Rightarrow> syscall_info \<Rightarrow> machine \<Rightarrow> machine" where
  "vm_add_waiting_thread tid info s =
     (let p = get_syscallmap_entry (syscallmap (vm s)) (nWaitingThreads (vm s))
      in upd_vm (\<lambda>v. v\<lparr>nWaitingThreads := nWaitingThreads v + 1\<rparr>)
           (s\<lparr>ram := store_info (store32 (ram s) p tid) (p + 8) info\<rparr>))"

definition shift_thread_entries :: "u64 \<Rightarrow> nat list \<Rightarrow> mem \<Rightarrow> mem" where
  "shift_thread_entries tbl js m =
     foldl (\<lambda>m j. memcpy m (get_syscallmap_entry tbl j) (get_syscallmap_entry tbl (j + 1)) 32) m js"

function remove_thread_loop :: "u64 \<Rightarrow> u32 \<Rightarrow> nat \<Rightarrow> nat \<Rightarrow> mem \<Rightarrow> mem \<times> nat" where
  "remove_thread_loop tbl tid n i m =
     (if i < n then
        (if load32 m (get_syscallmap_entry tbl i) = tid
         then remove_thread_loop tbl tid (n - 1) (i + 1) (shift_thread_entries tbl [i ..< n - 1] m)
         else remove_thread_loop tbl tid n (i + 1) m)
      else (m, n))"
  by pat_completeness auto
termination by (relation "measure (\<lambda>(tbl, tid, n, i, m). n - i)") auto

declare remove_thread_loop.simps [simp del]

definition vm_remove_waiting_thread :: "u32 \<Rightarrow> machine \<Rightarrow> machine" where
  "vm_remove_waiting_thread tid s =
     (let (m, n) = remove_thread_loop (syscallmap (vm s)) tid (nWaitingThreads (vm s)) 0 (ram s)
      in upd_vm (\<lambda>v. v\<lparr>nWaitingThreads := n\<rparr>) (s\<lparr>ram := m\<rparr>))"

text \<open>The result is the address of the info, or 0.\<close>

definition vm_get_waiting_syscall :: "machine \<Rightarrow> u32 \<Rightarrow> u64" where
  "vm_get_waiting_syscall s tid =
     (case List.find (\<lambda>i. load32 (ram s) (get_syscallmap_entry (syscallmap (vm s)) i) = tid)
             [0 ..< nWaitingThreads (vm s)] of
        None \<Rightarrow> 0
      | Some i \<Rightarrow> get_syscallmap_entry (syscallmap (vm s)) i + 8)"

subsection \<open>Creating the virtual machine\<close>

text \<open>\<open>lit\<close> gives the address of a string literal in the monitor's image.\<close>

definition initialize_fid2name_map ::
    "(string \<Rightarrow> u64) \<Rightarrow> naive_allocator \<Rightarrow> machine \<Rightarrow> machine run" where
  "initialize_fid2name_map lit host s =
     bindo (alloc_host_pages (ram s) host 1 1) (\<lambda>(pfn, m).
       let s = upd_vm (\<lambda>v. v\<lparr>nOpenFile := 0, fmap := push_bit PAGE_SHIFT pfn\<rparr>) (s\<lparr>ram := m\<rparr>);
           s = vm_add_fileid2name_map 0 (lit ''stdin'') s;
           s = vm_add_fileid2name_map 1 (lit ''stdout'') s
       in Some (Inr (vm_add_fileid2name_map 2 (lit ''stderr'') s)))"

definition initialize_syscallmap :: "naive_allocator \<Rightarrow> machine \<Rightarrow> machine run" where
  "initialize_syscallmap host s =
     bindo (alloc_host_pages (ram s) host 1 1) (\<lambda>(pfn, m).
       Some (Inr (upd_vm (\<lambda>v. v\<lparr>nWaitingThreads := 0, syscallmap := push_bit PAGE_SHIFT pfn\<rparr>)
         (s\<lparr>ram := m\<rparr>))))"

definition initialize_ptracked_list :: "naive_allocator \<Rightarrow> machine \<Rightarrow> machine run" where
  "initialize_ptracked_list host s =
     bindo (alloc_host_pages (ram s) host 1 1) (\<lambda>(pfn, m).
       Some (Inr (upd_vm (\<lambda>v. v\<lparr>btrackcurrent := 0, nTrackedProcess := 0,
         ptracked := push_bit PAGE_SHIFT pfn\<rparr>) (s\<lparr>ram := m\<rparr>))))"

definition vm_create ::
    "(string \<Rightarrow> u64) \<Rightarrow> naive_allocator \<Rightarrow> u64 \<Rightarrow> u64 \<Rightarrow> machine \<Rightarrow> machine run" where
  "vm_create lit host vmm_start vmm_size s =
     (let s = say (CHR 0x0A # line ''++++++ Initializing guest VM info....'') [] s
      in bindo (initialize_fid2name_map lit host (s\<lparr>vm := zero_vm_info\<rparr>)) (\<lambda>s.
         bindo (initialize_syscallmap host s) (\<lambda>s.
         bindo (initialize_ptracked_list host s) (\<lambda>s.
           let s = upd_vm (\<lambda>v. v\<lparr>waitingRetSysCall := 0\<rparr>) s
           in bindo (create_2mb_nested_pagetable host vmm_start vmm_size s) (\<lambda>(pg, s).
                Some (Inr (upd_vm (\<lambda>v. v\<lparr>n_cr3 := pg\<rparr>) s)))))))"

subsection \<open>Lists of records\<close>

text \<open>
  The two lists of fixed-size records are removed from by the same double loop.  On the list of
  entries it is \<open>drop_key\<close>: the entry that moves into a freed slot is not looked at.
\<close>

fun drop_key :: "('v \<Rightarrow> bool) \<Rightarrow> 'v list \<Rightarrow> 'v list" where
  "drop_key P [] = []"
| "drop_key P (x # xs) = (if P x then (case xs of [] \<Rightarrow> [] | y # ys \<Rightarrow> y # drop_key P ys) else x # drop_key P xs)"

lemma drop_key_none [simp]: "\<forall>x \<in> set xs. \<not> P x \<Longrightarrow> drop_key P xs = xs"
  by (induction P xs rule: drop_key.induct) auto

lemma drop_key_filter:
  assumes "\<And>i. Suc i < length xs \<Longrightarrow> P (xs ! i) \<Longrightarrow> \<not> P (xs ! Suc i)"
  shows "drop_key P xs = filter (\<lambda>x. \<not> P x) xs"
  using assms
proof (induction P xs rule: drop_key.induct)
  case (2 P x xs)
  show ?case
  proof (cases xs)
    case (Cons y ys)
    have "\<And>i. Suc i < length ys \<Longrightarrow> P (ys ! i) \<Longrightarrow> \<not> P (ys ! Suc i)"
      using 2(3) [of "Suc (Suc _)"] Cons by fastforce
    moreover have "\<And>i. Suc i < length xs \<Longrightarrow> P (xs ! i) \<Longrightarrow> \<not> P (xs ! Suc i)"
      using 2(3) [of "Suc _"] by fastforce
    moreover have "P x \<Longrightarrow> \<not> P y" using 2(3) [of 0] Cons by simp
    ultimately show ?thesis using 2(1) [of y ys] 2(2) Cons by auto
  qed simp
qed simp

locale record_list = word_table +
  fixes loop :: "'b \<Rightarrow> nat \<Rightarrow> nat \<Rightarrow> 's \<Rightarrow> 's \<times> nat"
    and is_key :: "'b \<Rightarrow> 'v \<Rightarrow> bool"
  assumes loop_step: "n < slots \<Longrightarrow> loop k n i s =
    (if i < n then
       (if is_key k (get s i)
        then loop k (n - 1) (i + 1) (foldl (\<lambda>s j. put s j (get s (j + 1))) s [i ..< n - 1])
        else loop k n (i + 1) s)
     else (s, n))"
begin

definition entries :: "'s \<Rightarrow> nat \<Rightarrow> 'v list" where
  "entries s n = map (get s) [0 ..< n]"

lemma length_entries [simp]: "length (entries s n) = n"
  by (simp add: entries_def)

lemma nth_entries [simp]: "i < n \<Longrightarrow> entries s n ! i = get s i"
  by (simp add: entries_def)

lemma entries_add:
  assumes "n < slots"
  shows "entries (put s n v) (n + 1) = entries s n @ [v]"
  using assms by (auto simp: entries_def get_put)

lemma get_shift:
  assumes "k < slots" and "i \<le> k" and "j < slots"
  shows "get (foldl (\<lambda>s j. put s j (get s (Suc j))) s [i ..< k]) j =
    (if i \<le> j \<and> j < k then get s (Suc j) else get s j)"
  using assms
proof (induction k arbitrary: j)
  case (Suc k)
  show ?case
  proof (cases "i \<le> k")
    case True
    then show ?thesis using Suc.prems Suc.IH by (auto simp: get_put)
  next
    case False
    then have "[i ..< Suc k] = []" and "\<not> (i \<le> j \<and> j < Suc k)" by auto
    then show ?thesis by (simp only: foldl_Nil if_False)
  qed
qed simp

lemma entries_shift:
  assumes "n < slots" and "i < n"
  shows "entries (foldl (\<lambda>s j. put s j (get s (j + 1))) s [i ..< n - 1]) (n - 1) =
    take i (entries s n) @ drop (Suc i) (entries s n)"
proof (rule nth_equalityI)
  fix j assume "j < length (entries (foldl (\<lambda>s j. put s j (get s (j + 1))) s [i ..< n - 1]) (n - 1))"
  then show "entries (foldl (\<lambda>s j. put s j (get s (j + 1))) s [i ..< n - 1]) (n - 1) ! j =
      (take i (entries s n) @ drop (Suc i) (entries s n)) ! j"
    using assms by (auto simp: get_shift nth_append)
qed (use assms in simp)

lemma loop_entries:
  assumes "n < slots" and "loop k n i s = (s', n')"
  shows "entries s' n' = take i (entries s n) @ drop_key (is_key k) (drop i (entries s n)) \<and> n' \<le> n"
  using assms
proof (induction "n - i" arbitrary: i n s rule: less_induct)
  case less
  show ?case
  proof (cases "i < n")
    case False
    then show ?thesis using less.prems loop_step [of n k i s] by simp
  next
    case in_list: True
    have d: "drop i (entries s n) = get s i # drop (Suc i) (entries s n)"
      using in_list by (simp flip: Cons_nth_drop_Suc)
    show ?thesis
    proof (cases "is_key k (get s i)")
      case False
      have "entries s' n' = take (i + 1) (entries s n) @ drop_key (is_key k) (drop (i + 1) (entries s n)) \<and> n' \<le> n"
        by (rule less.hyps) (use less.prems loop_step [of n k i s] in_list False in auto)
      then show ?thesis using in_list False by (simp add: d take_Suc_conv_app_nth)
    next
      case True
      let ?s = "foldl (\<lambda>s j. put s j (get s (j + 1))) s [i ..< n - 1]"
      have sh: "entries ?s (n - 1) = take i (entries s n) @ drop (Suc i) (entries s n)"
        by (rule entries_shift) (use less.prems in_list in auto)
      have step: "entries s' n' = take (i + 1) (entries ?s (n - 1)) @ drop_key (is_key k) (drop (i + 1) (entries ?s (n - 1))) \<and> n' \<le> n - 1"
        by (rule less.hyps) (use less.prems loop_step [of n k i s] in_list True in auto)
      show ?thesis
      proof (cases "drop (Suc i) (entries s n)")
        case Nil
        then show ?thesis using step [unfolded sh] in_list True by (auto simp: d)
      next
        case (Cons y ys)
        then show ?thesis using step [unfolded sh] in_list True by (auto simp: d Suc_diff_le)
      qed
    qed
  qed
qed

lemma loop_drop_key:
  assumes "n < slots" and "loop k n 0 s = (s', n')"
  shows "entries s' n' = drop_key (is_key k) (entries s n)" and "n' \<le> n"
  using loop_entries [OF assms] by simp_all

end

subsection \<open>The records in memory\<close>

lemma memcpy_record:
  assumes "8 * w = LENGTH('a)" and "w < 2 ^ 32" and "unat n = w" and "w \<le> unat (d - s) \<or> d = s"
  shows "memcpy m d s n = store_le w m d (load_le w m s :: 'a::len word)"
proof
  fix x
  have "copied m (memcpy m d s n) d s w"
    unfolding memcpy_def assms(3) [symmetric] by (rule inline_memcpy_copied) (use assms in auto)
  moreover have "copied m (store_le w m d (load_le w m s :: 'a word)) d s w"
    by (rule store_load_copied) (use assms in auto)
  ultimately show "memcpy m d s n x = store_le w m d (load_le w m s :: 'a word) x"
    by (simp add: copied_def)
qed

lemma entry_gap:
  assumes "w * (j + 2) \<le> 2 ^ 32"
  shows "w \<le> unat ((tbl + of_nat (w * j)) - (tbl + of_nat (w * (j + 1))) :: u64) \<or> w = 0"
proof -
  have "(tbl + of_nat (w * j)) - (tbl + of_nat (w * (j + 1))) = - (of_nat w :: u64)"
    by (simp add: algebra_simps)
  moreover have "w \<le> 2 ^ 32"
    using assms by (simp add: add_mult_distrib2)
  moreover have "unat (0 - of_nat w :: u64) = (if w = 0 then 0 else 2 ^ 64 - w)"
    using \<open>w \<le> 2 ^ 32\<close> unat_sub_if' [of 0 "of_nat w :: u64"] unat_of_nat_u64 [of w] by simp
  ultimately show ?thesis using \<open>w \<le> 2 ^ 32\<close> by (simp del: unat_of_nat) linarith
qed

text \<open>The entries as words of their size; the number of entries is far from wrapping around.\<close>

type_synonym fid_entry = "192 word"
type_synonym thread_entry = "256 word"

definition fid_entry :: "u64 \<Rightarrow> mem \<Rightarrow> nat \<Rightarrow> fid_entry" where
  "fid_entry tbl m i = load_le 24 m (get_fid2name_entry tbl i)"

definition set_fid_entry :: "u64 \<Rightarrow> mem \<Rightarrow> nat \<Rightarrow> fid_entry \<Rightarrow> mem" where
  "set_fid_entry tbl m i e = store_le 24 m (get_fid2name_entry tbl i) e"

definition thread_entry :: "u64 \<Rightarrow> mem \<Rightarrow> nat \<Rightarrow> thread_entry" where
  "thread_entry tbl m i = load_le 32 m (get_syscallmap_entry tbl i)"

definition set_thread_entry :: "u64 \<Rightarrow> mem \<Rightarrow> nat \<Rightarrow> thread_entry \<Rightarrow> mem" where
  "set_thread_entry tbl m i e = store_le 32 m (get_syscallmap_entry tbl i) e"

definition max_records :: nat where "max_records = 2 ^ 24"

lemma load32_record:
  assumes "4 \<le> w" and "8 * w = LENGTH('a)"
  shows "load32 m a = ucast (load_le w m a :: 'a::len word)"
  by (rule bit_word_eqI) (use assms in \<open>auto simp: bit_load_le bit_simps\<close>)

lemma shift_fid_entries:
  assumes "\<forall>j \<in> set js. j + 2 \<le> max_records"
  shows "shift_fid_entries tbl js m = foldl (\<lambda>m j. set_fid_entry tbl m j (fid_entry tbl m (j + 1))) m js"
  unfolding shift_fid_entries_def set_fid_entry_def fid_entry_def
proof (rule foldl_cong [OF refl refl])
  fix m j assume "j \<in> set js"
  then have "24 * (j + 2) \<le> 2 ^ 32" using assms by (fastforce simp: max_records_def)
  from entry_gap [OF this, of tbl]
  show "memcpy m (get_fid2name_entry tbl j) (get_fid2name_entry tbl (j + 1)) 24 =
      store_le 24 m (get_fid2name_entry tbl j) (load_le 24 m (get_fid2name_entry tbl (j + 1)) :: fid_entry)"
    by (intro memcpy_record) (auto simp: get_fid2name_entry_def)
qed

lemma shift_thread_entries:
  assumes "\<forall>j \<in> set js. j + 2 \<le> max_records"
  shows "shift_thread_entries tbl js m =
    foldl (\<lambda>m j. set_thread_entry tbl m j (thread_entry tbl m (j + 1))) m js"
  unfolding shift_thread_entries_def set_thread_entry_def thread_entry_def
proof (rule foldl_cong [OF refl refl])
  fix m j assume "j \<in> set js"
  then have "32 * (j + 2) \<le> 2 ^ 32" using assms by (fastforce simp: max_records_def)
  from entry_gap [OF this, of tbl]
  show "memcpy m (get_syscallmap_entry tbl j) (get_syscallmap_entry tbl (j + 1)) 32 =
      store_le 32 m (get_syscallmap_entry tbl j) (load_le 32 m (get_syscallmap_entry tbl (j + 1)) :: thread_entry)"
    by (intro memcpy_record) (auto simp: get_syscallmap_entry_def)
qed

interpretation files: record_list "fid_entry tbl" "set_fid_entry tbl" max_records
  "\<lambda>fid n i m. remove_fid_loop tbl fid n i m" "\<lambda>fid e. ucast e = fid" for tbl
proof unfold_locales
  fix i j :: nat and m :: mem and v :: fid_entry
  assume "i < max_records"
  show "fid_entry tbl (set_fid_entry tbl m i v) i = v"
    by (simp add: fid_entry_def set_fid_entry_def load_store_same)
  assume "j < max_records" and "i \<noteq> j"
  with \<open>i < max_records\<close> show "fid_entry tbl (set_fid_entry tbl m i v) j = fid_entry tbl m j"
    by (simp add: fid_entry_def set_fid_entry_def get_fid2name_entry_def load_store_array max_records_def
      del: of_nat_mult)
next
  fix n i :: nat and fid :: u32 and m :: mem
  assume "n < max_records"
  then have "shift_fid_entries tbl [i ..< n - 1] m =
      foldl (\<lambda>m j. set_fid_entry tbl m j (fid_entry tbl m (j + 1))) m [i ..< n - 1]"
    by (intro shift_fid_entries) auto
  then show "remove_fid_loop tbl fid n i m =
    (if i < n then
       (if ucast (fid_entry tbl m i) = fid
        then remove_fid_loop tbl fid (n - 1) (i + 1)
          (foldl (\<lambda>m j. set_fid_entry tbl m j (fid_entry tbl m (j + 1))) m [i ..< n - 1])
        else remove_fid_loop tbl fid n (i + 1) m)
     else (m, n))"
    using load32_record [of 24 m "get_fid2name_entry tbl i", where 'a = 192]
    by (subst remove_fid_loop.simps) (simp only: fid_entry_def, simp)
qed

interpretation threads: record_list "thread_entry tbl" "set_thread_entry tbl" max_records
  "\<lambda>tid n i m. remove_thread_loop tbl tid n i m" "\<lambda>tid e. ucast e = tid" for tbl
proof unfold_locales
  fix i j :: nat and m :: mem and v :: thread_entry
  assume "i < max_records"
  show "thread_entry tbl (set_thread_entry tbl m i v) i = v"
    by (simp add: thread_entry_def set_thread_entry_def load_store_same)
  assume "j < max_records" and "i \<noteq> j"
  with \<open>i < max_records\<close> show "thread_entry tbl (set_thread_entry tbl m i v) j = thread_entry tbl m j"
    by (simp add: thread_entry_def set_thread_entry_def get_syscallmap_entry_def load_store_array max_records_def
      del: of_nat_mult)
next
  fix n i :: nat and tid :: u32 and m :: mem
  assume "n < max_records"
  then have "shift_thread_entries tbl [i ..< n - 1] m =
      foldl (\<lambda>m j. set_thread_entry tbl m j (thread_entry tbl m (j + 1))) m [i ..< n - 1]"
    by (intro shift_thread_entries) auto
  then show "remove_thread_loop tbl tid n i m =
    (if i < n then
       (if ucast (thread_entry tbl m i) = tid
        then remove_thread_loop tbl tid (n - 1) (i + 1)
          (foldl (\<lambda>m j. set_thread_entry tbl m j (thread_entry tbl m (j + 1))) m [i ..< n - 1])
        else remove_thread_loop tbl tid n (i + 1) m)
     else (m, n))"
    using load32_record [of 32 m "get_syscallmap_entry tbl i", where 'a = 256]
    by (subst remove_thread_loop.simps) (simp only: thread_entry_def, simp)
qed

subsection \<open>The lists of a machine\<close>

definition open_files :: "machine \<Rightarrow> fid_entry list" where
  "open_files s = map (fid_entry (fmap (vm s)) (ram s)) [0 ..< nOpenFile (vm s)]"

definition waiting :: "machine \<Rightarrow> thread_entry list" where
  "waiting s = map (thread_entry (syscallmap (vm s)) (ram s)) [0 ..< nWaitingThreads (vm s)]"

lemma open_files_entries: "open_files s = files.entries (fmap (vm s)) (ram s) (nOpenFile (vm s))"
  by (simp add: open_files_def files.entries_def)

lemma waiting_entries: "waiting s = threads.entries (syscallmap (vm s)) (ram s) (nWaitingThreads (vm s))"
  by (simp add: waiting_def threads.entries_def)

lemma store_load_frame:
  assumes "8 * n = LENGTH('a)" and "n < 2 ^ 64" and "\<And>x. \<not> in_range p n x \<Longrightarrow> m' x = m x"
  shows "m' = store_le n m p (load_le n m' p :: 'a::len word)"
proof
  fix x
  have "copied m' (store_le n m' p (load_le n m' p :: 'a word)) p p n"
    by (rule store_load_copied) (use assms in auto)
  then have "store_le n m' p (load_le n m' p :: 'a word) x = m' x" by (auto simp: copied_def)
  then show "m' x = store_le n m p (load_le n m' p :: 'a word) x"
    using assms by (simp add: store_le_apply in_range_def split: if_splits)
qed

lemma find_new:
  assumes "\<forall>i < n. \<not> P i" and "P n"
  shows "List.find P [0 ..< Suc n] = Some n"
  unfolding find_Some_iff by (rule exI [of _ n]) (use assms in \<open>auto simp del: upt_Suc\<close>)

lemma find_none: "(\<forall>i < n. \<not> P i) \<Longrightarrow> List.find P [0 ..< n] = None"
  by (auto simp: find_None_iff)

lemma load32_fid_entry: "load32 m (get_fid2name_entry tbl i) = ucast (fid_entry tbl m i)"
  unfolding fid_entry_def by (rule load32_record) simp_all

lemma load32_thread_entry: "load32 m (get_syscallmap_entry tbl i) = ucast (thread_entry tbl m i)"
  unfolding thread_entry_def by (rule load32_record) simp_all

text \<open>Adding a file: the new entry, as the bytes the code writes.\<close>

definition file_record :: "mem \<Rightarrow> u64 \<Rightarrow> u32 \<Rightarrow> u64 \<Rightarrow> mem" where
  "file_record m nxt fid name =
     (memcpy (store32 m nxt fid) (nxt + 4) name VM_MAX_FILENAME)(nxt + 4 + (VM_MAX_FILENAME - 1) := 0)"

lemma memcpy_name:
  assumes "24 \<le> unat (nxt - name)" and "24 \<le> unat (name - nxt)"
  shows "copied (store32 m nxt fid) (memcpy (store32 m nxt fid) (nxt + 4) name VM_MAX_FILENAME) (nxt + 4) name 20"
proof -
  have eq: "(nxt + 4) - name = (nxt - name) + 4" by simp
  have "unat (nxt - name) + unat (name - nxt) = 2 ^ 64"
    using assms unat_sub_if' [of 0 "nxt - name"] u64_bounded [of "nxt - name"] by (auto split: if_splits)
  then have "20 \<le> unat ((nxt + 4) - name)"
    unfolding eq using assms unat_plus_if' [of "nxt - name" 4] by (simp split: if_splits)
  then show ?thesis
    using inline_memcpy_copied [of "nxt + 4" name VM_MAX_FILENAME] by (simp add: memcpy_def VM_MAX_FILENAME_def)
qed

lemma file_record_apply:
  assumes "24 \<le> unat (nxt - name)" and "24 \<le> unat (name - nxt)"
  shows "load32 (file_record m nxt fid name) nxt = fid"
    and "i < 19 \<Longrightarrow> file_record m nxt fid name (nxt + 4 + of_nat i) = m (name + of_nat i)"
    and "file_record m nxt fid name (nxt + 23) = 0"
    and "\<not> in_range nxt 24 x \<Longrightarrow> file_record m nxt fid name x = m x"
proof -
  let ?m = "memcpy (store32 m nxt fid) (nxt + 4) name VM_MAX_FILENAME"
  have c: "copied (store32 m nxt fid) ?m (nxt + 4) name 20"
    by (rule memcpy_name [OF assms])
  have in4: "in_range (nxt + 4) 20 x \<longleftrightarrow> 4 \<le> unat (x - nxt) \<and> unat (x - nxt) < 24" for x
    using in_range_offset [of 4 20 nxt x] by simp
  have last: "nxt + 4 + (VM_MAX_FILENAME - 1) = nxt + 23"
    by (simp add: VM_MAX_FILENAME_def)
  have out: "file_record m nxt fid name x = store32 m nxt fid x" if "unat (x - nxt) < 4 \<or> 24 \<le> unat (x - nxt)" for x
    using that c by (auto simp: file_record_def last copied_def in4)
  have "load32 (file_record m nxt fid name) nxt = load32 (store32 m nxt fid) nxt"
    by (rule load_le_cong) (rule out, simp add: unat_of_nat_u64 del: unat_of_nat)
  then show "load32 (file_record m nxt fid name) nxt = fid" by simp
  show "\<not> in_range nxt 24 x \<Longrightarrow> file_record m nxt fid name x = m x"
    using out [of x] by (simp add: in_range_def store_le_other)
  show "file_record m nxt fid name (nxt + 23) = 0"
    by (simp add: file_record_def last)
  assume i: "i < 19"
  have u: "unat (4 + of_nat i :: u64) = 4 + i"
    using i unat_of_nat_u64 [of "4 + i"] by simp
  then have u': "unat (nxt + 4 + of_nat i - nxt) = 4 + i"
    by (simp add: algebra_simps)
  have "\<not> in_range nxt 4 (name + of_nat i)"
  proof
    have "unat (of_nat i :: u64) = i" using i by (intro unat_of_nat_u64) simp
    moreover assume "in_range nxt 4 (name + of_nat i)"
    then have "unat ((name - nxt) + of_nat i) < 4" by (simp add: in_range_def algebra_simps)
    moreover have "unat (nxt - name) + unat (name - nxt) = 2 ^ 64"
      using assms unat_sub_if' [of 0 "nxt - name"] u64_bounded [of "nxt - name"] by (auto split: if_splits)
    ultimately show False using assms i by (auto simp: unat_plus_if' split: if_splits)
  qed
  then have "store32 m nxt fid (name + of_nat i) = m (name + of_nat i)"
    by (simp add: store_le_other)
  moreover have "nxt + 4 + of_nat i \<noteq> nxt + 23" using u i by (auto simp: add.assoc)
  ultimately show "file_record m nxt fid name (nxt + 4 + of_nat i) = m (name + of_nat i)"
    using c u' i by (simp add: file_record_def last copied_def in4)
qed

lemma vm_add_file_record:
  "vm_add_fileid2name_map fid name s =
     upd_vm (\<lambda>v. v\<lparr>nOpenFile := nOpenFile v + 1\<rparr>)
       (s\<lparr>ram := file_record (ram s) (get_fid2name_entry (fmap (vm s)) (nOpenFile (vm s))) fid name\<rparr>)"
  by (simp add: vm_add_fileid2name_map_def file_record_def Let_def)

lemma open_files_add:
  assumes "nOpenFile (vm s) < max_records"
    and "24 \<le> unat (get_fid2name_entry (fmap (vm s)) (nOpenFile (vm s)) - name)"
    and "24 \<le> unat (name - get_fid2name_entry (fmap (vm s)) (nOpenFile (vm s)))"
  shows "\<exists>e. open_files (vm_add_fileid2name_map fid name s) = open_files s @ [e] \<and> ucast e = fid"
proof -
  let ?p = "get_fid2name_entry (fmap (vm s)) (nOpenFile (vm s))"
  let ?m = "file_record (ram s) ?p fid name"
  note r = file_record_apply [OF assms(2,3)]
  have m: "?m = set_fid_entry (fmap (vm s)) (ram s) (nOpenFile (vm s)) (load_le 24 ?m ?p)"
    unfolding set_fid_entry_def by (rule store_load_frame) (simp_all add: r)
  have "open_files (vm_add_fileid2name_map fid name s) =
      files.entries (fmap (vm s)) ?m (nOpenFile (vm s) + 1)"
    by (simp add: open_files_entries vm_add_file_record upd_vm_def)
  also have "\<dots> = open_files s @ [load_le 24 ?m ?p]"
    by (subst m) (simp only: files.entries_add [OF assms(1)] open_files_entries)
  finally show ?thesis
    using r(1) load32_record [of 24 ?m ?p, where 'a = 192] by auto
qed

lemma fname_lookup:
  "vm_get_fname_from_id s fid =
     (case List.find (\<lambda>i. ucast (open_files s ! i) = fid) [0 ..< nOpenFile (vm s)] of
        None \<Rightarrow> 0 | Some i \<Rightarrow> get_fid2name_entry (fmap (vm s)) i + 4)"
  unfolding vm_get_fname_from_id_def load32_fid_entry
  by (rule arg_cong [where f = "case_option _ _"], rule find_cong) (auto simp: open_files_def)

lemma vm_remove_file_entries:
  assumes "nOpenFile (vm s) < max_records"
  shows "open_files (vm_remove_fileid2name_map fid s) = drop_key (\<lambda>e. ucast e = fid) (open_files s)"
proof -
  obtain m n where r: "remove_fid_loop (fmap (vm s)) fid (nOpenFile (vm s)) 0 (ram s) = (m, n)"
    by (cases "remove_fid_loop (fmap (vm s)) fid (nOpenFile (vm s)) 0 (ram s)")
  show ?thesis
    using files.loop_drop_key(1) [OF assms r]
    by (simp add: open_files_entries vm_remove_fileid2name_map_def r upd_vm_def)
qed

lemma vm_remove_thread_entries:
  assumes "nWaitingThreads (vm s) < max_records"
  shows "waiting (vm_remove_waiting_thread tid s) = drop_key (\<lambda>e. ucast e = tid) (waiting s)"
proof -
  obtain m n where r: "remove_thread_loop (syscallmap (vm s)) tid (nWaitingThreads (vm s)) 0 (ram s) = (m, n)"
    by (cases "remove_thread_loop (syscallmap (vm s)) tid (nWaitingThreads (vm s)) 0 (ram s)")
  show ?thesis
    using threads.loop_drop_key(1) [OF assms r]
    by (simp add: waiting_entries vm_remove_waiting_thread_def r upd_vm_def)
qed

lemma thread_lookup:
  "vm_get_waiting_syscall s tid =
     (case List.find (\<lambda>i. ucast (waiting s ! i) = tid) [0 ..< nWaitingThreads (vm s)] of
        None \<Rightarrow> 0 | Some i \<Rightarrow> get_syscallmap_entry (syscallmap (vm s)) i + 8)"
  unfolding vm_get_waiting_syscall_def load32_thread_entry
  by (rule arg_cong [where f = "case_option _ _"], rule find_cong) (auto simp: waiting_def)

text \<open>Adding a thread: what is written, and that it stays within the entry.\<close>

definition thread_record :: "mem \<Rightarrow> u64 \<Rightarrow> u32 \<Rightarrow> syscall_info \<Rightarrow> mem" where
  "thread_record m p tid info = store_info (store32 m p tid) (p + 8) info"

lemma thread_record_apply:
  shows "load32 (thread_record m p tid info) p = tid"
    and "load_info (thread_record m p tid info) (p + 8) = info"
    and "\<not> in_range p 32 x \<Longrightarrow> thread_record m p tid info x = m x"
proof -
  show "load32 (thread_record m p tid info) p = tid"
    unfolding thread_record_def store_info_def by (simp add: mem_simps)
  show "load_info (thread_record m p tid info) (p + 8) = info"
    unfolding thread_record_def store_info_def load_info_def by (simp add: mem_simps)
  assume x: "\<not> in_range p 32 x"
  have sub: "\<not> in_range (p + of_nat q) n x" if "q + n \<le> 32" for q n
    using that x in_range_offset [of q n p x] by (auto simp: in_range_def)
  have "\<not> in_range p 4 x" "\<not> in_range (p + 8) 4 x" "\<not> in_range (p + 8 + 8) 8 x"
    "\<not> in_range (p + 8 + 16) 4 x" "\<not> in_range (p + 8 + 20) 4 x"
    using sub [of 0 4] sub [of 8 4] sub [of 16 8] sub [of 24 4] sub [of 28 4]
    by (simp_all add: add.assoc)
  then show "thread_record m p tid info x = m x"
    by (simp add: thread_record_def store_info_def store_le_other)
qed

lemma waiting_add:
  assumes "nWaitingThreads (vm s) < max_records"
  shows "\<exists>e. waiting (vm_add_waiting_thread tid info s) = waiting s @ [e] \<and> ucast e = tid"
proof -
  let ?p = "get_syscallmap_entry (syscallmap (vm s)) (nWaitingThreads (vm s))"
  let ?m = "thread_record (ram s) ?p tid info"
  have m: "?m = set_thread_entry (syscallmap (vm s)) (ram s) (nWaitingThreads (vm s)) (load_le 32 ?m ?p)"
    unfolding set_thread_entry_def by (rule store_load_frame) (simp_all add: thread_record_apply)
  have "waiting (vm_add_waiting_thread tid info s) =
      threads.entries (syscallmap (vm s)) ?m (nWaitingThreads (vm s) + 1)"
    by (simp add: waiting_entries vm_add_waiting_thread_def upd_vm_def thread_record_def Let_def)
  also have "\<dots> = waiting s @ [load_le 32 ?m ?p]"
    by (subst m) (simp only: threads.entries_add [OF assms(1)] waiting_entries)
  finally show ?thesis
    using thread_record_apply(1) [of "ram s" ?p tid info] load32_record [of 32 ?m ?p, where 'a = 256] by auto
qed

subsection \<open>Protection of all pages\<close>

lemma pd_get_protect:
  "i < 1024 \<Longrightarrow> pd_get pg (vm_protect_all_page pg m) i = pd_get pg m i AND NOT PTTEF_RW"
  "i < 1024 \<Longrightarrow> pd_get pg (vm_unprotect_page pg m) i = pd_get pg m i OR PTTEF_RW"
proof -
  have mask: "0xFFFFFFFF - PTTEF_RW = NOT PTTEF_RW"
    by (simp add: PTTEF_RW_def)
  show "i < 1024 \<Longrightarrow> pd_get pg (vm_protect_all_page pg m) i = pd_get pg m i AND NOT PTTEF_RW"
    unfolding vm_protect_all_page_def
    by (subst pd.get_map_slots) (simp_all only: mask order_refl simp_thms if_True)
  show "i < 1024 \<Longrightarrow> pd_get pg (vm_unprotect_page pg m) i = pd_get pg m i OR PTTEF_RW"
    unfolding vm_unprotect_page_def
    by (subst pd.get_map_slots) (simp_all only: order_refl simp_thms if_True)
qed

subsection \<open>The lists in the heap after boot\<close>

lemma list_page:
  assumes "low_pages_taken m host"
  obtains m' where "alloc_host_pages m host 1 1 = Some (Inr (32, m'))" and "low_pages_taken m' host"
  using alloc_page_20000 [OF assms] by blast

lemma low_pages_file_record:
  assumes "low_pages_taken m host" and "24 \<le> unat (p - name)" and "24 \<le> unat (name - p)"
    and "0x20000 \<le> unat p" and "unat p + 24 \<le> 0x21000"
  shows "low_pages_taken (file_record m p fid name) host"
proof (rule low_pages_frame [OF assms(1)])
  fix x assume "in_range 0x8100000 8 x"
  then have "\<not> in_range 0x20000 4096 x" by (rule page_20000)
  then have "\<not> in_range p 24 x"
    using assms(4,5) unat_minus_less [of "0x20000" 4096 x] unat_minus_less [of p 24 x] by (auto simp: in_range_def)
  then show "file_record m p fid name x = m x" by (rule file_record_apply(4) [OF assms(2,3)])
qed

text \<open>The addresses of the three literals of \<open>initialize_fid2name_map\<close>: outside the list's page.\<close>

definition literals_apart :: "(string \<Rightarrow> u64) \<Rightarrow> bool" where
  "literals_apart lit \<longleftrightarrow> (\<forall>w \<in> {''stdin'', ''stdout'', ''stderr''}. 0x30000 \<le> unat (lit w))"

lemma literal_gap:
  fixes name p :: u64
  assumes "0x30000 \<le> unat name" and "0x20000 \<le> unat p" and "unat p \<le> 0x20100"
  shows "24 \<le> unat (p - name)" and "24 \<le> unat (name - p)"
  using assms unat_sub_if' [of p name] unat_sub_if' [of name p] u64_bounded [of name] by auto

lemma initialize_fid2name_map_result:
  assumes "low_pages_taken (ram s) host" and "literals_apart lit"
  shows "\<exists>s'. initialize_fid2name_map lit host s = Some (Inr s') \<and> low_pages_taken (ram s') host \<and>
    fmap (vm s') = 0x20000 \<and> map ucast (open_files s') = [0 :: u32, 1, 2]"
proof -
  obtain m where m: "alloc_host_pages (ram s) host 1 1 = Some (Inr (32, m))" "low_pages_taken m host"
    using list_page [OF assms(1)] .
  define s0 where "s0 = upd_vm (\<lambda>v. v\<lparr>nOpenFile := 0, fmap := 0x20000\<rparr>) (s\<lparr>ram := m\<rparr>)"
  define s1 where "s1 = vm_add_fileid2name_map 0 (lit ''stdin'') s0"
  define s2 where "s2 = vm_add_fileid2name_map 1 (lit ''stdout'') s1"
  define s3 where "s3 = vm_add_fileid2name_map 2 (lit ''stderr'') s2"
  note upd = vm_add_file_record upd_vm_def
  have n: "nOpenFile (vm s0) = 0" "nOpenFile (vm s1) = 1" "nOpenFile (vm s2) = 2"
    by (simp_all add: s0_def s1_def s2_def upd)
  have f: "fmap (vm s0) = 0x20000" "fmap (vm s1) = 0x20000" "fmap (vm s2) = 0x20000" "fmap (vm s3) = 0x20000"
    by (simp_all add: s0_def s1_def s2_def s3_def upd)
  have lit: "0x30000 \<le> unat (lit ''stdin'')" "0x30000 \<le> unat (lit ''stdout'')" "0x30000 \<le> unat (lit ''stderr'')"
    using assms(2) by (simp_all add: literals_apart_def)
  note g0 = literal_gap [OF lit(1), of "get_fid2name_entry 0x20000 0"]
  note g1 = literal_gap [OF lit(2), of "get_fid2name_entry 0x20000 1"]
  note g2 = literal_gap [OF lit(3), of "get_fid2name_entry 0x20000 2"]
  have e: "unat (get_fid2name_entry 0x20000 0) = 0x20000" "unat (get_fid2name_entry 0x20000 1) = 0x20018"
    "unat (get_fid2name_entry 0x20000 2) = 0x20030"
    by (simp_all add: get_fid2name_entry_def)
  have l0: "low_pages_taken (ram s0) host" using m(2) by (simp add: s0_def upd_vm_def)
  have l1: "low_pages_taken (ram s1) host"
    using low_pages_file_record [OF l0 g0] e by (simp add: s1_def upd n f)
  have l2: "low_pages_taken (ram s2) host"
    using low_pages_file_record [OF l1 g1] e by (simp add: s2_def upd n f)
  have l3: "low_pages_taken (ram s3) host"
    using low_pages_file_record [OF l2 g2] e by (simp add: s3_def upd n f)
  have o0: "open_files s0 = []" by (simp add: open_files_def n)
  obtain e1 where o1: "open_files s1 = [e1]" "ucast e1 = (0 :: u32)"
    using open_files_add [of s0 "lit ''stdin''" 0] g0 e by (auto simp: n f o0 max_records_def s1_def)
  obtain e2 where o2: "open_files s2 = [e1, e2]" "ucast e2 = (1 :: u32)"
    using open_files_add [of s1 "lit ''stdout''" 1] g1 e by (auto simp: n f o1 max_records_def s2_def)
  obtain e3 where o3: "open_files s3 = [e1, e2, e3]" "ucast e3 = (2 :: u32)"
    using open_files_add [of s2 "lit ''stderr''" 2] g2 e by (auto simp: n f o2 max_records_def s3_def)
  have "push_bit PAGE_SHIFT (32 :: u64) = 0x20000" by simp
  then have "initialize_fid2name_map lit host s = Some (Inr s3)"
    by (simp add: initialize_fid2name_map_def m s0_def s1_def s2_def s3_def Let_def)
  then show ?thesis using l3 f(4) o1 o2 o3 by simp
qed

subsection \<open>Properties\<close>

text \<open>A machine with a given memory and \<open>vm_info\<close>, and nothing else set.\<close>

definition blank_machine :: "mem \<Rightarrow> vm_info \<Rightarrow> machine" where
  "blank_machine m v = \<lparr>ram = m, vm = v, vcb = zero_vmcb,
     regs = \<lparr>g_rbp = 0, g_rbx = 0, g_rcx = 0, g_rdx = 0, g_rsi = 0, g_rdi = 0\<rparr>, con = [], uninit = 0\<rparr>"

lemma blank_machine_simps [simp]:
  "ram (blank_machine m v) = m" "vm (blank_machine m v) = v" "vcb (blank_machine m v) = zero_vmcb"
  "con (blank_machine m v) = []" "uninit (blank_machine m v) = 0"
  by (simp_all add: blank_machine_def)

lemma load_le_zero [simp]: "load_le n (\<lambda>_. 0) p = 0"
  by (rule bit_word_eqI) (simp add: bit_load_le)

lemma open_files_length [simp]: "length (open_files s) = nOpenFile (vm s)"
  by (simp add: open_files_def)

lemma waiting_length [simp]: "length (waiting s) = nWaitingThreads (vm s)"
  by (simp add: waiting_def)

lemma nOpenFile_add [simp]: "nOpenFile (vm (vm_add_fileid2name_map fid name s)) = Suc (nOpenFile (vm s))"
  "fmap (vm (vm_add_fileid2name_map fid name s)) = fmap (vm s)"
  by (simp_all add: vm_add_file_record upd_vm_def)

lemma nWaitingThreads_add [simp]:
  "nWaitingThreads (vm (vm_add_waiting_thread tid info s)) = Suc (nWaitingThreads (vm s))"
  "syscallmap (vm (vm_add_waiting_thread tid info s)) = syscallmap (vm s)"
  by (simp_all add: vm_add_waiting_thread_def upd_vm_def Let_def)

lemma fname_lookup_absent:
  "\<forall>e \<in> set (open_files s). ucast e \<noteq> fid \<Longrightarrow> vm_get_fname_from_id s fid = 0"
  unfolding fname_lookup by (subst find_none) (auto dest!: nth_mem simp flip: open_files_length)

lemma thread_lookup_absent:
  "\<forall>e \<in> set (waiting s). ucast e \<noteq> tid \<Longrightarrow> vm_get_waiting_syscall s tid = 0"
  unfolding thread_lookup by (subst find_none) (auto dest!: nth_mem simp flip: waiting_length)

lemma cstr_take:
  assumes "cstr m q str" and "\<And>i. i < k \<Longrightarrow> m' (p + of_nat i) = m (q + of_nat i)" and "m' (p + of_nat k) = 0"
  shows "cstr m' p (take k str)"
proof (cases "length str < k")
  case True
  then have "\<forall>i \<le> length str. m' (p + of_nat i) = m (q + of_nat i)" using assms(2) by simp
  then show ?thesis using True assms(1) by (auto simp: cstr_def)
next
  case False
  then show ?thesis using assms by (auto simp: cstr_def min_def)
qed

text \<open>Recording a newly opened file appends one entry to the list of open files; a lookup of its
  descriptor, which no earlier entry had, then gives the address of a string that holds the first
  19 characters of the file's name.\<close>

theorem open_file_recorded:
  assumes "nOpenFile (vm s) < max_records"
    and "p = get_fid2name_entry (fmap (vm s)) (nOpenFile (vm s))"
    and "24 \<le> unat (p - name)" and "24 \<le> unat (name - p)"
    and "\<forall>e \<in> set (open_files s). ucast e \<noteq> fid"
    and "cstr (ram s) name str"
  shows "(\<exists>e. open_files (vm_add_fileid2name_map fid name s) = open_files s @ [e] \<and> ucast e = fid) \<and>
    vm_get_fname_from_id (vm_add_fileid2name_map fid name s) fid = p + 4 \<and>
    cstr (ram (vm_add_fileid2name_map fid name s)) (p + 4) (take 19 str)"
proof (intro conjI)
  let ?s = "vm_add_fileid2name_map fid name s"
  show e: "\<exists>e. open_files ?s = open_files s @ [e] \<and> ucast e = fid"
    using open_files_add [of s name fid] assms by simp
  then have new: "\<forall>i < nOpenFile (vm s). ucast (open_files ?s ! i) \<noteq> fid"
    "ucast (open_files ?s ! nOpenFile (vm s)) = fid"
    using assms(5) by (auto simp: nth_append)
  show "vm_get_fname_from_id ?s fid = p + 4"
    unfolding fname_lookup nOpenFile_add find_new [OF new] using assms(2) by simp
  have m: "ram ?s = file_record (ram s) p fid name"
    using assms(2) by (simp add: vm_add_file_record upd_vm_def)
  have last: "p + 4 + of_nat 19 = p + 23" by simp
  show "cstr (ram ?s) (p + 4) (take 19 str)"
    unfolding m by (rule cstr_take [OF assms(6)], erule file_record_apply(2) [OF assms(3,4)])
      (simp only: last file_record_apply(3) [OF assms(3,4)])
qed

theorem open_file_recorded_witness:
  "vm_get_fname_from_id (vm_add_fileid2name_map 3 0x9000
     (blank_machine ((\<lambda>_. 0)(0x9000 := 0x61)) (zero_vm_info\<lparr>fmap := 0x20000\<rparr>))) 3 = 0x20004"
  using open_file_recorded [of "blank_machine ((\<lambda>_. 0)(0x9000 := 0x61)) (zero_vm_info\<lparr>fmap := 0x20000\<rparr>)"
      "0x20000" "0x9000" 3 "[0x61]"]
  by (simp add: zero_vm_info_def max_records_def get_fid2name_entry_def open_files_def)

text \<open>Removing a descriptor from the list of open files leaves the other entries in their order, but
  an entry is skipped when the one before it was removed; when no two neighbours have the descriptor,
  none is left and a lookup finds nothing.\<close>

theorem close_file_removes:
  assumes "nOpenFile (vm s) < max_records"
  shows "open_files (vm_remove_fileid2name_map fid s) = drop_key (\<lambda>e. ucast e = fid) (open_files s) \<and>
    ((\<forall>i. Suc i < nOpenFile (vm s) \<longrightarrow> ucast (open_files s ! i) = fid \<longrightarrow> ucast (open_files s ! Suc i) \<noteq> fid) \<longrightarrow>
     open_files (vm_remove_fileid2name_map fid s) = filter (\<lambda>e. ucast e \<noteq> fid) (open_files s) \<and>
     vm_get_fname_from_id (vm_remove_fileid2name_map fid s) fid = 0)"
  using vm_remove_file_entries [OF assms, of fid]
    drop_key_filter [of "open_files s" "\<lambda>e. ucast e = fid"]
  by (auto intro: fname_lookup_absent)

theorem close_file_removes_witness:
  "open_files (vm_remove_fileid2name_map 3
     (blank_machine (\<lambda>_. 0) (zero_vm_info\<lparr>fmap := 0x20000, nOpenFile := 2\<rparr>))) = [0, 0]"
proof -
  let ?s = "blank_machine (\<lambda>_. 0) (zero_vm_info\<lparr>fmap := 0x20000, nOpenFile := 2\<rparr>)"
  have o: "open_files ?s = [0, 0]" by (simp add: open_files_def fid_entry_def numeral_2_eq_2)
  show ?thesis
    using close_file_removes [of ?s 3] unfolding o by (simp add: max_records_def)
qed

text \<open>Two entries of one descriptor, next to each other: the second stays.\<close>

lemma close_file_leaves_duplicate:
  assumes "nOpenFile (vm s) < max_records" and "open_files s = xs @ [e, e']"
    and "\<forall>x \<in> set xs. ucast x \<noteq> fid" and "ucast e = fid" and "ucast e' = fid"
  shows "open_files (vm_remove_fileid2name_map fid s) = xs @ [e']"
proof -
  have "drop_key (\<lambda>e. ucast e = fid) (xs @ [e, e']) = xs @ [e']"
    using assms(3,4) by (induction xs) auto
  then show ?thesis using vm_remove_file_entries [OF assms(1), of fid] assms(2) by simp
qed

lemma added_thread_lookup:
  assumes "nWaitingThreads (vm s) + 1 < max_records"
    and "\<forall>e \<in> set (waiting s). ucast e \<noteq> tid"
  shows "load_info (ram (vm_add_waiting_thread tid info s))
      (vm_get_waiting_syscall (vm_add_waiting_thread tid info s) tid) = info"
proof -
  let ?s = "vm_add_waiting_thread tid info s"
  obtain e where e: "waiting ?s = waiting s @ [e]" "ucast e = tid"
    using waiting_add [of s tid info] assms(1) by auto
  then have new: "\<forall>i < nWaitingThreads (vm s). ucast (waiting ?s ! i) \<noteq> tid"
    "ucast (waiting ?s ! nWaitingThreads (vm s)) = tid"
    using assms(2) by (auto simp: nth_append)
  have p: "vm_get_waiting_syscall ?s tid = get_syscallmap_entry (syscallmap (vm s)) (nWaitingThreads (vm s)) + 8"
    unfolding thread_lookup nWaitingThreads_add find_new [OF new] by simp
  have m: "ram ?s = thread_record (ram s) (get_syscallmap_entry (syscallmap (vm s)) (nWaitingThreads (vm s))) tid info"
    by (simp add: vm_add_waiting_thread_def upd_vm_def thread_record_def Let_def)
  show ?thesis by (simp add: p m thread_record_apply(2))
qed

lemma added_thread_removed:
  assumes "nWaitingThreads (vm s) + 1 < max_records"
    and "\<forall>e \<in> set (waiting s). ucast e \<noteq> tid"
  shows "waiting (vm_remove_waiting_thread tid (vm_add_waiting_thread tid info s)) = waiting s"
proof -
  let ?s = "vm_add_waiting_thread tid info s"
  obtain e where e: "waiting ?s = waiting s @ [e]" "ucast e = tid"
    using waiting_add [of s tid info] assms(1) by auto
  have "drop_key (\<lambda>e. ucast e = tid) (xs @ [e]) = xs" if "\<forall>x \<in> set xs. ucast x \<noteq> tid" for xs
    using that e(2) by (induction xs) auto
  then show ?thesis
    using vm_remove_thread_entries [of ?s tid] assms e(1) by simp
qed

text \<open>A thread that starts to wait for a system call is found with exactly the call it waits for, and
  is no longer found after it is removed.\<close>

theorem waiting_thread_roundtrip:
  assumes "nWaitingThreads (vm s) + 1 < max_records"
    and "\<forall>e \<in> set (waiting s). ucast e \<noteq> tid"
  shows "load_info (ram (vm_add_waiting_thread tid info s))
      (vm_get_waiting_syscall (vm_add_waiting_thread tid info s) tid) = info \<and>
    waiting (vm_remove_waiting_thread tid (vm_add_waiting_thread tid info s)) = waiting s \<and>
    vm_get_waiting_syscall (vm_remove_waiting_thread tid (vm_add_waiting_thread tid info s)) tid = 0"
  using assms by (simp add: added_thread_lookup added_thread_removed thread_lookup_absent)

theorem waiting_thread_roundtrip_witness:
  "vm_get_waiting_syscall (vm_remove_waiting_thread 7 (vm_add_waiting_thread 7
      \<lparr>syscallno = 3, arg = 0x1000, datasize = 8, socketno = 0\<rparr>
      (blank_machine (\<lambda>_. 0) (zero_vm_info\<lparr>syscallmap := 0x20000, nWaitingThreads := 1\<rparr>)))) 7 = 0"
  using waiting_thread_roundtrip [of "blank_machine (\<lambda>_. 0) (zero_vm_info\<lparr>syscallmap := 0x20000, nWaitingThreads := 1\<rparr>)"
      7 "\<lparr>syscallno = 3, arg = 0x1000, datasize = 8, socketno = 0\<rparr>"]
  by (simp add: waiting_def thread_entry_def max_records_def)

text \<open>Protecting all pages of a table and then unprotecting them does not restore it: every one of its
  1024 entries ends up writable, also those that were read-only before.\<close>

theorem unprotect_after_protect:
  "i < 1024 \<Longrightarrow> pd_get pg (vm_unprotect_page pg (vm_protect_all_page pg m)) i = pd_get pg m i OR PTTEF_RW"
  by (rule bit_word_eqI) (auto simp: pd_get_protect bit_simps)

theorem unprotect_after_protect_witness:
  "pd_get 0x20000 (vm_unprotect_page 0x20000 (vm_protect_all_page 0x20000 (\<lambda>_. 0))) 5 = PTTEF_RW"
  using unprotect_after_protect [of 5 "0x20000" "\<lambda>_. 0"] by (simp add: pd_get_def)

text \<open>The bits that a set of flags without \<open>USER_UNPACK\<close> stands for.\<close>

definition flag_bits32 :: "u32 \<Rightarrow> (u32 \<times> u32) list \<Rightarrow> u32" where
  "flag_bits32 flags bs = fold (\<lambda>(f, b) w. if ctrue (flags AND f) then w OR b else w) bs 0"

definition cr_bits :: "u32 \<Rightarrow> u32" where
  "cr_bits flags = flag_bits32 flags [(USER_ITC_TASKSWITCH, INTRCPT_WRITE_CR3)]"

definition general1_bits :: "u32 \<Rightarrow> u32" where
  "general1_bits flags = flag_bits32 flags
     [(USER_ITC_SWINT, INTRCPT_INTN), (USER_ITC_IRET, INTRCPT_IRET), (USER_ITC_SYSCALL, INTRCPT_INTN)]"

definition exception_bits :: "u32 \<Rightarrow> u32" where
  "exception_bits flags = flag_bits32 flags [(USER_SINGLE_STEPPING, INTRCPT_DB)]"

definition tf_bits :: "u32 \<Rightarrow> u64" where
  "tf_bits flags = (if ctrue (flags AND USER_SINGLE_STEPPING) then X86_RFLAGS_TF else 0)"

lemma or_and_not: "(w OR b) AND NOT b = w AND NOT b" for w b :: "'a::len word"
  by (rule bit_word_eqI) (auto simp: bit_simps)

lemma vm_enable_intercept_bits:
  assumes "\<not> ctrue (flags AND USER_UNPACK)"
  shows "vm_enable_intercept flags s = s\<lparr>vcb := (vcb s)\<lparr>
    cr_intercepts := cr_intercepts (vcb s) OR cr_bits flags,
    general1_intercepts := general1_intercepts (vcb s) OR general1_bits flags,
    exception_intercepts := exception_intercepts (vcb s) OR exception_bits flags,
    rflags := rflags (vcb s) OR tf_bits flags\<rparr>\<rparr>"
  using assms
  by (simp add: vm_enable_intercept_def when_flag_def Let_def upd_vcb_def cr_bits_def general1_bits_def
    exception_bits_def tf_bits_def flag_bits32_def or.assoc ac_simps)

lemma vm_disable_intercept_bits:
  assumes "\<not> ctrue (flags AND USER_UNPACK)"
  shows "vm_disable_intercept flags s = s\<lparr>vcb := (vcb s)\<lparr>
    cr_intercepts := cr_intercepts (vcb s) AND NOT (cr_bits flags),
    general1_intercepts := general1_intercepts (vcb s) AND NOT (general1_bits flags),
    exception_intercepts := exception_intercepts (vcb s) AND NOT (exception_bits flags),
    rflags := rflags (vcb s) AND NOT (tf_bits flags)\<rparr>\<rparr>"
  using assms
  by (simp add: vm_disable_intercept_def when_flag_def Let_def upd_vcb_def cr_bits_def general1_bits_def
    exception_bits_def tf_bits_def flag_bits32_def ac_simps)



text \<open>On the allocator's state after boot the open files, the waiting threads and the tracked
  processes all get the same page, 0x20000, because each allocation of one page returns the same
  page.  The first thread that waits for a system call then overwrites the entry of the standard
  input in the list of open files.\<close>

theorem vm_lists_share_page:
  assumes "low_pages_taken (ram s) host" and "literals_apart lit"
  shows "\<exists>s'. bindo (initialize_fid2name_map lit host s)
      (\<lambda>s. bindo (initialize_syscallmap host s) (initialize_ptracked_list host)) = Some (Inr s') \<and>
    fmap (vm s') = 0x20000 \<and> syscallmap (vm s') = 0x20000 \<and> ptracked (vm s') = 0x20000 \<and>
    ucast (open_files (vm_add_waiting_thread tid info s') ! 0) = tid"
proof -
  obtain s1 where s1: "initialize_fid2name_map lit host s = Some (Inr s1)" "low_pages_taken (ram s1) host"
    "fmap (vm s1) = 0x20000" "map ucast (open_files s1) = [0 :: u32, 1, 2]"
    using initialize_fid2name_map_result [OF assms] by (elim exE conjE) (rule that)
  have n: "nOpenFile (vm s1) = 3"
    using arg_cong [OF s1(4), of length] by (simp only: length_map open_files_length) simp
  obtain m2 where m2: "alloc_host_pages (ram s1) host 1 1 = Some (Inr (32, m2))" "low_pages_taken m2 host"
    using list_page [OF s1(2)] .
  obtain m3 where m3: "alloc_host_pages m2 host 1 1 = Some (Inr (32, m3))"
    using list_page [OF m2(2)] .
  have pg: "push_bit PAGE_SHIFT (32 :: u64) = 0x20000" by simp
  define s3 where "s3 = upd_vm (\<lambda>v. v\<lparr>btrackcurrent := 0, nTrackedProcess := 0, ptracked := 0x20000\<rparr>)
    (upd_vm (\<lambda>v. v\<lparr>nWaitingThreads := 0, syscallmap := 0x20000\<rparr>) (s1\<lparr>ram := m2\<rparr>)\<lparr>ram := m3\<rparr>)"
  have "bindo (initialize_syscallmap host s1) (initialize_ptracked_list host) = Some (Inr s3)"
    unfolding initialize_syscallmap_def m2 bindo_simps prod.case pg
    by (simp add: initialize_ptracked_list_def upd_vm_def m3 s3_def)
  moreover have "fmap (vm s3) = 0x20000" "syscallmap (vm s3) = 0x20000" "ptracked (vm s3) = 0x20000"
    "nOpenFile (vm s3) = 3" "nWaitingThreads (vm s3) = 0"
    using s1(3) n by (simp_all add: s3_def upd_vm_def)
  moreover from this(1,2,4,5) have "ucast (open_files (vm_add_waiting_thread tid info s3) ! 0) = tid"
    using thread_record_apply(1) [of "ram s3" "get_syscallmap_entry 0x20000 0" tid info]
      load32_fid_entry [of "thread_record (ram s3) (get_syscallmap_entry 0x20000 0) tid info" "0x20000" 0]
    by (simp add: open_files_def vm_add_waiting_thread_def upd_vm_def thread_record_def Let_def
      get_fid2name_entry_def get_syscallmap_entry_def nth_map_upt)
  ultimately show ?thesis unfolding s1(1) by auto
qed

theorem vm_lists_share_page_witness:
  "\<exists>s'. bindo (initialize_fid2name_map (\<lambda>_. 0x40000) \<lparr>alloc_bitmap = 0x8100000, max_page = 0x10000\<rparr>
        (blank_machine (\<lambda>_. 0xFF) zero_vm_info))
      (\<lambda>s. bindo (initialize_syscallmap \<lparr>alloc_bitmap = 0x8100000, max_page = 0x10000\<rparr> s)
        (initialize_ptracked_list \<lparr>alloc_bitmap = 0x8100000, max_page = 0x10000\<rparr>)) = Some (Inr s') \<and>
    fmap (vm s') = 0x20000 \<and> syscallmap (vm s') = 0x20000 \<and> ptracked (vm s') = 0x20000 \<and>
    ucast (open_files (vm_add_waiting_thread 7 (load_info (\<lambda>_. 0) 0) s') ! 0) = (7 :: u32)"
proof (rule vm_lists_share_page)
  show "low_pages_taken (ram (blank_machine (\<lambda>_. 0xFF) zero_vm_info))
      \<lparr>alloc_bitmap = 0x8100000, max_page = 0x10000\<rparr>"
    unfolding blank_machine_simps by (rule low_pages_example)
qed (simp add: literals_apart_def)

subsection \<open>Requests for a few pages\<close>

text \<open>The first \<open>k\<close> low pages are taken, the others of the first 32 are free.  The allocator answers a
  request of one to three pages with page \<open>k\<close>; after start-up \<open>k\<close> is 32, and so is the answer each time.\<close>

definition pages_from :: "mem \<Rightarrow> naive_allocator \<Rightarrow> nat \<Rightarrow> bool" where
  "pages_from m host k \<longleftrightarrow> k \<le> 32 \<and> (\<forall>p < 32. page_bit m (alloc_bitmap host) p \<longleftrightarrow> p < k) \<and>
     alloc_bitmap host = 0x8100000 \<and> 35 < unat (max_page host) \<and> unat (max_page host) + 4 < 2 ^ 64"

abbreviation few_pages :: "mem \<Rightarrow> naive_allocator \<Rightarrow> bool" where
  "few_pages m host \<equiv> pages_from m host 32"

abbreviation page_at :: "nat \<Rightarrow> u64" where "page_at k \<equiv> push_bit PAGE_SHIFT (of_nat k)"

lemma few_pages_low:
  "few_pages m host \<longleftrightarrow> low_pages_taken m host \<and> 35 < unat (max_page host) \<and> unat (max_page host) + 4 < 2 ^ 64"
  by (auto simp: pages_from_def low_pages_taken_def)

lemma unat_page_at: "k \<le> 32 \<Longrightarrow> unat (page_at k) = 4096 * k"
  using unat_of_nat_u64 [of "4096 * k"] by (simp add: push_bit_eq_mult mult.commute)

lemma alloc_pages_from:
  assumes "pages_from m host k" and "0 < unat n" and "unat n \<le> 3"
  shows "\<exists>m'. alloc_host_pages m host n 1 = Some (Inr (of_nat k, m')) \<and> pages_from m' host (min 32 (k + unat n))"
  using alloc_low_pages [of m host k n] assms by (auto simp: pages_from_def)

lemma pages_from_frame:
  assumes "pages_from m host k" and "\<And>x. in_range 0x8100000 8 x \<Longrightarrow> m' x = m x"
  shows "pages_from m' host k"
proof -
  have "m' (0x8100000 + of_nat i) = m (0x8100000 + of_nat i)" if "i < 8" for i :: nat
    using that assms(2) by (simp add: in_range_def unat_of_nat_u64 del: unat_of_nat)
  then have "page_bit m' 0x8100000 p = page_bit m 0x8100000 p" if "p < 32" for p
    using that by (intro page_bit_cong) simp_all
  then show ?thesis using assms(1) by (auto simp: pages_from_def)
qed

lemma pages_from_memset:
  assumes "pages_from m host k" and "j \<le> 32" and "unat n \<le> 12288"
  shows "pages_from (memset m (page_at j) c n) host k"
proof (rule pages_from_frame [OF assms(1)])
  fix x :: u64
  assume "in_range 0x8100000 8 x"
  then have "unat x \<ge> 0x8100000"
    using unat_minus_less [of "0x8100000" 8 x] by (simp add: in_range_def)
  then have "unat (x - page_at j) \<ge> 0x8000000"
    using unat_page_at [OF assms(2)] assms(2) by (simp add: unat_sub_if')
  then have "\<not> in_range (page_at j) (unat n) x" using assms(3) by (simp add: in_range_def)
  then show "memset m (page_at j) c n x = m x" by (simp add: memset_apply)
qed

lemma create_intercept_table_from:
  assumes "pages_from m host k" and "sz \<in> {push_bit 10 12, push_bit 10 8, push_bit 10 4}"
  shows "\<exists>m'. create_intercept_table m host sz = Some (Inr (page_at k, m')) \<and>
    pages_from m' host (min 32 (k + unat sz div 4096))"
proof -
  have n: "0 < unat (drop_bit PAGE_SHIFT sz)" "unat (drop_bit PAGE_SHIFT sz) \<le> 3" "unat sz \<le> 12288"
      "unat (drop_bit PAGE_SHIFT sz) = unat sz div 4096"
    using assms(2) by (auto simp: drop_bit_eq_div push_bit_eq_mult unat_div)
  obtain m1 where "alloc_host_pages m host (drop_bit PAGE_SHIFT sz) 1 = Some (Inr (of_nat k, m1))"
      "pages_from m1 host (min 32 (k + unat sz div 4096))"
    using alloc_pages_from [OF assms(1) n(1,2)] unfolding n(4) by blast
  moreover have "k \<le> 32" using assms(1) by (simp add: pages_from_def)
  ultimately show ?thesis
    using pages_from_memset [OF _ _ n(3), of m1 host _ k 0] by (simp add: create_intercept_table_def)
qed

subsection \<open>The pages of the guest\<close>

text \<open>What the loop of \<open>create_2mb_nested_pagetable\<close> maps, when the monitor is in the pages \<open>k\<close> up to \<open>l\<close> of
  2 MB: the pages below 2 GB, without those from the one before the monitor's first to its last.\<close>

definition visible_pages :: "nat \<Rightarrow> nat \<Rightarrow> u64 list" where
  "visible_pages k l = map (\<lambda>i. of_nat (i * 2 ^ 21)) (filter (\<lambda>i. i + 1 < k \<or> l \<le> i) [0 ..< 1024])"

primrec map_pages :: "naive_allocator \<Rightarrow> u64 \<Rightarrow> u64 list \<Rightarrow> mem \<Rightarrow> (mem \<times> out_call list) run" where
  "map_pages host pg [] m = Some (Inr (m, []))"
| "map_pages host pg (g # rest) m =
     bindo (mmap_pml4 m host pg g g True) (\<lambda>(m, calls).
     bindo (map_pages host pg rest m) (\<lambda>(m, calls'). Some (Inr (m, calls @ calls'))))"

lemma bindo_trace: "bindo r (\<lambda>(m, calls). Some (Inr (m, calls))) = (r :: ('a \<times> 'b) run)"
  by (simp add: bindo_def split: option.splits sum.splits)

lemma small_page_address:
  assumes "i < 1024"
  shows "shl_int (of_nat i) 21 = of_nat (i * 2 ^ 21)" and "unat (of_nat (i * 2 ^ 21) :: u64) = i * 2 ^ 21"
proof -
  define n where "n = i * 2 ^ 21"
  have n: "n < 2 ^ 31" using assms by (simp add: n_def)
  have u: "unat (of_nat n :: u32) = n" "unat (of_nat n :: u64) = n" using n by (simp_all add: unat_of_nat)
  then have "\<not> bit (of_nat n :: u32) 31" using n by (simp add: bit_word_unat)
  then have "(scast (of_nat n :: u32) :: u64) = ucast (of_nat n :: u32)"
    by (rule scast_low)
  also have "\<dots> = of_nat n" using u by (simp add: word_unat_eq_iff)
  finally have "scast (of_nat n :: u32) = (of_nat n :: u64)" .
  moreover have "push_bit 21 (of_nat i :: u32) = of_nat n" by (simp add: push_bit_eq_mult n_def)
  ultimately show "shl_int (of_nat i) 21 = of_nat (i * 2 ^ 21)" by (simp only: shl_int_def n_def)
  show "unat (of_nat (i * 2 ^ 21) :: u64) = i * 2 ^ 21" using u(2) by (simp only: n_def)
qed

lemma page_bounds:
  assumes "k + 2 \<le> l" and "0 < c"
  shows "k * c \<le> i * c \<and> i * c \<le> l * c - 1 \<or> k * c \<le> i * c + c \<and> i * c + 2 * c \<le> l * c - 1 \<longleftrightarrow>
    \<not> (i + 1 < k \<or> l \<le> (i :: nat))"
proof -
  have "0 < l * c" using assms by simp
  have pred: "m \<le> n - 1 \<longleftrightarrow> m < n" if "0 < n" for m n :: nat using that by arith
  have lt: "x * c \<le> l * c - 1 \<longleftrightarrow> x < l" for x
    unfolding pred [OF \<open>0 < l * c\<close>] using assms(2) by simp
  have "i * c + c = (i + 1) * c" "i * c + 2 * c = (i + 2) * c" by (simp_all add: algebra_simps)
  then show ?thesis using assms by (simp only: lt mult_le_cancel2 mult_less_cancel2) auto
qed

lemma unat_pred: "0 < b \<Longrightarrow> b \<le> 2 ^ 31 \<Longrightarrow> unat (of_nat b - 1 :: u64) = b - 1"
  using unat_of_nat_u64 [of "b - 1"] by (simp add: of_nat_diff Suc_leI)

lemma unat_page_after:
  "unat w < 2 ^ 31 \<Longrightarrow> unat (w + PAGE_SIZE_2MB) = unat w + 2 ^ 21"
  "unat w < 2 ^ 31 \<Longrightarrow> unat (w + PAGE_SIZE_4MB) = unat w + 2 * 2 ^ 21"
  by (simp_all add: PAGE_SIZE_2MB_def PAGE_SIZE_4MB_def unat_plus_if')

lemma skipped_pages:
  assumes "i < 1024" and "unat a = k * 2 ^ 21" and "k + 2 \<le> l" and "l \<le> 1024"
  shows "skipped a (of_nat (l * 2 ^ 21) - 1) PAGE_SIZE_2MB PAGE_SIZE_4MB (of_nat (i * 2 ^ 21)) \<longleftrightarrow>
    \<not> (i + 1 < k \<or> l \<le> i)"
proof -
  have "l * 2 ^ 21 \<le> 1024 * 2 ^ 21" by (rule mult_le_mono1) (rule assms(4))
  moreover have "0 < l * 2 ^ 21" using assms(3) by simp
  ultimately have e: "unat (of_nat (l * 2 ^ 21) - 1 :: u64) = l * 2 ^ 21 - 1"
    by (intro unat_pred) simp_all
  note n = small_page_address(2) [OF assms(1)]
  have "i * 2 ^ 21 < 1024 * 2 ^ 21" using assms(1) by simp
  then have lt: "unat (of_nat (i * 2 ^ 21) :: u64) < 2 ^ 31" unfolding n by simp
  show ?thesis
    unfolding skipped_def word_le_nat_alt e unat_page_after [OF lt] n assms(2)
    by (rule page_bounds [OF assms(3)]) simp
qed

lemma map_2mb_loop_pages:
  assumes "unat a = k * 2 ^ 21" and "k + 2 \<le> l" and "l \<le> 1024" and "i + n \<le> 1024"
  shows "map_2mb_loop n host pg a (of_nat (l * 2 ^ 21) - 1) i m =
    map_pages host pg (map (\<lambda>i. of_nat (i * 2 ^ 21)) (filter (\<lambda>i. i + 1 < k \<or> l \<le> i) [i ..< i + n])) m"
  using assms(4)
proof (induction n arbitrary: i m)
  case (Suc n)
  then have i: "i < 1024" by simp
  have f: "map_2mb_loop n host pg a (of_nat (l * 2 ^ 21) - 1) (i + 1) =
      map_pages host pg (map (\<lambda>i. of_nat (i * 2 ^ 21)) (filter (\<lambda>i. i + 1 < k \<or> l \<le> i) [i + 1 ..< i + Suc n]))"
    using Suc.IH [of "i + 1"] Suc.prems by (simp add: fun_eq_iff)
  have u: "[i ..< i + Suc n] = i # [i + 1 ..< i + Suc n]" by (simp add: upt_conv_Cons)
  show ?case
    unfolding map_2mb_loop.simps Let_def f u small_page_address(1) [OF i] skipped_pages [OF i assms(1-3)]
    by (simp add: bindo_trace del: upt_Suc)
qed simp

lemma unat_PAGE_DOWN_2MB: "unat (PAGE_DOWN_2MB p) = unat p div 2 ^ 21 * 2 ^ 21"
proof -
  have "PAGE_DOWN_2MB p = push_bit 21 (drop_bit 21 p)"
    using and_not_low_mask [of p 21] by (simp add: PAGE_DOWN_2MB_def PAGE_MASK_2MB_def PAGE_SIZE_2MB_def)
  then show ?thesis by (simp only: unat_push_drop)
qed

lemma PAGE_UP_2MB_nat:
  assumes "unat p \<le> 2 ^ 31"
  shows "PAGE_UP_2MB p = of_nat ((unat p + (2 ^ 21 - 1)) div 2 ^ 21 * 2 ^ 21)"
proof -
  have "PAGE_UP_2MB p = PAGE_DOWN_2MB (p + (PAGE_SIZE_2MB - 1))" by (simp add: PAGE_UP_2MB_def PAGE_DOWN_2MB_def)
  moreover have "unat (p + (PAGE_SIZE_2MB - 1)) = unat p + (2 ^ 21 - 1)"
    using assms by (simp add: PAGE_SIZE_2MB_def unat_plus_if')
  ultimately have "unat (PAGE_UP_2MB p) = (unat p + (2 ^ 21 - 1)) div 2 ^ 21 * 2 ^ 21"
    by (simp only: unat_PAGE_DOWN_2MB)
  then show ?thesis by (metis unat_of_nat_u64 u64_bounded word_unat_eq_iff)
qed

lemma monitor_pages:
  assumes "k = unat start div 2 ^ 21" and "l = (unat start + unat sz + (2 ^ 21 - 1)) div 2 ^ 21"
    and "2 ^ 22 \<le> unat sz" and "unat start + unat sz \<le> 2 ^ 31"
  shows "k + 2 \<le> l" "l \<le> 1024" "k * 2 ^ 21 \<le> unat start" "unat start + unat sz \<le> l * 2 ^ 21"
proof -
  define p :: nat where "p = 2 ^ 21"
  have p: "0 < p" by (simp add: p_def)
  have "(unat start + 2 * p) div p \<le> (unat start + unat sz + (p - 1)) div p"
    by (rule div_le_mono) (use assms(3) in \<open>simp add: p_def\<close>)
  then show "k + 2 \<le> l" using p unfolding assms(1,2) p_def [symmetric] by simp
  have "(unat start + unat sz + (p - 1)) div p \<le> (1024 * p + (p - 1)) div p"
    by (rule div_le_mono) (use assms(4) in \<open>simp add: p_def\<close>)
  moreover have "(1024 * p + (p - 1)) div p = 1024"
    by (subst div_mult_self3) (use p in simp_all)
  ultimately show "l \<le> 1024" unfolding assms(2) p_def [symmetric] by simp
  show "k * 2 ^ 21 \<le> unat start" unfolding assms(1) by simp
  have "n \<le> (n + (p - 1)) div p * p" for n :: nat
    using div_mult_mod_eq [of "n + (p - 1)" p] mod_less_divisor [OF p, of "n + (p - 1)"] by linarith
  then show "unat start + unat sz \<le> l * 2 ^ 21" unfolding assms(2) p_def [symmetric] .
qed

lemma nested_table_calls:
  assumes "k = unat start div 2 ^ 21" and "l = (unat start + unat sz + (2 ^ 21 - 1)) div 2 ^ 21"
    and "2 ^ 22 \<le> unat sz" and "unat start + unat sz \<le> 2 ^ 31"
  shows "create_2mb_nested_pagetable host start sz s =
      bindo (pml4_table_alloc (ram s) host) (\<lambda>(pg, m).
        bindo (map_pages host pg (visible_pages k l) m) (\<lambda>(m, calls).
          Some (Inr (pg, say (line ''Nested page table created.'') []
            ((say_all calls (say (line ''VMM start = %x; VMM end = %x.'')
              [ArgX (PAGE_DOWN_2MB start), ArgX (PAGE_UP_2MB (start + sz) - 1)] s))\<lparr>ram := m\<rparr>)))))"
proof -
  have sum: "unat (start + sz) = unat start + unat sz"
    using assms(4) by (simp add: unat_plus_if')
  have down: "unat (PAGE_DOWN_2MB start) = k * 2 ^ 21" unfolding assms(1) by (rule unat_PAGE_DOWN_2MB)
  have up: "PAGE_UP_2MB (start + sz) = of_nat (l * 2 ^ 21)"
    using PAGE_UP_2MB_nat [of "start + sz"] assms(4) unfolding sum assms(2) .
  show ?thesis
    using map_2mb_loop_pages [OF down monitor_pages(1,2) [OF assms], of 0 1024]
    by (simp add: create_2mb_nested_pagetable_def Let_def up visible_pages_def)
qed

text \<open>C7: the pages of 2 MB that the guest is to see.  The monitor's heap, of at least 4 MB, ends at or below 2 GB.
  Then the construction of the nested page table makes one identity mapping for each visible page,
  in order, and no other, as long as none of the mappings fails.  No visible page has a byte of the heap; but the page
  just below the heap is not visible either, although it is the guest's; and when there are three pages below the heap, the
  first two are visible: the image of the monitor, which the link script puts at 2 MB, is not
  hidden, nor is page 0, whose part below 0x21000 has the control block and the tables of the monitor.\<close>

theorem nested_pages_exact:
  assumes "k = unat start div 2 ^ 21" and "l = (unat start + unat sz + (2 ^ 21 - 1)) div 2 ^ 21"
    and "2 ^ 22 \<le> unat sz" and "unat start + unat sz \<le> 2 ^ 31"
  shows "create_2mb_nested_pagetable host start sz s =
      bindo (pml4_table_alloc (ram s) host) (\<lambda>(pg, m).
        bindo (map_pages host pg (visible_pages k l) m) (\<lambda>(m, calls).
          Some (Inr (pg, say (line ''Nested page table created.'') []
            ((say_all calls (say (line ''VMM start = %x; VMM end = %x.'')
              [ArgX (PAGE_DOWN_2MB start), ArgX (PAGE_UP_2MB (start + sz) - 1)] s))\<lparr>ram := m\<rparr>))))) \<and>
    (\<forall>g \<in> set (visible_pages k l). unat g + 2 ^ 21 \<le> unat start \<or> unat start + unat sz \<le> unat g) \<and>
    (0 < k \<longrightarrow> of_nat ((k - 1) * 2 ^ 21) \<notin> set (visible_pages k l)) \<and>
    (3 \<le> k \<longrightarrow> {0, 0x200000} \<subseteq> set (visible_pages k l))"
proof -
  note b = monitor_pages [OF assms]
  note nested_table_calls [OF assms, of host s]
  moreover have "unat g + 2 ^ 21 \<le> unat start \<or> unat start + unat sz \<le> unat g" if "g \<in> set (visible_pages k l)" for g
  proof -
    obtain i where i: "i < 1024" "i + 1 < k \<or> l \<le> i" "g = of_nat (i * 2 ^ 21)"
      using \<open>g \<in> set (visible_pages k l)\<close> by (auto simp: visible_pages_def)
    have g: "unat g = i * 2 ^ 21" using small_page_address(2) [OF i(1)] i(3) by simp
    show ?thesis
      using i(2) b(3,4) mult_le_mono1 [of "i + 1" k "2 ^ 21"] mult_le_mono1 [of l i "2 ^ 21"]
      unfolding g by (elim disjE) (simp_all add: add_mult_distrib)
  qed
  moreover have "of_nat ((k - 1) * 2 ^ 21) \<notin> set (visible_pages k l)" if "0 < k"
  proof
    assume "of_nat ((k - 1) * 2 ^ 21) \<in> set (visible_pages k l)"
    then obtain i where i: "i < 1024" "i + 1 < k \<or> l \<le> i" "(of_nat ((k - 1) * 2 ^ 21) :: u64) = of_nat (i * 2 ^ 21)"
      by (auto simp: visible_pages_def)
    have "k - 1 < 1024" using b(1,2) by simp
    then have "(k - 1) * 2 ^ 21 = i * 2 ^ 21"
      using small_page_address(2) [OF i(1)] small_page_address(2) [of "k - 1"] i(3) by metis
    then show False using i(2) b(1) \<open>0 < k\<close> by auto
  qed
  moreover have "{0, 0x200000} \<subseteq> set (visible_pages k l)" if "3 \<le> k"
  proof -
    have "of_nat (i * 2 ^ 21) \<in> set (visible_pages k l)" if "i < 2" for i
      using that \<open>3 \<le> k\<close> by (simp add: visible_pages_def del: upt_rec_numeral)
    from this [of 0] this [of 1] show ?thesis by simp
  qed
  ultimately show ?thesis by blast
qed

theorem nested_pages_exact_witness:
  "(0x7e00000 :: u64) \<notin> set (visible_pages 64 72) \<and> (0x8800000 :: u64) \<notin> set (visible_pages 64 72) \<and>
   0x200000 \<in> set (visible_pages 64 72)"
  using nested_pages_exact [of 64 "0x8000000" 72 "0x1000000" "\<lparr>alloc_bitmap = 0x8100000, max_page = 0x10000\<rparr>"
      "blank_machine (\<lambda>_. 0) zero_vm_info"]
  by auto

end
