(* ===== verification/Nested.thy ===== *)
theory Nested
  imports VmInfo
begin

text \<open>
  The nested page table in memory.  \<open>VmInfo\<close> shows for which pages \<open>create_2mb_nested_pagetable\<close>
  calls \<open>mmap_pml4\<close>; this theory follows these calls through the tables they build, which the allocator
  puts into one page: the root table is its own child.  The call for the second page of the second Gbyte takes a
  mapping for the address of a table, at 1 GB, where the monitor's own page tables map nothing.
\<close>

subsection \<open>Entries that point to tables\<close>

definition table_entry :: "u64 \<Rightarrow> u64 \<Rightarrow> u64" where
  "table_entry e t = set_field (set_field e 12 40 (drop_bit PAGE_SHIFT t)) 0 12 0x7"

lemma bindo_assoc: "bindo (bindo r f) g = bindo r (\<lambda>x. bindo (f x) g)"
  by (simp add: bindo_def split: option.splits sum.splits)

lemma map_non_term_entry: "map_non_term m p t = store64 m p (table_entry (load64 m p) t)"
proof -
  have f: "ucast (PTTEF_PRESENT OR PTTEF_RW OR PTTEF_US) = (0x7 :: u64)"
    by (simp add: PTTEF_PRESENT_def PTTEF_RW_def PTTEF_US_def)
  show ?thesis unfolding map_non_term_def Let_def f table_entry_def ..
qed

lemma table_entry_fields:
  "bit (table_entry e t) 0"
  "next_table (table_entry e 0x20000) = 0x20000"
proof -
  show "bit (table_entry e t) 0" by (simp add: table_entry_def bit_set_field)
  have "non_term_base (table_entry e 0x20000) = 0x20"
    unfolding non_term_base_def table_entry_def by (subst get_set_field_other) (simp_all add: get_set_field)
  then show "next_table (table_entry e 0x20000) = 0x20000" by (simp add: next_table_def)
qed

text \<open>The entry that maps the first page of the Gbyte \<open>g\<close>, taken for an entry that points to a table.\<close>

lemma leaf_as_table:
  assumes "e = 0 \<or> e = table_entry 0 0x20000"
  shows "bit (leaf_2mb e 0 True) 0" "next_table (leaf_2mb e 0 True) = 0"
    "bit (leaf_2mb e 0x40000000 True) 0" "next_table (leaf_2mb e 0x40000000 True) = 0x40000000"
proof -
  have t: "table_entry 0 0x20000 = 0x20007"
    by (simp add: table_entry_def set_field_def mask_eq_exp_minus_1)
  have l: "leaf_2mb e 0 True = 0x87" "leaf_2mb e 0x40000000 True = 0x40000087"
    using assms by (auto simp: leaf_2mb_def leaf_flags_def set_field_def mask_eq_exp_minus_1 t)
  show "bit (leaf_2mb e 0 True) 0" "next_table (leaf_2mb e 0 True) = 0"
    "bit (leaf_2mb e 0x40000000 True) 0" "next_table (leaf_2mb e 0x40000000 True) = 0x40000000"
    unfolding l by (simp_all add: next_table_def non_term_base_def get_field_def bit_iff_odd)
qed

subsection \<open>One mapping\<close>

text \<open>A new table is page 0x20000, whatever it held, and nothing else changes but a word of the bitmap.\<close>

lemma table_alloc:
  assumes "low_pages_taken m host"
  shows "\<exists>m'. pg_table_alloc m host = Some (Inr (0x20000, m')) \<and> low_pages_taken m' host \<and>
    (\<forall>x. in_range 0x20000 4096 x \<longrightarrow> m' x = 0) \<and>
    (\<forall>x. \<not> in_range 0x20000 4096 x \<and> \<not> in_range 0x8100000 8 x \<longrightarrow> m' x = m x)"
proof -
  have b: "alloc_bitmap host = 0x8100000" using assms by (simp add: low_pages_taken_def)
  have a: "alloc_host_pages m host 1 1 = Some (Inr (32, map_alloc m host 32 1))"
    using alloc_one_page_32(1) [of m host] assms unfolding low_pages_taken_def by auto
  obtain m' where m': "pg_table_alloc m host = Some (Inr (0x20000, m'))" "low_pages_taken m' host"
    "\<forall>x. in_range 0x20000 4096 x \<longrightarrow> m' x = 0"
    using pg_table_alloc_20000 [OF assms] by blast
  have e: "m' = memset (map_alloc m host 32 1) 0x20000 0 PAGE_SIZE"
    using m'(1) by (simp add: pg_table_alloc_def a Let_def)
  have "m' x = m x" if "\<not> in_range 0x20000 4096 x" "\<not> in_range 0x8100000 8 x" for x
    using that map_alloc_frame [of 32 1 x host m] unfolding e
    by (simp add: memset_apply PAGE_SIZE_def b in_range_def not_less)
  then show ?thesis using m' by blast
qed

lemma load64_zero_page:
  assumes "\<forall>x. in_range 0x20000 4096 x \<longrightarrow> m x = 0" and "k + 8 \<le> 4096"
  shows "load64 m (0x20000 + of_nat k) = 0"
proof -
  have "load64 m (0x20000 + of_nat k) = (load64 (\<lambda>_. 0) (0x20000 + of_nat k) :: u64)"
  proof (rule load_le_cong)
    fix i :: nat assume "i < 8"
    then show "m (0x20000 + of_nat k + of_nat i) = 0"
      using assms in_range_offset [of "k + i" 1 "0x20000"]
      by (simp add: in_range_def unat_of_nat_u64 flip: of_nat_add del: unat_of_nat)
  qed
  then show ?thesis by (simp add: bit_load_le word_unat_eq_iff) 
qed

subsection \<open>Mappings as two steps and a leaf\<close>

text \<open>The entry at \<open>p\<close> is accessed and made to point to a table when it is absent.\<close>

definition ensure :: "mem \<Rightarrow> naive_allocator \<Rightarrow> u64 \<Rightarrow> mem run" where
  "ensure m host p =
     bindo (entry_access p) (\<lambda>_.
       if \<not> bit (load64 m p) 0 then bindo (pg_table_alloc m host) (\<lambda>(t, m). Some (Inr (map_non_term m p t)))
       else Some (Inr m))"

text \<open>A computation without its trace.\<close>

definition drop_trace :: "(mem \<times> out_call list) run \<Rightarrow> mem run" where
  "drop_trace r = bindo r (\<lambda>(m, calls). Some (Inr m))"

lemma drop_trace_simps [simp]:
  "drop_trace (Some (Inr (m, calls))) = Some (Inr m)"
  "drop_trace (bindo r f) = bindo r (\<lambda>x. drop_trace (f x))"
  "drop_trace (if c then a else b) = (if c then drop_trace a else drop_trace b)"
  by (simp_all add: drop_trace_def bindo_def split: option.splits sum.splits)

lemma drop_trace_line: "bindo r (\<lambda>x. drop_trace (case x of (m, calls) \<Rightarrow> Some (Inr (m, c # calls)))) = drop_trace r"
  by (simp add: drop_trace_def bindo_def split: option.splits sum.splits)

lemma drop_trace_bind:
  "drop_trace (bindo r (\<lambda>(m, calls). bindo (g m) (\<lambda>(m, calls'). Some (Inr (m, calls @ calls'))))) =
    bindo (drop_trace r) (\<lambda>m. drop_trace (g m))"
  by (auto simp: drop_trace_def bindo_def split: option.splits sum.splits)

lemma drop_trace_Inl: "drop_trace r = Some (Inl e) \<longleftrightarrow> r = Some (Inl e)"
  by (auto simp: drop_trace_def bindo_def split: option.splits sum.splits)

lemma mmap_pml4_steps:
  "drop_trace (mmap_pml4 m host t v paddr u) =
     bindo (ensure m host (slot_2mb t v 39)) (\<lambda>m.
     bindo (ensure m host (slot_2mb (next_table (load64 m (slot_2mb t v 39))) v 30)) (\<lambda>m1.
     let p = slot_2mb (next_table (load64 m1 (slot_2mb (next_table (load64 m (slot_2mb t v 39))) v 30))) v 21
     in bindo (entry_access p) (\<lambda>_. Some (Inr (map_pd_entry m1 p paddr u)))))"
proof -
  note levels = level_neq level_neq [unfolded One_nat_def] next_table_def get_entry_levels present_2mb
  have pd: "drop_trace (mmap_2mb m host t v paddr PGT_LEVEL_PD u) =
      (let p = slot_2mb t v 21 in bindo (entry_access p) (\<lambda>_. Some (Inr (map_pd_entry m p paddr u))))" for m t
    by (simp add: mmap_2mb.simps [of m host t v paddr PGT_LEVEL_PD u] levels Let_def)
  have pdp: "drop_trace (mmap_2mb m host t v paddr PGT_LEVEL_PDP u) = bindo (ensure m host (slot_2mb t v 30)) (\<lambda>m.
      drop_trace (mmap_2mb m host (next_table (load64 m (slot_2mb t v 30))) v paddr PGT_LEVEL_PD u))" for m t
    by (simp add: mmap_2mb.simps [of m host t v paddr PGT_LEVEL_PDP u] levels ensure_def bindo_assoc drop_trace_line)
  have "drop_trace (mmap_2mb m host t v paddr PGT_LEVEL_PML4 u) = bindo (ensure m host (slot_2mb t v 39)) (\<lambda>m.
      drop_trace (mmap_2mb m host (next_table (load64 m (slot_2mb t v 39))) v paddr PGT_LEVEL_PDP u))" for m t
    by (simp add: mmap_2mb.simps [of m host t v paddr PGT_LEVEL_PML4 u] levels ensure_def bindo_assoc drop_trace_line)
  then show ?thesis by (simp only: mmap_pml4_def pdp pd)
qed

lemma ensure_present: "unat p < 2 ^ 28 \<Longrightarrow> bit (load64 m p) 0 \<Longrightarrow> ensure m host p = Some (Inr m)"
  by (simp add: ensure_def)

lemma ensure_absent:
  assumes "low_pages_taken m host" and "\<not> bit (load64 m p) 0" and "unat p < 2 ^ 28"
  shows "\<exists>ma. ensure m host p = Some (Inr (store64 ma p (table_entry (load64 ma p) 0x20000))) \<and>
    low_pages_taken ma host \<and> (\<forall>x. in_range 0x20000 4096 x \<longrightarrow> ma x = 0) \<and>
    (\<forall>x. \<not> in_range 0x20000 4096 x \<and> \<not> in_range 0x8100000 8 x \<longrightarrow> ma x = m x)"
  using table_alloc [OF assms(1)] assms(2,3) by (auto simp: ensure_def map_non_term_entry)

subsection \<open>The words of the one table\<close>

definition slot :: "nat \<Rightarrow> u64" where "slot k = 0x20000 + of_nat (8 * k)"

definition word_at :: "mem \<Rightarrow> nat \<Rightarrow> u64" where "word_at m k = load64 m (slot k)"

abbreviation put_word :: "mem \<Rightarrow> nat \<Rightarrow> u64 \<Rightarrow> mem" where "put_word m k w \<equiv> store64 m (slot k) w"

abbreviation elsewhere :: "u64 \<Rightarrow> bool" where
  "elsewhere x \<equiv> \<not> in_range 0x20000 4096 x \<and> \<not> in_range 0x8100000 8 x"

lemma slot_0: "slot 0 = 0x20000" by (simp add: slot_def)

lemma slot_mapped: "k < 512 \<Longrightarrow> unat (slot k) < 2 ^ 28"
proof -
  assume k: "k < 512"
  then have "unat (of_nat (8 * k) :: u64) = 8 * k" by (intro unat_of_nat_u64) simp
  then show ?thesis using k by (simp add: slot_def unat_plus_if' del: unat_of_nat of_nat_mult)
qed

lemma word_at_put: "a < 512 \<Longrightarrow> b < 512 \<Longrightarrow> word_at (put_word m a w) b = (if a = b then w else word_at m b)"
proof (cases "a = b")
  case False
  assume "a < 512" "b < 512"
  then have "load64 (put_word m a w) (slot b) = load64 m (slot b)"
    unfolding slot_def using False by (intro load_store_array) auto
  then show ?thesis using False by (simp add: word_at_def)
qed (simp add: word_at_def)

lemma word_at_zero: "\<forall>x. in_range 0x20000 4096 x \<longrightarrow> m x = 0 \<Longrightarrow> k < 512 \<Longrightarrow> word_at m k = 0"
  unfolding word_at_def slot_def by (rule load64_zero_page) auto

lemma slot_in_table:
  assumes "k < 512" and "in_range (slot k) 8 x"
  shows "in_range 0x20000 4096 x"
  using in_range_offset [of "8 * k" 8 "0x20000" x] assms by (simp add: in_range_def slot_def)

lemma put_word_elsewhere: "k < 512 \<Longrightarrow> elsewhere x \<Longrightarrow> put_word m k w x = m x"
  using slot_in_table [of k x] by (intro store_le_other) auto

lemma put_word_low: "low_pages_taken m host \<Longrightarrow> k < 512 \<Longrightarrow> low_pages_taken (put_word m k w) host"
proof (erule low_pages_frame)
  fix x assume k: "k < 512" and "in_range 0x8100000 8 x"
  then have "\<not> in_range 0x20000 4096 x" by (intro page_20000)
  then show "put_word m k w x = m x" using slot_in_table [OF k] by (intro store_le_other) auto
qed

text \<open>The slots of page \<open>j\<close> at the three levels.\<close>

lemma page_slots:
  assumes "j < 1024"
  shows "slot_2mb t (of_nat (j * 2 ^ 21)) 39 = t"
    "slot_2mb t (of_nat (j * 2 ^ 21)) 30 = t + of_nat (8 * (j div 512))"
    "slot_2mb t (of_nat (j * 2 ^ 21)) 21 = t + of_nat (8 * (j mod 512))"
proof -
  have u: "unat (of_nat (j * 2 ^ 21) :: u64) = j * 2 ^ 21" by (rule small_page_address(2) [OF assms])
  have "j * 2 ^ 21 < 2 ^ 31" using assms by simp
  then have a: "j * 2 ^ 21 div 2 ^ 39 = 0" by simp
  have "j * 2 ^ 21 div 2 ^ 30 = j * 2 ^ 21 div (2 ^ 21 * 2 ^ 9)" by (simp only: power_add [symmetric]) simp
  also have "\<dots> = j div 512" by (simp only: div_mult2_eq) simp
  finally have b: "j * 2 ^ 21 div 2 ^ 30 = j div 512" .
  have c: "j div 512 < 512" using assms by linarith
  show "slot_2mb t (of_nat (j * 2 ^ 21)) 39 = t" unfolding slot_2mb_def u a by simp
  show "slot_2mb t (of_nat (j * 2 ^ 21)) 30 = t + of_nat (8 * (j div 512))"
    unfolding slot_2mb_def u b using c by simp
  show "slot_2mb t (of_nat (j * 2 ^ 21)) 21 = t + of_nat (8 * (j mod 512))"
    unfolding slot_2mb_def u by simp
qed

definition map_page :: "naive_allocator \<Rightarrow> nat \<Rightarrow> mem \<Rightarrow> mem run" where
  "map_page host j m = drop_trace (mmap_pml4 m host 0x20000 (of_nat (j * 2 ^ 21)) (of_nat (j * 2 ^ 21)) True)"

definition leaf_of :: "u64 \<Rightarrow> nat \<Rightarrow> u64" where
  "leaf_of e j = leaf_2mb e (of_nat (j * 2 ^ 21)) True"

lemma map_page_steps:
  assumes "j < 1024"
  shows "map_page host j m =
     bindo (ensure m host 0x20000) (\<lambda>m.
     bindo (ensure m host (next_table (load64 m 0x20000) + of_nat (8 * (j div 512)))) (\<lambda>m1.
       let t2 = next_table (load64 m1 (next_table (load64 m 0x20000) + of_nat (8 * (j div 512))));
           p = t2 + of_nat (8 * (j mod 512))
       in bindo (entry_access p) (\<lambda>_. Some (Inr (store64 m1 p (leaf_of (load64 m1 p) j))))))"
  by (simp only: map_page_def mmap_pml4_steps page_slots [OF assms] map_pd_entry_leaf Let_def leaf_of_def)

subsection \<open>Steps of the construction\<close>

text \<open>A slot of the table that is absent, and one that is present.\<close>

lemma ensure_slot:
  assumes "low_pages_taken m host" and "k < 512" and "\<not> bit (word_at m k) 0"
  shows "\<exists>m'. ensure m host (slot k) = Some (Inr m') \<and> low_pages_taken m' host \<and>
    (\<forall>i < 512. word_at m' i = (if i = k then table_entry 0 0x20000 else 0)) \<and> (\<forall>x. elsewhere x \<longrightarrow> m' x = m x)"
proof -
  obtain ma where ma: "ensure m host (slot k) = Some (Inr (put_word ma k (table_entry (word_at ma k) 0x20000)))"
    "low_pages_taken ma host" "\<forall>x. in_range 0x20000 4096 x \<longrightarrow> ma x = 0" "\<forall>x. elsewhere x \<longrightarrow> ma x = m x"
    using ensure_absent [OF assms(1), of "slot k"] slot_mapped [OF assms(2)] assms(3) by (auto simp: word_at_def)
  show ?thesis
    using ma(1,4) put_word_low [OF ma(2) assms(2)] word_at_zero [OF ma(3)] assms(2)
    by (auto simp: word_at_put put_word_elsewhere)
qed

lemma ensure_kept:
  assumes "k < 512" and "bit (word_at m k) 0"
  shows "ensure m host (slot k) = Some (Inr m)"
  using assms slot_mapped by (intro ensure_present) (simp_all add: word_at_def)

lemmas root_slot = ensure_slot [of _ _ 0, unfolded slot_0] ensure_kept [of 0, unfolded slot_0, OF zero_less_numeral]

text \<open>The tail of a mapping whose second table is the one table, at slot \<open>k\<close>.\<close>

lemma last_level:
  assumes "word_at m k = table_entry 0 0x20000"
  shows "(let t2 = next_table (load64 m (slot k)); p = t2 + of_nat (8 * (j mod 512))
     in bindo (entry_access p) (\<lambda>_. Some (Inr (store64 m p (leaf_of (load64 m p) j))))) =
    (Some (Inr (put_word m (j mod 512) (leaf_of (word_at m (j mod 512)) j))) :: mem run)"
proof -
  have "entry_access (slot (j mod 512)) = Some (Inr ())" by (intro entry_access_low slot_mapped) simp
  then show ?thesis
    using assms unfolding word_at_def by (simp only: table_entry_fields Let_def slot_def bindo_simps)
qed

text \<open>With a root that points to the table, or an absent one, the mapping of a page of Gbyte \<open>g\<close>.\<close>

lemma step_tables:
  assumes "j < 1024" and "low_pages_taken m host"
    and "\<not> bit (word_at m 0) 0 \<or> word_at m 0 = table_entry 0 0x20000 \<and> word_at m 1 = 0"
  shows "\<exists>m1. map_page host j m = Some (Inr (put_word m1 (j mod 512) (leaf_of (word_at m1 (j mod 512)) j))) \<and>
    low_pages_taken m1 host \<and> (\<forall>x. elsewhere x \<longrightarrow> m1 x = m x) \<and>
    (if j < 512 then word_at m1 0 = table_entry 0 0x20000 \<and> word_at m1 1 = 0
     else word_at m1 0 = 0 \<and> word_at m1 1 = table_entry 0 0x20000)"
proof -
  obtain mr where mr: "ensure m host 0x20000 = Some (Inr mr)" "low_pages_taken mr host"
    "word_at mr 0 = table_entry 0 0x20000" "word_at mr 1 = 0" "\<forall>x. elsewhere x \<longrightarrow> mr x = m x"
  proof (cases "bit (word_at m 0) 0")
    case True
    then show ?thesis using that assms(2,3) root_slot(2) by blast
  next
    case False
    from root_slot(1) [OF assms(2) _ False] show ?thesis using that by auto
  qed
  have nt: "next_table (load64 mr 0x20000) = 0x20000"
    using mr(3) by (simp add: word_at_def slot_0 table_entry_fields)
  show ?thesis
  proof (cases "j < 512")
    case True
    have "ensure mr host 0x20000 = Some (Inr mr)"
      using root_slot(2) [of mr host] mr(3) by (simp add: table_entry_fields)
    then have "map_page host j m = Some (Inr (put_word mr (j mod 512) (leaf_of (word_at mr (j mod 512)) j)))"
      unfolding map_page_steps [OF assms(1)] mr(1) bindo_simps nt
      using True last_level [of mr 0 j] mr(3) by (simp add: slot_0)
    then show ?thesis using True mr by auto
  next
    case False
    then have d: "j div 512 = 1" using assms(1) by simp
    obtain m1 where m1: "ensure mr host (slot 1) = Some (Inr m1)" "low_pages_taken m1 host"
      "\<forall>i < 512. word_at m1 i = (if i = 1 then table_entry 0 0x20000 else 0)" "\<forall>x. elsewhere x \<longrightarrow> m1 x = mr x"
      using ensure_slot [OF mr(2), of 1] mr(4) by auto
    have "map_page host j m = Some (Inr (put_word m1 (j mod 512) (leaf_of (word_at m1 (j mod 512)) j)))"
      unfolding map_page_steps [OF assms(1)] mr(1) bindo_simps nt d m1(1) [unfolded slot_def]
      using last_level [of m1 1 j] m1(3) by (simp add: slot_def)
    then show ?thesis using False m1(2-4) mr(5) by (intro exI [of _ m1]) auto
  qed
qed

text \<open>With a root that a mapping has overwritten: the second table lies where the leaf points.\<close>

lemma step_stray:
  assumes "j < 1024" and "low_pages_taken m host" and "bit (word_at m 0) 0" and "0 < j mod 512"
    and q: "q = next_table (word_at m 0) + of_nat (8 * (j div 512))" "\<not> bit (load64 m q) 0"
      "\<forall>x. in_range q 8 x \<longrightarrow> elsewhere x" "unat q < 2 ^ 28"
  shows "\<exists>m'. map_page host j m = Some (Inr m') \<and> low_pages_taken m' host \<and> word_at m' 0 = 0 \<and>
    (\<forall>x. elsewhere x \<and> \<not> in_range q 8 x \<longrightarrow> m' x = m x) \<and> next_table (load64 m' q) = 0x20000"
proof -
  obtain ma where ma: "ensure m host q = Some (Inr (store64 ma q (table_entry (load64 ma q) 0x20000)))"
    "low_pages_taken ma host" "\<forall>x. in_range 0x20000 4096 x \<longrightarrow> ma x = 0" "\<forall>x. elsewhere x \<longrightarrow> ma x = m x"
    using ensure_absent [OF assms(2) q(2,4)] by blast
  let ?m1 = "store64 ma q (table_entry (load64 ma q) 0x20000)"
  let ?m2 = "put_word ?m1 (j mod 512) (leaf_of (word_at ?m1 (j mod 512)) j)"
  have k: "j mod 512 < 512" by simp
  have d: "disjoint_ranges (slot i) 8 q 8" if "i < 512" for i
    using slot_in_table [OF that] q(3) by (auto simp: disjoint_ranges_def)
  have z: "word_at ?m1 i = 0" if "i < 512" for i
  proof -
    have "load64 ?m1 (slot i) = load64 ma (slot i)" by (rule load_store_disjoint [OF d [OF that]]) simp_all
    then show ?thesis using word_at_zero [OF ma(3) that] by (simp add: word_at_def)
  qed
  have "low_pages_taken ?m1 host"
  proof (rule low_pages_frame [OF ma(2)])
    fix x assume "in_range 0x8100000 8 x"
    then have "\<not> in_range q 8 x" using q(3) by blast
    then show "?m1 x = ma x" by (simp add: store_le_other)
  qed
  then have low: "low_pages_taken ?m2 host" using put_word_low [OF _ k] by blast
  have "map_page host j m = Some (Inr ?m2)"
    unfolding map_page_steps [OF assms(1)] root_slot(2) [OF assms(3)] bindo_simps
    using ma(1) q(1) entry_access_low [OF slot_mapped [OF k]]
    by (simp add: word_at_def slot_def table_entry_fields Let_def)
  moreover have "word_at ?m2 0 = 0" using word_at_put [OF k, of 0] z assms(4) by simp
  moreover have "?m2 x = m x" if "elsewhere x" "\<not> in_range q 8 x" for x
    using put_word_elsewhere [OF k that(1)] ma(4) that by (simp add: store_le_other)
  moreover have "load64 ?m2 q = table_entry (load64 ma q) 0x20000"
  proof -
    have "disjoint_ranges q 8 (slot (j mod 512)) 8" using d [OF k] disjoint_sym by blast
    then have "load64 ?m2 q = load64 ?m1 q" by (rule load_store_disjoint) simp_all
    then show ?thesis by simp
  qed
  ultimately show ?thesis using low table_entry_fields(2) by metis
qed

subsection \<open>All mappings\<close>

primrec mapped :: "naive_allocator \<Rightarrow> nat list \<Rightarrow> mem \<Rightarrow> mem run" where
  "mapped host [] m = Some (Inr m)"
| "mapped host (j # js) m = bindo (map_page host j m) (mapped host js)"

lemma map_pages_mapped:
  "drop_trace (map_pages host 0x20000 (map (\<lambda>j. of_nat (j * 2 ^ 21)) js) m) = mapped host js m"
proof (induction js arbitrary: m)
  case (Cons j js)
  then show ?case by (simp only: list.map map_pages.simps drop_trace_bind mapped.simps map_page_def)
qed simp

lemma mapped_append: "mapped host (xs @ ys) m = bindo (mapped host xs m) (mapped host ys)"
  by (induction xs arbitrary: m) (simp_all add: bindo_def split: option.splits sum.splits)

lemma mapped_keeps:
  assumes "\<And>j m. j \<in> set js \<Longrightarrow> P m \<Longrightarrow> \<exists>m'. map_page host j m = Some (Inr m') \<and> P m'" and "P m"
  shows "\<exists>m'. mapped host js m = Some (Inr m') \<and> P m'"
  using assms
proof (induction js arbitrary: m)
  case (Cons j js)
  obtain m1 where m1: "map_page host j m = Some (Inr m1)" "P m1" using Cons.prems(1) [of j m] Cons.prems(2) by auto
  obtain m' where "mapped host js m1 = Some (Inr m')" "P m'"
    using Cons.IH [OF Cons.prems(1) m1(2)] by auto
  then show ?case using m1 by auto
qed simp

text \<open>The states between the mappings of the first Gbyte.\<close>

definition in_gbyte_0 :: "naive_allocator \<Rightarrow> mem \<Rightarrow> bool" where
  "in_gbyte_0 host m \<longleftrightarrow> low_pages_taken m host \<and>
     (\<not> bit (word_at m 0) 0 \<or> word_at m 0 = table_entry 0 0x20000 \<and> word_at m 1 = 0)"

lemma gbyte_0_step:
  assumes "2 \<le> j" and "j < 512" and "in_gbyte_0 host m"
  shows "\<exists>m'. map_page host j m = Some (Inr m') \<and> in_gbyte_0 host m'"
proof -
  have j: "j mod 512 = j" using assms(2) by simp
  obtain m1 where m1: "map_page host j m = Some (Inr (put_word m1 j (leaf_of (word_at m1 j) j)))"
    "low_pages_taken m1 host" "word_at m1 0 = table_entry 0 0x20000" "word_at m1 1 = 0"
    using step_tables [of j m host] assms unfolding in_gbyte_0_def j by auto
  have "in_gbyte_0 host (put_word m1 j w)" for w
    using assms m1(2-4) put_word_low [OF m1(2) assms(2)] by (simp add: in_gbyte_0_def word_at_put)
  then show ?thesis using m1(1) by blast
qed

lemma gbyte_0_pages:
  assumes "set js \<subseteq> {2..<512}" and "in_gbyte_0 host m"
  shows "\<exists>m'. mapped host js m = Some (Inr m') \<and> in_gbyte_0 host m'"
proof (rule mapped_keeps [where P = "in_gbyte_0 host"])
  fix j m assume "j \<in> set js" and m: "in_gbyte_0 host m"
  then have "j \<in> {2..<512}" using assms(1) by blast
  then show "\<exists>m'. map_page host j m = Some (Inr m') \<and> in_gbyte_0 host m'"
    using m by (intro gbyte_0_step) simp_all
qed (rule assms(2))

text \<open>The word at address 0.\<close>

lemma vector_0_elsewhere: "in_range 0 8 x \<Longrightarrow> elsewhere x"
  using unat_minus_less [of "0x20000" 4096 x] unat_minus_less [of "0x8100000" 8 x]
  by (auto simp: in_range_def)

lemma load64_same: "(\<And>x. in_range a 8 x \<Longrightarrow> m' x = m x) \<Longrightarrow> load64 m' a = load64 m a"
  by (rule load_le_cong) (simp add: in_range_def unat_of_nat_u64 del: unat_of_nat)

text \<open>The first mapping makes the root an entry for a table at address 0.\<close>

lemma page_0_step:
  assumes "low_pages_taken m host" and "word_at m 0 = 0"
  shows "\<exists>m'. map_page host 0 m = Some (Inr m') \<and> low_pages_taken m' host \<and> bit (word_at m' 0) 0 \<and>
    next_table (word_at m' 0) = 0 \<and> (\<forall>x. elsewhere x \<longrightarrow> m' x = m x)"
proof -
  obtain m1 where m1: "map_page host 0 m = Some (Inr (put_word m1 0 (leaf_of (word_at m1 0) 0)))"
    "low_pages_taken m1 host" "\<forall>x. elsewhere x \<longrightarrow> m1 x = m x" "word_at m1 0 = table_entry 0 0x20000"
    using step_tables [of 0 m host] assms by auto
  then show ?thesis
    using put_word_low [OF m1(2), of 0] leaf_as_table(1,2) [of "word_at m1 0"]
    by (auto simp: word_at_put put_word_elsewhere leaf_of_def)
qed

lemma page_1_step:
  assumes "low_pages_taken m host" and "bit (word_at m 0) 0" and "next_table (word_at m 0) = 0"
    and "\<not> bit (load64 m 0) 0"
  shows "\<exists>m'. map_page host 1 m = Some (Inr m') \<and> in_gbyte_0 host m' \<and> next_table (load64 m' 0) = 0x20000"
proof -
  have "elsewhere x" if "in_range 0 8 x" for x using that by (rule vector_0_elsewhere)
  then show ?thesis
    using step_stray [of 1 m host 0] assms by (auto simp: in_gbyte_0_def)
qed

text \<open>The first mapping of the second Gbyte makes the root an entry for a table at 1 Gbyte, and the next
  mapping accesses the second entry of this table.\<close>

lemma page_512_step:
  assumes "in_gbyte_0 host m"
  shows "\<exists>m'. map_page host 512 m = Some (Inr m') \<and> bit (word_at m' 0) 0 \<and> next_table (word_at m' 0) = 0x40000000"
proof -
  obtain m1 where m1: "map_page host 512 m = Some (Inr (put_word m1 0 (leaf_of (word_at m1 0) 512)))"
    "low_pages_taken m1 host" "word_at m1 0 = 0"
    using step_tables [of 512 m host] assms unfolding in_gbyte_0_def by auto
  then show ?thesis
    using leaf_as_table(3,4) [of "word_at m1 0"] by (auto simp: word_at_put leaf_of_def)
qed

lemma page_513_faults:
  assumes "bit (word_at m 0) 0" and "next_table (word_at m 0) = 0x40000000"
  shows "map_page host 513 m = Some (Inl (Page_fault 0x40000008))"
proof -
  have "ensure m host 0x40000008 = Some (Inl (Page_fault 0x40000008))"
    by (simp add: ensure_def entry_access_def)
  moreover have "next_table (load64 m 0x20000) = 0x40000000" using assms(2) by (simp add: word_at_def slot_0)
  ultimately show ?thesis
    using root_slot(2) [OF assms(1), of host] by (simp add: map_page_steps [of 513])
qed

lemma visible_indices:
  assumes "3 \<le> k" and "k \<le> l" and "l \<le> 512"
  shows "filter (\<lambda>i. i + 1 < k \<or> l \<le> i) [0 ..< 1024] =
    [0, 1] @ filter (\<lambda>i. i + 1 < k \<or> l \<le> i) [2 ..< 512] @ [512, 513] @ [514 ..< 1024]"
proof -
  have split: "a \<le> b \<Longrightarrow> b \<le> c \<Longrightarrow> [a ..< c] = [a ..< b] @ [b ..< c]" for a b c :: nat
    by (metis le_add_diff_inverse upt_add_eq_append)
  have "[0 ..< 1024] = [0 ..< 2] @ [2 ..< 512] @ [512 ..< 514] @ [514 ..< (1024 :: nat)]"
    by (subst split [of 0 2 1024], simp, simp, subst split [of 2 512 1024], simp, simp,
        subst split [of 512 514 1024], simp, simp, rule refl)
  moreover have "[0 ..< 2] = [0, 1]" "[512 ..< 514] = [512, 513 :: nat]" by (simp_all add: upt_conv_Cons)
  moreover have "filter (\<lambda>i. i + 1 < k \<or> l \<le> i) [514 ..< 1024] = [514 ..< 1024]"
    using assms(3) by (intro filter_True) (auto simp del: upt_rec_numeral)
  ultimately show ?thesis using assms by (simp del: upt_Suc upt_rec_numeral)
qed

text \<open>The mappings that \<open>create_2mb_nested_pagetable\<close> makes into an empty root.\<close>

lemma pages_fault:
  assumes "3 \<le> k" and "k \<le> l" and "l \<le> 512"
    and "low_pages_taken m host" and "word_at m 0 = 0" and "\<not> bit (load64 m 0) 0"
  shows "map_pages host 0x20000 (visible_pages k l) m = Some (Inl (Page_fault 0x40000008))"
proof -
  let ?js = "filter (\<lambda>i. i + 1 < k \<or> l \<le> i) [2 ..< 512]"
  have low: "set ?js \<subseteq> {2..<512}" by (simp only: set_filter set_upt) auto
  obtain m0 where m0: "map_page host 0 m = Some (Inr m0)" "low_pages_taken m0 host" "bit (word_at m0 0) 0"
    "next_table (word_at m0 0) = 0" "\<forall>x. elsewhere x \<longrightarrow> m0 x = m x"
    using page_0_step [OF assms(4,5)] by blast
  have "load64 m0 0 = load64 m 0" using m0(5) vector_0_elsewhere by (intro load64_same) blast
  then have "\<not> bit (load64 m0 0) 0" using assms(6) by simp
  then obtain m1 where m1: "map_page host 1 m0 = Some (Inr m1)" "in_gbyte_0 host m1"
    using page_1_step [OF m0(2-4)] by blast
  obtain m2 where m2: "mapped host ?js m1 = Some (Inr m2)" "in_gbyte_0 host m2"
    using gbyte_0_pages [OF low m1(2)] by blast
  obtain m3 where m3: "map_page host 512 m2 = Some (Inr m3)" "bit (word_at m3 0) 0"
    "next_table (word_at m3 0) = 0x40000000"
    using page_512_step [OF m2(2)] by blast
  have "mapped host ([0, 1] @ ?js @ [512, 513] @ [514 ..< 1024]) m = Some (Inl (Page_fault 0x40000008))"
    using m0(1) m1(1) m2(1) m3(1) page_513_faults [OF m3(2,3), of host]
    by (simp add: mapped_append del: upt_Suc upt_rec_numeral)
  then show ?thesis
    unfolding visible_pages_def visible_indices [OF assms(1-3)] map_pages_mapped [symmetric] drop_trace_Inl .
qed

text \<open>From the empty table of a start-up allocator.\<close>

lemma nested_table_run:
  assumes "low_pages_taken (ram s) host" and "\<not> bit (load64 (ram s) 0) 0"
    and "3 * 2 ^ 21 \<le> unat start" and "2 ^ 22 \<le> unat sz" and "unat start + unat sz \<le> 2 ^ 30"
  shows "create_2mb_nested_pagetable host start sz s = Some (Inl (Page_fault 0x40000008))"
proof -
  define k where "k = unat start div 2 ^ 21"
  define l where "l = (unat start + unat sz + (2 ^ 21 - 1)) div 2 ^ 21"
  have k: "3 \<le> k" unfolding k_def using div_le_mono [OF assms(3), of "2 ^ 21"] by simp
  have "(unat start + unat sz + (2 ^ 21 - 1)) div 2 ^ 21 \<le> (2 ^ 30 + (2 ^ 21 - 1)) div (2 ^ 21 :: nat)"
    by (rule div_le_mono) (use assms(5) in simp)
  then have l: "l \<le> 512" by (simp add: l_def)
  have "unat start + unat sz \<le> 2 ^ 31" using assms(5) by simp
  note calls = nested_table_calls [OF k_def l_def assms(4) this]
  have kl: "k \<le> l" using monitor_pages(1) [OF k_def l_def assms(4) \<open>unat start + unat sz \<le> 2 ^ 31\<close>] by simp
  obtain m0 where m0: "pg_table_alloc (ram s) host = Some (Inr (0x20000, m0))" "low_pages_taken m0 host"
    "\<forall>x. in_range 0x20000 4096 x \<longrightarrow> m0 x = 0" "\<forall>x. elsewhere x \<longrightarrow> m0 x = ram s x"
    using table_alloc [OF assms(1)] by blast
  have "load64 m0 0 = load64 (ram s) 0"
    using m0(4) vector_0_elsewhere by (intro load64_same) blast
  then have "map_pages host 0x20000 (visible_pages k l) m0 = Some (Inl (Page_fault 0x40000008))"
    using pages_fault [OF k kl l m0(2)] word_at_zero [OF m0(3), of 0] assms(2) by simp
  then show ?thesis using m0(1) by (simp add: calls pml4_table_alloc_def)
qed

subsection \<open>Properties\<close>

text \<open>C8: the construction of the nested page table ends in a page fault of the monitor.  After start-up the
  allocator gives every table the page 0x20000 (\<open>low_pages_taken\<close>), so that the mappings of the first page of each Gbyte
  take the place of the entry above them, and the next mapping follows them as a table.  The one
  for the first Gbyte is followed to address 0, whose first word, an interrupt vector, is taken to be even: not
  present as an entry.  The one for the second Gbyte is followed to the second entry of a table at 1 GB,
  which the page tables of the monitor do not map.  The monitor's heap starts at or above 6 MB, has
  at least 4 MB and ends at or below 1 GB, as that of the defaults (16 MB at 128 MB) does.\<close>

theorem nested_table_faults:
  assumes "low_pages_taken (ram s) host" and "\<not> bit (load64 (ram s) 0) 0"
    and "3 * 2 ^ 21 \<le> unat start" and "2 ^ 22 \<le> unat sz" and "unat start + unat sz \<le> 2 ^ 30"
  shows "create_2mb_nested_pagetable host start sz s = Some (Inl (Page_fault 0x40000008))"
  by (rule nested_table_run [OF assms])

theorem nested_table_faults_witness:
  "create_2mb_nested_pagetable \<lparr>alloc_bitmap = 0x8100000, max_page = 0x10000\<rparr> 0x8000000 0x1000000
     (blank_machine ((\<lambda>_. 0xFF)(0 := 0)) zero_vm_info) = Some (Inl (Page_fault 0x40000008))"
proof -
  let ?m = "(\<lambda>_. 0xFF)(0 := 0) :: mem"
  have "low_pages_taken ?m \<lparr>alloc_bitmap = 0x8100000, max_page = 0x10000\<rparr>"
    by (rule low_pages_frame [OF low_pages_example]) (auto simp: in_range_def)
  then show ?thesis
    by (intro nested_table_faults) (simp_all add: bit_load_le)
qed

end
