(* ===== verification/Syscalls.thy ===== *)
theory Syscalls
  imports Prelude
begin

text \<open>
  \<open>include/syscall_ent.h\<close>: the table of Linux system calls that \<open>kernel/intercept.c\<close> includes as
  \<open>syscalls\<close>, with the trace classes of \<open>include/intercept.h\<close>.  An entry has the number of
  arguments, the classes and the name; its index is the number of the call.  The table is split into
  blocks in the order of the file.
\<close>

record syscall_entry =
  sys_nargs :: nat
  sys_flags :: u32
  sys_name :: string

definition TF :: u32 where "TF = 0x01"
definition TI :: u32 where "TI = 0x02"
definition TN :: u32 where "TN = 0x04"
definition TP :: u32 where "TP = 0x08"
definition TS :: u32 where "TS = 0x10"
definition TD :: u32 where "TD = 0x20"

definition ent :: "nat \<Rightarrow> u32 \<Rightarrow> string \<Rightarrow> syscall_entry" where
  "ent n f s = \<lparr>sys_nargs = n, sys_flags = f, sys_name = s\<rparr>"

definition syscalls_0 :: "syscall_entry list" where
  "syscalls_0 = [
     ent 0 0 ''restart_syscall'',
     ent 1 TP ''exit'',
     ent 0 TP ''fork'',
     ent 3 TD ''read'',
     ent 3 TD ''write'',
     ent 3 (TD OR TF) ''open'',
     ent 1 TD ''close'',
     ent 3 TP ''waitpid'',
     ent 2 (TD OR TF) ''creat'',
     ent 2 TF ''link'',
     ent 1 TF ''unlink'',
     ent 3 (TF OR TP) ''execve'',
     ent 1 TF ''chdir'',
     ent 1 0 ''time'',
     ent 3 TF ''mknod'',
     ent 2 TF ''chmod'',
     ent 3 TF ''lchown'',
     ent 0 0 ''break'',
     ent 2 TF ''oldstat'',
     ent 3 TD ''lseek'',
     ent 0 0 ''getpid'',
     ent 5 TF ''mount'',
     ent 1 TF ''umount'',
     ent 1 0 ''setuid'',
     ent 0 0 ''getuid'',
     ent 1 0 ''stime'',
     ent 4 0 ''ptrace'',
     ent 1 0 ''alarm'',
     ent 2 TD ''oldfstat'',
     ent 0 TS ''pause'',
     ent 2 TF ''utime'',
     ent 2 0 ''stty'',
     ent 2 0 ''gtty'',
     ent 2 TF ''access'',
     ent 1 0 ''nice'',
     ent 1 0 ''ftime'',
     ent 0 0 ''sync'',
     ent 2 TS ''kill'',
     ent 2 TF ''rename'',
     ent 2 TF ''mkdir'',
     ent 1 TF ''rmdir'',
     ent 1 TD ''dup'',
     ent 1 TD ''pipe'',
     ent 1 0 ''times'',
     ent 0 0 ''prof'',
     ent 1 0 ''brk'',
     ent 1 0 ''setgid'',
     ent 0 0 ''getgid'',
     ent 2 TS ''signal'',
     ent 0 0 ''geteuid'',
     ent 0 0 ''getegid'',
     ent 1 TF ''acct'',
     ent 2 TF ''umount2'',
     ent 0 0 ''lock'',
     ent 3 TD ''ioctl'',
     ent 3 TD ''fcntl'']"

definition syscalls_56 :: "syscall_entry list" where
  "syscalls_56 = [
     ent 0 0 ''mpx'',
     ent 2 0 ''setpgid'',
     ent 2 0 ''ulimit'',
     ent 1 0 ''oldolduname'',
     ent 1 0 ''umask'',
     ent 1 TF ''chroot'',
     ent 2 0 ''ustat'',
     ent 2 TD ''dup2'',
     ent 0 0 ''getppid'',
     ent 0 0 ''getpgrp'',
     ent 0 0 ''setsid'',
     ent 3 TS ''sigaction'',
     ent 0 TS ''siggetmask'',
     ent 1 TS ''sigsetmask'',
     ent 2 0 ''setreuid'',
     ent 2 0 ''setregid'',
     ent 1 TS ''sigsuspend'',
     ent 1 TS ''sigpending'',
     ent 2 0 ''sethostname'',
     ent 2 0 ''setrlimit'',
     ent 2 0 ''getrlimit'',
     ent 2 0 ''getrusage'',
     ent 2 0 ''gettimeofday'',
     ent 2 0 ''settimeofday'',
     ent 2 0 ''getgroups'',
     ent 2 0 ''setgroups'',
     ent 5 TD ''select'',
     ent 2 TF ''symlink'',
     ent 2 TF ''oldlstat'',
     ent 3 TF ''readlink'',
     ent 1 TF ''uselib'',
     ent 2 TF ''swapon'',
     ent 3 0 ''reboot'',
     ent 3 TD ''readdir'',
     ent 6 TD ''mmap'',
     ent 2 0 ''munmap'',
     ent 2 TF ''truncate'',
     ent 2 TD ''ftruncate'',
     ent 2 TD ''fchmod'',
     ent 3 TD ''fchown'',
     ent 2 0 ''getpriority'',
     ent 3 0 ''setpriority'',
     ent 4 0 ''profil'',
     ent 2 TF ''statfs'',
     ent 2 TD ''fstatfs'',
     ent 3 0 ''ioperm'',
     ent 2 TD ''socketcall'',
     ent 3 0 ''syslog'',
     ent 3 0 ''setitimer'',
     ent 2 0 ''getitimer'',
     ent 2 TF ''stat'',
     ent 2 TF ''lstat'',
     ent 2 TD ''fstat'',
     ent 1 0 ''olduname'',
     ent 1 0 ''iopl'',
     ent 0 0 ''vhangup'']"

definition syscalls_112 :: "syscall_entry list" where
  "syscalls_112 = [
     ent 0 0 ''idle'',
     ent 1 0 ''vm86old'',
     ent 4 TP ''wait4'',
     ent 1 0 ''swapoff'',
     ent 1 0 ''sysinfo'',
     ent 6 0 ''ipc'',
     ent 1 TD ''fsync'',
     ent 1 TS ''sigreturn'',
     ent 5 TP ''clone'',
     ent 2 0 ''setdomainname'',
     ent 1 0 ''uname'',
     ent 3 0 ''modify_ldt'',
     ent 1 0 ''adjtimex'',
     ent 3 0 ''mprotect'',
     ent 3 TS ''sigprocmask'',
     ent 2 0 ''create_module'',
     ent 3 0 ''init_module'',
     ent 2 0 ''delete_module'',
     ent 1 0 ''get_kernel_syms'',
     ent 4 0 ''quotactl'',
     ent 1 0 ''getpgid'',
     ent 1 TD ''fchdir'',
     ent 2 0 ''bdflush'',
     ent 3 0 ''sysfs'',
     ent 1 0 ''personality'',
     ent 5 0 ''afs_syscall'',
     ent 1 0 ''setfsuid'',
     ent 1 0 ''setfsgid'',
     ent 5 TD ''_llseek'',
     ent 3 TD ''getdents'',
     ent 5 TD ''_newselect'',
     ent 2 TD ''flock'',
     ent 3 0 ''msync'',
     ent 3 TD ''readv'',
     ent 3 TD ''writev'',
     ent 1 0 ''getsid'',
     ent 1 TD ''fdatasync'',
     ent 1 0 ''_sysctl'',
     ent 2 0 ''mlock'',
     ent 2 0 ''munlock'',
     ent 1 0 ''mlockall'',
     ent 0 0 ''munlockall'',
     ent 2 0 ''sched_setparam'',
     ent 2 0 ''sched_getparam'',
     ent 3 0 ''sched_setscheduler'',
     ent 1 0 ''sched_getscheduler'',
     ent 0 0 ''sched_yield'',
     ent 1 0 ''sched_get_priority_max'',
     ent 1 0 ''sched_get_priority_min'',
     ent 2 0 ''sched_rr_get_interval'',
     ent 2 0 ''nanosleep'',
     ent 4 0 ''mremap'',
     ent 3 0 ''setresuid'',
     ent 3 0 ''getresuid'',
     ent 2 0 ''vm86'',
     ent 5 0 ''query_module'']"

definition syscalls_168 :: "syscall_entry list" where
  "syscalls_168 = [
     ent 3 TD ''poll'',
     ent 3 0 ''nfsservctl'',
     ent 3 0 ''setresgid'',
     ent 3 0 ''getresgid'',
     ent 5 0 ''prctl'',
     ent 1 TS ''rt_sigreturn'',
     ent 4 TS ''rt_sigaction'',
     ent 4 TS ''rt_sigprocmask'',
     ent 2 TS ''rt_sigpending'',
     ent 4 TS ''rt_sigtimedwait'',
     ent 3 TS ''rt_sigqueueinfo'',
     ent 2 TS ''rt_sigsuspend'',
     ent 4 TD ''pread64'',
     ent 4 TD ''pwrite64'',
     ent 3 TF ''chown'',
     ent 2 TF ''getcwd'',
     ent 2 0 ''capget'',
     ent 2 0 ''capset'',
     ent 2 TS ''sigaltstack'',
     ent 4 TD ''sendfile'',
     ent 5 0 ''getpmsg'',
     ent 5 0 ''putpmsg'',
     ent 0 TP ''vfork'',
     ent 2 0 ''getrlimit'',
     ent 6 0 ''mmap2'',
     ent 2 TF ''truncate64'',
     ent 2 TD ''ftruncate64'',
     ent 2 TF ''stat64'',
     ent 2 TF ''lstat64'',
     ent 2 TD ''fstat64'',
     ent 3 TF ''lchown32'',
     ent 0 0 ''getuid32'',
     ent 0 0 ''getgid32'',
     ent 0 0 ''geteuid32'',
     ent 0 0 ''getegid32'',
     ent 2 0 ''setreuid32'',
     ent 2 0 ''setregid32'',
     ent 2 0 ''getgroups32'',
     ent 2 0 ''setgroups32'',
     ent 3 TD ''fchown32'',
     ent 3 0 ''setresuid32'',
     ent 3 0 ''getresuid32'',
     ent 3 0 ''setresgid32'',
     ent 3 0 ''getresgid32'',
     ent 3 TF ''chown32'',
     ent 1 0 ''setuid32'',
     ent 1 0 ''setgid32'',
     ent 1 0 ''setfsuid32'',
     ent 1 0 ''setfsgid32'',
     ent 2 TF ''pivot_root'',
     ent 3 0 ''mincore'',
     ent 3 0 ''madvise'',
     ent 3 TD ''getdents64'',
     ent 3 TD ''fcntl64'',
     ent 4 0 ''SYS_222'',
     ent 4 0 ''SYS_223'']"

definition syscalls_224 :: "syscall_entry list" where
  "syscalls_224 = [
     ent 0 0 ''gettid'',
     ent 3 TD ''readahead'',
     ent 5 TF ''setxattr'',
     ent 5 TF ''lsetxattr'',
     ent 5 TD ''fsetxattr'',
     ent 4 TF ''getxattr'',
     ent 4 TF ''lgetxattr'',
     ent 4 0 ''fgetxattr'',
     ent 3 TF ''listxattr'',
     ent 3 TF ''llistxattr'',
     ent 3 0 ''flistxattr'',
     ent 2 TF ''removexattr'',
     ent 2 TF ''lremovexattr'',
     ent 2 TD ''fremovexattr'',
     ent 2 TS ''tkill'',
     ent 4 TD ''sendfile64'',
     ent 6 0 ''futex'',
     ent 3 0 ''sched_setaffinity'',
     ent 3 0 ''sched_getaffinity'',
     ent 1 0 ''set_thread_area'',
     ent 1 0 ''get_thread_area'',
     ent 2 0 ''io_setup'',
     ent 1 0 ''io_destroy'',
     ent 5 0 ''io_getevents'',
     ent 3 0 ''io_submit'',
     ent 3 0 ''io_cancel'',
     ent 4 0 ''fadvise64'',
     ent 5 0 ''SYS_251'',
     ent 1 TP ''exit_group'',
     ent 3 0 ''lookup_dcookie'',
     ent 1 0 ''epoll_create'',
     ent 4 TD ''epoll_ctl'',
     ent 4 TD ''epoll_wait'',
     ent 5 0 ''remap_file_pages'',
     ent 1 0 ''set_tid_address'',
     ent 3 0 ''timer_create'',
     ent 4 0 ''timer_settime'',
     ent 2 0 ''timer_gettime'',
     ent 1 0 ''timer_getoverrun'',
     ent 1 0 ''timer_delete'',
     ent 2 0 ''clock_settime'',
     ent 2 0 ''clock_gettime'',
     ent 2 0 ''clock_getres'',
     ent 4 0 ''clock_nanosleep'',
     ent 3 TF ''statfs64'',
     ent 3 TD ''fstatfs64'',
     ent 3 TS ''tgkill'',
     ent 2 TF ''utimes'',
     ent 4 0 ''fadvise64_64'',
     ent 5 0 ''vserver'',
     ent 6 0 ''mbind'',
     ent 5 0 ''get_mempolicy'',
     ent 3 0 ''set_mempolicy'',
     ent 4 0 ''mq_open'',
     ent 1 0 ''mq_unlink'',
     ent 5 0 ''mq_timedsend'']"

definition syscalls_280 :: "syscall_entry list" where
  "syscalls_280 = [
     ent 5 0 ''mq_timedreceive'',
     ent 2 0 ''mq_notify'',
     ent 3 0 ''mq_getsetattr'',
     ent 5 0 ''kexec_load'',
     ent 4 TP ''waitid'',
     ent 5 0 ''SYS_285'',
     ent 5 0 ''add_key'',
     ent 4 0 ''request_key'',
     ent 5 0 ''keyctl'',
     ent 3 0 ''ioprio_set'',
     ent 2 0 ''ioprio_get'',
     ent 0 TD ''inotify_init'',
     ent 3 TD ''inotify_add_watch'',
     ent 2 TD ''inotify_rm_watch'',
     ent 4 0 ''migrate_pages'',
     ent 4 (TD OR TF) ''openat'',
     ent 3 (TD OR TF) ''mkdirat'',
     ent 4 (TD OR TF) ''mknodat'',
     ent 5 (TD OR TF) ''fchownat'',
     ent 3 (TD OR TF) ''futimesat'',
     ent 4 (TD OR TD) ''fstatat64'',
     ent 3 (TD OR TF) ''unlinkat'',
     ent 4 (TD OR TF) ''renameat'',
     ent 5 (TD OR TF) ''linkat'',
     ent 3 (TD OR TF) ''symlinkat'',
     ent 4 (TD OR TF) ''readlinkat'',
     ent 4 (TD OR TF) ''fchmodat'',
     ent 4 (TD OR TF) ''faccessat'',
     ent 6 TD ''pselect6'',
     ent 4 TD ''ppoll'',
     ent 1 TP ''unshare'',
     ent 2 0 ''set_robust_list'',
     ent 3 0 ''get_robust_list'',
     ent 6 TD ''splice'',
     ent 4 TD ''sync_file_range'',
     ent 4 TD ''tee'',
     ent 4 TD ''vmsplice'',
     ent 6 0 ''move_pages'',
     ent 3 0 ''getcpu'',
     ent 5 TD ''epoll_pwait'',
     ent 4 (TD OR TF) ''utimensat'',
     ent 3 (TD OR TS) ''signalfd'',
     ent 2 TD ''timerfd_create'',
     ent 2 TD ''eventfd'',
     ent 4 TF ''fallocate'',
     ent 4 TD ''timerfd_settime'',
     ent 2 TD ''timerfd_gettime'',
     ent 0 0 ''signalfd4'',
     ent 0 0 ''eventfd2'',
     ent 0 0 ''epoll_create1'',
     ent 0 0 ''dup3'',
     ent 0 0 ''pipe2'',
     ent 0 0 ''inotify_init1'']"

definition syscalls :: "syscall_entry list" where
  "syscalls = syscalls_0 @ syscalls_56 @ syscalls_112 @ syscalls_168 @ syscalls_224 @ syscalls_280"

lemmas syscalls_defs = syscalls_def syscalls_0_def syscalls_56_def syscalls_112_def syscalls_168_def syscalls_224_def syscalls_280_def

lemma ent_simps [simp]:
  "sys_nargs (ent n f s) = n" "sys_name (ent n f s) = s" "sys_flags (ent n f s) = f"
  by (simp_all add: ent_def)

text \<open>Every call takes at most the six arguments that fit in registers.\<close>

definition six_args :: "syscall_entry list \<Rightarrow> bool" where
  "six_args es \<longleftrightarrow> list_all (\<lambda>e. sys_nargs e \<le> 6) es"

lemma length_blocks:
  "length syscalls_0 = 56"
  "length syscalls_56 = 56"
  "length syscalls_112 = 56"
  "length syscalls_168 = 56"
  "length syscalls_224 = 56"
  "length syscalls_280 = 53"
  by (simp_all add: syscalls_0_def syscalls_56_def syscalls_112_def syscalls_168_def syscalls_224_def syscalls_280_def)

lemma length_syscalls [simp]: "length syscalls = 333"
  unfolding syscalls_def length_append length_blocks by simp

lemma six_args_blocks:
  "six_args syscalls_0"
  "six_args syscalls_56"
  "six_args syscalls_112"
  "six_args syscalls_168"
  "six_args syscalls_224"
  "six_args syscalls_280"
  by (simp_all add: six_args_def syscalls_0_def syscalls_56_def syscalls_112_def syscalls_168_def syscalls_224_def syscalls_280_def)

lemma six_args_syscalls: "six_args syscalls"
  using six_args_blocks by (simp add: syscalls_def six_args_def)

end
