(* ===== verification/Intercept.thy ===== *)
theory Intercept
  imports VmInfo Syscalls
begin

text \<open>
  \<open>kernel/intercept.c\<close>: what the monitor does at each exit of the guest.  \<open>handle_vmexit\<close> looks at
  the exit code in the control block and calls a handler; a handler maps a \<open>machine\<close> to the machine
  after it, stops the monitor with a fatal message (\<open>Inl\<close>), or has no result (\<open>None\<close>): a loop over
  guest data that does not end, or a read outside the table of system calls.  Every call of
  \<open>outf\<close> is recorded; the output before a fatal failure is not.  Guest memory is read wherever
  the guest's page tables point, at -1 too where the code does not check for it.
\<close>

subsection \<open>Guest addresses\<close>

text \<open>The guest's physical addresses are the host's.\<close>

definition glogic_2_hphysic :: "machine \<Rightarrow> u16 \<Rightarrow> u64 \<Rightarrow> u64 res" where
  "glogic_2_hphysic s seg_select offset =
     bindr (glogic_2_glinear (ram s) (vcb s) seg_select offset) (\<lambda>glinear.
       linear_2_physical (ram s) (cr0 (vcb s)) (cr3 (vcb s)) (cr4 (vcb s)) glinear)"

definition hp :: "machine \<Rightarrow> u16 \<Rightarrow> u64 \<Rightarrow> u64 run" where
  "hp s seg_select offset = Some (glogic_2_hphysic s seg_select offset)"

abbreviation ds_hp :: "machine \<Rightarrow> u64 \<Rightarrow> u64 run" where
  "ds_hp s offset \<equiv> hp s (sel (ds (vcb s))) offset"

abbreviation ret :: "'a \<Rightarrow> 'a run" where "ret x \<equiv> Some (Inr x)"

subsection \<open>The current process of the guest\<close>

definition get_cur_process_taskstruct :: "machine \<Rightarrow> (u64 \<times> machine) run" where
  "get_cur_process_taskstruct s =
     bindo (hp s (sel (ss (vcb s))) (rsp (vcb s) AND 0xffffe000)) (\<lambda>thread_info_hp.
       let task_struct_gl = load64 (ram s) thread_info_hp
       in bindo (ds_hp s task_struct_gl) (\<lambda>task_struct_hp.
            ret (task_struct_hp,
              if task_struct_hp = 0
              then say '' task_struct_gl = %x, ds = %x, ss = %x''
                     [ArgX task_struct_gl, ArgX (ucast (sel (ds (vcb s)))), ArgX (ucast (sel (ss (vcb s))))] s
              else s)))"

definition get_cur_process_usermode_taskstruct :: "machine \<Rightarrow> u64 run" where
  "get_cur_process_usermode_taskstruct s =
     bindo (hp s (sel (tr (vcb s))) 0x04) (\<lambda>esp_hp.
       if esp_hp = - 1 then ret (- 1)
       else
         let esp = load64 (ram s) esp_hp
         in bindo (hp s (sel (tr (vcb s))) 0x08) (\<lambda>ss_hp.
              if ss_hp = - 1 then ret (- 1)
              else
                bindo (hp s (load16 (ram s) ss_hp) (esp AND 0xffffe000)) (\<lambda>thread_info_hp.
                  if thread_info_hp = - 1 then ret (- 1)
                  else ds_hp s (load64 (ram s) thread_info_hp))))"

text \<open>Mode 0 is kernel mode.\<close>

definition get_taskstruct :: "machine \<Rightarrow> nat \<Rightarrow> (u64 \<times> machine) run" where
  "get_taskstruct s mode =
     (if mode = 0 then get_cur_process_taskstruct s
      else bindo (get_cur_process_usermode_taskstruct s) (\<lambda>p. ret (p, s)))"

definition get_cur_process_name :: "machine \<Rightarrow> nat \<Rightarrow> (u64 \<times> machine) run" where
  "get_cur_process_name s mode =
     bindo (get_taskstruct s mode) (\<lambda>(task_struct_hp, s).
       let pname = task_struct_hp + 0x18C
       in ret (pname,
            if task_struct_hp \<noteq> - 1 then say (line ''+++++ process name: %s'') [ArgP pname] s else s))"

text \<open>The thread id is read before the address is compared with -1.\<close>

definition get_cur_threadid :: "machine \<Rightarrow> nat \<Rightarrow> (u32 \<times> machine) run" where
  "get_cur_threadid s mode =
     bindo (get_taskstruct s mode) (\<lambda>(task_struct_hp, s).
       let tid = load32 (ram s) (task_struct_hp + 0xA8)
       in ret (if task_struct_hp \<noteq> - 1 then tid else 0, s))"

definition skip_intercpt_cur_instr :: "u32 \<Rightarrow> machine \<Rightarrow> machine" where
  "skip_intercpt_cur_instr flag s =
     vm_enable_intercept USER_SINGLE_STEPPING
       (upd_vm (\<lambda>v. v\<lparr>itc_skip_flag := itc_skip_flag v OR flag\<rparr>) (vm_disable_intercept flag s))"

subsection \<open>System calls\<close>

definition SYS_READ :: u32 where "SYS_READ = 3"
definition SYS_WRITE :: u32 where "SYS_WRITE = 4"
definition SYS_OPEN :: u32 where "SYS_OPEN = 5"
definition SYS_CLOSE :: u32 where "SYS_CLOSE = 6"
definition SYS_WAITPID :: u32 where "SYS_WAITPID = 7"
definition SYS_LINK :: u32 where "SYS_LINK = 9"
definition SYS_UNLINK :: u32 where "SYS_UNLINK = 10"
definition SYS_EXECVE :: u32 where "SYS_EXECVE = 11"
definition SYS_LCHOWN :: u32 where "SYS_LCHOWN = 16"
definition SYS_LSEEK :: u32 where "SYS_LSEEK = 19"
definition SYS_ACCESS :: u32 where "SYS_ACCESS = 33"
definition SYS_IOCTL :: u32 where "SYS_IOCTL = 54"
definition SYS_USELIB :: u32 where "SYS_USELIB = 86"
definition SYS_MMAP :: u32 where "SYS_MMAP = 90"
definition SYS_MUNMAP :: u32 where "SYS_MUNMAP = 91"
definition SYS_SOCKETCALL :: u32 where "SYS_SOCKETCALL = 102"
definition SYS_FSTAT :: u32 where "SYS_FSTAT = 108"
definition SYS_SOCKET :: u32 where "SYS_SOCKET = 1"
definition SYS_BIND :: u32 where "SYS_BIND = 2"
definition SYS_CONNECT :: u32 where "SYS_CONNECT = 3"
definition SYS_LISTEN :: u32 where "SYS_LISTEN = 4"
definition SYS_ACCEPT :: u32 where "SYS_ACCEPT = 5"
definition SYS_SENDTO :: u32 where "SYS_SENDTO = 11"
definition SYS_RECVFROM :: u32 where "SYS_RECVFROM = 12"

lemmas SYS_defs = SYS_READ_def SYS_WRITE_def SYS_OPEN_def SYS_CLOSE_def SYS_WAITPID_def SYS_LINK_def
  SYS_UNLINK_def SYS_EXECVE_def SYS_LCHOWN_def SYS_LSEEK_def SYS_ACCESS_def SYS_IOCTL_def
  SYS_USELIB_def SYS_MMAP_def SYS_MUNMAP_def SYS_SOCKETCALL_def SYS_FSTAT_def

text \<open>A 32-bit value as an argument of \<open>outf\<close>.\<close>

abbreviation argw :: "u32 \<Rightarrow> out_arg" where "argw w \<equiv> ArgX (ucast w)"

text \<open>The name of an open file, or the descriptor when it has none.\<close>

definition say_file :: "string \<Rightarrow> string \<Rightarrow> u64 \<Rightarrow> machine \<Rightarrow> machine" where
  "say_file fd_fmt name_fmt fd s =
     (let fname = vm_get_fname_from_id s (ucast fd)
      in if fname = 0 then say fd_fmt [ArgX fd] s else say name_fmt [ArgP fname] s)"

definition sys_uselib :: "machine \<Rightarrow> machine run" where
  "sys_uselib s =
     bindo (ds_hp s (g_rbx (regs s))) (\<lambda>arg1.
       ret (if arg1 \<noteq> - 1 then say ''library used: = %s'' [ArgP arg1] s else s))"

definition sys_open :: "machine \<Rightarrow> machine run" where
  "sys_open s =
     bindo (ds_hp s (g_rbx (regs s))) (\<lambda>filename.
       if filename = - 1 then ret s
       else
         let flags = g_rcx (regs s) AND 0xFFFF;
             mode = g_rdx (regs s) AND 0xFFFF;
             s = say ''filename: %s, flags: %x, mode: %x'' [ArgP filename, ArgX flags, ArgX mode] s
         in bindo (get_cur_threadid s 3) (\<lambda>(tid, s).
              ret (vm_add_waiting_thread tid
                \<lparr>syscallno = SYS_OPEN, arg = filename, datasize = uninit s, socketno = uninit s\<rparr> s)))"

definition sys_open_iret :: "syscall_info \<Rightarrow> machine \<Rightarrow> machine" where
  "sys_open_iret info s = vm_add_fileid2name_map (ucast (rax (vcb s))) (arg info) s"

definition sys_close :: "machine \<Rightarrow> machine run" where
  "sys_close s = ret (say_file ''fd: %x'' ''filename: %s'' (g_rbx (regs s)) s)"

definition sys_waitpid :: "machine \<Rightarrow> machine run" where
  "sys_waitpid s =
     (let arg1 = (ucast (g_rbx (regs s)) :: u32);
          s = (if sint arg1 < - 1
               then say ''Waiting for any child process whose process group ID is %x, '' [argw (- arg1)] s
               else if sint arg1 = - 1 then say ''Waiting for any child process, '' [] s
               else if sint arg1 = 0
               then say ''Waiting for child process whose process group ID is equal to that of the calling process, '' [] s
               else if sint arg1 > 0
               then say ''Waiting for child process whose process ID is %x, '' [argw arg1] s
               else say ''Error: Should not reach here'' [] s)
      in bindo (ds_hp s (g_rcx (regs s))) (\<lambda>arg2.
           let s = (if arg2 \<noteq> 0 then say ''Status: %x, '' [argw (load32 (ram s) arg2)] s
                    else say ''Status: NULL, '' [] s)
           in ret (say ''Option: %x'' [argw (ucast (g_rdx (regs s)))] s)))"

text \<open>A string argument, when its address is not null.\<close>

definition say_string :: "string \<Rightarrow> u64 \<Rightarrow> machine \<Rightarrow> machine run" where
  "say_string f gaddr s =
     bindo (ds_hp s gaddr) (\<lambda>p. ret (if p \<noteq> 0 then say f [ArgP p] s else s))"

definition sys_link :: "machine \<Rightarrow> machine run" where
  "sys_link s =
     bindo (say_string ''Old Filename: %s, '' (g_rbx (regs s)) s) (\<lambda>s.
       say_string ''New Filename: %s'' (g_rcx (regs s)) s)"

definition sys_unlink :: "machine \<Rightarrow> machine run" where
  "sys_unlink s = say_string ''Filename: %s'' (g_rbx (regs s)) s"

definition sys_mmap :: "machine \<Rightarrow> machine run" where
  "sys_mmap s =
     (let r = regs s;
          s = say ''Starting Addr: %x, '' [ArgX (g_rbx r)] s;
          s = say ''Length: %x, '' [argw (ucast (g_rcx r))] s;
          s = say ''MEM Protection: %x, '' [argw (ucast (g_rdx r))] s;
          s = say ''Flag: %x, '' [argw (ucast (g_rsi r))] s;
          s = say_file ''fd: %x, '' ''filename: %s, '' (g_rdi r) s
      in ret (say ''Offset: %x'' [argw (ucast (g_rbp r))] s))"

definition sys_munmap :: "machine \<Rightarrow> machine run" where
  "sys_munmap s =
     ret (say ''Length: %x'' [argw (ucast (g_rcx (regs s)))]
       (say ''Starting Addr: %x, '' [ArgX (g_rbx (regs s))] s))"

definition sys_access :: "machine \<Rightarrow> machine run" where
  "sys_access s =
     bindo (say_string ''Filename to check: %s, '' (g_rbx (regs s)) s) (\<lambda>s.
       let arg2 = (ucast (g_rcx (regs s)) :: u32)
       in ret (if arg2 = 4 then say ''Mode: Readable'' [] s
               else if arg2 = 2 then say ''Mode: Writable'' [] s
               else if arg2 = 1 then say ''Mode: Executable'' [] s
               else if arg2 = 0 then say ''Mode: File exists'' [] s
               else s))"

definition sys_lchown :: "machine \<Rightarrow> machine run" where
  "sys_lchown s =
     bindo (say_string ''Filename: %s, '' (g_rbx (regs s)) s) (\<lambda>s.
       ret (say ''Group ID: %x'' [argw (ucast (g_rdx (regs s)))]
         (say ''Owner ID: %x, '' [argw (ucast (g_rcx (regs s)))] s)))"

definition sys_lseek :: "machine \<Rightarrow> machine run" where
  "sys_lseek s =
     ret (say ''whence: %x'' [argw (ucast (g_rdx (regs s)))]
       (say ''Offset: %x, '' [argw (ucast (g_rcx (regs s)))]
         (say_file ''fd: %x, '' ''filename: %s, '' (g_rbx (regs s)) s)))"

definition sys_read :: "machine \<Rightarrow> machine run" where
  "sys_read s =
     (let s = say_file ''fd: %x, '' ''filename: %s, '' (g_rbx (regs s)) s;
          s = say ''buffer: %x, '' [ArgX (g_rcx (regs s))] s;
          s = say ''size: %x'' [ArgX (g_rdx (regs s) AND 0xFFFF)] s
      in bindo (get_cur_threadid s 3) (\<lambda>(tid, s).
           ret (vm_add_waiting_thread tid
             \<lparr>syscallno = SYS_READ, arg = g_rcx (regs s), datasize = uninit s, socketno = uninit s\<rparr> s)))"

text \<open>The first \<open>n\<close> bytes of a buffer.\<close>

definition byte_calls :: "mem \<Rightarrow> u64 \<Rightarrow> nat \<Rightarrow> out_call list" where
  "byte_calls m p n = map (\<lambda>i. (''%x '', [ArgX (ucast (m (p + of_nat i)))])) [0 ..< n]"

definition sys_read_iret :: "syscall_info \<Rightarrow> machine \<Rightarrow> machine run" where
  "sys_read_iret info s =
     (let s = say (line ''sys_read return value: %x'') [ArgX (rax (vcb s))] s
      in if rax (vcb s) > 0 then
           bindo (ds_hp s (arg info)) (\<lambda>buffer_hp.
             if buffer_hp \<noteq> - 1 then
               let len = (if 10 > rax (vcb s) then unat (rax (vcb s)) else 10);
                   s = say_all (byte_calls (ram s) buffer_hp len) (say ''first 10 bytes: '' [] s)
               in ret (say (line []) [] s)
             else ret s)
         else ret s)"

definition sys_write :: "machine \<Rightarrow> machine run" where
  "sys_write s =
     (let s = say_file ''fd: %x, '' ''filename: %s, '' (g_rbx (regs s)) s;
          s = say ''size: %x, '' [ArgX (g_rdx (regs s))] s
      in bindo (ds_hp s (g_rcx (regs s))) (\<lambda>arg2.
           ret (if arg2 \<noteq> - 1 then say ''content written [%s]'' [ArgP arg2] s else s)))"

definition sys_ioctl :: "machine \<Rightarrow> machine run" where
  "sys_ioctl s =
     ret (say ''Memory Addr: %x'' [ArgX (g_rdx (regs s))]
       (say ''Device-dependent request code: %x, '' [argw (ucast (g_rcx (regs s)))]
         (say_file ''fd: %x, '' ''filename: %s, '' (g_rbx (regs s)) s)))"

subsection \<open>Network calls\<close>

text \<open>The 64-bit word at a guest address of the data segment.\<close>

definition guest_word :: "machine \<Rightarrow> u64 \<Rightarrow> u64 run" where
  "guest_word s gaddr = bindo (ds_hp s gaddr) (\<lambda>p. ret (load64 (ram s) p))"

text \<open>The loop that reads \<open>arg[i]\<close> at \<open>g_rcx + i * 4\<close>.\<close>

primrec read_args :: "machine \<Rightarrow> nat list \<Rightarrow> u64 list run" where
  "read_args s [] = ret []"
| "read_args s (i # is) =
     bindo (guest_word s (g_rcx (regs s) + of_nat (i * 4))) (\<lambda>a.
       bindo (read_args s is) (\<lambda>args. ret (a # args)))"

text \<open>\<open>struct sockaddr_in\<close> as this file declares it: the port at offset 2, the address at offset 8,
  because \<open>s_addr\<close> is an \<open>unsigned long\<close>.\<close>

definition ip_args :: "mem \<Rightarrow> u64 \<Rightarrow> out_arg list" where
  "ip_args m peer_info_hp = map (\<lambda>i. ArgX (ucast (m (peer_info_hp + 8 + of_nat i)))) [0 ..< 4]"

definition port_arg :: "mem \<Rightarrow> u64 \<Rightarrow> out_arg" where
  "port_arg m peer_info_hp = ArgX (ucast (load16 m (peer_info_hp + 2)))"

definition sys_recvfrom :: "machine \<Rightarrow> machine run" where
  "sys_recvfrom s =
     bindo (guest_word s (g_rcx (regs s) + 4)) (\<lambda>buffer_gl.
     bindo (guest_word s (g_rcx (regs s) + 16)) (\<lambda>peer_info_gl.
     bindo (guest_word s (g_rcx (regs s) + 8)) (\<lambda>w.
     let bufsize = w AND 0xFFFF
     in bindo (ds_hp s peer_info_gl) (\<lambda>peer_info_hp.
        let s = say ''receving %x bytes from  %x.%x.%x.%x : %x  ''
                  (ArgX bufsize # ip_args (ram s) peer_info_hp @ [port_arg (ram s) peer_info_hp]) s
        in bindo (get_cur_threadid s 102) (\<lambda>(tid, s).
             ret (vm_add_waiting_thread tid
               \<lparr>syscallno = SYS_SOCKETCALL, arg = buffer_gl, datasize = ucast bufsize, socketno = 12\<rparr> s))))))"

text \<open>The loop counter and \<open>datasize\<close> are signed.\<close>

definition sys_recvfrom_iret :: "syscall_info \<Rightarrow> machine \<Rightarrow> machine run" where
  "sys_recvfrom_iret info s =
     bindo (hp s 0 (arg info)) (\<lambda>buffer_hp.
       ret (if buffer_hp \<noteq> - 1
            then say (line []) [] (say_all (byte_calls (ram s) buffer_hp (nat (sint (datasize info)))) s)
            else s))"

definition sys_sendto :: "machine \<Rightarrow> machine run" where
  "sys_sendto s =
     bindo (read_args s [0 ..< 6]) (\<lambda>args.
       let bufsize = (args ! 2) AND 0xFFFF
       in bindo (ds_hp s (args ! 4)) (\<lambda>peer_info_hp.
          bindo (hp s 0 (args ! 1)) (\<lambda>buffer_hp.
            if buffer_hp \<noteq> - 1 then
              let s = say ''sending %x bytes to  %x.%x.%x.%x:%x ''
                        (ArgX bufsize # ip_args (ram s) peer_info_hp @ [port_arg (ram s) peer_info_hp]) s;
                  s = say_all (byte_calls (ram s) buffer_hp (unat bufsize)) s
              in ret (say (line []) [] s)
            else ret s)))"

definition sys_socket :: "machine \<Rightarrow> machine run" where
  "sys_socket s =
     bindo (read_args s [0 ..< 6]) (\<lambda>args.
       ret (say ''sys_socket  family %x, type %x protocol %x''
         [ArgX (args ! 0), ArgX (args ! 1), ArgX (args ! 2)] s))"

definition sys_bind :: "machine \<Rightarrow> machine run" where
  "sys_bind s =
     bindo (read_args s [0 ..< 6]) (\<lambda>args.
       bindo (ds_hp s (args ! 1)) (\<lambda>peer_info_hp.
         ret (say (''sys_bind fd %x peer'' @ CHR 0x27 # ''s ip %x.%x.%x.%x addrlen %x'')
           (ArgX (args ! 0) # ip_args (ram s) peer_info_hp @ [ArgX (args ! 2)]) s)))"

definition sys_connect :: "machine \<Rightarrow> machine run" where
  "sys_connect s =
     bindo (read_args s [0 ..< 6]) (\<lambda>args.
       bindo (ds_hp s (args ! 1)) (\<lambda>peer_info_hp.
         ret (say (''sys_connect fd %x peer'' @ CHR 0x27 # ''s ip %x.%x.%x.%x addrlen %x'')
           (ArgX (args ! 0) # ip_args (ram s) peer_info_hp @ [ArgX (args ! 2)]) s)))"

definition sys_listen :: "machine \<Rightarrow> machine run" where
  "sys_listen s =
     bindo (read_args s [0 ..< 6]) (\<lambda>args.
       ret (say ''listen  fd %x, backlog %x'' [ArgX (args ! 0), ArgX (args ! 1)] s))"

definition sys_accept :: "machine \<Rightarrow> machine run" where
  "sys_accept s =
     bindo (read_args s [0 ..< 6]) (\<lambda>args.
       bindo (ds_hp s (args ! 1)) (\<lambda>peer_info_hp.
         ret (say (''sys_accept fd %x peer'' @ CHR 0x27 # ''s ip %x.%x.%x.%x '')
           (ArgX (args ! 0) # ip_args (ram s) peer_info_hp) s)))"

definition sys_socketcall :: "machine \<Rightarrow> machine run" where
  "sys_socketcall s =
     (let call = (ucast (g_rbx (regs s)) :: u32)
      in if call = SYS_SOCKET then sys_socket s
         else if call = SYS_BIND then sys_bind s
         else if call = SYS_CONNECT then sys_connect s
         else if call = SYS_LISTEN then sys_listen s
         else if call = SYS_ACCEPT then sys_accept s
         else if call = SYS_SENDTO then sys_sendto s
         else if call = SYS_RECVFROM then sys_recvfrom s
         else ret s)"

lemma bindo_mono [partial_function_mono]:
  assumes "mono_option B" and "\<And>y. mono_option (\<lambda>f. C y f)"
  shows "mono_option (\<lambda>f. bindo (B f) (\<lambda>y. C y f))"
proof -
  have eq: "bindo r k = Option.bind r (\<lambda>x. case x of Inl e \<Rightarrow> Some (Inl e) | Inr y \<Rightarrow> k y)" for r :: "'c run" and k :: "'c \<Rightarrow> 'd run"
    by (simp add: bindo_def Option.bind_def split: option.split)
  have inner: "mono_option (\<lambda>f. case x of Inl e \<Rightarrow> Some (Inl e) | Inr y \<Rightarrow> C y f)" for x
    using assms(2) by (cases x) (simp_all add: partial_function_mono)
  show ?thesis unfolding eq by (rule bind_mono [OF assms(1) inner])
qed

text \<open>The strings of a null-terminated vector at address \<open>tbl\<close>, from index \<open>i\<close>: the loop ends at a
  null pointer, which the guest need not provide.\<close>

partial_function (option) print_strings :: "machine \<Rightarrow> u64 \<Rightarrow> nat \<Rightarrow> machine run" where
  "print_strings s tbl i =
     (let p = load64 (ram s) (tbl + of_nat (8 * i))
      in if p = 0 then ret s
         else bindo (ds_hp s p) (\<lambda>temp.
           let s = (if temp \<noteq> - 1 then say ''%s'' [ArgP temp] s else s);
               s = (if load64 (ram s) (tbl + of_nat (8 * (i + 1))) \<noteq> 0 then say '', '' [] s else s)
           in print_strings s tbl (i + 1)))"

definition sys_execve :: "machine \<Rightarrow> machine run" where
  "sys_execve s =
     bindo (ds_hp s (g_rbx (regs s))) (\<lambda>arg1.
     let s = (if arg1 \<noteq> - 1 then say ''Filename: %s '' [ArgP arg1] s else s)
     in bindo (ds_hp s (g_rcx (regs s))) (\<lambda>arg2.
        bindo (if arg2 \<noteq> - 1 then print_strings (say ''Arguments['' [] s) arg2 0 else ret s) (\<lambda>s.
        let s = say ''], key=value pairs['' [] s
        in bindo (ds_hp s (g_rdx (regs s))) (\<lambda>arg3.
           bindo (if arg3 \<noteq> - 1 then print_strings s arg3 0 else ret s) (\<lambda>s.
           ret (say '']'' [] s))))))"

definition sys_fstat :: "machine \<Rightarrow> machine run" where
  "sys_fstat s =
     ret (say ''Addr to Stat Structure: %x'' [ArgX (g_rcx (regs s))]
       (say_file ''fd: %x, '' ''filename: %s, '' (g_rbx (regs s)) s))"

text \<open>The default case: the arguments of a call without a handler of its own.  No call has more than
  six.\<close>

definition syscall_arg :: "gregs \<Rightarrow> nat \<Rightarrow> u32" where
  "syscall_arg r i =
     ucast (if i = 1 then g_rbx r else if i = 2 then g_rcx r else if i = 3 then g_rdx r
            else if i = 4 then g_rsi r else if i = 5 then g_rdi r else g_rbp r)"

definition print_args :: "nat \<Rightarrow> machine \<Rightarrow> machine" where
  "print_args nargs s =
     say_all (concat (map (\<lambda>i. (''%x'', [argw (syscall_arg (regs s) i)]) #
       (if i < nargs then [('', '', [])] else [])) [1 ..< nargs + 1])) s"

definition syscall_handler :: "u32 \<Rightarrow> nat \<Rightarrow> machine \<Rightarrow> machine run" where
  "syscall_handler no nargs s =
     (if no = SYS_READ then sys_read s
      else if no = SYS_WRITE then sys_write s
      else if no = SYS_OPEN then sys_open s
      else if no = SYS_CLOSE then sys_close s
      else if no = SYS_WAITPID then sys_waitpid s
      else if no = SYS_LINK then sys_link s
      else if no = SYS_UNLINK then sys_unlink s
      else if no = SYS_EXECVE then sys_execve s
      else if no = SYS_LCHOWN then sys_lchown s
      else if no = SYS_LSEEK then sys_lseek s
      else if no = SYS_ACCESS then sys_access s
      else if no = SYS_IOCTL then sys_ioctl s
      else if no = SYS_USELIB then sys_uselib s
      else if no = SYS_MMAP then sys_mmap s
      else if no = SYS_MUNMAP then sys_munmap s
      else if no = SYS_SOCKETCALL then sys_socketcall s
      else if no = SYS_FSTAT then sys_fstat s
      else ret (print_args nargs s))"

text \<open>A number outside the table reads past the end of \<open>syscalls\<close>: the code has no defined behaviour
  there.\<close>

definition handle_syscall :: "machine \<Rightarrow> machine run" where
  "handle_syscall s =
     (let sysCallNo = (ucast (rax (vcb s)) :: u32)
      in if unat sysCallNo \<ge> length syscalls then None
         else
           let entry = syscalls ! unat sysCallNo;
               s = say ''>> %s( '' [ArgS (sys_name entry)] s
           in bindo (syscall_handler sysCallNo (sys_nargs entry) s) (\<lambda>s.
              bindo (if nWaitingThreads (vm s) = 0 then
                       bindo (get_cur_threadid s 3) (\<lambda>(tid, s).
                         ret (vm_add_waiting_thread tid
                           \<lparr>syscallno = 0, arg = ucast (uninit s), datasize = uninit s, socketno = uninit s\<rparr> s))
                     else ret s) (\<lambda>s.
              let s = upd_vcb (\<lambda>v. v\<lparr>rflags := rflags v OR X86_RFLAGS_TF,
                        general1_intercepts := general1_intercepts v OR INTRCPT_IRET\<rparr>) s
              in ret (say (line '' )'') [] s))))"

subsection \<open>Exits\<close>

text \<open>A nested page fault is fatal.\<close>

definition handle_vm_npf :: "machine \<Rightarrow> machine run" where
  "handle_vm_npf s =
     (let s = say_all (print_page_errorcode (exitinfo1 (vcb s))) s
      in bindo (Some (fatal_failure ''Nested page fault!'')) (\<lambda>_ :: unit.
           ret (upd_vcb (\<lambda>v. v\<lparr>rflags := rflags v OR 2\<rparr>) s)))"

text \<open>The assignments to the fields of \<open>eventinj\<close>.\<close>

definition inject :: "u64 \<Rightarrow> u64 \<Rightarrow> u64 \<Rightarrow> u64 \<Rightarrow> u64" where
  "inject e vec typ err_valid =
     (let e = set_field e 0 8 vec;
          e = set_field e 8 3 typ;
          e = set_field e 11 1 err_valid
      in set_field e 31 1 1)"

definition handle_vm_swint :: "machine \<Rightarrow> machine run" where
  "handle_vm_swint s =
     bindo (hp s (sel (cs (vcb s))) (rip (vcb s))) (\<lambda>ipaddr_hp.
       let vec = ram s (ipaddr_hp + 1)
       in bindo (if vec = 0x80 then handle_syscall s else ret s) (\<lambda>s.
            ret (upd_vcb (\<lambda>v. v\<lparr>eventinj := inject (eventinj v) (ucast vec) EVENT_TYPE_SWINT 0,
                                rip := rip v + 2\<rparr>) s)))"

definition handle_vm_iret :: "machine \<Rightarrow> machine run" where
  "handle_vm_iret s =
     bindo
       (if nWaitingThreads (vm s) \<noteq> 0 then
          bindo (get_cur_threadid s 0) (\<lambda>(tid, s).
            let p = vm_get_waiting_syscall s tid
            in if p \<noteq> 0 then
                 let info = load_info (ram s) p
                 in bindo
                      (if syscallno info = 0 then ret (say (line ''syscall return: %x'') [ArgX (rax (vcb s))] s)
                       else if syscallno info = SYS_READ then sys_read_iret info s
                       else if syscallno info = SYS_OPEN then ret (sys_open_iret info s)
                       else if syscallno info = SYS_SOCKETCALL then
                         (if socketno info = 12 then sys_recvfrom_iret info s else ret s)
                       else ret s)
                      (\<lambda>s. ret (vm_remove_waiting_thread tid s))
               else ret s)
        else ret s)
       (\<lambda>s. ret (skip_intercpt_cur_instr USER_ITC_IRET s))"

definition inject_exception :: "machine \<Rightarrow> machine" where
  "inject_exception s =
     (let vec = to_int (exitcode (vcb s) - VMEXIT_EXCEPTION_DE);
          s = upd_vcb (\<lambda>v. v\<lparr>eventinj :=
                set_field (inject (eventinj v) (ucast vec) EVENT_TYPE_EXCEPTION 1) 32 32 (exitinfo1 v)\<rparr>) s
      in say (CHR 0x0A # line ''#Exception vector=%x injected into guest, code: %x'')
           [argw vec, ArgX (eventinj (vcb s))] s)"

text \<open>\<open>print_vmcb_state\<close> of \<open>kernel/vmcb.c\<close>, which every exit calls first, and two of the exceptions again.\<close>

definition print_vmcb_state :: "machine \<Rightarrow> out_call list" where
  "print_vmcb_state s =
     (let v = vcb s; r = regs s
      in [(line ''*******  VMCB STATE  *********'', []),
          (line ''cs:ip = %x:%x'', [ArgX (ucast (sel (cs v))), ArgX (rip v)]),
          (line ''ss:sp = %x:%x'', [ArgX (ucast (sel (ss v))), ArgX (rsp v)]),
          (line ''ds:bp = %x:%x'', [ArgX (ucast (sel (ds v))), ArgX (g_rbp r)]),
          (line ''eax = %x, ebx = %x, ecx = %x, edx = %x'', [ArgX (rax v), ArgX (g_rbx r), ArgX (g_rcx r), ArgX (g_rdx r)]),
          (''esi = %x, edi = %x'', [ArgX (g_rsi r), ArgX (g_rdi r)]),
          (line ''cpl=%x'', [ArgX (ucast (cpl v))]),
          (line ''cr0=%x, cr3=%x, cr4=%x'', [ArgX (cr0 v), ArgX (cr3 v), ArgX (cr4 v)]),
          (line ''rflags=%x, efer=%x'', [ArgX (rflags v), ArgX (efer v)])])"

text \<open>The arms of the switch of \<open>__handle_vm_exception\<close>.\<close>

definition handle_gp :: "machine \<Rightarrow> machine" where
  "handle_gp s =
     upd_vcb (\<lambda>v. v\<lparr>cs := (cs v)\<lparr>sel := ucast (org_sysenter_cs (vm s))\<rparr>,
                    ss := (ss v)\<lparr>sel := ucast (org_sysenter_cs (vm s) + 8)\<rparr>,
                    rsp := sysenter_esp v, rip := sysenter_eip v\<rparr>) (say_all (print_vmcb_state s) s)"

definition handle_db :: "machine \<Rightarrow> machine" where
  "handle_db s =
     (if ctrue (itc_skip_flag (vm s)) then
        let s = vm_enable_intercept (itc_skip_flag (vm s)) s;
            s = upd_vm (\<lambda>v. v\<lparr>itc_skip_flag := 0\<rparr>) s
        in if \<not> ctrue (btrackcurrent (vm s)) \<or> \<not> ctrue (itc_flag (vm s) AND USER_SINGLE_STEPPING)
           then vm_disable_intercept USER_SINGLE_STEPPING s else s
      else s)"

definition handle_pf :: "machine \<Rightarrow> machine" where
  "handle_pf s =
     (if ctrue (exitinfo1 (vcb s) AND 1) \<and> ctrue (exitinfo1 (vcb s) AND 2) \<and> ctrue (itc_flag (vm s) AND USER_UNPACK)
      then skip_intercpt_cur_instr USER_UNPACK
             (say (line ''USER_UNPACK: guest wrote to %x'') [ArgX (exitinfo2 (vcb s))] s)
      else inject_exception
             (upd_vcb (\<lambda>v. v\<lparr>cr2 := exitinfo2 v\<rparr>) (say_all (print_page_errorcode (exitinfo1 (vcb s))) s)))"

definition handle_vm_exception :: "machine \<Rightarrow> machine" where
  "handle_vm_exception s =
     (let code = exitcode (vcb s)
      in if code = VMEXIT_EXCEPTION_TS then inject_exception (say ''TSS invalid!'' [] (say_all (print_vmcb_state s) s))
         else if code = VMEXIT_EXCEPTION_GP then handle_gp s
         else if code = VMEXIT_EXCEPTION_DB then handle_db s
         else if code = VMEXIT_EXCEPTION_PF then handle_pf s
         else inject_exception s)"

definition handle_cr3_write :: "machine \<Rightarrow> machine" where
  "handle_cr3_write s =
     skip_intercpt_cur_instr USER_ITC_TASKSWITCH
       (upd_vcb (\<lambda>v. v\<lparr>general1_intercepts := general1_intercepts v OR INTRCPT_POPF\<rparr>) s)"

definition handle_popf :: "machine \<Rightarrow> machine run" where
  "handle_popf s =
     bindo (get_cur_process_name s 0) (\<lambda>(pname, s).
       let s = upd_vcb (\<lambda>v. v\<lparr>general1_intercepts := general1_intercepts v AND NOT INTRCPT_POPF\<rparr>) s;
           flags = itc_flag (vm s) AND NOT USER_ITC_TASKSWITCH
       in ret (if ctrue (vm_is_process_tracked s pname)
               then upd_vm (\<lambda>v. v\<lparr>btrackcurrent := 1\<rparr>) (vm_enable_intercept flags s)
               else upd_vm (\<lambda>v. v\<lparr>btrackcurrent := 0\<rparr>) (vm_disable_intercept flags s)))"

definition user_enable_intercept :: "u32 \<Rightarrow> machine \<Rightarrow> machine run" where
  "user_enable_intercept flags s =
     bindo
       (if ctrue (flags AND USER_ITC_TASKSWITCH) then
          let s = say (line ''User enable taskswitch interception'') [] s;
              s = upd_vcb (\<lambda>v. v\<lparr>cr_intercepts := cr_intercepts v OR INTRCPT_WRITE_CR3\<rparr>) s
          in bindo (ds_hp s (g_rdx (regs s))) (\<lambda>pname. vm_add_tracked_process pname s)
        else ret s)
       (\<lambda>s. ret (upd_vm (\<lambda>v. v\<lparr>itc_flag := itc_flag v OR flags\<rparr>) s))"

definition user_disable_intercept :: "u32 \<Rightarrow> machine \<Rightarrow> machine run" where
  "user_disable_intercept flags s =
     bindo
       (if ctrue (flags AND USER_ITC_TASKSWITCH) then
          let s = say (line ''User disable taskswitch interception'') [] s
          in bindo (ds_hp s (g_rdx (regs s))) (\<lambda>pname.
             bindo (vm_remove_tracked_process pname
                      (say (line ''remove process from tracking list: %s'') [ArgP pname] s)) (\<lambda>s.
             ret (if nTrackedProcess (vm s) = 0
                  then upd_vcb (\<lambda>v. v\<lparr>cr_intercepts := cr_intercepts v AND NOT INTRCPT_WRITE_CR3\<rparr>) s
                  else s)))
        else ret s)
       (\<lambda>s. ret (upd_vm (\<lambda>v. v\<lparr>itc_flag := itc_flag v AND NOT flags\<rparr>) s))"

definition handle_vm_vmmcall :: "machine \<Rightarrow> machine run" where
  "handle_vm_vmmcall s =
     (let r = regs s;
          s = upd_vcb (\<lambda>v. v\<lparr>rip := rip v + 3\<rparr>) s;
          s = say ''GOT A VMMCALL!!! eax = %x, '' [ArgX (rax (vcb s))] s;
          s = say ''ebx = %x, '' [ArgX (g_rbx r)] s;
          s = say ''ecx = %x, '' [ArgX (g_rcx r)] s;
          s = say (line ''edx = %x'') [ArgX (g_rdx r)] s
      in if g_rbx r = USER_CMD_ENABLE then user_enable_intercept (ucast (g_rcx r)) s
         else if g_rbx r = USER_CMD_DISABLE then user_disable_intercept (ucast (g_rcx r)) s
         else ret s)"

definition MSR_IA32_SYSENTER_CS :: u64 where "MSR_IA32_SYSENTER_CS = 0x174"
definition SYSENTER_CS_FAULT :: u64 where "SYSENTER_CS_FAULT = 0"

definition handle_vm_wrmsr :: "machine \<Rightarrow> machine" where
  "handle_vm_wrmsr s =
     (if g_rcx (regs s) = MSR_IA32_SYSENTER_CS then
        upd_vcb (\<lambda>v. v\<lparr>sysenter_cs := SYSENTER_CS_FAULT, rip := rip v + 2\<rparr>)
          (upd_vm (\<lambda>v. v\<lparr>org_sysenter_cs := push_bit 32 (g_rdx (regs s)) + (0xFFFFFFFF AND rax (vcb s))\<rparr>) s)
      else say (CHR 0x0A # CHR 0x0A # ''Should NOT REACH HERE!!!'' @ [CHR 0x0A, CHR 0x0A]) [] s)"

definition vmexit_trace :: "machine \<Rightarrow> machine" where
  "vmexit_trace s =
     say_all (print_vmcb_state s) (say (line ''**** #VMEXIT - exit code: %x'') [argw (ucast (exitcode (vcb s)))] s)"

definition handle_vmexit :: "machine \<Rightarrow> machine run" where
  "handle_vmexit s =
     (let s = vmexit_trace s;
          code = exitcode (vcb s)
      in if code = VMEXIT_MSR then ret (if exitinfo1 (vcb s) = 1 then handle_vm_wrmsr s else s)
         else if VMEXIT_EXCEPTION_DE \<le> code \<and> code \<le> VMEXIT_EXCEPTION_XF then ret (handle_vm_exception s)
         else if code = VMEXIT_SWINT then handle_vm_swint s
         else if code = VMEXIT_NPF then handle_vm_npf s
         else if code = VMEXIT_VMMCALL then handle_vm_vmmcall s
         else if code = VMEXIT_IRET then handle_vm_iret s
         else if code = VMEXIT_CR3_WRITE then ret (handle_cr3_write s)
         else if code = VMEXIT_POPF then handle_popf s
         else ret s)"

subsection \<open>What the handlers leave alone\<close>

text \<open>The changes at the end of \<open>__handle_syscall\<close>.\<close>

definition syscall_exit :: "machine \<Rightarrow> machine" where
  "syscall_exit = upd_vcb (\<lambda>v. v\<lparr>rflags := rflags v OR X86_RFLAGS_TF,
     general1_intercepts := general1_intercepts v OR INTRCPT_IRET\<rparr>)"

text \<open>A view of the machine that does not see the trace, memory and the lengths of the two lists that
  the handlers of system calls change.\<close>

locale exit_view =
  fixes view :: "machine \<Rightarrow> 'v"
  assumes view_con: "view (s\<lparr>con := c\<rparr>) = view s"
    and view_ram: "view (s\<lparr>ram := m\<rparr>) = view s"
    and view_threads: "view (s\<lparr>vm := (vm s)\<lparr>nWaitingThreads := n\<rparr>\<rparr>) = view s"
    and view_files: "view (s\<lparr>vm := (vm s)\<lparr>nOpenFile := n\<rparr>\<rparr>) = view s"
begin

lemma view_say [simp]: "view (say f as s) = view s" "view (say_all calls s) = view s"
  by (simp_all add: say_def say_all_def view_con)

lemma view_vmexit_trace [simp]: "view (vmexit_trace s) = view s"
  by (simp add: vmexit_trace_def)

lemma view_say_file [simp]: "view (say_file f g fd s) = view s"
  by (simp add: say_file_def Let_def)

lemma view_lists:
  "view (s\<lparr>ram := m, vm := (vm s)\<lparr>nWaitingThreads := n\<rparr>\<rparr>) = view s"
  "view (s\<lparr>ram := m, vm := (vm s)\<lparr>nOpenFile := n\<rparr>\<rparr>) = view s"
  using view_threads [where s = "s\<lparr>ram := m\<rparr>" and n = n] view_files [where s = "s\<lparr>ram := m\<rparr>" and n = n] by (simp_all add: view_ram)

lemma view_add_thread [simp]: "view (vm_add_waiting_thread tid info s) = view s"
  by (simp add: vm_add_waiting_thread_def upd_vm_def Let_def view_lists)

lemma view_remove_thread [simp]: "view (vm_remove_waiting_thread tid s) = view s"
  by (simp add: vm_remove_waiting_thread_def upd_vm_def Let_def view_lists split: prod.split)

lemma view_add_file [simp]: "view (vm_add_fileid2name_map fid name s) = view s"
  by (simp add: vm_add_fileid2name_map_def upd_vm_def Let_def view_lists)

text \<open>A computation that keeps the view, and one that also returns a value.\<close>

definition kept :: "'v \<Rightarrow> machine run \<Rightarrow> bool" where
  "kept v r \<longleftrightarrow> (\<forall>s. r = ret s \<longrightarrow> view s = v)"

definition kept_with :: "'v \<Rightarrow> ('a \<times> machine) run \<Rightarrow> bool" where
  "kept_with v r \<longleftrightarrow> (\<forall>x s. r = ret (x, s) \<longrightarrow> view s = v)"

lemma keptD: "kept v r \<Longrightarrow> r = ret s \<Longrightarrow> view s = v"
  by (simp add: kept_def)

lemma kept_withD: "kept_with v r \<Longrightarrow> r = ret (x, s) \<Longrightarrow> view s = v"
  by (simp add: kept_with_def)

lemma kept_ret: "view s = v \<Longrightarrow> kept v (ret s)"
  by (simp add: kept_def)

lemma kept_ret_with: "view s = v \<Longrightarrow> kept_with v (ret (x, s))"
  by (simp add: kept_with_def)

lemma kept_if: "(b \<Longrightarrow> kept v r) \<Longrightarrow> (\<not> b \<Longrightarrow> kept v r') \<Longrightarrow> kept v (if b then r else r')"
  by simp

lemma kept_word: "(\<And>x :: 'w::len word. kept v (f x)) \<Longrightarrow> kept v (bindo r f)"
  by (auto simp: kept_def bindo_eq_Inr)

lemma kept_list: "(\<And>x :: 'w list. kept v (f x)) \<Longrightarrow> kept v (bindo r f)"
  by (auto simp: kept_def bindo_eq_Inr)

lemma kept_word_with: "(\<And>x :: 'w::len word. kept_with v (f x)) \<Longrightarrow> kept_with v (bindo r f)"
  by (auto simp: kept_with_def bindo_eq_Inr)

lemma kept_seq: "kept v r \<Longrightarrow> (\<And>s. view s = v \<Longrightarrow> kept v (f s)) \<Longrightarrow> kept v (bindo r f)"
  unfolding kept_def bindo_eq_Inr by metis

lemma kept_pair:
  "kept_with v r \<Longrightarrow> (\<And>x s. view s = v \<Longrightarrow> kept v (f x s)) \<Longrightarrow> kept v (bindo r (\<lambda>(x, s). f x s))"
  by (fastforce simp: kept_def kept_with_def bindo_eq_Inr)

lemma kept_pair_with:
  "kept_with v r \<Longrightarrow> (\<And>x s. view s = v \<Longrightarrow> kept_with v (f x s)) \<Longrightarrow> kept_with v (bindo r (\<lambda>(x, s). f x s))"
  by (fastforce simp: kept_with_def bindo_eq_Inr)

lemmas kept_intros = kept_ret kept_ret_with kept_if kept_word kept_word_with kept_list kept_seq
  kept_pair kept_pair_with

lemma kept_taskstruct: "view s = v \<Longrightarrow> kept_with v (get_taskstruct s mode)"
  by (auto simp: get_taskstruct_def get_cur_process_taskstruct_def Let_def intro!: kept_intros)

lemma kept_threadid: "view s = v \<Longrightarrow> kept_with v (get_cur_threadid s mode)"
  unfolding get_cur_threadid_def Let_def by (intro kept_intros kept_taskstruct)

lemma kept_name: "view s = v \<Longrightarrow> kept_with v (get_cur_process_name s mode)"
  unfolding get_cur_process_name_def Let_def by (intro kept_intros kept_taskstruct) simp_all

lemma kept_say_string: "view s = v \<Longrightarrow> kept v (say_string f a s)"
  unfolding say_string_def by (intro kept_intros) simp

lemma view_print_strings:
  assumes "print_strings s tbl i = Some r"
  shows "\<forall>s'. r = Inr s' \<longrightarrow> view s' = view s"
proof (rule print_strings.raw_induct [where P = "\<lambda>s tbl i r. \<forall>s'. r = Inr s' \<longrightarrow> view s' = view s", OF _ assms])
  fix loop :: "machine \<Rightarrow> u64 \<Rightarrow> nat \<Rightarrow> machine run" and s tbl i r
  assume "\<And>s tbl i r. loop s tbl i = Some r \<Longrightarrow> \<forall>s'. r = Inr s' \<longrightarrow> view s' = view s"
  then have IH: "loop s tbl i = ret s' \<Longrightarrow> view s' = view s" for s tbl i s' by blast
  assume "(let p = load64 (ram s) (tbl + of_nat (8 * i))
      in if p = 0 then ret s
         else bindo (ds_hp s p) (\<lambda>temp.
           let s = (if temp \<noteq> - 1 then say ''%s'' [ArgP temp] s else s);
               s = (if load64 (ram s) (tbl + of_nat (8 * (i + 1))) \<noteq> 0 then say '', '' [] s else s)
           in loop s tbl (i + 1))) = Some r"
  then show "\<forall>s'. r = Inr s' \<longrightarrow> view s' = view s"
    by (auto simp: Let_def bindo_def dest!: IH split: if_splits option.splits sum.splits)
qed

lemma kept_print_strings: "view s = v \<Longrightarrow> kept v (print_strings s tbl i)"
  using view_print_strings by (auto simp: kept_def)

lemmas kept_calls = kept_intros kept_threadid kept_say_string kept_print_strings

lemma kept_sys:
  assumes "view s = v"
  shows "kept v (sys_uselib s)" "kept v (sys_close s)" "kept v (sys_waitpid s)" "kept v (sys_unlink s)"
    "kept v (sys_mmap s)" "kept v (sys_munmap s)" "kept v (sys_lseek s)" "kept v (sys_ioctl s)"
    "kept v (sys_fstat s)" "kept v (sys_write s)" "kept v (sys_link s)" "kept v (sys_access s)"
    "kept v (sys_lchown s)" "kept v (sys_open s)" "kept v (sys_read s)"
  unfolding sys_uselib_def sys_close_def sys_waitpid_def sys_unlink_def sys_mmap_def sys_munmap_def
    sys_lseek_def sys_ioctl_def sys_fstat_def sys_write_def sys_link_def sys_access_def sys_lchown_def
    sys_open_def sys_read_def Let_def
  by (intro kept_calls; simp add: assms)+

lemma kept_sys_socket:
  assumes "view s = v"
  shows "kept v (sys_socket s)" "kept v (sys_bind s)" "kept v (sys_connect s)" "kept v (sys_listen s)"
    "kept v (sys_accept s)" "kept v (sys_sendto s)" "kept v (sys_recvfrom s)"
  unfolding sys_socket_def sys_bind_def sys_connect_def sys_listen_def sys_accept_def sys_sendto_def
    sys_recvfrom_def Let_def
  by (intro kept_calls; simp add: assms)+

lemma kept_sys_socketcall: "view s = v \<Longrightarrow> kept v (sys_socketcall s)"
  unfolding sys_socketcall_def Let_def by (intro kept_if kept_sys_socket kept_ret)

lemma kept_sys_execve: "view s = v \<Longrightarrow> kept v (sys_execve s)"
  unfolding sys_execve_def Let_def by (intro kept_calls) simp_all

lemma kept_sys_iret:
  assumes "view s = v"
  shows "kept v (sys_read_iret info s)" "kept v (sys_recvfrom_iret info s)" "view (sys_open_iret info s) = v"
  unfolding sys_read_iret_def sys_recvfrom_iret_def sys_open_iret_def Let_def
  by (intro kept_calls; simp add: assms)+ (simp add: assms)

lemma kept_syscall_handler: "view s = v \<Longrightarrow> kept v (syscall_handler no nargs s)"
  unfolding syscall_handler_def
  by (intro kept_if kept_sys kept_sys_socketcall kept_sys_execve kept_ret) (simp_all add: print_args_def)

text \<open>A system call changes what a view sees by the trap flag and the interception of \<open>iret\<close> only.\<close>

lemma view_handle_syscall:
  assumes "handle_syscall s = ret s'"
  shows "\<exists>s1. view s1 = view s \<and> s' = say (line '' )'') [] (syscall_exit s1)"
proof -
  let ?e = "syscalls ! unat (ucast (rax (vcb s)) :: u32)"
  have in_table: "\<not> unat (ucast (rax (vcb s)) :: u32) \<ge> length syscalls"
    using assms by (auto simp: handle_syscall_def Let_def simp del: length_syscalls)
  obtain s1 s2 where s1: "syscall_handler (ucast (rax (vcb s))) (sys_nargs ?e) (say ''>> %s( '' [ArgS (sys_name ?e)] s) = ret s1"
    and s2: "(if nWaitingThreads (vm s1) = 0 then
        bindo (get_cur_threadid s1 3) (\<lambda>(tid, s). ret (vm_add_waiting_thread tid
          \<lparr>syscallno = 0, arg = ucast (uninit s), datasize = uninit s, socketno = uninit s\<rparr> s))
        else ret s1) = ret s2"
    and s': "s' = say (line '' )'') [] (syscall_exit s2)"
    using assms in_table by (auto simp: handle_syscall_def Let_def bindo_eq_Inr syscall_exit_def simp del: length_syscalls)
  have "view s1 = view s"
    by (rule keptD [OF kept_syscall_handler s1]) simp
  moreover have "view s2 = view s1"
    by (rule keptD [OF _ s2]) (intro kept_calls; simp)
  ultimately show ?thesis using s' by metis
qed

end

subsection \<open>Invariants of the exit handler\<close>

text \<open>The fields of the control block that no handler writes.\<close>

definition fixed_control :: "vmcb \<Rightarrow> u32 \<times> u32 \<times> u64 \<times> u64 \<times> u32 \<times> u64 \<times> u64" where
  "fixed_control v = (dr_intercepts v, general2_intercepts v, iopm_base_pa v, msrpm_base_pa v, guest_asid v,
     np_enable v, vmcb_n_cr3 v)"

definition fixed_vm :: "vm_info \<Rightarrow> u64 \<times> u64 \<times> u32 \<times> u64 \<times> u64 \<times> u64 \<times> u64 \<times> u64 \<times> u64" where
  "fixed_vm w = (vmcb_ptr w, vmcs_ptr w, asid w, n_cr3 w, io_intercept_table w, msr_intercept_table w,
     fmap w, syscallmap w, ptracked w)"

text \<open>
  An invariant of the monitor: it does not depend on what a view leaves out, and the changes that the
  handlers make to the control block and to the record keep it.
\<close>

locale exit_invariant = exit_view I for I :: "machine \<Rightarrow> bool" +
  assumes keep_vcb: "\<lbrakk>\<And>v. fixed_control (g v) = fixed_control v; \<And>v. exception_intercepts (g v) = exception_intercepts v; I s\<rbrakk>
      \<Longrightarrow> I (upd_vcb g s)"
    and keep_enable: "I s \<Longrightarrow> I (vm_enable_intercept flags s)"
    and keep_skip: "I s \<Longrightarrow> I (skip_intercpt_cur_instr flags s)"
    and keep_db: "I s \<Longrightarrow> I (handle_db s)"
    and keep_itc_flag: "I s \<Longrightarrow> I (upd_vm (\<lambda>v. v\<lparr>itc_flag := f v\<rparr>) s)"
    and keep_current: "I s \<Longrightarrow> I (upd_vm (\<lambda>v. v\<lparr>btrackcurrent := b\<rparr>) s)"
    and keep_sysenter: "I s \<Longrightarrow> I (upd_vm (\<lambda>v. v\<lparr>org_sysenter_cs := w\<rparr>) s)"
    and keep_untrack: "I s \<Longrightarrow> vm_remove_tracked_process p s = ret s' \<Longrightarrow> I s'"
begin

lemmas I_simps = view_say view_say_file view_add_thread view_remove_thread view_add_file

lemma keep_syscall: "I s \<Longrightarrow> kept True (handle_syscall s)"
  unfolding kept_def
proof (intro allI impI)
  fix s' assume "I s" and "handle_syscall s = ret s'"
  then obtain s1 where "I s1" "s' = say (line '' )'') [] (syscall_exit s1)"
    using view_handle_syscall by blast
  then show "I s' = True"
    by (auto simp: syscall_exit_def fixed_control_def intro!: keep_vcb)
qed

lemma keep_swint: "I s \<Longrightarrow> kept True (handle_vm_swint s)"
  unfolding handle_vm_swint_def Let_def
  by (intro kept_word kept_seq kept_if keep_syscall kept_ret)
    (auto simp: fixed_control_def intro: keep_vcb)

lemma keep_iret: "I s \<Longrightarrow> kept True (handle_vm_iret s)"
  unfolding handle_vm_iret_def Let_def
  by (intro kept_seq kept_if kept_pair kept_threadid kept_ret kept_sys_iret(1,2))
    (auto simp: kept_sys_iret intro: keep_skip)

lemma keep_inject: "I s \<Longrightarrow> I (inject_exception s)"
  unfolding inject_exception_def Let_def by (auto simp: fixed_control_def intro!: keep_vcb)

lemma keep_exception: "I s \<Longrightarrow> I (handle_vm_exception s)"
  unfolding handle_vm_exception_def handle_gp_def handle_pf_def Let_def
  by (auto simp: fixed_control_def intro!: keep_vcb keep_inject keep_db keep_skip)

lemma keep_cr3_write: "I s \<Longrightarrow> I (handle_cr3_write s)"
  unfolding handle_cr3_write_def by (auto simp: fixed_control_def intro!: keep_vcb keep_skip)

lemma keep_popf: "I s \<Longrightarrow> kept True (handle_popf s)"
  unfolding handle_popf_def Let_def
  by (intro kept_pair kept_name kept_ret)
    (auto simp: fixed_control_def vm_is_process_tracked_def ctrue_def intro!: keep_vcb keep_enable keep_current)

lemma keep_user_enable: "I s \<Longrightarrow> kept True (user_enable_intercept flags s)"
  unfolding user_enable_intercept_def Let_def vm_add_tracked_process_def
  by (intro kept_seq kept_if kept_word kept_ret)
    (auto simp: fixed_control_def vm_is_process_tracked_def ctrue_def intro!: keep_vcb keep_itc_flag kept_ret)

lemma keep_user_disable: "I s \<Longrightarrow> kept True (user_disable_intercept flags s)"
  unfolding user_disable_intercept_def Let_def
  by (intro kept_seq kept_if kept_word kept_ret)
    (auto simp: fixed_control_def kept_def intro!: keep_vcb keep_itc_flag dest: keep_untrack [rotated])

lemma keep_vmmcall: "I s \<Longrightarrow> kept True (handle_vm_vmmcall s)"
  unfolding handle_vm_vmmcall_def Let_def
  by (intro kept_if keep_user_enable keep_user_disable kept_ret)
    (auto simp: fixed_control_def intro!: keep_vcb)

lemma keep_wrmsr: "I s \<Longrightarrow> I (handle_vm_wrmsr s)"
  unfolding handle_vm_wrmsr_def by (auto simp: fixed_control_def intro!: keep_vcb keep_sysenter)

lemma keep_vmexit: "I s \<Longrightarrow> kept True (handle_vmexit s)"
  unfolding handle_vmexit_def Let_def
  by (intro kept_if kept_ret keep_swint keep_vmmcall keep_iret keep_popf)
    (auto simp: handle_vm_npf_def kept_def intro: keep_wrmsr keep_exception keep_cr3_write)

lemma handle_vmexit_keeps: "I s \<Longrightarrow> handle_vmexit s = ret s' \<Longrightarrow> I s'"
  using keptD [OF keep_vmexit] by blast

end

lemma machine_fields [simp]:
  "vm (upd_vcb g s) = vm s" "vcb (upd_vcb g s) = g (vcb s)" "ram (upd_vcb g s) = ram s" "regs (upd_vcb g s) = regs s"
  "vm (upd_vm f s) = f (vm s)" "vcb (upd_vm f s) = vcb s" "ram (upd_vm f s) = ram s" "regs (upd_vm f s) = regs s"
  "vm (upd_ram h s) = vm s" "vcb (upd_ram h s) = vcb s" "ram (upd_ram h s) = h (ram s)" "regs (upd_ram h s) = regs s"
  "vm (say c a s) = vm s" "vcb (say c a s) = vcb s" "ram (say c a s) = ram s" "regs (say c a s) = regs s"
  "vm (say_all l s) = vm s" "vcb (say_all l s) = vcb s" "ram (say_all l s) = ram s" "regs (say_all l s) = regs s"
  by (simp_all add: machine_upd)

lemma vmexit_trace_fields [simp]:
  "vm (vmexit_trace s) = vm s" "vcb (vmexit_trace s) = vcb s" "ram (vmexit_trace s) = ram s" "regs (vmexit_trace s) = regs s"
  by (simp_all add: vmexit_trace_def)

lemma fixed_vm_update [simp]:
  "fixed_vm (w\<lparr>itc_skip_flag := x\<rparr>) = fixed_vm w"
  "fixed_vm (w\<lparr>nTrackedProcess := k\<rparr>) = fixed_vm w"
  by (simp_all add: fixed_vm_def)

lemma intercept_fields [simp]:
  "fixed_control (vcb (vm_enable_intercept flags s)) = fixed_control (vcb s)"
  "vm (vm_enable_intercept flags s) = vm s"
  "fixed_control (vcb (vm_disable_intercept flags s)) = fixed_control (vcb s)"
  "vm (vm_disable_intercept flags s) = vm s"
  by (simp_all add: vm_enable_intercept_def vm_disable_intercept_def when_flag_def Let_def fixed_control_def
    vm_protect_all_nonPAE_guestpage_def vm_unprotect_all_nonPAE_guestpage_def)

lemma skip_fields [simp]:
  "fixed_control (vcb (skip_intercpt_cur_instr flags s)) = fixed_control (vcb s)"
  "fixed_vm (vm (skip_intercpt_cur_instr flags s)) = fixed_vm (vm s)"
  "nTrackedProcess (vm (skip_intercpt_cur_instr flags s)) = nTrackedProcess (vm s)"
  by (simp_all add: skip_intercpt_cur_instr_def)

lemma db_fields [simp]:
  "fixed_control (vcb (handle_db s)) = fixed_control (vcb s)"
  "fixed_vm (vm (handle_db s)) = fixed_vm (vm s)"
  "nTrackedProcess (vm (handle_db s)) = nTrackedProcess (vm s)"
  by (simp_all add: handle_db_def Let_def)

lemma untrack_fields:
  assumes "vm_remove_tracked_process p s = ret s'"
  shows "vcb s' = vcb s" and "fixed_vm (vm s') = fixed_vm (vm s)" and "itc_skip_flag (vm s') = itc_skip_flag (vm s)"
    and "nTrackedProcess (vm s) = 0 \<Longrightarrow> nTrackedProcess (vm s') = 0"
  using assms by (auto simp: vm_remove_tracked_process_def Let_def bind_eq_Some_conv)

interpretation fixed: exit_invariant "\<lambda>s. (fixed_control (vcb s), fixed_vm (vm s)) = c" for c
  by unfold_locales (simp_all add: untrack_fields, simp_all add: fixed_vm_def)

text \<open>
  The invariant of the skipped interceptions: while one is pending, the debug exception that ends the
  skipped instruction is intercepted.  No process is ever on the list of tracked processes.
\<close>

definition skip_inv :: "machine \<Rightarrow> bool" where
  "skip_inv s \<longleftrightarrow> (itc_skip_flag (vm s) \<noteq> 0 \<longrightarrow> bit (exception_intercepts (vcb s)) 1) \<and> nTrackedProcess (vm s) = 0"

lemma DB_bit: "bit INTRCPT_DB k \<longleftrightarrow> k = 1" "bit INTRCPT_PF k \<longleftrightarrow> k = 14"
  by (auto simp: INTRCPT_DB_def INTRCPT_PF_def bit_simps simp del: push_bit_of_1 dest: bit_imp_le_length)

lemma enable_DB:
  "bit (exception_intercepts (vcb s)) 1 \<Longrightarrow> bit (exception_intercepts (vcb (vm_enable_intercept flags s))) 1"
  by (simp add: vm_enable_intercept_def when_flag_def Let_def vm_protect_all_nonPAE_guestpage_def bit_or_iff)

lemma single_step_DB:
  "bit (exception_intercepts (vcb (vm_enable_intercept USER_SINGLE_STEPPING s))) 1"
proof -
  have "ctrue (USER_SINGLE_STEPPING AND USER_SINGLE_STEPPING)"
    by (simp add: USER_SINGLE_STEPPING_def ctrue_def)
  then show ?thesis
    by (simp add: vm_enable_intercept_def when_flag_def Let_def bit_or_iff DB_bit)
qed

interpretation skipping: exit_invariant skip_inv
proof unfold_locales
  fix s flags
  assume I: "skip_inv s"
  show "skip_inv (vm_enable_intercept flags s)"
    using I enable_DB by (auto simp: skip_inv_def)
  show "skip_inv (skip_intercpt_cur_instr flags s)"
    using I single_step_DB by (simp add: skip_inv_def skip_intercpt_cur_instr_def)
  show "skip_inv (handle_db s)"
    using I by (auto simp: skip_inv_def handle_db_def Let_def ctrue_def)
next
  fix s s' p
  assume "skip_inv s" and "vm_remove_tracked_process p s = ret s'"
  then show "skip_inv s'" using untrack_fields [of p s s'] by (auto simp: skip_inv_def)
qed (auto simp: skip_inv_def)

subsection \<open>Facts about single exits\<close>

text \<open>The handlers of system calls see the whole control block and leave it alone.\<close>

interpretation syscall: exit_view
  "\<lambda>s. (vcb s, regs s, (vm s)\<lparr>nWaitingThreads := 0, nOpenFile := 0\<rparr>)"
  by unfold_locales simp_all

lemma syscall_keeps_block:
  assumes "handle_syscall s = ret s'"
  shows "vcb s' = (vcb s)\<lparr>rflags := rflags (vcb s) OR X86_RFLAGS_TF,
    general1_intercepts := general1_intercepts (vcb s) OR INTRCPT_IRET\<rparr>"
  using syscall.view_handle_syscall [OF assms] by (auto simp: syscall_exit_def)

lemma swint_result:
  assumes "handle_vm_swint s = ret s'"
  shows "rip (vcb s') = rip (vcb s) + 2"
    and "glogic_2_hphysic s (sel (cs (vcb s))) (rip (vcb s)) = Inr p \<Longrightarrow>
      eventinj (vcb s') = inject (eventinj (vcb s)) (ucast (ram s (p + 1))) EVENT_TYPE_SWINT 0"
  using assms
  by (auto simp: handle_vm_swint_def hp_def Let_def bindo_eq_Inr dest!: syscall_keeps_block split: if_splits)

lemma user_intercept_rip:
  "user_enable_intercept flags s = ret s' \<Longrightarrow> rip (vcb s') = rip (vcb s)"
  "user_disable_intercept flags s = ret s' \<Longrightarrow> rip (vcb s') = rip (vcb s)"
  by (auto simp: user_enable_intercept_def user_disable_intercept_def vm_add_tracked_process_def bind_eq_Some_conv
    Let_def bindo_eq_Inr dest!: untrack_fields(1) split: if_splits)

lemma vmmcall_rip: "handle_vm_vmmcall s = ret s' \<Longrightarrow> rip (vcb s') = rip (vcb s) + 3"
  by (auto simp: handle_vm_vmmcall_def Let_def dest!: user_intercept_rip split: if_splits)

lemma single_bits:
  "cr_bits USER_ITC_IRET = 0" "general1_bits USER_ITC_IRET = INTRCPT_IRET"
  "cr_bits USER_ITC_TASKSWITCH = INTRCPT_WRITE_CR3" "general1_bits USER_ITC_TASKSWITCH = 0"
  "cr_bits USER_SINGLE_STEPPING = 0" "general1_bits USER_SINGLE_STEPPING = 0"
  "exception_bits USER_SINGLE_STEPPING = INTRCPT_DB" "tf_bits USER_SINGLE_STEPPING = X86_RFLAGS_TF"
  "\<not> ctrue (USER_ITC_IRET AND USER_UNPACK)" "\<not> ctrue (USER_ITC_TASKSWITCH AND USER_UNPACK)"
  "\<not> ctrue (USER_SINGLE_STEPPING AND USER_UNPACK)"
  by (simp_all add: cr_bits_def general1_bits_def exception_bits_def tf_bits_def flag_bits32_def ctrue_def
    USER_ITC_IRET_def USER_ITC_TASKSWITCH_def USER_ITC_SWINT_def USER_ITC_SYSCALL_def USER_SINGLE_STEPPING_def
    USER_UNPACK_def)

lemma skip_result:
  assumes "\<not> ctrue (flags AND USER_UNPACK)"
  shows "skip_intercpt_cur_instr flags s = s\<lparr>vm := (vm s)\<lparr>itc_skip_flag := itc_skip_flag (vm s) OR flags\<rparr>,
    vcb := (vcb s)\<lparr>
      cr_intercepts := cr_intercepts (vcb s) AND NOT (cr_bits flags),
      general1_intercepts := general1_intercepts (vcb s) AND NOT (general1_bits flags),
      exception_intercepts := exception_intercepts (vcb s) AND NOT (exception_bits flags) OR INTRCPT_DB,
      rflags := rflags (vcb s) AND NOT (tf_bits flags) OR X86_RFLAGS_TF\<rparr>\<rparr>"
  unfolding skip_intercpt_cur_instr_def vm_disable_intercept_bits [OF assms]
    vm_enable_intercept_bits [OF single_bits(11)] single_bits
  by (simp add: upd_vm_def)

lemma intercept_bits:
  "bit INTRCPT_IRET k \<longleftrightarrow> k = 20" "bit INTRCPT_WRITE_CR3 k \<longleftrightarrow> k = 19" "bit INTRCPT_POPF k \<longleftrightarrow> k = 17"
  "bit INTRCPT_INTN k \<longleftrightarrow> k = 21"
  by (auto simp: INTRCPT_IRET_def INTRCPT_WRITE_CR3_def INTRCPT_POPF_def INTRCPT_INTN_def bit_simps
    simp del: push_bit_of_1 dest: bit_imp_le_length)

lemma enable_POPF:
  "bit (general1_intercepts (vcb (vm_enable_intercept flags s))) 17 \<longleftrightarrow> bit (general1_intercepts (vcb s)) 17"
  by (simp add: vm_enable_intercept_def when_flag_def Let_def vm_protect_all_nonPAE_guestpage_def bit_or_iff
    intercept_bits)

lemma iret_exit: "handle_vm_iret s = ret s' \<Longrightarrow> \<not> bit (general1_intercepts (vcb s')) 20"
  unfolding handle_vm_iret_def bindo_eq_Inr
  by (auto simp: skip_result [OF single_bits(9)] single_bits bit_and_iff bit_not_iff intercept_bits)

lemma cr3_exit: "\<not> bit (cr_intercepts (vcb (handle_cr3_write s))) 19"
  by (simp add: handle_cr3_write_def skip_result [OF single_bits(10)] single_bits bit_and_iff bit_not_iff intercept_bits)

lemma popf_exit:
  "handle_popf s = ret s' \<Longrightarrow> \<not> bit (general1_intercepts (vcb s')) 17 \<and> btrackcurrent (vm s') = 1"
  by (auto simp: handle_popf_def Let_def bindo_eq_Inr vm_is_process_tracked_def ctrue_def enable_POPF bit_and_iff
    bit_not_iff intercept_bits)

lemmas exit_codes = VMEXIT_MSR_def VMEXIT_EXCEPTION_DE_def VMEXIT_EXCEPTION_XF_def VMEXIT_SWINT_def VMEXIT_NPF_def
  VMEXIT_VMMCALL_def VMEXIT_IRET_def VMEXIT_CR3_WRITE_def VMEXIT_POPF_def

lemma vmexit_cases:
  "exitcode (vcb s) = VMEXIT_SWINT \<Longrightarrow> handle_vmexit s =
     handle_vm_swint (vmexit_trace s)"
  "exitcode (vcb s) = VMEXIT_VMMCALL \<Longrightarrow> handle_vmexit s =
     handle_vm_vmmcall (vmexit_trace s)"
  "exitcode (vcb s) = VMEXIT_IRET \<Longrightarrow> handle_vmexit s =
     handle_vm_iret (vmexit_trace s)"
  "exitcode (vcb s) = VMEXIT_CR3_WRITE \<Longrightarrow> handle_vmexit s =
     ret (handle_cr3_write (vmexit_trace s))"
  "exitcode (vcb s) = VMEXIT_POPF \<Longrightarrow> handle_vmexit s =
     handle_popf (vmexit_trace s)"
  "exitcode (vcb s) = VMEXIT_NPF \<Longrightarrow> handle_vmexit s = Some (fatal_failure ''Nested page fault!'')"
  by (simp_all add: handle_vmexit_def exit_codes handle_vm_npf_def Let_def)

end
