(* ===== verification/Exits.thy ===== *)
theory Exits
  imports Intercept
begin

text \<open>
  The loop of \<open>vm_boot\<close> (\<open>kernel/vm.c\<close>): the guest runs until its next exit, the exit handler runs,
  for ever.  What the guest does is not determined, with one restriction: it may change memory, its registers and
  the state-save part of the control block, and the processor writes the exit information; the \<open>vm_info\<close>
  record and the control fields of the block, which the processor only reads, stay.  The program does
  not enforce this restriction, since both lie in pages that the nested page table shows to the guest
  (\<open>nested_pages_exact\<close>).  So the statements about runs are about what the processor and the exit
  handlers do to the monitor's data, not about its protection.
\<close>

subsection \<open>Runs\<close>

text \<open>The control fields of the block: what the monitor tells the processor.\<close>

definition intercepts :: "vmcb \<Rightarrow> u32 \<times> u32 \<times> u32" where
  "intercepts v = (cr_intercepts v, general1_intercepts v, exception_intercepts v)"

text \<open>What can happen between two exits when the guest does not write to the monitor's own data.\<close>

definition leaves_monitor_alone :: "machine \<Rightarrow> machine \<Rightarrow> bool" where
  "leaves_monitor_alone s t \<longleftrightarrow> vm t = vm s \<and> con t = con s \<and> fixed_control (vcb t) = fixed_control (vcb s) \<and>
     intercepts (vcb t) = intercepts (vcb s)"

inductive vm_boot :: "machine \<Rightarrow> machine \<Rightarrow> bool" for s0 :: machine where
  boot: "vm_boot s0 s0"
| vm_run: "vm_boot s0 s \<Longrightarrow> leaves_monitor_alone s t \<Longrightarrow> vm_boot s0 t"
| vm_exit: "vm_boot s0 s \<Longrightarrow> handle_vmexit s = ret t \<Longrightarrow> vm_boot s0 t"

inductive_cases vm_boot_cases: "vm_boot s0 s"

lemma guest_skip_inv: "leaves_monitor_alone s t \<Longrightarrow> skip_inv s \<Longrightarrow> skip_inv t"
  by (simp add: leaves_monitor_alone_def skip_inv_def intercepts_def)

lemma vm_boot_invariant:
  assumes "vm_boot s0 s" and "skip_inv s0"
  shows "skip_inv s" and "fixed_control (vcb s) = fixed_control (vcb s0)" and "fixed_vm (vm s) = fixed_vm (vm s0)"
  using assms
proof (induction rule: vm_boot.induct)
  case (vm_run s t)
  {
    case 1 with vm_run show ?case by (blast intro: guest_skip_inv)
  next
    case 2 with vm_run show ?case by (simp add: leaves_monitor_alone_def)
  next
    case 3 with vm_run show ?case by (simp add: leaves_monitor_alone_def)
  }
next
  case (vm_exit s t)
  {
    case 1 with vm_exit show ?case by (blast intro: skipping.handle_vmexit_keeps)
  next
    case 2 with vm_exit show ?case using fixed.handle_vmexit_keeps [of s _ t, OF refl] by simp
  next
    case 3 with vm_exit show ?case using fixed.handle_vmexit_keeps [of s _ t, OF refl] by simp
  }
qed auto

subsection \<open>Properties\<close>


text \<open>A run of two exits: the guest executes \<open>iret\<close>, then the single step ends.\<close>

definition example_start :: machine where
  "example_start = upd_vcb (\<lambda>v. v\<lparr>general2_intercepts := 1, exitcode := VMEXIT_IRET\<rparr>)
     (blank_machine (\<lambda>_. 0) zero_vm_info)"

lemma example_start_simps [simp]:
  "vm example_start = zero_vm_info" "vcb example_start = zero_vmcb\<lparr>general2_intercepts := 1, exitcode := VMEXIT_IRET\<rparr>"
  by (simp_all add: example_start_def)




text \<open>C14: the handlers of \<open>iret\<close> and of writes to CR3 turn an interception off for one instruction.
  That interception was on, no other one was turned off and debug exceptions were not intercepted.  Whatever the
  instruction does, when it leaves the monitor's record and the control fields alone, the debug exception
  after it gives the control block the interceptions it had before, as long as the monitor is not
  single-stepping the process itself.\<close>

theorem skipped_intercept_restored:
  assumes "flags \<in> {USER_ITC_IRET, USER_ITC_TASKSWITCH}"
    and "itc_skip_flag (vm s) = 0"
    and "\<not> (ctrue (btrackcurrent (vm s)) \<and> ctrue (itc_flag (vm s) AND USER_SINGLE_STEPPING))"
    and "general1_intercepts (vcb s) OR general1_bits flags = general1_intercepts (vcb s)"
    and "cr_intercepts (vcb s) OR cr_bits flags = cr_intercepts (vcb s)"
    and "\<not> bit (exception_intercepts (vcb s)) 1"
    and "leaves_monitor_alone (skip_intercpt_cur_instr flags s) t"
  shows "general1_intercepts (vcb t) AND general1_bits flags = 0 \<and> cr_intercepts (vcb t) AND cr_bits flags = 0 \<and>
    intercepts (vcb (handle_db t)) = intercepts (vcb s) \<and> itc_skip_flag (vm (handle_db t)) = 0 \<and>
    \<not> bit (rflags (vcb (handle_db t))) 8"
proof -
  have f: "\<not> ctrue (flags AND USER_UNPACK)" "exception_bits flags = 0" "ctrue flags" "tf_bits flags = 0"
    using assms(1) by (auto simp: single_bits exception_bits_def tf_bits_def flag_bits32_def ctrue_def
      USER_ITC_IRET_def USER_ITC_TASKSWITCH_def USER_SINGLE_STEPPING_def USER_UNPACK_def)
  have t: "vm t = (vm s)\<lparr>itc_skip_flag := flags\<rparr>"
    "cr_intercepts (vcb t) = cr_intercepts (vcb s) AND NOT (cr_bits flags)"
    "general1_intercepts (vcb t) = general1_intercepts (vcb s) AND NOT (general1_bits flags)"
    "exception_intercepts (vcb t) = exception_intercepts (vcb s) OR INTRCPT_DB"
    using assms(2,7) f by (simp_all add: leaves_monitor_alone_def skip_result intercepts_def)
  have on: "w AND NOT b OR b = w OR b" for w b :: u32 by (rule bit_word_eqI) (auto simp: bit_simps)
  have off: "(w AND NOT b) AND b = 0" for w b :: u32 by (rule bit_word_eqI) (auto simp: bit_simps)
  have db: "(w OR INTRCPT_DB) AND NOT INTRCPT_DB = w" if "\<not> bit w 1" for w
    using that by (intro bit_word_eqI) (auto simp: bit_simps DB_bit)
  have tf: "\<not> bit (r AND NOT X86_RFLAGS_TF) 8" for r
    using bit_push_bit_iff [of 8 "1 :: u64" 8] by (simp add: X86_RFLAGS_TF_def bit_and_iff bit_not_iff)
  have "handle_db t = vm_disable_intercept USER_SINGLE_STEPPING
      (upd_vm (\<lambda>v. v\<lparr>itc_skip_flag := 0\<rparr>) (vm_enable_intercept flags t))"
    using assms(3) f by (simp add: handle_db_def t Let_def)
  then show ?thesis
    using assms(4,5,6)
    by (simp add: vm_disable_intercept_bits [OF single_bits(11)] vm_enable_intercept_bits [OF f(1)] single_bits t f
      upd_vm_def intercepts_def on off db tf)
qed

theorem skipped_intercept_restored_witness:
  "intercepts (vcb (handle_db (skip_intercpt_cur_instr USER_ITC_IRET
     (upd_vcb (\<lambda>v. v\<lparr>general1_intercepts := INTRCPT_IRET\<rparr>) example_start)))) = (0, INTRCPT_IRET, 0)"
proof -
  let ?s = "upd_vcb (\<lambda>v. v\<lparr>general1_intercepts := INTRCPT_IRET\<rparr>) example_start"
  have "leaves_monitor_alone (skip_intercpt_cur_instr USER_ITC_IRET ?s) (skip_intercpt_cur_instr USER_ITC_IRET ?s)"
    by (simp add: leaves_monitor_alone_def)
  from skipped_intercept_restored [OF _ _ _ _ _ _ this] show ?thesis
    by (simp add: single_bits zero_vm_info_def ctrue_def intercepts_def zero_vmcb_def)
qed

text \<open>A software interrupt is passed on to the guest: the event that is injected has the vector of the
  instruction that caused the exit, is of the kind of software interrupts, has no error code, and is
  valid; this holds for the interrupt of system calls too.\<close>

theorem swint_injected:
  assumes "handle_vm_swint s = ret s'" and "glogic_2_hphysic s (sel (cs (vcb s))) (rip (vcb s)) = Inr p"
  shows "ev_vector (eventinj (vcb s')) = ucast (ram s (p + 1)) \<and> ev_type (eventinj (vcb s')) = EVENT_TYPE_SWINT \<and>
    ev_ev (eventinj (vcb s')) = 0 \<and> ev_v (eventinj (vcb s')) = 1"
proof -
  have "take_bit 8 (ucast b :: u64) = ucast b" for b :: u8
    by (rule bit_word_eqI) (auto simp: bit_simps dest: bit_imp_le_length)
  then show ?thesis
    unfolding swint_result(2) [OF assms]
    by (simp add: inject_def Let_def ev_vector_def ev_type_def ev_ev_def ev_v_def get_set_field
      get_set_field_other EVENT_TYPE_SWINT_def)
qed

theorem swint_injected_witness:
  "\<exists>s'. handle_vm_swint (blank_machine ((\<lambda>_. 0)(1 := 0x21)) zero_vm_info) = ret s' \<and>
     ev_vector (eventinj (vcb s')) = 0x21"
proof -
  let ?s = "blank_machine ((\<lambda>_. 0)(1 := 0x21)) zero_vm_info"
  have p: "glogic_2_hphysic ?s (sel (cs (vcb ?s))) (rip (vcb ?s)) = Inr 0"
    by (simp add: glogic_2_hphysic_def glogic_2_glinear_def linear_2_physical_def zero_vmcb_def zero_seg_def
      ctrue_def real_mode_linear_def)
  then obtain s' where s': "handle_vm_swint ?s = ret s'"
    by (simp add: handle_vm_swint_def hp_def)
  from swint_injected [OF this p] show ?thesis using s' by auto
qed

text \<open>Addresses and the current thread do not depend on the trace.\<close>

lemma hp_trace [simp]:
  "hp (say f a s) seg off = hp s seg off"
  "hp (say_all l s) seg off = hp s seg off"
  by (simp_all add: hp_def glogic_2_hphysic_def)

lemma usermode_taskstruct_trace [simp]:
  "get_cur_process_usermode_taskstruct (say f a s) = get_cur_process_usermode_taskstruct s"
  by (simp add: get_cur_process_usermode_taskstruct_def Let_def cong: if_cong)

lemma say_file_say: "\<exists>f a. say_file fd_fmt name_fmt fd s = say f a s"
  by (auto simp: say_file_def Let_def)

lemma threadid_usermode:
  assumes "get_cur_process_usermode_taskstruct s = ret p" and "p \<noteq> - 1"
  shows "get_cur_threadid s 3 = ret (load32 (ram s) (p + 0xA8), s)"
  using assms by (simp add: get_cur_threadid_def get_taskstruct_def)

lemma waiting_trace [simp]:
  "waiting (say f a s) = waiting s" "waiting (upd_vcb g s) = waiting s"
  "vm_get_waiting_syscall (say f a s) tid = vm_get_waiting_syscall s tid"
  "vm_get_waiting_syscall (upd_vcb g s) tid = vm_get_waiting_syscall s tid"
  "uninit (say f a s) = uninit s"
  by (simp_all add: waiting_def vm_get_waiting_syscall_def cong: option.case_cong) (simp add: say_def)

text \<open>A \<open>read\<close> by a thread that waits for no other call is handled and remembered: the handler
  returns, and the list of waiting threads then gives for this thread the call, its kind and the
  address of its buffer, which the handler of the matching \<open>iret\<close> prints from.\<close>

theorem read_call_remembered:
  assumes "ucast (rax (vcb s)) = SYS_READ"
    and "get_cur_process_usermode_taskstruct s = ret p" and "p \<noteq> - 1" and "tid = load32 (ram s) (p + 0xA8)"
    and "nWaitingThreads (vm s) + 1 < max_records" and "\<forall>e \<in> set (waiting s). ucast e \<noteq> tid"
  shows "\<exists>s'. handle_syscall s = ret s' \<and> nWaitingThreads (vm s') = nWaitingThreads (vm s) + 1 \<and>
    load_info (ram s') (vm_get_waiting_syscall s' tid) =
      \<lparr>syscallno = SYS_READ, arg = g_rcx (regs s), datasize = uninit s, socketno = uninit s\<rparr>"
proof -
  let ?info = "\<lparr>syscallno = SYS_READ, arg = g_rcx (regs s), datasize = uninit s, socketno = uninit s\<rparr>"
  let ?s1 = "say ''>> %s( '' [ArgS (sys_name (syscalls ! unat SYS_READ))] s"
  obtain f a where fa: "say_file ''fd: %x, '' ''filename: %s, '' (g_rbx (regs s)) ?s1 = say f a ?s1"
    using say_file_say by blast
  define s2 where "s2 = say ''size: %x'' [ArgX (g_rdx (regs s) AND 0xFFFF)] (say ''buffer: %x, '' [ArgX (g_rcx (regs s))] (say f a ?s1))"
  have s2 [simp]: "vm s2 = vm s" "vcb s2 = vcb s" "ram s2 = ram s" "regs s2 = regs s" "uninit s2 = uninit s" "waiting s2 = waiting s"
    by (simp_all add: s2_def)
  have "get_cur_process_usermode_taskstruct s2 = ret p" using assms(2) by (simp add: s2_def)
  then have t: "get_cur_threadid s2 3 = ret (tid, s2)"
    using threadid_usermode [of s2 p] assms(3,4) by simp
  have "sys_read ?s1 = ret (vm_add_waiting_thread tid ?info s2)"
    using t by (simp add: sys_read_def fa Let_def s2_def [symmetric])
  then have "handle_syscall s = ret (say (line '' )'') [] (upd_vcb (\<lambda>v. v\<lparr>rflags := rflags v OR X86_RFLAGS_TF,
      general1_intercepts := general1_intercepts v OR INTRCPT_IRET\<rparr>) (vm_add_waiting_thread tid ?info s2)))"
    using assms(1) by (simp add: handle_syscall_def syscall_handler_def Let_def) (simp add: SYS_READ_def)
  then show ?thesis
    using added_thread_lookup [of s2 tid ?info] assms(5,6) by simp
qed

theorem read_call_remembered_witness:
  "\<exists>s'. handle_syscall (upd_vcb (\<lambda>v. v\<lparr>rax := 3\<rparr>) (blank_machine (\<lambda>_. 0) zero_vm_info)) = ret s' \<and>
     nWaitingThreads (vm s') = 1"
proof -
  let ?s = "upd_vcb (\<lambda>v. v\<lparr>rax := 3\<rparr>) (blank_machine (\<lambda>_. 0) zero_vm_info)"
  have "get_cur_process_usermode_taskstruct ?s = ret 0"
    by (simp add: get_cur_process_usermode_taskstruct_def hp_def glogic_2_hphysic_def glogic_2_glinear_def
      linear_2_physical_def zero_vmcb_def zero_seg_def ctrue_def real_mode_linear_def)
  from read_call_remembered [OF _ this, of 0] show ?thesis
    by (auto simp: SYS_READ_def max_records_def waiting_def zero_vm_info_def)
qed

end
