(* ===== verification/Cpu.thy ===== *)
theory Cpu
  imports CString
begin

text \<open>
  \<open>kernel/cpu.c\<close>, \<open>include/bitops.h\<close>, \<open>include/msr.h\<close>, and from \<open>include/cpu.h\<close> the record of the processor: its
  vendor, family, model, caches and capability words, read with \<open>cpuid\<close>.  The processor is a
  parameter: \<open>cpuid op\<close> gives the values of EAX, EBX, ECX and EDX for the function \<open>op\<close> (ECX is 0 on
  entry).  The record leaves out the fields no code of the monitor touches.
\<close>

type_synonym cpuid_fun = "u32 \<Rightarrow> u32 \<times> u32 \<times> u32 \<times> u32"

definition cpuid_eax :: "cpuid_fun \<Rightarrow> u32 \<Rightarrow> u32" where
  "cpuid_eax cpuid op = (case cpuid op of (a, b, c, d) \<Rightarrow> a)"
definition cpuid_ebx :: "cpuid_fun \<Rightarrow> u32 \<Rightarrow> u32" where
  "cpuid_ebx cpuid op = (case cpuid op of (a, b, c, d) \<Rightarrow> b)"
definition cpuid_ecx :: "cpuid_fun \<Rightarrow> u32 \<Rightarrow> u32" where
  "cpuid_ecx cpuid op = (case cpuid op of (a, b, c, d) \<Rightarrow> c)"
definition cpuid_edx :: "cpuid_fun \<Rightarrow> u32 \<Rightarrow> u32" where
  "cpuid_edx cpuid op = (case cpuid op of (a, b, c, d) \<Rightarrow> d)"

definition NCAPINTS :: nat where "NCAPINTS = 9"

definition X86_VENDOR_INTEL :: u8 where "X86_VENDOR_INTEL = 0"
definition X86_VENDOR_AMD :: u8 where "X86_VENDOR_AMD = 2"
definition X86_VENDOR_UNKNOWN :: u8 where "X86_VENDOR_UNKNOWN = 0xFF"

record cpuinfo_x86 =
  x86 :: u8
  x86_vendor :: u8
  x86_model :: u8
  x86_mask :: u8
  cpuid_max_stdfunc :: u32
  cpuid_max_exfunc :: u32
  x86_capability :: "u32 list"
  x86_vendor_id :: "u8 list"
  x86_model_id :: "u8 list"
  x86_cache_size :: u32
  x86_cache_alignment :: u32
  x86_clflush_size :: u16
  x86_tlbsize :: u32
  x86_virt_bits :: u8
  x86_phys_bits :: u8
  x86_power :: u32
  x86_max_cores :: u16

text \<open>\<open>include/msr.h\<close>: the model-specific registers, a function from their numbers.\<close>

definition rdmsr :: "(u32 \<Rightarrow> u64) \<Rightarrow> u32 \<Rightarrow> u32 \<times> u32" where
  "rdmsr r msr = (ucast (r msr), ucast (drop_bit 32 (r msr)))"

definition wrmsr :: "(u32 \<Rightarrow> u64) \<Rightarrow> u32 \<Rightarrow> u32 \<Rightarrow> u32 \<Rightarrow> u32 \<Rightarrow> u64" where
  "wrmsr r msr low high = r(msr := ucast low OR push_bit 32 (ucast high))"

text \<open>The capability words as a bit string.\<close>

definition set_bit :: "nat \<Rightarrow> u32 list \<Rightarrow> u32 list" where
  "set_bit nr ws = ws[nr div 32 := (ws ! (nr div 32)) OR push_bit (nr mod 32) 1]"

definition clear_bit :: "nat \<Rightarrow> u32 list \<Rightarrow> u32 list" where
  "clear_bit nr ws = ws[nr div 32 := (ws ! (nr div 32)) AND NOT (push_bit (nr mod 32) 1)]"

definition constant_test_bit :: "nat \<Rightarrow> u32 list \<Rightarrow> bool" where
  "constant_test_bit nr ws \<longleftrightarrow> ctrue (push_bit (nr mod 32) (1 :: u64) AND ucast (ws ! (nr div 32)))"

text \<open>The bytes of registers, as the stores through \<open>unsigned int\<close> pointers lay them out.\<close>

definition bytes_of :: "u32 \<Rightarrow> u8 list" where
  "bytes_of w = [ucast w, ucast (drop_bit 8 w), ucast (drop_bit 16 w), ucast (drop_bit 24 w)]"

definition put_bytes :: "nat \<Rightarrow> u8 list \<Rightarrow> u8 list \<Rightarrow> u8 list" where
  "put_bytes i bs xs = take i xs @ bs @ drop (i + length bs) xs"

text \<open>A string in the record, up to its zero byte.\<close>

definition string_of :: "u8 list \<Rightarrow> string" where
  "string_of bs = map (\<lambda>b. char_of (unat b)) (takeWhile (\<lambda>b. b \<noteq> 0) bs)"

definition display_cacheinfo :: "cpuid_fun \<Rightarrow> cpuinfo_x86 \<Rightarrow> cpuinfo_x86 \<times> out_call list" where
  "display_cacheinfo cpuid c =
     (let n = cpuid_max_exfunc c;
          (c, o1) = (if n \<ge> 0x80000005 then
              (let ecx = cpuid_ecx cpuid 0x80000005; edx = cpuid_edx cpuid 0x80000005
               in (c\<lparr>x86_cache_size := drop_bit 24 ecx + drop_bit 24 edx, x86_tlbsize := 0\<rparr>,
                   [(line ''CPU: L1 I Cache: %xK (%x bytes/line), D cache %xK (%x bytes/line)'',
                     [ArgX (ucast (drop_bit 24 edx)), ArgX (ucast (edx AND 0xFF)),
                      ArgX (ucast (drop_bit 24 ecx)), ArgX (ucast (ecx AND 0xFF))])])) else (c, []));
          (c, o2) = (if n \<ge> 0x80000006 then
              (let ebx = cpuid_ebx cpuid 0x80000006; ecx = cpuid_ecx cpuid 0x80000006;
                   c = c\<lparr>x86_cache_size := drop_bit 16 ecx,
                         x86_tlbsize := x86_tlbsize c + ((drop_bit 16 ebx AND 0xfff) + (ebx AND 0xfff))\<rparr>
               in (c, [(line ''CPU: L2 Cache: %xK (%x bytes/line)'',
                        [ArgX (ucast (x86_cache_size c)), ArgX (ucast (ecx AND 0xFF))])])) else (c, []));
          c = (if n \<ge> 0x80000007 then c\<lparr>x86_power := cpuid_edx cpuid 0x80000007\<rparr> else c);
          c = (if n \<ge> 0x80000008 then
              (let eax = cpuid_eax cpuid 0x80000008
               in c\<lparr>x86_virt_bits := ucast (drop_bit 8 eax AND 0xff), x86_phys_bits := ucast (eax AND 0xff)\<rparr>) else c)
      in (c, o1 @ o2))"

definition regs_bytes :: "u32 \<times> u32 \<times> u32 \<times> u32 \<Rightarrow> u8 list" where
  "regs_bytes = (\<lambda>(a, b, c, d). bytes_of a @ bytes_of b @ bytes_of c @ bytes_of d)"

definition get_model_name :: "cpuid_fun \<Rightarrow> cpuinfo_x86 \<Rightarrow> cpuinfo_x86" where
  "get_model_name cpuid c =
     (let bs = put_bytes 0 (regs_bytes (cpuid 0x80000002) @ regs_bytes (cpuid 0x80000003)
                 @ regs_bytes (cpuid 0x80000004)) (x86_model_id c)
      in c\<lparr>x86_model_id := bs[48 := 0]\<rparr>)"

text \<open>\<open>strncmp\<close> with a literal of 12 characters and length 12; the vendor string has no terminator of
  its own, so the trace goes on into what follows it in the record.\<close>

definition vendor_is :: "string \<Rightarrow> u8 list \<Rightarrow> bool" where
  "vendor_is lit bs \<longleftrightarrow> take 12 bs = map of_char lit"

definition get_cpu_vendor :: "cpuinfo_x86 \<Rightarrow> cpuinfo_x86 \<times> out_call list" where
  "get_cpu_vendor c =
     (c\<lparr>x86_vendor :=
          (if vendor_is ''AuthenticAMD'' (x86_vendor_id c) then X86_VENDOR_AMD
           else if vendor_is ''GenuineIntel'' (x86_vendor_id c) then X86_VENDOR_INTEL
           else X86_VENDOR_UNKNOWN)\<rparr>,
      [(line ''Vendor ID: %s'', [ArgS (string_of (x86_vendor_id c @ x86_model_id c))])])"

text \<open>The initialisation at the start of \<open>early_identify_cpu\<close>; \<open>c\<close> is the local variable of \<open>vm_init\<close>,
  whose other bytes are not initialised.\<close>

definition clear_cpuinfo :: "cpuinfo_x86 \<Rightarrow> cpuinfo_x86" where
  "clear_cpuinfo c = c\<lparr>x86_cache_size := - 1, x86_vendor := X86_VENDOR_UNKNOWN, x86_mask := 0, x86_model := 0,
     x86_vendor_id := (x86_vendor_id c)[0 := 0], x86_model_id := (x86_model_id c)[0 := 0],
     x86_clflush_size := 64, x86_cache_alignment := 64, x86_max_cores := 1, cpuid_max_exfunc := 0,
     x86_capability := replicate NCAPINTS 0\<rparr>"

text \<open>Function 1: the signature and the first capability words.\<close>

definition read_signature :: "cpuid_fun \<Rightarrow> cpuinfo_x86 \<Rightarrow> cpuinfo_x86" where
  "read_signature cpuid c =
     (if cpuid_max_stdfunc c \<ge> 1 then
        (case cpuid 1 of (tfms, misc, ecx, edx) \<Rightarrow>
           let caps = (x86_capability c)[4 := ecx, 0 := edx];
               fam = (ucast (drop_bit 8 tfms AND 0xf) :: u8);
               model = (ucast (drop_bit 4 tfms AND 0xf) :: u8);
               c = c\<lparr>x86_capability := caps, x86 := fam, x86_model := model, x86_mask := ucast (tfms AND 0xf)\<rparr>;
               c = (if fam \<ge> 6
                    then c\<lparr>x86 := fam + ucast (drop_bit 20 tfms AND 0xff),
                           x86_model := model + ucast (push_bit 4 (drop_bit 16 tfms AND 0xF))\<rparr>
                    else c)
           in if ctrue (caps ! 0 AND push_bit 19 1)
              then c\<lparr>x86_clflush_size := ucast ((drop_bit 8 misc AND 0xff) * 8)\<rparr> else c)
      else c\<lparr>x86 := 4\<rparr>)"

definition read_extended :: "cpuid_fun \<Rightarrow> cpuinfo_x86 \<Rightarrow> cpuinfo_x86" where
  "read_extended cpuid c =
     (let xlvl = cpuid_eax cpuid 0x80000000;
          c = c\<lparr>cpuid_max_exfunc := xlvl\<rparr>;
          c = (if xlvl AND 0xffff0000 = 0x80000000 then
                 (let c = (if xlvl \<ge> 0x80000001
                           then c\<lparr>x86_capability := (x86_capability c)[1 := cpuid_edx cpuid 0x80000001,
                                                                       6 := cpuid_ecx cpuid 0x80000001]\<rparr>
                           else c)
                  in if xlvl \<ge> 0x80000004 then get_model_name cpuid c else c)
               else c);
          xlvl = cpuid_eax cpuid 0x80860000
      in if xlvl AND 0xffff0000 = 0x80860000 \<and> xlvl \<ge> 0x80860001
         then c\<lparr>x86_capability := (x86_capability c)[2 := cpuid_edx cpuid 0x80860001]\<rparr> else c)"

definition early_identify_cpu :: "cpuid_fun \<Rightarrow> cpuinfo_x86 \<Rightarrow> cpuinfo_x86 \<times> out_call list" where
  "early_identify_cpu cpuid c =
     (let c = clear_cpuinfo c;
          c = (case cpuid 0 of (eax, ebx, ecx, edx) \<Rightarrow>
                 c\<lparr>cpuid_max_stdfunc := eax,
                   x86_vendor_id := put_bytes 0 (bytes_of ebx @ bytes_of edx @ bytes_of ecx) (x86_vendor_id c)\<rparr>);
          (c, calls) = get_cpu_vendor c
      in (read_extended cpuid (read_signature cpuid c), calls))"

subsection \<open>Bits of the capability words\<close>

lemma set_bit_apply:
  assumes "nr < 32 * length ws" and "k < 32 * length ws"
  shows "bit (set_bit nr ws ! (k div 32)) (k mod 32) \<longleftrightarrow> k = nr \<or> bit (ws ! (k div 32)) (k mod 32)"
    and "bit (clear_bit nr ws ! (k div 32)) (k mod 32) \<longleftrightarrow> k \<noteq> nr \<and> bit (ws ! (k div 32)) (k mod 32)"
proof -
  have i: "nr div 32 < length ws" using assms(1) by auto
  have one: "bit (push_bit (nr mod 32) (1 :: u32)) (k mod 32) \<longleftrightarrow> k mod 32 = nr mod 32"
    by (auto simp: bit_simps simp del: push_bit_of_1)
  have same: "k div 32 = nr div 32 \<and> k mod 32 = nr mod 32 \<longleftrightarrow> k = nr"
    by (metis div_mult_mod_eq)
  have len: "k mod 32 < LENGTH(32)" by simp
  show "bit (set_bit nr ws ! (k div 32)) (k mod 32) \<longleftrightarrow> k = nr \<or> bit (ws ! (k div 32)) (k mod 32)"
    unfolding set_bit_def nth_list_update [OF i] using same one by (auto simp: bit_or_iff)
  show "bit (clear_bit nr ws ! (k div 32)) (k mod 32) \<longleftrightarrow> k \<noteq> nr \<and> bit (ws ! (k div 32)) (k mod 32)"
    unfolding clear_bit_def nth_list_update [OF i] using same one len by (auto simp: bit_and_iff bit_not_iff)
qed

lemma constant_test_bit_iff: "constant_test_bit nr ws \<longleftrightarrow> bit (ws ! (nr div 32)) (nr mod 32)"
  using word_and_bit_iff_ctrue [of "ucast (ws ! (nr div 32)) :: u64" "nr mod 32"]
  by (auto simp: constant_test_bit_def ac_simps bit_simps)

subsection \<open>Identification\<close>

text \<open>\<open>vendor_is\<close> is the comparison of the code, for strings in memory.\<close>

lemma vendor_is_strncmp:
  assumes "map (\<lambda>i. m (p + of_nat i)) [0..<12] = take 12 bs" and "map (\<lambda>i. m (q + of_nat i)) [0..<12] = map of_char lit"
    and "length bs \<ge> 12" and "CHR 0x00 \<notin> set lit"
  shows "strncmp m p q 12 = 0 \<longleftrightarrow> vendor_is lit bs"
proof -
  have len: "length lit = 12" using arg_cong [OF assms(2), of length] by simp
  have P: "m (p + of_nat i) = bs ! i" and Q: "m (q + of_nat i) = of_char (lit ! i)" if "i < 12" for i
    using arg_cong [OF assms(1), of "\<lambda>l. l ! i"] arg_cong [OF assms(2), of "\<lambda>l. l ! i"] that assms(3) len by simp_all
  have nz: "(of_char (lit ! i) :: u8) \<noteq> 0" if "i < 12" for i
  proof
    assume "(of_char (lit ! i) :: u8) = 0"
    then have "(of_nat (of_char (lit ! i)) :: u8) = 0" by (simp add: of_nat_of_char)
    moreover have "of_char (lit ! i) < (256 :: nat)" by (rule nat_of_char_less_256)
    ultimately have "of_char (lit ! i) = (0 :: nat)"
      using unat_of_nat [of "of_char (lit ! i)", where 'a = 8] by simp
    then have "lit ! i = char_of (0 :: nat)" by (metis char_of_char)
    then have "lit ! i = CHR 0x00" by (simp add: char_of_def)
    then show False using assms(4) that len nth_mem [of i lit] by auto
  qed
  have "strncmp m p q 12 = 0 \<longleftrightarrow> (\<forall>i < 12. (\<forall>j < i. bs ! j \<noteq> 0) \<longrightarrow> bs ! i = of_char (lit ! i))"
    by (auto simp: strncmp_zero_iff P Q)
  also have "\<dots> \<longleftrightarrow> (\<forall>i < 12. bs ! i = of_char (lit ! i))"
  proof
    assume h: "\<forall>i < 12. (\<forall>j < i. bs ! j \<noteq> 0) \<longrightarrow> bs ! i = of_char (lit ! i)"
    have "bs ! i = of_char (lit ! i)" if "i < 12" for i
      using that
    proof (induction i rule: less_induct)
      case (less i)
      then have "\<forall>j < i. bs ! j \<noteq> 0" using nz by auto
      then show ?case using h less.prems by blast
    qed
    then show "\<forall>i < 12. bs ! i = of_char (lit ! i)" by blast
  qed auto
  also have "\<dots> \<longleftrightarrow> vendor_is lit bs"
    using assms(3) len by (auto simp: vendor_is_def list_eq_iff_nth_eq)
  finally show ?thesis .
qed

lemma bytes_of_inject: "bytes_of v = bytes_of w \<longleftrightarrow> v = w"
proof
  assume h: "bytes_of v = bytes_of w"
  have "bit v k = bit w k" if k: "k < 32" for k
  proof -
    have b: "bit (ucast (drop_bit (8 * (k div 8)) x) :: u8) (k mod 8) \<longleftrightarrow> bit x k" for x :: u32
      by (simp add: bit_simps)
    have "k div 8 = 0 \<or> k div 8 = 1 \<or> k div 8 = 2 \<or> k div 8 = 3" using k by auto
    then have "(ucast (drop_bit (8 * (k div 8)) v) :: u8) = ucast (drop_bit (8 * (k div 8)) w)"
      using h by (auto simp: bytes_of_def)
    then show ?thesis using b by metis
  qed
  then show "v = w" by (intro bit_word_eqI) auto
qed simp

lemma length_bytes_of [simp]: "length (bytes_of w) = 4" by (simp add: bytes_of_def)

lemma vendor_literals:
  "map of_char ''AuthenticAMD'' = bytes_of 0x68747541 @ bytes_of 0x69746e65 @ bytes_of 0x444d4163"
  "map of_char ''GenuineIntel'' = bytes_of 0x756e6547 @ bytes_of 0x49656e69 @ bytes_of 0x6c65746e"
  by (simp_all add: bytes_of_def)

lemma vendor_is_registers:
  assumes "map of_char lit = bytes_of b @ bytes_of d @ bytes_of c"
  shows "vendor_is lit (bytes_of b' @ bytes_of d' @ bytes_of c' @ rest) \<longleftrightarrow> b' = b \<and> d' = d \<and> c' = c"
  by (simp add: vendor_is_def assms bytes_of_inject)

lemma identify_vendor:
  "x86_vendor (fst (early_identify_cpu cpuid c)) =
     (if cpuid_ebx cpuid 0 = 0x68747541 \<and> cpuid_edx cpuid 0 = 0x69746e65 \<and> cpuid_ecx cpuid 0 = 0x444d4163
      then X86_VENDOR_AMD
      else if cpuid_ebx cpuid 0 = 0x756e6547 \<and> cpuid_edx cpuid 0 = 0x49656e69 \<and> cpuid_ecx cpuid 0 = 0x6c65746e
      then X86_VENDOR_INTEL else X86_VENDOR_UNKNOWN)"
proof -
  obtain eax ebx ecx edx where r: "cpuid 0 = (eax, ebx, ecx, edx)" by (metis prod_cases4)
  have ext: "x86_vendor (read_extended cpuid c) = x86_vendor c" "x86_vendor (read_signature cpuid c) = x86_vendor c" for c
    by (simp_all add: read_extended_def read_signature_def get_model_name_def Let_def split: prod.split)
  show ?thesis
    by (simp add: early_identify_cpu_def r ext get_cpu_vendor_def put_bytes_def Let_def
        vendor_is_registers [OF vendor_literals(1)] vendor_is_registers [OF vendor_literals(2)]
        cpuid_ebx_def cpuid_ecx_def cpuid_edx_def)
qed

lemma identify_capabilities:
  "x86_capability (fst (early_identify_cpu cpuid c)) =
     (let n = cpuid_eax cpuid 0; x = cpuid_eax cpuid 0x80000000; t = cpuid_eax cpuid 0x80860000;
          ext = x AND 0xffff0000 = 0x80000000 \<and> x \<ge> 0x80000001
      in [if n \<ge> 1 then cpuid_edx cpuid 1 else 0, if ext then cpuid_edx cpuid 0x80000001 else 0,
          if t AND 0xffff0000 = 0x80860000 \<and> t \<ge> 0x80860001 then cpuid_edx cpuid 0x80860001 else 0, 0,
          if n \<ge> 1 then cpuid_ecx cpuid 1 else 0, 0, if ext then cpuid_ecx cpuid 0x80000001 else 0, 0, 0])"
proof -
  obtain a b cx d where r: "cpuid 0 = (a, b, cx, d)" by (metis prod_cases4)
  obtain a1 b1 c1 d1 where r1: "cpuid 1 = (a1, b1, c1, d1)" by (metis prod_cases4)
  have z: "replicate NCAPINTS (0 :: u32) = [0, 0, 0, 0, 0, 0, 0, 0, 0]"
    by (simp add: NCAPINTS_def numeral_eq_Suc)
  have sig: "x86_capability (read_signature cpuid c) =
      (if cpuid_max_stdfunc c \<ge> 1 then (x86_capability c)[4 := c1, 0 := d1] else x86_capability c)" for c
    by (simp add: read_signature_def r1 Let_def)
  have ext: "x86_capability (read_extended cpuid c) =
      (let x = cpuid_eax cpuid 0x80000000; t = cpuid_eax cpuid 0x80860000;
           cs = (if x AND 0xffff0000 = 0x80000000 \<and> x \<ge> 0x80000001
                 then (x86_capability c)[1 := cpuid_edx cpuid 0x80000001, 6 := cpuid_ecx cpuid 0x80000001] else x86_capability c)
       in if t AND 0xffff0000 = 0x80860000 \<and> t \<ge> 0x80860001 then cs[2 := cpuid_edx cpuid 0x80860001] else cs)" for c
    by (simp add: read_extended_def get_model_name_def Let_def)
  show ?thesis
    unfolding early_identify_cpu_def
    by (simp add: r ext sig get_cpu_vendor_def clear_cpuinfo_def z Let_def cpuid_eax_def cpuid_ecx_def cpuid_edx_def
        r1 numeral_eq_Suc)
qed

subsection \<open>Properties\<close>

text \<open>The vendor that \<open>early_identify_cpu\<close> records is AMD or Intel exactly when the twelve bytes that
  function 0 returns in EBX, EDX and ECX are the vendor's string, and unknown otherwise.\<close>

theorem vendor_recognised:
  "x86_vendor (fst (early_identify_cpu cpuid c)) =
     (if cpuid_ebx cpuid 0 = 0x68747541 \<and> cpuid_edx cpuid 0 = 0x69746e65 \<and> cpuid_ecx cpuid 0 = 0x444d4163
      then X86_VENDOR_AMD
      else if cpuid_ebx cpuid 0 = 0x756e6547 \<and> cpuid_edx cpuid 0 = 0x49656e69 \<and> cpuid_ecx cpuid 0 = 0x6c65746e
      then X86_VENDOR_INTEL else X86_VENDOR_UNKNOWN)"
  by (rule identify_vendor)

text \<open>The capability words after \<open>early_identify_cpu\<close> are those of functions 1, 0x80000001 and
  0x80860001 where the processor has the function, and zero everywhere else.\<close>

theorem capabilities_read:
  "x86_capability (fst (early_identify_cpu cpuid c)) =
     (let n = cpuid_eax cpuid 0; x = cpuid_eax cpuid 0x80000000; t = cpuid_eax cpuid 0x80860000;
          ext = x AND 0xffff0000 = 0x80000000 \<and> x \<ge> 0x80000001
      in [if n \<ge> 1 then cpuid_edx cpuid 1 else 0, if ext then cpuid_edx cpuid 0x80000001 else 0,
          if t AND 0xffff0000 = 0x80860000 \<and> t \<ge> 0x80860001 then cpuid_edx cpuid 0x80860001 else 0, 0,
          if n \<ge> 1 then cpuid_ecx cpuid 1 else 0, 0, if ext then cpuid_ecx cpuid 0x80000001 else 0, 0, 0])"
  by (rule identify_capabilities)

end
