(* ===== verification/Svm.thy ===== *)
theory Svm
  imports Intercept Cpu
begin

text \<open>
  \<open>kernel/svm.c\<close>: turning on AMD's virtualisation and setting up the control
  block of the guest.  The processor's \<open>cpuid\<close> is a parameter; its model-specific registers are a
  function from their numbers.  The control block is the record \<open>vcb\<close> of the machine; the page
  that the code allocates for it is cleared in memory and its address is kept in \<open>vmcb_ptr\<close>.
\<close>

record host_cpu =
  info :: cpuinfo_x86
  msrs :: "u32 \<Rightarrow> u64"
  host_save_area :: u64

definition MSR_EFER :: u32 where "MSR_EFER = 0xc0000080"
definition MSR_K8_VM_HSAVE_PA :: u32 where "MSR_K8_VM_HSAVE_PA = 0xc0010117"
definition SVM_FEATURE_NPT :: u32 where "SVM_FEATURE_NPT = push_bit 0 1"
definition X86_FEATURE_FXSAVE_LEAK :: nat where "X86_FEATURE_FXSAVE_LEAK = 3 * 32 + 10"
definition X86_FEATURE_REP_GOOD :: nat where "X86_FEATURE_REP_GOOD = 3 * 32 + 16"
definition X86_FEATURE_SVM :: nat where "X86_FEATURE_SVM = 6 * 32 + 2"

definition alloc_host_save_area :: "mem \<Rightarrow> naive_allocator \<Rightarrow> (u64 \<times> mem) run" where
  "alloc_host_save_area m host =
     bindo (alloc_host_pages m host 1 1) (\<lambda>(n, m).
       let hsa = push_bit PAGE_SHIFT n
       in Some (Inr (hsa, if hsa \<noteq> 0 then memset m hsa 0 PAGE_SIZE else m)))"

text \<open>\<open>sizeof (struct vmcb)\<close> is 4096.\<close>

definition alloc_vmcb :: "mem \<Rightarrow> naive_allocator \<Rightarrow> (u64 \<times> mem) run" where
  "alloc_vmcb m host =
     bindo (alloc_host_pages m host 1 1) (\<lambda>(pfn, m).
       let p = push_bit PAGE_SHIFT pfn
       in Some (Inr (p, memset m p 0 4096)))"

text \<open>
  The control block is in memory, at \<open>vmcb_ptr\<close>: a table that is cleared over it clears it.  The tables are
  whole pages, as the block is, so that they cover all of it or nothing.
\<close>

definition clear_over :: "u64 \<Rightarrow> u64 \<Rightarrow> machine \<Rightarrow> machine" where
  "clear_over p sz s = (if in_range p (unat sz) (vmcb_ptr (vm s)) then s\<lparr>vcb := zero_vmcb\<rparr> else s)"

definition set_control_params :: "naive_allocator \<Rightarrow> machine \<Rightarrow> machine run" where
  "set_control_params host s =
     (let s = upd_vcb (\<lambda>v. v\<lparr>np_enable := 1\<rparr>) s;
          s = say (line ''Nested paging enabled.'') [] s;
          s = upd_vcb (\<lambda>v. v\<lparr>tlb_control := 0, tsc_offset := 0, guest_asid := 1,
                general2_intercepts := INTRCPT_VMRUN OR INTRCPT_VMMCALL\<rparr>) s
      in bindo (create_intercept_table (ram s) host (push_bit 10 12)) (\<lambda>(p, m).
         let s = upd_vcb (\<lambda>v. v\<lparr>iopm_base_pa := p\<rparr>) (clear_over p (push_bit 10 12) (s\<lparr>ram := m\<rparr>))
         in bindo (create_intercept_table (ram s) host (push_bit 10 8)) (\<lambda>(p, m).
              Some (Inr (upd_vcb (\<lambda>v. v\<lparr>msrpm_base_pa := p\<rparr>) (clear_over p (push_bit 10 8) (s\<lparr>ram := m\<rparr>)))))))"

text \<open>The \<open>memset\<close> of this function clears as many bytes as a pointer has: the first two fields.\<close>

definition set_vm_to_powerup_state :: "vmcb \<Rightarrow> vmcb" where
  "set_vm_to_powerup_state v =
     (let v = v\<lparr>cr_intercepts := 0, dr_intercepts := 0\<rparr>;
          v = v\<lparr>cr0 := 0x60000010, cr2 := 0, cr3 := 0, cr4 := 0, rflags := 0x2, efer := EFER_SVME, rip := 0xFFF0\<rparr>;
          v = v\<lparr>cs := (cs v)\<lparr>sel := 0xF000, base := 0xFFFF0000, limit := 0xFFFF\<rparr>\<rparr>;
          v = v\<lparr>ds := (ds v)\<lparr>sel := 0, limit := 0xFFFF\<rparr>, es := (es v)\<lparr>sel := 0, limit := 0xFFFF\<rparr>,
                fs := (fs v)\<lparr>sel := 0, limit := 0xFFFF\<rparr>, gs := (gs v)\<lparr>sel := 0, limit := 0xFFFF\<rparr>,
                ss := (ss v)\<lparr>sel := 0, limit := 0xFFFF\<rparr>\<rparr>;
          v = v\<lparr>gdtr := (gdtr v)\<lparr>base := 0, limit := 0xFFFF\<rparr>, idtr := (idtr v)\<lparr>base := 0, limit := 0xFFFF\<rparr>\<rparr>
      in v\<lparr>ldtr := (ldtr v)\<lparr>sel := 0, base := 0, limit := 0xFFFF\<rparr>,
           tr := (tr v)\<lparr>sel := 0, base := 0, limit := 0xFFFF\<rparr>\<rparr>)"

text \<open>The loop over \<open>segregs\<close>: one register.\<close>

definition real_mode_seg :: "seg_selector \<Rightarrow> seg_selector" where
  "real_mode_seg x = x\<lparr>attrs := 0x93, base := 0, limit := 0xFFFF\<rparr>"

text \<open>\<open>00000400\<close> is an octal constant, 256.\<close>

definition set_vm_to_mbr_start_state :: "vmcb \<Rightarrow> vmcb" where
  "set_vm_to_mbr_start_state v =
     (let v = v\<lparr>rax := 0, rip := 0x7c00\<rparr>;
          v = v\<lparr>cs := (cs v)\<lparr>attrs := 0x019B, limit := 0xFFFF, base := 0, sel := 0\<rparr>\<rparr>;
          v = v\<lparr>ds := (ds v)\<lparr>sel := 0x0040\<rparr>, fs := (fs v)\<lparr>sel := 0xE717\<rparr>, gs := (gs v)\<lparr>sel := 0xF000\<rparr>\<rparr>;
          v = v\<lparr>ss := real_mode_seg (ss v), ds := real_mode_seg (ds v), es := real_mode_seg (es v),
                fs := real_mode_seg (fs v), gs := real_mode_seg (gs v)\<rparr>;
          v = v\<lparr>rsp := 0x3E2\<rparr>;
          v = v\<lparr>ss := (ss v)\<lparr>attrs := 0x193\<rparr>, ds := (ds v)\<lparr>base := 256\<rparr>,
                fs := (fs v)\<lparr>base := 0xE7170\<rparr>, gs := (gs v)\<lparr>base := 0xF0000\<rparr>\<rparr>;
          v = v\<lparr>efer := EFER_SVME, cr0 := 0x10\<rparr>;
          v = v\<lparr>idtr := (idtr v)\<lparr>limit := 0x3FF, base := 0\<rparr>, gdtr := (gdtr v)\<lparr>limit := 0x20, base := 0x06E127\<rparr>\<rparr>
      in v\<lparr>rflags := 0x2206, cpl := 0, g_pat := 0x7040600070406\<rparr>)"

text \<open>\<open>x86_capability [5]\<close> is written, word 6 is tested.\<close>

definition enable_svm ::
    "cpuid_fun \<Rightarrow> naive_allocator \<Rightarrow> host_cpu \<times> machine \<Rightarrow> (host_cpu \<times> machine) run" where
  "enable_svm cpuid host = (\<lambda>(h, s).
     let c = info h;
         c = c\<lparr>x86_capability := (x86_capability c)[5 := cpuid_ecx cpuid 0x80000001]\<rparr>;
         h = h\<lparr>info := c\<rparr>
     in if \<not> constant_test_bit X86_FEATURE_SVM (x86_capability c) then Some (fatal_failure (line ''No svm feature!''))
        else if \<not> ctrue (cpuid_edx cpuid 0x8000000a AND SVM_FEATURE_NPT)
        then Some (fatal_failure (line ''Nested paging is not supported.''))
        else
          let (eax, edx) = rdmsr (msrs h) MSR_EFER;
              h = h\<lparr>msrs := wrmsr (msrs h) MSR_EFER (eax OR ucast EFER_SVME) edx\<rparr>;
              s = say (line ''AMD SVM Extension is enabled.'') [] s
          in bindo (alloc_host_save_area (ram s) host) (\<lambda>(hsa, m).
               let h = h\<lparr>host_save_area := hsa,
                         msrs := wrmsr (msrs h) MSR_K8_VM_HSAVE_PA (ucast hsa) (ucast (drop_bit 32 hsa))\<rparr>
               in Some (Inr (h, say (line ''Host state save area: %x'') [ArgX hsa] (s\<lparr>ram := m\<rparr>)))))"

text \<open>The features that \<open>init_amd\<close> sets and clears.\<close>

definition amd_caps :: "cpuid_fun \<Rightarrow> u32 list \<Rightarrow> u32 list" where
  "amd_caps cpuid caps =
     (let caps = clear_bit (0 * 32 + 31) caps;
          level = cpuid_eax cpuid 1;
          caps = (if level \<ge> 0x0f48 \<and> level < 0x0f50 \<or> level \<ge> 0x0f58
                  then set_bit X86_FEATURE_REP_GOOD caps else caps)
      in set_bit X86_FEATURE_FXSAVE_LEAK caps)"

definition init_amd ::
    "cpuid_fun \<Rightarrow> naive_allocator \<Rightarrow> host_cpu \<times> machine \<Rightarrow> (host_cpu \<times> machine) run" where
  "init_amd cpuid host = (\<lambda>(h, s).
     let (c, calls) = display_cacheinfo cpuid
           ((info h)\<lparr>x86_capability := amd_caps cpuid (x86_capability (info h))\<rparr>)
     in bindo (enable_svm cpuid host (h\<lparr>info := c\<rparr>, say_all calls s)) (\<lambda>(h, s).
        bindo (alloc_vmcb (ram s) host) (\<lambda>(p, m).
        let s = upd_vm (\<lambda>v. v\<lparr>vmcb_ptr := p\<rparr>) (s\<lparr>ram := m, vcb := zero_vmcb\<rparr>);
            s = say (line ''VMCB location: %x'') [ArgX p] s;
            s = upd_vcb (\<lambda>v. v\<lparr>vmcb_n_cr3 := n_cr3 (vm s)\<rparr>) s
        in bindo (set_control_params host s) (\<lambda>s.
             Some (Inr (h, upd_vcb set_vm_to_mbr_start_state s))))))"

subsection \<open>What \<open>init_amd\<close> leaves\<close>

lemma alloc_page_from:
  assumes "pages_from m host k"
  shows "\<exists>m'. alloc_host_save_area m host = Some (Inr (page_at k, m')) \<and> pages_from m' host (min 32 (k + 1))"
    and "\<exists>m'. alloc_vmcb m host = Some (Inr (page_at k, m')) \<and> pages_from m' host (min 32 (k + 1))"
proof -
  obtain m1 where m1: "alloc_host_pages m host 1 1 = Some (Inr (of_nat k, m1))" "pages_from m1 host (min 32 (k + 1))"
    using alloc_pages_from [OF assms, of 1] by auto
  have k: "k \<le> 32" using assms by (simp add: pages_from_def)
  have z: "PAGE_SIZE = 4096" by (simp add: PAGE_SIZE_def)
  have "pages_from (memset m1 (page_at k) 0 4096) host (min 32 (k + 1))"
    by (rule pages_from_memset [OF m1(2) k]) simp
  then show "\<exists>m'. alloc_host_save_area m host = Some (Inr (page_at k, m')) \<and> pages_from m' host (min 32 (k + 1))"
    and "\<exists>m'. alloc_vmcb m host = Some (Inr (page_at k, m')) \<and> pages_from m' host (min 32 (k + 1))"
    using m1 by (simp_all add: alloc_host_save_area_def alloc_vmcb_def Let_def z)
qed

text \<open>Registers of the processor.\<close>

lemma wrmsr_rdmsr:
  "wrmsr r msr (fst (rdmsr r msr) OR a) (snd (rdmsr r msr)) = r(msr := r msr OR ucast a)"
  by (auto simp: wrmsr_def rdmsr_def fun_eq_iff bit_eq_iff bit_simps)

lemma wrmsr_value: "wrmsr r msr (ucast v) (ucast (drop_bit 32 v)) = r(msr := v)"
  by (auto simp: wrmsr_def fun_eq_iff bit_eq_iff bit_simps)

lemma enable_svm_ok:
  assumes "pages_from (ram s) host k" and "length (x86_capability (info h)) = NCAPINTS"
    and "bit (x86_capability (info h) ! 6) 2" and "bit (cpuid_edx cpuid 0x8000000a) 0"
  shows "\<exists>h' s'. enable_svm cpuid host (h, s) = ret (h', s') \<and> pages_from (ram s') host (min 32 (k + 1)) \<and>
    vm s' = vm s \<and> host_save_area h' = page_at k \<and>
    msrs h' = (msrs h)(MSR_EFER := msrs h MSR_EFER OR EFER_SVME, MSR_K8_VM_HSAVE_PA := page_at k)"
proof -
  let ?caps = "(x86_capability (info h))[5 := cpuid_ecx cpuid 0x80000001]"
  have svm: "constant_test_bit X86_FEATURE_SVM ?caps"
    using assms(3) by (simp add: constant_test_bit_iff X86_FEATURE_SVM_def)
  have npt: "ctrue (cpuid_edx cpuid 0x8000000a AND SVM_FEATURE_NPT)"
    using assms(4) word_and_bit_iff_ctrue [of "cpuid_edx cpuid 0x8000000a" 0] by (simp add: SVM_FEATURE_NPT_def)
  have efer: "ucast (ucast EFER_SVME :: u32) = EFER_SVME" by (simp add: EFER_SVME_def)
  obtain m' where "alloc_host_save_area (ram s) host = Some (Inr (page_at k, m'))" "pages_from m' host (min 32 (k + 1))"
    using alloc_page_from(1) [OF assms(1)] by blast
  then show ?thesis
    using wrmsr_rdmsr [of "msrs h" MSR_EFER "ucast EFER_SVME"]
      wrmsr_value [of "(msrs h)(MSR_EFER := msrs h MSR_EFER OR EFER_SVME)" MSR_K8_VM_HSAVE_PA "page_at k"]
    by (simp add: enable_svm_def svm npt efer Let_def case_prod_beta)
qed

text \<open>The block after \<open>set_control_params\<close>, when the two tables begin in the pages \<open>i\<close> and \<open>j\<close>: complete,
  or cleared by both tables.\<close>

definition with_tables :: "bool \<Rightarrow> nat \<Rightarrow> nat \<Rightarrow> vmcb \<Rightarrow> vmcb" where
  "with_tables apart i j v =
     (if apart
      then v\<lparr>np_enable := 1, tlb_control := 0, tsc_offset := 0, guest_asid := 1,
        general2_intercepts := INTRCPT_VMRUN OR INTRCPT_VMMCALL, iopm_base_pa := page_at i, msrpm_base_pa := page_at j\<rparr>
      else zero_vmcb\<lparr>msrpm_base_pa := page_at j\<rparr>)"

text \<open>A page below the table, or the one where it begins.\<close>

lemma page_in_table:
  assumes "a \<le> 32" and "b \<le> 32" and "0 < unat sz" and "unat sz \<le> 12288" and "a < b \<or> a = b"
  shows "in_range (page_at b) (unat sz) (page_at a) \<longleftrightarrow> a = b"
proof (cases "a = b")
  case False
  then have "a < b" using assms(5) by simp
  then have "unat (page_at a - page_at b) = 2 ^ 64 + 4096 * a - 4096 * b"
    using unat_page_at [OF assms(1)] unat_page_at [OF assms(2)] assms(2) by (simp add: unat_sub_if')
  then show ?thesis using False assms(2,4) by (simp add: in_range_def)
qed (use assms(3) in \<open>simp add: in_range_def\<close>)

lemma clear_over_fields [simp]:
  "vm (clear_over p sz s) = vm s" "ram (clear_over p sz s) = ram s" "regs (clear_over p sz s) = regs s"
  "con (clear_over p sz s) = con s"
  by (simp_all add: clear_over_def)

lemma set_control_params_ok:
  assumes "pages_from (ram s) host i" and "vmcb_ptr (vm s) = page_at b" and "b < i \<or> b = 32 \<and> i = 32"
  shows "\<exists>s'. set_control_params host s = ret s' \<and> vm s' = vm s \<and>
    vcb s' = with_tables (b < i) i (min 32 (i + 3)) (vcb s)"
proof -
  let ?j = "min 32 (i + 3)"
  have i: "i \<le> 32" using assms(1) by (simp add: pages_from_def)
  have sizes: "unat (push_bit 10 12 :: u64) = 12288" "unat (push_bit 10 8 :: u64) = 8192"
    by (simp_all add: push_bit_eq_mult)
  obtain m1 where m1: "create_intercept_table (ram s) host (push_bit 10 12) = Some (Inr (page_at i, m1))"
      "pages_from m1 host ?j"
    using create_intercept_table_from [OF assms(1), of "push_bit 10 12"] sizes by auto
  obtain m2 where m2: "create_intercept_table m1 host (push_bit 10 8) = Some (Inr (page_at ?j, m2))"
    using create_intercept_table_from [OF m1(2), of "push_bit 10 8"] by auto
  have "in_range (page_at i) (unat (push_bit 10 12 :: u64)) (page_at b) \<longleftrightarrow> b = i"
    by (rule page_in_table) (use i assms(3) in \<open>auto simp: sizes\<close>)
  moreover have "in_range (page_at ?j) (unat (push_bit 10 8 :: u64)) (page_at b) \<longleftrightarrow> b = ?j"
    by (rule page_in_table) (use i assms(3) in \<open>auto simp: sizes\<close>)
  note r = calculation this
  show ?thesis
  proof (cases "b < i")
    case True
    then have "b \<noteq> i" "b \<noteq> ?j" using i by auto
    with True show ?thesis using m1(1) m2 r
      by (simp add: set_control_params_def clear_over_def with_tables_def Let_def assms(2))
  next
    case False
    then have "b = i" "b = ?j" "b = 32" using i assms(3) by auto
    with False show ?thesis using m1(1) m2 r
      by (simp add: set_control_params_def clear_over_def with_tables_def Let_def assms(2))
  qed
qed

text \<open>The block that \<open>init_amd\<close> builds, in a page of its own, and what is left of it in a page of the tables.\<close>

definition amd_start_block :: "u64 \<Rightarrow> nat \<Rightarrow> nat \<Rightarrow> vmcb" where
  "amd_start_block root i j = set_vm_to_mbr_start_state (with_tables True i j (zero_vmcb\<lparr>vmcb_n_cr3 := root\<rparr>))"

definition cleared_block :: vmcb where
  "cleared_block = set_vm_to_mbr_start_state (zero_vmcb\<lparr>msrpm_base_pa := 0x20000\<rparr>)"

definition intercepts_none :: "vmcb \<Rightarrow> bool" where
  "intercepts_none v \<longleftrightarrow> cr_intercepts v = 0 \<and> dr_intercepts v = 0 \<and> exception_intercepts v = 0 \<and> general1_intercepts v = 0"

lemma display_cacheinfo_caps:
  assumes "display_cacheinfo cpuid (c\<lparr>x86_capability := caps\<rparr>) = (c', calls)"
  shows "x86_capability c' = caps"
  using arg_cong [OF assms, of "\<lambda>p. x86_capability (fst p)"]
  by (simp add: display_cacheinfo_def Let_def case_prod_beta split: if_splits)

lemma amd_caps_word6:
  "length caps = NCAPINTS \<Longrightarrow> length (amd_caps cpuid caps) = NCAPINTS"
  "length caps = NCAPINTS \<Longrightarrow> amd_caps cpuid caps ! 6 = caps ! 6"
  by (simp_all add: amd_caps_def Let_def set_bit_def clear_bit_def X86_FEATURE_REP_GOOD_def X86_FEATURE_FXSAVE_LEAK_def)

lemma init_amd_result:
  assumes "pages_from (ram s) host k" and "length (x86_capability (info h)) = NCAPINTS"
    and "bit (x86_capability (info h) ! 6) 2" and "bit (cpuid_edx cpuid 0x8000000a) 0"
  shows "\<exists>h' s'. init_amd cpuid host (h, s) = ret (h', s') \<and>
    vm s' = (vm s)\<lparr>vmcb_ptr := page_at (min 32 (k + 1))\<rparr> \<and>
    vcb s' = (if k < 31 then amd_start_block (n_cr3 (vm s)) (k + 2) (min 32 (k + 5)) else cleared_block) \<and>
    host_save_area h' = page_at k \<and>
    msrs h' = (msrs h)(MSR_EFER := msrs h MSR_EFER OR EFER_SVME, MSR_K8_VM_HSAVE_PA := page_at k)"
proof -
  obtain b i where b: "b = min 32 (k + 1)" and i: "i = min 32 (k + 2)" by blast
  define caps where "caps = amd_caps cpuid (x86_capability (info h))"
  have caps: "length caps = NCAPINTS" "caps ! 6 = x86_capability (info h) ! 6"
    using assms(2) by (simp_all add: caps_def amd_caps_word6)
  obtain c calls where d: "display_cacheinfo cpuid ((info h)\<lparr>x86_capability := caps\<rparr>) = (c, calls)" by fastforce
  have c: "x86_capability c = caps" by (rule display_cacheinfo_caps [OF d])
  obtain h1 s1 where e: "enable_svm cpuid host (h\<lparr>info := c\<rparr>, say_all calls s) = ret (h1, s1)"
      "pages_from (ram s1) host b" "vm s1 = vm s" "host_save_area h1 = page_at k"
      "msrs h1 = (msrs h)(MSR_EFER := msrs h MSR_EFER OR EFER_SVME, MSR_K8_VM_HSAVE_PA := page_at k)"
    using enable_svm_ok [of "say_all calls s" host k "h\<lparr>info := c\<rparr>" cpuid] assms caps c by (auto simp: b)
  have bi: "min 32 (b + 1) = i" by (simp add: b i)
  obtain m2 where a: "alloc_vmcb (ram s1) host = Some (Inr (page_at b, m2))" "pages_from m2 host i"
    using alloc_page_from(2) [OF e(2)] unfolding bi by blast
  define s2 where "s2 = upd_vcb (\<lambda>v. v\<lparr>vmcb_n_cr3 := n_cr3 (vm s)\<rparr>) (say (line ''VMCB location: %x'') [ArgX (page_at b)]
    (upd_vm (\<lambda>v. v\<lparr>vmcb_ptr := page_at b\<rparr>) (s1\<lparr>ram := m2, vcb := zero_vmcb\<rparr>)))"
  have s2: "pages_from (ram s2) host i" "vm s2 = (vm s)\<lparr>vmcb_ptr := page_at b\<rparr>"
      "vcb s2 = zero_vmcb\<lparr>vmcb_n_cr3 := n_cr3 (vm s)\<rparr>"
    using a(2) e(3) by (simp_all add: s2_def)
  have "b < i \<or> b = 32 \<and> i = 32" by (auto simp: b i)
  then obtain s3 where s3: "set_control_params host s2 = ret s3" "vm s3 = vm s2"
      "vcb s3 = with_tables (b < i) i (min 32 (i + 3)) (vcb s2)"
    using set_control_params_ok [OF s2(1), of b] s2(2) by auto
  have v: "set_vm_to_mbr_start_state (vcb s3) =
      (if k < 31 then amd_start_block (n_cr3 (vm s)) (k + 2) (min 32 (k + 5)) else cleared_block)"
  proof (cases "k < 31")
    case True
    then have "b < i" "i = k + 2" "min 32 (i + 3) = min 32 (k + 5)" by (auto simp: b i)
    then show ?thesis using True by (simp only: s3(3) s2(3) amd_start_block_def if_True)
  next
    case False
    then have "b = 32" "i = 32" by (auto simp: b i)
    then show ?thesis using False by (simp add: s3(3) s2(3) cleared_block_def with_tables_def)
  qed
  have "init_amd cpuid host (h, s) = ret (h1, upd_vcb set_vm_to_mbr_start_state s3)"
    unfolding init_amd_def by (simp add: caps_def [symmetric] d e(1,3) a(1) s2_def [symmetric] s3(1))
  then show ?thesis using e(4,5) s3(2) s2(2) v unfolding b by simp
qed

subsection \<open>Properties\<close>

lemma start_block_bits:
  "bit (0x10 :: int) k \<longleftrightarrow> k = 4" "bit EFER_SVME k \<longleftrightarrow> k = 12"
  "bit INTRCPT_VMRUN k \<longleftrightarrow> k = 0" "bit INTRCPT_VMMCALL k \<longleftrightarrow> k = 1"
proof -
  have "(0x10 :: int) = push_bit 4 1" by (simp add: push_bit_eq_mult)
  then show "bit (0x10 :: int) k \<longleftrightarrow> k = 4" by (simp only: bit_push_bit_iff) (auto simp: bit_simps)
  show "bit EFER_SVME k \<longleftrightarrow> k = 12"
    by (simp only: EFER_SVME_def bit_push_bit_iff) (auto simp: bit_simps)
  show "bit INTRCPT_VMRUN k \<longleftrightarrow> k = 0" "bit INTRCPT_VMMCALL k \<longleftrightarrow> k = 1"
    by (simp_all only: INTRCPT_VMRUN_def INTRCPT_VMMCALL_def bit_push_bit_iff) (auto simp: bit_simps)
qed

lemma amd_start_block_fields:
  "accepted_state (amd_start_block root i j)" "np_enable (amd_start_block root i j) = 1"
  "vmcb_n_cr3 (amd_start_block root i j) = root" "guest_asid (amd_start_block root i j) = 1"
  "rip (amd_start_block root i j) = 0x7c00"
  "general2_intercepts (amd_start_block root i j) = INTRCPT_VMRUN OR INTRCPT_VMMCALL"
  "intercepts_none (amd_start_block root i j)"
  "iopm_base_pa (amd_start_block root i j) = page_at i" "msrpm_base_pa (amd_start_block root i j) = page_at j"
  by (auto simp: amd_start_block_def set_vm_to_mbr_start_state_def accepted_state_def zero_vmcb_def Let_def
      start_block_bits bit_or_iff intercepts_none_def with_tables_def)

lemma cleared_block_fields:
  "np_enable cleared_block = 0" "vmcb_n_cr3 cleared_block = 0" "guest_asid cleared_block = 0"
  "rip cleared_block = 0x7c00" "general2_intercepts cleared_block = 0" "intercepts_none cleared_block"
  "msrpm_base_pa cleared_block = 0x20000"
  by (auto simp: cleared_block_def set_vm_to_mbr_start_state_def zero_vmcb_def Let_def intercepts_none_def)

text \<open>C6: on an AMD processor with SVM and nested paging, when pages are left among the first 32 for the
  block and the tables not to share one, \<open>init_amd\<close> returns, with EFER.SVME set and
  the host save area in its register, and with a control block that passes every check of
  \<open>vmcb_check_consistency\<close>: the guest starts at 0x7c00 with nested paging through the table of the
  machine, its own address space, and no interception but that of VMRUN and VMMCALL.\<close>

theorem init_amd_ready:
  assumes "pages_from (ram s) host k" and "k < 31" and "length (x86_capability (info h)) = NCAPINTS"
    and "bit (x86_capability (info h) ! 6) 2" and "bit (cpuid_edx cpuid 0x8000000a) 0"
  shows "\<exists>h' s'. init_amd cpuid host (h, s) = ret (h', s') \<and>
    vmcb_check_consistency (vcb s') = ([], Inr ()) \<and> rip (vcb s') = 0x7c00 \<and>
    np_enable (vcb s') = 1 \<and> vmcb_n_cr3 (vcb s') = n_cr3 (vm s) \<and> guest_asid (vcb s') = 1 \<and>
    (\<forall>k. bit (general2_intercepts (vcb s')) k \<longleftrightarrow> k \<le> 1) \<and> intercepts_none (vcb s') \<and>
    (\<forall>k. bit (msrs h' MSR_EFER) k \<longleftrightarrow> k = 12 \<or> bit (msrs h MSR_EFER) k) \<and>
    msrs h' MSR_K8_VM_HSAVE_PA = host_save_area h'"
proof -
  have "MSR_EFER \<noteq> MSR_K8_VM_HSAVE_PA" by (simp add: MSR_EFER_def MSR_K8_VM_HSAVE_PA_def)
  then show ?thesis
    using init_amd_result [OF assms(1,3-5)] assms(2)
    by (auto simp: consistency_accepts amd_start_block_fields start_block_bits bit_or_iff)
qed

text \<open>A processor for the witnesses: SVM, nested paging, no other feature.\<close>

definition example_cpuid :: cpuid_fun where
  "example_cpuid op =
     (if op = 0 then (1, 0x68747541, 0x444d4163, 0x69746e65)
      else if op = 0x80000000 then (0x80000001, 0, 0, 0)
      else if op = 0x80000001 then (0, 0, 4, 0)
      else if op = 0x8000000a then (0, 0, 0, 1) else (0, 0, 0, 0))"

definition zero_cpuinfo :: cpuinfo_x86 where
  "zero_cpuinfo = \<lparr>x86 = 0, x86_vendor = 0, x86_model = 0, x86_mask = 0, cpuid_max_stdfunc = 0,
     cpuid_max_exfunc = 0, x86_capability = replicate NCAPINTS 0, x86_vendor_id = replicate 16 0,
     x86_model_id = replicate 64 0, x86_cache_size = 0, x86_cache_alignment = 0, x86_clflush_size = 0,
     x86_tlbsize = 0, x86_virt_bits = 0, x86_phys_bits = 0, x86_power = 0, x86_max_cores = 0\<rparr>"

definition example_host :: host_cpu where
  "example_host = \<lparr>info = zero_cpuinfo\<lparr>x86_capability := (replicate NCAPINTS 0)[6 := 4]\<rparr>, msrs = (\<lambda>_. 0), host_save_area = 0\<rparr>"

definition full_machine :: machine where
  "full_machine = blank_machine (\<lambda>_. 0xFF) zero_vm_info"

lemma example_pages: "few_pages (ram full_machine) \<lparr>alloc_bitmap = 0x8100000, max_page = 0x10000\<rparr>"
  using low_pages_example by (simp add: few_pages_low full_machine_def blank_machine_def)

text \<open>A machine with free low pages: the first 8 are taken, the next 24 are not.\<close>

definition roomy_machine :: machine where
  "roomy_machine = blank_machine (\<lambda>x. if x \<in> {0x8100001, 0x8100002, 0x8100003} then 0 else 0xFF) zero_vm_info"

lemma roomy_pages: "pages_from (ram roomy_machine) \<lparr>alloc_bitmap = 0x8100000, max_page = 0x10000\<rparr> 8"
proof -
  have "page_bit (ram roomy_machine) 0x8100000 p \<longleftrightarrow> p < 8" if "p < 32" for p
  proof -
    have "p div 8 < 4" using that by (simp add: less_mult_imp_div_less)
    then have "p div 8 = 0 \<or> p div 8 = 1 \<or> p div 8 = 2 \<or> p div 8 = 3" by linarith
    moreover have "bit (0xFF :: u8) (p mod 8)"
      using bit_mask_iff [where 'a = "8 word" and m = 8 and n = "p mod 8"] by (simp add: mask_eq_exp_minus_1)
    moreover have "p < 8 \<longleftrightarrow> p div 8 = 0" by (simp add: div_eq_0_iff)
    ultimately show ?thesis
      using that by (auto simp: page_bit_def tbl_get_def bit_load_le roomy_machine_def blank_machine_def)
  qed
  then show ?thesis by (simp add: pages_from_def)
qed

lemma example_features:
  "length (x86_capability (info example_host)) = NCAPINTS" "bit (x86_capability (info example_host) ! 6) 2"
  "bit (cpuid_edx example_cpuid 0x8000000a) 0"
  by (simp_all add: example_host_def NCAPINTS_def cpuid_edx_def example_cpuid_def bit_iff_odd)

theorem init_amd_ready_witness:
  "\<exists>h' s'. init_amd example_cpuid \<lparr>alloc_bitmap = 0x8100000, max_page = 0x10000\<rparr> (example_host, roomy_machine) =
     ret (h', s') \<and> vmcb_check_consistency (vcb s') = ([], Inr ()) \<and> rip (vcb s') = 0x7c00"
  using init_amd_ready [OF roomy_pages _ example_features] by fastforce

text \<open>As start-up leaves the bitmap, the host save area, the control block and the tables of intercepted ports
  and registers all get the page at 0x20000, and the tables are cleared when the block is already filled
  in: nested paging is off again, the address space is 0, VMRUN is not intercepted, and the monitor's own
  check refuses the block.\<close>

theorem init_amd_shares_page:
  assumes "few_pages (ram s) host" and "length (x86_capability (info h)) = NCAPINTS"
    and "bit (x86_capability (info h) ! 6) 2" and "bit (cpuid_edx cpuid 0x8000000a) 0"
  shows "\<exists>h' s'. init_amd cpuid host (h, s) = ret (h', s') \<and> vmcb_ptr (vm s') = 0x20000 \<and>
    host_save_area h' = vmcb_ptr (vm s') \<and> msrpm_base_pa (vcb s') = vmcb_ptr (vm s') \<and>
    np_enable (vcb s') = 0 \<and> guest_asid (vcb s') = 0 \<and> general2_intercepts (vcb s') = 0 \<and>
    vmcb_check_consistency (vcb s') \<noteq> ([], Inr ())"
  using init_amd_result [OF assms]
  by (auto simp: cleared_block_fields consistency_accepts accepted_state_def)

theorem init_amd_shares_page_witness:
  "\<exists>h' s'. init_amd example_cpuid \<lparr>alloc_bitmap = 0x8100000, max_page = 0x10000\<rparr> (example_host, full_machine) =
     ret (h', s') \<and> host_save_area h' = vmcb_ptr (vm s')"
  using init_amd_shares_page [OF example_pages example_features] by blast

text \<open>Without SVM, or without nested paging, \<open>init_amd\<close> stops the monitor with a message.\<close>

theorem init_amd_unsupported:
  assumes "length (x86_capability (info h)) = NCAPINTS"
    and "\<not> bit (x86_capability (info h) ! 6) 2 \<or> \<not> bit (cpuid_edx cpuid 0x8000000a) 0"
  shows "init_amd cpuid host (h, s) = Some (fatal_failure
    (line (if bit (x86_capability (info h) ! 6) 2 then ''Nested paging is not supported.'' else ''No svm feature!'')))"
proof -
  define caps where "caps = amd_caps cpuid (x86_capability (info h))"
  obtain c calls where d: "display_cacheinfo cpuid ((info h)\<lparr>x86_capability := caps\<rparr>) = (c, calls)" by fastforce
  have c: "x86_capability c = caps" by (rule display_cacheinfo_caps [OF d])
  have svm: "constant_test_bit X86_FEATURE_SVM (caps[5 := w]) \<longleftrightarrow> bit (x86_capability (info h) ! 6) 2" for w
    by (simp add: constant_test_bit_iff X86_FEATURE_SVM_def caps_def amd_caps_word6 assms(1))
  have npt: "ctrue (cpuid_edx cpuid 0x8000000a AND SVM_FEATURE_NPT) \<longleftrightarrow> bit (cpuid_edx cpuid 0x8000000a) 0"
    using word_and_bit_iff_ctrue [of "cpuid_edx cpuid 0x8000000a" 0] by (simp add: SVM_FEATURE_NPT_def)
  show ?thesis
    using assms(2) by (auto simp: init_amd_def caps_def [symmetric] d enable_svm_def Let_def c svm npt)
qed

theorem init_amd_unsupported_witness:
  "init_amd (\<lambda>_. (0, 0, 0, 0)) host (example_host, s) = Some (fatal_failure (line ''Nested paging is not supported.''))"
  using init_amd_unsupported [of example_host "\<lambda>_. (0, 0, 0, 0)" host s] example_features
  by (simp add: cpuid_edx_def)

end
