(* ===== verification/Vmcs.thy ===== *)
theory Vmcs
  imports Intercept Cpu Printf
begin

text \<open>
  \<open>kernel/vmcs.c\<close>, \<open>kernel/vmx.c\<close>, \<open>include/vmcs.h\<close> and from \<open>include/vmx.h\<close> the accesses to the
  control structure: turning on Intel's virtualisation and filling in the virtual-machine control
  structure (VMCS).  The processor is a record of parameters: its registers, the width of its physical
  addresses, the result of VMXON and the fields it has.  The state of the extension, the last three
  components of \<open>vmx_globals\<close>, is the pointer that VMXON was given, the current VMCS, and the fields of
  every VMCS by its address.  VMCLEAR, VMPTRLD, VMREAD and VMWRITE can fail, without a current
  VMCS for example; the code then executes an undefined instruction.  The other components of \<open>vmx_globals\<close> are
  the global variables.
\<close>

subsection \<open>Fields and controls\<close>

definition vmcs_field :: "(string \<times> u64) list" where
  "vmcs_field = [
     (''VIRTUAL_PROCESSOR_ID'', 0x0),
     (''GUEST_ES_SELECTOR'', 0x800),
     (''GUEST_CS_SELECTOR'', 0x802),
     (''GUEST_SS_SELECTOR'', 0x804),
     (''GUEST_DS_SELECTOR'', 0x806),
     (''GUEST_FS_SELECTOR'', 0x808),
     (''GUEST_GS_SELECTOR'', 0x80a),
     (''GUEST_LDTR_SELECTOR'', 0x80c),
     (''GUEST_TR_SELECTOR'', 0x80e),
     (''HOST_ES_SELECTOR'', 0xc00),
     (''HOST_CS_SELECTOR'', 0xc02),
     (''HOST_SS_SELECTOR'', 0xc04),
     (''HOST_DS_SELECTOR'', 0xc06),
     (''HOST_FS_SELECTOR'', 0xc08),
     (''HOST_GS_SELECTOR'', 0xc0a),
     (''HOST_TR_SELECTOR'', 0xc0c),
     (''IO_BITMAP_A'', 0x2000),
     (''IO_BITMAP_A_HIGH'', 0x2001),
     (''IO_BITMAP_B'', 0x2002),
     (''IO_BITMAP_B_HIGH'', 0x2003),
     (''MSR_BITMAP'', 0x2004),
     (''MSR_BITMAP_HIGH'', 0x2005),
     (''VM_EXIT_MSR_STORE_ADDR'', 0x2006),
     (''VM_EXIT_MSR_STORE_ADDR_HIGH'', 0x2007),
     (''VM_EXIT_MSR_LOAD_ADDR'', 0x2008),
     (''VM_EXIT_MSR_LOAD_ADDR_HIGH'', 0x2009),
     (''VM_ENTRY_MSR_LOAD_ADDR'', 0x200a),
     (''VM_ENTRY_MSR_LOAD_ADDR_HIGH'', 0x200b),
     (''TSC_OFFSET'', 0x2010),
     (''TSC_OFFSET_HIGH'', 0x2011),
     (''VIRTUAL_APIC_PAGE_ADDR'', 0x2012),
     (''VIRTUAL_APIC_PAGE_ADDR_HIGH'', 0x2013),
     (''APIC_ACCESS_ADDR'', 0x2014),
     (''APIC_ACCESS_ADDR_HIGH'', 0x2015),
     (''EPT_POINTER'', 0x201a),
     (''EPT_POINTER_HIGH'', 0x201b),
     (''GUEST_PHYSICAL_ADDRESS'', 0x2400),
     (''GUEST_PHYSICAL_ADDRESS_HIGH'', 0x2401),
     (''VMCS_LINK_POINTER'', 0x2800),
     (''VMCS_LINK_POINTER_HIGH'', 0x2801),
     (''GUEST_IA32_DEBUGCTL'', 0x2802),
     (''GUEST_IA32_DEBUGCTL_HIGH'', 0x2803),
     (''GUEST_PAT'', 0x2804),
     (''GUEST_PAT_HIGH'', 0x2805),
     (''GUEST_PDPTR0'', 0x280a),
     (''GUEST_PDPTR0_HIGH'', 0x280b),
     (''GUEST_PDPTR1'', 0x280c),
     (''GUEST_PDPTR1_HIGH'', 0x280d),
     (''GUEST_PDPTR2'', 0x280e),
     (''GUEST_PDPTR2_HIGH'', 0x280f),
     (''GUEST_PDPTR3'', 0x2810),
     (''GUEST_PDPTR3_HIGH'', 0x2811),
     (''HOST_PAT'', 0x2c00),
     (''HOST_PAT_HIGH'', 0x2c01),
     (''PIN_BASED_VM_EXEC_CONTROL'', 0x4000),
     (''CPU_BASED_VM_EXEC_CONTROL'', 0x4002),
     (''EXCEPTION_BITMAP'', 0x4004),
     (''PAGE_FAULT_ERROR_CODE_MASK'', 0x4006),
     (''PAGE_FAULT_ERROR_CODE_MATCH'', 0x4008),
     (''CR3_TARGET_COUNT'', 0x400a),
     (''VM_EXIT_CONTROLS'', 0x400c),
     (''VM_EXIT_MSR_STORE_COUNT'', 0x400e),
     (''VM_EXIT_MSR_LOAD_COUNT'', 0x4010),
     (''VM_ENTRY_CONTROLS'', 0x4012),
     (''VM_ENTRY_MSR_LOAD_COUNT'', 0x4014),
     (''VM_ENTRY_INTR_INFO'', 0x4016),
     (''VM_ENTRY_EXCEPTION_ERROR_CODE'', 0x4018),
     (''VM_ENTRY_INSTRUCTION_LEN'', 0x401a),
     (''TPR_THRESHOLD'', 0x401c),
     (''SECONDARY_VM_EXEC_CONTROL'', 0x401e),
     (''PLE_GAP'', 0x4020),
     (''PLE_WINDOW'', 0x4022),
     (''VM_INSTRUCTION_ERROR'', 0x4400),
     (''VM_EXIT_REASON'', 0x4402),
     (''VM_EXIT_INTR_INFO'', 0x4404),
     (''VM_EXIT_INTR_ERROR_CODE'', 0x4406),
     (''IDT_VECTORING_INFO'', 0x4408),
     (''IDT_VECTORING_ERROR_CODE'', 0x440a),
     (''VM_EXIT_INSTRUCTION_LEN'', 0x440c),
     (''VMX_INSTRUCTION_INFO'', 0x440e),
     (''GUEST_ES_LIMIT'', 0x4800),
     (''GUEST_CS_LIMIT'', 0x4802),
     (''GUEST_SS_LIMIT'', 0x4804),
     (''GUEST_DS_LIMIT'', 0x4806),
     (''GUEST_FS_LIMIT'', 0x4808),
     (''GUEST_GS_LIMIT'', 0x480a),
     (''GUEST_LDTR_LIMIT'', 0x480c),
     (''GUEST_TR_LIMIT'', 0x480e),
     (''GUEST_GDTR_LIMIT'', 0x4810),
     (''GUEST_IDTR_LIMIT'', 0x4812),
     (''GUEST_ES_AR_BYTES'', 0x4814),
     (''GUEST_CS_AR_BYTES'', 0x4816),
     (''GUEST_SS_AR_BYTES'', 0x4818),
     (''GUEST_DS_AR_BYTES'', 0x481a),
     (''GUEST_FS_AR_BYTES'', 0x481c),
     (''GUEST_GS_AR_BYTES'', 0x481e),
     (''GUEST_LDTR_AR_BYTES'', 0x4820),
     (''GUEST_TR_AR_BYTES'', 0x4822),
     (''GUEST_INTERRUPTIBILITY_INFO'', 0x4824),
     (''GUEST_ACTIVITY_STATE'', 0x4826),
     (''GUEST_SYSENTER_CS'', 0x482a),
     (''HOST_SYSENTER_CS'', 0x4c00),
     (''CR0_GUEST_HOST_MASK'', 0x6000),
     (''CR4_GUEST_HOST_MASK'', 0x6002),
     (''CR0_READ_SHADOW'', 0x6004),
     (''CR4_READ_SHADOW'', 0x6006),
     (''CR3_TARGET_VALUE0'', 0x6008),
     (''CR3_TARGET_VALUE1'', 0x600a),
     (''CR3_TARGET_VALUE2'', 0x600c),
     (''CR3_TARGET_VALUE3'', 0x600e),
     (''EXIT_QUALIFICATION'', 0x6400),
     (''GUEST_LINEAR_ADDRESS'', 0x640a),
     (''GUEST_CR0'', 0x6800),
     (''GUEST_CR3'', 0x6802),
     (''GUEST_CR4'', 0x6804),
     (''GUEST_ES_BASE'', 0x6806),
     (''GUEST_CS_BASE'', 0x6808),
     (''GUEST_SS_BASE'', 0x680a),
     (''GUEST_DS_BASE'', 0x680c),
     (''GUEST_FS_BASE'', 0x680e),
     (''GUEST_GS_BASE'', 0x6810),
     (''GUEST_LDTR_BASE'', 0x6812),
     (''GUEST_TR_BASE'', 0x6814),
     (''GUEST_GDTR_BASE'', 0x6816),
     (''GUEST_IDTR_BASE'', 0x6818),
     (''GUEST_DR7'', 0x681a),
     (''GUEST_RSP'', 0x681c),
     (''GUEST_RIP'', 0x681e),
     (''GUEST_RFLAGS'', 0x6820),
     (''GUEST_PENDING_DBG_EXCEPTIONS'', 0x6822),
     (''GUEST_SYSENTER_ESP'', 0x6824),
     (''GUEST_SYSENTER_EIP'', 0x6826),
     (''HOST_CR0'', 0x6c00),
     (''HOST_CR3'', 0x6c02),
     (''HOST_CR4'', 0x6c04),
     (''HOST_FS_BASE'', 0x6c06),
     (''HOST_GS_BASE'', 0x6c08),
     (''HOST_TR_BASE'', 0x6c0a),
     (''HOST_GDTR_BASE'', 0x6c0c),
     (''HOST_IDTR_BASE'', 0x6c0e),
     (''HOST_SYSENTER_ESP'', 0x6c10),
     (''HOST_SYSENTER_EIP'', 0x6c12),
     (''HOST_RSP'', 0x6c14),
     (''HOST_RIP'', 0x6c16)]"

definition VIRTUAL_PROCESSOR_ID :: u64 where "VIRTUAL_PROCESSOR_ID = 0x0"
definition GUEST_ES_SELECTOR :: u64 where "GUEST_ES_SELECTOR = 0x800"
definition GUEST_CS_SELECTOR :: u64 where "GUEST_CS_SELECTOR = 0x802"
definition GUEST_SS_SELECTOR :: u64 where "GUEST_SS_SELECTOR = 0x804"
definition GUEST_DS_SELECTOR :: u64 where "GUEST_DS_SELECTOR = 0x806"
definition GUEST_FS_SELECTOR :: u64 where "GUEST_FS_SELECTOR = 0x808"
definition GUEST_GS_SELECTOR :: u64 where "GUEST_GS_SELECTOR = 0x80a"
definition GUEST_LDTR_SELECTOR :: u64 where "GUEST_LDTR_SELECTOR = 0x80c"
definition GUEST_TR_SELECTOR :: u64 where "GUEST_TR_SELECTOR = 0x80e"
definition HOST_ES_SELECTOR :: u64 where "HOST_ES_SELECTOR = 0xc00"
definition HOST_CS_SELECTOR :: u64 where "HOST_CS_SELECTOR = 0xc02"
definition HOST_SS_SELECTOR :: u64 where "HOST_SS_SELECTOR = 0xc04"
definition HOST_DS_SELECTOR :: u64 where "HOST_DS_SELECTOR = 0xc06"
definition HOST_FS_SELECTOR :: u64 where "HOST_FS_SELECTOR = 0xc08"
definition HOST_GS_SELECTOR :: u64 where "HOST_GS_SELECTOR = 0xc0a"
definition HOST_TR_SELECTOR :: u64 where "HOST_TR_SELECTOR = 0xc0c"
definition IO_BITMAP_A :: u64 where "IO_BITMAP_A = 0x2000"
definition IO_BITMAP_B :: u64 where "IO_BITMAP_B = 0x2002"
definition MSR_BITMAP :: u64 where "MSR_BITMAP = 0x2004"
definition VM_EXIT_MSR_STORE_ADDR :: u64 where "VM_EXIT_MSR_STORE_ADDR = 0x2006"
definition VM_EXIT_MSR_LOAD_ADDR :: u64 where "VM_EXIT_MSR_LOAD_ADDR = 0x2008"
definition VM_ENTRY_MSR_LOAD_ADDR :: u64 where "VM_ENTRY_MSR_LOAD_ADDR = 0x200a"
definition TSC_OFFSET :: u64 where "TSC_OFFSET = 0x2010"
definition TSC_OFFSET_HIGH :: u64 where "TSC_OFFSET_HIGH = 0x2011"
definition EPT_POINTER :: u64 where "EPT_POINTER = 0x201a"
definition EPT_POINTER_HIGH :: u64 where "EPT_POINTER_HIGH = 0x201b"
definition VMCS_LINK_POINTER :: u64 where "VMCS_LINK_POINTER = 0x2800"
definition GUEST_IA32_DEBUGCTL :: u64 where "GUEST_IA32_DEBUGCTL = 0x2802"
definition GUEST_IA32_DEBUGCTL_HIGH :: u64 where "GUEST_IA32_DEBUGCTL_HIGH = 0x2803"
definition GUEST_PAT :: u64 where "GUEST_PAT = 0x2804"
definition GUEST_PAT_HIGH :: u64 where "GUEST_PAT_HIGH = 0x2805"
definition HOST_PAT :: u64 where "HOST_PAT = 0x2c00"
definition HOST_PAT_HIGH :: u64 where "HOST_PAT_HIGH = 0x2c01"
definition PIN_BASED_VM_EXEC_CONTROL :: u64 where "PIN_BASED_VM_EXEC_CONTROL = 0x4000"
definition CPU_BASED_VM_EXEC_CONTROL :: u64 where "CPU_BASED_VM_EXEC_CONTROL = 0x4002"
definition EXCEPTION_BITMAP :: u64 where "EXCEPTION_BITMAP = 0x4004"
definition PAGE_FAULT_ERROR_CODE_MASK :: u64 where "PAGE_FAULT_ERROR_CODE_MASK = 0x4006"
definition PAGE_FAULT_ERROR_CODE_MATCH :: u64 where "PAGE_FAULT_ERROR_CODE_MATCH = 0x4008"
definition CR3_TARGET_COUNT :: u64 where "CR3_TARGET_COUNT = 0x400a"
definition VM_EXIT_CONTROLS :: u64 where "VM_EXIT_CONTROLS = 0x400c"
definition VM_EXIT_MSR_STORE_COUNT :: u64 where "VM_EXIT_MSR_STORE_COUNT = 0x400e"
definition VM_EXIT_MSR_LOAD_COUNT :: u64 where "VM_EXIT_MSR_LOAD_COUNT = 0x4010"
definition VM_ENTRY_CONTROLS :: u64 where "VM_ENTRY_CONTROLS = 0x4012"
definition VM_ENTRY_MSR_LOAD_COUNT :: u64 where "VM_ENTRY_MSR_LOAD_COUNT = 0x4014"
definition VM_ENTRY_INTR_INFO :: u64 where "VM_ENTRY_INTR_INFO = 0x4016"
definition VM_ENTRY_EXCEPTION_ERROR_CODE :: u64 where "VM_ENTRY_EXCEPTION_ERROR_CODE = 0x4018"
definition VM_ENTRY_INSTRUCTION_LEN :: u64 where "VM_ENTRY_INSTRUCTION_LEN = 0x401a"
definition TPR_THRESHOLD :: u64 where "TPR_THRESHOLD = 0x401c"
definition SECONDARY_VM_EXEC_CONTROL :: u64 where "SECONDARY_VM_EXEC_CONTROL = 0x401e"
definition VM_INSTRUCTION_ERROR :: u64 where "VM_INSTRUCTION_ERROR = 0x4400"
definition VM_EXIT_REASON :: u64 where "VM_EXIT_REASON = 0x4402"
definition VM_EXIT_INTR_INFO :: u64 where "VM_EXIT_INTR_INFO = 0x4404"
definition VM_EXIT_INTR_ERROR_CODE :: u64 where "VM_EXIT_INTR_ERROR_CODE = 0x4406"
definition IDT_VECTORING_INFO :: u64 where "IDT_VECTORING_INFO = 0x4408"
definition IDT_VECTORING_ERROR_CODE :: u64 where "IDT_VECTORING_ERROR_CODE = 0x440a"
definition GUEST_ES_LIMIT :: u64 where "GUEST_ES_LIMIT = 0x4800"
definition GUEST_CS_LIMIT :: u64 where "GUEST_CS_LIMIT = 0x4802"
definition GUEST_SS_LIMIT :: u64 where "GUEST_SS_LIMIT = 0x4804"
definition GUEST_DS_LIMIT :: u64 where "GUEST_DS_LIMIT = 0x4806"
definition GUEST_FS_LIMIT :: u64 where "GUEST_FS_LIMIT = 0x4808"
definition GUEST_GS_LIMIT :: u64 where "GUEST_GS_LIMIT = 0x480a"
definition GUEST_LDTR_LIMIT :: u64 where "GUEST_LDTR_LIMIT = 0x480c"
definition GUEST_TR_LIMIT :: u64 where "GUEST_TR_LIMIT = 0x480e"
definition GUEST_GDTR_LIMIT :: u64 where "GUEST_GDTR_LIMIT = 0x4810"
definition GUEST_IDTR_LIMIT :: u64 where "GUEST_IDTR_LIMIT = 0x4812"
definition GUEST_ES_AR_BYTES :: u64 where "GUEST_ES_AR_BYTES = 0x4814"
definition GUEST_CS_AR_BYTES :: u64 where "GUEST_CS_AR_BYTES = 0x4816"
definition GUEST_SS_AR_BYTES :: u64 where "GUEST_SS_AR_BYTES = 0x4818"
definition GUEST_DS_AR_BYTES :: u64 where "GUEST_DS_AR_BYTES = 0x481a"
definition GUEST_FS_AR_BYTES :: u64 where "GUEST_FS_AR_BYTES = 0x481c"
definition GUEST_GS_AR_BYTES :: u64 where "GUEST_GS_AR_BYTES = 0x481e"
definition GUEST_LDTR_AR_BYTES :: u64 where "GUEST_LDTR_AR_BYTES = 0x4820"
definition GUEST_TR_AR_BYTES :: u64 where "GUEST_TR_AR_BYTES = 0x4822"
definition GUEST_INTERRUPTIBILITY_INFO :: u64 where "GUEST_INTERRUPTIBILITY_INFO = 0x4824"
definition GUEST_ACTIVITY_STATE :: u64 where "GUEST_ACTIVITY_STATE = 0x4826"
definition GUEST_SYSENTER_CS :: u64 where "GUEST_SYSENTER_CS = 0x482a"
definition HOST_SYSENTER_CS :: u64 where "HOST_SYSENTER_CS = 0x4c00"
definition CR0_GUEST_HOST_MASK :: u64 where "CR0_GUEST_HOST_MASK = 0x6000"
definition CR4_GUEST_HOST_MASK :: u64 where "CR4_GUEST_HOST_MASK = 0x6002"
definition CR0_READ_SHADOW :: u64 where "CR0_READ_SHADOW = 0x6004"
definition CR4_READ_SHADOW :: u64 where "CR4_READ_SHADOW = 0x6006"
definition CR3_TARGET_VALUE0 :: u64 where "CR3_TARGET_VALUE0 = 0x6008"
definition CR3_TARGET_VALUE1 :: u64 where "CR3_TARGET_VALUE1 = 0x600a"
definition CR3_TARGET_VALUE2 :: u64 where "CR3_TARGET_VALUE2 = 0x600c"
definition CR3_TARGET_VALUE3 :: u64 where "CR3_TARGET_VALUE3 = 0x600e"
definition EXIT_QUALIFICATION :: u64 where "EXIT_QUALIFICATION = 0x6400"
definition GUEST_CR0 :: u64 where "GUEST_CR0 = 0x6800"
definition GUEST_CR3 :: u64 where "GUEST_CR3 = 0x6802"
definition GUEST_CR4 :: u64 where "GUEST_CR4 = 0x6804"
definition GUEST_ES_BASE :: u64 where "GUEST_ES_BASE = 0x6806"
definition GUEST_CS_BASE :: u64 where "GUEST_CS_BASE = 0x6808"
definition GUEST_SS_BASE :: u64 where "GUEST_SS_BASE = 0x680a"
definition GUEST_DS_BASE :: u64 where "GUEST_DS_BASE = 0x680c"
definition GUEST_FS_BASE :: u64 where "GUEST_FS_BASE = 0x680e"
definition GUEST_GS_BASE :: u64 where "GUEST_GS_BASE = 0x6810"
definition GUEST_LDTR_BASE :: u64 where "GUEST_LDTR_BASE = 0x6812"
definition GUEST_TR_BASE :: u64 where "GUEST_TR_BASE = 0x6814"
definition GUEST_GDTR_BASE :: u64 where "GUEST_GDTR_BASE = 0x6816"
definition GUEST_IDTR_BASE :: u64 where "GUEST_IDTR_BASE = 0x6818"
definition GUEST_DR7 :: u64 where "GUEST_DR7 = 0x681a"
definition GUEST_RSP :: u64 where "GUEST_RSP = 0x681c"
definition GUEST_RIP :: u64 where "GUEST_RIP = 0x681e"
definition GUEST_RFLAGS :: u64 where "GUEST_RFLAGS = 0x6820"
definition GUEST_PENDING_DBG_EXCEPTIONS :: u64 where "GUEST_PENDING_DBG_EXCEPTIONS = 0x6822"
definition GUEST_SYSENTER_ESP :: u64 where "GUEST_SYSENTER_ESP = 0x6824"
definition GUEST_SYSENTER_EIP :: u64 where "GUEST_SYSENTER_EIP = 0x6826"
definition HOST_CR0 :: u64 where "HOST_CR0 = 0x6c00"
definition HOST_CR3 :: u64 where "HOST_CR3 = 0x6c02"
definition HOST_CR4 :: u64 where "HOST_CR4 = 0x6c04"
definition HOST_FS_BASE :: u64 where "HOST_FS_BASE = 0x6c06"
definition HOST_GS_BASE :: u64 where "HOST_GS_BASE = 0x6c08"
definition HOST_TR_BASE :: u64 where "HOST_TR_BASE = 0x6c0a"
definition HOST_GDTR_BASE :: u64 where "HOST_GDTR_BASE = 0x6c0c"
definition HOST_IDTR_BASE :: u64 where "HOST_IDTR_BASE = 0x6c0e"
definition HOST_SYSENTER_ESP :: u64 where "HOST_SYSENTER_ESP = 0x6c10"
definition HOST_SYSENTER_EIP :: u64 where "HOST_SYSENTER_EIP = 0x6c12"
definition HOST_RSP :: u64 where "HOST_RSP = 0x6c14"
definition HOST_RIP :: u64 where "HOST_RIP = 0x6c16"

lemmas field_defs = VIRTUAL_PROCESSOR_ID_def GUEST_ES_SELECTOR_def GUEST_CS_SELECTOR_def GUEST_SS_SELECTOR_def
  GUEST_DS_SELECTOR_def GUEST_FS_SELECTOR_def GUEST_GS_SELECTOR_def GUEST_LDTR_SELECTOR_def
  GUEST_TR_SELECTOR_def HOST_ES_SELECTOR_def HOST_CS_SELECTOR_def HOST_SS_SELECTOR_def
  HOST_DS_SELECTOR_def HOST_FS_SELECTOR_def HOST_GS_SELECTOR_def HOST_TR_SELECTOR_def
  IO_BITMAP_A_def IO_BITMAP_B_def MSR_BITMAP_def VM_EXIT_MSR_STORE_ADDR_def
  VM_EXIT_MSR_LOAD_ADDR_def VM_ENTRY_MSR_LOAD_ADDR_def TSC_OFFSET_def TSC_OFFSET_HIGH_def
  EPT_POINTER_def EPT_POINTER_HIGH_def VMCS_LINK_POINTER_def GUEST_IA32_DEBUGCTL_def
  GUEST_IA32_DEBUGCTL_HIGH_def GUEST_PAT_def GUEST_PAT_HIGH_def HOST_PAT_def
  HOST_PAT_HIGH_def PIN_BASED_VM_EXEC_CONTROL_def CPU_BASED_VM_EXEC_CONTROL_def EXCEPTION_BITMAP_def
  PAGE_FAULT_ERROR_CODE_MASK_def PAGE_FAULT_ERROR_CODE_MATCH_def CR3_TARGET_COUNT_def VM_EXIT_CONTROLS_def
  VM_EXIT_MSR_STORE_COUNT_def VM_EXIT_MSR_LOAD_COUNT_def VM_ENTRY_CONTROLS_def VM_ENTRY_MSR_LOAD_COUNT_def
  VM_ENTRY_INTR_INFO_def VM_ENTRY_EXCEPTION_ERROR_CODE_def VM_ENTRY_INSTRUCTION_LEN_def TPR_THRESHOLD_def
  SECONDARY_VM_EXEC_CONTROL_def VM_INSTRUCTION_ERROR_def VM_EXIT_REASON_def VM_EXIT_INTR_INFO_def
  VM_EXIT_INTR_ERROR_CODE_def IDT_VECTORING_INFO_def IDT_VECTORING_ERROR_CODE_def GUEST_ES_LIMIT_def
  GUEST_CS_LIMIT_def GUEST_SS_LIMIT_def GUEST_DS_LIMIT_def GUEST_FS_LIMIT_def
  GUEST_GS_LIMIT_def GUEST_LDTR_LIMIT_def GUEST_TR_LIMIT_def GUEST_GDTR_LIMIT_def
  GUEST_IDTR_LIMIT_def GUEST_ES_AR_BYTES_def GUEST_CS_AR_BYTES_def GUEST_SS_AR_BYTES_def
  GUEST_DS_AR_BYTES_def GUEST_FS_AR_BYTES_def GUEST_GS_AR_BYTES_def GUEST_LDTR_AR_BYTES_def
  GUEST_TR_AR_BYTES_def GUEST_INTERRUPTIBILITY_INFO_def GUEST_ACTIVITY_STATE_def GUEST_SYSENTER_CS_def
  HOST_SYSENTER_CS_def CR0_GUEST_HOST_MASK_def CR4_GUEST_HOST_MASK_def CR0_READ_SHADOW_def
  CR4_READ_SHADOW_def CR3_TARGET_VALUE0_def CR3_TARGET_VALUE1_def CR3_TARGET_VALUE2_def
  CR3_TARGET_VALUE3_def EXIT_QUALIFICATION_def GUEST_CR0_def GUEST_CR3_def
  GUEST_CR4_def GUEST_ES_BASE_def GUEST_CS_BASE_def GUEST_SS_BASE_def
  GUEST_DS_BASE_def GUEST_FS_BASE_def GUEST_GS_BASE_def GUEST_LDTR_BASE_def
  GUEST_TR_BASE_def GUEST_GDTR_BASE_def GUEST_IDTR_BASE_def GUEST_DR7_def
  GUEST_RSP_def GUEST_RIP_def GUEST_RFLAGS_def GUEST_PENDING_DBG_EXCEPTIONS_def
  GUEST_SYSENTER_ESP_def GUEST_SYSENTER_EIP_def HOST_CR0_def HOST_CR3_def
  HOST_CR4_def HOST_FS_BASE_def HOST_GS_BASE_def HOST_TR_BASE_def
  HOST_GDTR_BASE_def HOST_IDTR_BASE_def HOST_SYSENTER_ESP_def HOST_SYSENTER_EIP_def
  HOST_RSP_def HOST_RIP_def

definition CPU_BASED_ACTIVATE_IO_BITMAP :: u32 where "CPU_BASED_ACTIVATE_IO_BITMAP = 0x02000000"
definition CPU_BASED_ACTIVATE_MSR_BITMAP :: u32 where "CPU_BASED_ACTIVATE_MSR_BITMAP = 0x10000000"
definition CPU_BASED_ACTIVATE_SECONDARY_CONTROLS :: u32 where "CPU_BASED_ACTIVATE_SECONDARY_CONTROLS = 0x80000000"
definition VM_EXIT_IA32E_MODE :: u32 where "VM_EXIT_IA32E_MODE = 0x00000200"
definition VM_EXIT_ACK_INTR_ON_EXIT :: u32 where "VM_EXIT_ACK_INTR_ON_EXIT = 0x00008000"
definition VM_EXIT_SAVE_GUEST_PAT :: u32 where "VM_EXIT_SAVE_GUEST_PAT = 0x00040000"
definition VM_EXIT_LOAD_HOST_PAT :: u32 where "VM_EXIT_LOAD_HOST_PAT = 0x00080000"
definition VM_ENTRY_LOAD_GUEST_PAT :: u32 where "VM_ENTRY_LOAD_GUEST_PAT = 0x00004000"
definition SECONDARY_EXEC_ENABLE_EPT :: u32 where "SECONDARY_EXEC_ENABLE_EPT = 0x00000002"
definition SECONDARY_EXEC_ENABLE_VPID :: u32 where "SECONDARY_EXEC_ENABLE_VPID = 0x00000020"
definition IA32_FEATURE_CONTROL_MSR :: u32 where "IA32_FEATURE_CONTROL_MSR = 0x3a"
definition IA32_FEATURE_CONTROL_MSR_LOCK :: u32 where "IA32_FEATURE_CONTROL_MSR_LOCK = 0x0001"
definition IA32_FEATURE_CONTROL_MSR_ENABLE_VMXON_OUTSIDE_SMX :: u32 where
  "IA32_FEATURE_CONTROL_MSR_ENABLE_VMXON_OUTSIDE_SMX = 0x0004"
definition MSR_IA32_VMX_BASIC :: u32 where "MSR_IA32_VMX_BASIC = 0x480"
definition MSR_IA32_VMX_PINBASED_CTLS :: u32 where "MSR_IA32_VMX_PINBASED_CTLS = 0x481"
definition MSR_IA32_VMX_PROCBASED_CTLS :: u32 where "MSR_IA32_VMX_PROCBASED_CTLS = 0x482"
definition MSR_IA32_VMX_EXIT_CTLS :: u32 where "MSR_IA32_VMX_EXIT_CTLS = 0x483"
definition MSR_IA32_VMX_ENTRY_CTLS :: u32 where "MSR_IA32_VMX_ENTRY_CTLS = 0x484"
definition MSR_IA32_VMX_CR0_FIXED0 :: u32 where "MSR_IA32_VMX_CR0_FIXED0 = 0x486"
definition MSR_IA32_VMX_CR0_FIXED1 :: u32 where "MSR_IA32_VMX_CR0_FIXED1 = 0x487"
definition MSR_IA32_VMX_PROCBASED_CTLS2 :: u32 where "MSR_IA32_VMX_PROCBASED_CTLS2 = 0x48b"
definition MSR_IA32_VMX_EPT_VPID_CAP :: u32 where "MSR_IA32_VMX_EPT_VPID_CAP = 0x48c"
definition MSR_IA32_VMX_TRUE_PINBASED_CTLS :: u32 where "MSR_IA32_VMX_TRUE_PINBASED_CTLS = 0x48d"
definition MSR_IA32_VMX_TRUE_PROCBASED_CTLS :: u32 where "MSR_IA32_VMX_TRUE_PROCBASED_CTLS = 0x48e"
definition MSR_IA32_VMX_TRUE_EXIT_CTLS :: u32 where "MSR_IA32_VMX_TRUE_EXIT_CTLS = 0x48f"
definition MSR_IA32_VMX_TRUE_ENTRY_CTLS :: u32 where "MSR_IA32_VMX_TRUE_ENTRY_CTLS = 0x490"
definition MSR_IA32_CR_PAT :: u32 where "MSR_IA32_CR_PAT = 0x277"
definition MSR_IA32_CR_PAT_RESET :: u64 where "MSR_IA32_CR_PAT_RESET = 0x0007040600070406"

definition X86_CR0_TS :: u64 where "X86_CR0_TS = 0x8"
definition X86_CR0_ET :: u64 where "X86_CR0_ET = 0x10"
definition X86_CR4_VMXE :: u64 where "X86_CR4_VMXE = 0x2000"
definition X86_CR4_OSXSAVE :: u64 where "X86_CR4_OSXSAVE = 0x40000"
definition X86_FEATURE_VMX :: nat where "X86_FEATURE_VMX = 4 * 32 + 5"
definition VMM_DS64 :: u64 where "VMM_DS64 = 56"
definition VMM_CS64 :: u64 where "VMM_CS64 = 40"

subsection \<open>State\<close>

record intel_cpu =
  hw_msr :: "u32 \<Rightarrow> u64"
  hw_cr0 :: u64
  hw_cr4 :: u64
  hw_gdt :: u64
  hw_idt :: u64
  hw_entry :: u64
  hw_rsp :: u64
  hw_address_width :: nat
  hw_vmxon :: "u64 \<Rightarrow> u32"
  hw_has_field :: "u64 \<Rightarrow> bool"

record vmx_globals =
  vmx_basic_msr_low :: u32
  vmx_basic_msr_high :: u32
  vmx_pin_based_exec_control :: u32
  vmx_pin_based_exec_default1 :: u32
  vmx_pin_based_exec_default0 :: u32
  vmx_cpu_based_exec_control :: u32
  vmx_cpu_based_exec_default1 :: u32
  vmx_cpu_based_exec_default0 :: u32
  vmx_secondary_exec_control :: u32
  vmx_secondary_exec_default1 :: u32
  vmx_secondary_exec_default0 :: u32
  vmx_vmexit_control :: u32
  vmx_vmexit_default1 :: u32
  vmx_vmexit_default0 :: u32
  vmx_vmentry_control :: u32
  vmx_vmentry_default1 :: u32
  vmx_vmentry_default0 :: u32
  vmx_ept_vpid_cap :: u64
  cpu_has_vmx_ins_outs_instr_info :: u8
  vmcs_revision_id :: u32
  vmx_ept_control :: u64
  vmx_on_region :: u64
  vmxon_pointer :: "u64 option"
  current_vmcs :: "u64 option"
  vmcs_fields :: "u64 \<Rightarrow> u64 \<Rightarrow> u64"

definition rdmsrl :: "(u32 \<Rightarrow> u64) \<Rightarrow> u32 \<Rightarrow> u64" where
  "rdmsrl r msr = (let (low, high) = rdmsr r msr in ucast low OR push_bit 32 (ucast high))"

text \<open>\<open>__vmpclear\<close> and \<open>__vmptrld\<close>: the address must be that of a page, within the processor's width, and not
  the one VMXON was given; VMPTRLD also compares the first word there with the revision identifier.  The
  instructions are undefined outside VMX operation.\<close>

definition vmcs_address :: "intel_cpu \<Rightarrow> vmx_globals \<Rightarrow> u64 \<Rightarrow> bool" where
  "vmcs_address hw g a \<longleftrightarrow>
     vmxon_pointer g \<noteq> None \<and> vmxon_pointer g \<noteq> Some a \<and> take_bit 12 a = 0 \<and> unat a < 2 ^ hw_address_width hw"

definition vmpclear :: "intel_cpu \<Rightarrow> u64 \<Rightarrow> vmx_globals \<Rightarrow> vmx_globals res" where
  "vmpclear hw a g =
     (if vmcs_address hw g a then Inr (if current_vmcs g = Some a then g\<lparr>current_vmcs := None\<rparr> else g)
      else fatal_failure ''ud2'')"

definition vmptrld :: "intel_cpu \<Rightarrow> mem \<Rightarrow> u64 \<Rightarrow> vmx_globals \<Rightarrow> vmx_globals res" where
  "vmptrld hw m a g =
     (if vmcs_address hw g a \<and> load32 m a = take_bit 31 (ucast (hw_msr hw MSR_IA32_VMX_BASIC))
      then Inr (g\<lparr>current_vmcs := Some a\<rparr>)
      else fatal_failure ''ud2'')"

definition vmwrite :: "intel_cpu \<Rightarrow> u64 \<Rightarrow> u64 \<Rightarrow> vmx_globals \<Rightarrow> vmx_globals res" where
  "vmwrite hw field val g =
     (case current_vmcs g of
        Some p \<Rightarrow>
          if hw_has_field hw field
          then Inr (g\<lparr>vmcs_fields := (vmcs_fields g)(p := (vmcs_fields g p)(field := val))\<rparr>)
          else fatal_failure ''ud2''
      | None \<Rightarrow> fatal_failure ''ud2'')"

definition vmread :: "intel_cpu \<Rightarrow> u64 \<Rightarrow> vmx_globals \<Rightarrow> u64 res" where
  "vmread hw field g =
     (case current_vmcs g of
        Some p \<Rightarrow> if hw_has_field hw field then Inr (vmcs_fields g p field) else fatal_failure ''ud2''
      | None \<Rightarrow> fatal_failure ''ud2'')"

text \<open>A sequence of \<open>__vmwrite\<close> calls.\<close>

primrec vmwrites :: "intel_cpu \<Rightarrow> (u64 \<times> u64) list \<Rightarrow> vmx_globals \<Rightarrow> vmx_globals res" where
  "vmwrites hw [] g = Inr g"
| "vmwrites hw (w # ws) g = bindr (vmwrite hw (fst w) (snd w) g) (vmwrites hw ws)"

subsection \<open>Detection\<close>

definition vmx_detect_capability :: "intel_cpu \<Rightarrow> vmx_globals \<Rightarrow> vmx_globals" where
  "vmx_detect_capability hw g =
     (let (low, high) = rdmsr (hw_msr hw) MSR_IA32_VMX_BASIC;
          g = g\<lparr>vmx_basic_msr_low := low, vmx_basic_msr_high := high, vmcs_revision_id := low\<rparr>;
          old = \<not> ctrue (high AND push_bit 23 1);
          (p1, p0) = rdmsr (hw_msr hw) (if old then MSR_IA32_VMX_PINBASED_CTLS else MSR_IA32_VMX_TRUE_PINBASED_CTLS);
          (c1, c0) = rdmsr (hw_msr hw) (if old then MSR_IA32_VMX_PROCBASED_CTLS else MSR_IA32_VMX_TRUE_PROCBASED_CTLS);
          (x1, x0) = rdmsr (hw_msr hw) (if old then MSR_IA32_VMX_EXIT_CTLS else MSR_IA32_VMX_TRUE_EXIT_CTLS);
          (e1, e0) = rdmsr (hw_msr hw) (if old then MSR_IA32_VMX_ENTRY_CTLS else MSR_IA32_VMX_TRUE_ENTRY_CTLS);
          g = g\<lparr>vmx_pin_based_exec_default1 := p1, vmx_pin_based_exec_default0 := p0,
                vmx_cpu_based_exec_default1 := c1, vmx_cpu_based_exec_default0 := c0,
                vmx_vmexit_default1 := x1, vmx_vmexit_default0 := x0,
                vmx_vmentry_default1 := e1, vmx_vmentry_default0 := e0\<rparr>;
          g = (if ctrue (c1 AND CPU_BASED_ACTIVATE_SECONDARY_CONTROLS) then
                 (let (s1, s0) = rdmsr (hw_msr hw) MSR_IA32_VMX_PROCBASED_CTLS2;
                      g = g\<lparr>vmx_secondary_exec_default1 := s1, vmx_secondary_exec_default0 := s0\<rparr>
                  in if ctrue (s1 AND (SECONDARY_EXEC_ENABLE_EPT OR SECONDARY_EXEC_ENABLE_VPID))
                     then g\<lparr>vmx_ept_vpid_cap := rdmsrl (hw_msr hw) MSR_IA32_VMX_EPT_VPID_CAP\<rparr> else g)
               else g)
      in if vmx_pin_based_exec_control g = 0 then
           g\<lparr>vmcs_revision_id := vmx_basic_msr_low g,
             vmx_pin_based_exec_control := vmx_pin_based_exec_default1 g,
             vmx_cpu_based_exec_control := vmx_cpu_based_exec_default1 g,
             vmx_secondary_exec_control := vmx_secondary_exec_default1 g,
             vmx_vmexit_control := vmx_vmexit_default1 g,
             vmx_vmentry_control := vmx_vmentry_default1 g,
             cpu_has_vmx_ins_outs_instr_info := of_bool (ctrue (vmx_basic_msr_high g AND push_bit 22 1))\<rparr>
         else g)"

subsection \<open>Regions\<close>

definition alloc_vmcs :: "vmx_globals \<Rightarrow> mem \<Rightarrow> naive_allocator \<Rightarrow> (u64 \<times> mem) run" where
  "alloc_vmcs g m host =
     bindo (alloc_host_pages m host 1 1) (\<lambda>(pfn, m).
       let p = push_bit PAGE_SHIFT pfn;
           m = memset m p 0 PAGE_SIZE
       in Some (Inr (p, if p \<noteq> 0 then store32 m p (vmcs_revision_id g) else m)))"

definition create_vmcs :: "vmx_globals \<Rightarrow> naive_allocator \<Rightarrow> machine \<Rightarrow> (u64 \<times> machine) run" where
  "create_vmcs g host s =
     (let high = vmx_basic_msr_high g
      in if ucast (high AND 0x1fff) > PAGE_SIZE then Some (Inr (0, say (line ''VMCS size larger than 4K'') [] s))
         else if ctrue (high AND push_bit 16 1) then Some (Inr (0, say (line ''VMX_BASIC_MSR[48] = 1'') [] s))
         else if drop_bit 18 high AND 15 \<noteq> 6
         then Some (Inr (0, say (line ''Write-back memory required for VMCS'') [] s))
         else bindo (alloc_vmcs g (ram s) host) (\<lambda>(p, m). Some (Inr (p, s\<lparr>ram := m\<rparr>))))"

subsection \<open>Controls, host and guest state\<close>

definition vmcs_init_host_env :: "intel_cpu \<Rightarrow> vmx_globals \<Rightarrow> vmx_globals res" where
  "vmcs_init_host_env hw = vmwrites hw [
     (HOST_SS_SELECTOR, VMM_DS64), (HOST_DS_SELECTOR, VMM_DS64), (HOST_ES_SELECTOR, VMM_DS64),
     (HOST_FS_SELECTOR, VMM_DS64), (HOST_GS_SELECTOR, VMM_DS64), (HOST_FS_BASE, 0), (HOST_GS_BASE, 0),
     (HOST_CR0, hw_cr0 hw OR X86_CR0_TS), (HOST_CR4, hw_cr4 hw OR X86_CR4_OSXSAVE),
     (HOST_CS_SELECTOR, VMM_CS64), (HOST_RIP, hw_entry hw),
     (HOST_SYSENTER_CS, 0), (HOST_SYSENTER_EIP, 0), (HOST_SYSENTER_ESP, 0),
     (HOST_GDTR_BASE, hw_gdt hw), (HOST_IDTR_BASE, hw_idt hw), (HOST_TR_SELECTOR, VMM_DS64), (HOST_TR_BASE, 0)]"

text \<open>The assignments to the fields of \<open>vmx_ept_control\<close>.\<close>

definition ept_pointer :: "u64 \<Rightarrow> u64 \<Rightarrow> u64" where
  "ept_pointer e root = set_field (set_field (set_field (set_field e 0 3 6) 3 3 3) 6 6 0) 12 52 root"

definition vmx_set_control_params ::
    "intel_cpu \<Rightarrow> naive_allocator \<Rightarrow> vmx_globals \<times> machine \<Rightarrow> (vmx_globals \<times> machine) run" where
  "vmx_set_control_params hw host = (\<lambda>(g, s).
     bindo (Some (vmwrite hw PIN_BASED_VM_EXEC_CONTROL (ucast (vmx_pin_based_exec_control g)) g)) (\<lambda>g.
     let g = g\<lparr>vmx_cpu_based_exec_control := vmx_cpu_based_exec_control g OR CPU_BASED_ACTIVATE_SECONDARY_CONTROLS\<rparr>;
         g = g\<lparr>vmx_cpu_based_exec_control := vmx_cpu_based_exec_control g OR CPU_BASED_ACTIVATE_IO_BITMAP\<rparr>
     in bindo (create_intercept_table (ram s) host (push_bit 10 8)) (\<lambda>(io, m).
        let s = upd_vm (\<lambda>v. v\<lparr>io_intercept_table := io\<rparr>) (s\<lparr>ram := m\<rparr>)
        in bindo (Some (vmwrites hw [(IO_BITMAP_A, io), (IO_BITMAP_B, io + PAGE_SIZE)] g)) (\<lambda>g.
        let g = g\<lparr>vmx_cpu_based_exec_control := vmx_cpu_based_exec_control g OR CPU_BASED_ACTIVATE_MSR_BITMAP\<rparr>
        in bindo (create_intercept_table (ram s) host (push_bit 10 4)) (\<lambda>(tbl, m).
           let s = upd_vm (\<lambda>v. v\<lparr>msr_intercept_table := tbl\<rparr>) (s\<lparr>ram := m\<rparr>)
           in bindo (Some (vmwrites hw
                [(MSR_BITMAP, tbl), (CPU_BASED_VM_EXEC_CONTROL, ucast (vmx_cpu_based_exec_control g))] g)) (\<lambda>g.
           let g = g\<lparr>vmx_secondary_exec_control := vmx_secondary_exec_control g OR SECONDARY_EXEC_ENABLE_EPT,
                     vmx_ept_control := ept_pointer (vmx_ept_control g) (n_cr3 (vm s))\<rparr>
           in bindo (Some (vmwrite hw EPT_POINTER (vmx_ept_control g) g)) (\<lambda>g.
           let g = g\<lparr>vmx_secondary_exec_control := vmx_secondary_exec_control g OR SECONDARY_EXEC_ENABLE_VPID\<rparr>
           in bindo (Some (vmwrite hw VIRTUAL_PROCESSOR_ID 1 g)) (\<lambda>g.
           let g = g\<lparr>vmx_vmexit_control := vmx_vmexit_control g OR (VM_EXIT_IA32E_MODE OR VM_EXIT_ACK_INTR_ON_EXIT)\<rparr>;
               g = g\<lparr>vmx_vmexit_control := vmx_vmexit_control g OR (VM_EXIT_SAVE_GUEST_PAT OR VM_EXIT_LOAD_HOST_PAT)\<rparr>
           in bindo (Some (vmwrite hw VM_EXIT_CONTROLS (ucast (vmx_vmexit_control g)) g)) (\<lambda>g.
           let g = g\<lparr>vmx_vmentry_control := vmx_vmentry_control g OR VM_ENTRY_LOAD_GUEST_PAT\<rparr>
           in bindo (Some (vmwrite hw VM_ENTRY_CONTROLS (ucast (vmx_vmentry_control g)) g)) (\<lambda>g.
           bindo (Some (vmcs_init_host_env hw g)) (\<lambda>g. Some (Inr (g, s)))))))))))))"

definition vmx_save_host_state :: "intel_cpu \<Rightarrow> vmx_globals \<Rightarrow> vmx_globals res" where
  "vmx_save_host_state hw g = vmwrite hw HOST_RSP (hw_rsp hw) g"

text \<open>\<open>~0UL\<close> is -1, \<open>~0u\<close> is 0xFFFFFFFF, \<open>00000400\<close> is octal.\<close>

definition mbr_start_fields :: "u64 \<Rightarrow> (u64 \<times> u64) list" where
  "mbr_start_fields host_pat = [
     (VM_EXIT_MSR_LOAD_COUNT, 0), (VM_EXIT_MSR_STORE_COUNT, 0), (VM_ENTRY_MSR_LOAD_COUNT, 0),
     (VM_ENTRY_INTR_INFO, 0), (CR0_GUEST_HOST_MASK, - 1), (CR4_GUEST_HOST_MASK, - 1),
     (PAGE_FAULT_ERROR_CODE_MASK, 0), (PAGE_FAULT_ERROR_CODE_MATCH, 0), (CR3_TARGET_COUNT, 0),
     (GUEST_ACTIVITY_STATE, 0),
     (GUEST_ES_BASE, 0), (GUEST_SS_BASE, 0), (GUEST_DS_BASE, 256), (GUEST_FS_BASE, 0xE7170),
     (GUEST_GS_BASE, 0xF0000), (GUEST_CS_BASE, 0),
     (GUEST_ES_LIMIT, 0xFFFFFFFF), (GUEST_SS_LIMIT, 0xFFFFFFFF), (GUEST_DS_LIMIT, 0xFFFFFFFF),
     (GUEST_FS_LIMIT, 0xFFFFFFFF), (GUEST_GS_LIMIT, 0xFFFFFFFF), (GUEST_CS_LIMIT, 0xFFFFFFFF),
     (GUEST_ES_AR_BYTES, 0x93), (GUEST_SS_AR_BYTES, 0x193), (GUEST_DS_AR_BYTES, 0x93),
     (GUEST_FS_AR_BYTES, 0x93), (GUEST_GS_AR_BYTES, 0x93), (GUEST_CS_AR_BYTES, 0x19b),
     (GUEST_ES_SELECTOR, 0), (GUEST_SS_SELECTOR, 0), (GUEST_DS_SELECTOR, 0x0040),
     (GUEST_FS_SELECTOR, 0xE717), (GUEST_GS_SELECTOR, 0xF000), (GUEST_CS_SELECTOR, 0),
     (GUEST_IDTR_BASE, 0), (GUEST_IDTR_LIMIT, 0), (GUEST_GDTR_BASE, 0), (GUEST_GDTR_LIMIT, 0),
     (GUEST_LDTR_AR_BYTES, 0x0082), (GUEST_LDTR_SELECTOR, 0), (GUEST_LDTR_BASE, 0), (GUEST_LDTR_LIMIT, 0),
     (GUEST_TR_AR_BYTES, 0x008b), (GUEST_TR_BASE, 0), (GUEST_TR_LIMIT, 0xff),
     (GUEST_INTERRUPTIBILITY_INFO, 0), (GUEST_DR7, 0), (VMCS_LINK_POINTER, - 1), (EXCEPTION_BITMAP, 0),
     (GUEST_CR0, X86_CR0_PE OR X86_CR0_ET), (GUEST_CR3, 0), (GUEST_CR4, 0),
     (HOST_PAT, host_pat), (GUEST_PAT, MSR_IA32_CR_PAT_RESET),
     (GUEST_RSP, 0x3E2), (GUEST_RFLAGS, 0x2206), (GUEST_RIP, 0x7C00)]"

definition vmx_set_vm_to_mbr_start_state :: "intel_cpu \<Rightarrow> vmx_globals \<Rightarrow> vmx_globals res" where
  "vmx_set_vm_to_mbr_start_state hw = vmwrites hw (mbr_start_fields (rdmsrl (hw_msr hw) MSR_IA32_CR_PAT))"

subsection \<open>Model-specific registers of the guest\<close>

text \<open>\<open>btrl\<close> on memory: the 32-bit word that has the bit.\<close>

definition clear_bit_at :: "mem \<Rightarrow> nat \<Rightarrow> u64 \<Rightarrow> mem" where
  "clear_bit_at m nr a =
     (let p = a + of_nat (4 * (nr div 32)) in store32 m p (load32 m p AND NOT (push_bit (nr mod 32) 1)))"

definition vmx_disable_intercept_for_msr :: "u32 \<Rightarrow> machine \<Rightarrow> machine" where
  "vmx_disable_intercept_for_msr msr s =
     (let bm = msr_intercept_table (vm s)
      in if bm = 0 then s
         else if msr \<le> 0x1fff then
           upd_ram (\<lambda>m. clear_bit_at (clear_bit_at m (unat msr) bm) (unat msr) (bm + 0x800)) s
         else if msr \<ge> 0xc0000000 \<and> msr \<le> 0xc0001fff then
           (let msr = msr AND 0x1fff
            in upd_ram (\<lambda>m. clear_bit_at (clear_bit_at m (unat msr) (bm + 0x400)) (unat msr) (bm + 0xc00)) s)
         else s)"

text \<open>\<open>struct vmx_msr_entry\<close> in memory: the index at 0, a zero word at 4, the data at 8.\<close>

definition entry_at :: "u64 \<Rightarrow> nat \<Rightarrow> u64" where "entry_at area i = area + of_nat (16 * i)"

definition entry_index :: "mem \<Rightarrow> u64 \<Rightarrow> nat \<Rightarrow> u32" where
  "entry_index m area i = load32 m (entry_at area i)"

definition put_msr_entry :: "mem \<Rightarrow> u64 \<Rightarrow> nat \<Rightarrow> u32 \<Rightarrow> u64 \<Rightarrow> mem" where
  "put_msr_entry m area i msr val =
     store64 (store32 (store32 m (entry_at area i) msr) (entry_at area i + 4) 0) (entry_at area i + 8) val"

text \<open>The search loop: the first index whose entry is for the register.\<close>

primrec find_entry :: "mem \<Rightarrow> u64 \<Rightarrow> u32 \<Rightarrow> nat list \<Rightarrow> nat option" where
  "find_entry m area msr [] = None"
| "find_entry m area msr (i # is) = (if entry_index m area i = msr then Some i else find_entry m area msr is)"

definition vmx_read_guest_msr :: "u32 \<Rightarrow> machine \<Rightarrow> int \<times> u64 option" where
  "vmx_read_guest_msr msr s =
     (case find_entry (ram s) (msr_area (vm s)) msr [0 ..< unat (msr_count (vm s))] of
        Some i \<Rightarrow> (0, Some (load64 (ram s) (entry_at (msr_area (vm s)) i + 8)))
      | None \<Rightarrow> (- 1, None))"

definition vmx_write_guest_msr :: "u32 \<Rightarrow> u64 \<Rightarrow> machine \<Rightarrow> int \<times> machine" where
  "vmx_write_guest_msr msr val s =
     (case find_entry (ram s) (msr_area (vm s)) msr [0 ..< unat (msr_count (vm s))] of
        Some i \<Rightarrow> (0, upd_ram (\<lambda>m. store64 m (entry_at (msr_area (vm s)) i + 8) val) s)
      | None \<Rightarrow> (- 1, s))"

text \<open>The address of a new area is the page number that the allocator returns.\<close>

definition vmx_add_guest_msr ::
    "intel_cpu \<Rightarrow> naive_allocator \<Rightarrow> u32 \<Rightarrow> vmx_globals \<times> machine \<Rightarrow> (int \<times> vmx_globals \<times> machine) run" where
  "vmx_add_guest_msr hw host msr = (\<lambda>(g, s).
     let add = (\<lambda>(g, s).
           (case find_entry (ram s) (msr_area (vm s)) msr [0 ..< unat (msr_count (vm s))] of
              Some _ \<Rightarrow> Some (Inr (0, g, s))
            | None \<Rightarrow>
                let n = msr_count (vm s)
                in if ucast n = PAGE_SIZE div 16 then Some (Inr (- 1, g, s))
                   else
                     let s = upd_ram (\<lambda>m. put_msr_entry m (msr_area (vm s)) (unat n) msr 0) s;
                         s = upd_vm (\<lambda>v. v\<lparr>msr_count := n + 1\<rparr>) s
                     in bindo (Some (vmwrites hw
                          [(VM_EXIT_MSR_STORE_COUNT, ucast (n + 1)), (VM_ENTRY_MSR_LOAD_COUNT, ucast (n + 1))] g)) (\<lambda>g.
                        Some (Inr (0, g, s)))))
     in if msr_area (vm s) = 0 then
          bindo (alloc_host_pages (ram s) host 1 1) (\<lambda>(area, m).
            let s = s\<lparr>ram := m\<rparr>
            in if area = 0 then Some (Inr (- 2, g, s))
               else bindo (Some (vmwrites hw [(VM_EXIT_MSR_STORE_ADDR, area), (VM_ENTRY_MSR_LOAD_ADDR, area)] g)) (\<lambda>g.
                 add (g, upd_vm (\<lambda>v. v\<lparr>msr_area := area\<rparr>) s)))
        else add (g, s))"

definition vmx_add_host_load_msr ::
    "intel_cpu \<Rightarrow> naive_allocator \<Rightarrow> u32 \<Rightarrow> vmx_globals \<times> machine \<Rightarrow> (int \<times> vmx_globals \<times> machine) run" where
  "vmx_add_host_load_msr hw host msr = (\<lambda>(g, s).
     let add = (\<lambda>(g, s).
           (case find_entry (ram s) (host_msr_area (vm s)) msr [0 ..< unat (host_msr_count (vm s))] of
              Some _ \<Rightarrow> Some (Inr (0, g, s))
            | None \<Rightarrow>
                let n = host_msr_count (vm s)
                in if ucast n = PAGE_SIZE div 16 then Some (Inr (- 1, g, s))
                   else
                     let s = upd_ram (\<lambda>m. put_msr_entry m (host_msr_area (vm s)) (unat n) msr (rdmsrl (hw_msr hw) msr)) s;
                         s = upd_vm (\<lambda>v. v\<lparr>host_msr_count := n + 1\<rparr>) s
                     in bindo (Some (vmwrite hw VM_EXIT_MSR_LOAD_COUNT (ucast (n + 1)) g)) (\<lambda>g. Some (Inr (0, g, s)))))
     in if host_msr_area (vm s) = 0 then
          bindo (alloc_host_pages (ram s) host 1 1) (\<lambda>(area, m).
            let s = s\<lparr>ram := m\<rparr>
            in if area = 0 then Some (Inr (- 2, g, s))
               else bindo (Some (vmwrite hw VM_EXIT_MSR_LOAD_ADDR area g)) (\<lambda>g.
                 add (g, upd_vm (\<lambda>v. v\<lparr>host_msr_area := area\<rparr>) s)))
        else add (g, s))"

subsection \<open>Traces\<close>

definition vm_launch_fail :: "intel_cpu \<Rightarrow> vmx_globals \<Rightarrow> out_call list res" where
  "vm_launch_fail hw g = bindr (vmread hw VM_INSTRUCTION_ERROR g) (\<lambda>err.
     Inr [(line ''<vm_launch_fail> error code %lx'', [ArgX err])])"

definition vm_resume_fail :: "intel_cpu \<Rightarrow> vmx_globals \<Rightarrow> out_call list res" where
  "vm_resume_fail hw g = bindr (vmread hw VM_INSTRUCTION_ERROR g) (\<lambda>err.
     Inr [(line ''<vm_resume_fail> error code %lx'', [ArgX err])])"

text \<open>\<open>vmr\<close> reads with \<open>__vmread_safe\<close>, whose failure gives 0.\<close>

definition vmr :: "intel_cpu \<Rightarrow> vmx_globals \<Rightarrow> u64 \<Rightarrow> u64" where
  "vmr hw g field = (case vmread hw field g of Inl _ \<Rightarrow> 0 | Inr val \<Rightarrow> val)"

abbreviation lo32 :: "u64 \<Rightarrow> out_arg" where "lo32 v \<equiv> argw (ucast v)"
abbreviation lo16 :: "u64 \<Rightarrow> out_arg" where "lo16 v \<equiv> ArgX (ucast (ucast v :: u16))"

definition vmx_dump_sel :: "(u64 \<Rightarrow> u64) \<Rightarrow> string \<Rightarrow> u64 \<Rightarrow> out_call" where
  "vmx_dump_sel r name selector =
     (line ''%s: sel=0x%04x, attr=0x%05x, limit=0x%08x, base=0x%016x'',
      [ArgS name, lo32 (r selector), lo32 (r (selector + (GUEST_ES_AR_BYTES - GUEST_ES_SELECTOR))),
       lo32 (r (selector + (GUEST_ES_LIMIT - GUEST_ES_SELECTOR))),
       ArgX (r (selector + (GUEST_ES_BASE - GUEST_ES_SELECTOR)))])"

definition vmx_dump_sel2 :: "(u64 \<Rightarrow> u64) \<Rightarrow> string \<Rightarrow> u64 \<Rightarrow> out_call" where
  "vmx_dump_sel2 r name lim =
     (line ''%s:                           limit=0x%08x, base=0x%016x'',
      [ArgS name, lo32 (r lim), ArgX (r (lim + (GUEST_GDTR_BASE - GUEST_GDTR_LIMIT)))])"

text \<open>The three parts of \<open>vmcs_dump\<close>.\<close>

definition dump_guest :: "(u64 \<Rightarrow> u64) \<Rightarrow> out_call list" where
  "dump_guest r = [
     (line ''*** Guest State ***'', []),
     (line ''CR0: actual=0x%016llx, shadow=0x%016llx, gh_mask=%016llx'',
      [ArgX (r GUEST_CR0), ArgX (r CR0_READ_SHADOW), ArgX (r CR0_GUEST_HOST_MASK)]),
     (line ''CR4: actual=0x%016llx, shadow=0x%016llx, gh_mask=%016llx'',
      [ArgX (r GUEST_CR4), ArgX (r CR4_READ_SHADOW), ArgX (r CR4_GUEST_HOST_MASK)]),
     (line ''CR3: actual=0x%016llx, target_count=%d'', [ArgX (r GUEST_CR3), lo32 (r CR3_TARGET_COUNT)]),
     (line ''     target0=%016llx, target1=%016llx'',
      [ArgX (r CR3_TARGET_VALUE0), ArgX (r CR3_TARGET_VALUE1)]),
     (line ''     target2=%016llx, target3=%016llx'',
      [ArgX (r CR3_TARGET_VALUE2), ArgX (r CR3_TARGET_VALUE3)]),
     (line ''RSP = 0x%016llx, RIP = 0x%016llx'', [ArgX (r GUEST_RSP), ArgX (r GUEST_RIP)]),
     (line ''RFLAGS=0x%016llx DR7 = 0x%016llx'', [ArgX (r GUEST_RFLAGS), ArgX (r GUEST_DR7)]),
     (line ''Sysenter RSP=%016llx CS:RIP=%04x:%016llx'',
      [ArgX (r GUEST_SYSENTER_ESP), lo32 (r GUEST_SYSENTER_CS), ArgX (r GUEST_SYSENTER_EIP)]),
     vmx_dump_sel r ''CS'' GUEST_CS_SELECTOR,
     vmx_dump_sel r ''DS'' GUEST_DS_SELECTOR,
     vmx_dump_sel r ''SS'' GUEST_SS_SELECTOR,
     vmx_dump_sel r ''ES'' GUEST_ES_SELECTOR,
     vmx_dump_sel r ''FS'' GUEST_FS_SELECTOR,
     vmx_dump_sel r ''GS'' GUEST_GS_SELECTOR,
     vmx_dump_sel2 r ''GDTR'' GUEST_GDTR_LIMIT,
     vmx_dump_sel r ''LDTR'' GUEST_LDTR_SELECTOR,
     vmx_dump_sel2 r ''IDTR'' GUEST_IDTR_LIMIT,
     vmx_dump_sel r ''TR'' GUEST_TR_SELECTOR,
     (line ''Guest PAT = 0x%08x%08x'', [lo32 (r GUEST_PAT_HIGH), lo32 (r GUEST_PAT)]),
     (line ''TSC Offset = %016llx'',
      [ArgX (push_bit 32 (r TSC_OFFSET_HIGH) OR (r TSC_OFFSET AND 0xFFFFFFFF))]),
     (line ''DebugCtl=%016llx DebugExceptions=%016llx'',
      [ArgX (push_bit 32 (r GUEST_IA32_DEBUGCTL_HIGH) OR (r GUEST_IA32_DEBUGCTL AND 0xFFFFFFFF)), ArgX (r GUEST_PENDING_DBG_EXCEPTIONS)]),
     (line ''Interruptibility=%04x ActivityState=%04x'',
      [lo32 (r GUEST_INTERRUPTIBILITY_INFO), lo32 (r GUEST_ACTIVITY_STATE)])]"

definition dump_host :: "(u64 \<Rightarrow> u64) \<Rightarrow> out_call list" where
  "dump_host r = [
     (line ''*** Host State ***'', []),
     (line ''RSP = 0x%016llx  RIP = 0x%016llx'', [ArgX (r HOST_RSP), ArgX (r HOST_RIP)]),
     (line ''CS=%04x DS=%04x ES=%04x FS=%04x GS=%04x SS=%04x TR=%04x'',
      [lo16 (r HOST_CS_SELECTOR), lo16 (r HOST_DS_SELECTOR), lo16 (r HOST_ES_SELECTOR), lo16 (r HOST_FS_SELECTOR), lo16 (r HOST_GS_SELECTOR), lo16 (r HOST_SS_SELECTOR), lo16 (r HOST_TR_SELECTOR)]),
     (line ''FSBase=%016llx GSBase=%016llx TRBase=%016llx'',
      [ArgX (r HOST_FS_BASE), ArgX (r HOST_GS_BASE), ArgX (r HOST_TR_BASE)]),
     (line ''GDTBase=%016llx IDTBase=%016llx'', [ArgX (r HOST_GDTR_BASE), ArgX (r HOST_IDTR_BASE)]),
     (line ''CR0=%016llx CR3=%016llx CR4=%016llx'', [ArgX (r HOST_CR0), ArgX (r HOST_CR3), ArgX (r HOST_CR4)]),
     (line ''Sysenter RSP=%016llx CS:RIP=%04x:%016llx'',
      [ArgX (r HOST_SYSENTER_ESP), lo32 (r HOST_SYSENTER_CS), ArgX (r HOST_SYSENTER_EIP)]),
     (line ''Host PAT = 0x%08x%08x'', [lo32 (r HOST_PAT_HIGH), lo32 (r HOST_PAT)])]"

definition dump_control :: "(u64 \<Rightarrow> u64) \<Rightarrow> out_call list" where
  "dump_control r = [
     (line ''*** Control State ***'', []),
     (line ''PinBased=%08x CPUBased=%08x SecondaryExec=%08x'',
      [lo32 (r PIN_BASED_VM_EXEC_CONTROL), lo32 (r CPU_BASED_VM_EXEC_CONTROL), lo32 (r SECONDARY_VM_EXEC_CONTROL)]),
     (line ''EntryControls=%08x ExitControls=%08x'', [lo32 (r VM_ENTRY_CONTROLS), lo32 (r VM_EXIT_CONTROLS)]),
     (line ''ExceptionBitmap=%08x'', [lo32 (r EXCEPTION_BITMAP)]),
     (line ''VMEntry: intr_info=%08x errcode=%08x ilen=%08x'',
      [lo32 (r VM_ENTRY_INTR_INFO), lo32 (r VM_ENTRY_EXCEPTION_ERROR_CODE), lo32 (r VM_ENTRY_INSTRUCTION_LEN)]),
     (line ''VMExit: intr_info=%08x errcode=%08x ilen=%08x'',
      [lo32 (r VM_EXIT_INTR_INFO), lo32 (r VM_EXIT_INTR_ERROR_CODE), lo32 (r VM_ENTRY_INSTRUCTION_LEN)]),
     (line ''        reason=%08x qualification=%08x'', [lo32 (r VM_EXIT_REASON), lo32 (r EXIT_QUALIFICATION)]),
     (line ''IDTVectoring: info=%08x errcode=%08x'',
      [lo32 (r IDT_VECTORING_INFO), lo32 (r IDT_VECTORING_ERROR_CODE)]),
     (line ''TPR Threshold = 0x%02x'', [lo32 (r TPR_THRESHOLD)]),
     (line ''EPT pointer = 0x%08x%08x'', [lo32 (r EPT_POINTER_HIGH), lo32 (r EPT_POINTER)]),
     (line ''Virtual processor ID = 0x%04x'', [lo32 (r VIRTUAL_PROCESSOR_ID)])]"

definition vmcs_dump :: "intel_cpu \<Rightarrow> vmx_globals \<Rightarrow> out_call list" where
  "vmcs_dump hw g = dump_guest (vmr hw g) @ dump_host (vmr hw g) @ dump_control (vmr hw g)"

subsection \<open>The values of the fields\<close>

definition write_fields :: "(u64 \<times> u64) list \<Rightarrow> (u64 \<Rightarrow> u64) \<Rightarrow> u64 \<Rightarrow> u64" where
  "write_fields ws F x = (case map_of (rev ws) x of Some v \<Rightarrow> v | None \<Rightarrow> F x)"

lemma write_fields_append: "write_fields ws' (write_fields ws F) = write_fields (ws @ ws') F"
  by (auto simp: write_fields_def fun_eq_iff map_add_def split: option.splits)

lemma write_fields_1: "F(f := v) = write_fields [(f, v)] F"
  by (auto simp: write_fields_def fun_eq_iff)

text \<open>Writes succeed when there is a current structure and the processor has the fields.\<close>

definition writable :: "intel_cpu \<Rightarrow> vmx_globals \<Rightarrow> u64 set \<Rightarrow> bool" where
  "writable hw g F \<longleftrightarrow> current_vmcs g \<noteq> None \<and> (\<forall>f \<in> F. hw_has_field hw f)"

definition put_fields :: "(u64 \<times> u64) list \<Rightarrow> vmx_globals \<Rightarrow> vmx_globals" where
  "put_fields ws g =
     (let p = the (current_vmcs g) in g\<lparr>vmcs_fields := (vmcs_fields g)(p := write_fields ws (vmcs_fields g p))\<rparr>)"

lemma vmwrite_eq:
  "vmwrite hw f v g = (if writable hw g {f} then Inr (put_fields [(f, v)] g) else fatal_failure ''ud2'')"
  by (auto simp: vmwrite_def writable_def put_fields_def write_fields_1 Let_def split: option.split)

lemma put_fields_current [simp]: "current_vmcs (put_fields ws g) = current_vmcs g"
  by (simp add: put_fields_def Let_def)

lemma put_fields_append: "put_fields ws' (put_fields ws g) = put_fields (ws @ ws') g"
  by (simp add: put_fields_def Let_def write_fields_append)

lemma put_fields_Nil: "put_fields [] g = g"
proof -
  have "write_fields [] F = F" for F by (simp add: write_fields_def fun_eq_iff)
  then show ?thesis by (simp add: put_fields_def Let_def)
qed

lemma vmwrites_eq:
  "vmwrites hw ws g =
    (if ws = [] \<or> writable hw g (fst ` set ws) then Inr (put_fields ws g) else fatal_failure ''ud2'')"
proof (induction ws arbitrary: g)
  case Nil
  then show ?case by (simp add: put_fields_Nil)
next
  case (Cons w ws)
  have "writable hw (put_fields [w] g) F = writable hw g F" for F by (simp add: writable_def)
  then show ?case using Cons.IH [of "put_fields [w] g"]
    by (auto simp: vmwrite_eq put_fields_append writable_def)
qed

lemma vmwrite_Inr: "vmwrite hw f v g = Inr g' \<longleftrightarrow> writable hw g {f} \<and> g' = put_fields [(f, v)] g"
  by (auto simp: vmwrite_eq)

lemma vmwrites_Inr:
  "ws \<noteq> [] \<Longrightarrow> vmwrites hw ws g = Inr g' \<longleftrightarrow> writable hw g (fst ` set ws) \<and> g' = put_fields ws g"
  by (auto simp: vmwrites_eq)

text \<open>The values of the fields of the current structure.\<close>

definition field_values :: "vmx_globals \<Rightarrow> u64 \<Rightarrow> u64" where
  "field_values g = vmcs_fields g (the (current_vmcs g))"

lemma field_values_put [simp]: "field_values (put_fields ws g) = write_fields ws (field_values g)"
  by (simp add: field_values_def put_fields_def Let_def)

lemma vmread_eq: "vmread hw f g = (if writable hw g {f} then Inr (field_values g f) else fatal_failure ''ud2'')"
  by (auto simp: vmread_def writable_def field_values_def split: option.split)

text \<open>The encodings of the enumeration increase.\<close>

lemma vmcs_field_sorted: "sorted_wrt (<) (map snd vmcs_field)"
proof -
  have "successively (<) (map snd vmcs_field)" by (simp add: vmcs_field_def)
  then show ?thesis by (simp add: successively_conv_sorted_wrt)
qed

subsection \<open>The bitmap of intercepted registers\<close>

definition msr_bit :: "mem \<Rightarrow> u64 \<Rightarrow> nat \<Rightarrow> bool" where
  "msr_bit m bm k = bit (load32 m (bm + of_nat (4 * (k div 32)))) (k mod 32)"

interpretation bitmap_word: word_table "\<lambda>m i. load32 m (bm + of_nat (4 * i)) :: u32"
    "\<lambda>m i. store32 m (bm + of_nat (4 * i))" "2 ^ 20" for bm
  by unfold_locales (auto simp: load_store_same simp del: of_nat_mult intro!: load_store_array)

lemma clear_bit_at_bits:
  assumes "nr + 32 * w < 2 ^ 20" and "k < 2 ^ 20"
  shows "msr_bit (clear_bit_at m nr (bm + of_nat (4 * w))) bm k \<longleftrightarrow> msr_bit m bm k \<and> k \<noteq> nr + 32 * w"
proof -
  let ?i = "nr div 32 + w"
  let ?v = "load32 m (bm + of_nat (4 * ?i)) AND NOT (push_bit (nr mod 32) 1)"
  have p: "bm + of_nat (4 * w) + of_nat (4 * (nr div 32)) = bm + of_nat (4 * ?i)" by (simp add: algebra_simps)
  have eq: "k = nr + 32 * w \<longleftrightarrow> k div 32 = ?i \<and> k mod 32 = nr mod 32"
    by (metis div_mod_decomp div_mult_self1 mod_mult_self2 add.commute mult.commute zero_neq_numeral)
  have cl: "clear_bit_at m nr (bm + of_nat (4 * w)) = store32 m (bm + of_nat (4 * ?i)) ?v"
    unfolding clear_bit_at_def Let_def p ..
  have small: "k div 32 < 2 ^ 20" "?i < 2 ^ 20" using assms by auto
  have v: "bit ?v (k mod 32) \<longleftrightarrow> bit (load32 m (bm + of_nat (4 * ?i))) (k mod 32) \<and> k mod 32 \<noteq> nr mod 32"
    by (auto simp: bit_simps simp del: push_bit_of_1)
  show ?thesis
  proof (cases "k div 32 = ?i")
    case True
    show ?thesis unfolding msr_bit_def cl eq bitmap_word.get_put [OF small(2,1)] True using v by simp
  next
    case False
    then show ?thesis unfolding msr_bit_def cl eq bitmap_word.get_put [OF small(2,1)] by simp
  qed
qed

text \<open>The bit for reads of a register; the one for writes is 0x4000 further.\<close>

definition read_bit :: "u32 \<Rightarrow> nat" where
  "read_bit msr = (if msr \<le> 0x1fff then unat msr else 0x2000 + unat (msr AND 0x1fff))"

lemma disable_intercept_bits:
  assumes "msr \<le> 0x1fff \<or> 0xc0000000 \<le> msr \<and> msr \<le> 0xc0001fff" and "msr_intercept_table (vm s) = bm"
    and "bm \<noteq> 0" and "k < 0x8000"
  shows "msr_bit (ram (vmx_disable_intercept_for_msr msr s)) bm k \<longleftrightarrow>
    msr_bit (ram s) bm k \<and> k \<noteq> read_bit msr \<and> k \<noteq> read_bit msr + 0x4000"
proof (cases "msr \<le> 0x1fff")
  case True
  then have "unat msr \<le> 0x1fff" by (simp add: word_le_nat_alt)
  then show ?thesis
    using assms True clear_bit_at_bits [of "unat msr" 0 k _ bm] clear_bit_at_bits [of "unat msr" "0x200" k _ bm]
    by (auto simp: vmx_disable_intercept_for_msr_def read_bit_def upd_ram_def)
next
  case False
  have "msr AND 0x1fff \<le> 0x1fff" by (rule word_and_le1)
  then have "unat (msr AND 0x1fff) \<le> 0x1fff" by (simp add: word_le_nat_alt)
  then show ?thesis
    using assms False clear_bit_at_bits [of "unat (msr AND 0x1fff)" "0x100" k _ bm]
      clear_bit_at_bits [of "unat (msr AND 0x1fff)" "0x300" k _ bm]
    by (auto simp: vmx_disable_intercept_for_msr_def read_bit_def upd_ram_def Let_def)
qed

subsection \<open>The list of guest registers\<close>

definition entry_data :: "mem \<Rightarrow> u64 \<Rightarrow> nat \<Rightarrow> u64" where
  "entry_data m area i = load64 m (entry_at area i + 8)"

text \<open>The registers and values that the list holds; an earlier entry hides a later one.\<close>

definition entry_map :: "mem \<Rightarrow> u64 \<Rightarrow> nat \<Rightarrow> u32 \<rightharpoonup> u64" where
  "entry_map m area n = map_of (map (\<lambda>i. (entry_index m area i, entry_data m area i)) [0 ..< n])"

definition msr_map :: "machine \<Rightarrow> u32 \<rightharpoonup> u64" where
  "msr_map s = entry_map (ram s) (msr_area (vm s)) (unat (msr_count (vm s)))"

lemma entry_fields_disjoint:
  assumes "i < 2 ^ 20" and "j < 2 ^ 20" and "p + n \<le> 16" and "q + k \<le> 16" and "i \<noteq> j \<or> p + n \<le> q \<or> q + k \<le> p"
  shows "disjoint_ranges (entry_at a i + of_nat p) n (entry_at a j + of_nat q) k"
proof -
  have e: "entry_at a i + of_nat p = a + of_nat (16 * i + p)" "entry_at a j + of_nat q = a + of_nat (16 * j + q)"
    by (simp_all add: entry_at_def)
  have "16 * i + p + n \<le> 16 * j + q \<or> 16 * j + q + k \<le> 16 * i + p" using assms by (cases i j rule: linorder_cases) auto
  then show ?thesis
    unfolding e
  proof
    assume "16 * i + p + n \<le> 16 * j + q"
    then show "disjoint_ranges (a + of_nat (16 * i + p)) n (a + of_nat (16 * j + q)) k"
      using assms by (intro disjoint_offsets) auto
  next
    assume "16 * j + q + k \<le> 16 * i + p"
    then have "disjoint_ranges (a + of_nat (16 * j + q)) k (a + of_nat (16 * i + p)) n"
      using assms by (intro disjoint_offsets) auto
    then show "disjoint_ranges (a + of_nat (16 * i + p)) n (a + of_nat (16 * j + q)) k"
      by (simp only: disjoint_sym)
  qed
qed

lemma store_data_entry:
  assumes "i < 2 ^ 20" and "j < 2 ^ 20"
  shows "entry_index (store64 m (entry_at a i + 8) v) a j = entry_index m a j"
    and "entry_data (store64 m (entry_at a i + 8) v) a j = (if i = j then v else entry_data m a j)"
  using entry_fields_disjoint [OF assms(2,1), of 0 4 8 8 a] entry_fields_disjoint [OF assms(2,1), of 8 8 8 8 a]
  by (auto simp: entry_index_def entry_data_def load_store_disjoint)

lemma put_msr_entry_fields:
  assumes "i < 2 ^ 20" and "j < 2 ^ 20"
  shows "entry_index (put_msr_entry m a i r v) a j = (if i = j then r else entry_index m a j)"
    and "entry_data (put_msr_entry m a i r v) a j = (if i = j then v else entry_data m a j)"
proof -
  note d = entry_fields_disjoint [OF assms(2,1), of _ _ _ _ a]
  have index: "entry_index (store32 (store32 m (entry_at a i) r) (entry_at a i + 4) 0) a j =
      (if i = j then r else entry_index m a j)"
    using d [of 0 4 4 4] d [of 0 4 0 4] by (auto simp: entry_index_def load_store_disjoint)
  have data: "entry_data (store32 (store32 m (entry_at a i) r) (entry_at a i + 4) 0) a j = entry_data m a j"
    using d [of 8 8 4 4] d [of 8 8 0 4] by (auto simp: entry_data_def load_store_disjoint)
  show "entry_index (put_msr_entry m a i r v) a j = (if i = j then r else entry_index m a j)"
    by (simp add: put_msr_entry_def store_data_entry [OF assms] index)
  show "entry_data (put_msr_entry m a i r v) a j = (if i = j then v else entry_data m a j)"
    by (simp add: put_msr_entry_def store_data_entry [OF assms] data)
qed

interpretation msr_entry: word_table "\<lambda>m i. (entry_index m a i, entry_data m a i)"
    "\<lambda>m i (r, v). put_msr_entry m a i r v" "2 ^ 20" for a
  by unfold_locales (auto simp: put_msr_entry_fields)

lemma find_entry_map:
  "map_of (map (\<lambda>i. (entry_index m a i, f i)) is) r = map_option f (find_entry m a r is)"
  by (induction "is") auto

lemma find_entry_Some:
  "find_entry m a r is = Some i \<Longrightarrow> i \<in> set is \<and> entry_index m a i = r"
  by (induction "is") (auto split: if_splits)

lemma find_entry_cong:
  "(\<And>i. i \<in> set is \<Longrightarrow> entry_index m' a i = entry_index m a i) \<Longrightarrow> find_entry m' a r is = find_entry m a r is"
  by (induction "is") auto

lemma map_of_set_entry:
  assumes "find_entry m a r is = Some i"
  shows "map_of (map (\<lambda>j. (entry_index m a j, if i = j then v else f j)) is) =
    (map_of (map (\<lambda>j. (entry_index m a j, f j)) is))(r \<mapsto> v)"
proof (rule ext)
  fix x
  show "map_of (map (\<lambda>j. (entry_index m a j, if i = j then v else f j)) is) x =
    ((map_of (map (\<lambda>j. (entry_index m a j, f j)) is))(r \<mapsto> v)) x"
    using assms find_entry_Some [of m a x "is"] find_entry_Some [OF assms]
    by (cases "find_entry m a x is") (auto simp: find_entry_map)
qed

lemma entry_map_find: "entry_map m a n r = map_option (entry_data m a) (find_entry m a r [0 ..< n])"
  by (simp add: entry_map_def find_entry_map)

lemma entry_map_store:
  assumes "find_entry m a r [0 ..< n] = Some i" and "n \<le> 2 ^ 20"
  shows "entry_map (store64 m (entry_at a i + 8) v) a n = (entry_map m a n)(r \<mapsto> v)"
proof -
  have "i < n" using find_entry_Some [OF assms(1)] by simp
  then have "map (\<lambda>j. (entry_index (store64 m (entry_at a i + 8) v) a j,
        entry_data (store64 m (entry_at a i + 8) v) a j)) [0 ..< n] =
      map (\<lambda>j. (entry_index m a j, if i = j then v else entry_data m a j)) [0 ..< n]"
    using assms(2) by (auto simp: store_data_entry)
  then show ?thesis unfolding entry_map_def by (simp only: map_of_set_entry [OF assms(1)])
qed

lemma entry_map_put:
  assumes "entry_map m a n r = None" and "n < 2 ^ 20"
  shows "entry_map (put_msr_entry m a n r v) a (Suc n) = (entry_map m a n)(r \<mapsto> v)"
proof -
  have "map (\<lambda>j. (entry_index (put_msr_entry m a n r v) a j, entry_data (put_msr_entry m a n r v) a j)) [0 ..< Suc n] =
      map (\<lambda>j. (entry_index m a j, entry_data m a j)) [0 ..< n] @ [(r, v)]"
    using assms(2) by (auto simp: put_msr_entry_fields)
  then have "entry_map (put_msr_entry m a n r v) a (Suc n) = [r \<mapsto> v] ++ entry_map m a n"
    unfolding entry_map_def by (simp only: map_of_append map_of.simps fst_conv snd_conv)
  then show ?thesis using assms(1) by (auto simp: map_add_def fun_eq_iff split: option.split)
qed

lemma read_guest_msr_map:
  "vmx_read_guest_msr r s = (case msr_map s r of Some v \<Rightarrow> (0, Some v) | None \<Rightarrow> (- 1, None))"
  by (simp add: vmx_read_guest_msr_def msr_map_def entry_map_find entry_data_def split: option.split)

lemma write_guest_msr_map:
  assumes "msr_map s r \<noteq> None" and "unat (msr_count (vm s)) \<le> 256"
  shows "\<exists>s'. vmx_write_guest_msr r v s = (0, s') \<and> msr_map s' = (msr_map s)(r \<mapsto> v) \<and> vm s' = vm s"
proof -
  obtain i where "find_entry (ram s) (msr_area (vm s)) r [0 ..< unat (msr_count (vm s))] = Some i"
    using assms(1) by (auto simp: msr_map_def entry_map_find)
  then show ?thesis using assms(2) by (simp add: vmx_write_guest_msr_def upd_ram_def msr_map_def entry_map_store)
qed

lemma add_guest_msr_map:
  assumes "msr_map s r = None" and "unat (msr_count (vm s)) < 256" and "msr_area (vm s) \<noteq> 0"
    and "writable hw g {VM_EXIT_MSR_STORE_COUNT, VM_ENTRY_MSR_LOAD_COUNT}"
  shows "\<exists>g' s'. vmx_add_guest_msr hw host r (g, s) = ret (0, g', s') \<and> msr_map s' = (msr_map s)(r \<mapsto> 0) \<and>
    msr_count (vm s') = msr_count (vm s) + 1 \<and>
    vmread hw VM_ENTRY_MSR_LOAD_COUNT g' = Inr (ucast (msr_count (vm s'))) \<and>
    vmread hw VM_EXIT_MSR_STORE_COUNT g' = Inr (ucast (msr_count (vm s')))"
proof -
  have none: "find_entry (ram s) (msr_area (vm s)) r [0 ..< unat (msr_count (vm s))] = None"
    using assms(1) by (auto simp: msr_map_def entry_map_find)
  have n: "unat (msr_count (vm s) + 1) = Suc (unat (msr_count (vm s)))" using assms(2) by (simp add: unat_plus_if')
  have full: "(ucast (msr_count (vm s)) :: u64) \<noteq> PAGE_SIZE div 16"
  proof
    assume "(ucast (msr_count (vm s)) :: u64) = PAGE_SIZE div 16"
    then have "unat (ucast (msr_count (vm s)) :: u64) = 256" by (simp add: PAGE_SIZE_def)
    then show False using assms(2) by simp
  qed
  have "entry_map (put_msr_entry (ram s) (msr_area (vm s)) (unat (msr_count (vm s))) r 0) (msr_area (vm s))
      (unat (msr_count (vm s) + 1)) = (msr_map s)(r \<mapsto> 0)"
    using assms(1,2) unfolding n msr_map_def by (intro entry_map_put) simp_all
  moreover have "VM_EXIT_MSR_STORE_COUNT \<noteq> VM_ENTRY_MSR_LOAD_COUNT"
    by (simp add: VM_EXIT_MSR_STORE_COUNT_def VM_ENTRY_MSR_LOAD_COUNT_def)
  ultimately show ?thesis
    using none full assms(4)
    by (simp add: vmx_add_guest_msr_def assms(3) Let_def upd_ram_def upd_vm_def msr_map_def vmwrites_eq
        vmread_eq writable_def write_fields_def del: vmwrites.simps)
qed

subsection \<open>Properties\<close>

text \<open>\<open>vmx_disable_intercept_for_msr\<close> clears exactly the two bits of the register, the one for
  reads and the one for writes, in the bitmap of intercepted registers.\<close>

theorem msr_intercept_disabled:
  assumes "msr \<le> 0x1fff \<or> 0xc0000000 \<le> msr \<and> msr \<le> 0xc0001fff" and "msr_intercept_table (vm s) \<noteq> 0" and "k < 0x8000"
  shows "msr_bit (ram (vmx_disable_intercept_for_msr msr s)) (msr_intercept_table (vm s)) k \<longleftrightarrow>
    msr_bit (ram s) (msr_intercept_table (vm s)) k \<and> k \<noteq> read_bit msr \<and> k \<noteq> read_bit msr + 0x4000"
  using disable_intercept_bits [OF assms(1) refl assms(2,3)] .

theorem msr_intercept_disabled_witness:
  "\<not> msr_bit (ram (vmx_disable_intercept_for_msr 0x174 (blank_machine (\<lambda>_. 0xFF) (zero_vm_info\<lparr>msr_intercept_table := 0x20000\<rparr>)))) 0x20000 0x174"
  using msr_intercept_disabled [of "0x174" "blank_machine (\<lambda>_. 0xFF) (zero_vm_info\<lparr>msr_intercept_table := 0x20000\<rparr>)" "0x174"]
  by (simp add: read_bit_def)

definition zero_globals :: vmx_globals where
  "zero_globals = \<lparr>vmx_basic_msr_low = 0, vmx_basic_msr_high = 0, vmx_pin_based_exec_control = 0,
     vmx_pin_based_exec_default1 = 0, vmx_pin_based_exec_default0 = 0, vmx_cpu_based_exec_control = 0,
     vmx_cpu_based_exec_default1 = 0, vmx_cpu_based_exec_default0 = 0, vmx_secondary_exec_control = 0,
     vmx_secondary_exec_default1 = 0, vmx_secondary_exec_default0 = 0, vmx_vmexit_control = 0,
     vmx_vmexit_default1 = 0, vmx_vmexit_default0 = 0, vmx_vmentry_control = 0, vmx_vmentry_default1 = 0,
     vmx_vmentry_default0 = 0, vmx_ept_vpid_cap = 0, cpu_has_vmx_ins_outs_instr_info = 0, vmcs_revision_id = 0,
     vmx_ept_control = 0, vmx_on_region = 0, vmxon_pointer = None, current_vmcs = None,
     vmcs_fields = (\<lambda>_ _. 0)\<rparr>"

text \<open>With a current control structure.\<close>

definition loaded_globals :: vmx_globals where
  "loaded_globals = zero_globals\<lparr>vmxon_pointer := Some 0, current_vmcs := Some 0x20000\<rparr>"



definition example_intel :: "u64 \<Rightarrow> intel_cpu" where
  "example_intel sec = \<lparr>hw_msr = (\<lambda>r. if r = MSR_IA32_VMX_BASIC then 0x0018100000000001
      else if r = MSR_IA32_VMX_PROCBASED_CTLS then 0xFFFFFFFF80000000
      else if r = MSR_IA32_VMX_PROCBASED_CTLS2 then sec
      else if r = MSR_IA32_VMX_CR0_FIXED1 then 0xFFFFFFFF else 0),
     hw_cr0 = 0x80000011, hw_cr4 = 0x20, hw_gdt = 0x1000, hw_idt = 0x2000, hw_entry = 0x3000, hw_rsp = 0x4000,
     hw_address_width = 36, hw_vmxon = (\<lambda>_. 0), hw_has_field = (\<lambda>_. True)\<rparr>"

lemma example_fields: "writable (example_intel w) loaded_globals {VM_EXIT_MSR_STORE_COUNT, VM_ENTRY_MSR_LOAD_COUNT}"
  by (simp add: writable_def loaded_globals_def example_intel_def)


text \<open>The traces of Intel's part cannot be printed: the second line of \<open>vmcs_dump\<close>, and the messages
  for a failed launch and a failed resume, have formats that \<open>vsnprintf\<close> answers with a fatal failure.\<close>

theorem vmcs_traces_fatal:
  "(\<forall>c1 c2. vm_launch_fail hw g = Inr c1 \<and> vm_resume_fail hw g = Inr c2 \<longrightarrow>
     (\<forall>(f, args) \<in> set (c1 @ c2 @ [vmcs_dump hw g ! 1]). outf m buf port f args = Some (fatal_failure ''vsnprintf'')))"
proof -
  have "bad_format (line ''<vm_launch_fail> error code %lx'')" "bad_format (line ''<vm_resume_fail> error code %lx'')"
    by (rule bad_formatI [where n = 28]; simp add: line_def INT_MAX_def)+
  moreover have "bad_format (line ''CR0: actual=0x%016llx, shadow=0x%016llx, gh_mask=%016llx'')"
    by (rule bad_formatI [where n = 14]; simp add: line_def INT_MAX_def)
  ultimately show ?thesis
    by (auto simp: vm_launch_fail_def vm_resume_fail_def vmcs_dump_def dump_guest_def outf_bad bindr_eq_Inr)
qed

theorem vmcs_traces_fatal_witness:
  "\<exists>f args. vm_launch_fail (example_intel 0) loaded_globals = Inr [(f, args)] \<and>
     outf (\<lambda>_. 0) 0x1000 0x3f8 f args = Some (fatal_failure ''vsnprintf'')"
proof -
  have "writable (example_intel 0) loaded_globals {VM_INSTRUCTION_ERROR}"
    by (simp add: writable_def loaded_globals_def example_intel_def)
  then show ?thesis
    using vmcs_traces_fatal [of "example_intel 0" loaded_globals "\<lambda>_. 0" "0x1000" "0x3f8"]
    by (simp add: vm_launch_fail_def vm_resume_fail_def vmread_eq)
qed

end
