(* ===== verification/Vmx.thy ===== *)
theory Vmx
  imports Vmcs Svm
begin

text \<open>
  \<open>kernel/vmx.c\<close>: turning on the extension of Intel processors and setting up the first control structure.
  The definitions come first, then the fields that \<open>init_intel\<close> leaves, then the properties.
\<close>

subsection \<open>Turning the extension on\<close>

text \<open>\<open>enable_vmx\<close> writes capability word 5 and tests a bit of word 4.  The result has the processor's
  new CR4.\<close>

definition enable_vmx ::
    "cpuid_fun \<Rightarrow> cpuinfo_x86 \<Rightarrow> intel_cpu \<times> vmx_globals \<Rightarrow> (cpuinfo_x86 \<times> intel_cpu \<times> vmx_globals) run" where
  "enable_vmx cpuid c = (\<lambda>(hw, g).
     let c = c\<lparr>x86_capability := (x86_capability c)[5 := cpuid_ecx cpuid 1]\<rparr>
     in if \<not> constant_test_bit X86_FEATURE_VMX (x86_capability c) then Some (fatal_failure (line ''No VMX feature!''))
        else
          let g = vmx_detect_capability hw g
          in if \<not> ctrue (vmx_secondary_exec_control g AND SECONDARY_EXEC_ENABLE_EPT)
             then Some (fatal_failure (line ''No EPT support!''))
             else
               let hw = hw\<lparr>hw_cr4 := hw_cr4 hw OR X86_CR4_VMXE\<rparr>;
                   cr0 = hw_cr0 hw;
                   vmx_cr0_fixed0 = rdmsrl (hw_msr hw) MSR_IA32_VMX_CR0_FIXED0;
                   vmx_cr0_fixed1 = rdmsrl (hw_msr hw) MSR_IA32_VMX_CR0_FIXED1
               in if ctrue ((NOT cr0) AND vmx_cr0_fixed0) \<or> ctrue (cr0 AND NOT vmx_cr0_fixed1)
                  then Some (fatal_failure (line ''Some settings of host CR0 are not allowed in VMX operation.''))
                  else
                    let (eax, edx) = rdmsr (hw_msr hw) IA32_FEATURE_CONTROL_MSR
                    in if ctrue (eax AND IA32_FEATURE_CONTROL_MSR_LOCK) \<and>
                          \<not> ctrue (eax AND IA32_FEATURE_CONTROL_MSR_ENABLE_VMXON_OUTSIDE_SMX)
                       then Some (fatal_failure (line ''VMX disabled by BIOS.''))
                       else Some (Inr (c, hw, g)))"

definition init_intel ::
    "cpuid_fun \<Rightarrow> naive_allocator \<Rightarrow> cpuinfo_x86 \<Rightarrow> intel_cpu \<times> vmx_globals \<times> machine
      \<Rightarrow> (intel_cpu \<times> vmx_globals \<times> machine) run" where
  "init_intel cpuid host c = (\<lambda>(hw, g, s).
     bindo (enable_vmx cpuid c (hw, g)) (\<lambda>(c, hw, g).
     bindo (alloc_vmcs g (ram s) host) (\<lambda>(p, m).
     let g = g\<lparr>vmx_on_region := p\<rparr>; s = s\<lparr>ram := m\<rparr>
     in if p = 0 then Some (fatal_failure (line ''Failed to create VMXON region.''))
        else if hw_vmxon hw (vmcs_ptr (vm s)) \<noteq> 0 then Some (fatal_failure (line ''VMXON failure''))
        else let g = g\<lparr>vmxon_pointer := Some (vmcs_ptr (vm s))\<rparr>
        in bindo (create_vmcs g host s) (\<lambda>(p, s).
          if p = 0 then Some (fatal_failure (line ''Failed to create VMCS.''))
          else
            let s = upd_vm (\<lambda>v. v\<lparr>vmcs_ptr := p\<rparr>) s;
                s = say (line ''VMCS location: %x'') [ArgX p] s
            in bindo (Some (vmpclear hw (vmcs_ptr (vm s)) g)) (\<lambda>g.
               bindo (Some (vmptrld hw (ram s) (vmcs_ptr (vm s)) g)) (\<lambda>g.
               bindo (vmx_set_control_params hw host (g, s)) (\<lambda>(g, s).
               bindo (Some (vmx_set_vm_to_mbr_start_state hw g)) (\<lambda>g.
                 Some (Inr (hw, g, s))))))))))"

subsection \<open>What the control structure gets\<close>

text \<open>The fields that \<open>vmx_set_control_params\<close> writes, in order.\<close>

definition control_fields :: "intel_cpu \<Rightarrow> vmx_globals \<Rightarrow> u64 \<Rightarrow> u64 \<Rightarrow> u64 \<Rightarrow> (u64 \<times> u64) list" where
  "control_fields hw g io tbl root = [
     (PIN_BASED_VM_EXEC_CONTROL, ucast (vmx_pin_based_exec_control g)),
     (IO_BITMAP_A, io), (IO_BITMAP_B, io + PAGE_SIZE), (MSR_BITMAP, tbl),
     (CPU_BASED_VM_EXEC_CONTROL, ucast (vmx_cpu_based_exec_control g OR CPU_BASED_ACTIVATE_SECONDARY_CONTROLS
        OR CPU_BASED_ACTIVATE_IO_BITMAP OR CPU_BASED_ACTIVATE_MSR_BITMAP)),
     (EPT_POINTER, ept_pointer (vmx_ept_control g) root), (VIRTUAL_PROCESSOR_ID, 1),
     (VM_EXIT_CONTROLS, ucast (vmx_vmexit_control g OR VM_EXIT_IA32E_MODE OR VM_EXIT_ACK_INTR_ON_EXIT
        OR VM_EXIT_SAVE_GUEST_PAT OR VM_EXIT_LOAD_HOST_PAT)),
     (VM_ENTRY_CONTROLS, ucast (vmx_vmentry_control g OR VM_ENTRY_LOAD_GUEST_PAT)),
     (HOST_SS_SELECTOR, VMM_DS64), (HOST_DS_SELECTOR, VMM_DS64), (HOST_ES_SELECTOR, VMM_DS64),
     (HOST_FS_SELECTOR, VMM_DS64), (HOST_GS_SELECTOR, VMM_DS64), (HOST_FS_BASE, 0), (HOST_GS_BASE, 0),
     (HOST_CR0, hw_cr0 hw OR X86_CR0_TS), (HOST_CR4, hw_cr4 hw OR X86_CR4_OSXSAVE),
     (HOST_CS_SELECTOR, VMM_CS64), (HOST_RIP, hw_entry hw),
     (HOST_SYSENTER_CS, 0), (HOST_SYSENTER_EIP, 0), (HOST_SYSENTER_ESP, 0),
     (HOST_GDTR_BASE, hw_gdt hw), (HOST_IDTR_BASE, hw_idt hw), (HOST_TR_SELECTOR, VMM_DS64), (HOST_TR_BASE, 0)]"

lemma field_values_globals [simp]:
  "field_values (g\<lparr>vmx_cpu_based_exec_control := c\<rparr>) = field_values g"
  "field_values (g\<lparr>vmx_secondary_exec_control := c\<rparr>) = field_values g"
  "field_values (g\<lparr>vmx_ept_control := e\<rparr>) = field_values g"
  "field_values (g\<lparr>vmx_vmexit_control := c\<rparr>) = field_values g"
  "field_values (g\<lparr>vmx_vmentry_control := c\<rparr>) = field_values g"
  by (simp_all add: field_values_def)

lemma put_fields_globals [simp]:
  "vmx_cpu_based_exec_control (put_fields ws g) = vmx_cpu_based_exec_control g"
  "vmx_pin_based_exec_control (put_fields ws g) = vmx_pin_based_exec_control g"
  "vmx_secondary_exec_control (put_fields ws g) = vmx_secondary_exec_control g"
  "vmx_ept_control (put_fields ws g) = vmx_ept_control g"
  "vmx_vmexit_control (put_fields ws g) = vmx_vmexit_control g"
  "vmx_vmentry_control (put_fields ws g) = vmx_vmentry_control g"
  by (simp_all add: put_fields_def Let_def)

text \<open>The fields that the code writes.\<close>

definition init_fields :: "u64 list" where
  "init_fields = [
     PIN_BASED_VM_EXEC_CONTROL, IO_BITMAP_A, IO_BITMAP_B, MSR_BITMAP, CPU_BASED_VM_EXEC_CONTROL, EPT_POINTER,
     VIRTUAL_PROCESSOR_ID, VM_EXIT_CONTROLS, VM_ENTRY_CONTROLS, HOST_SS_SELECTOR, HOST_DS_SELECTOR,
     HOST_ES_SELECTOR, HOST_FS_SELECTOR, HOST_GS_SELECTOR, HOST_FS_BASE, HOST_GS_BASE, HOST_CR0, HOST_CR4,
     HOST_CS_SELECTOR, HOST_RIP, HOST_SYSENTER_CS, HOST_SYSENTER_EIP, HOST_SYSENTER_ESP, HOST_GDTR_BASE,
     HOST_IDTR_BASE, HOST_TR_SELECTOR, HOST_TR_BASE, VM_EXIT_MSR_LOAD_COUNT, VM_EXIT_MSR_STORE_COUNT,
     VM_ENTRY_MSR_LOAD_COUNT, VM_ENTRY_INTR_INFO, CR0_GUEST_HOST_MASK, CR4_GUEST_HOST_MASK,
     PAGE_FAULT_ERROR_CODE_MASK, PAGE_FAULT_ERROR_CODE_MATCH, CR3_TARGET_COUNT, GUEST_ACTIVITY_STATE,
     GUEST_ES_BASE, GUEST_SS_BASE, GUEST_DS_BASE, GUEST_FS_BASE, GUEST_GS_BASE, GUEST_CS_BASE,
     GUEST_ES_LIMIT, GUEST_SS_LIMIT, GUEST_DS_LIMIT, GUEST_FS_LIMIT, GUEST_GS_LIMIT, GUEST_CS_LIMIT,
     GUEST_ES_AR_BYTES, GUEST_SS_AR_BYTES, GUEST_DS_AR_BYTES, GUEST_FS_AR_BYTES, GUEST_GS_AR_BYTES,
     GUEST_CS_AR_BYTES, GUEST_ES_SELECTOR, GUEST_SS_SELECTOR, GUEST_DS_SELECTOR, GUEST_FS_SELECTOR,
     GUEST_GS_SELECTOR, GUEST_CS_SELECTOR, GUEST_IDTR_BASE, GUEST_IDTR_LIMIT, GUEST_GDTR_BASE,
     GUEST_GDTR_LIMIT, GUEST_LDTR_AR_BYTES, GUEST_LDTR_SELECTOR, GUEST_LDTR_BASE, GUEST_LDTR_LIMIT,
     GUEST_TR_AR_BYTES, GUEST_TR_BASE, GUEST_TR_LIMIT, GUEST_INTERRUPTIBILITY_INFO, GUEST_DR7,
     VMCS_LINK_POINTER, EXCEPTION_BITMAP, GUEST_CR0, GUEST_CR3, GUEST_CR4, HOST_PAT, GUEST_PAT, GUEST_RSP,
     GUEST_RFLAGS, GUEST_RIP]"

lemma init_fields_known:
  "set (map fst (control_fields hw g io tbl root)) \<subseteq> set init_fields" "set (map fst (mbr_start_fields pat)) \<subseteq> set init_fields"
proof -
  have "map fst (control_fields hw g io tbl root) @ map fst (mbr_start_fields pat) = init_fields"
    by (simp add: control_fields_def mbr_start_fields_def init_fields_def)
  then have "set init_fields = set (map fst (control_fields hw g io tbl root)) \<union> set (map fst (mbr_start_fields pat))"
    by (metis set_append)
  then show "set (map fst (control_fields hw g io tbl root)) \<subseteq> set init_fields" "set (map fst (mbr_start_fields pat)) \<subseteq> set init_fields"
    by blast+
qed

lemmas fields_known = init_fields_known [unfolded set_map]

definition has_vmcs :: "intel_cpu \<Rightarrow> bool" where
  "has_vmcs hw \<longleftrightarrow> (\<forall>f \<in> set init_fields. hw_has_field hw f) \<and> 32 \<le> hw_address_width hw"

lemma writable_known:
  assumes "has_vmcs hw" and "current_vmcs g \<noteq> None" and "F \<subseteq> set init_fields"
  shows "writable hw g F"
  using assms by (auto simp: has_vmcs_def writable_def)

lemma set_control_params_result:
  assumes "vmx_set_control_params hw host (g, s) = ret (g', s')"
  shows "\<exists>io tbl. field_values g' = write_fields (control_fields hw g io tbl (n_cr3 (vm s))) (field_values g)"
    and "vmx_secondary_exec_control g' = vmx_secondary_exec_control g OR SECONDARY_EXEC_ENABLE_EPT OR SECONDARY_EXEC_ENABLE_VPID"
    and "current_vmcs g' = current_vmcs g" and "vmcs_ptr (vm s') = vmcs_ptr (vm s)"
proof -
  obtain io m1 tbl m2 where io: "create_intercept_table (ram s) host (push_bit 10 8) = Some (Inr (io, m1))"
    and "create_intercept_table m1 host (push_bit 10 4) = Some (Inr (tbl, m2))"
    using assms by (auto simp: vmx_set_control_params_def bindo_eq_Inr Let_def case_prod_beta machine_fields simp del: vmwrites.simps)
  then have "field_values g' = write_fields (control_fields hw g io tbl (n_cr3 (vm s))) (field_values g) \<and>
    vmx_secondary_exec_control g' = vmx_secondary_exec_control g OR SECONDARY_EXEC_ENABLE_EPT OR SECONDARY_EXEC_ENABLE_VPID \<and>
    current_vmcs g' = current_vmcs g \<and> vmcs_ptr (vm s') = vmcs_ptr (vm s)"
    using assms io
    by (auto simp: vmx_set_control_params_def control_fields_def vmcs_init_host_env_def vmwrite_Inr vmwrites_Inr
      write_fields_append bindo_eq_Inr Let_def or.assoc simp del: vmwrites.simps)
  then show "\<exists>io tbl. field_values g' = write_fields (control_fields hw g io tbl (n_cr3 (vm s))) (field_values g)"
    "vmx_secondary_exec_control g' = vmx_secondary_exec_control g OR SECONDARY_EXEC_ENABLE_EPT OR SECONDARY_EXEC_ENABLE_VPID"
    "current_vmcs g' = current_vmcs g" "vmcs_ptr (vm s') = vmcs_ptr (vm s)" by blast+
qed

lemma set_control_params_returns:
  assumes "pages_from (ram s) host k" and "has_vmcs hw" and "current_vmcs g \<noteq> None"
  shows "\<exists>g' s'. vmx_set_control_params hw host (g, s) = ret (g', s')"
proof -
  obtain m1 j where m1: "create_intercept_table (ram s) host (push_bit 10 8) = Some (Inr (page_at k, m1))" "pages_from m1 host j"
    using create_intercept_table_from [OF assms(1), of "push_bit 10 8"] by blast
  obtain m2 where m2: "create_intercept_table m1 host (push_bit 10 4) = Some (Inr (page_at j, m2))"
    using create_intercept_table_from [OF m1(2), of "push_bit 10 4"] by blast
  have f: "hw_has_field hw f" if "f \<in> fst ` set (control_fields hw g 0 0 0)" for f
    using that assms(2) fields_known(1) [of hw g 0 0 0] by (auto simp: has_vmcs_def)
  show ?thesis
    using m1(1) m2 assms(3) f
    by (simp add: vmx_set_control_params_def vmcs_init_host_env_def control_fields_def Let_def vmwrite_eq vmwrites_eq
      writable_def del: vmwrites.simps)
qed

text \<open>The pointer to the nested page tables: the fields are memory type 6, walk length 3 and, in
  the bits for the page number, the address of the root.\<close>

lemma ept_pointer_value: "ept_pointer e root = push_bit 12 root OR 0x1E"
proof (rule bit_word_eqI)
  fix k assume k: "k < LENGTH(64)"
  have e: "(6 :: u64) = push_bit 1 (mask 2)" "(3 :: u64) = mask 2" "(0x1E :: u64) = push_bit 1 (mask 4)"
    by (simp_all add: mask_eq_exp_minus_1 push_bit_eq_mult)
  have b: "bit (6 :: u64) j \<longleftrightarrow> j = 1 \<or> j = 2" "bit (3 :: u64) j \<longleftrightarrow> j < 2" "bit (0x1E :: u64) j \<longleftrightarrow> 1 \<le> j \<and> j < 5" for j
    unfolding e bit_push_bit_iff bit_mask_iff by auto
  consider "k < 3" | "3 \<le> k \<and> k < 6" | "6 \<le> k \<and> k < 12" | "12 \<le> k" by linarith
  then show "bit (ept_pointer e root) k \<longleftrightarrow> bit (push_bit 12 root OR 0x1E) k"
    using k unfolding ept_pointer_def bit_or_iff bit_push_bit_iff bit_set_field b
    by cases auto
qed

text \<open>Detection touches no field of a control structure.\<close>

lemma detect_fields [simp]:
  "vmcs_fields (vmx_detect_capability hw g) = vmcs_fields g"
  "current_vmcs (vmx_detect_capability hw g) = current_vmcs g"
  by (simp_all add: vmx_detect_capability_def Let_def case_prod_beta)

text \<open>The must-be-one word of the processor-based controls.\<close>

definition cpu_must_be_one :: "intel_cpu \<Rightarrow> u32" where
  "cpu_must_be_one hw = ucast (hw_msr hw (if bit (hw_msr hw MSR_IA32_VMX_BASIC) 55
     then MSR_IA32_VMX_TRUE_PROCBASED_CTLS else MSR_IA32_VMX_PROCBASED_CTLS))"

lemma ctrue_flag: "ctrue (w AND push_bit n 1) \<longleftrightarrow> bit w n" if "n < LENGTH('a)" for w :: "'a::len word"
  using that word_and_bit_iff_ctrue [of w n] by simp

lemma control_bits:
  "ctrue (w AND CPU_BASED_ACTIVATE_SECONDARY_CONTROLS) \<longleftrightarrow> bit w 31" "ctrue (w AND SECONDARY_EXEC_ENABLE_EPT) \<longleftrightarrow> bit w 1"
  "ctrue (w AND IA32_FEATURE_CONTROL_MSR_LOCK) \<longleftrightarrow> bit w 0"
  "ctrue (w AND IA32_FEATURE_CONTROL_MSR_ENABLE_VMXON_OUTSIDE_SMX) \<longleftrightarrow> bit w 2" for w :: u32
  using ctrue_flag [of 31 w] ctrue_flag [of 1 w] ctrue_flag [of 0 w] ctrue_flag [of 2 w]
  by (simp_all add: CPU_BASED_ACTIVATE_SECONDARY_CONTROLS_def SECONDARY_EXEC_ENABLE_EPT_def push_bit_eq_mult
      IA32_FEATURE_CONTROL_MSR_LOCK_def IA32_FEATURE_CONTROL_MSR_ENABLE_VMXON_OUTSIDE_SMX_def)

lemma detect_secondary:
  assumes "vmx_pin_based_exec_control g = 0"
  shows "vmx_secondary_exec_control (vmx_detect_capability hw g) =
    (if bit (cpu_must_be_one hw) 31 then ucast (hw_msr hw MSR_IA32_VMX_PROCBASED_CTLS2) else vmx_secondary_exec_default1 g)"
proof -
  have "ctrue ((ucast (drop_bit 32 (hw_msr hw MSR_IA32_VMX_BASIC)) :: u32) AND push_bit 23 1) \<longleftrightarrow>
      bit (hw_msr hw MSR_IA32_VMX_BASIC) 55"
    using ctrue_flag [of 23 "ucast (drop_bit 32 (hw_msr hw MSR_IA32_VMX_BASIC)) :: u32"] by (simp add: bit_simps)
  then show ?thesis
    using assms
    by (simp add: vmx_detect_capability_def Let_def rdmsr_def control_bits cpu_must_be_one_def)
qed

lemma mask_checks:
  "\<not> (ctrue (NOT c AND f0) \<or> ctrue (c AND NOT f1)) \<longleftrightarrow>
     (\<forall>k < 64. (bit f0 k \<longrightarrow> bit c k) \<and> (bit c k \<longrightarrow> bit f1 k))" for c f0 f1 :: u64
  by (auto simp: ctrue_def bit_eq_iff bit_simps)

lemma rdmsrl_value [simp]: "rdmsrl r msr = r msr"
  by (auto simp: rdmsrl_def rdmsr_def bit_eq_iff bit_simps)

text \<open>What the processor must offer.\<close>

definition vmx_usable :: "cpuinfo_x86 \<Rightarrow> intel_cpu \<Rightarrow> vmx_globals \<Rightarrow> bool" where
  "vmx_usable c hw g \<longleftrightarrow>
     bit (x86_capability c ! 4) 5 \<and> bit (vmx_secondary_exec_control (vmx_detect_capability hw g)) 1 \<and>
     (\<forall>k < 64. (bit (hw_msr hw MSR_IA32_VMX_CR0_FIXED0) k \<longrightarrow> bit (hw_cr0 hw) k) \<and>
       (bit (hw_cr0 hw) k \<longrightarrow> bit (hw_msr hw MSR_IA32_VMX_CR0_FIXED1) k)) \<and>
     (bit (hw_msr hw IA32_FEATURE_CONTROL_MSR) 0 \<longrightarrow> bit (hw_msr hw IA32_FEATURE_CONTROL_MSR) 2)"

lemma enable_vmx_result:
  assumes "length (x86_capability c) = NCAPINTS"
  shows "enable_vmx cpuid c (hw, g) = ret r \<longleftrightarrow>
    vmx_usable c hw g \<and> r = (c\<lparr>x86_capability := (x86_capability c)[5 := cpuid_ecx cpuid 1]\<rparr>,
      hw\<lparr>hw_cr4 := hw_cr4 hw OR X86_CR4_VMXE\<rparr>, vmx_detect_capability hw g)"
proof -
  have f: "constant_test_bit X86_FEATURE_VMX ((x86_capability c)[5 := w]) \<longleftrightarrow> bit (x86_capability c ! 4) 5" for w
    by (simp add: constant_test_bit_iff X86_FEATURE_VMX_def)
  have m: "(\<not> ctrue (NOT (hw_cr0 hw) AND hw_msr hw MSR_IA32_VMX_CR0_FIXED0) \<and>
        \<not> ctrue (hw_cr0 hw AND NOT (hw_msr hw MSR_IA32_VMX_CR0_FIXED1))) \<longleftrightarrow>
      (\<forall>k < 64. (bit (hw_msr hw MSR_IA32_VMX_CR0_FIXED0) k \<longrightarrow> bit (hw_cr0 hw) k) \<and>
       (bit (hw_cr0 hw) k \<longrightarrow> bit (hw_msr hw MSR_IA32_VMX_CR0_FIXED1) k))"
    using mask_checks [of "hw_cr0 hw"] by blast
  show ?thesis
    unfolding vmx_usable_def m [symmetric]
    by (auto simp: enable_vmx_def Let_def f control_bits rdmsr_def fatal_failure_def bit_simps)
qed

text \<open>The processor and globals for the witnesses.\<close>

definition regions_usable :: "intel_cpu \<Rightarrow> bool" where
  "regions_usable hw \<longleftrightarrow>
     (let high = (ucast (drop_bit 32 (hw_msr hw MSR_IA32_VMX_BASIC)) :: u32)
      in high AND 0x1fff \<le> 0x1000 \<and> \<not> bit high 16 \<and> drop_bit 18 high AND 15 = 6) \<and>
     \<not> bit (hw_msr hw MSR_IA32_VMX_BASIC) 31"

lemma detect_basic [simp]:
  "vmx_basic_msr_high (vmx_detect_capability hw g) = ucast (drop_bit 32 (hw_msr hw MSR_IA32_VMX_BASIC))"
  "vmcs_revision_id (vmx_detect_capability hw g) = ucast (hw_msr hw MSR_IA32_VMX_BASIC)"
  by (simp_all add: vmx_detect_capability_def Let_def rdmsr_def)

lemma pages_from_store:
  assumes "pages_from m host k" and "j \<le> 32"
  shows "pages_from (store32 m (page_at j) v) host k"
proof (rule pages_from_frame [OF assms(1)])
  fix x :: u64
  assume "in_range 0x8100000 8 x"
  then have "unat x \<ge> 0x8100000"
    using unat_minus_less [of "0x8100000" 8 x] by (simp add: in_range_def)
  then have "unat (x - page_at j) \<ge> 0x8000000"
    using unat_page_at [OF assms(2)] assms(2) by (simp add: unat_sub_if')
  then show "store32 m (page_at j) v x = m x" by (intro store_le_other) (simp_all add: in_range_def)
qed

lemma basic_checks:
  "(ucast (high AND 0x1fff) :: u64) > PAGE_SIZE \<longleftrightarrow> \<not> high AND 0x1fff \<le> 0x1000"
  "ctrue (high AND 0x10000) \<longleftrightarrow> bit high 16" for high :: u32
  using ctrue_flag [of 16 high] by (simp_all add: PAGE_SIZE_def word_less_nat_alt word_le_nat_alt not_le)

lemma page_at_0: "k \<le> 32 \<Longrightarrow> page_at k = 0 \<longleftrightarrow> k = 0"
  using unat_page_at [of k] by (auto simp: word_unat_eq_iff simp del: push_bit_of_nat)

lemma alloc_vmcs_from:
  assumes "pages_from m host k" and "0 < k"
  shows "\<exists>m'. alloc_vmcs g m host = Some (Inr (page_at k, m')) \<and> pages_from m' host (min 32 (k + 1)) \<and>
    load32 m' (page_at k) = vmcs_revision_id g"
proof -
  obtain m1 where m1: "alloc_host_pages m host 1 1 = Some (Inr (of_nat k, m1))" "pages_from m1 host (min 32 (k + 1))"
    using alloc_pages_from [OF assms(1), of 1] by auto
  have k: "k \<le> 32" using assms by (simp add: pages_from_def)
  then have nz: "page_at k \<noteq> 0" using page_at_0 assms(2) by blast
  have "pages_from (memset m1 (page_at k) 0 PAGE_SIZE) host (min 32 (k + 1))"
    by (rule pages_from_memset [OF m1(2) k]) (simp add: PAGE_SIZE_def)
  moreover from this have "pages_from (store32 (memset m1 (page_at k) 0 PAGE_SIZE) (page_at k) (vmcs_revision_id g)) host (min 32 (k + 1))"
    using k by (rule pages_from_store)
  ultimately show ?thesis using m1(1) nz by (simp add: alloc_vmcs_def Let_def)
qed

text \<open>VMCLEAR and VMPTRLD of a page the allocator gave out.\<close>

lemma load_vmcs:
  assumes "has_vmcs hw" and "\<not> bit (hw_msr hw MSR_IA32_VMX_BASIC) 31" and "p \<le> 32" and "vmxon_pointer g = Some a" and "a \<noteq> page_at p"
    and "current_vmcs g = None" and "load32 m (page_at p) = ucast (hw_msr hw MSR_IA32_VMX_BASIC)"
  shows "vmpclear hw (page_at p) g = Inr g" "vmptrld hw m (page_at p) g = Inr (g\<lparr>current_vmcs := Some (page_at p)\<rparr>)"
proof -
  have "unat (page_at p) < 2 ^ 32" using unat_page_at [OF assms(3)] assms(3) by simp
  moreover have "(2 :: nat) ^ 32 \<le> 2 ^ hw_address_width hw"
    using assms(1) by (intro power_increasing) (simp_all add: has_vmcs_def)
  ultimately have "unat (page_at p) < 2 ^ hw_address_width hw" by linarith
  moreover have "take_bit 12 (page_at p) = 0" by (rule bit_word_eqI) (simp add: bit_simps)
  ultimately have ok: "vmcs_address hw g (page_at p)" using assms(4,5) by (simp add: vmcs_address_def)
  have "take_bit 31 (ucast (hw_msr hw MSR_IA32_VMX_BASIC) :: u32) = ucast (hw_msr hw MSR_IA32_VMX_BASIC)"
  proof (rule bit_word_eqI)
    fix n assume "n < LENGTH(32)"
    then consider "n < 31" | "n = 31" by fastforce
    then show "bit (take_bit 31 (ucast (hw_msr hw MSR_IA32_VMX_BASIC) :: u32)) n =
        bit (ucast (hw_msr hw MSR_IA32_VMX_BASIC) :: u32) n"
      using assms(2) by cases (simp_all add: bit_simps)
  qed
  then show "vmpclear hw (page_at p) g = Inr g" "vmptrld hw m (page_at p) g = Inr (g\<lparr>current_vmcs := Some (page_at p)\<rparr>)"
    using ok assms(6,7) by (simp_all add: vmpclear_def vmptrld_def)
qed

lemma init_intel_result:
  assumes "pages_from (ram s) host k" and "0 < k" and "length (x86_capability c) = NCAPINTS"
    and "vmx_usable c hw g" and "regions_usable hw" and "has_vmcs hw"
    and "current_vmcs g = None" and "vmcs_ptr (vm s) = 0" and "hw_vmxon hw 0 = 0"
  shows "\<exists>hw' g1 g2 g3 s1 s2. init_intel cpuid host c (hw, g, s) = ret (hw', g3, s2) \<and>
    hw' = hw\<lparr>hw_cr4 := hw_cr4 hw OR X86_CR4_VMXE\<rparr> \<and> vmx_set_vm_to_mbr_start_state hw' g2 = Inr g3 \<and>
    vmx_set_control_params hw' host (g1, s1) = ret (g2, s2) \<and> current_vmcs g1 = Some (page_at (min 32 (k + 1))) \<and>
    vmcs_ptr (vm s1) = page_at (min 32 (k + 1)) \<and> n_cr3 (vm s1) = n_cr3 (vm s)"
proof -
  let ?hw = "hw\<lparr>hw_cr4 := hw_cr4 hw OR X86_CR4_VMXE\<rparr>"
  have hw: "has_vmcs ?hw" "\<not> bit (hw_msr ?hw MSR_IA32_VMX_BASIC) 31"
    using assms(5,6) by (simp_all add: has_vmcs_def regions_usable_def)
  obtain p where p: "p = min 32 (k + 1)" by blast
  have "k \<le> 32" "p \<le> 32" "0 < p" using assms(1) by (auto simp: p pages_from_def)
  then have nz: "page_at k \<noteq> 0" "page_at p \<noteq> 0" using page_at_0 assms(2) by blast+
  define g0 where "g0 = (vmx_detect_capability hw g)\<lparr>vmx_on_region := page_at k, vmxon_pointer := Some 0\<rparr>"
  obtain c' where e: "enable_vmx cpuid c (hw, g) = ret (c', ?hw, vmx_detect_capability hw g)"
    using enable_vmx_result [OF assms(3), of cpuid hw g] assms(4) by blast
  obtain m1 where m1: "alloc_vmcs (vmx_detect_capability hw g) (ram s) host = Some (Inr (page_at k, m1))"
      "pages_from m1 host p"
    using alloc_vmcs_from [OF assms(1,2)] unfolding p by blast
  obtain m2 where m2: "alloc_vmcs g0 m1 host = Some (Inr (page_at p, m2))"
      "pages_from m2 host (min 32 (p + 1))" "load32 m2 (page_at p) = ucast (hw_msr hw MSR_IA32_VMX_BASIC)"
    using alloc_vmcs_from [OF m1(2), of g0] \<open>0 < p\<close> by (auto simp: g0_def)
  have c: "create_vmcs g0 host (s\<lparr>ram := m1\<rparr>) = ret (page_at p, s\<lparr>ram := m2\<rparr>)"
    using assms(5) m2(1)
    by (simp add: create_vmcs_def g0_def regions_usable_def Let_def basic_checks)
  define s1 where "s1 = say (line ''VMCS location: %x'') [ArgX (page_at p)] (upd_vm (\<lambda>v. v\<lparr>vmcs_ptr := page_at p\<rparr>) (s\<lparr>ram := m2\<rparr>))"
  have s1: "pages_from (ram s1) host (min 32 (p + 1))" "vmcs_ptr (vm s1) = page_at p" "n_cr3 (vm s1) = n_cr3 (vm s)"
      "ram s1 = m2"
    using m2(2) by (simp_all add: s1_def)
  have l: "vmpclear ?hw (page_at p) g0 = Inr g0" "vmptrld ?hw m2 (page_at p) g0 = Inr (g0\<lparr>current_vmcs := Some (page_at p)\<rparr>)"
    using load_vmcs [OF hw \<open>p \<le> 32\<close>, of g0 0 m2] nz(2) assms(7) m2(3) by (simp_all add: g0_def)
  obtain g2 s2 where r: "vmx_set_control_params ?hw host (g0\<lparr>current_vmcs := Some (page_at p)\<rparr>, s1) = ret (g2, s2)"
    using set_control_params_returns [OF s1(1) hw(1)] by fastforce
  have "writable ?hw g2 (fst ` set (mbr_start_fields (rdmsrl (hw_msr ?hw) MSR_IA32_CR_PAT)))"
    using writable_known [OF hw(1) _ fields_known(2)] set_control_params_result(3) [OF r] by simp
  then obtain g3 where g3: "vmx_set_vm_to_mbr_start_state ?hw g2 = Inr g3"
    by (auto simp: vmx_set_vm_to_mbr_start_state_def vmwrites_eq simp del: vmwrites.simps)
  have "init_intel cpuid host c (hw, g, s) = ret (?hw, g3, s2)"
    using r l g3 by (simp add: init_intel_def e m1(1) g0_def [symmetric] assms(8,9) nz c s1_def [symmetric] s1(2,4) Let_def)
  then show ?thesis using r s1 g3
    by (intro exI [of _ ?hw] exI [of _ "g0\<lparr>current_vmcs := Some (page_at p)\<rparr>"] exI [of _ g2] exI [of _ g3] exI [of _ s1]
        exI [of _ s2]) (simp add: p)
qed

lemma init_intel_steps:
  assumes "init_intel cpuid host c (hw, g, s) = ret (hw', g', s')"
  shows "\<exists>g1 g2 s1. vmx_set_control_params hw' host (g1, s1) = ret (g2, s') \<and> vmx_set_vm_to_mbr_start_state hw' g2 = Inr g' \<and>
    vmcs_fields g1 = vmcs_fields g \<and> n_cr3 (vm s1) = n_cr3 (vm s) \<and> current_vmcs g1 = Some (vmcs_ptr (vm s1))"
proof -
  have cv: "vm t = vm s" if "create_vmcs g host s = ret (p, t)" for g s p t
    using that by (auto simp: create_vmcs_def bindo_eq_Inr Let_def split: if_splits)
  have ev: "vmcs_fields g1 = vmcs_fields g" if "enable_vmx cpuid c (hw, g) = ret (c1, hw1, g1)" for c1 hw1 g1
    using that by (auto simp: enable_vmx_def Let_def rdmsr_def fatal_failure_def split: if_splits)
  have lv: "vmcs_fields g2 = vmcs_fields g \<and> current_vmcs g2 = Some a"
    if "vmpclear hw a g = Inr g1" "vmptrld hw m a g1 = Inr g2" for hw a g m g1 g2
    using that by (auto simp: vmpclear_def vmptrld_def split: if_splits)
  obtain c1 hw1 g1 where e: "enable_vmx cpuid c (hw, g) = ret (c1, hw1, g1)"
    using assms by (auto simp: init_intel_def bindo_eq_Inr)
  obtain p m1 where a: "alloc_vmcs g1 (ram s) host = ret (p, m1)"
    using assms by (auto simp: init_intel_def bindo_eq_Inr e)
  define g0 where "g0 = g1\<lparr>vmx_on_region := p, vmxon_pointer := Some (vmcs_ptr (vm s))\<rparr>"
  obtain q t where c: "create_vmcs g0 host (s\<lparr>ram := m1\<rparr>) = ret (q, t)"
    using assms by (auto simp: init_intel_def bindo_eq_Inr e a g0_def Let_def fatal_failure_def split: if_splits)
  define s1 where "s1 = say (line ''VMCS location: %x'') [ArgX q] (upd_vm (\<lambda>v. v\<lparr>vmcs_ptr := q\<rparr>) t)"
  have s1: "vmcs_ptr (vm s1) = q" "n_cr3 (vm s1) = n_cr3 (vm s)" using cv [OF c] by (simp_all add: s1_def)
  have "ram s1 = ram t" by (simp add: s1_def)
  then obtain g2 g3 g4 where r: "vmpclear hw1 q g0 = Inr g2" "vmptrld hw1 (ram s1) q g2 = Inr g3"
      "vmx_set_control_params hw1 host (g3, s1) = ret (g4, s')" "hw' = hw1" "vmx_set_vm_to_mbr_start_state hw1 g4 = Inr g'"
    using assms
    by (auto simp: init_intel_def bindo_eq_Inr e a c g0_def [symmetric] s1_def [symmetric] Let_def fatal_failure_def s1(1)
        split: if_splits)
  have "vmcs_fields g3 = vmcs_fields g" "current_vmcs g3 = Some q"
    using lv [OF r(1,2)] ev [OF e] by (simp_all add: g0_def)
  then show ?thesis using r(3-5) s1 by blast
qed

subsection \<open>Properties\<close>

text \<open>C19: \<open>enable_vmx\<close> takes the word of controls that must be 1 for the word of controls that may be 1: on
  a processor that lets EPT, or the secondary controls, be switched off it stops with
  "No EPT support!".\<close>

theorem ept_must_be_forced:
  assumes "bit (x86_capability c ! 4) 5" and "vmx_pin_based_exec_control g = 0" and "vmx_secondary_exec_default1 g = 0"
    and "\<not> bit (cpu_must_be_one hw) 31 \<or> \<not> bit (hw_msr hw MSR_IA32_VMX_PROCBASED_CTLS2) 1"
  shows "enable_vmx cpuid c (hw, g) = Some (fatal_failure (line ''No EPT support!''))"
proof -
  have "\<not> bit (vmx_secondary_exec_control (vmx_detect_capability hw g)) 1"
    using assms(3,4) by (auto simp: detect_secondary [OF assms(2)] bit_simps)
  then show ?thesis
    using assms(1) by (simp add: enable_vmx_def Let_def constant_test_bit_iff X86_FEATURE_VMX_def control_bits)
qed

definition example_cpuinfo :: cpuinfo_x86 where
  "example_cpuinfo = zero_cpuinfo\<lparr>x86_capability := (replicate NCAPINTS 0)[4 := 0x20]\<rparr>"

lemma example_intel_bits:
  "bit (x86_capability example_cpuinfo ! 4) 5" "length (x86_capability example_cpuinfo) = NCAPINTS"
  "bit (cpu_must_be_one (example_intel sec)) 31" "hw_msr (example_intel sec) MSR_IA32_VMX_PROCBASED_CTLS2 = sec"
  by (simp_all add: example_cpuinfo_def NCAPINTS_def cpu_must_be_one_def example_intel_def MSR_IA32_VMX_BASIC_def
      MSR_IA32_VMX_PROCBASED_CTLS_def MSR_IA32_VMX_PROCBASED_CTLS2_def bit_simps)

theorem ept_must_be_forced_witness:
  "enable_vmx example_cpuid example_cpuinfo (example_intel 0xFF00000000, zero_globals) =
     Some (fatal_failure (line ''No EPT support!''))"
  by (rule ept_must_be_forced) (simp_all add: example_intel_bits zero_globals_def)

text \<open>All the fields that \<open>init_intel\<close> writes, over those there were.\<close>

lemma init_intel_fields:
  assumes "vmx_set_control_params hw host (g1, s1) = ret (g2, s2)" and "vmx_set_vm_to_mbr_start_state hw g2 = Inr g3"
  shows "\<exists>io tbl. \<forall>x. field_values g3 x =
    (case map_of (rev (control_fields hw g1 io tbl (n_cr3 (vm s1)) @ mbr_start_fields (hw_msr hw MSR_IA32_CR_PAT))) x of
       Some v \<Rightarrow> v | None \<Rightarrow> field_values g1 x)"
    and "current_vmcs g3 = current_vmcs g1"
    and "writable hw g3 (fst ` set (mbr_start_fields (hw_msr hw MSR_IA32_CR_PAT)))"
proof -
  have ne: "mbr_start_fields pat \<noteq> []" for pat by (simp add: mbr_start_fields_def)
  have g3: "g3 = put_fields (mbr_start_fields (hw_msr hw MSR_IA32_CR_PAT)) g2"
      "writable hw g2 (fst ` set (mbr_start_fields (hw_msr hw MSR_IA32_CR_PAT)))"
    using assms(2) vmwrites_Inr [OF ne] by (simp_all add: vmx_set_vm_to_mbr_start_state_def)
  obtain io tbl where "field_values g2 = write_fields (control_fields hw g1 io tbl (n_cr3 (vm s1))) (field_values g1)"
    using set_control_params_result(1) [OF assms(1)] by blast
  then have "field_values g3 = write_fields (control_fields hw g1 io tbl (n_cr3 (vm s1))
      @ mbr_start_fields (hw_msr hw MSR_IA32_CR_PAT)) (field_values g1)"
    by (simp add: g3(1) write_fields_append)
  then show "\<exists>io tbl. \<forall>x. field_values g3 x =
    (case map_of (rev (control_fields hw g1 io tbl (n_cr3 (vm s1)) @ mbr_start_fields (hw_msr hw MSR_IA32_CR_PAT))) x of
       Some v \<Rightarrow> v | None \<Rightarrow> field_values g1 x)"
    by - (rule exI [of _ io], rule exI [of _ tbl], simp only: write_fields_def simp_thms)
  show "current_vmcs g3 = current_vmcs g1" using set_control_params_result(3) [OF assms(1)] by (simp add: g3(1))
  show "writable hw g3 (fst ` set (mbr_start_fields (hw_msr hw MSR_IA32_CR_PAT)))"
    using g3 by (simp add: writable_def)
qed

lemma field_lookup:
  "map_of (rev (control_fields hw g io tbl root @ mbr_start_fields pat)) SECONDARY_VM_EXEC_CONTROL = None"
  "map_of (rev (control_fields hw g io tbl root @ mbr_start_fields pat)) EPT_POINTER = Some (ept_pointer (vmx_ept_control g) root)"
  "map_of (rev (control_fields hw g io tbl root @ mbr_start_fields pat)) CPU_BASED_VM_EXEC_CONTROL =
     Some (ucast (vmx_cpu_based_exec_control g OR CPU_BASED_ACTIVATE_SECONDARY_CONTROLS
        OR CPU_BASED_ACTIVATE_IO_BITMAP OR CPU_BASED_ACTIVATE_MSR_BITMAP))"
  "map_of (rev (control_fields hw g io tbl root @ mbr_start_fields pat)) GUEST_RIP = Some 0x7C00"
  "map_of (rev (control_fields hw g io tbl root @ mbr_start_fields pat)) GUEST_CR0 = Some (X86_CR0_PE OR X86_CR0_ET)"
  "map_of (rev (control_fields hw g io tbl root @ mbr_start_fields pat)) EXCEPTION_BITMAP = Some 0"
  "map_of (rev (control_fields hw g io tbl root @ mbr_start_fields pat)) HOST_RIP = Some (hw_entry hw)"
  "map_of (rev (control_fields hw g io tbl root @ mbr_start_fields pat)) HOST_CR4 = Some (hw_cr4 hw OR X86_CR4_OSXSAVE)"
  "map_of (rev (control_fields hw g io tbl root @ mbr_start_fields pat)) VIRTUAL_PROCESSOR_ID = Some 1"
  "map_of (rev (control_fields hw g io tbl root @ mbr_start_fields pat)) VMCS_LINK_POINTER = Some (- 1)"
  by (simp_all add: control_fields_def mbr_start_fields_def field_defs)

text \<open>C18: when \<open>init_intel\<close> gets through, and what it leaves.  The processor offers what the monitor asks for
  (\<open>vmx_usable\<close>, \<open>regions_usable\<close>), has the fields that the code writes and physical addresses of at least 32 bits, and has
  no current control structure; VMXON succeeds although it is given the pointer 0 that \<open>vm_create\<close> left, not the region
  that was made for it; and pages are left among the first 32 for the control structure and
  the tables not to share one.  Then \<open>init_intel\<close> returns; the page of the control structure is the current
  one, and in it the guest starts at 0x7C00 in protected mode, with no exception intercepted, its own processor
  identifier and no linked structure, and the host resumes at its exit handler with CR4.VMXE set.\<close>

theorem init_intel_ready:
  assumes "pages_from (ram s) host k" and "0 < k" and "k < 31" and "length (x86_capability c) = NCAPINTS"
    and "vmx_usable c hw g" and "regions_usable hw" and "has_vmcs hw"
    and "current_vmcs g = None" and "vmcs_ptr (vm s) = 0" and "hw_vmxon hw 0 = 0"
  shows "\<exists>hw' g' s'. init_intel cpuid host c (hw, g, s) = ret (hw', g', s') \<and>
    vmcs_ptr (vm s') = page_at (k + 1) \<and> current_vmcs g' = Some (page_at (k + 1)) \<and>
    vmread hw' GUEST_RIP g' = Inr 0x7C00 \<and> vmread hw' GUEST_CR0 g' = Inr (X86_CR0_PE OR X86_CR0_ET) \<and>
    vmread hw' EXCEPTION_BITMAP g' = Inr 0 \<and> vmread hw' VIRTUAL_PROCESSOR_ID g' = Inr 1 \<and>
    vmread hw' VMCS_LINK_POINTER g' = Inr (- 1) \<and> vmread hw' HOST_RIP g' = Inr (hw_entry hw) \<and>
    vmread hw' HOST_CR4 g' = Inr (hw_cr4 hw OR X86_CR4_VMXE OR X86_CR4_OSXSAVE)"
proof -
  have k: "min 32 (k + 1) = k + 1" using assms(3) by simp
  obtain hw' g1 g2 g3 s1 s2 where r: "init_intel cpuid host c (hw, g, s) = ret (hw', g3, s2)"
      "hw' = hw\<lparr>hw_cr4 := hw_cr4 hw OR X86_CR4_VMXE\<rparr>" "vmx_set_vm_to_mbr_start_state hw' g2 = Inr g3"
      "vmx_set_control_params hw' host (g1, s1) = ret (g2, s2)" "current_vmcs g1 = Some (page_at (k + 1))"
      "vmcs_ptr (vm s1) = page_at (k + 1)"
    using init_intel_result [OF assms(1,2,4-), of cpuid] unfolding k by blast
  obtain io tbl where f: "\<forall>x. field_values g3 x =
    (case map_of (rev (control_fields hw' g1 io tbl (n_cr3 (vm s1)) @ mbr_start_fields (hw_msr hw' MSR_IA32_CR_PAT))) x of
       Some v \<Rightarrow> v | None \<Rightarrow> field_values g1 x)"
    using init_intel_fields(1) [OF r(4,3)] by blast
  have cur: "current_vmcs g3 = Some (page_at (k + 1))" using init_intel_fields(2) [OF r(4,3)] r(5) by simp
  have "has_vmcs hw'" using assms(7) by (simp add: r(2) has_vmcs_def)
  then have rd: "vmread hw' x g3 = Inr (field_values g3 x)" if "x \<in> set init_fields" for x
    using writable_known [of hw' g3 "{x}"] cur that by (simp add: vmread_eq)
  have known: "{GUEST_RIP, GUEST_CR0, EXCEPTION_BITMAP, VIRTUAL_PROCESSOR_ID, VMCS_LINK_POINTER, HOST_RIP, HOST_CR4} \<subseteq> set init_fields"
    by (simp add: init_fields_def)
  have ptr: "vmcs_ptr (vm s2) = page_at (k + 1)" using set_control_params_result(4) [OF r(4)] r(6) by simp
  note vals = known [THEN subsetD, THEN rd]
  show ?thesis
    by (intro exI [of _ hw'] exI [of _ g3] exI [of _ s2] conjI)
      (simp_all only: r(1) ptr cur vals insert_iff simp_thms f field_lookup option.case, simp_all add: r(2) or.assoc)
qed

lemma example_intel_usable:
  "vmx_usable example_cpuinfo (example_intel 2) zero_globals" "regions_usable (example_intel 2)"
  "has_vmcs (example_intel 2)" "current_vmcs zero_globals = None" "hw_vmxon (example_intel 2) p = 0"
proof -
  have "bit (vmx_secondary_exec_control (vmx_detect_capability (example_intel 2) zero_globals)) 1"
    by (simp add: detect_secondary zero_globals_def example_intel_bits bit_simps)
  moreover have "bit (0x80000011 :: u64) k \<Longrightarrow> bit (0xFFFFFFFF :: u64) k" for k
  proof -
    assume h: "bit (0x80000011 :: u64) k"
    have "(0x80000011 :: u64) AND 0xFFFFFFFF = 0x80000011" by simp
    then show "bit (0xFFFFFFFF :: u64) k" using h by (metis bit_and_iff)
  qed
  ultimately show "vmx_usable example_cpuinfo (example_intel 2) zero_globals"
    by (simp add: vmx_usable_def example_intel_bits(1))
      (simp add: example_intel_def MSR_IA32_VMX_BASIC_def MSR_IA32_VMX_PROCBASED_CTLS_def MSR_IA32_VMX_PROCBASED_CTLS2_def
        MSR_IA32_VMX_CR0_FIXED0_def MSR_IA32_VMX_CR0_FIXED1_def IA32_FEATURE_CONTROL_MSR_def)
  show "regions_usable (example_intel 2)" "hw_vmxon (example_intel 2) p = 0" "current_vmcs zero_globals = None"
    by (simp_all add: regions_usable_def example_intel_def zero_globals_def Let_def bit_simps drop_bit_eq_div bit_word_unat)
  show "has_vmcs (example_intel 2)" by (simp add: has_vmcs_def example_intel_def)
qed

lemma example_vmcs_ptr: "vmcs_ptr (vm roomy_machine) = 0" "vmcs_ptr (vm full_machine) = 0"
  by (simp_all add: roomy_machine_def full_machine_def zero_vm_info_def)

theorem init_intel_ready_witness:
  "\<exists>hw' g' s'. init_intel example_cpuid \<lparr>alloc_bitmap = 0x8100000, max_page = 0x10000\<rparr> example_cpuinfo
     (example_intel 2, zero_globals, roomy_machine) = ret (hw', g', s') \<and> vmread hw' GUEST_RIP g' = Inr 0x7C00"
  using init_intel_ready [OF roomy_pages _ _ example_intel_bits(2) example_intel_usable(1-4) example_vmcs_ptr(1)
    example_intel_usable(5), of example_cpuid] by fastforce

text \<open>\<open>init_intel\<close> never writes the secondary controls, where EPT and processor identifiers are
  switched on: the field keeps its value although the primary controls activate it.  And the EPT
  pointer has the address of the nested page table where its page number belongs: it points
  4096 times as far.\<close>

theorem secondary_controls_unwritten:
  assumes "init_intel cpuid host c (hw, g, s) = ret (hw', g', s')"
  shows "current_vmcs g' = Some (vmcs_ptr (vm s')) \<and>
    vmcs_fields g' (vmcs_ptr (vm s')) SECONDARY_VM_EXEC_CONTROL = vmcs_fields g (vmcs_ptr (vm s')) SECONDARY_VM_EXEC_CONTROL \<and>
    bit (vmcs_fields g' (vmcs_ptr (vm s')) CPU_BASED_VM_EXEC_CONTROL) 31 \<and>
    vmcs_fields g' (vmcs_ptr (vm s')) EPT_POINTER = push_bit 12 (n_cr3 (vm s)) OR 0x1E"
proof -
  obtain g1 g2 s1 where r: "vmx_set_control_params hw' host (g1, s1) = ret (g2, s')"
      "vmx_set_vm_to_mbr_start_state hw' g2 = Inr g'" "vmcs_fields g1 = vmcs_fields g" "n_cr3 (vm s1) = n_cr3 (vm s)"
      "current_vmcs g1 = Some (vmcs_ptr (vm s1))"
    using init_intel_steps [OF assms] by blast
  obtain io tbl where f: "\<forall>x. field_values g' x =
    (case map_of (rev (control_fields hw' g1 io tbl (n_cr3 (vm s1)) @ mbr_start_fields (hw_msr hw' MSR_IA32_CR_PAT))) x of
       Some v \<Rightarrow> v | None \<Rightarrow> field_values g1 x)"
    using init_intel_fields(1) [OF r(1,2)] by blast
  have cur: "current_vmcs g' = Some (vmcs_ptr (vm s'))" "vmcs_ptr (vm s1) = vmcs_ptr (vm s')"
    using init_intel_fields(2) [OF r(1,2)] r(5) set_control_params_result(4) [OF r(1)] by simp_all
  have v: "vmcs_fields g' (vmcs_ptr (vm s')) = field_values g'" "field_values g1 = vmcs_fields g (vmcs_ptr (vm s'))"
    using cur r(3,5) by (simp_all add: field_values_def)
  have "bit (ucast (w OR CPU_BASED_ACTIVATE_SECONDARY_CONTROLS OR b OR d) :: u64) 31" for w b d :: u32
    by (simp add: bit_simps CPU_BASED_ACTIVATE_SECONDARY_CONTROLS_def)
  then show ?thesis
    unfolding cur(1) v(1) f [rule_format] field_lookup option.case ept_pointer_value r(4) v(2) by simp
qed

theorem secondary_controls_unwritten_witness:
  "\<exists>hw' g' s'. init_intel example_cpuid \<lparr>alloc_bitmap = 0x8100000, max_page = 0x10000\<rparr> example_cpuinfo
     (example_intel 2, zero_globals, full_machine) = ret (hw', g', s') \<and>
     vmcs_fields g' (vmcs_ptr (vm s')) SECONDARY_VM_EXEC_CONTROL = 0"
proof -
  obtain hw' g' s' where r: "init_intel example_cpuid \<lparr>alloc_bitmap = 0x8100000, max_page = 0x10000\<rparr> example_cpuinfo
     (example_intel 2, zero_globals, full_machine) = ret (hw', g', s')"
    using init_intel_result [OF example_pages _ example_intel_bits(2) example_intel_usable(1-4) example_vmcs_ptr(2)
      example_intel_usable(5), of example_cpuid] by fastforce
  show ?thesis using secondary_controls_unwritten [OF r] r by (simp add: zero_globals_def)
qed

end
