(* ===== verification/VmxOps.thy ===== *)
theory VmxOps
  imports Vmx
begin

text \<open>
  The parts of \<open>include/vmx.h\<close>, \<open>include/vmcs.h\<close> and \<open>kernel/vmcs.c\<close> that the start-up of the Intel extension
  does not use: the tests for features, the invalidation of cached translations with its fall-back to
  coarser kinds, single bits of the control structure, and the entries of extended page tables.  The
  instructions INVEPT and INVVPID are recorded with their operands, as the processor's answer to them is
  not part of the program.
\<close>

subsection \<open>Features\<close>

definition PIN_BASED_VIRTUAL_NMIS :: u32 where "PIN_BASED_VIRTUAL_NMIS = 0x00000020"
definition CPU_BASED_TPR_SHADOW :: u32 where "CPU_BASED_TPR_SHADOW = 0x00200000"
definition SECONDARY_EXEC_VIRTUALIZE_APIC_ACCESSES :: u32 where
  "SECONDARY_EXEC_VIRTUALIZE_APIC_ACCESSES = 0x00000001"
definition SECONDARY_EXEC_UNRESTRICTED_GUEST :: u32 where
  "SECONDARY_EXEC_UNRESTRICTED_GUEST = 0x00000080"
definition VMX_EPT_SUPERPAGE_2MB :: u64 where "VMX_EPT_SUPERPAGE_2MB = 0x00010000"
definition VMX_EPT_INVEPT_SINGLE_CONTEXT :: u64 where "VMX_EPT_INVEPT_SINGLE_CONTEXT = 0x02000000"
definition VMX_VPID_INVVPID_INDIVIDUAL_ADDR :: u64 where
  "VMX_VPID_INVVPID_INDIVIDUAL_ADDR = 0x10000000000"
definition VMX_VPID_INVVPID_SINGLE_CONTEXT :: u64 where
  "VMX_VPID_INVVPID_SINGLE_CONTEXT = 0x20000000000"

definition cpu_has_vmx_virtualize_apic_accesses :: "vmx_globals \<Rightarrow> u32" where
  "cpu_has_vmx_virtualize_apic_accesses g =
     vmx_secondary_exec_control g AND SECONDARY_EXEC_VIRTUALIZE_APIC_ACCESSES"
definition cpu_has_vmx_tpr_shadow :: "vmx_globals \<Rightarrow> u32" where
  "cpu_has_vmx_tpr_shadow g = vmx_cpu_based_exec_control g AND CPU_BASED_TPR_SHADOW"
definition cpu_has_vmx_ept :: "vmx_globals \<Rightarrow> u32" where
  "cpu_has_vmx_ept g = vmx_secondary_exec_control g AND SECONDARY_EXEC_ENABLE_EPT"
definition cpu_has_vmx_vpid :: "vmx_globals \<Rightarrow> u32" where
  "cpu_has_vmx_vpid g = vmx_secondary_exec_control g AND SECONDARY_EXEC_ENABLE_VPID"
definition cpu_has_vmx_vnmi :: "vmx_globals \<Rightarrow> u32" where
  "cpu_has_vmx_vnmi g = vmx_pin_based_exec_control g AND PIN_BASED_VIRTUAL_NMIS"
definition cpu_has_vmx_msr_bitmap :: "vmx_globals \<Rightarrow> u32" where
  "cpu_has_vmx_msr_bitmap g = vmx_cpu_based_exec_control g AND CPU_BASED_ACTIVATE_MSR_BITMAP"
definition cpu_has_vmx_unrestricted_guest :: "vmx_globals \<Rightarrow> u32" where
  "cpu_has_vmx_unrestricted_guest g =
     vmx_secondary_exec_control g AND SECONDARY_EXEC_UNRESTRICTED_GUEST"
definition cpu_has_vmx_ept_2mb :: "vmx_globals \<Rightarrow> u64" where
  "cpu_has_vmx_ept_2mb g = vmx_ept_vpid_cap g AND VMX_EPT_SUPERPAGE_2MB"
definition cpu_has_vmx_ept_invept_single_context :: "vmx_globals \<Rightarrow> u64" where
  "cpu_has_vmx_ept_invept_single_context g = vmx_ept_vpid_cap g AND VMX_EPT_INVEPT_SINGLE_CONTEXT"
definition cpu_has_vmx_vpid_invvpid_individual_addr :: "vmx_globals \<Rightarrow> u64" where
  "cpu_has_vmx_vpid_invvpid_individual_addr g =
     vmx_ept_vpid_cap g AND VMX_VPID_INVVPID_INDIVIDUAL_ADDR"
definition cpu_has_vmx_vpid_invvpid_single_context :: "vmx_globals \<Rightarrow> u64" where
  "cpu_has_vmx_vpid_invvpid_single_context g =
     vmx_ept_vpid_cap g AND VMX_VPID_INVVPID_SINGLE_CONTEXT"

text \<open>The calls of \<open>vmx_display_features\<close>; the only call of this function is commented out.\<close>

definition feature_line :: "bool \<Rightarrow> string \<Rightarrow> out_call list" where
  "feature_line p s = (if p then [(line '' - %s'', [ArgS s])] else [])"

definition vmx_display_features :: "vmx_globals \<Rightarrow> out_call list" where
  "vmx_display_features g =
     (let ls =
        feature_line (ctrue (cpu_has_vmx_virtualize_apic_accesses g)) ''APIC MMIO access virtualisation'' @
        feature_line (ctrue (cpu_has_vmx_tpr_shadow g)) ''APIC TPR shadow'' @
        feature_line (ctrue (cpu_has_vmx_ept g)) ''Extended Page Tables (EPT)'' @
        feature_line (ctrue (cpu_has_vmx_vpid g)) ''Virtual-Processor Identifiers (VPID)'' @
        feature_line (ctrue (cpu_has_vmx_vnmi g)) ''Virtual NMI'' @
        feature_line (ctrue (cpu_has_vmx_msr_bitmap g)) ''MSR direct-access bitmap'' @
        feature_line (ctrue (cpu_has_vmx_unrestricted_guest g)) ''Unrestricted Guest''
      in [(line ''VMX: Supported advanced features:'', [])] @ ls @
         (if ls = [] then [(line '' - none'', [])] else []) @
         (if ctrue (cpu_has_vmx_ept_2mb g) then [(line ''EPT supports 2MB super page.'', [])] else []))"

subsection \<open>Invalidation of cached translations\<close>

text \<open>INVEPT with its type, pointer and address; INVVPID with its type, identifier and address.\<close>

datatype invalidation = INVEPT u32 u64 u64 | INVVPID u32 u16 u64

definition INVEPT_SINGLE_CONTEXT :: u32 where "INVEPT_SINGLE_CONTEXT = 1"
definition INVEPT_ALL_CONTEXT :: u32 where "INVEPT_ALL_CONTEXT = 2"
definition INVVPID_INDIVIDUAL_ADDR :: u32 where "INVVPID_INDIVIDUAL_ADDR = 0"
definition INVVPID_SINGLE_CONTEXT :: u32 where "INVVPID_SINGLE_CONTEXT = 1"
definition INVVPID_ALL_CONTEXT :: u32 where "INVVPID_ALL_CONTEXT = 2"

definition invept :: "vmx_globals \<Rightarrow> u32 \<Rightarrow> u64 \<Rightarrow> u64 \<Rightarrow> invalidation" where
  "invept g type eptp gpa =
     (let type = if type = INVEPT_SINGLE_CONTEXT \<and> \<not> ctrue (cpu_has_vmx_ept_invept_single_context g)
                 then INVEPT_ALL_CONTEXT else type
      in INVEPT type eptp gpa)"

definition invvpid :: "u32 \<Rightarrow> u16 \<Rightarrow> u64 \<Rightarrow> invalidation" where
  "invvpid type vpid gva = INVVPID type vpid gva"

definition ept_sync_all :: "vmx_globals \<Rightarrow> invalidation" where
  "ept_sync_all g = invept g INVEPT_ALL_CONTEXT 0 0"

definition vpid_sync_vcpu_gva :: "vmx_globals \<Rightarrow> vm_info \<Rightarrow> u64 \<Rightarrow> invalidation" where
  "vpid_sync_vcpu_gva g v gva =
     (let type = if ctrue (cpu_has_vmx_vpid_invvpid_individual_addr g) then INVVPID_INDIVIDUAL_ADDR
                 else if \<not> ctrue (cpu_has_vmx_vpid_invvpid_single_context g) then INVVPID_ALL_CONTEXT
                 else INVVPID_SINGLE_CONTEXT
      in invvpid type (ucast (asid v)) gva)"

definition vpid_sync_all :: invalidation where
  "vpid_sync_all = invvpid INVVPID_ALL_CONTEXT 0 0"

subsection \<open>Bits of the control structure\<close>

definition vm_set_bit :: "intel_cpu \<Rightarrow> u64 \<Rightarrow> nat \<Rightarrow> vmx_globals \<Rightarrow> vmx_globals res" where
  "vm_set_bit hw field b g = bindr (vmread hw field g) (\<lambda>w. vmwrite hw field (w OR push_bit b 1) g)"

definition vm_clear_bit :: "intel_cpu \<Rightarrow> u64 \<Rightarrow> nat \<Rightarrow> vmx_globals \<Rightarrow> vmx_globals res" where
  "vm_clear_bit hw field b g = bindr (vmread hw field g) (\<lambda>w. vmwrite hw field (w AND NOT (push_bit b 1)) g)"

subsection \<open>Entries of extended page tables\<close>

text \<open>The bit fields of \<open>ept_entry_t\<close>.\<close>

definition epte_emt :: "u64 \<Rightarrow> u64" where "epte_emt e = get_field e 3 3"
definition epte_ipat :: "u64 \<Rightarrow> u64" where "epte_ipat e = get_field e 6 1"
definition epte_sp :: "u64 \<Rightarrow> u64" where "epte_sp e = get_field e 7 1"
definition epte_avail1 :: "u64 \<Rightarrow> u64" where "epte_avail1 e = get_field e 8 4"
definition epte_mfn :: "u64 \<Rightarrow> u64" where "epte_mfn e = get_field e 12 40"

definition EPTE_SUPER_PAGE_MASK :: u64 where "EPTE_SUPER_PAGE_MASK = 0x80"
definition EPTE_MFN_MASK :: u64 where "EPTE_MFN_MASK = 0xffffffffff000"
definition EPTE_AVAIL1_MASK :: u64 where "EPTE_AVAIL1_MASK = 0xF00"
definition EPTE_EMT_MASK :: u64 where "EPTE_EMT_MASK = 0x38"
definition EPTE_IGMT_MASK :: u64 where "EPTE_IGMT_MASK = 0x40"
definition EPTE_AVAIL1_SHIFT :: nat where "EPTE_AVAIL1_SHIFT = 8"
definition EPTE_EMT_SHIFT :: nat where "EPTE_EMT_SHIFT = 3"
definition EPTE_IGMT_SHIFT :: nat where "EPTE_IGMT_SHIFT = 6"

subsection \<open>Properties\<close>

text \<open>The kinds of INVVPID a processor reports, besides that for all contexts.\<close>

definition invvpid_supported :: "vmx_globals \<Rightarrow> u32 \<Rightarrow> bool" where
  "invvpid_supported g type \<longleftrightarrow>
     type = INVVPID_INDIVIDUAL_ADDR \<and> bit (vmx_ept_vpid_cap g) 40 \<or>
     type = INVVPID_SINGLE_CONTEXT \<and> bit (vmx_ept_vpid_cap g) 41 \<or>
     type = INVVPID_ALL_CONTEXT"

lemma and_single_bit: "ctrue (w AND push_bit n 1) \<longleftrightarrow> bit w n" for w :: u64
  by (simp add: ctrue_def bit_iff_and_push_bit_not_eq_0)

lemma capability_bits:
  "ctrue (cpu_has_vmx_vpid_invvpid_individual_addr g) \<longleftrightarrow> bit (vmx_ept_vpid_cap g) 40"
  "ctrue (cpu_has_vmx_vpid_invvpid_single_context g) \<longleftrightarrow> bit (vmx_ept_vpid_cap g) 41"
  "ctrue (cpu_has_vmx_ept_invept_single_context g) \<longleftrightarrow> bit (vmx_ept_vpid_cap g) 25"
  using and_single_bit [of "vmx_ept_vpid_cap g" 40] and_single_bit [of "vmx_ept_vpid_cap g" 41]
    and_single_bit [of "vmx_ept_vpid_cap g" 25]
  by (simp_all add: cpu_has_vmx_vpid_invvpid_individual_addr_def cpu_has_vmx_vpid_invvpid_single_context_def
      cpu_has_vmx_ept_invept_single_context_def VMX_VPID_INVVPID_INDIVIDUAL_ADDR_def
      VMX_VPID_INVVPID_SINGLE_CONTEXT_def VMX_EPT_INVEPT_SINGLE_CONTEXT_def)

text \<open>The fall-back of \<open>vpid_sync_vcpu_gva\<close> and of \<open>__invept\<close> never executes an instruction of a kind the
  processor does not report, and takes the finest kind it has.\<close>

theorem invalidation_supported:
  "\<exists>type. vpid_sync_vcpu_gva g v gva = INVVPID type (ucast (asid v)) gva \<and> invvpid_supported g type \<and>
     (\<forall>t. t < type \<longrightarrow> \<not> invvpid_supported g t)"
proof -
  have small: "t < 2 \<Longrightarrow> t = 0 \<or> t = 1" for t :: u32
    by (auto simp: word_less_nat_alt word_unat_eq_iff)
  show ?thesis
    by (auto simp: vpid_sync_vcpu_gva_def invvpid_def capability_bits invvpid_supported_def
        INVVPID_INDIVIDUAL_ADDR_def INVVPID_SINGLE_CONTEXT_def INVVPID_ALL_CONTEXT_def dest: small)
qed

theorem invept_supported:
  "\<exists>type. invept g INVEPT_SINGLE_CONTEXT eptp gpa = INVEPT type eptp gpa \<and>
     (if bit (vmx_ept_vpid_cap g) 25 then type = INVEPT_SINGLE_CONTEXT else type = INVEPT_ALL_CONTEXT)"
  by (simp add: invept_def capability_bits)

text \<open>\<open>__vm_set_bit\<close> and \<open>__vm_clear_bit\<close> change one bit of one field of the current structure.\<close>

theorem vm_bit_of_field:
  assumes "writable hw g {field}"
  shows "\<exists>g1 g2. vm_set_bit hw field b g = Inr g1 \<and> vm_clear_bit hw field b g = Inr g2 \<and>
   (\<forall>f n. bit (field_values g1 f) n = (f = field \<and> n = b \<and> n < 64 \<or> bit (field_values g f) n)) \<and>
   (\<forall>f n. bit (field_values g2 f) n = (bit (field_values g f) n \<and> \<not> (f = field \<and> n = b)))"
  using assms
  by (auto simp: vm_set_bit_def vm_clear_bit_def vmread_eq vmwrite_eq write_fields_def bit_or_iff bit_and_iff
      bit_not_iff bit_exp_iff dest: bit_imp_le_length)

theorem vm_bit_of_field_witness:
  "\<exists>g1. vm_set_bit (example_intel 0) GUEST_RIP 3 loaded_globals = Inr g1 \<and> bit (field_values g1 GUEST_RIP) 3"
  using vm_bit_of_field [of "example_intel 0" loaded_globals GUEST_RIP 3]
  by (auto simp: writable_def loaded_globals_def example_intel_def)

text \<open>The masks of \<open>vmx.h\<close> select the bit fields of \<open>ept_entry_t\<close>.\<close>

theorem epte_masks_select_fields:
  "e AND EPTE_MFN_MASK = push_bit 12 (epte_mfn e) \<and> e AND EPTE_SUPER_PAGE_MASK = push_bit 7 (epte_sp e) \<and>
   drop_bit EPTE_AVAIL1_SHIFT (e AND EPTE_AVAIL1_MASK) = epte_avail1 e \<and>
   drop_bit EPTE_EMT_SHIFT (e AND EPTE_EMT_MASK) = epte_emt e \<and>
   drop_bit EPTE_IGMT_SHIFT (e AND EPTE_IGMT_MASK) = epte_ipat e"
proof -
  have m: "EPTE_MFN_MASK = push_bit 12 (mask 40)" "EPTE_SUPER_PAGE_MASK = push_bit 7 (mask 1)"
    "EPTE_AVAIL1_MASK = push_bit 8 (mask 4)" "EPTE_EMT_MASK = push_bit 3 (mask 3)"
    "EPTE_IGMT_MASK = push_bit 6 (mask 1)"
    by (simp_all add: EPTE_MFN_MASK_def EPTE_SUPER_PAGE_MASK_def EPTE_AVAIL1_MASK_def EPTE_EMT_MASK_def
        EPTE_IGMT_MASK_def mask_eq_exp_minus_1)
  have sel: "drop_bit k (e AND push_bit k (mask n)) = get_field e k n"
    "e AND push_bit k (mask n) = push_bit k (get_field e k n)" if "k + n \<le> 64" for k n
    using that by (auto intro!: bit_word_eqI simp: get_field_def bit_simps dest: bit_imp_le_length)
  show ?thesis
    unfolding m EPTE_AVAIL1_SHIFT_def EPTE_EMT_SHIFT_def EPTE_IGMT_SHIFT_def
      epte_mfn_def epte_sp_def epte_avail1_def epte_emt_def epte_ipat_def
    by (intro conjI sel) simp_all
qed

end
