(* ===== verification/Boot.thy ===== *)
theory Boot
  imports Vmx Exits E820
begin

text \<open>
  \<open>kernel/setup.c\<close> and \<open>vm_init\<close> of \<open>kernel/vm.c\<close>: from the boot loader's information to the first
  entry of the guest.  The processor, the constant strings and the contents of the variables the code
  does not initialise are parameters.
\<close>

subsection \<open>Start-up\<close>

record cmdline_option =
  vmm_pmem_size :: u64

definition DEFAULT_VMM_PMEM_SIZE :: u64 where "DEFAULT_VMM_PMEM_SIZE = push_bit 24 1"
definition DEFAULT_VMM_PMEM_START :: u64 where "DEFAULT_VMM_PMEM_START = push_bit 27 1"

definition parse_cmdline :: "multiboot_info \<Rightarrow> cmdline_option \<times> out_call list" where
  "parse_cmdline mbi =
     (\<lparr>vmm_pmem_size = DEFAULT_VMM_PMEM_SIZE\<rparr>,
      if ctrue (mbi_flags mbi AND MBI_CMDLINE) \<and> mbi_cmdline mbi \<noteq> 0
      then [(line ''Command line passed to MAVMM: %s'', [ArgP (ucast (mbi_cmdline mbi))])] else [])"

definition setup_memory ::
    "mem \<Rightarrow> multiboot_info \<Rightarrow> cmdline_option \<Rightarrow> pmem_layout \<Rightarrow> (mem \<times> naive_allocator \<times> pmem_layout) res" where
  "setup_memory m mbi opt pml =
     bindr (setup_memory_region m mbi (pml_e820 pml)) (\<lambda>e.
       let pml = pml\<lparr>pml_e820 := e, total_pages := get_nr_pages e, pml_max_page := get_max_pfn e\<rparr>;
           pml = pml\<lparr>vmm_pmem_start := DEFAULT_VMM_PMEM_START\<rparr>;
           pml = pml\<lparr>vmm_pmem_end := vmm_pmem_start pml + vmm_pmem_size opt - 1\<rparr>
       in naive_memmap_init m (pml_e820 pml) pml)"

definition print_pmem_layout :: "pmem_layout \<Rightarrow> out_call list" where
  "print_pmem_layout pml =
     [(line ''Physical memory layout:'', []),
      (line ''VMM pmem start: %x'', [ArgX (vmm_pmem_start pml)]),
      (line ''VMM heap start: %x'', [ArgX (vmm_heap_start pml)]),
      (line ''VMM pmem end: %x'', [ArgX (vmm_pmem_end pml)]),
      (line ''Max page: %x'', [ArgX (pml_max_page pml)]),
      (line ''Total pages: %x'', [ArgX (total_pages pml)])]"

text \<open>The state of the processor, AMD's and Intel's, and of the machine.\<close>

type_synonym host_state = "host_cpu \<times> intel_cpu \<times> vmx_globals \<times> machine"

definition vm_init ::
    "cpuid_fun \<Rightarrow> naive_allocator \<Rightarrow> cpuinfo_x86 \<Rightarrow> host_state \<Rightarrow> host_state run" where
  "vm_init cpuid host cpuinfo = (\<lambda>(h, hw, g, s).
     let (c, calls) = early_identify_cpu cpuid cpuinfo; s = say_all calls s
     in if x86_vendor c = X86_VENDOR_AMD
        then bindo (init_amd cpuid host (h\<lparr>info := c\<rparr>, s)) (\<lambda>(h, s). Some (Inr (h, hw, g, s)))
        else if x86_vendor c = X86_VENDOR_INTEL
        then bindo (init_intel cpuid host c (hw, g, s)) (\<lambda>(hw, g, s). Some (Inr (h, hw, g, s)))
        else Some (fatal_failure (line ''Unknown CPU vendor'')))"

text \<open>\<open>start_vmm\<close> up to the call of \<open>vm_boot\<close>, whose runs are those of the relation \<open>vm_boot\<close> from the
  machine in the result.  The first component is what \<open>setup_serial\<close> does before its
  test message.  On an Intel processor
  \<open>init_intel\<close> sets neither \<open>vm_run\<close> nor \<open>vm_exit\<close> of the machine, so that there is no
  such run: the loop calls pointers nobody wrote.\<close>

definition start_vmm ::
    "cpuid_fun \<Rightarrow> (string \<Rightarrow> u64) \<Rightarrow> multiboot_info \<Rightarrow> pmem_layout \<Rightarrow> cpuinfo_x86 \<Rightarrow> host_state
      \<Rightarrow> ((u32 \<times> port_write list) \<times> host_state) run" where
  "start_vmm cpuid lit mbi pml cpuinfo = (\<lambda>(h, hw, g, s).
     let serial = setup_serial (ram s);
         s = say_all serial_test s;
         s = say (line (line (CHR 0x0A # CHR 0x0A # CHR 0x0A # line ''!!!!!!!!!!!BEGIN!!!!!!!!!!!''))) [] s;
         (opt, calls) = parse_cmdline mbi;
         s = say_all calls s
     in bindo (Some (setup_memory (ram s) mbi opt pml)) (\<lambda>(m, host, pml).
        bindo (vm_create lit host (vmm_pmem_start pml) (vmm_pmem_size opt) (s\<lparr>ram := m\<rparr>)) (\<lambda>s.
        let s = say (CHR 0x0A # line ''++++++ New virtual machine created. Going to start the VM'') [] s
        in bindo (vm_init cpuid host cpuinfo (h, hw, g, s)) (\<lambda>(h, hw, g, s).
           let s = say (CHR 0x0A # line ''++++++ Going to GRUB for the 2nd time'') [] s
           in Some (Inr (serial, h, hw, g, s))))))"

subsection \<open>Properties\<close>

definition amd_processor :: "cpuid_fun \<Rightarrow> bool" where
  "amd_processor cpuid \<longleftrightarrow>
     cpuid_ebx cpuid 0 = 0x68747541 \<and> cpuid_edx cpuid 0 = 0x69746e65 \<and> cpuid_ecx cpuid 0 = 0x444d4163"

definition intel_processor :: "cpuid_fun \<Rightarrow> bool" where
  "intel_processor cpuid \<longleftrightarrow>
     cpuid_ebx cpuid 0 = 0x756e6547 \<and> cpuid_edx cpuid 0 = 0x49656e69 \<and> cpuid_ecx cpuid 0 = 0x6c65746e"

text \<open>SVM, as \<open>early_identify_cpu\<close> reads it, and nested paging.\<close>

definition has_svm_npt :: "cpuid_fun \<Rightarrow> bool" where
  "has_svm_npt cpuid \<longleftrightarrow>
     cpuid_eax cpuid 0x80000000 AND 0xffff0000 = 0x80000000 \<and> cpuid_eax cpuid 0x80000000 \<ge> 0x80000001 \<and>
     bit (cpuid_ecx cpuid 0x80000001) 2 \<and> bit (cpuid_edx cpuid 0x8000000a) 0"

lemma vendors_differ: "X86_VENDOR_AMD \<noteq> X86_VENDOR_INTEL" "X86_VENDOR_UNKNOWN \<noteq> X86_VENDOR_AMD"
  "X86_VENDOR_UNKNOWN \<noteq> X86_VENDOR_INTEL"
  by (simp_all add: X86_VENDOR_AMD_def X86_VENDOR_INTEL_def X86_VENDOR_UNKNOWN_def)

lemma identify_vendor_cases:
  "x86_vendor (fst (early_identify_cpu cpuid c)) =
     (if amd_processor cpuid then X86_VENDOR_AMD else if intel_processor cpuid then X86_VENDOR_INTEL
      else X86_VENDOR_UNKNOWN)"
  by (simp add: identify_vendor amd_processor_def intel_processor_def)

lemma identify_word6:
  "x86_capability (fst (early_identify_cpu cpuid c)) ! 6 =
     (if cpuid_eax cpuid 0x80000000 AND 0xffff0000 = 0x80000000 \<and> cpuid_eax cpuid 0x80000000 \<ge> 0x80000001
      then cpuid_ecx cpuid 0x80000001 else 0)"
  "length (x86_capability (fst (early_identify_cpu cpuid c))) = NCAPINTS"
  by (simp_all add: identify_capabilities Let_def NCAPINTS_def)

lemma vm_init_amd:
  assumes "amd_processor cpuid" and "has_svm_npt cpuid" and "pages_from (ram s) host k"
  shows "\<exists>h' s'. vm_init cpuid host c (h, hw, g, s) = ret (h', hw, g, s') \<and>
    vm s' = (vm s)\<lparr>vmcb_ptr := page_at (min 32 (k + 1))\<rparr> \<and>
    vcb s' = (if k < 31 then amd_start_block (n_cr3 (vm s)) (k + 2) (min 32 (k + 5)) else cleared_block)"
proof -
  obtain c1 calls where e: "early_identify_cpu cpuid c = (c1, calls)" by fastforce
  have v: "x86_vendor c1 = X86_VENDOR_AMD" using identify_vendor_cases [of cpuid c] assms(1) e by simp
  have caps: "length (x86_capability c1) = NCAPINTS" "bit (x86_capability c1 ! 6) 2"
    using identify_word6 [of cpuid c] assms(2) e by (simp_all add: has_svm_npt_def)
  have "pages_from (ram (say_all calls s)) host k" "length (x86_capability (info (h\<lparr>info := c1\<rparr>))) = NCAPINTS"
      "bit (x86_capability (info (h\<lparr>info := c1\<rparr>)) ! 6) 2" "bit (cpuid_edx cpuid 0x8000000a) 0"
    using assms(2,3) caps by (simp_all add: has_svm_npt_def)
  from init_amd_result [OF this] show ?thesis by (auto simp: vm_init_def e v Let_def)
qed

lemma vm_init_amd_apart:
  assumes "amd_processor cpuid" and "has_svm_npt cpuid" and "pages_from (ram s) host k" and "k < 31"
  shows "\<exists>h' s'. vm_init cpuid host c (h, hw, g, s) = ret (h', hw, g, s') \<and>
    vm s' = (vm s)\<lparr>vmcb_ptr := page_at (k + 1)\<rparr> \<and>
    vcb s' = amd_start_block (n_cr3 (vm s)) (k + 2) (min 32 (k + 5))"
proof -
  have "min 32 (k + 1) = k + 1" using assms(4) by simp
  then show ?thesis using vm_init_amd [OF assms(1-3), of c h hw g] assms(4) by (simp only: if_True)
qed

text \<open>C3: from the identification of the processor to every state of a run: on an AMD processor with SVM and
  nested paging, when pages are left among the first 32 for the control block and the tables not to share
  one, and with no skipped interception pending and no tracked process, \<open>vm_init\<close> returns.  In every state of every run
  after it in which the guest leaves the monitor's record and the control fields of the block alone (which
  nothing forces it to do), nested paging is on with the table of the machine, VMRUN is
  intercepted and the guest has its own address space identifier.\<close>

theorem amd_guest_confined:
  assumes "amd_processor cpuid" and "has_svm_npt cpuid" and "pages_from (ram s) host k" and "k < 31"
    and "itc_skip_flag (vm s) = 0" and "nTrackedProcess (vm s) = 0"
  shows "\<exists>h' s'. vm_init cpuid host c (h, hw, g, s) = ret (h', hw, g, s') \<and>
    (\<forall>t. vm_boot s' t \<longrightarrow> np_enable (vcb t) = 1 \<and> vmcb_n_cr3 (vcb t) = n_cr3 (vm s) \<and>
       bit (general2_intercepts (vcb t)) 0 \<and> guest_asid (vcb t) = 1)"
proof -
  obtain h' s' where r: "vm_init cpuid host c (h, hw, g, s) = ret (h', hw, g, s')"
      "vm s' = (vm s)\<lparr>vmcb_ptr := page_at (k + 1)\<rparr>" "vcb s' = amd_start_block (n_cr3 (vm s)) (k + 2) (min 32 (k + 5))"
    using vm_init_amd_apart [OF assms(1-4)] by blast
  have "fixed_control (vcb t) = fixed_control (vcb s')" if "vm_boot s' t" for t
    using vm_boot_invariant(2) [OF that] r(2,3) assms(5,6) by (simp add: skip_inv_def)
  then have "np_enable (vcb t) = 1 \<and> vmcb_n_cr3 (vcb t) = n_cr3 (vm s) \<and>
       bit (general2_intercepts (vcb t)) 0 \<and> guest_asid (vcb t) = 1" if "vm_boot s' t" for t
    using that by (auto simp: r(3) fixed_control_def amd_start_block_fields start_block_bits bit_or_iff)
  then show ?thesis using r(1) by blast
qed

lemma example_amd: "amd_processor example_cpuid" "has_svm_npt example_cpuid"
  by (simp_all add: amd_processor_def has_svm_npt_def example_cpuid_def cpuid_eax_def cpuid_ebx_def cpuid_ecx_def
    cpuid_edx_def bit_iff_odd)

theorem amd_guest_confined_witness:
  "\<exists>h' s'. vm_init example_cpuid \<lparr>alloc_bitmap = 0x8100000, max_page = 0x10000\<rparr> zero_cpuinfo
     (example_host, example_intel 0, zero_globals, roomy_machine) = ret (h', example_intel 0, zero_globals, s') \<and>
     vm_boot s' s' \<and> np_enable (vcb s') = 1"
proof -
  have "itc_skip_flag (vm roomy_machine) = 0" "nTrackedProcess (vm roomy_machine) = 0"
    by (simp_all add: roomy_machine_def blank_machine_def zero_vm_info_def)
  then show ?thesis
    using amd_guest_confined [OF example_amd roomy_pages, of zero_cpuinfo example_host "example_intel 0" zero_globals]
      vm_boot.boot by (simp) blast
qed

text \<open>The shape of the processor's record: the arrays have the sizes of \<open>struct cpuinfo_x86\<close>, and the
  name of the model, when the processor gives one, is a string inside its array.\<close>

definition wf_cpuinfo :: "cpuinfo_x86 \<Rightarrow> bool" where
  "wf_cpuinfo c \<longleftrightarrow> length (x86_capability c) = NCAPINTS \<and> length (x86_vendor_id c) = 16 \<and>
     length (x86_model_id c) = 64 \<and>
     (cpuid_max_exfunc c \<ge> 0x80000004 \<and> cpuid_max_exfunc c AND 0xffff0000 = 0x80000000 \<longrightarrow>
        length (string_of (x86_model_id c)) \<le> 48)"

lemma bytes_of_length [simp]: "length (bytes_of w) = 4" by (simp add: bytes_of_def)

lemma regs_bytes_length [simp]: "length (regs_bytes r) = 16" by (cases r) (simp add: regs_bytes_def)

lemma put_bytes_length: "i + length bs \<le> length xs \<Longrightarrow> length (put_bytes i bs xs) = length xs"
  by (simp add: put_bytes_def)

lemma string_of_length: "k < length bs \<Longrightarrow> bs ! k = 0 \<Longrightarrow> length (string_of bs) \<le> k"
  using nth_mem [of k "takeWhile (\<lambda>b. b \<noteq> 0) bs"] takeWhile_nth [of k "\<lambda>b. b \<noteq> 0" bs]
  by (fastforce simp: string_of_def not_le dest: set_takeWhileD)

lemma get_model_name_shape:
  assumes "length (x86_model_id c) = 64"
  shows "length (x86_model_id (get_model_name cpuid c)) = 64"
    and "length (string_of (x86_model_id (get_model_name cpuid c))) \<le> 48"
    and "x86_capability (get_model_name cpuid c) = x86_capability c"
    and "x86_vendor_id (get_model_name cpuid c) = x86_vendor_id c"
    and "cpuid_max_exfunc (get_model_name cpuid c) = cpuid_max_exfunc c"
proof -
  let ?bs = "put_bytes 0 (regs_bytes (cpuid 0x80000002) @ regs_bytes (cpuid 0x80000003)
     @ regs_bytes (cpuid 0x80000004)) (x86_model_id c)"
  have l: "length ?bs = 64" using assms by (simp add: put_bytes_length)
  show "length (x86_model_id (get_model_name cpuid c)) = 64"
    using l by (simp add: get_model_name_def Let_def)
  show "length (string_of (x86_model_id (get_model_name cpuid c))) \<le> 48"
    using string_of_length [of 48 "?bs[48 := 0]"] l by (simp add: get_model_name_def Let_def)
qed (simp_all add: get_model_name_def Let_def)

lemma read_signature_shape:
  "length (x86_capability (read_signature cpuid c)) = length (x86_capability c)"
  "x86_vendor_id (read_signature cpuid c) = x86_vendor_id c"
  "x86_model_id (read_signature cpuid c) = x86_model_id c"
  by (simp_all add: read_signature_def Let_def split: prod.split)

lemma early_identify_shape:
  assumes "length (x86_vendor_id c) = 16" and "length (x86_model_id c) = 64"
  shows "wf_cpuinfo (fst (early_identify_cpu cpuid c))"
proof -
  have ext: "wf_cpuinfo (read_extended cpuid d)"
    if "length (x86_capability d) = NCAPINTS" "length (x86_vendor_id d) = 16" "length (x86_model_id d) = 64" for d
    using that by (auto simp: read_extended_def wf_cpuinfo_def Let_def get_model_name_shape)
  show ?thesis
    using assms unfolding early_identify_cpu_def
    by (auto simp: Let_def get_cpu_vendor_def clear_cpuinfo_def put_bytes_length split: prod.split
        intro!: ext simp: read_signature_shape)
qed

lemma wf_cpuinfo_caps: "wf_cpuinfo c \<Longrightarrow> length caps = NCAPINTS \<Longrightarrow> wf_cpuinfo (c\<lparr>x86_capability := caps\<rparr>)"
  by (simp add: wf_cpuinfo_def)

lemma display_cacheinfo_wf: "wf_cpuinfo c \<Longrightarrow> wf_cpuinfo (fst (display_cacheinfo cpuid c))"
  by (simp add: display_cacheinfo_def Let_def wf_cpuinfo_def)

lemma init_amd_wf:
  assumes "wf_cpuinfo (info h)" and "init_amd cpuid host (h, s) = ret (h', s')"
  shows "wf_cpuinfo (info h')"
proof -
  have caps: "length (amd_caps cpuid cs) = length cs" for cs
    by (simp add: amd_caps_def Let_def set_bit_def clear_bit_def)
  obtain c calls where d: "display_cacheinfo cpuid
      ((info h)\<lparr>x86_capability := amd_caps cpuid (x86_capability (info h))\<rparr>) = (c, calls)" by fastforce
  have "wf_cpuinfo c"
    using display_cacheinfo_wf [OF wf_cpuinfo_caps [OF assms(1)], of "amd_caps cpuid (x86_capability (info h))" cpuid]
      assms(1) caps d by (simp add: wf_cpuinfo_def)
  then have "wf_cpuinfo (c\<lparr>x86_capability := (x86_capability c)[5 := w]\<rparr>)" for w
    by (intro wf_cpuinfo_caps) (simp_all add: wf_cpuinfo_def)
  then show ?thesis
    using assms(2)
    by (auto simp: init_amd_def d enable_svm_def rdmsr_def Let_def bindo_eq_Inr split: if_splits)
qed

text \<open>On AMD processors \<open>vm_init\<close> leaves a record of the processor of the declared shape (\<open>wf_cpuinfo\<close>), with
  the changes of \<open>init_amd\<close>, whatever the local variable it starts from holds: where the processor has the name
  of its model, it ends inside its array.\<close>

theorem vm_init_typed:
  assumes "length (x86_vendor_id c) = 16" and "length (x86_model_id c) = 64" and "amd_processor cpuid"
    and "vm_init cpuid host c (h, hw, g, s) = ret (h', hw', g', s')"
  shows "wf_cpuinfo (info h')"
proof -
  obtain c1 calls where e: "early_identify_cpu cpuid c = (c1, calls)" by fastforce
  have v: "x86_vendor c1 = X86_VENDOR_AMD" using identify_vendor_cases [of cpuid c] assms(3) e by simp
  have "wf_cpuinfo c1" using early_identify_shape [OF assms(1,2), of cpuid] e by simp
  moreover have "init_amd cpuid host (h\<lparr>info := c1\<rparr>, say_all calls s) = ret (h', s')"
    using assms(4) by (auto simp: vm_init_def e v Let_def bindo_eq_Inr)
  ultimately show ?thesis using init_amd_wf [of "h\<lparr>info := c1\<rparr>" cpuid host "say_all calls s" h' s'] by simp
qed

theorem vm_init_typed_witness:
  "\<exists>h' hw' g' s'. vm_init example_cpuid \<lparr>alloc_bitmap = 0x8100000, max_page = 0x10000\<rparr> zero_cpuinfo
     (example_host, example_intel 0, zero_globals, full_machine) = ret (h', hw', g', s') \<and> wf_cpuinfo (info h')"
proof -
  have "amd_processor example_cpuid" "has_svm_npt example_cpuid"
    by (simp_all add: amd_processor_def has_svm_npt_def example_cpuid_def cpuid_eax_def cpuid_ebx_def cpuid_ecx_def
        cpuid_edx_def bit_iff_odd)
  moreover obtain h' s' where r: "vm_init example_cpuid \<lparr>alloc_bitmap = 0x8100000, max_page = 0x10000\<rparr> zero_cpuinfo
     (example_host, example_intel 0, zero_globals, full_machine) = ret (h', example_intel 0, zero_globals, s')"
    using vm_init_amd [OF calculation example_pages] by blast
  ultimately have "wf_cpuinfo (info h')"
    using vm_init_typed [OF _ _ _ r] by (simp add: zero_cpuinfo_def)
  then show ?thesis using r by blast
qed

text \<open>\<open>vm_init\<close> initialises AMD's extension on AMD processors only, Intel's on Intel processors only, and
  stops the monitor on every other processor.\<close>

theorem vm_init_vendors:
  shows "(amd_processor cpuid \<longrightarrow> (\<forall>h' hw' g' s'. vm_init cpuid host c (h, hw, g, s) = ret (h', hw', g', s') \<longrightarrow> hw' = hw \<and> g' = g)) \<and>
    (intel_processor cpuid \<longrightarrow> (\<forall>h' hw' g' s'. vm_init cpuid host c (h, hw, g, s) = ret (h', hw', g', s') \<longrightarrow> h' = h)) \<and>
    (\<not> amd_processor cpuid \<and> \<not> intel_processor cpuid \<longrightarrow>
      vm_init cpuid host c (h, hw, g, s) = Some (fatal_failure (line ''Unknown CPU vendor'')))"
proof -
  obtain c1 calls where e: "early_identify_cpu cpuid c = (c1, calls)" by fastforce
  have v: "x86_vendor c1 = (if amd_processor cpuid then X86_VENDOR_AMD else if intel_processor cpuid then X86_VENDOR_INTEL
      else X86_VENDOR_UNKNOWN)" using identify_vendor_cases [of cpuid c] e by simp
  have "\<not> (amd_processor cpuid \<and> intel_processor cpuid)" by (auto simp: amd_processor_def intel_processor_def)
  then show ?thesis
    by (auto simp: vm_init_def e v vendors_differ vendors_differ [symmetric] bindo_eq_Inr)
qed

theorem vm_init_vendors_witness:
  "vm_init (\<lambda>_. (0, 0, 0, 0)) \<lparr>alloc_bitmap = 0x8100000, max_page = 0x10000\<rparr> zero_cpuinfo
     (example_host, example_intel 0, zero_globals, full_machine) =
   Some (fatal_failure (line ''Unknown CPU vendor''))"
  using vm_init_vendors [of "\<lambda>_. (0, 0, 0, 0)" "\<lparr>alloc_bitmap = 0x8100000, max_page = 0x10000\<rparr>"
      zero_cpuinfo example_host "example_intel 0" zero_globals full_machine]
  by (simp add: amd_processor_def intel_processor_def cpuid_ebx_def)

end
