(* ===== verification/Runs.thy ===== *)
theory Runs
  imports Boot
begin

text \<open>
  The loop on an AMD processor: \<open>svm_run\<close> (\<open>kernel/svm.c\<close>), which enters the guest through
  \<open>svm_launch\<close>, and the rounds of \<open>vm_boot\<close> made of it and the exit handler.  Two facts are known
  here that the relation \<open>vm_boot\<close> leaves open.  The calls of \<open>save_guest_states\<close> and
  \<open>restore_guest_states\<close> in \<open>kernel/svm_asm.S\<close> are commented out, so that the copies of the guest's
  registers, the globals \<open>g_rbx\<close> to \<open>g_rbp\<close> of \<open>kernel/vm.c\<close>, keep what they hold: the zeros of the
  program's uninitialised data.  And the processor leaves the guest only for what the control block
  intercepts, or does not enter it when the block is not valid.  The rounds refine \<open>vm_boot\<close>, and their reachable states are described in full.
\<close>

subsection \<open>Rounds\<close>

text \<open>The exit codes that the intercept words of the block allow: five ranges of 32 codes, one for each
  word, and the codes above them, which no bit guards.\<close>

definition exit_allowed :: "vmcb \<Rightarrow> u64 \<Rightarrow> bool" where
  "exit_allowed v c =
     (if c < 0x20 then bit (cr_intercepts v) (unat c)
      else if c < 0x40 then bit (dr_intercepts v) (unat (c - 0x20))
      else if c < 0x60 then bit (exception_intercepts v) (unat (c - 0x40))
      else if c < 0x80 then bit (general1_intercepts v) (unat (c - 0x60))
      else if c < 0xA0 then bit (general2_intercepts v) (unat (c - 0x80))
      else True)"

text \<open>VMRUN does not enter a guest without an address space identifier of its own, nor one that could
  execute VMRUN: it exits at once, with \<open>VMEXIT_INVALID\<close>.  It looks at the block as the monitor leaves it; what
  it saves into the host save area is the processor's and no part of the model.\<close>

definition vmrun_refuses :: "vmcb \<Rightarrow> bool" where
  "vmrun_refuses v \<longleftrightarrow> guest_asid v = 0 \<or> \<not> bit (general2_intercepts v) 0"

definition exit_at_once :: "machine \<Rightarrow> machine" where
  "exit_at_once = upd_vcb (\<lambda>v. v\<lparr>exitcode := VMEXIT_INVALID\<rparr>)"

definition svm_run :: "machine \<Rightarrow> machine \<Rightarrow> bool" where
  "svm_run s t \<longleftrightarrow>
     (if vmrun_refuses (vcb s) then t = exit_at_once s
      else leaves_monitor_alone s t \<and> regs t = regs s \<and> exit_allowed (vcb t) (exitcode (vcb t)))"

lemma svm_run_guest:
  assumes "svm_run s t"
  shows "leaves_monitor_alone s t" "regs t = regs s" "exit_allowed (vcb t) (exitcode (vcb t))"
proof -
  have r: "leaves_monitor_alone s (exit_at_once s)" "regs (exit_at_once s) = regs s"
      "exit_allowed (vcb (exit_at_once s)) (exitcode (vcb (exit_at_once s)))"
    by (simp_all add: exit_at_once_def leaves_monitor_alone_def fixed_control_def intercepts_def exit_allowed_def VMEXIT_INVALID_def)
      (simp add: upd_vcb_def)
  show "leaves_monitor_alone s t" "regs t = regs s" "exit_allowed (vcb t) (exitcode (vcb t))"
    using assms r by (auto simp: svm_run_def split: if_splits)
qed

inductive amd_boot :: "machine \<Rightarrow> machine \<Rightarrow> bool" for s0 :: machine where
  start: "amd_boot s0 s0"
| round: "amd_boot s0 s \<Longrightarrow> svm_run s t \<Longrightarrow> handle_vmexit t = ret u \<Longrightarrow> amd_boot s0 u"

lemma amd_boot_vm_boot: "amd_boot s0 s \<Longrightarrow> vm_boot s0 s"
proof (induction rule: amd_boot.induct)
  case (round s t u)
  then show ?case using svm_run_guest(1) by (blast intro: vm_boot.vm_run vm_boot.vm_exit)
qed (rule vm_boot.boot)

subsection \<open>Exits of an idle monitor\<close>

definition zero_gregs :: gregs where
  "zero_gregs = \<lparr>g_rbp = 0, g_rbx = 0, g_rcx = 0, g_rdx = 0, g_rsi = 0, g_rdi = 0\<rparr>"

text \<open>A monitor that intercepts only VMRUN and VMMCALL and sees zeros in the registers of its guest.\<close>

definition idle :: "machine \<Rightarrow> bool" where
  "idle s \<longleftrightarrow> regs s = zero_gregs \<and> intercepts_none (vcb s) \<and>
     general2_intercepts (vcb s) = INTRCPT_VMRUN OR INTRCPT_VMMCALL"

definition VMEXIT_VMRUN :: u64 where "VMEXIT_VMRUN = 0x80"

lemma idle_exits:
  assumes "idle s" and "exit_allowed (vcb s) c"
  shows "c = VMEXIT_VMRUN \<or> c = VMEXIT_VMMCALL \<or> 0xA0 \<le> c"
proof (cases "c < 0x80 \<or> 0xA0 \<le> c")
  case True
  then show ?thesis using assms by (auto simp: idle_def intercepts_none_def exit_allowed_def split: if_splits)
next
  case False
  then have "\<not> c < k" if "k \<le> 0x80" for k
    using that by (meson less_le_trans not_le)
  with False have "bit (INTRCPT_VMRUN OR INTRCPT_VMMCALL) (unat (c - 0x80))"
    using assms by (auto simp: idle_def exit_allowed_def not_le split: if_splits)
  then have "unat (c - 0x80) = 0 \<or> unat (c - 0x80) = 1"
    by (simp add: bit_or_iff start_block_bits)
  then have "c - 0x80 = 0 \<or> c - 0x80 = 1" by (simp only: word_unat_eq_iff unsigned_0 unsigned_1)
  then show ?thesis by (auto simp: VMEXIT_VMRUN_def VMEXIT_VMMCALL_def eq_diff_eq diff_eq_eq)
qed

text \<open>A call of the monitor with zeros in all registers: enable no interception.\<close>

definition vmmcall_trace :: "machine \<Rightarrow> machine" where
  "vmmcall_trace s =
     say (line ''edx = %x'') [ArgX 0] (say ''ecx = %x, '' [ArgX 0] (say ''ebx = %x, '' [ArgX 0]
       (say ''GOT A VMMCALL!!! eax = %x, '' [ArgX (rax (vcb s))] (vmexit_trace s))))"

definition idle_exit :: "machine \<Rightarrow> machine" where
  "idle_exit s =
     (if exitcode (vcb s) = VMEXIT_VMMCALL
      then upd_vcb (\<lambda>v. v\<lparr>rip := rip v + 3\<rparr>) (vmmcall_trace s)
      else vmexit_trace s)"

lemma upd_vm_same: "upd_vm (\<lambda>v. v) s = s"
  by (simp add: upd_vm_def)

lemma zero_vmmcall:
  assumes "regs s = zero_gregs"
  shows "handle_vm_vmmcall (vmexit_trace s) = ret (upd_vcb (\<lambda>v. v\<lparr>rip := rip v + 3\<rparr>) (vmmcall_trace s))"
  using assms
  by (simp add: handle_vm_vmmcall_def Let_def zero_gregs_def USER_CMD_ENABLE_def user_enable_intercept_def ctrue_def
    upd_vm_same vmmcall_trace_def) (rule machine.equality, simp_all add: upd_vcb_def say_def)

text \<open>Every exit but the nested page fault is answered, and the answer is that of \<open>idle_exit\<close>.\<close>

lemma idle_handled:
  assumes "idle s" and "exit_allowed (vcb s) (exitcode (vcb s))"
  shows "handle_vmexit s = (if exitcode (vcb s) = VMEXIT_NPF then Some (fatal_failure ''Nested page fault!'')
    else ret (idle_exit s))"
proof -
  consider (vmrun) "exitcode (vcb s) = VMEXIT_VMRUN" | (call) "exitcode (vcb s) = VMEXIT_VMMCALL"
    | (high) "0xA0 \<le> exitcode (vcb s)"
    using idle_exits [OF assms] by blast
  then show ?thesis
  proof cases
    case call
    then show ?thesis using zero_vmmcall assms(1)
      by (simp add: vmexit_cases idle_exit_def idle_def) (simp add: exit_codes)
  next
    case high
    then have "\<not> exitcode (vcb s) \<le> 83" by (auto dest: order_trans)
    with high show ?thesis
      by (auto simp: handle_vmexit_def Let_def exit_codes idle_exit_def handle_vm_npf_def)
  qed (simp add: handle_vmexit_def Let_def exit_codes VMEXIT_VMRUN_def idle_exit_def)
qed

lemma idle_exit_fields [simp]:
  "vm (idle_exit s) = vm s" "ram (idle_exit s) = ram s" "regs (idle_exit s) = regs s"
  "intercepts_none (vcb (idle_exit s)) = intercepts_none (vcb s)"
  "general2_intercepts (vcb (idle_exit s)) = general2_intercepts (vcb s)"
  by (simp_all add: idle_exit_def vmmcall_trace_def intercepts_none_def)

lemma idle_guest:
  assumes "idle s" and "svm_run s t"
  shows "idle t"
  using assms(1) svm_run_guest [OF assms(2)] by (auto simp: idle_def leaves_monitor_alone_def intercepts_none_def intercepts_def fixed_control_def)

text \<open>What one exit prints, and the trace of a run.\<close>

definition exit_report :: "machine \<Rightarrow> out_call list" where
  "exit_report s =
     ((line ''**** #VMEXIT - exit code: %x''), [argw (ucast (exitcode (vcb s)))]) # print_vmcb_state s @
     (if exitcode (vcb s) = VMEXIT_VMMCALL
      then [(''GOT A VMMCALL!!! eax = %x, '', [ArgX (rax (vcb s))]), (''ebx = %x, '', [ArgX 0]),
            (''ecx = %x, '', [ArgX 0]), (line ''edx = %x'', [ArgX 0])]
      else [])"

lemma idle_exit_con: "con (idle_exit s) = con s @ exit_report s"
  by (simp add: idle_exit_def vmmcall_trace_def vmexit_trace_def exit_report_def say_def say_all_def upd_vcb_def)

lemma amd_boot_idle:
  assumes "amd_boot s0 s" and "idle s0"
  shows "idle s \<and> vm s = vm s0 \<and> fixed_control (vcb s) = fixed_control (vcb s0) \<and>
    (\<exists>exits. con s = con s0 @ concat (map exit_report exits))"
  using assms
proof (induction rule: amd_boot.induct)
  case start then show ?case by (auto intro: exI [of _ "[]"])
next
  case (round s t u)
  then have i: "idle s" "vm s = vm s0" "fixed_control (vcb s) = fixed_control (vcb s0)" by simp_all
  then have t: "idle t" using idle_guest round.hyps(2) by blast
  have u: "u = idle_exit t"
    using idle_handled [OF t] round.hyps svm_run_guest(3) [OF round.hyps(2)] by (auto split: if_splits)
  obtain exits where "con s = con s0 @ concat (map exit_report exits)" using round by blast
  moreover have "con t = con s" "vm t = vm s" "fixed_control (vcb t) = fixed_control (vcb s)"
    using svm_run_guest(1) [OF round.hyps(2)] by (simp_all add: leaves_monitor_alone_def)
  moreover have "fixed_control (vcb u) = fixed_control (vcb t)"
    using fixed.handle_vmexit_keeps [of t _ u, OF refl round.hyps(3)] by simp
  moreover have "idle u" using t by (simp add: u idle_def)
  ultimately show ?case using i
    by (auto simp: u idle_exit_con intro!: exI [of _ "exits @ [t]"])
qed

text \<open>The start leaves the copies of the registers alone.\<close>

lemma init_amd_regs: "init_amd cpuid host (h, s) = ret (h', s') \<Longrightarrow> regs s' = regs s"
  by (auto simp: init_amd_def enable_svm_def set_control_params_def Let_def bindo_eq_Inr case_prod_beta split: if_splits)

lemma vm_init_amd_regs:
  assumes "amd_processor cpuid" and "vm_init cpuid host c (h, hw, g, s) = ret (h', hw', g', s')"
  shows "regs s' = regs s"
proof -
  obtain c1 calls where e: "early_identify_cpu cpuid c = (c1, calls)" by fastforce
  have "x86_vendor c1 = X86_VENDOR_AMD" using identify_vendor_cases [of cpuid c] assms(1) e by simp
  then show ?thesis
    using assms(2) by (auto simp: vm_init_def e Let_def bindo_eq_Inr dest: init_amd_regs)
qed

text \<open>A guest that calls the monitor.\<close>

definition call_of :: "machine \<Rightarrow> machine" where
  "call_of s = upd_vcb (\<lambda>v. v\<lparr>exitcode := VMEXIT_VMMCALL\<rparr>) s"

lemma call_run: "idle s \<Longrightarrow> guest_asid (vcb s) \<noteq> 0 \<Longrightarrow> svm_run s (call_of s)"
  by (simp add: svm_run_def vmrun_refuses_def leaves_monitor_alone_def idle_def call_of_def intercepts_def fixed_control_def exit_allowed_def
    VMEXIT_VMMCALL_def bit_or_iff start_block_bits) (simp add: upd_vcb_def)

lemma call_round:
  assumes "idle s" and "guest_asid (vcb s) \<noteq> 0"
  shows "amd_boot s (idle_exit (call_of s))"
proof (rule amd_boot.round [OF amd_boot.start call_run [OF assms]])
  show "handle_vmexit (call_of s) = ret (idle_exit (call_of s))"
    using idle_handled [of "call_of s"] idle_guest [OF assms(1) call_run [OF assms]] svm_run_guest(3) [OF call_run [OF assms]]
    by simp (simp add: call_of_def VMEXIT_VMMCALL_def VMEXIT_NPF_def)
qed

subsection \<open>Properties\<close>

text \<open>C4: on an AMD processor the monitor never traces, even when pages are left for its control block:
  in every round its interceptions are those of the
  start (VMRUN and VMMCALL only), its record is unchanged, no flag is set and no process tracked, and
  what it has printed since the start is the sequence of the reports of the exits, whatever commands
  the guest sends.\<close>

theorem amd_monitor_idle:
  assumes "amd_processor cpuid" and "has_svm_npt cpuid" and "pages_from (ram s) host k" and "k < 31"
    and "regs s = zero_gregs"
  shows "\<exists>h' s'. vm_init cpuid host c (h, hw, g, s) = ret (h', hw, g, s') \<and>
    (\<forall>t. amd_boot s' t \<longrightarrow> vm t = (vm s)\<lparr>vmcb_ptr := page_at (k + 1)\<rparr> \<and> intercepts (vcb t) = (0, 0, 0) \<and>
       general2_intercepts (vcb t) = INTRCPT_VMRUN OR INTRCPT_VMMCALL \<and>
       (\<exists>exits. con t = con s' @ concat (map exit_report exits)))"
proof -
  obtain h' s' where r: "vm_init cpuid host c (h, hw, g, s) = ret (h', hw, g, s')"
      "vm s' = (vm s)\<lparr>vmcb_ptr := page_at (k + 1)\<rparr>" "vcb s' = amd_start_block (n_cr3 (vm s)) (k + 2) (min 32 (k + 5))"
    using vm_init_amd_apart [OF assms(1-4)] by blast
  have "idle s'"
    using vm_init_amd_regs [OF assms(1) r(1)] assms(5) r(3) by (simp add: idle_def amd_start_block_fields)
  then show ?thesis
    using amd_boot_idle [of s'] r(1,2)
    by (auto simp: idle_def intercepts_none_def intercepts_def intro!: exI [of _ h'] exI [of _ s'])
qed

theorem amd_monitor_idle_witness:
  "\<exists>h' s' t. vm_init example_cpuid \<lparr>alloc_bitmap = 0x8100000, max_page = 0x10000\<rparr> zero_cpuinfo
     (example_host, example_intel 0, zero_globals, roomy_machine) = ret (h', example_intel 0, zero_globals, s') \<and>
     amd_boot s' t \<and> rip (vcb t) = rip (vcb s') + 3 \<and> intercepts (vcb t) = (0, 0, 0)"
proof -
  let ?host = "\<lparr>alloc_bitmap = 0x8100000, max_page = 0x10000\<rparr> :: naive_allocator"
  have z: "regs roomy_machine = zero_gregs" by (simp add: roomy_machine_def blank_machine_def zero_gregs_def)
  obtain h' s' where r: "vm_init example_cpuid ?host zero_cpuinfo (example_host, example_intel 0, zero_globals, roomy_machine) =
      ret (h', example_intel 0, zero_globals, s')" "vcb s' = amd_start_block (n_cr3 (vm roomy_machine)) (8 + 2) (min 32 (8 + 5))"
    using vm_init_amd_apart [OF example_amd roomy_pages, of zero_cpuinfo example_host "example_intel 0" zero_globals] by auto
  have i: "idle s'" "guest_asid (vcb s') \<noteq> 0"
    using vm_init_amd_regs [OF example_amd(1) r(1)] z r(2) by (simp_all add: idle_def amd_start_block_fields)
  then have "amd_boot s' (idle_exit (call_of s'))" by (rule call_round)
  moreover have "rip (vcb (idle_exit (call_of s'))) = rip (vcb s') + 3"
    by (simp add: idle_exit_def call_of_def vmmcall_trace_def)
  moreover have "intercepts (vcb (idle_exit (call_of s'))) = (0, 0, 0)"
    using amd_monitor_idle [OF example_amd roomy_pages _ z, of zero_cpuinfo example_host "example_intel 0" zero_globals] r(1)
      calculation(1) by auto
  ultimately show ?thesis using r(1) by blast
qed

text \<open>C5: the loop on an AMD processor goes on from every state it reaches, when it starts in an idle state: the
  only interceptions are those of VMRUN and VMMCALL, and the monitor's copies of the guest registers are zero, as
  \<open>amd_monitor_idle\<close> shows of the state after \<open>vm_init\<close>.  Every exit that the control block then
  allows is answered and leads to a state of the loop, except the nested page fault, which stops the monitor.\<close>

theorem amd_rounds_go_on:
  assumes "amd_boot s0 s" and "idle s0" and "svm_run s t"
  shows "(\<exists>u. handle_vmexit t = ret u \<and> amd_boot s0 u) \<or>
    exitcode (vcb t) = VMEXIT_NPF \<and> handle_vmexit t = Some (fatal_failure ''Nested page fault!'')"
proof -
  have "idle t" using amd_boot_idle [OF assms(1,2)] idle_guest assms(3) by blast
  then show ?thesis using idle_handled [of t] svm_run_guest(3) [OF assms(3)] assms(1,3) amd_boot.round
    by (auto split: if_splits)
qed

theorem amd_rounds_go_on_witness:
  "\<exists>s u. handle_vmexit (call_of s) = ret u \<and> amd_boot s u"
proof -
  let ?s = "upd_vcb (\<lambda>v. v\<lparr>general2_intercepts := INTRCPT_VMRUN OR INTRCPT_VMMCALL, guest_asid := 1\<rparr>) (blank_machine (\<lambda>_. 0) zero_vm_info)"
  have i: "idle ?s" by (simp add: idle_def intercepts_none_def zero_vmcb_def) (simp add: blank_machine_def zero_gregs_def)
  have "exitcode (vcb (call_of ?s)) \<noteq> VMEXIT_NPF" by (simp add: call_of_def VMEXIT_VMMCALL_def VMEXIT_NPF_def)
  then show ?thesis using amd_rounds_go_on [OF amd_boot.start i call_run [OF i]] by simp blast
qed

end
