(* ===== verification/Start.thy ===== *)
theory Start
  imports Boot Nested
begin

text \<open>
  The run of \<open>start_vmm\<close> (\<open>kernel/setup.c\<close>) from the boot loader's memory map: \<open>naive_memmap_init\<close> leaves the first
  32 pages taken, \<open>vm_create\<close> keeps them so while it makes its lists, and the construction of the nested page
  table then ends in a page fault.
\<close>

subsection \<open>Memory\<close>

text \<open>The bitmap is all that the allocator's initialisation writes.\<close>

lemma free_region_frame:
  assumes "unat e < 0x9000000" and "0x2000 \<le> unat (x - alloc_bitmap na)"
  shows "free_alloc_bitmap_region m na s e x = m x"
proof (cases "PAGE_DOWN e \<le> PAGE_UP s")
  case False
  let ?f = "drop_bit PAGE_SHIFT (PAGE_UP s)" and ?n = "drop_bit PAGE_SHIFT (PAGE_DOWN e - PAGE_UP s)"
  have le: "unat (PAGE_UP s) \<le> unat (PAGE_DOWN e)" using False by (simp add: word_le_nat_alt)
  have "unat (PAGE_DOWN e) \<le> unat e" by (simp add: unat_PAGE_DOWN)
  then have d: "unat (PAGE_DOWN e) < 0x9000000" using assms(1) by simp
  have "unat (PAGE_DOWN e - PAGE_UP s) = unat (PAGE_DOWN e) - unat (PAGE_UP s)"
    using le by (simp add: unat_sub word_le_nat_alt)
  then have "unat ?f + unat ?n \<le> unat (PAGE_DOWN e) div 4096"
    unfolding unat_shr_page using le by simp
  then have sum: "unat ?f + unat ?n < 0x9000" using d by linarith
  have "(unat ?f + unat ?n) div 64 \<le> 0x9000 div 64" using sum by (intro div_le_mono) simp
  then have "8 * Suc ((unat ?f + unat ?n) div 64) \<le> 0x2000" by simp
  then show ?thesis
    using False sum assms(2) by (simp add: free_alloc_bitmap_region_def Let_def map_free_frame)
qed (simp add: free_alloc_bitmap_region_def)

lemma init_host_frame:
  assumes "unat (vmm_pmem_end pml) < 0x9000000" and "0x2000 \<le> unat (x - alloc_bitmap host)"
  shows "init_host_loop m host pml rs x = m x"
proof (induction rs arbitrary: m)
  case (Cons e rs)
  have "free_host_alloc_bitmap_region m host s (if vmm_pmem_end pml < y then vmm_pmem_end pml else y) x = m x" for m s y
    unfolding free_host_alloc_bitmap_region_def
    by (rule free_region_frame) (use assms in \<open>auto simp: word_less_nat_alt\<close>)
  then show ?case by (simp add: Let_def Cons.IH)
qed simp

lemma memmap_init_frame:
  assumes "naive_memmap_init m e820 pml = Inr (m', host, pml')" and "unat (vmm_pmem_end pml) < 0x9000000"
    and "unat x < 0x8100000 \<or> 0x9000000 \<le> unat x"
  shows "m' x = m x"
proof -
  let ?size = "PAGE_UP (pml_max_page pml div 8 + 8)"
  have up: "PAGE_UP 0x8100000 = 0x8100000" by (simp add: PAGE_UP_def PAGE_MASK_def PAGE_SIZE_def)
  have r: "m' = init_host_loop (memset m 0x8100000 (NOT 0) ?size) host (pml\<lparr>vmm_heap_start := 0x8100000 + ?size\<rparr>) (entries e820)"
      "0x8100000 + ?size < vmm_pmem_end pml" "alloc_bitmap host = 0x8100000"
    using assms(1) by (auto simp: naive_memmap_init_def Let_def up init_host_alloc_bitmap_def not_le split: if_splits)
  have "unat (pml_max_page pml) div 8 < 2 ^ 61"
    using u64_bounded [of "pml_max_page pml"] by (simp add: div_less_iff_less_mult)
  then have u: "unat (pml_max_page pml div 8 + 8) + 4095 < 2 ^ 62" by (simp add: unat_plus_if' unat_div)
  then have "unat ?size < 2 ^ 62"
    using div_times_less_eq_dividend [of "unat (pml_max_page pml div 8 + 8) + 4095" 4096]
    by (subst unat_PAGE_UP) simp_all
  then have size: "unat ?size < 0xF00000"
    using r(2) assms(2) by (simp add: word_less_nat_alt unat_plus_if')
  have x: "0xF00000 \<le> unat (x - 0x8100000)" using assms(3) u64_bounded [of x] by (auto simp: unat_sub_if')
  have "m' x = memset m 0x8100000 (NOT 0) ?size x"
    unfolding r(1) by (rule init_host_frame) (use assms(2) x r(3) in simp_all)
  then show ?thesis using size x by (simp add: memset_apply in_range_def)
qed

lemma setup_memory_pages:
  assumes "setup_memory m mbi \<lparr>vmm_pmem_size = DEFAULT_VMM_PMEM_SIZE\<rparr> pml = Inr (m', host, pml')"
    and "\<forall>e \<in> set (entries (pml_e820 pml')). unat (addr e) + unat (size_of e) < 2 ^ 64"
    and "35 < unat (max_page host)"
  shows "few_pages m' host" and "vmm_pmem_start pml' = DEFAULT_VMM_PMEM_START"
    and "\<And>x. unat x < 0x8100000 \<or> 0x9000000 \<le> unat x \<Longrightarrow> m' x = m x"
proof -
  obtain e where e: "setup_memory_region m mbi (pml_e820 pml) = Inr e"
    using assms(1) by (cases "setup_memory_region m mbi (pml_e820 pml)") (auto simp: setup_memory_def)
  define p where "p = pml\<lparr>pml_e820 := e, total_pages := get_nr_pages e, pml_max_page := get_max_pfn e,
    vmm_pmem_start := DEFAULT_VMM_PMEM_START, vmm_pmem_end := 0x8FFFFFF\<rparr>"
  have i: "naive_memmap_init m e p = Inr (m', host, pml')"
    using assms(1) by (simp add: setup_memory_def e p_def DEFAULT_VMM_PMEM_START_def DEFAULT_VMM_PMEM_SIZE_def push_bit_eq_mult)
  then have p: "pml' = p\<lparr>vmm_heap_start := vmm_heap_start pml'\<rparr>" "max_page host = pml_max_page p"
    by (auto simp: naive_memmap_init_def Let_def split: if_splits)
  show "vmm_pmem_start pml' = DEFAULT_VMM_PMEM_START" by (subst p(1)) (simp add: p_def)
  have e820: "pml_e820 pml' = e" by (subst p(1)) (simp add: p_def)
  have pe: "unat (vmm_pmem_end p) < 0x9000000" by (simp add: p_def)
  show "m' x = m x" if "unat x < 0x8100000 \<or> 0x9000000 \<le> unat x" for x
    by (rule memmap_init_frame [OF i pe that])
  have "unat (region_pfn x) < 2 ^ 52" for x
    using u64_bounded [of "addr x + size_of x"]
    by (simp add: region_pfn_def PFN_DOWN_def unat_drop_bit div_less_iff_less_mult)
  then have "unat (max_page host) < 2 ^ 52"
    using get_max_pfn_greatest(2) [of e] p(2) by (auto simp: p_def)
  then have b: "unat (pml_max_page p) div 8 + 8 + 4095 < 2 ^ 64" "unat (max_page host) + 4 < 2 ^ 64"
    using p(2) by simp_all
  note low = memmap_low_pages [OF i b(1) _ assms(2) [unfolded e820]]
  show "few_pages m' host"
    using low pe assms(3) b(2) p(2) by (simp add: pages_from_def)
qed

subsection \<open>The record of the machine\<close>

lemma list_page_frame:
  assumes "low_pages_taken m host"
  obtains m' where "alloc_host_pages m host 1 1 = Some (Inr (32, m'))" and "low_pages_taken m' host"
    and "\<And>x. elsewhere x \<Longrightarrow> m' x = m x"
proof
  have b: "alloc_bitmap host = 0x8100000" using assms by (simp add: low_pages_taken_def)
  show "alloc_host_pages m host 1 1 = Some (Inr (32, map_alloc m host 32 1))"
    using alloc_one_page_32(1) [of m host] assms unfolding low_pages_taken_def by auto
  then show "low_pages_taken (map_alloc m host 32 1) host" using alloc_page_20000 [OF assms] by auto
  show "map_alloc m host 32 1 x = m x" if "elsewhere x" for x
    using that map_alloc_frame [of 32 1 x host m] by (simp add: b in_range_def not_less)
qed

lemma list_record_elsewhere:
  assumes "0x20000 \<le> unat p" and "unat p + 24 \<le> 0x21000" and "elsewhere x"
  shows "\<not> in_range p 24 x"
  using assms unat_minus_less [of "0x20000" 4096 x] unat_minus_less [of p 24 x] by (auto simp: in_range_def)

lemma files_listed:
  assumes "low_pages_taken (ram s) host" and "literals_apart lit"
  shows "\<exists>s'. initialize_fid2name_map lit host s = Some (Inr s') \<and> low_pages_taken (ram s') host \<and>
    regs s' = regs s \<and> vm s' = (vm s)\<lparr>fmap := 0x20000, nOpenFile := 3\<rparr> \<and> (\<forall>x. elsewhere x \<longrightarrow> ram s' x = ram s x)"
proof -
  obtain s' where s': "initialize_fid2name_map lit host s = Some (Inr s')" "low_pages_taken (ram s') host"
    using initialize_fid2name_map_result [OF assms] by blast
  obtain m where m: "alloc_host_pages (ram s) host 1 1 = Some (Inr (32, m))" "\<And>x. elsewhere x \<Longrightarrow> m x = ram s x"
    using list_page_frame [OF assms(1)] by blast
  have e: "unat (get_fid2name_entry 0x20000 0) = 0x20000" "unat (get_fid2name_entry 0x20000 1) = 0x20018"
    "unat (get_fid2name_entry 0x20000 2) = 0x20030"
    by (simp_all add: get_fid2name_entry_def)
  have lit: "0x30000 \<le> unat (lit ''stdin'')" "0x30000 \<le> unat (lit ''stdout'')" "0x30000 \<le> unat (lit ''stderr'')"
    using assms(2) by (simp_all add: literals_apart_def)
  have keep: "file_record m' p fid name x = m' x"
    if "elsewhere x" "0x30000 \<le> unat name" "0x20000 \<le> unat p" "unat p \<le> 0x20100" for m' p fid name x
    using file_record_apply(4) [OF literal_gap [OF that(2-4)]] list_record_elsewhere [OF that(3) _ that(1)] that(4) by simp
  have r: "s' = s\<lparr>ram := file_record (file_record (file_record m (get_fid2name_entry 0x20000 0) 0 (lit ''stdin''))
        (get_fid2name_entry 0x20000 1) 1 (lit ''stdout'')) (get_fid2name_entry 0x20000 2) 2 (lit ''stderr''),
      vm := (vm s)\<lparr>fmap := 0x20000, nOpenFile := 3\<rparr>\<rparr>"
    using s'(1) by (simp add: initialize_fid2name_map_def m(1) vm_add_file_record upd_vm_def Let_def numeral_eq_Suc)
  have "ram s' x = ram s x" if "elsewhere x" for x
    unfolding r using that by (simp add: keep e e(2) [unfolded One_nat_def] lit m(2))
  then show ?thesis using s' by (simp add: r)
qed

lemma vm_create_faults:
  assumes "low_pages_taken (ram s) host" and "literals_apart lit" and "\<not> bit (load64 (ram s) 0) 0"
    and "3 * 2 ^ 21 \<le> unat start" and "2 ^ 22 \<le> unat sz" and "unat start + unat sz \<le> 2 ^ 30"
  shows "vm_create lit host start sz s = Some (Inl (Page_fault 0x40000008))"
proof -
  let ?s = "(say (CHR 0x0A # line ''++++++ Initializing guest VM info....'') [] s)\<lparr>vm := zero_vm_info\<rparr>"
  have "low_pages_taken (ram ?s) host" using assms(1) by simp
  then obtain s1 where s1: "initialize_fid2name_map lit host ?s = Some (Inr s1)" "low_pages_taken (ram s1) host"
      "\<And>x. elsewhere x \<Longrightarrow> ram s1 x = ram s x"
    using files_listed [OF _ assms(2), of ?s host] by auto
  obtain m2 where m2: "alloc_host_pages (ram s1) host 1 1 = Some (Inr (32, m2))" "low_pages_taken m2 host"
      "\<And>x. elsewhere x \<Longrightarrow> m2 x = ram s1 x"
    using list_page_frame [OF s1(2)] by blast
  obtain m3 where m3: "alloc_host_pages m2 host 1 1 = Some (Inr (32, m3))" "low_pages_taken m3 host"
      "\<And>x. elsewhere x \<Longrightarrow> m3 x = m2 x"
    using list_page_frame [OF m2(2)] by blast
  define s3 where "s3 = upd_vm (\<lambda>v. v\<lparr>waitingRetSysCall := 0\<rparr>) (upd_vm (\<lambda>v. v\<lparr>btrackcurrent := 0, nTrackedProcess := 0,
    ptracked := 0x20000\<rparr>) ((upd_vm (\<lambda>v. v\<lparr>nWaitingThreads := 0, syscallmap := 0x20000\<rparr>) (s1\<lparr>ram := m2\<rparr>))\<lparr>ram := m3\<rparr>))"
  have s3: "ram s3 = m3" by (simp add: s3_def upd_vm_def)
  have "m3 x = ram s x" if "elsewhere x" for x using s1(3) m2(3) m3(3) that by simp
  then have "load64 (ram s3) 0 = load64 (ram s) 0"
    using vector_0_elsewhere unfolding s3 by (intro load64_same) blast
  then have "create_2mb_nested_pagetable host start sz s3 = Some (Inl (Page_fault 0x40000008))"
    using nested_table_run [of s3 host start sz] assms(3-) m3(2) s3 by simp
  then show ?thesis
    by (simp add: vm_create_def s1(1) initialize_syscallmap_def initialize_ptracked_list_def m2(1) m3(1)
      s3_def [symmetric] Let_def)
qed

subsection \<open>Properties\<close>

text \<open>C2: the start-up ends in a page fault of the monitor: with the default size of the heap, \<open>start_vmm\<close>
  does not return, on any processor, and no guest is started.  The memory map of the boot loader is
  accepted, none of its regions passes the end of the address space, and the machine has more than 35 pages; the
  three literals the monitor keeps pointers to lie above 0x30000; and the first word of memory, an interrupt vector,
  is even (otherwise the construction of the nested page table takes another way).  The fault is the access, in this
  construction, to a table at 1 GB, where the page tables of \<open>boot.S\<close> map nothing.\<close>

theorem start_vmm_faults:
  assumes "literals_apart lit"
    and "setup_memory (ram s) mbi \<lparr>vmm_pmem_size = DEFAULT_VMM_PMEM_SIZE\<rparr> pml = Inr (m, host, pml')"
    and "\<forall>e \<in> set (entries (pml_e820 pml')). unat (addr e) + unat (size_of e) < 2 ^ 64"
    and "35 < unat (max_page host)" and "\<not> bit (load64 (ram s) 0) 0"
  shows "start_vmm cpuid lit mbi pml c (h, hw, g, s) = Some (Inl (Page_fault 0x40000008))"
proof -
  note pages = setup_memory_pages [OF assms(2-4)]
  have keep: "load64 m 0 = load64 (ram s) 0"
    by (rule load64_same, rule pages(3), simp add: in_range_def)
  obtain calls where pc: "parse_cmdline mbi = (\<lparr>vmm_pmem_size = DEFAULT_VMM_PMEM_SIZE\<rparr>, calls)"
    by (simp add: parse_cmdline_def)
  define s1 where "s1 = say_all calls (say (line (line (CHR 0x0A # CHR 0x0A # CHR 0x0A # line ''!!!!!!!!!!!BEGIN!!!!!!!!!!!'')))
    [] (say_all serial_test s))"
  have s1: "ram s1 = ram s" by (simp add: s1_def)
  have sizes: "unat DEFAULT_VMM_PMEM_START = 2 ^ 27" "unat DEFAULT_VMM_PMEM_SIZE = 2 ^ 24"
    by (simp_all add: DEFAULT_VMM_PMEM_START_def DEFAULT_VMM_PMEM_SIZE_def push_bit_eq_mult)
  have "vm_create lit host DEFAULT_VMM_PMEM_START DEFAULT_VMM_PMEM_SIZE (s1\<lparr>ram := m\<rparr>) =
      Some (Inl (Page_fault 0x40000008))"
    using vm_create_faults [of "s1\<lparr>ram := m\<rparr>" host lit DEFAULT_VMM_PMEM_START DEFAULT_VMM_PMEM_SIZE] pages(1) assms(1,5)
    by (simp add: keep sizes few_pages_low)
  then show ?thesis
    by (simp add: start_vmm_def pc s1_def [symmetric] s1 assms(2) pages(2) Let_def)
qed

text \<open>256 MB of memory, described by one entry of the boot loader's list.\<close>

definition example_list :: mem where
  "example_list = put_entry (\<lambda>_. 0) 0x9000 \<lparr>addr = 0x100000, size_of = 0xFF00000, etype = 1\<rparr>"

definition example_mbi :: multiboot_info where
  "example_mbi = \<lparr>mbi_flags = 0x40, mbi_cmdline = 0, mmap_length = 24, mmap_addr = 0x9000\<rparr>"

definition blank_layout :: pmem_layout where
  "blank_layout = \<lparr>pml_max_page = 0, total_pages = 0, vmm_pmem_start = 0, vmm_heap_start = 0, vmm_pmem_end = 0,
     pml_e820 = \<lparr>nr_map = 0, emap = replicate 128 \<lparr>addr = 0, size_of = 0, etype = 0\<rparr>\<rparr>\<rparr>"

lemma example_memory:
  "\<exists>m host pml'. setup_memory example_list example_mbi \<lparr>vmm_pmem_size = DEFAULT_VMM_PMEM_SIZE\<rparr> blank_layout =
     Inr (m, host, pml') \<and>
     entries (pml_e820 pml') = [\<lparr>addr = 0x100000, size_of = 0xFF00000, etype = 1\<rparr>] \<and> max_page host = 0x10000"
proof -
  let ?x = "\<lparr>addr = 0x100000, size_of = 0xFF00000, etype = 1\<rparr>"
  have a: "ctrue (mbi_flags example_mbi AND MBI_MEMMAP)" by (simp add: ctrue_def MBI_MEMMAP_def example_mbi_def)
  have l: "laid_out example_list (ucast (mmap_addr example_mbi)) [?x]"
    using put_entry_at [of _ "0x9000"] by (simp add: example_list_def example_mbi_def)
  obtain e where e: "setup_memory_region example_list example_mbi (pml_e820 blank_layout) = Inr e" "entries e = [?x]"
    using setup_memory_region_laid_out [OF a _ l, of "pml_e820 blank_layout"]
    by (auto simp: E820_MAX_ENTRIES_def example_mbi_def blank_layout_def)
  have "get_max_pfn e = 0x10000"
    by (simp add: get_max_pfn_def e(2) E820_RAM_def Let_def PFN_UP_def PFN_DOWN_def PAGE_SIZE_def drop_bit_eq_div)
  then show ?thesis
    by (simp add: setup_memory_def e naive_memmap_init_def Let_def PAGE_UP_def PAGE_MASK_def PAGE_SIZE_def
      DEFAULT_VMM_PMEM_START_def DEFAULT_VMM_PMEM_SIZE_def push_bit_eq_mult)
qed

lemma example_list_low: "unat x < 0x9000 \<or> 0x10000 \<le> unat x \<Longrightarrow> example_list x = 0"
proof -
  assume x: "unat x < 0x9000 \<or> 0x10000 \<le> unat x"
  have o: "\<not> in_range (0x9000 + of_nat k) 4 x" if "k < 24" for k
  proof -
    have "unat (0x9000 + of_nat k :: u64) = 0x9000 + k" using that by (simp add: unat_plus_if' unat_of_nat_u64)
    then show ?thesis using x that u64_bounded [of x] by (auto simp: in_range_def unat_sub_if')
  qed
  then show ?thesis
    using o [of 0] o [of 4] o [of 8] o [of 12] o [of 16] o [of 20]
    by (simp add: example_list_def put_entry_def set_type_def set_length_def set_base_def store_le_other)
qed

theorem start_vmm_faults_witness:
  "start_vmm example_cpuid (\<lambda>_. 0x40000) example_mbi blank_layout zero_cpuinfo
     (example_host, example_intel 0, zero_globals, blank_machine example_list zero_vm_info) =
   Some (Inl (Page_fault 0x40000008))"
proof -
  let ?s = "blank_machine example_list zero_vm_info"
  obtain m host pml' where m: "setup_memory (ram ?s) example_mbi \<lparr>vmm_pmem_size = DEFAULT_VMM_PMEM_SIZE\<rparr> blank_layout =
      Inr (m, host, pml')" "\<forall>e \<in> set (entries (pml_e820 pml')). unat (addr e) + unat (size_of e) < 2 ^ 64"
      "35 < unat (max_page host)"
    using example_memory by (auto simp: blank_machine_def)
  have b: "\<not> bit (load64 (ram ?s) 0) 0"
    by (simp add: blank_machine_def bit_load_le example_list_low)
  have l: "literals_apart (\<lambda>_. 0x40000)" by (simp add: literals_apart_def)
  show ?thesis by (rule start_vmm_faults [OF l m b])
qed

end
