(* ===== verification/Launch.thy ===== *)
theory Launch
  imports Memory
begin

text \<open>
  The assembly around the entry of the guest: \<open>svm_launch\<close> of \<open>kernel/svm_asm.S\<close> with the inline
  assembly of \<open>svm_run\<close> (\<open>kernel/svm.c\<close>), and \<open>vmx_asm_do_vmentry\<close> and
  \<open>vmx_asm_vmexit_handler\<close> of \<open>kernel/vmx_asm.S\<close>.  The programs are lists of instructions for a small
  machine with the sixteen general registers, memory and the two interrupt flags.  What the guest
  does between its entry and its exit is a parameter: a function of the registers and the memory it
  finds.  \<open>VMLOAD\<close> and \<open>VMSAVE\<close> move state the machine does not have.
\<close>

subsection \<open>The machine\<close>

datatype reg = RAX | RBX | RCX | RDX | RSI | RDI | RBP | RSP | R8 | R9 | R10 | R11 | R12 | R13 | R14 | R15

type_synonym reg_file = "reg \<Rightarrow> u64"

text \<open>\<open>entries\<close> records the registers at every entry of the guest.\<close>

record cpu64 =
  gpr :: reg_file
  stk :: mem
  gif :: bool
  rflags_if :: bool
  pc :: u64
  entries :: "reg_file list"

type_synonym guest = "reg_file \<Rightarrow> mem \<Rightarrow> reg_file \<times> mem"

datatype instr = Push reg | Pop reg | Mov u64 reg | Call u64 | Ret | Clgi | Stgi | Cli | Sti
  | Vmload | Vmsave | Enter | Ud2

definition push_word :: "u64 \<Rightarrow> cpu64 \<Rightarrow> cpu64" where
  "push_word w c =
     (let sp = gpr c RSP - 8 in c\<lparr>gpr := (gpr c)(RSP := sp), stk := store64 (stk c) sp w\<rparr>)"

text \<open>\<open>Call\<close> carries its return address.  \<open>enter\<close> is the instruction that runs the guest.\<close>

fun exec1 :: "(cpu64 \<Rightarrow> cpu64) \<Rightarrow> instr \<Rightarrow> cpu64 \<Rightarrow> cpu64 res" where
  "exec1 enter (Push r) c = Inr (push_word (gpr c r) c)"
| "exec1 enter (Pop r) c =
     Inr (c\<lparr>gpr := (gpr c)(RSP := gpr c RSP + 8, r := load64 (stk c) (gpr c RSP))\<rparr>)"
| "exec1 enter (Mov w r) c = Inr (c\<lparr>gpr := (gpr c)(r := w)\<rparr>)"
| "exec1 enter (Call a) c = Inr (push_word a c)"
| "exec1 enter Ret c =
     Inr (c\<lparr>pc := load64 (stk c) (gpr c RSP), gpr := (gpr c)(RSP := gpr c RSP + 8)\<rparr>)"
| "exec1 enter Clgi c = Inr (c\<lparr>gif := False\<rparr>)"
| "exec1 enter Stgi c = Inr (c\<lparr>gif := True\<rparr>)"
| "exec1 enter Cli c = Inr (c\<lparr>rflags_if := False\<rparr>)"
| "exec1 enter Sti c = Inr (c\<lparr>rflags_if := True\<rparr>)"
| "exec1 enter Vmload c = Inr c"
| "exec1 enter Vmsave c = Inr c"
| "exec1 enter Enter c = Inr (enter c)"
| "exec1 enter Ud2 c = fatal_failure ''ud2''"

primrec exec :: "(cpu64 \<Rightarrow> cpu64) \<Rightarrow> instr list \<Rightarrow> cpu64 \<Rightarrow> cpu64 res" where
  "exec enter [] c = Inr c"
| "exec enter (i # is) c = bindr (exec1 enter i c) (exec enter is)"

text \<open>\<open>VMRUN\<close>: the processor saves and restores the host's RAX and RSP itself, gives the guest its own,
  and clears the global interrupt flag when the guest exits.\<close>

definition vmrun :: "guest \<Rightarrow> cpu64 \<Rightarrow> cpu64" where
  "vmrun g c =
     (let (r, m) = g (gpr c) (stk c)
      in c\<lparr>gpr := r(RAX := gpr c RAX, RSP := gpr c RSP), stk := m, gif := False, entries := entries c @ [gpr c]\<rparr>)"

text \<open>\<open>VMLAUNCH\<close> and \<open>VMRESUME\<close>: at its exit the guest leaves all registers but RSP, which comes from
  the control structure.\<close>

definition vmlaunch :: "guest \<Rightarrow> u64 \<Rightarrow> cpu64 \<Rightarrow> cpu64" where
  "vmlaunch g host_rsp c =
     (let (r, m) = g (gpr c) (stk c)
      in c\<lparr>gpr := r(RSP := host_rsp), stk := m, rflags_if := False, entries := entries c @ [gpr c]\<rparr>)"

subsection \<open>The programs\<close>

definition svm_launch :: "instr list" where
  "svm_launch =
     [Clgi,
      Push RBX, Push RCX, Push RDX, Push RSI, Push RDI, Push RBP, Push R8,
      Push R9, Push R10, Push R11, Push R12, Push R13, Push R14, Push R15,
      Vmload, Enter, Vmsave,
      Pop R15, Pop R14, Pop R13, Pop R12, Pop R11, Pop R10, Pop R9, Pop R8,
      Pop RBP, Pop RDI, Pop RSI, Pop RDX, Pop RCX, Pop RBX,
      Stgi, Ret]"

definition svm_run_code :: "u64 \<Rightarrow> u64 \<Rightarrow> instr list" where
  "svm_run_code vmcb_pa return = [Push RAX, Mov vmcb_pa RAX, Call return] @ svm_launch @ [Pop RAX]"

text \<open>Up to \<open>VMLAUNCH\<close>, and what follows when the instruction fails.\<close>

definition vmx_asm_do_vmentry :: "instr list" where
  "vmx_asm_do_vmentry =
     [Cli,
      Push R15, Push R14, Push R13, Push R12, Push RBP, Push RBX, Push R11, Push R10,
      Push R9, Push R8, Push RAX, Push RCX, Push RDX, Push RSI, Push RDI]"

definition vmx_launch_failed :: "instr list" where
  "vmx_launch_failed = [Sti, Ud2]"

lemma launch_failure_fatal: "exec enter vmx_launch_failed c = fatal_failure ''ud2''"
  by (simp add: vmx_launch_failed_def)

text \<open>The handler, to which the processor jumps at every exit, up to \<open>VMRESUME\<close>.\<close>

definition vmx_asm_vmexit_handler :: "instr list" where
  "vmx_asm_vmexit_handler =
     [Pop RDI, Pop RSI, Pop RDX, Pop RCX, Pop RAX, Pop R8, Pop R9, Pop R10,
      Pop R11, Pop RBX, Pop RBP, Pop R12, Pop R13, Pop R14, Pop R15, Sti]"

subsection \<open>Stack frames\<close>

lemma exec_append: "exec enter (xs @ ys) c = bindr (exec enter xs c) (exec enter ys)"
proof (induction xs arbitrary: c)
  case (Cons i xs)
  then show ?case by (cases "exec1 enter i c") simp_all
qed simp

text \<open>The words \<open>vs\<close> on the stack, the top first.\<close>

definition frame :: "mem \<Rightarrow> u64 \<Rightarrow> u64 list \<Rightarrow> bool" where
  "frame m sp vs \<longleftrightarrow> (\<forall>i < length vs. load64 m (sp + of_nat (8 * i)) = vs ! i)"

lemma frame_Nil [simp]: "frame m sp []"
  by (simp add: frame_def)

lemma frame_Cons: "frame m sp (v # vs) \<longleftrightarrow> load64 m sp = v \<and> frame m (sp + 8) vs"
proof -
  have a: "sp + of_nat (8 * Suc i) = sp + 8 + of_nat (8 * i)" for i by (simp add: algebra_simps)
  show ?thesis by (simp only: frame_def length_Cons All_less_Suc2 a nth_Cons_0 nth_Cons_Suc) simp
qed

lemma frame_append: "frame m sp (vs @ ws) \<longleftrightarrow> frame m sp vs \<and> frame m (sp + of_nat (8 * length vs)) ws"
proof (induction vs arbitrary: sp)
  case (Cons v vs)
  have a: "sp + of_nat (8 * Suc n) = sp + 8 + of_nat (8 * n)" for n by (simp add: algebra_simps)
  show ?case by (simp only: append_Cons frame_Cons Cons.IH length_Cons a conj_assoc)
qed simp

lemma frame_cong:
  assumes "frame m sp vs" and "8 * length vs \<le> 2 ^ 64"
    and "\<And>x. in_range sp (8 * length vs) x \<Longrightarrow> m' x = m x"
  shows "frame m' sp vs"
  unfolding frame_def
proof (intro allI impI)
  fix i assume i: "i < length vs"
  have "load64 m' (sp + of_nat (8 * i)) = load64 m (sp + of_nat (8 * i))"
  proof (rule load_le_cong)
    fix k :: nat assume "k < 8"
    then have "8 * i + k < 8 * length vs" using i by linarith
    then have "in_range sp (8 * length vs) (sp + of_nat (8 * i + k))"
      using assms(2) by (simp only: in_range_def add_diff_cancel_left' unat_of_nat_u64 [of "8 * i + k"])
    from assms(3) [OF this] show "m' (sp + of_nat (8 * i) + of_nat k) = m (sp + of_nat (8 * i) + of_nat k)"
      by (simp add: add.assoc)
  qed
  then show "load64 m' (sp + of_nat (8 * i)) = vs ! i"
    using assms(1) i by (simp add: frame_def)
qed

lemma frame_push:
  assumes "frame m sp vs" and "8 * Suc (length vs) \<le> 2 ^ 64"
  shows "frame (store64 m (sp - 8) w) (sp - 8) (w # vs)"
proof -
  have "frame (store64 m (sp - 8) w) sp vs"
  proof (rule frame_cong [OF assms(1)])
    fix x assume "in_range sp (8 * length vs) x"
    then have "\<not> in_range (sp - 8) 8 x"
      using disjoint_offsets [of 0 8 8 "8 * length vs" "sp - 8"] assms(2) by (auto simp: disjoint_ranges_def)
    then show "store64 m (sp - 8) w x = m x" by (simp add: store_le_other)
  qed (use assms in simp)
  then show ?thesis by (simp add: frame_Cons)
qed

text \<open>Pushing registers, and popping them.\<close>

lemma exec_pushes:
  assumes "RSP \<notin> set rs" and "frame (stk c) (gpr c RSP) vs" and "8 * (length rs + length vs) \<le> 2 ^ 64"
  shows "\<exists>m. exec enter (map Push rs) c =
      Inr (c\<lparr>gpr := (gpr c)(RSP := gpr c RSP - of_nat (8 * length rs)), stk := m\<rparr>) \<and>
    frame m (gpr c RSP - of_nat (8 * length rs)) (map (gpr c) (rev rs) @ vs) \<and>
    (\<forall>x. \<not> in_range (gpr c RSP - of_nat (8 * length rs)) (8 * length rs) x \<longrightarrow> m x = stk c x)"
  using assms
proof (induction rs arbitrary: c vs)
  case Nil
  then show ?case by (auto intro!: exI [of _ "stk c"])
next
  case (Cons r rs)
  let ?sp = "gpr c RSP - 8"
  let ?c = "push_word (gpr c r) c"
  have c: "gpr ?c = (gpr c)(RSP := ?sp)" "stk ?c = store64 (stk c) ?sp (gpr c r)"
    by (simp_all add: push_word_def Let_def)
  have f: "frame (stk ?c) (gpr ?c RSP) (gpr c r # vs)"
    unfolding c using frame_push [OF Cons.prems(2)] Cons.prems(3) by simp
  have a: "?sp - of_nat (8 * length rs) = gpr c RSP - of_nat (8 * length (r # rs))"
    by (simp add: algebra_simps)
  have sp: "gpr ?c RSP = ?sp" by (simp add: c)
  have "RSP \<notin> set rs" "8 * (length rs + length (gpr c r # vs)) \<le> 2 ^ 64" using Cons.prems(1,3) by simp_all
  from Cons.IH [OF this(1) f this(2)]
  obtain m where m: "exec enter (map Push rs) ?c =
        Inr (?c\<lparr>gpr := (gpr ?c)(RSP := ?sp - of_nat (8 * length rs)), stk := m\<rparr>)"
      "frame m (?sp - of_nat (8 * length rs)) (map (gpr ?c) (rev rs) @ gpr c r # vs)"
      "\<forall>x. \<not> in_range (?sp - of_nat (8 * length rs)) (8 * length rs) x \<longrightarrow> m x = stk ?c x"
    unfolding sp by blast
  have mp: "map (gpr ?c) (rev rs) = map (gpr c) (rev rs)"
    using Cons.prems(1) by (auto simp: c)
  have fr: "frame m (gpr c RSP - of_nat (8 * length (r # rs))) (map (gpr c) (rev (r # rs)) @ vs)"
    using m(2) unfolding a mp by simp
  have out: "m x = stk c x" if "\<not> in_range (gpr c RSP - of_nat (8 * length (r # rs))) (8 * length (r # rs)) x" for x
  proof -
    let ?b = "gpr c RSP - of_nat (8 * length (r # rs))"
    have n: "8 * length (r # rs) \<le> 2 ^ 64" using Cons.prems(3) by simp
    have "?b + of_nat (8 * length rs) = ?sp" by (simp add: algebra_simps)
    moreover have "in_range (?b + of_nat (8 * length rs)) 8 x \<Longrightarrow> in_range ?b (8 * length (r # rs)) x"
      using in_range_offset [of "8 * length rs" 8 ?b x] n by (simp add: in_range_def)
    ultimately have "\<not> in_range ?sp 8 x" using that by metis
    moreover have "\<not> in_range ?b (8 * length rs) x" using that by (simp add: in_range_def)
    ultimately show ?thesis using m(3) [unfolded a] by (simp add: c store_le_other del: of_nat_mult)
  qed
  have "exec enter (map Push (r # rs)) c =
      Inr (c\<lparr>gpr := (gpr c)(RSP := gpr c RSP - of_nat (8 * length (r # rs))), stk := m\<rparr>)"
    using m(1) by (simp add: c algebra_simps) (simp add: push_word_def Let_def)
  then show ?case using fr out by blast
qed

lemma exec_pops:
  assumes "RSP \<notin> set rs" and "frame (stk c) (gpr c RSP) (map f rs @ vs)"
  shows "exec enter (map Pop rs) c =
    Inr (c\<lparr>gpr := (\<lambda>r. if r = RSP then gpr c RSP + of_nat (8 * length rs) else if r \<in> set rs then f r else gpr c r)\<rparr>)"
  using assms
proof (induction rs arbitrary: c)
  case Nil
  have "(\<lambda>r. if r = RSP then gpr c RSP else gpr c r) = gpr c" by auto
  then show ?case by (simp cong: if_cong)
next
  case (Cons r rs)
  let ?c = "c\<lparr>gpr := (gpr c)(RSP := gpr c RSP + 8, r := f r)\<rparr>"
  have v: "load64 (stk c) (gpr c RSP) = f r" and fr: "frame (stk ?c) (gpr ?c RSP) (map f rs @ vs)"
    using Cons.prems by (auto simp: frame_Cons)
  show ?case using Cons.IH [OF _ fr] Cons.prems(1)
    by (auto simp: v fun_eq_iff algebra_simps)
qed


subsection \<open>The guest is given the monitor's registers\<close>

text \<open>A guest that leaves a range of memory alone, as nested paging makes it leave the monitor's stack.\<close>

definition spares :: "guest \<Rightarrow> u64 \<Rightarrow> nat \<Rightarrow> bool" where
  "spares g a n \<longleftrightarrow> (\<forall>r m x. in_range a n x \<longrightarrow> snd (g r m) x = m x)"

definition svm_saved :: "reg list" where
  "svm_saved = [RBX, RCX, RDX, RSI, RDI, RBP, R8, R9, R10, R11, R12, R13, R14, R15]"

lemma svm_launch_split:
  "svm_launch = [Clgi] @ map Push svm_saved @ [Vmload, Enter, Vmsave] @ map Pop (rev svm_saved) @ [Stgi, Ret]"
  by (simp add: svm_launch_def svm_saved_def)

lemma svm_saved_facts:
  "RSP \<notin> set svm_saved" "length svm_saved = 14" "r \<in> set svm_saved \<longleftrightarrow> r \<noteq> RAX \<and> r \<noteq> RSP"
  by (simp_all add: svm_saved_def) (cases r; simp)

lemma svm_launch_exec:
  assumes "frame (stk c) (gpr c RSP) [ret, w]" and "spares g (gpr c RSP - 112) 128"
  shows "\<exists>m. exec (vmrun g) svm_launch c =
      Inr (c\<lparr>gpr := (gpr c)(RSP := gpr c RSP + 8), stk := snd (g ((gpr c)(RSP := gpr c RSP - 112)) m),
             gif := True, pc := ret, entries := entries c @ [(gpr c)(RSP := gpr c RSP - 112)]\<rparr>) \<and>
    frame (snd (g ((gpr c)(RSP := gpr c RSP - 112)) m)) (gpr c RSP + 8) [w] \<and>
    (\<forall>x. \<not> in_range (gpr c RSP - 112) 112 x \<longrightarrow> m x = stk c x)"
proof -
  let ?c = "c\<lparr>gif := False\<rparr>"
  let ?r = "(gpr c)(RSP := gpr c RSP - 112)"
  have "\<exists>m. exec (vmrun g) (map Push svm_saved) ?c =
      Inr (?c\<lparr>gpr := (gpr ?c)(RSP := gpr ?c RSP - of_nat (8 * length svm_saved)), stk := m\<rparr>) \<and>
    frame m (gpr ?c RSP - of_nat (8 * length svm_saved)) (map (gpr ?c) (rev svm_saved) @ [ret, w]) \<and>
    (\<forall>x. \<not> in_range (gpr ?c RSP - of_nat (8 * length svm_saved)) (8 * length svm_saved) x \<longrightarrow> m x = stk ?c x)"
    by (rule exec_pushes) (use assms(1) in \<open>simp_all add: svm_saved_facts\<close>)
  then obtain m where m: "exec (vmrun g) (map Push svm_saved) ?c = Inr (?c\<lparr>gpr := ?r, stk := m\<rparr>)"
      "frame m (gpr c RSP - 112) (map (gpr c) (rev svm_saved) @ [ret, w])"
      "\<forall>x. \<not> in_range (gpr c RSP - 112) 112 x \<longrightarrow> m x = stk c x"
    by (auto simp: svm_saved_facts)
  obtain r' m' where g: "g ?r m = (r', m')" by fastforce
  let ?e = "?c\<lparr>gpr := r'(RAX := gpr c RAX, RSP := gpr c RSP - 112), stk := m', gif := False, entries := entries c @ [?r]\<rparr>"
  have e: "vmrun g (?c\<lparr>gpr := ?r, stk := m\<rparr>) = ?e" by (simp add: vmrun_def g)
  have fr: "frame m' (gpr c RSP - 112) (map (gpr c) (rev svm_saved) @ [ret, w])"
  proof (rule frame_cong [OF m(2)])
    fix x assume "in_range (gpr c RSP - 112) (8 * length (map (gpr c) (rev svm_saved) @ [ret, w])) x"
    then have "in_range (gpr c RSP - 112) 128 x" by (simp add: svm_saved_facts)
    then show "m' x = m x" using assms(2) g by (metis spares_def snd_conv)
  qed (simp add: svm_saved_facts)
  have p: "exec (vmrun g) (map Pop (rev svm_saved)) ?e = Inr (?e\<lparr>gpr := (\<lambda>r. if r = RSP
      then gpr ?e RSP + of_nat (8 * length (rev svm_saved)) else if r \<in> set (rev svm_saved) then gpr c r else gpr ?e r)\<rparr>)"
    by (rule exec_pops) (use fr in \<open>simp_all add: svm_saved_facts\<close>)
  have regs: "(\<lambda>r. if r = RSP then gpr ?e RSP + of_nat (8 * length (rev svm_saved)) else
      if r \<in> set (rev svm_saved) then gpr c r else gpr ?e r) = gpr c"
    by (auto simp: fun_eq_iff svm_saved_facts)
  have "exec (vmrun g) (map Pop (rev svm_saved)) ?e = Inr (?e\<lparr>gpr := gpr c\<rparr>)"
    unfolding p regs ..
  moreover have "frame m' (gpr c RSP) [ret, w]"
    using fr by (simp only: frame_append) (simp add: svm_saved_facts)
  ultimately show ?thesis
    unfolding svm_launch_split
    using m by (intro exI [of _ m]) (simp add: exec_append e g frame_Cons)
qed

text \<open>The Intel side: the registers in the order in which the handler pops them.\<close>

definition vmx_saved :: "reg list" where
  "vmx_saved = [RDI, RSI, RDX, RCX, RAX, R8, R9, R10, R11, RBX, RBP, R12, R13, R14, R15]"

lemma vmx_split:
  "vmx_asm_do_vmentry = Cli # map Push (rev vmx_saved)" "vmx_asm_vmexit_handler = map Pop vmx_saved @ [Sti]"
  by (simp_all add: vmx_asm_do_vmentry_def vmx_asm_vmexit_handler_def vmx_saved_def)

lemma vmx_saved_facts:
  "RSP \<notin> set vmx_saved" "length vmx_saved = 15" "r \<in> set vmx_saved \<longleftrightarrow> r \<noteq> RSP"
  by (simp_all add: vmx_saved_def) (cases r; simp)

text \<open>No exit of an Intel guest reaches the monitor: the handler, to which HOST_RIP points, gives the processor the
  registers that it finds on the stack at HOST_RSP and resumes the guest with them, as often as the guest
  exits.  Which words these are is open: no code that is run writes HOST_RSP, and \<open>vmx_asm_do_vmentry\<close>, which
  would push the registers, has no caller.\<close>

lemma vmx_resume_exec:
  assumes "frame (stk c) sp (map f vmx_saved)" and "gpr c RSP = sp" and "f RSP = sp + 120" and "spares g sp 120"
  shows "\<exists>c'. exec (vmlaunch g sp) (concat (replicate n (vmx_asm_vmexit_handler @ [Enter]))) c = Inr c' \<and>
    entries c' = entries c @ replicate n f"
  using assms(1,2)
proof (induction n arbitrary: c)
  case 0 then show ?case by simp
next
  case (Suc n)
  have p: "exec (vmlaunch g sp) (map Pop vmx_saved) c = Inr (c\<lparr>gpr := (\<lambda>r. if r = RSP
      then gpr c RSP + of_nat (8 * length vmx_saved) else if r \<in> set vmx_saved then f r else gpr c r)\<rparr>)"
    by (rule exec_pops [where vs = "[]"]) (use Suc.prems in \<open>simp_all add: vmx_saved_facts\<close>)
  have regs: "(\<lambda>r. if r = RSP then gpr c RSP + of_nat (8 * length vmx_saved) else if r \<in> set vmx_saved then f r
      else gpr c r) = f"
    using Suc.prems(2) assms(3) by (auto simp: fun_eq_iff vmx_saved_facts)
  obtain r' m' where g: "g f (stk c) = (r', m')" by fastforce
  let ?e = "c\<lparr>gpr := r'(RSP := sp), stk := m', rflags_if := False, entries := entries c @ [f]\<rparr>"
  have "frame m' sp (map f vmx_saved)"
  proof (rule frame_cong [OF Suc.prems(1)])
    fix x assume "in_range sp (8 * length (map f vmx_saved)) x"
    then show "m' x = stk c x" using assms(4) g by (simp add: spares_def vmx_saved_facts) (metis snd_conv)
  qed (simp add: vmx_saved_facts)
  from Suc.IH [of ?e] this obtain c' where
    "exec (vmlaunch g sp) (concat (replicate n (vmx_asm_vmexit_handler @ [Enter]))) ?e = Inr c'"
    "entries c' = entries ?e @ replicate n f" by auto
  moreover have "vmlaunch g sp (c\<lparr>gpr := f, rflags_if := True\<rparr>) = ?e" by (simp add: vmlaunch_def g)
  ultimately show ?case by (simp add: vmx_split exec_append p [unfolded regs])
qed

subsection \<open>Properties\<close>

text \<open>C10: \<open>svm_run\<close> gives the monitor all its registers back, with the stack balanced and the global
  interrupt flag set, and leaves memory outside its stack frame to the guest; but the guest is entered
  with the monitor's own registers, whatever it left at its last exit, and what it leaves is lost:
  nothing writes the copies of its registers that the exit handler reads.\<close>

theorem svm_run_keeps_host_only:
  assumes "spares g (gpr c RSP - 128) 128"
  shows "\<exists>c'. exec (vmrun g) (svm_run_code vmcb_pa ret) c = Inr c' \<and> gpr c' = gpr c \<and> gif c' \<and> pc c' = ret \<and>
    entries c' = entries c @ [(gpr c)(RAX := vmcb_pa, RSP := gpr c RSP - 128)] \<and>
    (\<forall>x. \<not> in_range (gpr c RSP - 128) 128 x \<and> (\<forall>r m. snd (g r m) x = m x) \<longrightarrow> stk c' x = stk c x)"
proof -
  let ?w = "gpr c RAX"
  define c2 where "c2 = push_word ret ((push_word ?w c)\<lparr>gpr := (gpr (push_word ?w c))(RAX := vmcb_pa)\<rparr>)"
  have c2: "gpr c2 = (gpr c)(RAX := vmcb_pa, RSP := gpr c RSP - 16)"
      "stk c2 = store64 (store64 (stk c) (gpr c RSP - 8) ?w) (gpr c RSP - 16) ret" "entries c2 = entries c"
    by (auto simp: c2_def push_word_def Let_def fun_eq_iff)
  have "frame (stk c2) (gpr c RSP - 16) [ret, ?w]"
    unfolding c2 using frame_push [of "store64 (stk c) (gpr c RSP - 8) ?w" "gpr c RSP - 8" "[?w]" ret]
    by (simp add: frame_Cons)
  then have "frame (stk c2) (gpr c2 RSP) [ret, ?w]" by (simp add: c2)
  from svm_launch_exec [OF this, of g] assms
  obtain m where m: "exec (vmrun g) svm_launch c2 = Inr (c2\<lparr>gpr := (gpr c2)(RSP := gpr c RSP - 8),
        stk := snd (g ((gpr c2)(RSP := gpr c RSP - 128)) m), gif := True, pc := ret,
        entries := entries c @ [(gpr c2)(RSP := gpr c RSP - 128)]\<rparr>)"
      "frame (snd (g ((gpr c2)(RSP := gpr c RSP - 128)) m)) (gpr c RSP - 8) [?w]"
      "\<forall>x. \<not> in_range (gpr c RSP - 128) 112 x \<longrightarrow> m x = stk c2 x"
    by (auto simp: c2)
  let ?s = "snd (g ((gpr c2)(RSP := gpr c RSP - 128)) m)"
  have w: "load64 ?s (gpr c RSP - 8) = ?w" using m(2) by (simp add: frame_Cons)
  have r: "(gpr c2)(RSP := gpr c RSP, RAX := ?w) = gpr c" by (auto simp: c2)
  have e: "exec (vmrun g) (svm_run_code vmcb_pa ret) c = Inr (c2\<lparr>gpr := gpr c, stk := ?s, gif := True, pc := ret,
        entries := entries c @ [(gpr c2)(RSP := gpr c RSP - 128)]\<rparr>)"
    unfolding svm_run_code_def exec_append by (simp add: c2_def [symmetric] m(1) w r)
  have "?s x = stk c x" if "\<not> in_range (gpr c RSP - 128) 128 x" "\<forall>r m. snd (g r m) x = m x" for x
  proof -
    have s: "\<not> in_range (gpr c RSP - 128 + of_nat q) n x" if "q + n \<le> 128" for q n
      using in_range_offset [of q n "gpr c RSP - 128" x] \<open>\<not> in_range (gpr c RSP - 128) 128 x\<close> that
      by (simp add: in_range_def)
    from s [of 0 112] s [of 112 8] s [of 120 8] m(3) that(2) show ?thesis
      by (simp add: c2 store_le_other)
  qed
  then show ?thesis using e by (auto simp: c2)
qed

text \<open>A guest that leaves 7 in every register, and a processor for it.\<close>

definition sevens :: guest where
  "sevens r m = ((\<lambda>_. 7), m)"

definition example_cpu64 :: cpu64 where
  "example_cpu64 = \<lparr>gpr = (\<lambda>r. if r = RSP then 0x9000 else 1), stk = (\<lambda>_. 0), gif = True, rflags_if = True, pc = 0,
     entries = []\<rparr>"

lemma sevens_spares: "spares sevens a n"
  by (simp add: spares_def sevens_def)

theorem svm_run_keeps_host_only_witness:
  "\<exists>c'. exec (vmrun sevens) (svm_run_code 0x20000 5) example_cpu64 = Inr c' \<and> gpr c' RBX = 1 \<and>
     map (\<lambda>r. r RBX) (entries c') = [1]"
  using svm_run_keeps_host_only [of sevens example_cpu64 "0x20000" 5] sevens_spares
  by (auto simp: example_cpu64_def)

end
