(* ===== verification/Bootstrap.thy ===== *)
theory Bootstrap
  imports Boot Launch
begin

text \<open>
  \<open>kernel/boot.S\<close>, with the constants of \<open>include/vmm.h\<close>, \<open>include/multiboot.h\<close> and
  \<open>include/page.h\<close> it uses: the way of the processor from the boot loader to the call of
  \<open>start_vmm\<close> in long mode, the descriptor table, and the page tables the monitor runs on for ever
  (no other code of the monitor loads CR3).  The addresses that the linker chooses are parameters.
\<close>

subsection \<open>The page tables\<close>

definition VMM_OFFSET :: u64 where "VMM_OFFSET = 0xFFFF830000000000"
definition PHYS :: "u64 \<Rightarrow> u64" where "PHYS va = va - VMM_OFFSET"
definition STACK_SIZE :: u64 where "STACK_SIZE = push_bit 16 1"

text \<open>The flags of an entry that points to a table, added to its address, and those of a 2-Mbyte page.\<close>

definition table_flags :: u64 where
  "table_flags = ucast (PTTEF_PRESENT + PTTEF_RW + PTTEF_US)"

definition page_flags :: u64 where
  "page_flags = ucast (PTTEF_PRESENT OR PTTEF_RW OR PTTEF_PAGE_SIZE OR PTTEF_US)"

text \<open>The assembler macro \<open>identmap\<close> calls itself until the two numbers are equal.\<close>

partial_function (option) identmap :: "int \<Rightarrow> int \<Rightarrow> u64 list option" where
  "identmap i j =
     (let entry = of_int i * 0x200000 OR page_flags
      in if j - i \<noteq> 0 then Option.bind (identmap (i + 1) j) (\<lambda>rest. Some (entry # rest)) else Some [entry])"

text \<open>The three tables lie one after the other, each on a page of its own; \<open>pdp\<close> and \<open>pdir\<close> are the
  physical addresses of the second and the third.\<close>

definition vmm_pml4_table :: "u64 \<Rightarrow> u64 list" where
  "vmm_pml4_table pdp =
     [pdp + table_flags] @ replicate 261 0 @ [pdp + table_flags] @ replicate 249 0"

definition vmm_pdp_table :: "u64 \<Rightarrow> u64 list" where
  "vmm_pdp_table pdir = [pdir + table_flags] @ replicate 511 0"

definition vmm_pdir_table :: "u64 list" where
  "vmm_pdir_table = the (identmap 0 0x3F) @ the (identmap 0x40 0x7F)"

text \<open>The words of the three tables from the physical address \<open>a\<close> of the first.\<close>

definition boot_tables :: "u64 \<Rightarrow> u64 list" where
  "boot_tables a = vmm_pml4_table (a + 0x1000) @ vmm_pdp_table (a + 0x2000) @ vmm_pdir_table"

text \<open>The processor's walk in long mode: four levels, the third entry may map 2 Mbyte.  The bits of an
  entry above 51 and the attributes of the page do not matter here.\<close>

definition walk_long :: "mem \<Rightarrow> u64 \<Rightarrow> u64 \<Rightarrow> u64 option" where
  "walk_long m table la =
     (let e4 = load64 m (slot_2mb table la 39)
      in if \<not> bit e4 0 then None
         else let e3 = load64 m (slot_2mb (next_table e4) la 30)
         in if \<not> bit e3 0 then None
            else let e2 = load64 m (slot_2mb (next_table e3) la 21)
            in if \<not> bit e2 0 then None
               else if bit e2 7 then Some (push_bit 21 (get_field e2 21 31) + take_bit 21 la)
               else let e1 = load64 m (slot_2mb (next_table e2) la 12)
               in if \<not> bit e1 0 then None
                  else Some (next_table e1 + take_bit 12 la))"

lemma identmap_upto: "i \<le> j \<Longrightarrow> identmap i j = Some (map (\<lambda>k. of_int k * 0x200000 OR page_flags) [i..j])"
proof (induction "nat (j - i)" arbitrary: i)
  case 0
  then show ?case by (subst identmap.simps) simp
next
  case (Suc n)
  then have "identmap (i + 1) j = Some (map (\<lambda>k. of_int k * 0x200000 OR page_flags) [i + 1..j])"
    by (intro Suc.hyps(1)) simp_all
  then show ?case using Suc(2,3) by (subst identmap.simps) (simp add: Let_def upto_rec1)
qed

lemma pdir_upto: "vmm_pdir_table = map (\<lambda>k. of_int k * 0x200000 OR page_flags) [0..0x7F]"
proof -
  have "[0..0x7F] = [0..0x3F] @ [0x3F + 1..0x7F :: int]" by (rule upto_split2) simp_all
  moreover have "(0x3F + 1 :: int) = 0x40" by simp
  ultimately show ?thesis
    by (simp add: vmm_pdir_table_def identmap_upto del: upto_rec_numeral)
qed

lemma pdir_length: "length vmm_pdir_table = 128"
  by (simp add: pdir_upto del: upto_rec_numeral)

lemma pdir_nth: "k < 128 \<Longrightarrow> vmm_pdir_table ! k = of_nat k * 0x200000 OR page_flags"
  by (simp add: pdir_upto del: upto_rec_numeral)

lemma boot_tables_length: "length (boot_tables a) = 1152"
  by (simp add: boot_tables_def vmm_pml4_table_def vmm_pdp_table_def pdir_length)

lemma boot_tables_nth:
  "k < 512 \<Longrightarrow> boot_tables a ! k = (if k = 0 \<or> k = 262 then a + 0x1000 + table_flags else 0)"
  "k < 512 \<Longrightarrow> boot_tables a ! (512 + k) = (if k = 0 then a + 0x2000 + table_flags else 0)"
  "k < 128 \<Longrightarrow> boot_tables a ! (1024 + k) = of_nat k * 0x200000 OR page_flags"
  by (auto simp: boot_tables_def vmm_pml4_table_def vmm_pdp_table_def nth_append nth_Cons' pdir_nth)

text \<open>The words of the tables, and the fields of their entries.\<close>

lemma boot_word:
  assumes "frame m a (boot_tables a)" and "k < 1152"
  shows "load64 m (a + of_nat (8 * k)) = boot_tables a ! k"
  using assms by (simp add: frame_def boot_tables_length)

lemma flags_eval: "table_flags = 7" "page_flags = 0x87"
  by (simp_all add: table_flags_def page_flags_def PTTEF_PRESENT_def PTTEF_RW_def PTTEF_US_def PTTEF_PAGE_SIZE_def)

lemma bits_7: "bit (7 :: u64) k \<longleftrightarrow> k < 3"
proof -
  have "(7 :: u64) = mask 3" by (simp add: mask_eq_exp_minus_1)
  then show ?thesis by (simp only: bit_mask_iff) auto
qed

lemma table_entry:
  assumes "take_bit 12 b = 0" and "unat b < 2 ^ 52"
  shows "bit (b + table_flags) 0" and "next_table (b + table_flags) = b"
proof -
  have low: "\<not> bit b k" if "k < 12" for k
    using assms(1) that by (metis bit_take_bit_iff bit_0_eq bot_apply bot_bool_def)
  have "b AND 7 = 0"
  proof (rule bit_word_eqI)
    fix n
    have "bit (b AND 7) n \<longleftrightarrow> bit b n \<and> n < 3" by (simp only: bit_and_iff bits_7)
    then show "bit (b AND 7) n \<longleftrightarrow> bit (0 :: u64) n" using low [of n] by auto
  qed
  then have or: "b + table_flags = b OR 7"
    unfolding flags_eval by (rule disjunctive_add_eq_or)
  have r: "12 \<le> n \<and> n < 52" if "bit b n" for n
    using low [of n] bit_beyond [OF assms(2), of n] that by (meson not_le)
  show "bit (b + table_flags) 0" unfolding or by (simp add: bit_or_iff bits_7)
  show "next_table (b + table_flags) = b"
    unfolding or next_table_def non_term_base_def get_field_def
    by (intro bit_word_eqI) (auto dest: r simp: bit_push_bit_iff bit_take_bit_iff bit_drop_bit_eq bit_or_iff bits_7 not_less, metis r le_add_diff_inverse)
qed

lemma page_entry:
  assumes "k < 128"
  shows "bit (of_nat k * 0x200000 OR page_flags) 0" and "bit (of_nat k * 0x200000 OR page_flags) 7"
    and "push_bit 21 (get_field (of_nat k * 0x200000 OR page_flags) 21 31) = of_nat (k * 2 ^ 21)"
proof -
  have f: "bit page_flags n \<longleftrightarrow> n < 3 \<or> n = 7" for n
  proof -
    have p: "(0x87 :: u64) = 7 OR push_bit 7 1" by simp
    show ?thesis unfolding flags_eval(2) p
      by (simp only: bit_or_iff bits_7 bit_push_bit_iff) (auto simp: bit_1_iff)
  qed
  show "bit (of_nat k * 0x200000 OR page_flags) 0" "bit (of_nat k * 0x200000 OR page_flags) 7"
    by (simp_all add: bit_or_iff f)
  have p: "of_nat k * 0x200000 = (push_bit 21 (of_nat k) :: u64)" by (simp add: push_bit_eq_mult)
  have "\<not> bit (of_nat k :: u64) n" if "31 \<le> n" for n
    by (rule bit_beyond [OF _ that]) (use assms in \<open>simp add: unat_of_nat_u64\<close>)
  then have "\<not> (31 \<le> n \<and> bit (of_nat k :: u64) n)" for n by blast
  then have "push_bit 21 (get_field (of_nat k * 0x200000 OR page_flags) 21 31) = push_bit 21 (of_nat k)"
    unfolding p get_field_def by (intro bit_word_eqI) (auto simp: bit_push_bit_iff bit_take_bit_iff bit_drop_bit_eq bit_or_iff f not_less not_le)
  then show "push_bit 21 (get_field (of_nat k * 0x200000 OR page_flags) 21 31) = of_nat (k * 2 ^ 21)"
    by (simp add: push_bit_eq_mult)
qed

subsection \<open>The way into long mode\<close>

definition MULTIBOOT_HEADER_MAGIC :: u32 where "MULTIBOOT_HEADER_MAGIC = 0x1BADB002"
definition MULTIBOOT_HEADER_FLAGS :: u32 where "MULTIBOOT_HEADER_FLAGS = 3"
definition MULTIBOOT_BOOTLOADER_MAGIC :: u32 where "MULTIBOOT_BOOTLOADER_MAGIC = 0x2BADB002"

definition multiboot_header :: "u32 list" where
  "multiboot_header = [MULTIBOOT_HEADER_MAGIC, MULTIBOOT_HEADER_FLAGS, - (MULTIBOOT_HEADER_MAGIC + MULTIBOOT_HEADER_FLAGS)]"

definition VMM_DS32 :: u32 where "VMM_DS32 = 16"
definition GDT_ENTRIES :: nat where "GDT_ENTRIES = 12"

definition gdt_table :: "u64 list" where
  "gdt_table =
     [0x0000000000000000, 0x00cf9e000000ffff, 0x00cf92000000ffff, 0x00cffe000000ffff, 0x00cff2000000ffff,
      0x00af9e000000ffff, 0x00affe000000ffff, 0x0000800000000000] @ replicate 4 0"

text \<open>The bits of \<open>include/msr-index.h\<close> and \<open>include/cpu.h\<close>.\<close>

definition EFER_SCE_bit :: nat where "EFER_SCE_bit = 0"
definition EFER_LME_bit :: nat where "EFER_LME_bit = 8"
definition EFER_LMA_bit :: nat where "EFER_LMA_bit = 10"
definition EFER_NX_bit :: nat where "EFER_NX_bit = 11"

definition X86_CR0_MP :: u64 where "X86_CR0_MP = 0x2"
definition X86_CR0_NE :: u64 where "X86_CR0_NE = 0x20"
definition X86_CR0_WP :: u64 where "X86_CR0_WP = 0x10000"
definition X86_CR0_AM :: u64 where "X86_CR0_AM = 0x40000"

definition CPU_ID_EXT_FEATURES :: u32 where "CPU_ID_EXT_FEATURES = 0"

record boot_cpu =
  b_eax :: u32
  b_ebx :: u32
  b_ecx :: u32
  b_edx :: u32
  b_edi :: u32
  b_rsp :: u64
  b_rbp :: u64
  b_rdi :: u64
  b_rflags :: u64
  b_cs :: u16
  b_ds :: u16
  b_es :: u16
  b_fs :: u16
  b_gs :: u16
  b_ss :: u16
  b_gdtr :: "u16 \<times> u64"
  b_cr0 :: u64
  b_cr3 :: u64
  b_cr4 :: u64
  b_msrs :: "u32 \<Rightarrow> u64"
  multiboot_ptr :: u32

text \<open>The virtual addresses of the tables and of the lowest word of the stack.\<close>

record boot_syms =
  sym_gdt :: u64
  sym_pml4 :: u64
  sym_stack :: u64

text \<open>Turning on paging with EFER.LME set activates long mode: the processor sets EFER.LMA.\<close>

definition write_cr0 :: "u64 \<Rightarrow> boot_cpu \<Rightarrow> boot_cpu" where
  "write_cr0 w c =
     (let e = b_msrs c MSR_EFER
      in c\<lparr>b_cr0 := w, b_msrs := (b_msrs c)(MSR_EFER :=
           if ctrue (w AND X86_CR0_PG) \<and> bit e EFER_LME_bit then e OR push_bit EFER_LMA_bit 1 else e)\<rparr>)"

text \<open>The sections of the code at \<open>physical_entry\<close>.  In 32-bit mode \<open>lgdt\<close> loads 32 bits of the base.\<close>

definition setup_segments :: "boot_syms \<Rightarrow> boot_cpu \<Rightarrow> boot_cpu" where
  "setup_segments syms c =
     (let c = c\<lparr>b_gdtr := (of_nat (GDT_ENTRIES * 8 - 1), ucast (ucast (PHYS (sym_gdt syms)) :: u32))\<rparr>;
          c = c\<lparr>b_eax := VMM_DS32\<rparr>
      in c\<lparr>b_ds := ucast (b_eax c), b_es := ucast (b_eax c), b_ss := ucast (b_eax c)\<rparr>)"

definition setup_paging :: "boot_syms \<Rightarrow> boot_cpu \<Rightarrow> boot_cpu" where
  "setup_paging syms c =
     (let c = c\<lparr>b_ecx := ucast (X86_CR4_PAE OR X86_CR4_PSE)\<rparr>;
          c = c\<lparr>b_cr4 := ucast (b_ecx c)\<rparr>;
          c = c\<lparr>b_eax := ucast (PHYS (sym_pml4 syms))\<rparr>
      in c\<lparr>b_cr3 := ucast (b_eax c)\<rparr>)"

definition setup_efer :: "boot_cpu \<Rightarrow> boot_cpu" where
  "setup_efer c =
     (let c = c\<lparr>b_ecx := MSR_EFER\<rparr>;
          (low, high) = rdmsr (b_msrs c) (b_ecx c);
          c = c\<lparr>b_eax := low, b_edx := high\<rparr>;
          c = c\<lparr>b_eax := b_eax c OR push_bit EFER_LME_bit 1\<rparr>;
          c = c\<lparr>b_eax := b_eax c OR push_bit EFER_SCE_bit 1\<rparr>;
          c = c\<lparr>b_edi := CPU_ID_EXT_FEATURES\<rparr>;
          c = (if bit (b_edi c) 20 then c\<lparr>b_eax := b_eax c OR push_bit EFER_NX_bit 1\<rparr> else c)
      in c\<lparr>b_msrs := wrmsr (b_msrs c) (b_ecx c) (b_eax c) (b_edx c)\<rparr>)"

definition setup_cr0 :: "boot_cpu \<Rightarrow> boot_cpu" where
  "setup_cr0 c =
     (let c = c\<lparr>b_eax := ucast (X86_CR0_PE OR X86_CR0_MP OR X86_CR0_ET OR X86_CR0_NE OR X86_CR0_WP OR X86_CR0_AM
                  OR X86_CR0_PG)\<rparr>
      in write_cr0 (ucast (b_eax c)) c)"

text \<open>Up to the long jump; \<open>die\<close> is an undefined instruction.\<close>

definition physical_entry :: "boot_syms \<Rightarrow> boot_cpu \<Rightarrow> boot_cpu res" where
  "physical_entry syms c =
     (if b_eax c \<noteq> MULTIBOOT_BOOTLOADER_MAGIC then fatal_failure ''ud2''
      else Inr ((setup_cr0 (setup_efer (setup_paging syms (setup_segments syms (c\<lparr>multiboot_ptr := b_ebx c\<rparr>)))))
             \<lparr>b_cs := ucast VMM_CS64\<rparr>))"

text \<open>From \<open>virtual_entry\<close> to the call of \<open>start_vmm\<close>, whose argument is in RDI; bit 1 of the flags is
  always set.\<close>

definition virtual_entry :: "boot_syms \<Rightarrow> boot_cpu \<Rightarrow> boot_cpu" where
  "virtual_entry syms c =
     (let c = c\<lparr>b_gdtr := (of_nat (GDT_ENTRIES * 8 - 1), sym_gdt syms)\<rparr>;
          c = c\<lparr>b_rsp := sym_stack syms + STACK_SIZE\<rparr>;
          c = c\<lparr>b_rbp := b_rsp c\<rparr>;
          c = c\<lparr>b_rflags := 2\<rparr>;
          c = c\<lparr>b_ecx := ucast VMM_DS64\<rparr>;
          c = c\<lparr>b_ds := ucast (b_ecx c), b_es := ucast (b_ecx c), b_fs := ucast (b_ecx c), b_gs := ucast (b_ecx c),
                b_ss := ucast (b_ecx c)\<rparr>;
          c = c\<lparr>b_rdi := ucast (multiboot_ptr c)\<rparr>
      in c\<lparr>b_rdi := b_rdi c + 0\<rparr>)"

definition boot_start :: "boot_syms \<Rightarrow> boot_cpu \<Rightarrow> boot_cpu res" where
  "boot_start syms c = bindr (physical_entry syms c) (\<lambda>c. Inr (virtual_entry syms c))"

text \<open>The fields of a descriptor.\<close>

definition desc_present :: "u64 \<Rightarrow> bool" where "desc_present d \<longleftrightarrow> bit d 47"
definition desc_dpl :: "u64 \<Rightarrow> u64" where "desc_dpl d = get_field d 45 2"
definition desc_code :: "u64 \<Rightarrow> bool" where "desc_code d \<longleftrightarrow> bit d 44 \<and> bit d 43"
definition desc_long :: "u64 \<Rightarrow> bool" where "desc_long d \<longleftrightarrow> bit d 53 \<and> \<not> bit d 54"

definition selected :: "u16 \<Rightarrow> u64" where
  "selected s = gdt_table ! (unat s div 8)"

lemma multiboot_checksum: "sum_list multiboot_header = 0"
  by (simp add: multiboot_header_def)

lemma gdt_size: "length gdt_table = GDT_ENTRIES"
  by (simp add: gdt_table_def GDT_ENTRIES_def)

lemma efer_value:
  "wrmsr r msr ((fst (rdmsr r msr) OR f) OR g) (snd (rdmsr r msr)) = r(msr := r msr OR ucast f OR ucast g)"
  using wrmsr_rdmsr [of r msr "f OR g"] by (simp add: or.assoc unsigned_or_eq)

text \<open>What each section leaves for the following ones.\<close>

lemma boot_sections:
  "b_msrs (setup_segments syms c) = b_msrs c" "multiboot_ptr (setup_segments syms c) = multiboot_ptr c"
  "b_msrs (setup_paging syms c) = b_msrs c" "multiboot_ptr (setup_paging syms c) = multiboot_ptr c"
  "b_cr4 (setup_paging syms c) = 0x30" "b_cr3 (setup_paging syms c) = take_bit 32 (PHYS (sym_pml4 syms))"
  by (simp_all add: setup_segments_def setup_paging_def X86_CR4_PAE_def X86_CR4_PSE_def)
    (rule bit_word_eqI, auto simp: bit_simps)

lemma setup_efer_fields:
  "b_msrs (setup_efer c) = (b_msrs c)(MSR_EFER := b_msrs c MSR_EFER OR push_bit 8 1 OR 1)"
  "multiboot_ptr (setup_efer c) = multiboot_ptr c" "b_cr4 (setup_efer c) = b_cr4 c" "b_cr3 (setup_efer c) = b_cr3 c"
proof -
  have f: "ucast (push_bit EFER_LME_bit 1 :: u32) = (push_bit 8 1 :: u64)" "ucast (push_bit EFER_SCE_bit 1 :: u32) = (1 :: u64)"
    by (simp_all add: EFER_LME_bit_def EFER_SCE_bit_def)
  have nx: "\<not> bit CPU_ID_EXT_FEATURES 20" by (simp add: CPU_ID_EXT_FEATURES_def)
  show "b_msrs (setup_efer c) = (b_msrs c)(MSR_EFER := b_msrs c MSR_EFER OR push_bit 8 1 OR 1)"
    "multiboot_ptr (setup_efer c) = multiboot_ptr c" "b_cr4 (setup_efer c) = b_cr4 c" "b_cr3 (setup_efer c) = b_cr3 c"
    by (simp_all add: setup_efer_def Let_def case_prod_beta nx efer_value f del: push_bit_of_1)
qed

lemma setup_cr0_fields:
  "b_cr0 (setup_cr0 c) = 0x80050033" "multiboot_ptr (setup_cr0 c) = multiboot_ptr c"
  "b_cr4 (setup_cr0 c) = b_cr4 c" "b_cr3 (setup_cr0 c) = b_cr3 c"
  "bit (b_msrs c MSR_EFER) 8 \<Longrightarrow> b_msrs (setup_cr0 c) = (b_msrs c)(MSR_EFER := b_msrs c MSR_EFER OR push_bit 10 1)"
  by (simp_all add: setup_cr0_def write_cr0_def Let_def EFER_LMA_bit_def EFER_LME_bit_def ctrue_def
      X86_CR0_PE_def X86_CR0_MP_def X86_CR0_ET_def X86_CR0_NE_def X86_CR0_WP_def X86_CR0_AM_def X86_CR0_PG_def)

subsection \<open>The walk through the tables\<close>

text \<open>An address below 512 Gbyte, at one of the two places the first table knows.\<close>

definition boot_alias :: "u64 \<Rightarrow> bool" where
  "boot_alias off \<longleftrightarrow> off = 0 \<or> off = VMM_OFFSET"

lemma take_bit_aligned:
  fixes a b :: u64
  assumes "take_bit n b = 0" and "n \<le> 64"
  shows "take_bit n (a + b) = take_bit n a"
proof -
  have "unat b mod 2 ^ n = 0" using arg_cong [OF assms(1), of unat] by (simp add: unat_take_bit)
  then have "(unat a + unat b) mod 2 ^ n = unat a mod 2 ^ n" using mod_add_right_eq [of "unat a" "unat b" "2^n"] by simp
  moreover have "(2::nat) ^ n dvd 2 ^ 64" using assms(2) by (rule le_imp_power_dvd)
  then have "unat (a + b) mod 2 ^ n = (unat a + unat b) mod 2 ^ n"
    by (simp only: unat_word_ariths(1) mod_mod_cancel) (simp add: mod_mod_cancel)
  ultimately show ?thesis by (simp only: word_unat_eq_iff unat_take_bit)
qed

lemma alias_slots:
  assumes "boot_alias off" and "unat va < 2 ^ 39"
  shows "unat (va + off) div 2 ^ 39 mod 512 \<in> {0, 262}" and "unat (va + off) div 2 ^ 30 mod 512 = unat va div 2 ^ 30"
    and "unat (va + off) div 2 ^ 21 mod 512 = unat va div 2 ^ 21 mod 512" and "take_bit 21 (va + off) = take_bit 21 va"
proof -
  have off: "unat off = 2 ^ 39 * 0 \<or> unat off = 2 ^ 39 * 0x1FFFF06"
    using assms(1) by (auto simp: boot_alias_def VMM_OFFSET_def)
  then have "unat off mod 2 ^ 39 = 0" "unat off \<le> 2 ^ 39 * 0x1FFFF06" by auto
  then have u: "unat (va + off) = unat va + unat off" using assms(2) by (auto simp: unat_plus_if')
  obtain c where c: "unat off = 2 ^ 39 * c" "c = 0 \<or> c = 0x1FFFF06" using off by blast
  have lift: "unat (va + off) div 2 ^ k = unat va div 2 ^ k + 2 ^ (39 - k) * c" if "k \<le> 39" for k
  proof -
    have "unat off = 2 ^ k * (2 ^ (39 - k) * c)" using that by (simp add: c(1) flip: power_add mult.assoc)
    then show ?thesis by (simp add: u)
  qed
  show "unat (va + off) div 2 ^ 39 mod 512 \<in> {0, 262}"
    using lift [of 39] assms(2) c(2) by auto
  have "unat va div 2 ^ 30 < 512" using assms(2) by (simp add: less_mult_imp_div_less)
  then show "unat (va + off) div 2 ^ 30 mod 512 = unat va div 2 ^ 30" using lift [of 30] by simp
  have "262144 * c = 512 * (512 * c)" by simp
  then have "(x + 262144 * c) mod 512 = x mod 512" for x :: nat by (simp only: mod_mult_self2)
  then show "unat (va + off) div 2 ^ 21 mod 512 = unat va div 2 ^ 21 mod 512" using lift [of 21] by simp
  have "take_bit 21 off = 0" using assms(1) by (auto simp: boot_alias_def VMM_OFFSET_def)
  then show "take_bit 21 (va + off) = take_bit 21 va" by (rule take_bit_aligned) simp
qed


text \<open>The tables at the physical address \<open>a\<close>: the linker puts them on page boundaries, and the program
  below the address space's end.\<close>

definition tables_at :: "mem \<Rightarrow> u64 \<Rightarrow> bool" where
  "tables_at m a \<longleftrightarrow> frame m a (boot_tables a) \<and> take_bit 12 a = 0 \<and> unat a < 2 ^ 48"

lemma tables_next:
  assumes "tables_at m a"
  shows "bit (a + 0x1000 + table_flags) 0" "next_table (a + 0x1000 + table_flags) = a + 0x1000"
    and "bit (a + 0x2000 + table_flags) 0" "next_table (a + 0x2000 + table_flags) = a + 0x2000"
proof -
  have al: "take_bit 12 (a + x) = take_bit 12 x" for x
    using assms take_bit_aligned [of 12 a x] by (simp add: tables_at_def add.commute)
  have "unat (a + x) < 2 ^ 52" if "unat x < 2 ^ 48" for x
    using assms that by (simp add: tables_at_def unat_plus_if')
  then show "bit (a + 0x1000 + table_flags) 0" "next_table (a + 0x1000 + table_flags) = a + 0x1000"
      "bit (a + 0x2000 + table_flags) 0" "next_table (a + 0x2000 + table_flags) = a + 0x2000"
    using table_entry [of "a + 0x1000"] table_entry [of "a + 0x2000"] by (simp_all add: al)
qed

text \<open>The first two levels: every address outside the two aliases of the first Gbyte is not mapped, and
  the others are looked up in the third table.\<close>

lemma walk_upper:
  assumes "tables_at m a"
  shows "walk_long m a la =
    (if unat la div 2 ^ 39 mod 512 \<in> {0, 262} \<and> unat la div 2 ^ 30 mod 512 = 0
     then let e2 = load64 m (slot_2mb (a + 0x2000) la 21)
       in if \<not> bit e2 0 then None
          else if bit e2 7 then Some (push_bit 21 (get_field e2 21 31) + take_bit 21 la)
          else let e1 = load64 m (slot_2mb (next_table e2) la 12)
               in if \<not> bit e1 0 then None else Some (next_table e1 + take_bit 12 la)
     else None)"
proof -
  have fr: "frame m a (boot_tables a)" using assms by (simp add: tables_at_def)
  have e4: "load64 m (slot_2mb a la 39) = (if unat la div 2 ^ 39 mod 512 \<in> {0, 262} then a + 0x1000 + table_flags else 0)"
    unfolding slot_2mb_def using boot_word [OF fr, of "unat la div 2 ^ 39 mod 512"] boot_tables_nth(1) [of "unat la div 2 ^ 39 mod 512" a]
    by simp
  have s: "slot_2mb (a + 0x1000) la 30 = a + of_nat (8 * (512 + unat la div 2 ^ 30 mod 512))"
    by (simp add: slot_2mb_def)
  have e3: "load64 m (slot_2mb (a + 0x1000) la 30) = (if unat la div 2 ^ 30 mod 512 = 0 then a + 0x2000 + table_flags else 0)"
    unfolding s using boot_word [OF fr, of "512 + unat la div 2 ^ 30 mod 512"] boot_tables_nth(2) [of "unat la div 2 ^ 30 mod 512" a]
    by simp
  show ?thesis
    unfolding walk_long_def Let_def e4 using tables_next [OF assms] by (simp add: e3)
qed

text \<open>The entries of the third table.\<close>

lemma third_slot:
  assumes "boot_alias off" and "unat va < 2 ^ 30"
  shows "slot_2mb (a + 0x2000) (va + off) 21 = a + of_nat (8 * (1024 + unat va div 2 ^ 21))"
proof -
  have "unat va < 2 ^ 39" using assms(2) by simp
  moreover have "unat va div 2 ^ 21 < 512" using assms(2) by (simp add: less_mult_imp_div_less)
  ultimately show ?thesis using alias_slots(3) [OF assms(1), of va] by (simp add: slot_2mb_def)
qed

lemma walk_alias:
  assumes "tables_at m a" and "boot_alias off" and "unat va < 2 ^ 30"
    and "w = load64 m (a + of_nat (8 * (1024 + unat va div 2 ^ 21)))" and "bit w 0" and "bit w 7"
  shows "walk_long m a (va + off) = Some (push_bit 21 (get_field w 21 31) + take_bit 21 va)"
proof -
  have va: "unat va < 2 ^ 39" using assms(3) by simp
  note s = alias_slots [OF assms(2) va]
  have z: "unat (va + off) div 2 ^ 39 mod 512 \<in> {0, 262} \<and> unat (va + off) div 2 ^ 30 mod 512 = 0"
    using s(1,2) assms(3) by simp
  show ?thesis
    unfolding walk_upper [OF assms(1)] Let_def third_slot [OF assms(2,3)] assms(4) [symmetric] if_P [OF z] s(4)
    using assms(5,6) by simp
qed

lemma walk_low:
  assumes "tables_at m a" and "boot_alias off" and "unat va < 2 ^ 28"
  shows "walk_long m a (va + off) = Some va"
proof -
  define k where "k = unat va div 2 ^ 21"
  have k: "k < 128" using assms(3) by (simp add: k_def less_mult_imp_div_less)
  have fr: "frame m a (boot_tables a)" using assms(1) by (simp add: tables_at_def)
  have w: "of_nat k * 0x200000 OR page_flags = load64 m (a + of_nat (8 * (1024 + unat va div 2 ^ 21)))"
    unfolding k_def [symmetric] using boot_word [OF fr, of "1024 + k"] boot_tables_nth(3) [OF k, of a] k by simp
  have "unat va < 2 ^ 30" using assms(3) by simp
  from walk_alias [OF assms(1,2) this w page_entry(1,2) [OF k]]
  have "walk_long m a (va + off) = Some (of_nat (k * 2 ^ 21) + take_bit 21 va)"
    by (simp only: page_entry(3) [OF k])
  moreover have "of_nat (k * 2 ^ 21) + take_bit 21 va = va"
  proof -
    have "k * 2 ^ 21 + unat (take_bit 21 va) = unat va" unfolding k_def unat_take_bit by (rule div_mult_mod_eq)
    then show ?thesis by (metis of_nat_add of_nat_unat ucast_id)
  qed
  ultimately show ?thesis by simp
qed

text \<open>A memory with given words, for the witnesses.\<close>

definition words_at :: "u64 \<Rightarrow> u64 list \<Rightarrow> mem" where
  "words_at a ws x =
     (let i = unat (x - a) in if i div 8 < length ws then ucast (drop_bit (8 * (i mod 8)) (ws ! (i div 8))) else 0)"

lemma frame_words_at:
  assumes "8 * length ws \<le> 2 ^ 64"
  shows "frame (words_at a ws) a ws"
  unfolding frame_def
proof (intro allI impI bit_word_eqI)
  fix i k assume i: "i < length ws" and k: "k < LENGTH(64)"
  have "8 * i + k div 8 < 2 ^ 64" using i k assms by simp
  then have u: "unat (of_nat (8 * i + k div 8) :: u64) = 8 * i + k div 8" by (rule unat_of_nat_u64)
  have d: "(8 * i + k div 8) div 8 = i" "(8 * i + k div 8) mod 8 = k div 8" using k by simp_all
  have "a + of_nat (8 * i) + of_nat (k div 8) - a = (of_nat (8 * i + k div 8) :: u64)" by simp
  then have "words_at a ws (a + of_nat (8 * i) + of_nat (k div 8)) = ucast (drop_bit (8 * (k div 8)) (ws ! i))"
    using i by (simp only: words_at_def u d Let_def if_True)
  then show "bit (load64 (words_at a ws) (a + of_nat (8 * i))) k = bit (ws ! i) k"
    using k by (simp add: bit_load_le bit_simps)
qed

subsection \<open>Properties\<close>

text \<open>C12: the page tables the monitor runs on map the first 256 Mbyte of its physical memory twice, at
  their own addresses and at \<open>VMM_OFFSET\<close>, and no address outside the first Gbyte of either alias is
  mapped at all.\<close>

theorem boot_tables_map:
  assumes "tables_at m a"
  shows "(\<forall>va. unat va < 2 ^ 28 \<longrightarrow> walk_long m a va = Some va \<and> walk_long m a (va + VMM_OFFSET) = Some va) \<and>
    (\<forall>la. walk_long m a la \<noteq> None \<longrightarrow> unat la div 2 ^ 39 mod 512 \<in> {0, 262} \<and> unat la div 2 ^ 30 mod 512 = 0)"
  using walk_low [OF assms, of 0] walk_low [OF assms, of VMM_OFFSET]
  by (auto simp: boot_alias_def walk_upper [OF assms] Let_def split: if_splits)

text \<open>The accesses of \<open>__mmap_2mb\<close> (\<open>entry_access\<close> in \<open>Paging\<close>) are decided as these tables do: those that
  succeed reach the memory at their own address, and those that fault are to an address that is not mapped.\<close>

lemma entry_access_boot:
  assumes "tables_at m a"
  shows "entry_access p = Some (Inr ()) \<Longrightarrow> walk_long m a p = Some p"
    and "entry_access p = Some (Inl f) \<Longrightarrow> f = Page_fault p \<and> walk_long m a p = None"
proof -
  show "walk_long m a p = Some p" if "entry_access p = Some (Inr ())"
    using that walk_low [OF assms, of 0 p] by (simp add: entry_access_def boot_alias_def split: if_splits)
  have "\<not> (unat p div 2 ^ 39 mod 512 \<in> {0, 262} \<and> unat p div 2 ^ 30 mod 512 = 0)"
    if "2 ^ 30 \<le> unat p" "unat p < 2 ^ 47"
  proof -
    have i: "unat p div 2 ^ 39 mod 512 = unat p div 2 ^ 39" and "unat p div 2 ^ 39 \<noteq> 262"
      using less_mult_imp_div_less [of "unat p" 256 "2 ^ 39"] that(2) by simp_all
    moreover have "\<not> 512 dvd unat p div 2 ^ 30" if "unat p div 2 ^ 39 = 0"
    proof -
      have "unat p < 2 ^ 39" using that by (simp add: div_eq_0_iff)
      then have "unat p div 2 ^ 30 < 512" by (simp add: less_mult_imp_div_less)
      moreover have "unat p div 2 ^ 30 \<noteq> 0" using \<open>2 ^ 30 \<le> unat p\<close> by (simp add: div_eq_0_iff)
      ultimately show ?thesis by (auto dest: dvd_imp_le)
    qed
    ultimately show ?thesis by auto
  qed
  then show "f = Page_fault p \<and> walk_long m a p = None" if "entry_access p = Some (Inl f)"
    using that by (auto simp: entry_access_def walk_upper [OF assms] split: if_splits)
qed

lemma example_tables_at: "tables_at (words_at 0x210000 (boot_tables 0x210000 @ ws)) 0x210000" if "length ws < 1000"
proof -
  have "frame (words_at 0x210000 (boot_tables 0x210000 @ ws)) 0x210000 (boot_tables 0x210000 @ ws)"
    by (rule frame_words_at) (use that in \<open>simp add: boot_tables_length\<close>)
  then show ?thesis by (simp add: tables_at_def frame_append)
qed

theorem boot_tables_map_witness:
  "walk_long (words_at 0x210000 (boot_tables 0x210000 @ [])) 0x210000 0xFFFF830000200000 = Some 0x200000"
proof -
  have "unat (0x200000 :: u64) < 2 ^ 28 \<longrightarrow> walk_long (words_at 0x210000 (boot_tables 0x210000 @ [])) 0x210000 (0x200000 + VMM_OFFSET) = Some 0x200000"
    using boot_tables_map [OF example_tables_at, of "[]"] by simp
  then show ?thesis by (simp add: VMM_OFFSET_def)
qed

text \<open>The bottom of the stack, after the 128 entries and the padded word of \<open>multiboot_ptr\<close>.\<close>

definition boot_stack :: "u64 \<Rightarrow> u64" where "boot_stack a = a + 0x2408"

text \<open>The third table ends after 128 entries, in the middle of its page; what the processor reads as the
  other entries are the variable \<open>multiboot_ptr\<close> and the words at the bottom of the stack of the monitor:
  a word there with the bits of a present large page maps the addresses above 256 Mbyte, where an access
  should cause a page fault.\<close>

theorem boot_tables_end_in_stack:
  assumes "tables_at m a" and "j < 383" and "w = load64 m (boot_stack a + of_nat (8 * j))" and "bit w 0" and "bit w 7"
    and "unat va div 2 ^ 21 = 129 + j"
  shows "walk_long m a va = Some (push_bit 21 (get_field w 21 31) + take_bit 21 va)"
proof -
  have "boot_stack a + of_nat (8 * j) = a + of_nat (8 * (1024 + unat va div 2 ^ 21))"
    unfolding boot_stack_def assms(6) by simp
  then have "w = load64 m (a + of_nat (8 * (1024 + unat va div 2 ^ 21)))" by (simp add: assms(3))
  moreover have "unat va < 2 ^ 30"
  proof -
    have "unat va div 2 ^ 21 < 512" using assms(2,6) by simp
    then show ?thesis by (simp add: div_less_iff_less_mult)
  qed
  ultimately show ?thesis
    using walk_alias [OF assms(1), of 0 va w] assms(4,5) by (simp add: boot_alias_def)
qed

theorem boot_tables_end_in_stack_witness:
  "walk_long (words_at 0x210000 (boot_tables 0x210000 @ [0x10000, 0x87])) 0x210000 0x10200123 = Some 0x123"
proof -
  let ?m = "words_at 0x210000 (boot_tables 0x210000 @ [0x10000, 0x87])"
  have "frame ?m 0x210000 (boot_tables 0x210000 @ [0x10000, 0x87])"
    by (rule frame_words_at) (simp add: boot_tables_length)
  moreover have "1153 < length (boot_tables 0x210000 @ [0x10000, 0x87 :: u64])" by (simp add: boot_tables_length)
  ultimately have "load64 ?m (0x210000 + of_nat (8 * 1153)) = (boot_tables 0x210000 @ [0x10000, 0x87]) ! 1153"
    unfolding frame_def by blast
  then have w: "0x87 = load64 ?m (boot_stack 0x210000 + of_nat (8 * 0))"
    by (simp add: boot_stack_def nth_append boot_tables_length)
  have b: "bit (0x87 :: u64) 0" "bit (0x87 :: u64) 7" by (simp_all add: bit_iff_odd)
  have f: "get_field (0x87 :: u64) 21 31 = 0" "take_bit 21 (0x10200123 :: u64) = 0x123"
    by (simp_all add: get_field_def)
  show ?thesis
    using boot_tables_end_in_stack [OF example_tables_at _ w b, of "0x10200123"] f by simp
qed

text \<open>C13: from the boot loader to the call of \<open>start_vmm\<close>: without the magic number of the boot loader in
  EAX the monitor stops; with it the processor runs 64-bit code at privilege 0 with long mode active, its
  own page tables, write protection, an empty stack, interrupts off and the address of the loader's
  information as the argument.  The bit that makes pages not executable stays as it was: the test of
  the processor's feature word tests a constant 0.\<close>

theorem boot_enters_long_mode:
  shows "(b_eax c \<noteq> MULTIBOOT_BOOTLOADER_MAGIC \<longrightarrow> boot_start syms c = fatal_failure ''ud2'') \<and>
    (b_eax c = MULTIBOOT_BOOTLOADER_MAGIC \<longrightarrow> (\<exists>c'. boot_start syms c = Inr c' \<and>
       desc_present (selected (b_cs c')) \<and> desc_code (selected (b_cs c')) \<and> desc_long (selected (b_cs c')) \<and>
       desc_dpl (selected (b_cs c')) = 0 \<and>
       b_msrs c' = (b_msrs c)(MSR_EFER := b_msrs c MSR_EFER OR 1 OR push_bit 8 1 OR push_bit 10 1) \<and>
       (bit (b_msrs c' MSR_EFER) EFER_NX_bit \<longleftrightarrow> bit (b_msrs c MSR_EFER) EFER_NX_bit) \<and>
       b_cr0 c' = 0x80050033 \<and> b_cr4 c' = 0x30 \<and> b_cr3 c' = take_bit 32 (PHYS (sym_pml4 syms)) \<and>
       b_rsp c' = sym_stack syms + 0x10000 \<and> \<not> bit (b_rflags c') 9 \<and> b_rdi c' = ucast (b_ebx c)))"
proof (cases "b_eax c = MULTIBOOT_BOOTLOADER_MAGIC")
  case False
  then show ?thesis by (simp add: boot_start_def physical_entry_def)
next
  case True
  have "b_msrs (virtual_entry syms d) = b_msrs d" "b_cr0 (virtual_entry syms d) = b_cr0 d" "b_cr4 (virtual_entry syms d) = b_cr4 d"
      "b_cr3 (virtual_entry syms d) = b_cr3 d" "b_cs (virtual_entry syms d) = b_cs d"
      "b_rdi (virtual_entry syms d) = ucast (multiboot_ptr d)" "b_rflags (virtual_entry syms d) = 2"
      "b_rsp (virtual_entry syms d) = sym_stack syms + 0x10000" for d
    by (simp_all add: virtual_entry_def STACK_SIZE_def push_bit_eq_mult)
  note v = this
  have gdt: "selected (ucast VMM_CS64) = 0x00af9e000000ffff"
    by (simp add: selected_def gdt_table_def VMM_CS64_def)
  have cs: "desc_present 0x00af9e000000ffff" "desc_code 0x00af9e000000ffff" "desc_long 0x00af9e000000ffff"
      "desc_dpl 0x00af9e000000ffff = 0"
    by (simp_all add: desc_present_def desc_code_def desc_long_def desc_dpl_def get_field_def bit_iff_odd)
  have i: "\<not> bit (2 :: u64) 9" by (simp add: bit_iff_odd)
  have b: "bit (push_bit k 1 :: u64) n \<longleftrightarrow> k = n \<and> n < 64" for k n
    by (simp only: bit_push_bit_iff bit_1_iff) auto
  have efer: "((w OR push_bit 8 1 OR 1) OR push_bit 10 1) = (w OR 1 OR push_bit 8 1 OR push_bit 10 1)"
      "bit (w OR push_bit 8 1 OR 1) 8" "bit (w OR 1 OR push_bit 8 1 OR push_bit 10 1) 11 \<longleftrightarrow> bit w 11" for w :: u64
    by (rule bit_word_eqI) (simp_all only: bit_or_iff b bit_1_iff, auto)
  show ?thesis
    using True
    by (simp add: boot_start_def physical_entry_def v gdt setup_cr0_fields setup_efer_fields boot_sections efer EFER_NX_bit_def
        cs i del: push_bit_of_1)
qed

definition loaded_cpu :: "u32 \<Rightarrow> boot_cpu" where
  "loaded_cpu magic = \<lparr>b_eax = magic, b_ebx = 0x2CD80, b_ecx = 0, b_edx = 0, b_edi = 0, b_rsp = 0, b_rbp = 0, b_rdi = 0,
     b_rflags = 2, b_cs = 8, b_ds = 16, b_es = 16, b_fs = 16, b_gs = 16, b_ss = 16, b_gdtr = (0, 0),
     b_cr0 = 0x11, b_cr3 = 0, b_cr4 = 0, b_msrs = (\<lambda>_. 0), multiboot_ptr = 0\<rparr>"

theorem boot_enters_long_mode_witness:
  "\<exists>c'. boot_start \<lparr>sym_gdt = 0xFFFF830000211000, sym_pml4 = 0xFFFF830000212000, sym_stack = 0xFFFF830000214408\<rparr>
     (loaded_cpu MULTIBOOT_BOOTLOADER_MAGIC) = Inr c' \<and> b_cr3 c' = 0x212000 \<and> b_rdi c' = 0x2CD80"
proof -
  have "take_bit 32 (PHYS 0xFFFF830000212000) = 0x212000" by (simp add: PHYS_def VMM_OFFSET_def)
  then show ?thesis
    using boot_enters_long_mode [of "loaded_cpu MULTIBOOT_BOOTLOADER_MAGIC"
      "\<lparr>sym_gdt = 0xFFFF830000211000, sym_pml4 = 0xFFFF830000212000, sym_stack = 0xFFFF830000214408\<rparr>"]
    by (auto simp: loaded_cpu_def)
qed

end
