(* ===== verification/Fat32.thy ===== *)
theory Fat32
  imports CString "HOL-Library.Monad_Syntax" "HOL-Library.Signed_Division"
begin

text \<open>
  \<open>hostfs/fat32.c\<close>: the file system of the host, a FAT32 driver that is linked with the string
  routines of the monitor.  \<open>read_sector\<close> and \<open>write_sector\<close> do not use their arguments: the first calls
  an assembly routine that fills a buffer of its own, so that neither changes anything the driver sees.
  It is taken to return: \<open>Disk\<close> models this routine, which takes the sector from whatever AX holds, faults
  in its divisions for large values and does not save the registers it uses.
  A handle is its index in \<open>tf_file_handles\<close>; strings, the names of the handles and the local structures
  are in memory, at addresses that the record \<open>frame\<close> gives for the locals.  A computation without a
  defined result (the index of the sector buffer negative, a division by zero, a handle that is a null
  pointer, a loop that does not end) is \<open>None\<close>.  The traces are left out.
\<close>

subsection \<open>Data\<close>

definition TF_FILE_HANDLES :: nat where "TF_FILE_HANDLES = 4"
definition TF_FLAG_DIRTY :: u8 where "TF_FLAG_DIRTY = 0x01"
definition TF_FLAG_OPEN :: u8 where "TF_FLAG_OPEN = 0x02"
definition TF_FLAG_SIZECHANGED :: u8 where "TF_FLAG_SIZECHANGED = 0x04"
definition TF_FLAG_ROOT :: u8 where "TF_FLAG_ROOT = 0x08"
definition TF_MARK_EOC32 :: u32 where "TF_MARK_EOC32 = 0x0ffffff8"
definition TF_MARK_EOC16 :: u32 where "TF_MARK_EOC16 = 0xfff8"
definition TF_ATTR_DIRECTORY :: u8 where "TF_ATTR_DIRECTORY = 0x10"
definition TF_MODE_READ :: u8 where "TF_MODE_READ = 0x01"
definition TF_MODE_WRITE :: u8 where "TF_MODE_WRITE = 0x02"
definition TF_MODE_OVERWRITE :: u8 where "TF_MODE_OVERWRITE = 0x08"
definition TF_ERR_BAD_FS_TYPE :: u32 where "TF_ERR_BAD_FS_TYPE = 2"
definition TF_ERR_INVALID_SEEK :: u32 where "TF_ERR_INVALID_SEEK = 1"
definition TF_TYPE_FAT32 :: u8 where "TF_TYPE_FAT32 = 1"

text \<open>\<open>filename\<close> is the address of the array of this name in the structure.\<close>

record TFFile =
  parentStartCluster :: u32
  startCluster :: u32
  currentClusterIdx :: u32
  currentCluster :: u32
  fp_currentSector :: u16
  currentByte :: u16
  fpos :: u32
  fp_flags :: u8
  fp_attributes :: u8
  fp_mode :: u8
  fp_size :: u32
  filename :: u64

text \<open>\<open>TFInfo\<close>, with the statistics, the handles and the memory.\<close>

record fat =
  tf_type :: u8
  sectorsPerCluster :: u8
  firstDataSector :: u32
  totalSectors :: u32
  reservedSectors :: u16
  currentSector :: u32
  sectorFlags :: u8
  rootDirectorySize :: u32
  buffer :: "u8 list"
  sector_reads :: u64
  sector_writes :: u64
  handles :: "TFFile list"
  fram :: mem

text \<open>The addresses of the local variables that are structures or arrays, and of the literal \<open>"/"\<close>.\<close>

record frame =
  walk_entry :: u64
  compare_entry :: u64
  reformatted_file :: u64
  chain_entry :: u64
  chain_sfn :: u64
  create_entry :: u64
  myfile :: u64
  flush_entry :: u64
  remove_entry :: u64
  init_entry :: u64
  root_name :: u64

text \<open>Offsets of the fields of the two structures of \<open>FatFileEntry\<close>.  They are not packed: \<open>name1\<close> and
  \<open>name2\<close> of the second one are aligned to two bytes, which moves its \<open>attributes\<close> to 12, and the
  union has 36 bytes.\<close>

definition ENTRY_SIZE :: u32 where "ENTRY_SIZE = 36"
definition MSDOS_attributes :: u64 where "MSDOS_attributes = 11"
definition MSDOS_creationTimeMs :: u64 where "MSDOS_creationTimeMs = 13"
definition MSDOS_creationTime :: u64 where "MSDOS_creationTime = 14"
definition MSDOS_creationDate :: u64 where "MSDOS_creationDate = 16"
definition MSDOS_lastAccessTime :: u64 where "MSDOS_lastAccessTime = 18"
definition MSDOS_eaIndex :: u64 where "MSDOS_eaIndex = 20"
definition MSDOS_modifiedTime :: u64 where "MSDOS_modifiedTime = 22"
definition MSDOS_modifiedDate :: u64 where "MSDOS_modifiedDate = 24"
definition MSDOS_firstCluster :: u64 where "MSDOS_firstCluster = 26"
definition MSDOS_fileSize :: u64 where "MSDOS_fileSize = 28"
definition LFN_name1 :: u64 where "LFN_name1 = 2"
definition LFN_attributes :: u64 where "LFN_attributes = 12"
definition LFN_reserved :: u64 where "LFN_reserved = 13"
definition LFN_checksum :: u64 where "LFN_checksum = 14"
definition LFN_name2 :: u64 where "LFN_name2 = 16"
definition LFN_firstCluster :: u64 where "LFN_firstCluster = 28"
definition LFN_name3 :: u64 where "LFN_name3 = 30"

definition upd_file :: "nat \<Rightarrow> (TFFile \<Rightarrow> TFFile) \<Rightarrow> fat \<Rightarrow> fat" where
  "upd_file fp f s = s\<lparr>handles := (handles s)[fp := f (handles s ! fp)]\<rparr>"

definition upd_fram :: "(mem \<Rightarrow> mem) \<Rightarrow> fat \<Rightarrow> fat" where
  "upd_fram f s = s\<lparr>fram := f (fram s)\<rparr>"

text \<open>Division of signed values by a positive constant: C rounds towards zero.\<close>

definition cdiv :: "'a::len word \<Rightarrow> int \<Rightarrow> 'b::len word" where
  "cdiv w n = word_of_int (sint w sdiv n)"

definition cmod :: "'a::len word \<Rightarrow> int \<Rightarrow> 'b::len word" where
  "cmod w n = word_of_int (sint w smod n)"

definition buf_get :: "fat \<Rightarrow> u32 \<Rightarrow> u8 option" where
  "buf_get s i = (if 0 \<le> sint i \<and> sint i < 512 then Some (buffer s ! nat (sint i)) else None)"

definition buf_set :: "u32 \<Rightarrow> u8 \<Rightarrow> fat \<Rightarrow> fat option" where
  "buf_set i b s =
     (if 0 \<le> sint i \<and> sint i < 512 then Some (s\<lparr>buffer := (buffer s)[nat (sint i) := b]\<rparr>) else None)"

subsection \<open>Sectors and the allocation table\<close>

text \<open>\<open>read_sector\<close> calls \<open>read_sector_asm\<close> (\<open>Disk\<close>) without a sector and returns 0; nothing copies what the BIOS
  reads into the buffer of the driver.  The assembly changes registers that the compiler takes to be kept, and its
  \<open>div\<close> faults for large values of the register it takes for the sector: statements about the driver are for runs
  in which the assembly returns and what it changes is not used.\<close>

definition read_sector :: "u32 \<Rightarrow> fat \<Rightarrow> u32 \<times> fat" where
  "read_sector dos_sector s = (0, s)"

definition write_sector :: "u32 \<Rightarrow> fat \<Rightarrow> u32 \<times> fat" where
  "write_sector blocknum s = (0, s)"

definition tf_store :: "fat \<Rightarrow> u32 \<times> fat" where
  "tf_store s =
     (let s = s\<lparr>sectorFlags := sectorFlags s AND NOT TF_FLAG_DIRTY\<rparr>
      in write_sector (currentSector s) s)"

definition tf_fetch :: "u32 \<Rightarrow> fat \<Rightarrow> u32 \<times> fat" where
  "tf_fetch sector s =
     (if sector = currentSector s then (0, s)
      else
        let (rc, s) = (if ctrue (sectorFlags s AND TF_FLAG_DIRTY)
                       then let (rc, s) = tf_store s in (rc, s\<lparr>sector_writes := sector_writes s + 1\<rparr>)
                       else (0, s));
            s = s\<lparr>sector_reads := sector_reads s + 1\<rparr>;
            (r, s) = read_sector sector s;
            rc = rc OR r
        in (rc, if rc = 0 then s\<lparr>currentSector := sector\<rparr> else s))"

definition tf_get_fat_entry :: "u32 \<Rightarrow> fat \<Rightarrow> u32 \<times> fat" where
  "tf_get_fat_entry cluster s =
     (let offset = cluster * 4 in tf_fetch (ucast (reservedSectors s) + cdiv offset 512) s)"

definition tf_set_fat_entry :: "u32 \<Rightarrow> u32 \<Rightarrow> fat \<Rightarrow> (u32 \<times> fat) option" where
  "tf_set_fat_entry cluster val s =
     (let offset = cluster * 4;
          (rc, s) = tf_fetch (ucast (reservedSectors s) + cdiv offset 512) s;
          i = cmod offset 512
      in do { s \<leftarrow> buf_set i (ucast val) s;
              s \<leftarrow> buf_set (i + 1) (ucast (drop_bit 8 val)) s;
              s \<leftarrow> buf_set (i + 2) (ucast (drop_bit 16 val)) s;
              s \<leftarrow> buf_set (i + 3) (ucast (drop_bit 24 val)) s;
              Some (rc, s) })"

definition tf_first_sector :: "u32 \<Rightarrow> fat \<Rightarrow> u32" where
  "tf_first_sector cluster s = (cluster - 2) * ucast (sectorsPerCluster s) + firstDataSector s"

text \<open>The loop over the clusters: \<open>n\<close> is what is left of the bound, \<open>i\<close> the next one.\<close>

primrec find_free :: "nat \<Rightarrow> u32 \<Rightarrow> fat \<Rightarrow> u32 \<times> fat" where
  "find_free 0 i s = (i, s)"
| "find_free (Suc n) i s =
     (let (entry, s) = tf_get_fat_entry i s
      in if entry AND 0x0fffffff = 0 then (i, s) else find_free n (i + 1) s)"

definition tf_find_free_cluster :: "fat \<Rightarrow> u32 \<times> fat" where
  "tf_find_free_cluster s =
     find_free (unat (totalSectors s) - unat (firstDataSector s)) (firstDataSector s) s"

partial_function (option) free_loop :: "u32 \<Rightarrow> u32 \<Rightarrow> fat \<Rightarrow> fat option" where
  "free_loop fat_entry cluster s =
     (if sint fat_entry < sint TF_MARK_EOC32
      then do { (_, s) \<leftarrow> tf_set_fat_entry cluster 0 s;
                (let (fat_entry, s) = tf_get_fat_entry fat_entry s in free_loop fat_entry fat_entry s) }
      else Some s)"

definition tf_free_clusterchain :: "u32 \<Rightarrow> fat \<Rightarrow> (u32 \<times> fat) option" where
  "tf_free_clusterchain cluster s =
     (let (fat_entry, s) = tf_get_fat_entry cluster s
      in do { s \<leftarrow> free_loop fat_entry cluster s; Some (0, s) })"

subsection \<open>Handles\<close>

primrec free_handle_from :: "nat \<Rightarrow> nat \<Rightarrow> fat \<Rightarrow> nat option \<times> fat" where
  "free_handle_from 0 i s = (None, s)"
| "free_handle_from (Suc n) i s =
     (if ctrue (fp_flags (handles s ! i) AND TF_FLAG_OPEN) then free_handle_from n (i + 1) s
      else (Some i, upd_file i (\<lambda>f. f\<lparr>fp_flags := TF_FLAG_OPEN\<rparr>) s))"

definition tf_get_free_handle :: "fat \<Rightarrow> nat option \<times> fat" where
  "tf_get_free_handle s = free_handle_from TF_FILE_HANDLES 0 s"

definition tf_release_handle :: "nat \<Rightarrow> fat \<Rightarrow> fat" where
  "tf_release_handle fp s = upd_file fp (\<lambda>f. f\<lparr>fp_flags := fp_flags f AND NOT TF_FLAG_OPEN\<rparr>) s"

subsection \<open>Positions\<close>

text \<open>The walk along the clusters of a file: \<open>n\<close> is \<open>cluster_idx\<close> and greater than zero.  The value for
  the last cluster is written in the source as \<open>0x0fffffff8\<close>, which has 36 bits.\<close>

definition LAST_CLUSTER :: u32 where "LAST_CLUSTER = ucast (0x0fffffff8 :: u64)"

definition next_cluster :: "nat \<Rightarrow> fat \<Rightarrow> fat option" where
  "next_cluster fp s =
     (let (temp, s) = tf_get_fat_entry (currentCluster (handles s ! fp)) s
      in if ctrue temp then Some (upd_file fp (\<lambda>f. f\<lparr>currentCluster := temp\<rparr>) s)
         else
           let (temp, s) = tf_find_free_cluster s
           in do { (_, s) \<leftarrow> tf_set_fat_entry (currentCluster (handles s ! fp)) temp s;
                   (_, s) \<leftarrow> tf_set_fat_entry temp LAST_CLUSTER s;
                   Some s })"

primrec seek_loop :: "nat \<Rightarrow> nat \<Rightarrow> fat \<Rightarrow> (u32 \<times> fat) option" where
  "seek_loop 0 fp s = Some (0, s)"
| "seek_loop (Suc n) fp s =
     do { s \<leftarrow> next_cluster fp s;
          (let mark = (if ctrue (tf_type s) then TF_MARK_EOC32 else TF_MARK_EOC16)
           in if sint (currentCluster (handles s ! fp)) \<ge> sint mark \<and> n > 0
              then Some (TF_ERR_INVALID_SEEK, s) else seek_loop n fp s) }"

definition grow_file :: "nat \<Rightarrow> fat \<Rightarrow> fat" where
  "grow_file fp = upd_file fp (\<lambda>f. f\<lparr>fp_size := fp_size f + 1, fp_flags := fp_flags f OR TF_FLAG_SIZECHANGED\<rparr>)"

definition go_to_cluster :: "nat \<Rightarrow> u32 \<Rightarrow> fat \<Rightarrow> (u32 \<times> fat) option" where
  "go_to_cluster fp cluster_idx s =
     (if cluster_idx \<noteq> currentClusterIdx (handles s ! fp)
      then seek_loop (nat (sint cluster_idx)) fp
             (upd_file fp (\<lambda>f. f\<lparr>currentClusterIdx := cluster_idx, currentCluster := startCluster f\<rparr>) s)
      else Some (0, s))"

definition tf_unsafe_fseek :: "nat \<Rightarrow> u32 \<Rightarrow> u64 \<Rightarrow> fat \<Rightarrow> (u32 \<times> fat) option" where
  "tf_unsafe_fseek fp base offset s =
     (let pos = scast base + offset; bound = uint (fp_size (handles s ! fp))
      in if sint pos > bound then Some (TF_ERR_INVALID_SEEK, s)
         else
           let s = (if sint pos = bound then grow_file fp s else s)
           in if sectorsPerCluster s = 0 then None
              else
                let bytes = uint (sectorsPerCluster s) * 512
                in do { (rc, s) \<leftarrow> go_to_cluster fp (cdiv pos bytes) s;
                        if rc \<noteq> 0 then Some (rc, s)
                        else Some (0, upd_file fp (\<lambda>f. f\<lparr>currentByte := cmod pos bytes, fpos := ucast pos\<rparr>) s) })"

definition tf_fseek :: "nat \<Rightarrow> u32 \<Rightarrow> u64 \<Rightarrow> fat \<Rightarrow> (u32 \<times> fat) option" where
  "tf_fseek fp base offset s =
     (let pos = scast base + offset
      in if sint pos \<ge> uint (fp_size (handles s ! fp)) then Some (TF_ERR_INVALID_SEEK, s)
         else tf_unsafe_fseek fp base offset s)"

text \<open>\<open>fseek\<close> to the entry \<open>k\<close> entries after the current position.\<close>

definition seek_entries :: "nat \<Rightarrow> u32 \<Rightarrow> fat \<Rightarrow> (u32 \<times> fat) option" where
  "seek_entries fp k s = tf_fseek fp (k * ENTRY_SIZE) (ucast (fpos (handles s ! fp))) s"

subsection \<open>Bytes of a file\<close>

definition fetch_current :: "nat \<Rightarrow> fat \<Rightarrow> fat" where
  "fetch_current fp s =
     (let f = handles s ! fp
      in snd (tf_fetch (tf_first_sector (currentCluster f) s + cdiv (currentByte f) 512) s))"

primrec tf_fread :: "nat \<Rightarrow> u64 \<Rightarrow> nat \<Rightarrow> fat \<Rightarrow> (u32 \<times> fat) option" where
  "tf_fread 0 dest fp s = Some (0, s)"
| "tf_fread (Suc n) dest fp s =
     (let s = fetch_current fp s
      in do { b \<leftarrow> buf_get s (cmod (currentByte (handles s ! fp)) 512);
              (rc, s) \<leftarrow> tf_fseek fp 0 (ucast (fpos (handles s ! fp) + 1)) (upd_fram (\<lambda>m. m(dest := b)) s);
              if rc \<noteq> 0 then Some (- 1, s) else tf_fread n (dest + 1) fp s })"

primrec fwrite_bytes :: "nat \<Rightarrow> u64 \<Rightarrow> nat \<Rightarrow> fat \<Rightarrow> (u32 \<times> fat) option" where
  "fwrite_bytes 0 src fp s = Some (0, s)"
| "fwrite_bytes (Suc n) src fp s =
     (let s = fetch_current fp s
      in do { s \<leftarrow> buf_set (cmod (currentByte (handles s ! fp)) 512) (fram s src) s;
              (rc, s) \<leftarrow> tf_unsafe_fseek fp 0 (ucast (fpos (handles s ! fp) + 1))
                           (s\<lparr>sectorFlags := sectorFlags s OR TF_FLAG_DIRTY\<rparr>);
              if rc \<noteq> 0 then Some (- 1, s) else fwrite_bytes n (src + 1) fp s })"

primrec fwrite_blocks :: "nat \<Rightarrow> u64 \<Rightarrow> nat \<Rightarrow> nat \<Rightarrow> fat \<Rightarrow> (u32 \<times> fat) option" where
  "fwrite_blocks 0 src sz fp s = Some (0, s)"
| "fwrite_blocks (Suc count) src sz fp s =
     do { (rc, s) \<leftarrow> fwrite_bytes sz src fp s;
          if rc \<noteq> 0 then Some (rc, s) else fwrite_blocks count (src + of_nat sz) sz fp s }"

definition tf_fwrite :: "u64 \<Rightarrow> nat \<Rightarrow> nat \<Rightarrow> nat \<Rightarrow> fat \<Rightarrow> (u32 \<times> fat) option" where
  "tf_fwrite src sz count fp s =
     fwrite_blocks count src sz fp (upd_file fp (\<lambda>f. f\<lparr>fp_flags := fp_flags f OR TF_FLAG_DIRTY\<rparr>) s)"

definition tf_fputs :: "u64 \<Rightarrow> nat \<Rightarrow> fat \<Rightarrow> (u32 \<times> fat) option" where
  "tf_fputs src fp s = do { n \<leftarrow> strlen (fram s) src; tf_fwrite src 1 (nat (sint n)) fp s }"

text \<open>Reading and writing one \<open>FatFileEntry\<close>.\<close>

abbreviation read_entry :: "u64 \<Rightarrow> nat \<Rightarrow> fat \<Rightarrow> (u32 \<times> fat) option" where
  "read_entry dest fp s \<equiv> tf_fread (unat ENTRY_SIZE) dest fp s"

abbreviation write_entry :: "u64 \<Rightarrow> nat \<Rightarrow> fat \<Rightarrow> (u32 \<times> fat) option" where
  "write_entry src fp s \<equiv> tf_fwrite src (unat ENTRY_SIZE) 1 fp s"

subsection \<open>Names\<close>

definition upper :: "u8 \<Rightarrow> u8" where
  "upper c = (if of_char CHR ''a'' \<le> c \<and> c \<le> of_char CHR ''z''
              then c + (of_char CHR ''A'' - of_char CHR ''a'') else c)"

text \<open>The loop over the base name: \<open>n\<close> is \<open>8 - i\<close>; a space already in the destination is not
  overwritten and nothing is taken from the source for it.\<close>

primrec shorten_base :: "nat \<Rightarrow> mem \<Rightarrow> u64 \<Rightarrow> u64 \<Rightarrow> nat \<Rightarrow> mem \<times> u64 \<times> u64 \<times> nat" where
  "shorten_base 0 m dest src i = (m, dest, src, i)"
| "shorten_base (Suc n) m dest src i =
     (if i = 6 \<or> m src = of_char CHR ''.'' \<or> m src = 0 then (m, dest, src, i)
      else if m dest = of_char CHR '' '' then shorten_base n m dest src (i + 1)
      else shorten_base n (m(dest := upper (m src))) (dest + 1) (src + 1) (i + 1))"

primrec pad_spaces :: "nat \<Rightarrow> mem \<Rightarrow> u64 \<Rightarrow> mem \<times> u64" where
  "pad_spaces 0 m dest = (m, dest)"
| "pad_spaces (Suc n) m dest = pad_spaces n (m(dest := of_char CHR '' '')) (dest + 1)"

primrec shorten_ext :: "nat \<Rightarrow> mem \<Rightarrow> u64 \<Rightarrow> u64 \<Rightarrow> mem" where
  "shorten_ext 0 m dest src = m"
| "shorten_ext (Suc n) m dest src =
     (if m src = 0 then m else shorten_ext n (m(dest := upper (m src))) (dest + 1) (src + 1))"

definition tf_shorten_filename :: "u64 \<Rightarrow> u64 \<Rightarrow> mem \<Rightarrow> mem option" where
  "tf_shorten_filename dest src m =
     (let (m, dest, src, i) = shorten_base 8 m dest src 0;
          (m, dest) = (if i = 6 then (m(dest := of_char CHR ''~'', dest + 1 := of_char CHR ''1''), dest + 2)
                       else pad_spaces (8 - i) m dest)
      in do { src \<leftarrow> strrchr m src (of_char CHR ''.'');
              (let m = m(dest := of_char CHR '' '', dest + 1 := of_char CHR '' '',
                         dest + 2 := of_char CHR '' '', dest + 3 := 0)
               in Some (if src \<noteq> 0 then shorten_ext 4 m dest (src + 1) else m)) })"

text \<open>\<open>n\<close> characters of a long name into one of the three arrays of an entry, zeros after its end.\<close>

primrec lfn_chars :: "nat \<Rightarrow> mem \<Rightarrow> u64 \<Rightarrow> u64 \<Rightarrow> mem \<times> u64" where
  "lfn_chars 0 m p src = (m, src)"
| "lfn_chars (Suc n) m p src =
     (if m src \<noteq> 0 then lfn_chars n (store16 m p (scast (m src))) (p + 2) (src + 1)
      else lfn_chars n (store16 m p 0) (p + 2) src)"

definition tf_create_lfn_entry :: "u64 \<Rightarrow> u64 \<Rightarrow> mem \<Rightarrow> u64 \<times> mem" where
  "tf_create_lfn_entry fname entry m =
     (let (m, src) = lfn_chars 5 m (entry + LFN_name1) fname;
          (m, src) = lfn_chars 6 m (entry + LFN_name2) src;
          (m, src) = lfn_chars 2 m (entry + LFN_name3) src;
          m = m(entry + LFN_attributes := 0x0f, entry + LFN_reserved := 0);
          m = store16 m (entry + LFN_firstCluster) 0
      in (if m src \<noteq> 0 then src else 0, m))"

primrec checksum_loop :: "nat \<Rightarrow> mem \<Rightarrow> u64 \<Rightarrow> u8 \<Rightarrow> u8" where
  "checksum_loop 0 m p acc = acc"
| "checksum_loop (Suc n) m p acc =
     checksum_loop n m (p + 1) (push_bit 7 (acc AND 1) + drop_bit 1 acc + m p)"

definition tf_lfn_checksum :: "mem \<Rightarrow> u64 \<Rightarrow> u8" where
  "tf_lfn_checksum m pFcbName = checksum_loop 11 m pFcbName 0"

subsection \<open>Directories\<close>

text \<open>The characters of a name of eight and three that are not spaces.\<close>

definition name_chars :: "mem \<Rightarrow> u64 \<Rightarrow> nat list \<Rightarrow> u8 list" where
  "name_chars m p is = filter (\<lambda>c. c \<noteq> of_char CHR '' '') (map (\<lambda>i. m (p + of_nat i)) is)"

text \<open>The low bytes of \<open>n\<close> characters of a long name.\<close>

definition lfn_low :: "mem \<Rightarrow> u64 \<Rightarrow> nat \<Rightarrow> u8 list" where
  "lfn_low m p n = map (\<lambda>i. ucast (load16 m (p + 2 * of_nat i))) [0 ..< n]"

primrec put_bytes :: "u8 list \<Rightarrow> u64 \<Rightarrow> mem \<Rightarrow> mem" where
  "put_bytes [] p m = m"
| "put_bytes (b # bs) p m = put_bytes bs (p + 1) (m(p := b))"

partial_function (option) segment_end :: "mem \<Rightarrow> u64 \<Rightarrow> u32 \<Rightarrow> u32 option" where
  "segment_end m name i =
     (if m (name + scast i) \<noteq> of_char CHR ''/'' \<and> m (name + scast i) \<noteq> 0 then segment_end m name (i + 1)
      else Some i)"

text \<open>In the search for the end of the segment \<open>i\<close> goes on from the value the last loop left: 11 for a
  name of eight and three, 2 for a long name.\<close>

definition tf_compare_filename_segment :: "frame \<Rightarrow> u64 \<Rightarrow> u64 \<Rightarrow> fat \<Rightarrow> (u32 \<times> fat) option" where
  "tf_compare_filename_segment L entry name s =
     (let m = fram s;
          (text, i) = (if m (entry + MSDOS_attributes) \<noteq> 0x0f
             then (name_chars m entry [0 ..< 8] @ [of_char CHR ''.''] @ name_chars m entry [8 ..< 11], 11)
             else (lfn_low m (entry + LFN_name1) 5 @ lfn_low m (entry + LFN_name2) 6 @ lfn_low m (entry + LFN_name3) 2, 2));
          s = upd_fram (put_bytes (text @ [0]) (reformatted_file L)) s
      in do { i \<leftarrow> segment_end (fram s) name i;
              Some (if ctrue (strncasecmp (fram s) name (reformatted_file L) (scast (if sint i > 13 then 13 else i)))
                    then 0 else 1, s) })"

text \<open>The entries of a long name, the first one last: \<open>n\<close> are left of \<open>cnt\<close>.\<close>

primrec compare_chain :: "nat \<Rightarrow> u32 \<Rightarrow> frame \<Rightarrow> nat \<Rightarrow> u64 \<Rightarrow> fat \<Rightarrow> (u32 \<times> fat) option" where
  "compare_chain 0 cnt L fp name s = do { (_, s) \<leftarrow> seek_entries fp cnt s; Some (1, s) }"
| "compare_chain (Suc n) cnt L fp name s =
     do { (_, s) \<leftarrow> seek_entries fp (- 1) s;
          (_, s) \<leftarrow> read_entry (compare_entry L) fp s;
          (same, s) \<leftarrow> tf_compare_filename_segment L (compare_entry L) name s;
          if \<not> ctrue same then do { (_, s) \<leftarrow> seek_entries fp (of_nat n) s; Some (0, s) }
          else do { (_, s) \<leftarrow> seek_entries fp (- 1) s; compare_chain n cnt L fp (name + 13) s } }"

definition tf_compare_filename :: "frame \<Rightarrow> nat \<Rightarrow> u64 \<Rightarrow> fat \<Rightarrow> (u32 \<times> fat) option" where
  "tf_compare_filename L fp name s =
     (let entry = compare_entry L
      in do { (_, s) \<leftarrow> read_entry entry fp s;
              if fram s entry = 0 then Some (- 1, s)
              else if fram s (entry + MSDOS_attributes) \<noteq> 0x0f then
                do { (same, s) \<leftarrow> tf_compare_filename_segment L entry name s;
                     if ctrue same then do { (_, s) \<leftarrow> seek_entries fp (- 1) s; Some (1, s) } else Some (0, s) }
              else
                (let lfn_entries = ucast (fram s entry) AND NOT 0x40
                 in do { (_, s) \<leftarrow> seek_entries fp (lfn_entries - 1) s;
                         compare_chain (unat lfn_entries) lfn_entries L fp name s }) })"

partial_function (option) find_loop :: "frame \<Rightarrow> nat \<Rightarrow> u64 \<Rightarrow> fat \<Rightarrow> (u32 \<times> fat) option" where
  "find_loop L fp name s =
     do { (rc, s) \<leftarrow> tf_compare_filename L fp name s;
          if sint rc < 0 then Some (- 1, s) else if rc = 1 then Some (0, s) else find_loop L fp name s }"

definition tf_find_file :: "frame \<Rightarrow> nat \<Rightarrow> u64 \<Rightarrow> fat \<Rightarrow> (u32 \<times> fat) option" where
  "tf_find_file L fp name s = do { (_, s) \<leftarrow> tf_fseek fp 0 0 s; find_loop L fp name s }"

partial_function (option) skip_name :: "mem \<Rightarrow> u64 \<Rightarrow> u64 option" where
  "skip_name m p = (if m p \<noteq> of_char CHR ''/'' \<and> m p \<noteq> 0 then skip_name m (p + 1) else Some p)"

definition enter_entry :: "mem \<Rightarrow> u64 \<Rightarrow> TFFile \<Rightarrow> TFFile" where
  "enter_entry m entry f =
     (let first = push_bit 16 (ucast (load16 m (entry + MSDOS_eaIndex))) OR ucast (load16 m (entry + MSDOS_firstCluster));
          attributes = m (entry + MSDOS_attributes)
      in f\<lparr>parentStartCluster := startCluster f, startCluster := first, fp_attributes := attributes,
           currentCluster := first, currentClusterIdx := 0, fp_currentSector := 0, currentByte := 0, fpos := 0,
           fp_flags := TF_FLAG_OPEN,
           fp_size := if ctrue (attributes AND TF_ATTR_DIRECTORY) then 0xffffffff
                      else load32 m (entry + MSDOS_fileSize)\<rparr>)"

definition tf_walk :: "frame \<Rightarrow> u64 \<Rightarrow> nat \<Rightarrow> fat \<Rightarrow> (u64 \<times> fat) option" where
  "tf_walk L fname fp s =
     (let slash = of_char CHR ''/'';
          fname' = (if fram s fname = slash then fname + 1 else fname)
      in if fram s fname' = 0 then Some (0, s)
         else
           do { (rc, s) \<leftarrow> tf_find_file L fp fname' s;
                if rc \<noteq> 0 then Some (0, upd_file fp (\<lambda>f. f\<lparr>fp_flags := 0xff\<rparr>) s)
                else
                  do { (_, s) \<leftarrow> read_entry (walk_entry L) fp s;
                       p \<leftarrow> skip_name (fram s) fname';
                       (let p = (if fram s p = slash then p + 1 else p);
                            s = upd_file fp (enter_entry (fram s) (walk_entry L)) s
                        in Some (if fram s p = 0 then 0 else p, s)) } })"

subsection \<open>Opening\<close>

partial_function (option) walk_loop :: "frame \<Rightarrow> u64 \<Rightarrow> nat \<Rightarrow> fat \<Rightarrow> (nat option \<times> fat) option" where
  "walk_loop L temp fp s =
     (if temp = 0 then Some (Some fp, s)
      else do { (temp, s) \<leftarrow> tf_walk L temp fp s;
                if fp_flags (handles s ! fp) = 0xff then Some (None, tf_release_handle fp s)
                else walk_loop L temp fp s })"

definition root_file :: "TFFile \<Rightarrow> TFFile" where
  "root_file f =
     f\<lparr>currentCluster := 2, startCluster := 2, parentStartCluster := 0xffffffff, currentClusterIdx := 0,
       fp_currentSector := 0, currentByte := 0, fp_attributes := 0x10, fpos := 0,
       fp_flags := fp_flags f OR TF_FLAG_ROOT, fp_size := 0xffffffff,
       fp_mode := TF_MODE_READ OR TF_MODE_WRITE OR TF_MODE_OVERWRITE\<rparr>"

text \<open>\<open>mode\<close> is the text of the string the code gets.  The order of the code is kept: the memory is written
  before the handle, which is a null pointer when no handle is free.\<close>

definition tf_fnopen :: "frame \<Rightarrow> u64 \<Rightarrow> string \<Rightarrow> u32 \<Rightarrow> fat \<Rightarrow> (nat option \<times> fat) option" where
  "tf_fnopen L fname mode n s =
     (let (h, s) = tf_get_free_handle s;
          s = upd_fram (\<lambda>m. (strncpy m (myfile L) fname (scast n))(myfile L + scast n := 0)) s
      in case h of
           None \<Rightarrow> None
         | Some fp \<Rightarrow>
             do { (r, s) \<leftarrow> walk_loop L (myfile L) fp (upd_file fp root_file s);
                  case r of
                    None \<Rightarrow> Some (None, s)
                  | Some _ \<Rightarrow>
                      (let s = (if CHR ''r'' \<in> set mode then upd_file fp (\<lambda>f. f\<lparr>fp_mode := fp_mode f OR TF_MODE_READ\<rparr>) s else s)
                       in do { s \<leftarrow> (if CHR ''a'' \<in> set mode
                                     then do { (_, s) \<leftarrow> tf_unsafe_fseek fp (fp_size (handles s ! fp)) 0 s;
                                               Some (upd_file fp (\<lambda>f. f\<lparr>fp_mode := fp_mode f OR TF_MODE_WRITE OR TF_MODE_OVERWRITE\<rparr>) s) }
                                     else Some s);
                               (let s = (if CHR ''+'' \<in> set mode
                                         then upd_file fp (\<lambda>f. f\<lparr>fp_mode := fp_mode f OR TF_MODE_OVERWRITE OR TF_MODE_WRITE\<rparr>) s else s);
                                    s = (if CHR ''w'' \<in> set mode then upd_file fp (\<lambda>f. f\<lparr>fp_mode := fp_mode f OR TF_MODE_WRITE\<rparr>) s else s);
                                    name = filename (handles s ! fp)
                                in Some (Some fp, upd_fram (\<lambda>m. (strncpy m name (myfile L) (scast n))(name + scast n := 0)) s)) }) })"

text \<open>The mode of \<open>tf_parent\<close> is not used.  A name without a slash gives a null pointer, and then a
  negative length.\<close>

definition tf_parent :: "frame \<Rightarrow> u64 \<Rightarrow> fat \<Rightarrow> (nat option \<times> fat) option" where
  "tf_parent L fname s =
     do { f2 \<leftarrow> strrchr (fram s) fname (of_char CHR ''/'');
          tf_fnopen L fname ''rw'' (ucast (f2 - fname)) s }"

subsection \<open>Closing\<close>

text \<open>\<open>tf_fflush\<close>, with the call of \<open>tf_fclose\<close> for the parent directory written out: the directory is
  flushed in turn and its handle marked as free.\<close>

partial_function (option) tf_fflush :: "frame \<Rightarrow> nat \<Rightarrow> fat \<Rightarrow> (u32 \<times> fat) option" where
  "tf_fflush L fp s =
     (if \<not> ctrue (fp_flags (handles s ! fp) AND TF_FLAG_DIRTY) then Some (0, s)
      else
        do { s \<leftarrow> Some (if ctrue (sectorFlags s AND TF_FLAG_DIRTY) then snd (tf_store s) else s);
             s \<leftarrow> (if ctrue (fp_flags (handles s ! fp) AND TF_FLAG_SIZECHANGED) \<and>
                      \<not> ctrue (fp_attributes (handles s ! fp) AND 0x10)
                   then do { (d, s) \<leftarrow> tf_parent L (filename (handles s ! fp)) s;
                             p \<leftarrow> strrchr (fram s) (filename (handles s ! fp)) (of_char CHR ''/'');
                             dir \<leftarrow> d;
                             (_, s) \<leftarrow> tf_find_file L dir (p + 1) s;
                             (_, s) \<leftarrow> read_entry (flush_entry L) dir s;
                             (_, s) \<leftarrow> seek_entries dir (- 1) s;
                             (_, s) \<leftarrow> write_entry (flush_entry L) dir
                                        (upd_fram (\<lambda>m. store32 m (flush_entry L + MSDOS_fileSize) (fp_size (handles s ! fp) - 1)) s);
                             (_, s) \<leftarrow> tf_fflush L dir s;
                             Some (tf_release_handle dir s) }
                   else Some s);
             Some (0, upd_file fp (\<lambda>f. f\<lparr>fp_flags := fp_flags f AND NOT TF_FLAG_DIRTY\<rparr>) s) })"

definition tf_fclose :: "frame \<Rightarrow> nat \<Rightarrow> fat \<Rightarrow> (u32 \<times> fat) option" where
  "tf_fclose L fp s = do { (rc, s) \<leftarrow> tf_fflush L fp s; Some (rc, tf_release_handle fp s) }"

subsection \<open>Creating and removing\<close>

text \<open>The first loop of \<open>tf_place_lfn_chain\<close>: the number of entries and where the last one begins.\<close>

partial_function (option) count_entries :: "frame \<Rightarrow> u64 \<Rightarrow> u32 \<Rightarrow> mem \<Rightarrow> (u32 \<times> u64 \<times> mem) option" where
  "count_entries L str entries m =
     (let (rest, m) = tf_create_lfn_entry str (chain_entry L) m
      in if rest \<noteq> 0 then count_entries L rest (entries + 1) m else Some (entries, str, m))"

primrec place_loop :: "nat \<Rightarrow> frame \<Rightarrow> u64 \<Rightarrow> u8 \<Rightarrow> nat \<Rightarrow> fat \<Rightarrow> fat option" where
  "place_loop 0 L str seq fp s = Some s"
| "place_loop (Suc n) L str seq fp s =
     (let entry = chain_entry L;
          s = upd_fram (\<lambda>m. snd (tf_create_lfn_entry str entry m)) s;
          s = upd_fram (\<lambda>m. m(entry := seq)) s;
          s = upd_fram (\<lambda>m. m(entry + LFN_checksum := tf_lfn_checksum m (chain_sfn L))) s
      in do { (_, s) \<leftarrow> write_entry entry fp s;
              place_loop n L (str - 13) ((seq AND NOT 0x40) - 1) fp s })"

definition tf_place_lfn_chain :: "frame \<Rightarrow> nat \<Rightarrow> u64 \<Rightarrow> fat \<Rightarrow> (u32 \<times> fat) option" where
  "tf_place_lfn_chain L fp fname s =
     do { m \<leftarrow> tf_shorten_filename (chain_sfn L) fname (fram s);
          (entries, str, m) \<leftarrow> count_entries L fname 1 m;
          s \<leftarrow> place_loop (nat (sint entries)) L str (ucast (entries OR 0x40)) fp (s\<lparr>fram := m\<rparr>);
          Some (0, s) }"

partial_function (option) skip_entries :: "u64 \<Rightarrow> nat \<Rightarrow> fat \<Rightarrow> fat option" where
  "skip_entries entry fp s =
     do { (_, s) \<leftarrow> read_entry entry fp s;
          if fram s entry \<noteq> 0 then skip_entries entry fp s else Some s }"

definition fill_entry :: "u64 \<Rightarrow> u32 \<Rightarrow> mem \<Rightarrow> mem" where
  "fill_entry entry cluster m =
     (let m = m(entry + MSDOS_attributes := 0, entry + MSDOS_creationTimeMs := 0);
          m = store16 m (entry + MSDOS_creationTime) 0;
          m = store16 m (entry + MSDOS_creationDate) 0;
          m = store16 m (entry + MSDOS_lastAccessTime) 0;
          m = store16 m (entry + MSDOS_eaIndex) (ucast (signed_drop_bit 16 cluster AND 0xffff));
          m = store16 m (entry + MSDOS_modifiedTime) 0;
          m = store16 m (entry + MSDOS_modifiedDate) 0;
          m = store16 m (entry + MSDOS_firstCluster) (ucast (cluster AND 0xffff))
      in store32 m (entry + MSDOS_fileSize) 1)"

definition tf_create :: "frame \<Rightarrow> u64 \<Rightarrow> fat \<Rightarrow> (u32 \<times> fat) option" where
  "tf_create L fname s =
     do { (h, s) \<leftarrow> tf_parent L fname s;
          case h of
            None \<Rightarrow> Some (1, s)
          | Some fp \<Rightarrow>
              do { (_, s) \<leftarrow> tf_fclose L fp s;
                   (h, s) \<leftarrow> tf_parent L fname s;
                   fp \<leftarrow> h;
                   s \<leftarrow> skip_entries (create_entry L) fp s;
                   (_, s) \<leftarrow> seek_entries fp (- 1) s;
                   (cluster, s) \<leftarrow> Some (tf_find_free_cluster s);
                   (_, s) \<leftarrow> tf_set_fat_entry cluster LAST_CLUSTER s;
                   s \<leftarrow> Some (upd_fram (fill_entry (create_entry L) cluster) s);
                   p \<leftarrow> strrchr (fram s) fname (of_char CHR ''/'');
                   (_, s) \<leftarrow> tf_place_lfn_chain L fp (p + 1) s;
                   m \<leftarrow> tf_shorten_filename (create_entry L) (p + 1) (fram s);
                   (_, s) \<leftarrow> write_entry (create_entry L) fp (s\<lparr>fram := m\<rparr>);
                   (_, s) \<leftarrow> write_entry (create_entry L) fp
                              (upd_fram (\<lambda>m. memset m (create_entry L) 0 (ucast ENTRY_SIZE)) s);
                   (_, s) \<leftarrow> tf_fclose L fp s;
                   Some (0, s) } }"

definition tf_fopen :: "frame \<Rightarrow> u64 \<Rightarrow> string \<Rightarrow> fat \<Rightarrow> (nat option \<times> fat) option" where
  "tf_fopen L fname mode s =
     do { n \<leftarrow> strlen (fram s) fname;
          (h, s) \<leftarrow> tf_fnopen L fname mode n s;
          s \<leftarrow> (if h = None \<and> (CHR ''+'' \<in> set mode \<or> CHR ''w'' \<in> set mode \<or> CHR ''a'' \<in> set mode)
                then do { (_, s) \<leftarrow> tf_create L fname s; Some s } else Some s);
          n \<leftarrow> strlen (fram s) fname;
          tf_fnopen L fname mode n s }"

partial_function (option) remove_loop :: "u64 \<Rightarrow> nat \<Rightarrow> fat \<Rightarrow> fat option" where
  "remove_loop entry fp s =
     do { (rc, s) \<leftarrow> seek_entries fp 1 s;
          if rc \<noteq> 0 then Some s
          else do { (_, s) \<leftarrow> read_entry entry fp s;
                    (_, s) \<leftarrow> seek_entries fp (- 2) s;
                    (_, s) \<leftarrow> write_entry entry fp s;
                    if fram s entry = 0 then Some s else remove_loop entry fp s } }"

definition tf_remove :: "frame \<Rightarrow> u64 \<Rightarrow> fat \<Rightarrow> (u32 \<times> fat) option" where
  "tf_remove L fname s =
     do { (h, s) \<leftarrow> tf_fopen L fname ''r'' s;
          case h of
            None \<Rightarrow> Some (- 1, s)
          | Some fp \<Rightarrow>
              do { (_, s) \<leftarrow> tf_fclose L fp s;
                   (h, s) \<leftarrow> tf_parent L fname s;
                   p \<leftarrow> strrchr (fram s) fname (of_char CHR ''/'');
                   fp \<leftarrow> h;
                   (rc, s) \<leftarrow> tf_find_file L fp (p + 1) s;
                   s \<leftarrow> (if rc = 0
                         then do { s \<leftarrow> remove_loop (remove_entry L) fp s;
                                   Some (upd_file fp (\<lambda>f. f\<lparr>fp_size := fp_size f - ENTRY_SIZE,
                                                             fp_flags := fp_flags f OR TF_FLAG_SIZECHANGED\<rparr>) s) }
                         else Some s);
                   (_, s) \<leftarrow> tf_fclose L fp s;
                   Some (0, s) } }"

subsection \<open>Initialisation\<close>

text \<open>Fields of the boot sector, at the offsets of \<open>BPB_struct\<close>, which is not packed either.\<close>

definition buf16 :: "fat \<Rightarrow> nat \<Rightarrow> u16" where
  "buf16 s i = push_bit 8 (ucast (buffer s ! (i + 1))) OR ucast (buffer s ! i)"

definition buf32 :: "fat \<Rightarrow> nat \<Rightarrow> u32" where
  "buf32 s i = push_bit 16 (ucast (buf16 s (i + 2))) OR ucast (buf16 s i)"

definition BPB_BytesPerSector :: nat where "BPB_BytesPerSector = 12"
definition BPB_SectorsPerCluster :: nat where "BPB_SectorsPerCluster = 14"
definition BPB_ReservedSectorCount :: nat where "BPB_ReservedSectorCount = 16"
definition BPB_NumFATs :: nat where "BPB_NumFATs = 18"
definition BPB_RootEntryCount :: nat where "BPB_RootEntryCount = 20"
definition BPB_TotalSectors16 :: nat where "BPB_TotalSectors16 = 22"
definition BPB_FATSize16 :: nat where "BPB_FATSize16 = 26"
definition BPB_TotalSectors32 :: nat where "BPB_TotalSectors32 = 36"
definition BPB_FATSize32 :: nat where "BPB_FATSize32 = 40"

text \<open>The size of the root directory is counted until an entry begins with a zero.\<close>

partial_function (option) count_root :: "u64 \<Rightarrow> nat \<Rightarrow> u32 \<Rightarrow> fat \<Rightarrow> (u32 \<times> fat) option" where
  "count_root entry fp temp s =
     do { (_, s) \<leftarrow> read_entry entry fp s;
          if fram s entry \<noteq> 0 then count_root entry fp (temp + ENTRY_SIZE) s else Some (temp + ENTRY_SIZE, s) }"

definition tf_init :: "frame \<Rightarrow> fat \<Rightarrow> (u32 \<times> fat) option" where
  "tf_init L s =
     (let s = s\<lparr>currentSector := - 1, sectorFlags := 0\<rparr>;
          s = snd (tf_fetch 0 s);
          fat_size = (if buf16 s BPB_FATSize16 \<noteq> 0 then ucast (buf16 s BPB_FATSize16) else buf32 s BPB_FATSize32);
          root_dir_sectors = cdiv (ucast (buf16 s BPB_RootEntryCount) * 32 + (ucast (buf16 s BPB_BytesPerSector) - 1) :: u32) 512;
          tot = (if buf16 s BPB_TotalSectors16 \<noteq> 0 then ucast (buf16 s BPB_TotalSectors16) else buf32 s BPB_TotalSectors32);
          used = ucast (buf16 s BPB_ReservedSectorCount) + ucast (buffer s ! BPB_NumFATs) * fat_size + root_dir_sectors;
          data_sectors = tot - used;
          s = s\<lparr>totalSectors := tot, sectorsPerCluster := buffer s ! BPB_SectorsPerCluster\<rparr>
      in if sectorsPerCluster s = 0 then None
         else
           let cluster_count = (cdiv data_sectors (uint (sectorsPerCluster s)) :: u32);
               s = s\<lparr>reservedSectors := buf16 s BPB_ReservedSectorCount, firstDataSector := used\<rparr>
           in if sint cluster_count < 65525 then Some (TF_ERR_BAD_FS_TYPE, s)
              else
                let s = s\<lparr>tf_type := TF_TYPE_FAT32, sector_reads := 0, sector_writes := 0, rootDirectorySize := 0xffffffff\<rparr>
                in do { (h, s) \<leftarrow> tf_fopen L (root_name L) ''r'' s;
                        fp \<leftarrow> h;
                        (temp, s) \<leftarrow> count_root (init_entry L) fp 0 s;
                        (_, s) \<leftarrow> tf_fclose L fp s;
                        Some (0, s\<lparr>rootDirectorySize := temp\<rparr>) })"


subsection \<open>What the sector buffer sees\<close>

text \<open>Fetching a sector never fails and never changes the buffer.\<close>

lemma tf_fetch_result:
  "\<exists>fl w r. tf_fetch c s = (0, s\<lparr>currentSector := c, sectorFlags := fl, sector_reads := r, sector_writes := w\<rparr>)"
proof (cases "c = currentSector s")
  case True
  then have "tf_fetch c s = (0, s\<lparr>currentSector := c, sectorFlags := sectorFlags s, sector_reads := sector_reads s,
      sector_writes := sector_writes s\<rparr>)"
    by (simp add: tf_fetch_def)
  then show ?thesis by blast
next
  case False
  then have "tf_fetch c s = (0, s\<lparr>currentSector := c,
      sectorFlags := if ctrue (sectorFlags s AND TF_FLAG_DIRTY) then sectorFlags s AND NOT TF_FLAG_DIRTY else sectorFlags s,
      sector_reads := sector_reads s + 1,
      sector_writes := if ctrue (sectorFlags s AND TF_FLAG_DIRTY) then sector_writes s + 1 else sector_writes s\<rparr>)"
    by (simp add: tf_fetch_def tf_store_def read_sector_def write_sector_def Let_def)
  then show ?thesis by blast
qed

lemma tf_fetch_simps [simp]:
  "fst (tf_fetch c s) = 0" "buffer (snd (tf_fetch c s)) = buffer s" "handles (snd (tf_fetch c s)) = handles s"
  "fram (snd (tf_fetch c s)) = fram s" "firstDataSector (snd (tf_fetch c s)) = firstDataSector s"
  "totalSectors (snd (tf_fetch c s)) = totalSectors s" "sectorsPerCluster (snd (tf_fetch c s)) = sectorsPerCluster s"
  "tf_type (snd (tf_fetch c s)) = tf_type s"
  using tf_fetch_result [of c s] by auto

lemma tf_get_fat_entry_zero: "tf_get_fat_entry c s = (0, snd (tf_get_fat_entry c s))"
  by (simp add: tf_get_fat_entry_def Let_def prod_eq_iff)

lemma tf_get_fat_entry_simps [simp]:
  "fst (tf_get_fat_entry c s) = 0" "buffer (snd (tf_get_fat_entry c s)) = buffer s"
  "handles (snd (tf_get_fat_entry c s)) = handles s" "fram (snd (tf_get_fat_entry c s)) = fram s"
  "firstDataSector (snd (tf_get_fat_entry c s)) = firstDataSector s"
  "totalSectors (snd (tf_get_fat_entry c s)) = totalSectors s"
  "sectorsPerCluster (snd (tf_get_fat_entry c s)) = sectorsPerCluster s"
  "tf_type (snd (tf_get_fat_entry c s)) = tf_type s"
  by (simp_all add: tf_get_fat_entry_def Let_def)

lemma tf_find_free_cluster_first: "fst (tf_find_free_cluster s) = firstDataSector s"
  unfolding tf_find_free_cluster_def
  by (cases "unat (totalSectors s) - unat (firstDataSector s)") (simp_all add: Let_def case_prod_beta)

lemma tf_find_free_cluster_simps [simp]:
  "handles (snd (tf_find_free_cluster s)) = handles s" "buffer (snd (tf_find_free_cluster s)) = buffer s"
  "fram (snd (tf_find_free_cluster s)) = fram s"
  "firstDataSector (snd (tf_find_free_cluster s)) = firstDataSector s"
  "sectorsPerCluster (snd (tf_find_free_cluster s)) = sectorsPerCluster s"
  unfolding tf_find_free_cluster_def
  by (cases "unat (totalSectors s) - unat (firstDataSector s)"; simp add: Let_def case_prod_beta)+

lemma buf_set_fields:
  assumes "buf_set i b s = Some t"
  shows "handles t = handles s" "firstDataSector t = firstDataSector s" "totalSectors t = totalSectors s"
    "sectorsPerCluster t = sectorsPerCluster s" "fram t = fram s" "tf_type t = tf_type s"
  using assms by (auto simp: buf_set_def split: if_splits)

lemma tf_set_fat_entry_fields:
  assumes "tf_set_fat_entry c v s = Some (rc, t)"
  shows "handles t = handles s" "firstDataSector t = firstDataSector s" "totalSectors t = totalSectors s"
    "sectorsPerCluster t = sectorsPerCluster s" "fram t = fram s" "tf_type t = tf_type s"
  using assms
  by (auto simp: tf_set_fat_entry_def Let_def case_prod_beta bind_eq_Some_conv buf_set_fields)

lemma free_loop_zero: "free_loop 0 c s = None"
proof -
  have "fe \<noteq> 0" if "free_loop fe c s = Some t" for fe c s t
  proof (rule free_loop.raw_induct [where P = "\<lambda>fe c s t. fe \<noteq> 0", OF _ that])
    fix f fe c s t
    assume IH: "\<And>fe c s t. f fe c s = Some t \<Longrightarrow> fe \<noteq> 0"
      and body: "(if sint fe < sint TF_MARK_EOC32
        then tf_set_fat_entry c 0 s \<bind> (\<lambda>(_, s). let (fe, s) = tf_get_fat_entry fe s in f fe fe s)
        else Some s) = Some t"
    show "fe \<noteq> 0"
    proof
      assume "fe = 0"
      with body obtain s' where "f 0 0 (snd (tf_get_fat_entry 0 s')) = Some t"
        by (auto simp: TF_MARK_EOC32_def bind_eq_Some_conv case_prod_beta Let_def)
      from IH [OF this] show False by simp
    qed
  qed
  then show ?thesis by (cases "free_loop 0 c s") auto
qed

text \<open>C30: giving back the clusters of a file never returns: the entry of the allocation table that
  \<open>tf_get_fat_entry\<close> gives is its own return code, 0, whatever the table contains, so that the
  end of the chain is never seen.\<close>

theorem free_clusterchain_never_returns:
  "tf_free_clusterchain cluster s = None"
  by (simp add: tf_free_clusterchain_def case_prod_beta free_loop_zero)

text \<open>The search for a free cluster always gives the first sector of the data, also after the entry of
  any cluster has been written: every cluster that is allocated is the same one.\<close>

theorem free_cluster_always_same:
  assumes "tf_set_fat_entry c v s = Some (rc, t)"
  shows "fst (tf_find_free_cluster t) = firstDataSector s \<and> fst (tf_find_free_cluster s) = firstDataSector s"
  using tf_set_fat_entry_fields(2) [OF assms] by (simp add: tf_find_free_cluster_first)

subsection \<open>Names\<close>

lemma half_rotate: "push_bit 7 (acc AND 1) + drop_bit 1 acc = word_rotr 1 acc" for acc :: u8
proof -
  have "push_bit 7 (acc AND 1) AND drop_bit 1 acc = 0"
    by (rule bit_word_eqI) (auto simp: bit_simps dest!: bit_imp_le_length)
  then have "push_bit 7 (acc AND 1) + drop_bit 1 acc = push_bit 7 (acc AND 1) OR drop_bit 1 acc"
    using word_plus_and_or [of "push_bit 7 (acc AND 1)" "drop_bit 1 acc"] by simp
  also have "\<dots> = word_rotr 1 acc"
  proof (rule bit_word_eqI)
    fix n assume "n < LENGTH(8)"
    then have "n \<in> {0, 1, 2, 3, 4, 5, 6, 7}" by auto
    then show "bit (push_bit 7 (acc AND 1) OR drop_bit 1 acc) n = bit (word_rotr 1 acc) n"
      using bit_imp_le_length [of acc 8] by (auto simp: bit_simps)
  qed
  finally show ?thesis .
qed

lemma checksum_loop_fold:
  "checksum_loop n m p acc = fold (\<lambda>b acc. word_rotr 1 acc + b) (map (\<lambda>i. m (p + of_nat i)) [0 ..< n]) acc"
proof (induction n arbitrary: p acc)
  case (Suc n)
  have "map (\<lambda>i. m (p + of_nat i)) [0 ..< Suc n] = m p # map (\<lambda>i. m (p + 1 + of_nat i)) [0 ..< n]"
    by (simp add: upt_conv_Cons map_Suc_upt [symmetric] ac_simps del: upt_Suc)
  then show ?case using Suc [of "p + 1"] half_rotate [of acc] by (simp add: add.assoc del: upt_Suc)
qed simp

text \<open>The checksum of a short name is the one of the FAT specification: for each of its eleven bytes the
  sum is rotated right by one bit and the byte is added.\<close>

theorem lfn_checksum_rotates:
  "tf_lfn_checksum m p = fold (\<lambda>b sum. word_rotr 1 sum + b) (map (\<lambda>i. m (p + of_nat i)) [0 ..< 11]) 0"
  by (simp add: tf_lfn_checksum_def checksum_loop_fold)

lemma store16_other: "x \<noteq> p \<Longrightarrow> x \<noteq> p + 1 \<Longrightarrow> store16 m p v x = m x"
  by (simp add: numeral_2_eq_2)

lemma upper_half_of_char: "(ucast (drop_bit 8 (scast b :: u16)) :: u8) = (if bit b 7 then - 1 else 0)" for b :: u8
  by (rule bit_word_eqI) (auto simp: bit_simps)

lemma store16_upper: "store16 m p v (p + 1) = ucast (drop_bit 8 v)"
  by (simp add: numeral_2_eq_2)

lemma lfn_chars_last: "fst (lfn_chars (Suc n) m p src) (p + (2 * of_nat n + 1)) \<in> {0, - 1}"
proof (induction n arbitrary: m p src)
  case 0
  then show ?case by (auto simp: store16_upper upper_half_of_char)
next
  case (Suc n)
  have e: "p + (2 * of_nat (Suc n) + 1) = p + 2 + (2 * of_nat n + 1)" by (simp add: algebra_simps)
  show ?case
    unfolding e lfn_chars.simps(2) [of "Suc n"]
    by (cases "m src = 0") (simp_all only: simp_thms if_True if_False Suc)
qed

lemma lfn_chars_frame: "\<not> in_range p (2 * n) x \<Longrightarrow> fst (lfn_chars n m p src) x = m x"
proof (induction n arbitrary: m p src)
  case (Suc n)
  then have d: "2 * n + 2 \<le> unat (x - p)" by (simp add: in_range_def)
  then have "x \<noteq> p" "x \<noteq> p + 1" by auto
  moreover have "unat (x - p - 2) = unat (x - p) - unat (2 :: u64)"
    using d by (intro unat_sub) (simp add: word_le_nat_alt)
  then have "\<not> in_range (p + 2) (2 * n) x" using d by (simp add: in_range_def diff_diff_add)
  ultimately show ?case using Suc.IH by (simp add: store16_other)
qed simp

text \<open>An entry that \<open>tf_create_lfn_entry\<close> fills is not recognised as part of a long name: the
  \<open>attributes\<close> that the searches test are the byte at offset 11 of the other structure of the union,
  which is the upper half of the fifth character, never the mark 0x0f of a long name.\<close>

theorem lfn_entry_not_recognised:
  "snd (tf_create_lfn_entry fname entry m) (entry + MSDOS_attributes) \<in> {0, 0xff}"
proof -
  obtain m1 s1 where 1: "lfn_chars 5 m (entry + LFN_name1) fname = (m1, s1)" by fastforce
  obtain m2 s2 where 2: "lfn_chars 6 m1 (entry + LFN_name2) s1 = (m2, s2)" by fastforce
  obtain m3 s3 where 3: "lfn_chars 2 m2 (entry + LFN_name3) s2 = (m3, s3)" by fastforce
  have "m1 (entry + 11) \<in> {0, - 1}"
    using lfn_chars_last [of 4 m "entry + 2" fname] 1 by (simp add: LFN_name1_def add.assoc)
  moreover have "m2 (entry + 11) = m1 (entry + 11)"
    using lfn_chars_frame [of "entry + 16" 6 "entry + 11" m1 s1] 2 by (simp add: LFN_name2_def in_range_def)
  moreover have "m3 (entry + 11) = m2 (entry + 11)"
    using lfn_chars_frame [of "entry + 30" 2 "entry + 11" m2 s2] 3 by (simp add: LFN_name3_def in_range_def)
  ultimately show ?thesis
    using 1 2 3
    by (auto simp: tf_create_lfn_entry_def Let_def MSDOS_attributes_def LFN_attributes_def LFN_reserved_def
      LFN_firstCluster_def store16_other)
qed

subsection \<open>Positions\<close>

lemma next_cluster_fields:
  assumes "next_cluster fp s = Some t"
  shows "handles t = handles s" "sectorsPerCluster t = sectorsPerCluster s" "fram t = fram s"
  using assms
  by (auto simp: next_cluster_def ctrue_def case_prod_beta Let_def bind_eq_Some_conv tf_set_fat_entry_fields)

lemma seek_loop_fields:
  assumes "seek_loop n fp s = Some (rc, t)"
  shows "handles t = handles s \<and> sectorsPerCluster t = sectorsPerCluster s \<and> fram t = fram s"
  using assms
proof (induction n arbitrary: s)
  case (Suc n)
  then obtain u where u: "next_cluster fp s = Some u" by (auto simp: bind_eq_Some_conv)
  with Suc.prems have "t = u \<or> seek_loop n fp u = Some (rc, t)" by (auto simp: Let_def split: if_splits)
  then show ?case using Suc.IH [of u] next_cluster_fields [OF u] by auto
qed simp

lemma upd_file_simps [simp]:
  "fp < length (handles s) \<Longrightarrow> handles (upd_file fp f s) ! fp = f (handles s ! fp)"
  "g \<noteq> fp \<Longrightarrow> handles (upd_file fp f s) ! g = handles s ! g"
  "length (handles (upd_file fp f s)) = length (handles s)"
  "sectorsPerCluster (upd_file fp f s) = sectorsPerCluster s" "fram (upd_file fp f s) = fram s"
  "buffer (upd_file fp f s) = buffer s" "currentSector (upd_file fp f s) = currentSector s"
  "sectorFlags (upd_file fp f s) = sectorFlags s" "firstDataSector (upd_file fp f s) = firstDataSector s"
  by (simp_all add: upd_file_def)

lemma upd_fram_simps [simp]:
  "handles (upd_fram f s) = handles s" "fram (upd_fram f s) = f (fram s)" "buffer (upd_fram f s) = buffer s"
  "sectorsPerCluster (upd_fram f s) = sectorsPerCluster s" "currentSector (upd_fram f s) = currentSector s"
  "sectorFlags (upd_fram f s) = sectorFlags s"
  by (simp_all add: upd_fram_def)

lemma grow_file_simps [simp]:
  "fram (grow_file fp s) = fram s" "sectorsPerCluster (grow_file fp s) = sectorsPerCluster s"
  "length (handles (grow_file fp s)) = length (handles s)" "g \<noteq> fp \<Longrightarrow> handles (grow_file fp s) ! g = handles s ! g"
  "buffer (grow_file fp s) = buffer s"
  by (simp_all add: grow_file_def)

lemma go_to_cluster_fields:
  assumes "go_to_cluster fp idx s = Some (rc, t)"
  shows "fram t = fram s \<and> sectorsPerCluster t = sectorsPerCluster s \<and> length (handles t) = length (handles s) \<and>
    (\<forall>g. g \<noteq> fp \<longrightarrow> handles t ! g = handles s ! g) \<and>
    (fp < length (handles s) \<longrightarrow> currentClusterIdx (handles t ! fp) = idx \<and> fp_size (handles t ! fp) = fp_size (handles s ! fp))"
  using assms by (auto simp: go_to_cluster_def split: if_splits dest!: seek_loop_fields)

text \<open>A seek that is not past the end, in the order of the code.\<close>

lemma unsafe_fseek_run:
  assumes "tf_unsafe_fseek fp base off s = Some (rc, t)"
    and "\<not> uint (fp_size (handles s ! fp)) < sint (scast base + off)"
    and "s0 = (if sint (scast base + off) = uint (fp_size (handles s ! fp)) then grow_file fp s else s)"
  obtains rc1 s1 where "sectorsPerCluster s0 \<noteq> 0"
    and "go_to_cluster fp (cdiv (scast base + off) (uint (sectorsPerCluster s0) * 512)) s0 = Some (rc1, s1)"
    and "rc1 \<noteq> 0 \<Longrightarrow> rc = rc1 \<and> t = s1"
    and "rc1 = 0 \<Longrightarrow> rc = 0 \<and> t = upd_file fp (\<lambda>f. f\<lparr>currentByte := cmod (scast base + off) (uint (sectorsPerCluster s0) * 512),
        fpos := ucast (scast base + off)\<rparr>) s1"
proof -
  have "sectorsPerCluster s0 \<noteq> 0"
    using assms(1,2) by (simp add: tf_unsafe_fseek_def Let_def assms(3) [symmetric] split: if_splits)
  moreover from this obtain rc1 s1 where
    "go_to_cluster fp (cdiv (scast base + off) (uint (sectorsPerCluster s0) * 512)) s0 = Some (rc1, s1)"
    "(if rc1 \<noteq> 0 then Some (rc1, s1) else Some (0, upd_file fp (\<lambda>f. f\<lparr>currentByte :=
        cmod (scast base + off) (uint (sectorsPerCluster s0) * 512), fpos := ucast (scast base + off)\<rparr>) s1)) = Some (rc, t)"
    using assms(1,2)
    by (simp only: tf_unsafe_fseek_def Let_def assms(3) [symmetric] if_False bind_eq_Some_conv)
      (auto simp del: if_split)
  ultimately show ?thesis using that by (auto split: if_splits)
qed

lemma unsafe_fseek_fram:
  assumes "tf_unsafe_fseek fp base off s = Some (rc, t)"
  shows "fram t = fram s"
proof (cases "uint (fp_size (handles s ! fp)) < sint (scast base + off)")
  case True
  then show ?thesis using assms by (simp add: tf_unsafe_fseek_def)
next
  case False
  obtain rc1 s1 where "go_to_cluster fp (cdiv (scast base + off)
      (uint (sectorsPerCluster (if sint (scast base + off) = uint (fp_size (handles s ! fp)) then grow_file fp s else s)) * 512))
      (if sint (scast base + off) = uint (fp_size (handles s ! fp)) then grow_file fp s else s) = Some (rc1, s1)"
    "rc1 \<noteq> 0 \<Longrightarrow> t = s1" "rc1 = 0 \<Longrightarrow> \<exists>f. t = upd_file fp f s1"
    using unsafe_fseek_run [OF assms False refl] by metis
  then show ?thesis by (cases "rc1 = 0") (auto dest!: go_to_cluster_fields split: if_splits)
qed

lemma fseek_fram: "tf_fseek fp base off s = Some (rc, t) \<Longrightarrow> fram t = fram s"
  by (auto simp: tf_fseek_def Let_def unsafe_fseek_fram split: if_splits)

lemma cdiv_nat: "0 \<le> sint w \<Longrightarrow> 0 < n \<Longrightarrow> cdiv w (int n) = word_of_int (int (nat (sint w) div n))"
  by (cases "sint w = 0") (simp_all add: cdiv_def signed_divide_int_def sgn_if zdiv_int)

lemma cmod_nat: "0 \<le> sint w \<Longrightarrow> 0 < n \<Longrightarrow> cmod w (int n) = word_of_int (int (nat (sint w) mod n))"
  by (cases "sint w = 0")
    (simp_all add: cmod_def signed_modulo_int_def signed_divide_int_def sgn_if zmod_int minus_div_mult_eq_mod)

text \<open>A seek that succeeds: what the handle then says.\<close>

lemma tf_fseek_ok:
  assumes "tf_fseek fp base offset s = Some (0, t)" and "fp < length (handles s)"
  shows "sint (scast base + offset) < uint (fp_size (handles s ! fp)) \<and> sectorsPerCluster s \<noteq> 0 \<and>
    fp_size (handles t ! fp) = fp_size (handles s ! fp) \<and> fpos (handles t ! fp) = ucast (scast base + offset) \<and>
    currentClusterIdx (handles t ! fp) = cdiv (scast base + offset) (uint (sectorsPerCluster s) * 512) \<and>
    currentByte (handles t ! fp) = cmod (scast base + offset) (uint (sectorsPerCluster s) * 512)"
proof -
  have lt: "sint (scast base + offset) < uint (fp_size (handles s ! fp))"
    and u: "tf_unsafe_fseek fp base offset s = Some (0, t)"
    using assms(1) by (auto simp: tf_fseek_def TF_ERR_INVALID_SEEK_def Let_def split: if_splits)
  then have le: "\<not> uint (fp_size (handles s ! fp)) < sint (scast base + offset)" by simp
  obtain rc1 s1 where nz: "sectorsPerCluster s \<noteq> 0"
    and run: "go_to_cluster fp (cdiv (scast base + offset) (uint (sectorsPerCluster s) * 512)) s = Some (rc1, s1)"
    and t: "rc1 \<noteq> 0 \<Longrightarrow> 0 = rc1"
      "rc1 = 0 \<Longrightarrow> t = upd_file fp (\<lambda>f. f\<lparr>currentByte := cmod (scast base + offset) (uint (sectorsPerCluster s) * 512),
        fpos := ucast (scast base + offset)\<rparr>) s1"
    using unsafe_fseek_run [OF u le, of s] lt by auto
  have "rc1 = 0" using t(1) by blast
  from go_to_cluster_fields [OF run] t(2) [OF this] show ?thesis using nz lt assms(2) by auto
qed

text \<open>C26: a seek to a position that is not negative and that succeeds leaves the handle at the position asked
  for: inside the file, in the cluster and at the byte of the cluster that the position has, when a cluster
  has at most 32 KB.  (Nothing refuses a negative position.)\<close>

theorem fseek_position:
  assumes "tf_fseek fp base offset s = Some (0, t)" and "fp < length (handles s)"
    and "sectorsPerCluster s \<le> 64" and "0 \<le> sint (scast base + offset)"
    and "p = nat (sint (scast base + offset))" and "cl = unat (sectorsPerCluster s) * 512"
  shows "p < unat (fp_size (handles t ! fp)) \<and> unat (fpos (handles t ! fp)) = p \<and>
    unat (currentClusterIdx (handles t ! fp)) = p div cl \<and> unat (currentByte (handles t ! fp)) = p mod cl"
proof -
  note ok = tf_fseek_ok [OF assms(1,2), THEN conjunct1] tf_fseek_ok [OF assms(1,2), THEN conjunct2, THEN conjunct1]
    tf_fseek_ok [OF assms(1,2), THEN conjunct2, THEN conjunct2]
  have cl: "0 < cl" "cl \<le> 32768" "uint (sectorsPerCluster s) * 512 = int cl"
    using ok(2) assms(3) by (simp_all add: assms(6) word_le_nat_alt unat_gt_0)
  have p: "sint (scast base + offset) = int p" using assms(4,5) by simp
  have size: "p < unat (fp_size (handles s ! fp))" using ok(1) p by (simp add: of_nat_less_iff [symmetric, where ?'a = int])
  then have 32: "p < 2 ^ 32" using unsigned_less [of "fp_size (handles s ! fp)", where ?'a = nat] by simp
  have "uint (scast base + offset :: u64) = int p"
    using p 32 by (simp add: uint_sint take_bit_int_eq_self)
  then have u: "unat (scast base + offset :: u64) = p" by (simp only: unat_eq_nat_uint nat_int)
  then have "unat (ucast (scast base + offset :: u64) :: u32) = p"
    using 32 by (simp add: unsigned_ucast_eq take_bit_nat_eq_self)
  moreover have "p div cl < 2 ^ 32" using 32 div_le_dividend [of p cl] by linarith
  then have "unat (cdiv (scast base + offset :: u64) (int cl) :: u32) = p div cl"
    using p cl by (simp add: cdiv_nat unat_of_nat)
  moreover have "p mod cl < 2 ^ 16" using mod_less_divisor [OF cl(1), of p] cl(2) by simp
  then have "unat (cmod (scast base + offset :: u64) (int cl) :: u16) = p mod cl"
    using p cl by (simp add: cmod_nat unat_of_nat)
  ultimately show ?thesis using ok size cl by simp
qed

text \<open>The driver used on two open files whose positions are at the same offset in a sector.\<close>

lemma fetch_current_simps [simp]:
  "buffer (fetch_current fp s) = buffer s" "handles (fetch_current fp s) = handles s"
  "fram (fetch_current fp s) = fram s" "sectorsPerCluster (fetch_current fp s) = sectorsPerCluster s"
  by (simp_all add: fetch_current_def Let_def)

lemma buf_get_set:
  "buf_set i b s = Some t \<Longrightarrow> length (buffer s) = 512 \<Longrightarrow> buf_get t i = Some b"
  by (auto simp: buf_set_def buf_get_def split: if_splits)

lemma buf_get_cong: "buffer s = buffer t \<Longrightarrow> buf_get s i = buf_get t i"
  by (simp add: buf_get_def)

lemma unsafe_fseek_stays:
  assumes "tf_unsafe_fseek fp base off s = Some (0, t)"
    and "cdiv (scast base + off) (uint (sectorsPerCluster s) * 512) = currentClusterIdx (handles s ! fp)"
    and "fp < length (handles s)"
  shows "buffer t = buffer s \<and> (\<forall>g. g \<noteq> fp \<longrightarrow> handles t ! g = handles s ! g)"
proof -
  let ?s0 = "if sint (scast base + off) = uint (fp_size (handles s ! fp)) then grow_file fp s else s"
  have le: "\<not> uint (fp_size (handles s ! fp)) < sint (scast base + off)"
    using assms(1) by (auto simp: tf_unsafe_fseek_def TF_ERR_INVALID_SEEK_def)
  have s0: "sectorsPerCluster ?s0 = sectorsPerCluster s" "currentClusterIdx (handles ?s0 ! fp) = currentClusterIdx (handles s ! fp)"
    "buffer ?s0 = buffer s" "\<And>g. g \<noteq> fp \<Longrightarrow> handles ?s0 ! g = handles s ! g"
    using assms(3) by (simp_all add: grow_file_def)
  obtain rc1 s1 where "go_to_cluster fp (cdiv (scast base + off) (uint (sectorsPerCluster ?s0) * 512)) ?s0 = Some (rc1, s1)"
    and t: "rc1 \<noteq> 0 \<Longrightarrow> 0 = rc1" "rc1 = 0 \<Longrightarrow> \<exists>f. t = upd_file fp f s1"
    using unsafe_fseek_run [OF assms(1) le refl] by metis
  then have "s1 = ?s0"
    unfolding go_to_cluster_def s0(1,2) assms(2) by simp
  moreover have "rc1 = 0" using t(1) by blast
  ultimately obtain h where "t = upd_file fp h ?s0" using t(2) by blast
  then show ?thesis using s0(3,4) by (simp only: upd_file_simps not_False_eq_True) simp
qed

text \<open>The one sector buffer is all the driver has: a byte written to one file is what is then read from
  another file that is at the same offset in a sector, whatever sectors the two are in, when the
  write does not move the first file to its next cluster.\<close>

theorem sector_buffer_shared:
  assumes "tf_fwrite src 1 1 f s = Some (0, t)" and "tf_fread 1 dest g t = Some (rc, u)"
    and "f < length (handles s)" and "f \<noteq> g" and "length (buffer s) = 512"
    and "cmod (currentByte (handles s ! f)) 512 = (cmod (currentByte (handles s ! g)) 512 :: u32)"
    and "cdiv (ucast (fpos (handles s ! f) + 1) :: u64) (uint (sectorsPerCluster s) * 512) = currentClusterIdx (handles s ! f)"
  shows "fram u dest = fram s src"
proof -
  let ?i = "cmod (currentByte (handles s ! f)) 512 :: u32"
  define s1 where "s1 = fetch_current f (upd_file f (\<lambda>x. x\<lparr>fp_flags := fp_flags x OR TF_FLAG_DIRTY\<rparr>) s)"
  have s1: "currentByte (handles s1 ! f) = currentByte (handles s ! f)" "fpos (handles s1 ! f) = fpos (handles s ! f)"
    "currentClusterIdx (handles s1 ! f) = currentClusterIdx (handles s ! f)" "handles s1 ! g = handles s ! g"
    "length (buffer s1) = 512" "fram s1 = fram s" "sectorsPerCluster s1 = sectorsPerCluster s" "length (handles s1) = length (handles s)"
    using assms(3-5) by (simp_all add: s1_def)
  obtain s2 where s2: "buf_set ?i (fram s src) s1 = Some s2"
    and t: "tf_unsafe_fseek f 0 (ucast (fpos (handles s2 ! f) + 1)) (s2\<lparr>sectorFlags := sectorFlags s2 OR TF_FLAG_DIRTY\<rparr>) = Some (0, t)"
    using assms(1) s1
    by (auto simp: tf_fwrite_def s1_def [symmetric] Let_def bind_eq_Some_conv buf_set_fields split: if_splits)
  have "buffer t = buffer s2" "handles t ! g = handles s ! g"
    using unsafe_fseek_stays [OF t] buf_set_fields [OF s2] s1 assms(3,4,7) by simp_all
  moreover have "buf_get s2 ?i = Some (fram s src)" using buf_get_set [OF s2 s1(5)] .
  ultimately have "buf_get (fetch_current g t) (cmod (currentByte (handles t ! g)) 512) = Some (fram s src)"
    using assms(6) by (simp add: buf_get_def split: if_splits)
  then show ?thesis
    using assms(2) by (auto simp: Let_def bind_eq_Some_conv dest!: fseek_fram split: if_splits)
qed

subsection \<open>Handles\<close>

definition is_open :: "fat \<Rightarrow> nat \<Rightarrow> bool" where
  "is_open s i \<longleftrightarrow> ctrue (fp_flags (handles s ! i) AND TF_FLAG_OPEN)"

lemma free_handle_from_spec:
  "(\<forall>k < n. is_open s (i + k)) \<Longrightarrow> free_handle_from n i s = (None, s)"
  "j < n \<Longrightarrow> \<not> is_open s (i + j) \<Longrightarrow> (\<forall>k < j. is_open s (i + k)) \<Longrightarrow>
    free_handle_from n i s = (Some (i + j), upd_file (i + j) (\<lambda>f. f\<lparr>fp_flags := TF_FLAG_OPEN\<rparr>) s)"
proof (induction n arbitrary: i j)
  case (Suc n)
  {
    case 1
    then have "is_open s i" "\<forall>k < n. is_open s (Suc i + k)"
      by (metis add_0_right zero_less_Suc) (metis "1" Suc_mono add_Suc_shift)
    then show ?case using Suc.IH(1) [of "Suc i"] by (simp add: is_open_def)
  next
    case 2
    then show ?case
    proof (cases j)
      case 0
      then show ?thesis using 2 by (simp add: is_open_def)
    next
      case (Suc j')
      have "is_open s i" using 2(3) Suc by force
      moreover have "\<forall>k < j'. is_open s (Suc i + k)" using 2(3) Suc by (metis Suc_mono add_Suc_shift)
      ultimately show ?thesis using Suc.IH(2) [of j' "Suc i"] 2 Suc by (simp add: is_open_def)
    qed
  }
qed simp_all

lemma walk_root:
  assumes "fram s (myfile L) = of_char CHR ''/''" and "fram s (myfile L + 1) = 0" and "myfile L \<noteq> 0"
    and "fp_flags (handles s ! fp) \<noteq> 0xff"
  shows "walk_loop L (myfile L) fp s = Some (Some fp, s)"
  using assms by (simp add: walk_loop.simps [of L "myfile L"] tf_walk_def walk_loop.simps [of L 0])

lemma strncpy_one: "strncpy m d p 1 = m(d := m p)"
  by (simp add: strncpy_def)

text \<open>Opening the root directory takes the first free handle.\<close>

lemma fnopen_root:
  assumes "fram s fname = of_char CHR ''/''" and "myfile L \<noteq> 0" and "length (handles s) = TF_FILE_HANDLES"
    and "i < TF_FILE_HANDLES" and "\<not> is_open s i" and "\<forall>k < i. is_open s k"
  shows "\<exists>t. tf_fnopen L fname ''r'' 1 s = Some (Some i, t) \<and> is_open t i \<and>
    \<not> ctrue (fp_flags (handles t ! i) AND TF_FLAG_DIRTY) \<and> length (handles t) = length (handles s) \<and>
    (\<forall>k. k \<noteq> i \<longrightarrow> handles t ! k = handles s ! k) \<and> filename (handles t ! i) = filename (handles s ! i) \<and>
    (\<forall>x. x \<notin> {myfile L, myfile L + 1, filename (handles s ! i), filename (handles s ! i) + 1} \<longrightarrow> fram t x = fram s x)"
proof -
  have h: "tf_get_free_handle s = (Some i, upd_file i (\<lambda>f. f\<lparr>fp_flags := TF_FLAG_OPEN\<rparr>) s)"
    using free_handle_from_spec(2) [of i TF_FILE_HANDLES s 0] assms by (simp add: tf_get_free_handle_def)
  define s1 where "s1 = upd_file i root_file (upd_fram (\<lambda>m. (strncpy m (myfile L) fname 1)(myfile L + 1 := 0))
    (upd_file i (\<lambda>f. f\<lparr>fp_flags := TF_FLAG_OPEN\<rparr>) s))"
  have i: "i < length (handles s)" using assms by simp
  have s1: "fram s1 = (fram s)(myfile L := of_char CHR ''/'', myfile L + 1 := 0)"
    "fp_flags (handles s1 ! i) = TF_FLAG_OPEN OR TF_FLAG_ROOT" "filename (handles s1 ! i) = filename (handles s ! i)"
    "length (handles s1) = length (handles s)" "\<And>k. k \<noteq> i \<Longrightarrow> handles s1 ! k = handles s ! k"
    using assms(1) i by (simp_all add: s1_def strncpy_one root_file_def fun_upd_def cong: if_cong)
  have "walk_loop L (myfile L) i s1 = Some (Some i, s1)"
    by (rule walk_root) (simp_all add: s1 assms(2) TF_FLAG_OPEN_def TF_FLAG_ROOT_def)
  then have "tf_fnopen L fname ''r'' 1 s = Some (Some i, upd_fram (\<lambda>m. (strncpy m (filename (handles s ! i)) (myfile L) 1)
      (filename (handles s ! i) + 1 := 0)) (upd_file i (\<lambda>f. f\<lparr>fp_mode := fp_mode f OR TF_MODE_READ\<rparr>) s1))"
    using i s1 by (simp add: tf_fnopen_def h s1_def [symmetric] Let_def)
  then show ?thesis
    using i s1 by (auto simp: is_open_def ctrue_def strncpy_one TF_FLAG_OPEN_def TF_FLAG_ROOT_def TF_FLAG_DIRTY_def)
qed

text \<open>C27: \<open>tf_fopen\<close> opens a file that exists twice and returns the second handle only: after the root
  directory has been opened and closed again the first of the two free handles is still in use, so
  that a driver with four handles is out of handles after a few files.\<close>

theorem fopen_leaks_handle:
  assumes "length (handles s) = TF_FILE_HANDLES" and "i < j" and "j < TF_FILE_HANDLES"
    and "\<not> is_open s i" and "\<not> is_open s j" and "\<forall>k < j. k \<noteq> i \<longrightarrow> is_open s k"
    and "fram s root = of_char CHR ''/''" and "fram s (root + 1) = 0" and "myfile L \<noteq> 0"
    and "{root, root + 1} \<inter> {myfile L, myfile L + 1, filename (handles s ! i), filename (handles s ! i) + 1} = {}"
  shows "\<exists>t. Option.bind (tf_fopen L root ''r'' s) (\<lambda>(h, s). Option.bind h (\<lambda>fp. tf_fclose L fp s)) = Some (0, t) \<and>
    is_open t i \<and> \<not> is_open t j"
proof -
  have n: "strlen m root = Some 1" if "m root = of_char CHR ''/''" "m (root + 1) = 0" for m
    using that by (simp add: strlen_def strlen_loop.simps [of m root] strlen_loop.simps [of m "root + 1"])
  obtain s1 where s1: "tf_fnopen L root ''r'' 1 s = Some (Some i, s1)" "is_open s1 i"
      "length (handles s1) = TF_FILE_HANDLES" "\<And>k. k \<noteq> i \<Longrightarrow> handles s1 ! k = handles s ! k"
      "fram s1 root = of_char CHR ''/''" "fram s1 (root + 1) = 0"
    using fnopen_root [of s root L i] assms by auto
  have "\<forall>k < j. is_open s1 k" "\<not> is_open s1 j"
    using assms(2,5,6) s1(2) s1(4) by (simp_all add: is_open_def) metis
  then obtain s2 where s2: "tf_fnopen L root ''r'' 1 s1 = Some (Some j, s2)" "length (handles s2) = TF_FILE_HANDLES"
      "\<not> ctrue (fp_flags (handles s2 ! j) AND TF_FLAG_DIRTY)" "\<And>k. k \<noteq> j \<Longrightarrow> handles s2 ! k = handles s1 ! k"
    using fnopen_root [of s1 root L j] s1 assms(3,9) by auto
  have open2: "tf_fopen L root ''r'' s = Some (Some j, s2)"
    using s1 s2 n [of "fram s"] n [of "fram s1"] assms(7,8) by (simp add: tf_fopen_def)
  have close: "tf_fclose L j s2 = Some (0, tf_release_handle j s2)"
    using s2(3) by (simp add: tf_fclose_def tf_fflush.simps [of L j s2])
  have "is_open (tf_release_handle j s2) i"
    using s1(2) s2(4) assms(2) by (simp add: is_open_def tf_release_handle_def)
  moreover have "(w AND NOT TF_FLAG_OPEN) AND TF_FLAG_OPEN = 0" for w by (rule bit_word_eqI) (auto simp: bit_simps)
  then have "\<not> is_open (tf_release_handle j s2) j"
    using s2(2) assms(3) by (simp add: is_open_def tf_release_handle_def ctrue_def)
  ultimately show ?thesis using open2 close by simp
qed

subsection \<open>Witnesses\<close>

text \<open>A driver with four closed handles whose names are in different places, on a table for clusters of
  one sector, and a frame.\<close>

definition example_file :: "u64 \<Rightarrow> TFFile" where
  "example_file p = \<lparr>parentStartCluster = 0, startCluster = 2, currentClusterIdx = 0, currentCluster = 2,
     fp_currentSector = 0, currentByte = 0, fpos = 0, fp_flags = 0, fp_attributes = 0, fp_mode = 0,
     fp_size = 1000, filename = p\<rparr>"

definition example_fat :: fat where
  "example_fat = \<lparr>tf_type = TF_TYPE_FAT32, sectorsPerCluster = 1, firstDataSector = 100, totalSectors = 70000,
     reservedSectors = 32, currentSector = - 1, sectorFlags = 0, rootDirectorySize = 0, buffer = replicate 512 0,
     sector_reads = 0, sector_writes = 0,
     handles = [example_file 0x1000, example_file 0x2000, example_file 0x3000, example_file 0x4000],
     fram = (\<lambda>_. 0)(0x9000 := of_char CHR ''/'', 0x8000 := 7)\<rparr>"

definition example_frame :: frame where
  "example_frame = \<lparr>walk_entry = 0x5000, compare_entry = 0x5040, reformatted_file = 0x5080, chain_entry = 0x50c0,
     chain_sfn = 0x5100, create_entry = 0x5140, myfile = 0x5200, flush_entry = 0x5300, remove_entry = 0x5340,
     init_entry = 0x5380, root_name = 0x9000\<rparr>"

lemmas example_fat_simps = example_fat_def example_file_def example_frame_def TF_FILE_HANDLES_def is_open_def ctrue_def

theorem fopen_leaks_handle_witness:
  "\<exists>t. Option.bind (tf_fopen example_frame 0x9000 ''r'' example_fat)
      (\<lambda>(h, s). Option.bind h (\<lambda>fp. tf_fclose example_frame fp s)) = Some (0, t) \<and> is_open t 0"
  using fopen_leaks_handle [of example_fat 0 1 "0x9000" example_frame]
  by (auto simp: example_fat_simps)

theorem free_cluster_always_same_witness:
  "\<exists>t. tf_set_fat_entry 100 LAST_CLUSTER example_fat = Some (0, t) \<and> fst (tf_find_free_cluster t) = 100"
proof -
  obtain t where t: "tf_set_fat_entry 100 LAST_CLUSTER example_fat = Some (0, t)"
    by (simp add: tf_set_fat_entry_def buf_set_def cmod_def signed_modulo_int_def signed_divide_int_def
      Let_def case_prod_beta)
  from free_cluster_always_same [OF this] show ?thesis using t by (auto simp: example_fat_simps)
qed

lemma example_eval:
  "handles example_fat ! 0 = example_file 0x1000" "handles example_fat ! Suc 0 = example_file 0x2000"
  "sectorsPerCluster example_fat = 1" "length (handles example_fat) = 4" "length (buffer example_fat) = 512"
  "currentClusterIdx (example_file p) = 0" "fp_size (example_file p) = 1000" "fpos (example_file p) = 0"
  "currentByte (example_file p) = 0" "fram example_fat 0x8000 = 7"
  by (simp_all add: example_fat_def example_file_def)

lemmas cdiv_eval = cdiv_def cmod_def signed_divide_int_def signed_modulo_int_def

theorem fseek_position_witness:
  "\<exists>t. tf_fseek 0 0 300 example_fat = Some (0, t) \<and> unat (currentByte (handles t ! 0)) = 300"
proof -
  obtain t where t: "tf_fseek 0 0 300 example_fat = Some (0, t)"
    by (simp add: tf_fseek_def tf_unsafe_fseek_def go_to_cluster_def example_eval cdiv_eval Let_def)
  from fseek_position [OF this, of 300 512] show ?thesis using t by (auto simp: example_eval)
qed

theorem sector_buffer_shared_witness:
  "\<exists>t u. tf_fwrite 0x8000 1 1 0 example_fat = Some (0, t) \<and> tf_fread 1 0x7000 1 t = Some (0, u) \<and> fram u 0x7000 = 7"
proof -
  obtain t where t: "tf_fwrite 0x8000 1 1 0 example_fat = Some (0, t)" "handles t ! 1 = example_file 0x2000"
      "sectorsPerCluster t = 1" "length (handles t) = 4"
    by (simp add: tf_fwrite_def tf_unsafe_fseek_def go_to_cluster_def buf_set_def example_eval cdiv_eval Let_def)
  moreover obtain u where "tf_fread 1 0x7000 1 t = Some (0, u)"
    using t by (simp add: tf_fseek_def tf_unsafe_fseek_def go_to_cluster_def buf_get_def example_eval cdiv_eval Let_def)
  ultimately show ?thesis
    using sector_buffer_shared [of "0x8000" 0 example_fat t "0x7000" 1 0 u]
    by (auto simp: example_eval cdiv_eval)
qed

end
