(* ===== verification/Fat32Io.thy ===== *)
theory Fat32Io
  imports Fat32
begin

text \<open>
  Reading and writing through the sector buffer of \<open>hostfs/fat32.c\<close>, while it holds the sector of the
  position: what \<open>tf_fwrite\<close> puts into the buffer is what \<open>tf_fread\<close> then takes out of it.  The
  positions stay in one sector and one cluster, so that neither the disk nor the allocation table is used.
\<close>

subsection \<open>Positions inside a cluster\<close>

definition cluster_bytes :: "fat \<Rightarrow> nat" where
  "cluster_bytes s = unat (sectorsPerCluster s) * 512"

text \<open>The handle \<open>fp\<close> is at position \<open>p\<close> of a file of \<open>sz\<close> bytes.\<close>

definition at_pos :: "nat \<Rightarrow> nat \<Rightarrow> nat \<Rightarrow> fat \<Rightarrow> bool" where
  "at_pos fp p sz s \<longleftrightarrow> fp < length (handles s) \<and> length (buffer s) = 512 \<and>
     0 < unat (sectorsPerCluster s) \<and> unat (sectorsPerCluster s) \<le> 64 \<and>
     unat (fpos (handles s ! fp)) = p \<and> unat (currentByte (handles s ! fp)) = p mod cluster_bytes s \<and>
     unat (currentClusterIdx (handles s ! fp)) = p div cluster_bytes s \<and>
     unat (fp_size (handles s ! fp)) = sz \<and> p < sz"

lemma at_pos_bounds:
  assumes "at_pos fp p sz s"
  shows "0 < cluster_bytes s" "cluster_bytes s \<le> 32768" "512 dvd cluster_bytes s" "p < sz" "p mod cluster_bytes s < 32768"
proof -
  show c: "0 < cluster_bytes s" "cluster_bytes s \<le> 32768" "512 dvd cluster_bytes s" "p < sz"
    using assms by (auto simp: at_pos_def cluster_bytes_def)
  show "p mod cluster_bytes s < 32768" using mod_less_divisor [OF c(1), of p] c(2) by simp
qed

lemma sint_small:
  assumes "q < 2 ^ 31"
  shows "sint (of_nat q :: u64) = int q"
proof -
  have "unat (of_nat q :: u64) = q" using assms by (intro unat_of_nat_u64) simp
  then have "uint (of_nat q :: u64) = int q" by (metis uint_nat)
  then show ?thesis using assms by (simp add: sint_uint signed_take_bit_int_eq_self)
qed

lemma unat_of_nat_u32: "n < 2 ^ 32 \<Longrightarrow> unat (of_nat n :: u32) = n"
  by (simp add: unsigned_of_nat take_bit_nat_eq_self)

lemma unat_of_nat_u16: "n < 2 ^ 16 \<Longrightarrow> unat (of_nat n :: u16) = n"
  by (simp add: unsigned_of_nat take_bit_nat_eq_self)

lemma unsafe_fseek_in_cluster:
  assumes "at_pos fp p sz s" and "q \<le> sz" and "q div cluster_bytes s = p div cluster_bytes s" and "sz < 2 ^ 31"
  shows "\<exists>t. tf_unsafe_fseek fp 0 (of_nat q) s = Some (0, t) \<and> at_pos fp q (if q = sz then sz + 1 else sz) t \<and>
    buffer t = buffer s \<and> fram t = fram s \<and> cluster_bytes t = cluster_bytes s"
proof -
  let ?cl = "cluster_bytes s" and ?s0 = "if q = sz then grow_file fp s else s"
  let ?t = "upd_file fp (\<lambda>f. f\<lparr>currentByte := cmod (of_nat q :: u64) (int ?cl), fpos := ucast (of_nat q :: u64)\<rparr>) ?s0"
  note b = at_pos_bounds [OF assms(1)]
  have fp: "fp < length (handles s)" "sectorsPerCluster s \<noteq> 0" "uint (sectorsPerCluster s) * 512 = int ?cl"
      "uint (fp_size (handles s ! fp)) = int sz"
    using assms(1) by (auto simp: at_pos_def cluster_bytes_def)
  have q: "sint (of_nat q :: u64) = int q" "q < 2 ^ 31" using sint_small assms(2,4) by auto
  have s0: "sectorsPerCluster ?s0 = sectorsPerCluster s"
      "currentClusterIdx (handles ?s0 ! fp) = currentClusterIdx (handles s ! fp)"
    using fp(1) by (auto simp: grow_file_def)
  have "q div ?cl < 2 ^ 32" by (rule le_less_trans [OF div_le_dividend]) (use q(2) in simp)
  moreover have "q mod ?cl < 2 ^ 16" using mod_less_divisor [OF b(1), of q] b(2) by simp
  ultimately have num: "unat (of_nat (q div ?cl) :: u32) = q div ?cl" "unat (of_nat (q mod ?cl) :: u16) = q mod ?cl"
    using unat_of_nat_u32 unat_of_nat_u16 by blast+
  have "unat (cdiv (of_nat q :: u64) (int ?cl) :: u32) = q div ?cl"
    using q(1) b(1) num(1) by (simp add: cdiv_nat)
  then have idx: "cdiv (of_nat q :: u64) (int ?cl) = currentClusterIdx (handles s ! fp)"
    using assms(1,3) by (simp add: word_unat_eq_iff at_pos_def)
  have "tf_unsafe_fseek fp 0 (of_nat q) s = Some (0, ?t)"
    using assms(2) by (simp add: tf_unsafe_fseek_def q(1) fp(4) s0 fp(2,3) go_to_cluster_def idx Let_def)
  moreover have "unat (cmod (of_nat q :: u64) (int ?cl) :: u16) = q mod ?cl"
    using q(1) b(1) num(2) by (simp add: cmod_nat)
  moreover have "unat (ucast (of_nat q :: u64) :: u32) = q"
    using q(2) by (simp add: unsigned_ucast_eq unsigned_of_nat take_bit_nat_eq_self)
  moreover have "unat (fp_size (handles s ! fp) + 1) = sz + 1"
    using assms(1,4) by (simp add: at_pos_def unat_plus_if')
  ultimately show ?thesis
    using assms(1-3) s0 fp(1) by (intro exI [of _ ?t]) (auto simp: at_pos_def grow_file_def cluster_bytes_def)
qed

text \<open>The position in the sector buffer, and the argument of the seek to the next byte.\<close>

lemma buf_index:
  assumes "at_pos fp p sz s"
  shows "(cmod (currentByte (handles s ! fp)) 512 :: u32) = of_nat (p mod 512)"
proof -
  have u: "unat (currentByte (handles s ! fp)) = p mod cluster_bytes s" using assms by (simp add: at_pos_def)
  have "p mod cluster_bytes s < 32768" by (rule at_pos_bounds(5) [OF assms])
  moreover have "uint (currentByte (handles s ! fp)) = int (p mod cluster_bytes s)" using u by (metis uint_nat)
  ultimately have "sint (currentByte (handles s ! fp)) = int (p mod cluster_bytes s)"
    by (simp add: sint_uint signed_take_bit_int_eq_self)
  moreover have "p mod cluster_bytes s mod 512 = p mod 512"
    using at_pos_bounds(3) [OF assms] by (simp add: mod_mod_cancel)
  ultimately show ?thesis using cmod_nat [of "currentByte (handles s ! fp)" 512, where 'b = 32] by simp
qed

lemma next_offset:
  assumes "at_pos fp p sz s" and "p + 1 < 2 ^ 32"
  shows "(ucast (fpos (handles s ! fp) + 1) :: u64) = of_nat (p + 1)"
proof -
  have "unat (fpos (handles s ! fp) + 1) = p + 1" using assms by (simp add: at_pos_def unat_plus_if')
  then show ?thesis by (metis of_nat_unat)
qed

lemma at_pos_cong:
  "handles t = handles s \<Longrightarrow> length (buffer t) = length (buffer s) \<Longrightarrow> sectorsPerCluster t = sectorsPerCluster s \<Longrightarrow>
    at_pos fp p sz t = at_pos fp p sz s"
  by (simp add: at_pos_def cluster_bytes_def)

lemma at_pos_fetch [simp]: "at_pos fp p sz (fetch_current fp s) = at_pos fp p sz s"
  by (rule at_pos_cong) simp_all

subsection \<open>Runs of bytes\<close>

text \<open>\<open>n\<close> bytes from position \<open>p\<close> stay in one sector, and the position after them in one cluster.\<close>

definition in_sector :: "nat \<Rightarrow> nat \<Rightarrow> fat \<Rightarrow> bool" where
  "in_sector p n s \<longleftrightarrow> p mod 512 + n \<le> 512 \<and> (p + n) div cluster_bytes s = p div cluster_bytes s"

lemma in_sector_Suc:
  assumes "in_sector p (Suc n) s" and "cluster_bytes t = cluster_bytes s"
  shows "in_sector (p + 1) n t" and "(p + 1) div cluster_bytes s = p div cluster_bytes s"
    and "0 < n \<Longrightarrow> (p + 1) mod 512 = Suc (p mod 512)"
proof -
  have "p div cluster_bytes s \<le> (p + 1) div cluster_bytes s" by (rule div_le_mono) simp
  moreover have "(p + 1) div cluster_bytes s \<le> (p + Suc n) div cluster_bytes s" by (rule div_le_mono) simp
  then have "(p + 1) div cluster_bytes s \<le> p div cluster_bytes s" using assms(1) by (simp add: in_sector_def)
  ultimately show d: "(p + 1) div cluster_bytes s = p div cluster_bytes s" by (simp only: le_antisym)
  show m: "0 < n \<Longrightarrow> (p + 1) mod 512 = Suc (p mod 512)" using assms(1) by (simp add: in_sector_def mod_Suc)
  have "(p + 1) mod 512 + n \<le> 512"
  proof (cases "n = 0")
    case True
    then show ?thesis using mod_less_divisor [of 512 "p + 1"] by simp
  next
    case False
    then show ?thesis using m assms(1) by (simp add: in_sector_def)
  qed
  then show "in_sector (p + 1) n t" using assms d by (simp add: in_sector_def)
qed

lemma fwrite_byte:
  assumes "at_pos fp p sz s" and "in_sector p (Suc n) s" and "sz < 2 ^ 31"
  obtains t where "fwrite_bytes (Suc n) src fp s = fwrite_bytes n (src + 1) fp t"
    and "at_pos fp (p + 1) (max sz (p + 2)) t" and "buffer t = (buffer s)[p mod 512 := fram s src]"
    and "fram t = fram s" and "cluster_bytes t = cluster_bytes s"
proof -
  let ?s = "(fetch_current fp s)\<lparr>buffer := (buffer s)[p mod 512 := fram s src],
    sectorFlags := sectorFlags (fetch_current fp s) OR TF_FLAG_DIRTY\<rparr>"
  have a: "at_pos fp p sz ?s" using assms(1) at_pos_cong [of ?s s] by simp
  have c: "cluster_bytes ?s = cluster_bytes s" by (simp add: cluster_bytes_def)
  have le: "p + 1 \<le> sz" using at_pos_bounds(4) [OF assms(1)] by simp
  obtain t where t: "tf_unsafe_fseek fp 0 (of_nat (p + 1)) ?s = Some (0, t)"
      "at_pos fp (p + 1) (if p + 1 = sz then sz + 1 else sz) t" "buffer t = (buffer s)[p mod 512 := fram s src]"
      "fram t = fram s" "cluster_bytes t = cluster_bytes s"
    using unsafe_fseek_in_cluster [OF a le _ assms(3)] in_sector_Suc(2) [OF assms(2) refl] c by auto
  have "sint (of_nat (p mod 512) :: u32) = int (p mod 512)"
    using mod_less_divisor [of 512 p] by (simp add: sint_uint unsigned_of_nat take_bit_nat_eq_self signed_take_bit_int_eq_self)
  then have "buf_set (of_nat (p mod 512)) (fram s src) (fetch_current fp s) =
      Some ((fetch_current fp s)\<lparr>buffer := (buffer s)[p mod 512 := fram s src]\<rparr>)"
    using mod_less_divisor [of 512 p] by (simp add: buf_set_def)
  then have "fwrite_bytes (Suc n) src fp s = fwrite_bytes n (src + 1) fp t"
    using t(1) next_offset [OF assms(1)] le assms(3) by (simp add: buf_index [OF assms(1)] Let_def)
  moreover have "(if p + 1 = sz then sz + 1 else sz) = max sz (p + 2)" using le by auto
  ultimately show ?thesis using that t(2-5) by simp
qed

lemma fwrite_run:
  assumes "at_pos fp p sz s" and "in_sector p n s" and "max sz (p + n + 1) < 2 ^ 31"
  shows "\<exists>t. fwrite_bytes n src fp s = Some (0, t) \<and> at_pos fp (p + n) (max sz (p + n + 1)) t \<and>
    (\<forall>i < n. buffer t ! (p mod 512 + i) = fram s (src + of_nat i)) \<and>
    (\<forall>j < 512. j < p mod 512 \<or> p mod 512 + n \<le> j \<longrightarrow> buffer t ! j = buffer s ! j) \<and>
    fram t = fram s \<and> cluster_bytes t = cluster_bytes s"
  using assms
proof (induction n arbitrary: p sz s src)
  case 0
  have "max sz (p + 0 + 1) = sz" using at_pos_bounds(4) [OF 0(1)] by simp
  then show ?case using 0(1) by (simp only: fwrite_bytes.simps) simp
next
  case (Suc n)
  have "sz < 2 ^ 31" using Suc.prems(3) by simp
  then obtain u where u: "fwrite_bytes (Suc n) src fp s = fwrite_bytes n (src + 1) fp u"
      "at_pos fp (p + 1) (max sz (p + 2)) u" "buffer u = (buffer s)[p mod 512 := fram s src]"
      "fram u = fram s" "cluster_bytes u = cluster_bytes s"
    using fwrite_byte [OF Suc.prems(1,2)] by metis
  have m: "max (max sz (p + 2)) (p + 1 + n + 1) = max sz (p + Suc n + 1)" by simp
  obtain t where t: "fwrite_bytes n (src + 1) fp u = Some (0, t)" "at_pos fp (p + 1 + n) (max sz (p + Suc n + 1)) t"
      "\<forall>i < n. buffer t ! ((p + 1) mod 512 + i) = fram u (src + 1 + of_nat i)"
      "\<forall>j < 512. j < (p + 1) mod 512 \<or> (p + 1) mod 512 + n \<le> j \<longrightarrow> buffer t ! j = buffer u ! j"
      "fram t = fram u" "cluster_bytes t = cluster_bytes u"
    using Suc.IH [OF u(2) in_sector_Suc(1) [OF Suc.prems(2) u(5)], of "src + 1"] Suc.prems(3) unfolding m by blast
  have p: "p mod 512 < 512" "length (buffer s) = 512" using Suc.prems(1) by (simp_all add: at_pos_def)
  have same: "buffer t ! j = buffer u ! j" if "j < 512" "j < Suc (p mod 512) \<or> p mod 512 + Suc n \<le> j" for j
  proof (cases "n = 0")
    case True
    then show ?thesis using t(1) by simp
  next
    case False
    then show ?thesis using t(4) [rule_format, OF that(1)] that(2) in_sector_Suc(3) [OF Suc.prems(2) refl] by auto
  qed
  have "buffer t ! (p mod 512 + i) = fram s (src + of_nat i)" if "i < Suc n" for i
  proof (cases i)
    case 0
    then show ?thesis using same [of "p mod 512"] u(3) p by simp
  next
    case (Suc k)
    then have "0 < n" "k < n" using that by simp_all
    then show ?thesis
      using t(3) in_sector_Suc(3) [OF Suc.prems(2) refl] u(4) Suc by (simp add: add.assoc add.commute [of 1])
  qed
  moreover have "\<forall>j < 512. j < p mod 512 \<or> p mod 512 + Suc n \<le> j \<longrightarrow> buffer t ! j = buffer s ! j"
    using same u(3) by auto
  ultimately show ?case using u(1,4,5) t(1,2,5,6) by simp
qed

lemma fread_run:
  assumes "at_pos fp p sz s" and "in_sector p n s" and "p + n < sz" and "sz < 2 ^ 31"
  shows "\<exists>t. tf_fread n dest fp s = Some (0, t) \<and> at_pos fp (p + n) sz t \<and>
    (\<forall>i < n. fram t (dest + of_nat i) = buffer s ! (p mod 512 + i)) \<and>
    (\<forall>x. \<not> in_range dest n x \<longrightarrow> fram t x = fram s x) \<and> buffer t = buffer s"
  using assms
proof (induction n arbitrary: p s dest)
  case (Suc n)
  let ?i = "of_nat (p mod 512) :: u32" and ?b = "buffer s ! (p mod 512)"
  let ?s = "upd_fram (\<lambda>m. m(dest := ?b)) (fetch_current fp s)"
  have a: "at_pos fp p sz ?s" using Suc.prems(1) at_pos_cong [of ?s s] by simp
  have c: "cluster_bytes ?s = cluster_bytes s" by (simp add: cluster_bytes_def)
  have le: "p + 1 \<le> sz" "p + 1 \<noteq> sz" using Suc.prems(3) by simp_all
  obtain u where u: "tf_unsafe_fseek fp 0 (of_nat (p + 1)) ?s = Some (0, u)" "at_pos fp (p + 1) sz u"
      "buffer u = buffer s" "fram u = fram ?s" "cluster_bytes u = cluster_bytes s"
    using unsafe_fseek_in_cluster [OF a le(1) _ Suc.prems(4)] in_sector_Suc(2) [OF Suc.prems(2) refl] c le(2) by auto
  have ram: "fram u = (fram s)(dest := ?b)" using u(4) by (simp add: fun_eq_iff)
  have "sint ?i = int (p mod 512)"
    using mod_less_divisor [of 512 p] by (simp add: sint_uint unsigned_of_nat take_bit_nat_eq_self signed_take_bit_int_eq_self)
  then have get: "buf_get (fetch_current fp s) ?i = Some ?b" using mod_less_divisor [of 512 p] by (simp add: buf_get_def)
  have size: "uint (fp_size (handles s ! fp)) = int sz"
    using Suc.prems(1) unfolding at_pos_def by (metis uint_nat)
  have "sint (of_nat (p + 1) :: u64) = int (p + 1)" by (rule sint_small) (use le Suc.prems(4) in simp)
  then have seek: "tf_fseek fp 0 (of_nat (p + 1)) ?s = Some (0, u)"
    using u(1) Suc.prems(3) by (simp add: tf_fseek_def size Let_def)
  have "tf_fread (Suc n) dest fp s = tf_fread n (dest + 1) fp u"
    using seek next_offset [OF Suc.prems(1)] le Suc.prems(4) get by (simp add: buf_index [OF Suc.prems(1)] Let_def)
  moreover obtain t where t: "tf_fread n (dest + 1) fp u = Some (0, t)" "at_pos fp (p + 1 + n) sz t"
      "\<forall>i < n. fram t (dest + 1 + of_nat i) = buffer u ! ((p + 1) mod 512 + i)"
      "\<forall>x. \<not> in_range (dest + 1) n x \<longrightarrow> fram t x = fram u x" "buffer t = buffer u"
    using Suc.IH [OF u(2) in_sector_Suc(1) [OF Suc.prems(2) u(5)], of "dest + 1"] Suc.prems(3,4) by auto
  moreover have n: "n < 2 ^ 64 - 1" using Suc.prems(3,4) by simp
  have "fram t (dest + of_nat i) = buffer s ! (p mod 512 + i)" if "i < Suc n" for i
  proof (cases i)
    case 0
    have "\<not> in_range (dest + 1) n dest" using n by (simp add: in_range_def unsigned_minus_1_eq_mask mask_eq_exp_minus_1)
    then show ?thesis using 0 t(4) ram by simp
  next
    case (Suc k)
    then have "0 < n" "k < n" using that by simp_all
    then show ?thesis
      using t(3) in_sector_Suc(3) [OF Suc.prems(2) refl] u(3) Suc by (simp add: add.assoc add.commute [of 1])
  qed
  moreover have "fram t x = fram s x" if "\<not> in_range dest (Suc n) x" for x
  proof -
    have "\<not> in_range (dest + 1) n x" "x \<noteq> dest"
      using that in_range_offset [of 1 n dest x] n by (auto simp: in_range_def)
    then show ?thesis using t(4) ram by simp
  qed
  ultimately show ?case using u(3) by simp
qed simp

subsection \<open>Properties\<close>

text \<open>C28: what is written to a file is read back: \<open>n\<close> bytes from \<open>src\<close>, written at a position inside the file,
  are what \<open>tf_fread\<close> finds after a seek back to this position, as long as they lie in one
  sector and the next byte in the same cluster.  The file grows only when the end is reached, by one
  byte more than was written; no other byte of memory changes.\<close>

theorem fwrite_fread:
  assumes "at_pos fp p sz s" and "in_sector p n s" and "max sz (p + n + 1) < 2 ^ 31"
  shows "\<exists>t u v. tf_fwrite src n 1 fp s = Some (0, t) \<and> tf_fseek fp 0 (of_nat p) t = Some (0, u) \<and>
    tf_fread n dest fp u = Some (0, v) \<and> at_pos fp (p + n) (max sz (p + n + 1)) v \<and>
    (\<forall>i < n. fram v (dest + of_nat i) = fram s (src + of_nat i)) \<and>
    (\<forall>x. \<not> in_range dest n x \<longrightarrow> fram v x = fram s x)"
proof -
  let ?s = "upd_file fp (\<lambda>f. f\<lparr>fp_flags := fp_flags f OR TF_FLAG_DIRTY\<rparr>) s" and ?sz = "max sz (p + n + 1)"
  have a: "at_pos fp p sz ?s" using assms(1) by (auto simp: at_pos_def cluster_bytes_def)
  have c: "cluster_bytes ?s = cluster_bytes s" by (simp add: cluster_bytes_def)
  have "in_sector p n ?s" using assms(2) c by (simp add: in_sector_def)
  then obtain t where t: "fwrite_bytes n src fp ?s = Some (0, t)" "at_pos fp (p + n) ?sz t"
      "\<forall>i < n. buffer t ! (p mod 512 + i) = fram s (src + of_nat i)" "fram t = fram s" "cluster_bytes t = cluster_bytes s"
    using fwrite_run [OF a _ assms(3), of src] c by auto
  have w: "tf_fwrite src n 1 fp s = Some (0, t)" using t(1) by (simp add: tf_fwrite_def)
  have p: "p \<le> ?sz" "p \<noteq> ?sz" "p div cluster_bytes t = (p + n) div cluster_bytes t"
    using assms(2) t(5) by (simp_all add: in_sector_def)
  obtain u where u: "tf_unsafe_fseek fp 0 (of_nat p) t = Some (0, u)" "at_pos fp p ?sz u" "buffer u = buffer t"
      "fram u = fram t" "cluster_bytes u = cluster_bytes t"
    using unsafe_fseek_in_cluster [OF t(2) p(1,3) assms(3)] p(2) by auto
  have "uint (fp_size (handles t ! fp)) = int ?sz" using t(2) unfolding at_pos_def by (metis uint_nat)
  moreover have "sint (of_nat p :: u64) = int p" by (rule sint_small) (use assms(3) in simp)
  ultimately have k: "tf_fseek fp 0 (of_nat p) t = Some (0, u)" using u(1) by (simp add: tf_fseek_def Let_def)
  have "in_sector p n u" using assms(2) u(5) t(5) by (simp add: in_sector_def)
  moreover have "p + n < ?sz" by simp
  ultimately obtain v where "tf_fread n dest fp u = Some (0, v)" "at_pos fp (p + n) ?sz v"
      "\<forall>i < n. fram v (dest + of_nat i) = buffer u ! (p mod 512 + i)" "\<forall>x. \<not> in_range dest n x \<longrightarrow> fram v x = fram u x"
    using fread_run [OF u(2) _ _ assms(3), of n dest] by blast
  then show ?thesis using w k t(3,4) u(3,4) by auto
qed

theorem fwrite_fread_witness:
  "\<exists>t u v. tf_fwrite 0x8000 5 1 0 example_fat = Some (0, t) \<and> tf_fseek 0 0 0 t = Some (0, u) \<and>
    tf_fread 5 0x9000 0 u = Some (0, v) \<and> fram v 0x9000 = fram example_fat 0x8000"
proof -
  have a: "at_pos 0 0 (unat (fp_size (handles example_fat ! 0))) example_fat" "in_sector 0 5 example_fat"
    by (simp_all add: at_pos_def in_sector_def cluster_bytes_def example_eval)
  show ?thesis
    using fwrite_fread [OF a, of "0x8000" "0x9000"] by (fastforce simp: example_eval dest: spec [where x = 0])
qed

end
