(* ===== verification/Fat32Ui.thy ===== *)
theory Fat32Ui
  imports Fat32 Printf
begin

text \<open>
  \<open>hostfs/fat32_ui.c\<close>: printing the structures of the file system.  A function is the list of its
  calls of \<open>printf\<close>, with the values they pass; the structures are in memory, at the offsets the
  compiler gives their fields, or records of the driver.  As \<open>printf\<close> returns at once nothing is
  printed; the theorem says what its formatter would do with the calls.
\<close>

subsection \<open>Structures in memory\<close>

definition byte_at :: "mem \<Rightarrow> u64 \<Rightarrow> out_arg" where "byte_at m p = ArgX (ucast (m p))"
definition short_at :: "mem \<Rightarrow> u64 \<Rightarrow> out_arg" where "short_at m p = ArgX (ucast (load16 m p))"
definition int_at :: "mem \<Rightarrow> u64 \<Rightarrow> out_arg" where "int_at m p = ArgX (ucast (load32 m p))"

text \<open>Fields of \<open>BPB_struct\<close> and of the part for FAT32 at its end that the driver does not use.\<close>

definition BPB_BS_OEMName :: u64 where "BPB_BS_OEMName = 3"
definition BPB_Media :: u64 where "BPB_Media = 24"
definition BPB_SectorsPerTrack :: u64 where "BPB_SectorsPerTrack = 28"
definition BPB_NumberOfHeads :: u64 where "BPB_NumberOfHeads = 30"
definition BPB_HiddenSectors :: u64 where "BPB_HiddenSectors = 32"
definition BPB32_ExtFlags :: u64 where "BPB32_ExtFlags = 44"
definition BPB32_FSVersion :: u64 where "BPB32_FSVersion = 46"
definition BPB32_RootCluster :: u64 where "BPB32_RootCluster = 48"
definition BPB32_FSInfo :: u64 where "BPB32_FSInfo = 52"
definition BPB32_BkBootSec :: u64 where "BPB32_BkBootSec = 54"
definition BPB32_Reserved :: u64 where "BPB32_Reserved = 56"
definition BPB32_BS_DriveNumber :: u64 where "BPB32_BS_DriveNumber = 68"
definition BPB32_BS_BootSig :: u64 where "BPB32_BS_BootSig = 70"
definition BPB32_BS_VolumeID :: u64 where "BPB32_BS_VolumeID = 72"
definition BPB32_BS_VolumeLabel :: u64 where "BPB32_BS_VolumeLabel = 76"
definition BPB32_BS_FileSystemType :: u64 where "BPB32_BS_FileSystemType = 87"

subsection \<open>The boot sector\<close>

definition TYPE_FAT12 :: nat where "TYPE_FAT12 = 0"
definition TYPE_FAT16 :: nat where "TYPE_FAT16 = 1"
definition TYPE_FAT32 :: nat where "TYPE_FAT32 = 2"

definition fat_type :: "u64 \<Rightarrow> nat" where "fat_type s = TYPE_FAT32"

definition print_media :: "u8 \<Rightarrow> out_call list" where
  "print_media mediatype =
     [if mediatype = 0xf0 then (''Generic media type (0xf0)'', [])
      else if mediatype = 0xf8 then (''Hard disk (0xf8)'', [])
      else if mediatype = 0xf9 then (''3.5'' @ [CHR 0x22] @ '' double sided 720k or 5.25 double sided 1.2MB (0xf9)'', [])
      else if mediatype = 0xfa then (''5.25'' @ [CHR 0x22] @ '' single sided 320k (0xfa)'', [])
      else if mediatype = 0xfb then (''3.5'' @ [CHR 0x22] @ '' double sided 640k (0xfb)'', [])
      else if mediatype = 0xfc then (''5.25'' @ [CHR 0x22] @ '' single sided 180k (0xfc)'', [])
      else if mediatype = 0xfd then (''5.25'' @ [CHR 0x22] @ '' double sided 360k (0xfd)'', [])
      else if mediatype = 0xfe then (''5.25'' @ [CHR 0x22] @ '' single sided 180k (0xfe)'', [])
      else if mediatype = 0xff then (''5.25'' @ [CHR 0x22] @ '' double sided 320k (0xff)'', [])
      else (''Unknown (0x%02x)'', [ArgX (ucast mediatype)])]"

definition print_common :: "mem \<Rightarrow> u64 \<Rightarrow> out_call list" where
  "print_common m s =
     [(line ''==== BIOS PARAMETER BLOCK ===='', []),
      (line ''   Boot Instruction: 0x%02x%02x%02x'', [byte_at m s, byte_at m (s + 1), byte_at m (s + 2)]),
      (line (''           OEM Name: '' @ [CHR 0x27] @ ''%8s'' @ [CHR 0x27]), [ArgP (s + BPB_BS_OEMName)]),
      (line ''   Bytes per Sector: %d'', [short_at m (s + of_nat BPB_BytesPerSector)]),
      (line ''Sectors per Cluster: %d'', [byte_at m (s + of_nat BPB_SectorsPerCluster)]),
      (line ''   Reserved Sectors: %d'', [short_at m (s + of_nat BPB_ReservedSectorCount)]),
      (line ''               FATS: %d'', [byte_at m (s + of_nat BPB_NumFATs)]),
      (line ''       Root Entries: %d'', [short_at m (s + of_nat BPB_RootEntryCount)]),
      (''              Media: '', [])] @
     print_media (m (s + BPB_Media)) @
     [(line '''', []),
      (line ''     Fat Size (16b): %d'', [short_at m (s + of_nat BPB_FATSize16)]),
      (line ''  Sectors per Track: %d'', [short_at m (s + BPB_SectorsPerTrack)]),
      (line ''    Number of Heads: %d'', [short_at m (s + BPB_NumberOfHeads)]),
      (line ''     Hidden Sectors: %d'', [int_at m (s + BPB_HiddenSectors)]),
      (line ''Total Sectors (16b): %d'', [short_at m (s + of_nat BPB_TotalSectors16)]),
      (line ''Total Sectors (32b): %d'', [int_at m (s + of_nat BPB_TotalSectors32)])]"

definition print_fat32_part :: "mem \<Rightarrow> u64 \<Rightarrow> out_call list" where
  "print_fat32_part m s =
     [(line ''     FAT Size (32b): %d'', [int_at m (s + of_nat BPB_FATSize32)]),
      (line ''          FAT Flags: 0x%04x'', [short_at m (s + BPB32_ExtFlags)]),
      (line ''         FS Version: 0x%04x'', [short_at m (s + BPB32_FSVersion)]),
      (line ''       Root Cluster: %d'', [int_at m (s + BPB32_RootCluster)]),
      (line ''      FSINFO Sector: %d'', [short_at m (s + BPB32_FSInfo)]),
      (line ''Bkup BootRec Sector: %d'', [short_at m (s + BPB32_BkBootSec)]),
      if \<exists>i \<in> set [0..<12]. m (s + BPB32_Reserved + of_nat i) \<noteq> 0
      then (line ''      Reserved Area: NONZERO!'', []) else (line ''      Reserved Area: Ok'', []),
      (line ''       Drive Number: %d'', [byte_at m (s + BPB32_BS_DriveNumber)]),
      (line ''     Boot Signature: 0x%02x'', [byte_at m (s + BPB32_BS_BootSig)]),
      (line ''          Volume ID: 0x%04x'', [int_at m (s + BPB32_BS_VolumeID)]),
      (line (''       Volume Label: '' @ [CHR 0x27] @ ''%.*s'' @ [CHR 0x27]), [ArgX 11, ArgP (s + BPB32_BS_VolumeLabel)]),
      (line (''     FileSystemType: '' @ [CHR 0x27] @ ''%.*s'' @ [CHR 0x27]), [ArgX 8, ArgP (s + BPB32_BS_FileSystemType)])]"

text \<open>The branch of \<open>printBPB\<close> for FAT12 and FAT16, which \<open>fat_type\<close> never selects, has the fields of \<open>BPB1216_struct\<close>.\<close>

definition print_fat16_part :: "mem \<Rightarrow> u64 \<Rightarrow> out_call list" where
  "print_fat16_part m s =
     [(line ''       Drive Number: %d'', [byte_at m (s + 40)]),
      (line ''     Boot Signature: 0x%02x'', [byte_at m (s + 42)]),
      (line ''          Volume ID: 0x%04x'', [int_at m (s + 44)]),
      (line (''       Volume Label: '' @ [CHR 0x27] @ ''%.*s'' @ [CHR 0x27]), [ArgX 11, ArgP (s + 48)]),
      (line (''     FileSystemType: '' @ [CHR 0x27] @ ''%.*s'' @ [CHR 0x27]), [ArgX 8, ArgP (s + 59)])]"

definition printBPB :: "mem \<Rightarrow> u64 \<Rightarrow> out_call list" where
  "printBPB m s =
     print_common m s @
     [if fat_type s = TYPE_FAT12 then (line ''           FAT Type: FAT12'', [])
      else if fat_type s = TYPE_FAT16 then (line ''           FAT Type: FAT16'', [])
      else if fat_type s = TYPE_FAT32 then (line ''           FAT Type: FAT32'', [])
      else (line ''FAT TYPE UNRECOGNIZED!'', [])] @
     (if fat_type s = TYPE_FAT12 \<or> fat_type s = TYPE_FAT16 then print_fat16_part m s
      else print_fat32_part m s) @
     [(line '''', [])]"

subsection \<open>Sectors, the driver and its files\<close>

definition sector_format :: string where
  "sector_format = line '' %02x%02x%02x%02x %02x%02x%02x%02x        %c%c%c%c %c%c%c%c''"

definition print_sector :: "mem \<Rightarrow> u64 \<Rightarrow> out_call list" where
  "print_sector m sector =
     map (\<lambda>k. let bs = map (\<lambda>i. byte_at m (sector + of_nat (8 * k + i))) [0..<8] in (sector_format, bs @ bs))
       [0..<63]"

definition print_tf_info :: "fat \<Rightarrow> out_call list" where
  "print_tf_info t =
     [(line ''    TFInfo Structure'' @ line ''    ----------------'', []),
      if tf_type t = 0 then (line ''               Type: FAT16'', [])
      else if tf_type t = TF_TYPE_FAT32 then (line ''               Type: FAT32'', [])
      else (line ''               Type: UNRECOGNIZED! (0x%02x)'', [ArgX (ucast (tf_type t))]),
      (line ''Sectors Per Cluster: %d'', [ArgX (ucast (sectorsPerCluster t))]),
      (line ''      Total Sectors: %d'', [ArgX (ucast (totalSectors t))]),
      (line ''   Reserved Sectors: %d'', [ArgX (ucast (reservedSectors t))]),
      (line ''  First Data Sector: %d'', [ArgX (ucast (firstDataSector t))])]"

definition print_TFFile :: "TFFile \<Rightarrow> out_call list" where
  "print_TFFile fp =
     [(line ''     TFFile Structure'' @ line ''    ----------------'', []),
      (line ''    currentCluster: %d'', [ArgX (scast (currentCluster fp))]),
      (line '' currentClusterIdx: %d'', [ArgX (scast (currentClusterIdx fp))]),
      (line ''parentStartCluster: %d'', [ArgX (scast (parentStartCluster fp))]),
      (line ''      startCluster: %d'', [ArgX (scast (startCluster fp))]),
      (line ''     currentSector: %d'', [ArgX (scast (fp_currentSector fp))]),
      (line ''       currentByte: %d'', [ArgX (scast (currentByte fp))]),
      (line ''               pos: %d'', [ArgX (ucast (fpos fp))]),
      (line ''             flags: 0x%02x'', [ArgX (ucast (fp_flags fp))]),
      (line ''              size: %d bytes'', [ArgX (ucast (fp_size fp))])]"

definition print_FatFile83 :: "mem \<Rightarrow> u64 \<Rightarrow> out_call list" where
  "print_FatFile83 m entry =
     (let date = ucast (load16 m (entry + MSDOS_creationDate)) :: u32
      in [(line ''         Type: 8.3 Filename'', []),
          (line ''     Filename: %.*s'', [ArgX 8, ArgP entry]),
          (line ''    Extension: %.*s'', [ArgX 3, ArgP (entry + 8)]),
          (line ''   Attributes: 0x%02x'', [byte_at m (entry + MSDOS_attributes)]),
          (line ''First Cluster: %d'',
           [ArgX (scast (push_bit 16 (ucast (load16 m (entry + MSDOS_eaIndex)) AND 0xffff)
                    OR (ucast (load16 m (entry + MSDOS_firstCluster)) AND 0xffff) :: u32))]),
          (line ''Creation Time: %d/%d/%d'',
           [ArgX (ucast (drop_bit 9 (date AND 0xfe00) + 1980)), ArgX (ucast (drop_bit 5 (date AND 0x1e0))),
            ArgX (ucast ((date AND 0xf) * 2))])])"

definition print_FatFileLFN :: "mem \<Rightarrow> u64 \<Rightarrow> out_call list" where
  "print_FatFileLFN m entry = [(line ''         Type: Long Filename (LFN)'', [])]"

definition print_FatFileEntry :: "mem \<Rightarrow> u64 \<Rightarrow> out_call list" where
  "print_FatFileEntry m entry =
     [(line ''    FatFile Structure'' @ line ''    ---------------'', [])] @
     (if m (entry + MSDOS_attributes) = 0x0f then print_FatFileLFN m entry else print_FatFile83 m entry)"

subsection \<open>Properties\<close>

definition plain_or_refused :: "out_call \<Rightarrow> bool" where
  "plain_or_refused c \<longleftrightarrow> CHR ''%'' \<notin> set (fst c) \<and> snd c = [] \<or> refused (fst c)"

lemmas ui_calls = print_common_def print_media_def print_fat32_part_def printBPB_def print_tf_info_def
  print_TFFile_def print_FatFileEntry_def print_FatFileLFN_def print_FatFile83_def sector_format_def

lemma ui_plain_or_refused:
  "list_all plain_or_refused (print_media b)"
  "list_all plain_or_refused (print_common m p)"
  "list_all plain_or_refused (print_fat32_part m p)"
  "list_all plain_or_refused (print_tf_info t)"
  "list_all plain_or_refused (print_TFFile fp)"
  "list_all plain_or_refused (print_FatFile83 m p)"
  by (simp_all add: ui_calls plain_or_refused_def INT_MAX_def refused_def line_def Let_def)

lemma sector_plain_or_refused: "list_all plain_or_refused (print_sector m p)"
  by (simp add: print_sector_def sector_format_def plain_or_refused_def refused_def INT_MAX_def line_def Let_def list_all_iff)

lemma entry_plain_or_refused: "list_all plain_or_refused (print_FatFileEntry m p)"
  using ui_plain_or_refused(6) [of m p]
  by (simp add: print_FatFileEntry_def print_FatFileLFN_def plain_or_refused_def line_def)

lemma bpb_plain_or_refused: "list_all plain_or_refused (printBPB m p)"
  using ui_plain_or_refused(2,3) [of m p]
  by (simp add: printBPB_def fat_type_def TYPE_FAT12_def TYPE_FAT16_def TYPE_FAT32_def plain_or_refused_def line_def)

lemma plain_or_refused_outf:
  "plain_or_refused (f, args) \<Longrightarrow> args \<noteq> [] \<Longrightarrow> outf m buf port f args = Some (fatal_failure ''vsnprintf'')"
  by (auto simp: plain_or_refused_def intro: outf_bad refused_bad)

text \<open>Nothing of this part can be printed by the formatter of the monitor: every call that passes a
  value, in every function, has a first directive that \<open>vsnprintf\<close> answers with a fatal failure.\<close>

theorem ui_values_refused:
  "\<forall>(f, args) \<in> set (printBPB m p @ print_sector m p @ print_tf_info t @ print_TFFile fp @ print_FatFileEntry m p).
     args \<noteq> [] \<longrightarrow> outf m buf port f args = Some (fatal_failure ''vsnprintf'')"
proof -
  have "list_all plain_or_refused
      (printBPB m p @ print_sector m p @ print_tf_info t @ print_TFFile fp @ print_FatFileEntry m p)"
    unfolding list_all_append
    by (intro conjI bpb_plain_or_refused sector_plain_or_refused ui_plain_or_refused entry_plain_or_refused)
  then show ?thesis using plain_or_refused_outf unfolding list_all_iff by blast
qed

theorem ui_values_refused_witness:
  "outf (\<lambda>_. 0) 0x1000 0x3f8 sector_format (replicate 16 (ArgX 0)) = Some (fatal_failure ''vsnprintf'')"
proof -
  have "(sector_format, replicate 16 (ArgX 0)) \<in> set (print_sector (\<lambda>_. 0) 0)"
    by (simp add: print_sector_def Let_def byte_at_def numeral_eq_Suc upt_rec)
  then have "(sector_format, replicate 16 (ArgX 0)) \<in> set (printBPB (\<lambda>_. 0) 0 @ print_sector (\<lambda>_. 0) 0 @
      print_tf_info undefined @ print_TFFile undefined @ print_FatFileEntry (\<lambda>_. 0) 0)"
    unfolding set_append by blast
  from bspec [OF ui_values_refused this] show ?thesis by simp
qed

end
