(* ===== verification/Disk.thy ===== *)
theory Disk
  imports Paging
begin

text \<open>
  \<open>hostfs/mode.S\<close>: the routine of the host file system that reads a sector through the BIOS.
  It turns the number of the sector into an address of cylinder, head and sector, leaves protected
  mode, calls interrupt 0x13 and comes back.  The BIOS is a parameter.  \<open>div\<close> with an 8-bit
  divisor leaves the quotient in AL and the remainder in AH, and faults when the quotient does not
  fit; the monitor has no handler for the fault.
\<close>

subsection \<open>Registers\<close>

record disk_cpu =
  d_eax :: u32
  d_ebx :: u32
  d_ecx :: u32
  d_edx :: u32
  d_es :: u16
  d_cr0 :: u32
  physical_sector :: u8
  physical_head :: u8
  physical_track :: u8

definition low8 :: "u32 \<Rightarrow> u8" where "low8 w = ucast w"
definition high8 :: "u32 \<Rightarrow> u8" where "high8 w = ucast (drop_bit 8 w)"
definition low16 :: "u32 \<Rightarrow> u16" where "low16 w = ucast w"

definition set_low8 :: "u8 \<Rightarrow> u32 \<Rightarrow> u32" where "set_low8 b w = set_field w 0 8 (ucast b)"
definition set_high8 :: "u8 \<Rightarrow> u32 \<Rightarrow> u32" where "set_high8 b w = set_field w 8 8 (ucast b)"
definition set_low16 :: "u16 \<Rightarrow> u32 \<Rightarrow> u32" where "set_low16 h w = set_field w 0 16 (ucast h)"

text \<open>\<open>mov $n, %cl\<close> and \<open>div %cl\<close>.\<close>

definition div_cl :: "u8 \<Rightarrow> disk_cpu \<Rightarrow> disk_cpu res" where
  "div_cl n c =
     (let c = c\<lparr>d_ecx := set_low8 n (d_ecx c)\<rparr>;
          ax = unat (low16 (d_eax c)); q = ax div unat n; r = ax mod unat n
      in if n = 0 \<or> 255 < q then fatal_failure ''#DE''
         else Inr (c\<lparr>d_eax := set_high8 (of_nat r) (set_low8 (of_nat q) (d_eax c))\<rparr>))"

subsection \<open>The address of a sector\<close>

definition SECTORS_PER_TRACK :: nat where "SECTORS_PER_TRACK = 63"
definition NUM_HEADS :: nat where "NUM_HEADS = 2"
definition SECTORS_PER_PLATE :: nat where "SECTORS_PER_PLATE = SECTORS_PER_TRACK * NUM_HEADS"
definition DRIVE_NUMBER :: u8 where "DRIVE_NUMBER = 0x80"

text \<open>\<open>ax\<close> is what \<open>pushw\<close> saves.\<close>

definition lsector_to_psector :: "disk_cpu \<Rightarrow> disk_cpu res" where
  "lsector_to_psector c =
     (let ax = low16 (d_eax c)
      in bindr (div_cl (of_nat SECTORS_PER_TRACK) c) (\<lambda>c.
         let c = c\<lparr>d_eax := set_low8 (low8 (d_eax c) + 1) (d_eax c)\<rparr>;
             c = c\<lparr>physical_sector := low8 (d_eax c)\<rparr>;
             c = c\<lparr>d_eax := set_low16 ax (d_eax c)\<rparr>
         in bindr (div_cl (of_nat SECTORS_PER_TRACK) c) (\<lambda>c.
            let c = c\<lparr>d_eax := set_low8 (high8 (d_eax c)) (d_eax c)\<rparr>;
                c = c\<lparr>d_eax := set_high8 0 (d_eax c)\<rparr>
            in bindr (div_cl (of_nat NUM_HEADS) c) (\<lambda>c.
               let c = c\<lparr>physical_head := low8 (d_eax c)\<rparr>;
                   c = c\<lparr>d_eax := set_low16 ax (d_eax c)\<rparr>
               in bindr (div_cl (of_nat SECTORS_PER_PLATE) c) (\<lambda>c.
                  Inr (c\<lparr>physical_track := high8 (d_eax c)\<rparr>))))))"

subsection \<open>Reading a sector\<close>


definition switch_2_pmode :: "disk_cpu \<Rightarrow> disk_cpu" where
  "switch_2_pmode c = c\<lparr>d_cr0 := d_cr0 c OR ucast X86_CR0_PE OR ucast X86_CR0_PG\<rparr>"

definition switch_2_rmode :: "disk_cpu \<Rightarrow> disk_cpu" where
  "switch_2_rmode c =
     c\<lparr>d_cr0 := d_cr0 c AND (0xFFFFFFFF - ucast X86_CR0_PE) AND (0xFFFFFFFF - ucast X86_CR0_PG)\<rparr>"

text \<open>\<open>dbg\<close> is the byte at 0xffffff, which the first instruction loads; \<open>tmp_buffer\<close> is the address of the
  buffer in the data section.\<close>

definition bios_request :: "u32 \<Rightarrow> disk_cpu \<Rightarrow> disk_cpu" where
  "bios_request tmp_buffer c =
     (let c = c\<lparr>d_eax := set_low16 0 (d_eax c)\<rparr>;
          c = c\<lparr>d_es := low16 (d_eax c)\<rparr>;
          c = c\<lparr>d_ebx := tmp_buffer\<rparr>;
          c = c\<lparr>d_eax := set_high8 2 (d_eax c)\<rparr>;
          c = c\<lparr>d_eax := set_low8 1 (d_eax c)\<rparr>;
          c = c\<lparr>d_ecx := set_low8 (physical_sector c) (d_ecx c)\<rparr>;
          c = c\<lparr>d_edx := set_high8 (physical_head c) (d_edx c)\<rparr>;
          c = c\<lparr>d_ecx := set_high8 (physical_track c) (d_ecx c)\<rparr>
      in c\<lparr>d_edx := set_low8 DRIVE_NUMBER (d_edx c)\<rparr>)"

definition read_sector_asm :: "(disk_cpu \<Rightarrow> disk_cpu) \<Rightarrow> u8 \<Rightarrow> u32 \<Rightarrow> disk_cpu \<Rightarrow> disk_cpu res" where
  "read_sector_asm bios dbg tmp_buffer c =
     bindr (lsector_to_psector (c\<lparr>d_ebx := set_low8 dbg (d_ebx c)\<rparr>)) (\<lambda>c.
       Inr (switch_2_pmode (bios (bios_request tmp_buffer (switch_2_rmode c)))))"

subsection \<open>Facts about the registers\<close>

lemma reg_parts [simp]:
  "low8 (set_low8 b w) = b" "high8 (set_low8 b w) = high8 w" "low8 (set_high8 b w) = low8 w" "high8 (set_high8 b w) = b"
  "low16 (set_low16 h w) = h"
  unfolding low8_def high8_def low16_def set_low8_def set_high8_def set_low16_def
  by (rule bit_word_eqI; auto simp: bit_set_field bit_simps dest: bit_imp_le_length)+

lemma low16_parts: "unat (low16 w) = unat (low8 w) + 256 * unat (high8 w)"
proof -
  have "low8 w = ucast (low16 w)" "high8 w = ucast (drop_bit 8 (low16 w))"
    unfolding low8_def high8_def low16_def by (rule bit_word_eqI; auto simp: bit_simps)+
  then have "unat (low8 w) = unat (low16 w) mod 256" "unat (high8 w) = unat (low16 w) div 256 mod 256"
    by (simp_all add: unsigned_ucast_eq take_bit_eq_mod unat_drop_bit)
  moreover have "unat (low16 w) div 256 < 256" using unat_word_less [of "low16 w"] by (simp add: less_mult_imp_div_less)
  ultimately show ?thesis by simp
qed

lemma div_cl_result:
  assumes "0 < unat n"
  shows "div_cl n c = (if 255 < unat (low16 (d_eax c)) div unat n then fatal_failure ''#DE''
    else Inr (c\<lparr>d_ecx := set_low8 n (d_ecx c),
      d_eax := set_high8 (of_nat (unat (low16 (d_eax c)) mod unat n)) (set_low8 (of_nat (unat (low16 (d_eax c)) div unat n)) (d_eax c))\<rparr>))"
  using assms by (auto simp: div_cl_def Let_def)

text \<open>The three numbers the routine computes, and those its comments give.\<close>

definition chs :: "disk_cpu \<Rightarrow> nat \<times> nat \<times> nat" where
  "chs c = (unat (physical_sector c), unat (physical_head c), unat (physical_track c))"

definition chs_spec :: "nat \<Rightarrow> nat \<times> nat \<times> nat" where
  "chs_spec n = (1 + n mod SECTORS_PER_TRACK, n div SECTORS_PER_TRACK mod NUM_HEADS, n div (SECTORS_PER_TRACK * NUM_HEADS))"

lemma lsector_result:
  defines "n c \<equiv> unat (low16 (d_eax c))"
  shows "255 < n c div 63 \<Longrightarrow> lsector_to_psector c = fatal_failure ''#DE''"
    and "n c div 63 \<le> 255 \<Longrightarrow> \<exists>c'. lsector_to_psector c = Inr c' \<and>
      chs c' = ((n c div 63 + 1) mod 256, n c mod 63 div 2, n c mod 126) \<and> d_cr0 c' = d_cr0 c"
proof -
  have k: "unat (of_nat SECTORS_PER_TRACK :: u8) = 63" "unat (of_nat NUM_HEADS :: u8) = 2" "unat (of_nat SECTORS_PER_PLATE :: u8) = 126"
    by (simp_all add: SECTORS_PER_TRACK_def NUM_HEADS_def SECTORS_PER_PLATE_def)
  show "255 < n c div 63 \<Longrightarrow> lsector_to_psector c = fatal_failure ''#DE''"
    by (simp add: lsector_to_psector_def div_cl_result k n_def)
  assume q: "n c div 63 \<le> 255"
  have b: "unat (of_nat x :: u8) = x" if "x < 256" for x using that by (simp add: unat_of_nat)
  have h: "unat (low16 (set_high8 0 (set_low8 (of_nat (n c mod 63)) w))) = n c mod 63" for w
    by (simp add: low16_parts b order.strict_trans [OF mod_less_divisor])
  have p: "n c div 126 \<le> 255" using q by simp
  have m: "n c mod 63 div 2 < 256" "n c mod 126 < 256"
    by (rule order.strict_trans [of _ 126]; simp)+
  have m3: "\<not> 255 < n c mod 63 div 2" using m(1) by simp
  have s: "unat (of_nat (n c div 63) + 1 :: u8) = Suc (n c div 63) mod 256"
    using q by (simp add: unat_word_ariths b)
  show "\<exists>c'. lsector_to_psector c = Inr c' \<and>
      chs c' = ((n c div 63 + 1) mod 256, n c mod 63 div 2, n c mod 126) \<and> d_cr0 c' = d_cr0 c"
    using q p h b [OF m(1)] b [OF m(2)] s m3 unfolding n_def
    by (simp add: lsector_to_psector_def div_cl_result k chs_def Let_def)
qed

text \<open>The two triples agree only at 0.\<close>

lemma chs_only_0:
  fixes n :: nat
  assumes "\<not> 255 < n div 63"
  shows "(n div 63 + 1) mod 256 = 1 + n mod 63 \<and> n mod 63 div 2 = n div 63 mod 2 \<and> n mod 126 = n div 126 \<longleftrightarrow> n = 0"
proof
  assume e: "(n div 63 + 1) mod 256 = 1 + n mod 63 \<and> n mod 63 div 2 = n div 63 mod 2 \<and> n mod 126 = n div 126"
  define r where "r = n mod 63"
  have r: "r < 63" by (simp add: r_def)
  have "n div 63 = r"
  proof (cases "n div 63 = 255")
    case False
    then have "n div 63 + 1 < 256" using assms by linarith
    then show ?thesis using e by (simp add: r_def)
  qed (use e in simp)
  then have n: "n = 64 * r" using div_mult_mod_eq [of n 63] by (simp add: r_def)
  then have "r div 2 = r mod 2" using e \<open>n div 63 = r\<close> by (simp add: r_def)
  then have "r < 4" by linarith
  then have "r = 0 \<or> r = 1 \<or> r = 2 \<or> r = 3" by linarith
  then show "n = 0" using e \<open>r div 2 = r mod 2\<close> by (auto simp: n)
qed simp

lemma bios_request_fields:
  "low16 (d_eax (bios_request tmp_buffer c)) = 0x0201" "low8 (d_edx (bios_request tmp_buffer c)) = 0x80"
  "d_es (bios_request tmp_buffer c) = 0" "d_ebx (bios_request tmp_buffer c) = tmp_buffer"
  "d_cr0 (bios_request tmp_buffer c) = d_cr0 c"
  "(unat (low8 (d_ecx (bios_request tmp_buffer c))), unat (high8 (d_edx (bios_request tmp_buffer c))),
    unat (high8 (d_ecx (bios_request tmp_buffer c)))) = chs (bios_request tmp_buffer c)"
proof -
  have "low16 (set_low8 1 (set_high8 2 v)) = 0x0201" for v
    by (simp add: word_unat_eq_iff low16_parts)
  then show "low16 (d_eax (bios_request tmp_buffer c)) = 0x0201" by (simp add: bios_request_def)
qed (simp_all add: bios_request_def chs_def DRIVE_NUMBER_def)

subsection \<open>Properties\<close>

text \<open>C29: the address of a sector is wrong for every sector but the first: the routine takes the quotient of
  a division for the remainder and the other way round, so that the numbers it computes are those its
  comments give only for sector 0, and from sector 16128 on the first division faults.\<close>

theorem lsector_right_only_for_0:
  shows "((\<exists>c'. lsector_to_psector c = Inr c' \<and> chs c' = chs_spec (unat (low16 (d_eax c)))) \<longleftrightarrow> low16 (d_eax c) = 0) \<and>
    (lsector_to_psector c = fatal_failure ''#DE'' \<longleftrightarrow> 16128 \<le> unat (low16 (d_eax c)))"
proof -
  define n where "n = unat (low16 (d_eax c))"
  have z: "low16 (d_eax c) = 0 \<longleftrightarrow> n = 0" by (simp add: n_def unat_eq_zero)
  have q: "255 < n div 63 \<longleftrightarrow> 16128 \<le> n" by arith
  show ?thesis
  proof (cases "255 < n div 63")
    case True
    then have "lsector_to_psector c = fatal_failure ''#DE''" using lsector_result(1) [of c] by (simp add: n_def)
    then show ?thesis using True q z by (simp add: n_def)
  next
    case False
    then obtain c' where c': "lsector_to_psector c = Inr c'" "chs c' = ((n div 63 + 1) mod 256, n mod 63 div 2, n mod 126)"
      using lsector_result(2) [of c] by (auto simp: n_def)
    have "chs c' = chs_spec n \<longleftrightarrow> n = 0"
      using chs_only_0 [OF False] by (simp add: c'(2) chs_spec_def SECTORS_PER_TRACK_def NUM_HEADS_def)
    then show ?thesis using c'(1) False q z by (simp add: n_def)
  qed
qed

definition example_disk :: "u32 \<Rightarrow> disk_cpu" where
  "example_disk eax = \<lparr>d_eax = eax, d_ebx = 0, d_ecx = 0, d_edx = 0, d_es = 0, d_cr0 = 0x80000001,
     physical_sector = 0, physical_head = 0, physical_track = 0\<rparr>"

text \<open>When the address can be computed, the BIOS is called in real mode to read one sector of the
  first hard disk into the routine's own buffer, at the address computed; then the processor is in
  protected mode with paging again.  Neither the buffer of the caller nor the sector it asked for
  play a part.\<close>

theorem read_sector_calls_bios:
  assumes "unat (low16 (d_eax c)) < 16128"
  shows "\<exists>d. read_sector_asm bios dbg tmp_buffer c = Inr (switch_2_pmode (bios d)) \<and>
    low16 (d_eax d) = 0x0201 \<and> low8 (d_edx d) = 0x80 \<and> d_es d = 0 \<and> d_ebx d = tmp_buffer \<and>
    \<not> bit (d_cr0 d) 0 \<and> \<not> bit (d_cr0 d) 31 \<and>
    (unat (low8 (d_ecx d)), unat (high8 (d_edx d)), unat (high8 (d_ecx d))) = chs d"
proof -
  let ?c = "c\<lparr>d_ebx := set_low8 dbg (d_ebx c)\<rparr>"
  have "unat (low16 (d_eax ?c)) div 63 \<le> 255" using assms by (simp add: less_Suc_eq_le [symmetric] div_less_iff_less_mult)
  then obtain c1 where c1: "lsector_to_psector ?c = Inr c1" using lsector_result(2) [of ?c] by blast
  have "\<not> bit (0x7FFFFFFE :: u32) 0" "\<not> bit (0x7FFFFFFE :: u32) 31" by (simp_all add: bit_iff_odd)
  then have rm: "\<not> bit (w AND 0x7FFFFFFE) 0" "\<not> bit (w AND 0x7FFFFFFE) 31" for w :: u32
    by (simp_all only: bit_and_iff) simp_all
  have "read_sector_asm bios dbg tmp_buffer c = Inr (switch_2_pmode (bios (bios_request tmp_buffer (switch_2_rmode c1))))"
    by (simp add: read_sector_asm_def c1)
  moreover have "\<not> bit (d_cr0 (switch_2_rmode c1)) 0" "\<not> bit (d_cr0 (switch_2_rmode c1)) 31"
    by (simp_all add: switch_2_rmode_def X86_CR0_PE_def X86_CR0_PG_def rm)
  ultimately show ?thesis using bios_request_fields [of tmp_buffer "switch_2_rmode c1"] by auto
qed

theorem read_sector_calls_bios_witness:
  "\<exists>d. read_sector_asm (\<lambda>d. d) 0 0x5000 (example_disk 0) = Inr (switch_2_pmode d) \<and> low16 (d_eax d) = 0x0201"
  using read_sector_calls_bios [of "example_disk 0" "\<lambda>d. d" 0 "0x5000"] by (auto simp: example_disk_def low16_def)

end
