(* ===== verification/Command.thy ===== *)
theory Command
  imports Intercept
begin

text \<open>
  \<open>user/mavmm-u.c\<close>: the program that a user of the guest runs to ask the monitor for interceptions,
  and, with the exit handler, what the monitor does when it is asked.
\<close>

subsection \<open>The program\<close>

definition USER_TEST_SWITCHMODE :: u32 where "USER_TEST_SWITCHMODE = 1"

record cmdflag =
  szcmd :: string
  cmd_flag :: u32

definition intercp_flags :: "cmdflag list" where
  "intercp_flags =
     [\<lparr>szcmd = ''swint'', cmd_flag = USER_ITC_SWINT\<rparr>,
      \<lparr>szcmd = ''task'', cmd_flag = USER_ITC_TASKSWITCH\<rparr>,
      \<lparr>szcmd = ''syscall'', cmd_flag = USER_ITC_SYSCALL\<rparr>,
      \<lparr>szcmd = ''step'', cmd_flag = USER_SINGLE_STEPPING\<rparr>,
      \<lparr>szcmd = ''unpack'', cmd_flag = USER_UNPACK\<rparr>,
      \<lparr>szcmd = ''_end'', cmd_flag = 0\<rparr>]"

definition test_flags :: "cmdflag list" where
  "test_flags = [\<lparr>szcmd = ''smode'', cmd_flag = USER_TEST_SWITCHMODE\<rparr>, \<lparr>szcmd = ''_end'', cmd_flag = 0\<rparr>]"

text \<open>The loop of the two searches, up to the entry \<open>_end\<close>; a later entry overrides an earlier one.\<close>

primrec scan_flags :: "cmdflag list \<Rightarrow> string \<Rightarrow> u32 \<Rightarrow> u32" where
  "scan_flags [] name flag = flag"
| "scan_flags (e # rest) name flag =
     (if szcmd e = ''_end'' then flag
      else scan_flags rest name (if szcmd e = name then cmd_flag e else flag))"

definition get_intercp_flag :: "string \<Rightarrow> u32" where
  "get_intercp_flag name = scan_flags intercp_flags name 0"

definition get_test_flag :: "string \<Rightarrow> u32" where
  "get_test_flag name = scan_flags test_flags name 0"

text \<open>The arguments of the program with the addresses of their strings.  The result: the values of EBX, ECX
  and EDX at the \<open>vmmcall\<close> if it is executed, and the exit status.\<close>

definition command :: "(u64 \<times> string) list \<Rightarrow> (u32 \<times> u32 \<times> u32) option \<times> u32" where
  "command argv =
     (if length argv < 3 then (None, - 1)
      else
        let cmd = snd (argv ! 1); name = snd (argv ! 2);
            (ebx, ecx) = (if cmd = ''en'' then (USER_CMD_ENABLE, get_intercp_flag name)
                          else if cmd = ''dis'' then (USER_CMD_DISABLE, get_intercp_flag name)
                          else if cmd = ''test'' then (USER_CMD_TEST, get_test_flag name)
                          else (0, 0))
        in if ecx = USER_ITC_TASKSWITCH \<and> length argv < 4 then (None, - 1)
           else (Some (ucast ebx, ecx, if length argv > 3 then ucast (fst (argv ! 3)) else 0), 0))"

subsection \<open>From the command to the monitor\<close>

lemma intercp_flag_cases:
  "get_intercp_flag name =
     (if name = ''swint'' then USER_ITC_SWINT else if name = ''task'' then USER_ITC_TASKSWITCH
      else if name = ''syscall'' then USER_ITC_SYSCALL else if name = ''step'' then USER_SINGLE_STEPPING
      else if name = ''unpack'' then USER_UNPACK else 0)"
  by (auto simp: get_intercp_flag_def intercp_flags_def)

lemma intercp_flag_task: "name \<noteq> ''task'' \<Longrightarrow> \<not> ctrue (get_intercp_flag name AND USER_ITC_TASKSWITCH)"
  by (simp add: intercp_flag_cases ctrue_def USER_ITC_SWINT_def USER_ITC_TASKSWITCH_def USER_ITC_SYSCALL_def
    USER_SINGLE_STEPPING_def USER_UNPACK_def)

lemma ucast_ucast_u32: "ucast (ucast (w :: u32) :: u64) = w"
  by (rule bit_word_eqI) (auto simp: bit_simps)

text \<open>C16: the program and the monitor agree: when the guest runs the program to enable or disable anything but
  the tracking of a process and the exit handler gets the registers it sets, the handler returns, turns
  exactly the flag of the argument on or off in the record of the machine, changes nothing else in the
  record, and in the control block only moves the guest past the instruction; an argument that is not
  in the table changes nothing.\<close>

theorem command_sets_flags:
  assumes "command argv = (Some (b, c, d), 0)" and "exitcode (vcb s) = VMEXIT_VMMCALL"
    and "g_rbx (regs s) = ucast b" and "g_rcx (regs s) = ucast c"
    and "snd (argv ! 1) \<in> {''en'', ''dis''}" and "snd (argv ! 2) \<noteq> ''task''"
    and "flag = get_intercp_flag (snd (argv ! 2))"
  shows "\<exists>s'. handle_vmexit s = ret s' \<and> vcb s' = (vcb s)\<lparr>rip := rip (vcb s) + 3\<rparr> \<and>
    vm s' = (vm s)\<lparr>itc_flag := if snd (argv ! 1) = ''en'' then itc_flag (vm s) OR flag
                              else itc_flag (vm s) AND NOT flag\<rparr>"
proof -
  have c: "c = flag" "b = (if snd (argv ! 1) = ''en'' then 0 else 1)"
    using assms(1,5,7)
    by (auto simp: command_def Let_def USER_CMD_ENABLE_def USER_CMD_DISABLE_def split: if_splits)
  have "\<not> ctrue (flag AND USER_ITC_TASKSWITCH)" using assms(6,7) intercp_flag_task by simp
  then show ?thesis
    using assms(2-5)
    by (auto simp: vmexit_cases handle_vm_vmmcall_def user_enable_intercept_def user_disable_intercept_def
      USER_CMD_ENABLE_def USER_CMD_DISABLE_def c ucast_ucast_u32 Let_def upd_vm_def upd_vcb_def)
qed

theorem command_sets_flags_witness:
  "command [(0, ''mavmm-u''), (0, ''en''), (0, ''syscall'')] = (Some (0, USER_ITC_SYSCALL, 0), 0) \<and>
   (\<exists>s'. handle_vmexit ((upd_vcb (\<lambda>v. v\<lparr>exitcode := VMEXIT_VMMCALL\<rparr>) (blank_machine (\<lambda>_. 0) zero_vm_info))
      \<lparr>regs := \<lparr>g_rbp = 0, g_rbx = 0, g_rcx = ucast USER_ITC_SYSCALL, g_rdx = 0, g_rsi = 0, g_rdi = 0\<rparr>\<rparr>) = ret s' \<and>
     itc_flag (vm s') = USER_ITC_SYSCALL)"
proof -
  have c: "command [(0, ''mavmm-u''), (0, ''en''), (0, ''syscall'')] = (Some (0, USER_ITC_SYSCALL, 0), 0)"
    by (simp add: command_def intercp_flag_cases USER_CMD_ENABLE_def USER_ITC_SYSCALL_def USER_ITC_TASKSWITCH_def)
  show ?thesis
    using command_sets_flags [OF c, of "(upd_vcb (\<lambda>v. v\<lparr>exitcode := VMEXIT_VMMCALL\<rparr>) (blank_machine (\<lambda>_. 0) zero_vm_info))
      \<lparr>regs := \<lparr>g_rbp = 0, g_rbx = 0, g_rcx = ucast USER_ITC_SYSCALL, g_rdx = 0, g_rsi = 0, g_rdi = 0\<rparr>\<rparr>" USER_ITC_SYSCALL] c
    by (auto simp: intercp_flag_cases zero_vm_info_def upd_vcb_def)
qed

end
