(* ===== verification/ImageSum.thy ===== *)
theory ImageSum
  imports Prelude
begin

text \<open>
  The base of the boot image tool \<open>tools/mkelfImage\<close>: its outcomes and the checksum of an image
  (\<open>ipchksum\<close> and \<open>add_ipchksums\<close> of \<open>main/mkelfImage.c\<close>), with the lemma that the
  checksum can be computed piece by piece.

  The tool is a program of the build host, a little endian machine with a 64-bit \<open>size_t\<close>: there
  \<open>cpu_to_le16\<close> is the identity and \<open>cpu_to_be16\<close> is \<open>bswap_16\<close>.  A pointer into a buffer is the list
  of the bytes from there to the end of the buffer.
\<close>

subsection \<open>Outcomes\<close>

text \<open>
  \<open>die\<close> and \<open>error\<close> print their message and leave with status 1: \<open>Died\<close> carries the format string.
  \<open>Stray\<close> is an access outside of a buffer, after which C promises nothing.  \<open>Waiting\<close> ends a run
  whose script of results of system calls is used up: the program has not returned yet.
\<close>

datatype tool_error = Died string | Stray | Waiting

type_synonym 'a tool = "tool_error + 'a"

definition die :: "string \<Rightarrow> 'a tool" where
  "die fmt = Inl (Died fmt)"

definition bindt :: "'a tool \<Rightarrow> ('a \<Rightarrow> 'b tool) \<Rightarrow> 'b tool" where
  "bindt r f = (case r of Inl e \<Rightarrow> Inl e | Inr x \<Rightarrow> f x)"

named_theorems tool_simps \<open>evaluation of the image writer\<close>

lemma bindt_simps [simp, tool_simps]:
  "bindt (Inl e) f = Inl e"
  "bindt (Inr x) f = f x"
  "bindt (die m) f = die m"
  "bindt r Inr = r"
  by (simp_all add: bindt_def die_def split: sum.split)

lemma bindt_eq_Inr: "bindt r f = Inr y \<longleftrightarrow> (\<exists>x. r = Inr x \<and> f x = Inr y)"
  by (cases r) simp_all

lemma die_neq [simp, tool_simps]: "die m \<noteq> Inr x" "Inr x \<noteq> die m"
  by (simp_all add: die_def)

lemma bindt_cong [fundef_cong]:
  "r = r' \<Longrightarrow> (\<And>x. r' = Inr x \<Longrightarrow> f x = g x) \<Longrightarrow> bindt r f = bindt r' g"
  by (cases r') simp_all

text \<open>The bytes of a memory object: \<open>n\<close> bytes from a pointer.\<close>

definition bytes_at :: "nat \<Rightarrow> u8 list \<Rightarrow> u8 list tool" where
  "bytes_at n p = (if n \<le> length p then Inr (take n p) else Inl Stray)"

definition ascii :: "string \<Rightarrow> u8 list" where
  "ascii s = map of_char s"

subsection \<open>The checksum\<close>

text \<open>\<open>ipchksum\<close> adds the bytes of even places and the bytes of odd places times 256, wrapping the
  carry around after each byte; \<open>data\<close> holds exactly the \<open>length\<close> bytes.\<close>

fun ipchksum_loop :: "u64 \<Rightarrow> u64 \<Rightarrow> u8 list \<Rightarrow> u64" where
  "ipchksum_loop i s [] = s"
| "ipchksum_loop i s (b # bs) =
     (let v = ucast b;
          v = (if ctrue (i AND 1) then push_bit 8 v else v);
          s = s + v;
          s = (if s > 0xFFFF then (s + drop_bit 16 s) AND 0xFFFF else s)
      in ipchksum_loop (i + 1) s bs)"

definition ipchksum :: "u8 list \<Rightarrow> u16" where
  "ipchksum d = ucast (NOT (ipchksum_loop 0 0 d) AND 0xFFFF)"

definition bswap_16 :: "u16 \<Rightarrow> u16" where
  "bswap_16 w = push_bit 8 w OR drop_bit 8 w"

text \<open>The checksum of two pieces, the second one at \<open>offset\<close> in the whole.\<close>

definition add_ipchksums :: "u64 \<Rightarrow> u16 \<Rightarrow> u16 \<Rightarrow> u16" where
  "add_ipchksums offset s n =
     (let s = NOT s AND 0xFFFF;
          n = NOT n AND 0xFFFF;
          n = (if ctrue (offset AND 1) then bswap_16 n else n);
          checksum = ucast s + ucast n :: u64;
          checksum = (if checksum > 0xFFFF then checksum - 0xFFFF else checksum)
      in ucast (NOT checksum AND 0xFFFF))"

text \<open>
  The sum in ones' complement: \<open>wrap n\<close> is the representative of \<open>n\<close> among 0 and 1 to 65535, 0 only
  for 0 itself; \<open>weight\<close> is the plain sum of the bytes.
\<close>

definition wrap :: "nat \<Rightarrow> nat" where
  "wrap n = (if n = 0 then 0 else (n - 1) mod 65535 + 1)"

primrec weight :: "bool \<Rightarrow> u8 list \<Rightarrow> nat" where
  "weight p [] = 0"
| "weight p (b # bs) = (if p then 256 * unat b else unat b) + weight (\<not> p) bs"

lemma wrap_small: "n \<le> 65535 \<Longrightarrow> wrap n = n"
  by (auto simp: wrap_def)

lemma wrap_le: "wrap n \<le> 65535"
  using mod_less_divisor [of 65535 "n - 1"] by (auto simp: wrap_def)

lemma wrap_carry: "65535 < n \<Longrightarrow> wrap n = wrap (n - 65535)"
  by (auto simp: wrap_def le_mod_geq)

lemma wrap_cong:
  assumes "m mod 65535 = n mod 65535" "m = 0 \<longleftrightarrow> n = 0"
  shows "wrap m = wrap n"
proof (cases "m = 0")
  case False
  have *: "wrap k = (if k mod 65535 = 0 then 65535 else k mod 65535)" if "0 < k" for k
    using that by (cases k) (auto simp: wrap_def mod_Suc)
  show ?thesis
    using False assms by (simp add: *)
qed (use assms in simp)

lemma wrap_mod: "wrap n mod 65535 = n mod 65535"
  by (cases n) (auto simp: wrap_def mod_simps)

lemma wrap_0_iff [simp]: "wrap n = 0 \<longleftrightarrow> n = 0"
  by (auto simp: wrap_def)

lemma wrap_add [simp]: "wrap (wrap a + b) = wrap (a + b)" "wrap (a + wrap b) = wrap (a + b)"
  by (rule wrap_cong; metis wrap_mod mod_add_left_eq mod_add_right_eq add_is_0 wrap_0_iff)+

lemma wrap_mult: "0 < k \<Longrightarrow> wrap (k * wrap a) = wrap (k * a)"
  by (rule wrap_cong) (metis wrap_mod mod_mult_right_eq, simp)

text \<open>Words of 16 bits in wider ones.\<close>

lemma low_half [simp]: "(x :: u16) AND 0xFFFF = x"
proof -
  have "(0xFFFF :: u16) = - 1" by simp
  then show ?thesis by (simp only: and.right_neutral)
qed

lemma ucast_not_half: "ucast (NOT c AND 0xFFFF :: u64) = (NOT (ucast c) :: u16)"
proof -
  have m: "(0xFFFF :: u64) = mask 16" by (simp add: mask_eq_exp_minus_1)
  show ?thesis
    unfolding m by (rule bit_word_eqI) (auto simp: bit_simps)
qed

lemma unat_not_half: "unat (NOT w :: u16) = 65535 - unat w"
proof -
  have "NOT w = - 1 - w" by (simp add: not_eq_complement)
  moreover have "unat (- 1 - w) = unat (- 1 :: u16) - unat w" by (rule unat_sub) simp
  ultimately show ?thesis by (simp add: unsigned_minus_1_eq_mask mask_eq_exp_minus_1)
qed

lemma of_nat_odd: "ctrue ((of_nat n :: u64) AND 1) \<longleftrightarrow> odd n"
  by (simp add: ctrue_def and_one_eq odd_iff_mod_2_eq_one [symmetric] flip: even_iff_mod_2_eq_zero)

text \<open>One step of the loop.\<close>

lemma carry_step:
  assumes "unat s \<le> 65535" "unat v \<le> 65280"
  shows "unat (let t = s + v :: u64 in if t > 0xFFFF then (t + drop_bit 16 t) AND 0xFFFF else t)
    = wrap (unat s + unat v)"
proof -
  have t: "unat (s + v) = unat s + unat v"
    using assms by (intro unat_add_lem [THEN iffD1]) simp
  show ?thesis
  proof (cases "unat s + unat v > 65535")
    case True
    then have c: "unat (drop_bit 16 (s + v)) = 1"
      using assms by (simp only: unsigned_drop_bit_eq t) (simp add: drop_bit_eq_div take_bit_nat_eq_self)
    have "unat (s + v + drop_bit 16 (s + v)) = unat s + unat v + 1"
      using assms t c by (simp add: unat_word_ariths)
    then have "unat ((s + v + drop_bit 16 (s + v)) AND mask 16) = (unat s + unat v + 1) mod 65536"
      by (simp only: take_bit_eq_mask [symmetric] unsigned_take_bit_eq) (simp add: take_bit_eq_mod)
    also have "\<dots> = unat s + unat v - 65535"
      using True assms by (simp add: mod_if)
    also have "\<dots> = wrap (unat s + unat v)"
      using True assms by (simp add: wrap_carry wrap_small)
    finally show ?thesis
      using True t by (simp add: Let_def word_less_nat_alt mask_eq_exp_minus_1)
  qed (use t in \<open>simp add: wrap_small word_less_nat_alt\<close>)
qed

lemma ipchksum_loop_wrap:
  assumes "unat s \<le> 65535"
  shows "unat (ipchksum_loop i s bs) = wrap (unat s + weight (ctrue (i AND 1)) bs)"
  using assms
proof (induction bs arbitrary: i s)
  case (Cons b bs)
  let ?v = "if ctrue (i AND 1) then push_bit 8 (ucast b) else (ucast b :: u64)"
  let ?t = "let t = s + ?v in if t > 0xFFFF then (t + drop_bit 16 t) AND 0xFFFF else t"
  have b: "unat b < 256"
    using unsigned_less [of b] by simp
  have "unat (push_bit 8 (ucast b :: u64)) = 256 * unat b"
    using b by (simp only: unsigned_push_bit_eq unat_ucast_u64) (simp add: push_bit_eq_mult take_bit_nat_eq_self mult.commute)
  then have v: "unat ?v = (if ctrue (i AND 1) then 256 * unat b else unat b)"
    by simp
  have t: "unat ?t = wrap (unat s + unat ?v)"
    by (rule carry_step) (use Cons.prems b v in \<open>auto split: if_splits\<close>)
  have odd: "ctrue ((i + 1) AND 1) \<longleftrightarrow> \<not> ctrue (i AND 1)"
    by (simp add: ctrue_def and_one_eq odd_iff_mod_2_eq_one [symmetric] flip: even_iff_mod_2_eq_zero)
  have "unat (ipchksum_loop (i + 1) ?t bs) = wrap (unat ?t + weight (ctrue ((i + 1) AND 1)) bs)"
    by (rule Cons.IH) (simp only: t wrap_le)
  then show ?case
    by (simp add: Let_def t [unfolded Let_def] odd v add.assoc)
qed (simp add: wrap_small)

lemma weight_append: "weight p (a @ b) = weight p a + weight (if odd (length a) then \<not> p else p) b"
  by (induction a arbitrary: p) auto

lemma weight_swap: "weight True bs mod 65535 = 256 * weight False bs mod 65535
  \<and> weight False bs mod 65535 = 256 * weight True bs mod 65535"
proof (induction bs)
  case (Cons b bs)
  have c: "(m + 256 * x) mod 65535 = (m + y) mod 65535" if "y mod 65535 = 256 * x mod 65535" for m x y :: nat
    using that by (metis mod_add_right_eq)
  have d: "256 * (256 * m) mod 65535 = m mod 65535" for m :: nat
  proof -
    have "256 * (256 * m) = 65535 * m + m" by simp
    then show ?thesis by (metis mod_mult_self4)
  qed
  have e: "(256 * (256 * m + x)) mod 65535 = (m + y) mod 65535"
    if "y mod 65535 = 256 * x mod 65535" for m x y :: nat
  proof -
    have "(256 * (256 * m + x)) mod 65535 = (256 * (256 * m) mod 65535 + 256 * x mod 65535) mod 65535"
      by (simp only: distrib_left mod_add_eq)
    also have "\<dots> = (m + y) mod 65535"
      by (simp only: d that [symmetric] mod_add_eq)
    finally show ?thesis .
  qed
  show ?case
    using Cons c [of "weight False bs" "weight True bs"] c [of "weight True bs" "weight False bs"]
      e [of "weight False bs" "weight True bs"] e [of "weight True bs" "weight False bs"]
    by (simp add: distrib_left)
qed simp

lemma weight_zero: "weight p bs = 0 \<longleftrightarrow> set bs \<subseteq> {0}"
  by (induction bs arbitrary: p) (auto simp: unat_eq_0)

lemma ipchksum_wrap: "unat (ipchksum d) = 65535 - wrap (weight False d)"
proof -
  let ?s = "ipchksum_loop 0 0 d"
  have s: "unat ?s = wrap (weight False d)"
    by (subst ipchksum_loop_wrap) (simp_all add: ctrue_def)
  then have "unat (ucast ?s :: u16) = wrap (weight False d)"
    using wrap_le [of "weight False d"] by (simp add: unsigned_ucast_eq take_bit_nat_eq_self)
  then show ?thesis
    by (simp add: ipchksum_def ucast_not_half unat_not_half)
qed

lemma not_ipchksum: "unat (NOT (ipchksum d)) = wrap (weight False d)"
  using wrap_le [of "weight False d"] by (simp add: unat_not_half ipchksum_wrap)

lemma unat_bswap: "unat (bswap_16 w) = unat w mod 256 * 256 + unat w div 256"
proof -
  have "bswap_16 w = push_bit 8 w + drop_bit 8 w"
    unfolding bswap_16_def by (rule disjunctive_add [symmetric]) (auto simp: bit_simps dest: bit_imp_le_length)
  moreover have "unat (push_bit 8 w) = unat w mod 256 * 256"
    by (simp only: unsigned_push_bit_eq take_bit_push_bit) (simp add: push_bit_eq_mult take_bit_eq_mod)
  moreover have "unat (drop_bit 8 w) = unat w div 256"
    using unat_word_less [of w] by (simp only: unsigned_drop_bit_eq) (simp add: drop_bit_eq_div take_bit_nat_eq_self)
  moreover have "unat w < 65536"
    using unsigned_less [of w] by simp
  ultimately show ?thesis
    by (simp add: unat_word_ariths)
qed

lemma wrap_bswap: "wrap (unat (bswap_16 w)) = wrap (256 * unat w)"
proof (rule wrap_cong)
  have "256 * n = 65535 * (n div 256) + (n mod 256 * 256 + n div 256)" for n :: nat
    using mult_div_mod_eq [of 256 n] by linarith
  then show "unat (bswap_16 w) mod 65535 = 256 * unat w mod 65535"
    by (metis unat_bswap mod_mult_self4)
  show "unat (bswap_16 w) = 0 \<longleftrightarrow> 256 * unat w = 0"
    by (auto simp: unat_bswap)
qed

lemma add_ipchksums_wrap:
  "unat (NOT (add_ipchksums off s n)) =
    wrap (unat (NOT s) + (if ctrue (off AND 1) then 256 * unat (NOT n) else unat (NOT n)))"
proof -
  let ?n = "if ctrue (off AND 1) then bswap_16 (NOT n) else NOT n"
  let ?c = "ucast (NOT s) + ucast ?n :: u64"
  let ?d = "if ?c > 0xFFFF then ?c - 0xFFFF else ?c"
  have b: "unat (NOT s) < 65536" "unat ?n < 65536"
    using unsigned_less [of "NOT s"] unsigned_less [of ?n] by simp_all
  have c: "unat ?c = unat (NOT s) + unat ?n"
    using b by (subst unat_word_ariths) simp
  have d: "unat ?d = wrap (unat (NOT s) + unat ?n)"
    using b c by (auto simp: word_less_nat_alt wrap_small wrap_carry unat_sub word_le_nat_alt)
  have "NOT (add_ipchksums off s n) = ucast ?d"
    by (simp add: add_ipchksums_def Let_def ucast_not_half)
  then have "unat (NOT (add_ipchksums off s n)) = unat ?d"
    using d wrap_le [of "unat (NOT s) + unat ?n"]
    by (simp add: unsigned_ucast_eq take_bit_nat_eq_self)
  also have "\<dots> = wrap (unat (NOT s) + wrap (unat ?n))"
    using d by simp
  also have "\<dots> = wrap (unat (NOT s) + (if ctrue (off AND 1) then 256 * unat (NOT n) else unat (NOT n)))"
  proof -
    have "wrap (unat (NOT s) + wrap (unat (bswap_16 (NOT n)))) = wrap (unat (NOT s) + wrap (256 * unat (NOT n)))"
      by (simp only: wrap_bswap)
    then show ?thesis by simp
  qed
  finally show ?thesis .
qed

lemma ipchksum_pieces:
  "add_ipchksums (of_nat (length a)) (ipchksum a) (ipchksum b) = ipchksum (a @ b)"
proof -
  have w: "wrap (x + 256 * weight False b) = wrap (x + weight True b)" for x
  proof -
    have "wrap (256 * weight False b) = wrap (weight True b)"
      by (rule wrap_cong) (simp_all add: weight_swap weight_zero)
    then show ?thesis by (metis wrap_add(2))
  qed
  have v: "wrap (x + 256 * wrap y) = wrap (x + 256 * y)" for x y
    by (metis wrap_add(2) wrap_mult zero_less_numeral)
  have "unat (NOT (add_ipchksums (of_nat (length a)) (ipchksum a) (ipchksum b)))
      = unat (NOT (ipchksum (a @ b)))"
    by (simp add: add_ipchksums_wrap not_ipchksum of_nat_odd weight_append v w)
  then show ?thesis
    by (metis bit.double_compl word_unat_eq_iff)
qed

lemma ipchksum_zeros: "ipchksum (a @ replicate n 0) = ipchksum a"
proof -
  have "weight p (replicate n 0) = 0" for p
    by (induction n arbitrary: p) simp_all
  then show ?thesis
    by (simp add: word_unat_eq_iff ipchksum_wrap weight_append)
qed

text \<open>C36: the checksum of two pieces put together is computed by \<open>add_ipchksums\<close> from the checksums of
  the pieces, also when the second piece starts at an odd place: \<open>write_elf\<close> need not put the headers
  and the segments into one buffer to check them.\<close>

theorem ipchksum_append:
  "add_ipchksums (of_nat (length a)) (ipchksum a) (ipchksum b) = ipchksum (a @ b)"
  by (rule ipchksum_pieces)

end
