(* ===== verification/ElfImage.thy ===== *)
theory ElfImage
  imports ImageSum
begin

text \<open>
  The images that \<open>tools/mkelfImage/main/mkelfImage.c\<close> writes: the headers and notes that the tool keeps
  in memory (\<open>include/mkelfImage.h\<close>), their serialized form (\<open>include/elf.h\<close>,
  \<open>include/elf_boot.h\<close>), and \<open>write_elf\<close>.  The lemmas show where the pieces of the image are,
  and that the checksum in its note is the one of the memory image.
\<close>

subsection \<open>Headers and notes in memory\<close>

text \<open>\<open>p_data\<close> is the bytes from the pointer on; the null pointer has none.\<close>

record memelfphdr =
  p_vaddr :: u64
  p_paddr :: u64
  p_filesz :: u64
  p_memsz :: u64
  p_data :: "u8 list"
  p_type :: u32
  p_flags :: u32

text \<open>The descriptor of a note is in a buffer, or it is the variable \<open>checksum\<close> of \<open>write_elf\<close>, whose
  value is taken when the note is copied.\<close>

datatype note_desc = Desc "u8 list" | Checksum

record memelfnote =
  n_type :: u32
  n_name :: string
  n_desc :: note_desc
  n_descsz :: u32

record memelfheader =
  ei_class :: u32
  ei_data :: u32
  e_type :: u32
  e_machine :: u32
  e_flags :: u32
  e_phnum :: u32
  e_notenum :: u32
  e_entry :: u64
  e_phdr :: "memelfphdr list"
  e_notes :: "memelfnote list"

definition cleared_header :: memelfheader where
  "cleared_header = \<lparr> ei_class = 0, ei_data = 0, e_type = 0, e_machine = 0, e_flags = 0, e_phnum = 0,
     e_notenum = 0, e_entry = 0, e_phdr = [], e_notes = [] \<rparr>"

definition ELFCLASS32 :: u32 where "ELFCLASS32 = 1"
definition ELFCLASS64 :: u32 where "ELFCLASS64 = 2"
definition ELFDATA2LSB :: u32 where "ELFDATA2LSB = 1"
definition ELFDATA2MSB :: u32 where "ELFDATA2MSB = 2"
definition EV_CURRENT :: u32 where "EV_CURRENT = 1"
definition PT_LOAD :: u32 where "PT_LOAD = 1"
definition PT_NOTE :: u32 where "PT_NOTE = 4"
definition ET_EXEC :: u32 where "ET_EXEC = 2"
definition EM_386 :: u32 where "EM_386 = 3"
definition EM_IA_64 :: u32 where "EM_IA_64 = 50"
definition PF_X :: u32 where "PF_X = 1"
definition PF_W :: u32 where "PF_W = 2"
definition PF_R :: u32 where "PF_R = 4"
definition EIN_PROGRAM_NAME :: u32 where "EIN_PROGRAM_NAME = 1"
definition EIN_PROGRAM_VERSION :: u32 where "EIN_PROGRAM_VERSION = 2"
definition EIN_PROGRAM_CHECKSUM :: u32 where "EIN_PROGRAM_CHECKSUM = 3"

lemmas elf_consts = ELFCLASS32_def ELFCLASS64_def ELFDATA2LSB_def ELFDATA2MSB_def EV_CURRENT_def
  PT_LOAD_def PT_NOTE_def ET_EXEC_def EM_386_def EM_IA_64_def PF_X_def PF_W_def PF_R_def
  EIN_PROGRAM_NAME_def EIN_PROGRAM_VERSION_def EIN_PROGRAM_CHECKSUM_def

text \<open>The bytes of the ELF structures; none of them has padding.\<close>

definition sizeof_Elf32_Ehdr :: u64 where "sizeof_Elf32_Ehdr = 52"
definition sizeof_Elf64_Ehdr :: u64 where "sizeof_Elf64_Ehdr = 64"
definition sizeof_Elf32_Phdr :: u64 where "sizeof_Elf32_Phdr = 32"
definition sizeof_Elf64_Phdr :: u64 where "sizeof_Elf64_Phdr = 56"
definition sizeof_Elf_Nhdr :: u32 where "sizeof_Elf_Nhdr = 12"

lemmas elf_sizes = sizeof_Elf32_Ehdr_def sizeof_Elf64_Ehdr_def sizeof_Elf32_Phdr_def
  sizeof_Elf64_Phdr_def sizeof_Elf_Nhdr_def

definition default_phdr :: memelfphdr where
  "default_phdr = \<lparr> p_vaddr = 0, p_paddr = 0, p_filesz = 0, p_memsz = 0, p_data = [],
     p_type = PT_LOAD, p_flags = PF_R OR PF_W OR PF_X \<rparr>"

subsection \<open>Sizes\<close>

definition roundup :: "'a::len word \<Rightarrow> 'a word \<Rightarrow> 'a word" where
  "roundup x y = ((x + (y - 1)) div y) * y"

text \<open>The size of the notes is an \<open>int\<close>; the name is rounded as a \<open>size_t\<close>, the descriptor as an
  \<open>unsigned\<close>.\<close>

primrec sizeof_notes_loop :: "u32 \<Rightarrow> memelfnote list \<Rightarrow> u32" where
  "sizeof_notes_loop sz [] = sz"
| "sizeof_notes_loop sz (n # ns) =
     (let sz = sz + sizeof_Elf_Nhdr;
          sz = sz + ucast (roundup (of_nat (length (n_name n)) + 1 :: u64) 4);
          sz = sz + roundup (n_descsz n) 4
      in sizeof_notes_loop sz ns)"

definition sizeof_notes :: "memelfnote list \<Rightarrow> u32" where
  "sizeof_notes ns = sizeof_notes_loop 0 ns"

subsection \<open>Byte order\<close>

definition bytes16 :: "u16 \<Rightarrow> u8 list" where
  "bytes16 w = [ucast w, ucast (drop_bit 8 w)]"

definition bytes32 :: "u32 \<Rightarrow> u8 list" where
  "bytes32 w = [ucast w, ucast (drop_bit 8 w), ucast (drop_bit 16 w), ucast (drop_bit 24 w)]"

definition bytes64 :: "u64 \<Rightarrow> u8 list" where
  "bytes64 w = bytes32 (ucast w) @ bytes32 (ucast (drop_bit 32 w))"

definition bswap_32 :: "u32 \<Rightarrow> u32" where
  "bswap_32 w = push_bit 24 w OR (push_bit 8 w AND 0xFF0000) OR (drop_bit 8 w AND 0xFF00) OR drop_bit 24 w"

definition bswap_64 :: "u64 \<Rightarrow> u64" where
  "bswap_64 w = push_bit 32 (ucast (bswap_32 (ucast w))) OR ucast (bswap_32 (ucast (drop_bit 32 w)))"

definition cpu_to_elf16 :: "memelfheader \<Rightarrow> u16 \<Rightarrow> u16 tool" where
  "cpu_to_elf16 h v = (if ei_data h = ELFDATA2LSB then Inr v
     else if ei_data h = ELFDATA2MSB then Inr (bswap_16 v)
     else die ''Uknown elf layout in cpu_to_elf16'')"

definition cpu_to_elf32 :: "memelfheader \<Rightarrow> u32 \<Rightarrow> u32 tool" where
  "cpu_to_elf32 h v = (if ei_data h = ELFDATA2LSB then Inr v
     else if ei_data h = ELFDATA2MSB then Inr (bswap_32 v)
     else die ''Uknown elf layout in cpu_to_elf32'')"

definition cpu_to_elf64 :: "memelfheader \<Rightarrow> u64 \<Rightarrow> u64 tool" where
  "cpu_to_elf64 h v = (if ei_data h = ELFDATA2LSB then Inr v
     else if ei_data h = ELFDATA2MSB then Inr (bswap_64 v)
     else die ''Uknown elf layout in cpu_to_elf64'')"

definition half :: "memelfheader \<Rightarrow> u32 \<Rightarrow> u8 list tool" where
  "half h v = bindt (cpu_to_elf16 h (ucast v)) (\<lambda>w. Inr (bytes16 w))"

definition word :: "memelfheader \<Rightarrow> u64 \<Rightarrow> u8 list tool" where
  "word h v = bindt (cpu_to_elf32 h (ucast v)) (\<lambda>w. Inr (bytes32 w))"

definition xword :: "memelfheader \<Rightarrow> u64 \<Rightarrow> u8 list tool" where
  "xword h v = bindt (cpu_to_elf64 h v) (\<lambda>w. Inr (bytes64 w))"

text \<open>The fields of a structure, in the order of their addresses.\<close>

primrec cat :: "u8 list tool list \<Rightarrow> u8 list tool" where
  "cat [] = Inr []"
| "cat (f # fs) = bindt f (\<lambda>a. bindt (cat fs) (\<lambda>b. Inr (a @ b)))"

subsection \<open>Serialized forms\<close>

text \<open>The identification: \<open>EI_MAG0\<close> to \<open>EI_MAG3\<close>, class, data encoding, version and the padding, which
  the buffer has cleared.\<close>

definition e_ident :: "memelfheader \<Rightarrow> u8 list" where
  "e_ident h = [0x7F, of_char CHR ''E'', of_char CHR ''L'', of_char CHR ''F'',
     ucast (ei_class h), ucast (ei_data h), ucast EV_CURRENT] @ replicate 9 0"

definition serialize_ehdr :: "memelfheader \<Rightarrow> u8 list tool" where
  "serialize_ehdr h =
     (if ei_class h = ELFCLASS32
      then cat [Inr (e_ident h), half h (e_type h), half h (e_machine h), word h (ucast EV_CURRENT),
        word h (e_entry h), word h sizeof_Elf32_Ehdr, word h 0, word h (ucast (e_flags h)),
        half h (ucast sizeof_Elf32_Ehdr), half h (ucast sizeof_Elf32_Phdr), half h (e_phnum h),
        half h 0, half h 0, half h 0]
      else if ei_class h = ELFCLASS64
      then cat [Inr (e_ident h), half h (e_type h), half h (e_machine h), word h (ucast EV_CURRENT),
        xword h (e_entry h), xword h sizeof_Elf64_Ehdr, xword h 0, word h (ucast (e_flags h)),
        half h (ucast sizeof_Elf64_Ehdr), half h (ucast sizeof_Elf64_Phdr), half h (e_phnum h),
        half h 0, half h 0, half h 0]
      else die ''Uknown elf class: %x'')"

text \<open>The program headers.  A header of type \<open>PT_NOTE\<close> gets the place and sz of the notes; the type is
  compared after its conversion to the byte order of the image.\<close>

primrec serialize_phdrs32 :: "memelfheader \<Rightarrow> u64 \<Rightarrow> u64 \<Rightarrow> u64 \<Rightarrow> memelfphdr list \<Rightarrow> u8 list tool" where
  "serialize_phdrs32 h note_size note_offset offset [] = Inr []"
| "serialize_phdrs32 h note_size note_offset offset (p # ps) =
     bindt (cpu_to_elf32 h (p_type p)) (\<lambda>type.
     if type = PT_NOTE
     then cat [Inr (bytes32 type), word h note_offset, word h (p_vaddr p), word h (p_paddr p),
       word h note_size, word h note_size, word h (ucast (p_flags p)), word h 0,
       serialize_phdrs32 h note_size note_offset offset ps]
     else cat [Inr (bytes32 type), word h offset, word h (p_vaddr p), word h (p_paddr p),
       word h (p_filesz p), word h (p_memsz p), word h (ucast (p_flags p)), word h 0,
       serialize_phdrs32 h note_size note_offset (offset + p_filesz p) ps])"

primrec serialize_phdrs64 :: "memelfheader \<Rightarrow> u64 \<Rightarrow> u64 \<Rightarrow> u64 \<Rightarrow> memelfphdr list \<Rightarrow> u8 list tool" where
  "serialize_phdrs64 h note_size note_offset offset [] = Inr []"
| "serialize_phdrs64 h note_size note_offset offset (p # ps) =
     bindt (cpu_to_elf32 h (p_type p)) (\<lambda>type.
     if type = PT_NOTE
     then cat [Inr (bytes32 type), word h (ucast (p_flags p)), xword h note_offset,
       xword h (p_vaddr p), xword h (p_paddr p), xword h note_size, xword h note_size, xword h 0,
       serialize_phdrs64 h note_size note_offset offset ps]
     else cat [Inr (bytes32 type), word h (ucast (p_flags p)), xword h offset,
       xword h (p_vaddr p), xword h (p_paddr p), xword h (p_filesz p), xword h (p_memsz p), xword h 0,
       serialize_phdrs64 h note_size note_offset (offset + p_filesz p) ps])"

definition serialize_phdrs :: "memelfheader \<Rightarrow> u64 \<Rightarrow> u8 list tool" where
  "serialize_phdrs h note_size =
     (if ei_class h = ELFCLASS32
      then let note_offset = sizeof_Elf32_Ehdr + sizeof_Elf32_Phdr * ucast (e_phnum h)
           in serialize_phdrs32 h note_size note_offset (note_offset + note_size)
                (take (unat (e_phnum h)) (e_phdr h))
      else if ei_class h = ELFCLASS64
      then let note_offset = sizeof_Elf64_Ehdr + sizeof_Elf64_Phdr * ucast (e_phnum h)
           in serialize_phdrs64 h note_size note_offset (note_offset + note_size)
                (take (unat (e_phnum h)) (e_phdr h))
      else die ''Unknwon elf class: %x'')"

text \<open>A note: its header, the name with its final zero and the descriptor, both filled up with zeros
  to a multiple of four.  A descriptor of more than \<open>2 ^ 32 - 4\<close> bytes counts for nothing in the sz
  of the notes and is copied past the end of the buffer.\<close>

definition desc_bytes :: "u16 \<Rightarrow> memelfnote \<Rightarrow> u8 list tool" where
  "desc_bytes checksum n =
     bytes_at (unat (n_descsz n)) (case n_desc n of Desc d \<Rightarrow> d | Checksum \<Rightarrow> bytes16 checksum)"

definition filled :: "nat \<Rightarrow> u8 list \<Rightarrow> u8 list tool" where
  "filled n bs = (if length bs \<le> n then Inr (bs @ replicate (n - length bs) 0) else Inl Stray)"

definition serialize_note :: "memelfheader \<Rightarrow> u16 \<Rightarrow> memelfnote \<Rightarrow> u8 list tool" where
  "serialize_note h checksum n =
     (let n_namesz = of_nat (length (n_name n)) + 1 :: u64
      in cat [word h n_namesz, word h (ucast (n_descsz n)), word h (ucast (n_type n)),
           filled (unat (roundup n_namesz 4)) (ascii (n_name n) @ [0]),
           bindt (desc_bytes checksum n) (filled (unat (roundup (n_descsz n) 4)))])"

definition serialize_notes :: "memelfheader \<Rightarrow> u16 \<Rightarrow> u8 list tool" where
  "serialize_notes h checksum =
     cat (map (serialize_note h checksum) (take (unat (e_notenum h)) (e_notes h)))"

subsection \<open>The host\<close>

text \<open>
  What the tool uses of its host: the files by name, which sizes \<open>malloc\<close> can serve, which system calls
  on a file succeed, the results of the coming calls of \<open>read\<close> and \<open>write\<close> (so many bytes moved,
  interrupted or to be tried again, or failed), and what \<open>gzread\<close> of the compression library returns for
  a file.
\<close>

datatype io_result = Moved nat | Again | Failed

datatype gz_result = Got "u8 list" | GzAgain | GzFailed

datatype sys_call = Sys_open | Sys_fstat | Sys_close | Sys_gzopen | Sys_gzclose

record host =
  files :: "string \<Rightarrow> u8 list option"
  malloc_ok :: "u64 \<Rightarrow> bool"
  call_ok :: "sys_call \<Rightarrow> string \<Rightarrow> bool"
  io :: "io_result list"
  gz :: "string \<Rightarrow> gz_result list"

type_synonym 'a prog = "host \<Rightarrow> 'a tool \<times> host"

definition lift_tool :: "'a tool \<Rightarrow> 'a prog" where
  "lift_tool t H = (t, H)"

definition bindp :: "'a prog \<Rightarrow> ('a \<Rightarrow> 'b prog) \<Rightarrow> 'b prog" where
  "bindp m f H = (case m H of (Inl e, H) \<Rightarrow> (Inl e, H) | (Inr x, H) \<Rightarrow> f x H)"

lemma bindp_lift [simp, tool_simps]:
  "bindp (lift_tool (Inr x)) f = f x"
  "bindp (lift_tool (Inl e)) f = lift_tool (Inl e)"
  by (simp_all add: bindp_def lift_tool_def fun_eq_iff)

lemma bindp_eq_Inr:
  "bindp m f H = (Inr y, H') \<longleftrightarrow> (\<exists>x K. m H = (Inr x, K) \<and> f x K = (Inr y, H'))"
  by (auto simp: bindp_def split: prod.splits sum.splits)

lemma lift_tool_eq_Inr: "lift_tool t H = (Inr x, H') \<longleftrightarrow> t = Inr x \<and> H' = H"
  by (auto simp: lift_tool_def)

definition xmalloc :: "u64 \<Rightarrow> unit prog" where
  "xmalloc sz H = (if malloc_ok H sz then Inr () else die ''Cannot malloc %ld bytes to hold %s: %s'', H)"

definition xrealloc :: "u64 \<Rightarrow> unit prog" where
  "xrealloc sz H = (if malloc_ok H sz then Inr () else die ''Cannot realloc %ld bytes to hold %s: %s'', H)"

text \<open>The arrays of program headers and notes are allocated; an entry has 48 and 32 bytes.\<close>

definition add_program_headers :: "nat \<Rightarrow> memelfheader \<Rightarrow> memelfheader prog" where
  "add_program_headers count h = bindp (xmalloc (of_nat count * 48)) (\<lambda>_.
     lift_tool (Inr (h\<lparr>e_phnum := of_nat count, e_phdr := replicate count default_phdr\<rparr>)))"

definition add_notes :: "nat \<Rightarrow> memelfheader \<Rightarrow> memelfheader prog" where
  "add_notes count h = bindp (xmalloc (of_nat count * 32)) (\<lambda>_.
     lift_tool (Inr (h\<lparr>e_notenum := of_nat count,
       e_notes := replicate count \<lparr> n_type = 0, n_name = [], n_desc = Desc [], n_descsz = 0 \<rparr>\<rparr>)))"

subsection \<open>Writing\<close>

text \<open>The loop of \<open>write_buf\<close>: what \<open>write\<close> moves is appended to the file.\<close>

function write_loop :: "string \<Rightarrow> u8 list \<Rightarrow> nat \<Rightarrow> nat \<Rightarrow> unit prog" where
  "write_loop f buf sz progress H =
     (if progress \<ge> sz then (Inr (), H)
      else case io H of
        [] \<Rightarrow> (Inl Waiting, H)
      | Again # rs \<Rightarrow> write_loop f buf sz progress (H\<lparr>io := rs\<rparr>)
      | Failed # rs \<Rightarrow> (die ''write of %ld bytes failed: %s'', H\<lparr>io := rs\<rparr>)
      | Moved n # rs \<Rightarrow>
          let n = min n (sz - progress)
          in write_loop f buf sz (progress + n)
               (H\<lparr>io := rs, files := (files H)(f := map_option (\<lambda>c. c @ take n (drop progress buf)) (files H f))\<rparr>))"
  by pat_completeness auto
termination
  by (relation "measure (\<lambda>(f, buf, sz, progress, H). length (io H))") auto

declare write_loop.simps [simp del]

definition write_buf :: "string \<Rightarrow> u8 list \<Rightarrow> nat \<Rightarrow> unit prog" where
  "write_buf f buf sz H =
     (if sz \<le> length buf then write_loop f buf sz 0 H else (Inl Stray, H))"

primrec write_segs :: "string \<Rightarrow> memelfphdr list \<Rightarrow> unit prog" where
  "write_segs f [] = lift_tool (Inr ())"
| "write_segs f (p # ps) = bindp (write_buf f (p_data p) (unat (p_filesz p))) (\<lambda>_. write_segs f ps)"

text \<open>The output must not exist: \<open>O_CREAT | O_EXCL\<close>.\<close>

definition create_file :: "string \<Rightarrow> unit prog" where
  "create_file f H =
     (if files H f = None \<and> call_ok H Sys_open f then (Inr (), H\<lparr>files := (files H)(f \<mapsto> [])\<rparr>)
      else (die (''Cannot open ``%s'' @ [CHR 0x27, CHR 0x27] @ '':%s''), H))"

definition close_file :: "string \<Rightarrow> string \<Rightarrow> unit prog" where
  "close_file msg f H = (if call_ok H Sys_close f then Inr () else die msg, H)"

text \<open>A note of name \<open>ELFBoot\<close> and of the type of the checksum is made to show the variable.\<close>

definition is_checksum_note :: "memelfnote \<Rightarrow> bool" where
  "is_checksum_note n \<longleftrightarrow> take 8 (ascii (n_name n) @ [0]) = ascii ''ELFBoot'' @ [0]
     \<and> n_type n = EIN_PROGRAM_CHECKSUM"

definition show_checksum :: "memelfheader \<Rightarrow> memelfheader" where
  "show_checksum h = h\<lparr>e_notes :=
     map (\<lambda>n. if is_checksum_note n then n\<lparr>n_desc := Checksum, n_descsz := 2\<rparr> else n)
       (take (unat (e_notenum h)) (e_notes h)) @ drop (unat (e_notenum h)) (e_notes h)\<rparr>"

definition header_sizes :: "memelfheader \<Rightarrow> (u64 \<times> u64) tool" where
  "header_sizes h =
     (if ei_class h = ELFCLASS32
      then Inr (sizeof_Elf32_Ehdr, sizeof_Elf32_Phdr * ucast (e_phnum h))
      else if ei_class h = ELFCLASS64
      then Inr (sizeof_Elf64_Ehdr, sizeof_Elf64_Phdr * ucast (e_phnum h))
      else die ''Unknown elf class: %x'')"

text \<open>The checksum goes over the bytes of the file, but counts places by the sizes in memory.\<close>

primrec checksum_segs :: "u64 \<Rightarrow> u16 \<Rightarrow> memelfphdr list \<Rightarrow> u16 tool" where
  "checksum_segs bytes checksum [] = Inr checksum"
| "checksum_segs bytes checksum (p # ps) =
     bindt (bytes_at (unat (p_filesz p)) (p_data p)) (\<lambda>d.
       checksum_segs (bytes + p_memsz p) (add_ipchksums bytes checksum (ipchksum d)) ps)"

definition arrays_ok :: "memelfheader \<Rightarrow> bool" where
  "arrays_ok h \<longleftrightarrow> unat (e_phnum h) \<le> length (e_phdr h) \<and> unat (e_notenum h) \<le> length (e_notes h)"

definition notes_size :: "memelfheader \<Rightarrow> u64" where
  "notes_size h = (if ctrue (e_notenum h)
     then scast (sizeof_notes (take (unat (e_notenum h)) (e_notes h))) else 0)"

text \<open>The headers and notes are written into one buffer of \<open>size\<close> bytes, which they must not overrun; the
  segments follow in the file.\<close>

definition write_elf :: "memelfheader \<Rightarrow> string \<Rightarrow> unit prog" where
  "write_elf ehdr output =
     (if \<not> arrays_ok ehdr then lift_tool (Inl Stray)
      else let ehdr = show_checksum ehdr;
               note_size = notes_size ehdr;
               segs = take (unat (e_phnum ehdr)) (e_phdr ehdr)
      in bindp (lift_tool (header_sizes ehdr)) (\<lambda>(ehdr_size, phdr_size).
         bindp (xmalloc (ehdr_size + phdr_size + note_size)) (\<lambda>_.
         bindp (lift_tool (serialize_ehdr ehdr)) (\<lambda>e.
         bindp (lift_tool (serialize_phdrs ehdr note_size)) (\<lambda>p.
         bindp (lift_tool (checksum_segs (ehdr_size + phdr_size) (ipchksum (e @ p)) segs)) (\<lambda>checksum.
         bindp (lift_tool (serialize_notes ehdr checksum)) (\<lambda>n.
         bindp (lift_tool (if length n = unat note_size then Inr () else Inl Stray)) (\<lambda>_.
         bindp (create_file output) (\<lambda>_.
         bindp (write_buf output (e @ p @ n) (unat (ehdr_size + phdr_size + note_size))) (\<lambda>_.
         bindp (write_segs output segs) (\<lambda>_.
         close_file ''Close on %s failed: %s'' output)))))))))))"

subsection \<open>Writes in pieces\<close>

text \<open>However \<open>write\<close> splits the buffer, what arrives is the buffer.\<close>

lemma write_loop_appends:
  "write_loop f buf sz progress H = (Inr (), H') \<Longrightarrow> progress \<le> sz \<Longrightarrow> files H f = Some c \<Longrightarrow>
    files H' = (files H)(f \<mapsto> c @ take (sz - progress) (drop progress buf))
    \<and> malloc_ok H' = malloc_ok H \<and> call_ok H' = call_ok H \<and> gz H' = gz H"
proof (induction f buf sz progress H arbitrary: c rule: write_loop.induct)
  case (1 f buf sz progress H)
  show ?case
  proof (cases "progress \<ge> sz")
    case True
    then show ?thesis using "1.prems" by (simp add: write_loop.simps fun_upd_idem)
  next
    case False
    show ?thesis
    proof (cases "io H")
      case Nil
      then show ?thesis using "1.prems" False by (simp add: write_loop.simps)
    next
      case (Cons r rs)
      show ?thesis
      proof (cases r)
        case (Moved n)
        let ?n = "min n (sz - progress)"
        have r: "take (sz - progress) (drop progress buf) =
            take ?n (drop progress buf) @ take (sz - (progress + ?n)) (drop (progress + ?n) buf)"
          by (metis (no_types, lifting) add.commute diff_diff_left drop_drop le_add_diff_inverse min.cobounded2 take_add)
        let ?K = "H\<lparr>io := rs, files := (files H)(f := map_option (\<lambda>c. c @ take ?n (drop progress buf)) (files H f))\<rparr>"
        have step: "write_loop f buf sz progress H = write_loop f buf sz (progress + ?n) ?K"
          using False Cons Moved by (subst write_loop.simps) (simp add: Let_def)
        have "files H' = (files ?K)(f \<mapsto> (c @ take ?n (drop progress buf))
              @ take (sz - (progress + ?n)) (drop (progress + ?n) buf))
            \<and> malloc_ok H' = malloc_ok ?K \<and> call_ok H' = call_ok ?K \<and> gz H' = gz ?K"
          by (rule "1.IH"(1) [OF False Cons Moved refl]) (use "1.prems" False step in auto)
        then show ?thesis using r by simp
      next
        case Again
        then have "write_loop f buf sz progress H = write_loop f buf sz progress (H\<lparr>io := rs\<rparr>)"
          using False Cons by (subst write_loop.simps) simp
        then show ?thesis
          using "1.prems" "1.IH"(2) [OF False Cons Again] by simp
      next
        case Failed
        then show ?thesis using "1.prems" False Cons by (simp add: write_loop.simps)
      qed
    qed
  qed
qed

lemma write_buf_appends:
  assumes "write_buf f buf n H = (Inr (), H')" "files H f = Some c"
  shows "files H' = (files H)(f \<mapsto> c @ take n buf) \<and> n \<le> length buf"
    "malloc_ok H' = malloc_ok H" "call_ok H' = call_ok H" "gz H' = gz H"
  using assms write_loop_appends [of f buf n 0 H H' c] by (auto simp: write_buf_def split: if_splits)

text \<open>The bytes of a segment in the file and in the memory of the machine that loads the image.\<close>

definition file_image :: "memelfphdr \<Rightarrow> u8 list" where
  "file_image p = take (unat (p_filesz p)) (p_data p)"

definition memory_image :: "memelfphdr \<Rightarrow> u8 list" where
  "memory_image p = file_image p @ replicate (unat (p_memsz p) - unat (p_filesz p)) 0"

lemma write_segs_appends:
  assumes "write_segs f ps H = (Inr (), H')" "files H f = Some c"
  shows "files H' = (files H)(f \<mapsto> c @ concat (map file_image ps)) \<and> call_ok H' = call_ok H"
  using assms
proof (induction ps arbitrary: H c)
  case Nil
  then show ?case by (simp add: lift_tool_def fun_upd_idem)
next
  case (Cons p ps)
  obtain K where K: "write_buf f (p_data p) (unat (p_filesz p)) H = (Inr (), K)"
      "write_segs f ps K = (Inr (), H')"
    using Cons.prems by (auto simp: bindp_eq_Inr)
  show ?case
    using write_buf_appends [OF K(1) Cons.prems(2)] Cons.IH [OF K(2)]
    by (auto simp: file_image_def fun_eq_iff)
qed

lemma length_memory_image:
  assumes "unat (p_filesz p) \<le> length (p_data p)" "p_filesz p \<le> p_memsz p"
  shows "length (memory_image p) = unat (p_memsz p)"
  using assms by (simp add: memory_image_def file_image_def word_le_nat_alt)

lemma checksum_segs_whole:
  assumes "checksum_segs (of_nat (length a)) (ipchksum a) ps = Inr c" "\<forall>p\<in>set ps. p_filesz p \<le> p_memsz p"
  shows "c = ipchksum (a @ concat (map memory_image ps))"
  using assms
proof (induction ps arbitrary: a)
  case (Cons p ps)
  have l: "unat (p_filesz p) \<le> length (p_data p)"
    using Cons.prems(1) by (auto simp: bytes_at_def bindt_eq_Inr split: if_splits)
  have "add_ipchksums (of_nat (length a)) (ipchksum a) (ipchksum (file_image p)) = ipchksum (a @ memory_image p)"
    by (metis append_assoc ipchksum_pieces ipchksum_zeros memory_image_def)
  moreover have "of_nat (length a) + p_memsz p = of_nat (length (a @ memory_image p))"
    using length_memory_image [OF l] Cons.prems(2) by simp
  ultimately have "checksum_segs (of_nat (length (a @ memory_image p))) (ipchksum (a @ memory_image p)) ps = Inr c"
    using Cons.prems(1) l by (simp add: bytes_at_def file_image_def)
  then show ?case
    using Cons.IH [of "a @ memory_image p"] Cons.prems(2) by simp
qed simp

subsection \<open>The image\<close>

definition notes_of :: "memelfheader \<Rightarrow> u8 list \<Rightarrow> u8 list tool" where
  "notes_of h d = serialize_notes (show_checksum h) (ipchksum d)"

lemma show_checksum_simps [simp]:
  "e_phnum (show_checksum h) = e_phnum h" "e_phdr (show_checksum h) = e_phdr h"
  "e_notenum (show_checksum h) = e_notenum h" "ei_class (show_checksum h) = ei_class h"
  "ei_data (show_checksum h) = ei_data h" "e_entry (show_checksum h) = e_entry h"
  by (simp_all add: show_checksum_def)

lemma write_elf_runs:
  assumes "write_elf h out H = (Inr (), H')"
  obtains e p n hs ps where "serialize_ehdr (show_checksum h) = Inr e"
    "header_sizes h = Inr (hs, ps)"
    "serialize_phdrs (show_checksum h) (notes_size (show_checksum h)) = Inr p"
    "length n = unat (notes_size (show_checksum h))"
    "unat (hs + ps + notes_size (show_checksum h)) \<le> length (e @ p @ n)"
    "files H out = None"
    "files H' = (files H)(out \<mapsto> take (unat (hs + ps + notes_size (show_checksum h))) (e @ p @ n)
       @ concat (map file_image (take (unat (e_phnum h)) (e_phdr h))))"
    "\<exists>c. checksum_segs (hs + ps) (ipchksum (e @ p)) (take (unat (e_phnum h)) (e_phdr h)) = Inr c
       \<and> serialize_notes (show_checksum h) c = Inr n"
    "arrays_ok h"
proof -
  have hz: "header_sizes (show_checksum h) = header_sizes h"
    by (simp add: header_sizes_def)
  obtain e p n hs ps c K1 K2 K3 K4 where *: "arrays_ok h" "header_sizes h = Inr (hs, ps)"
    "xmalloc (hs + ps + notes_size (show_checksum h)) H = (Inr (), K1)"
    "serialize_ehdr (show_checksum h) = Inr e"
    "serialize_phdrs (show_checksum h) (notes_size (show_checksum h)) = Inr p"
    "checksum_segs (hs + ps) (ipchksum (e @ p)) (take (unat (e_phnum h)) (e_phdr h)) = Inr c"
    "serialize_notes (show_checksum h) c = Inr n"
    "length n = unat (notes_size (show_checksum h))"
    "create_file out K1 = (Inr (), K2)"
    "write_buf out (e @ p @ n) (unat (hs + ps + notes_size (show_checksum h))) K2 = (Inr (), K3)"
    "write_segs out (take (unat (e_phnum h)) (e_phdr h)) K3 = (Inr (), K4)"
    "close_file ''Close on %s failed: %s'' out K4 = (Inr (), H')"
    using assms
    by (auto simp: write_elf_def Let_def bindp_eq_Inr lift_tool_eq_Inr hz split: if_splits)
  have K: "K1 = H" "files H out = None" "K2 = H\<lparr>files := (files H)(out \<mapsto> [])\<rparr>" "H' = K4"
    using *(3,9,12) by (auto simp: xmalloc_def create_file_def close_file_def split: if_splits)
  have "files K2 out = Some []"
    by (simp add: K)
  note b = write_buf_appends [OF *(10) this]
  have "files K3 out = Some (take (unat (hs + ps + notes_size (show_checksum h))) (e @ p @ n))"
    using b(1) by simp
  note s = write_segs_appends [OF *(11) this]
  show ?thesis
    by (rule that [OF *(4) *(2) *(5) *(8)]) (use b s K * in auto)
qed

text \<open>Sizes of the serialized forms.\<close>

lemma cat_eq_Inr [simp]:
  "cat [] = Inr x \<longleftrightarrow> x = []"
  "cat (f # fs) = Inr x \<longleftrightarrow> (\<exists>a b. f = Inr a \<and> cat fs = Inr b \<and> x = a @ b)"
  by (auto simp: bindt_eq_Inr)

lemma half_length: "half h v = Inr b \<Longrightarrow> length b = 2"
  by (auto simp: half_def bindt_eq_Inr bytes16_def)

lemma word_length: "word h v = Inr b \<Longrightarrow> length b = 4"
  by (auto simp: word_def bindt_eq_Inr bytes32_def)

lemma xword_length: "xword h v = Inr b \<Longrightarrow> length b = 8"
  by (auto simp: xword_def bindt_eq_Inr bytes64_def bytes32_def)

lemma e_ident_length [simp]: "length (e_ident h) = 16"
  by (simp add: e_ident_def)

lemmas field_lengths = half_length word_length xword_length

lemma serialize_ehdr_length:
  assumes "serialize_ehdr h = Inr e"
  shows "ei_class h = ELFCLASS32 \<Longrightarrow> length e = 52" "ei_class h = ELFCLASS64 \<Longrightarrow> length e = 64"
  using assms
  by (auto simp: serialize_ehdr_def elf_consts simp del: cat.simps dest!: field_lengths)

lemma serialize_phdrs32_length:
  "serialize_phdrs32 h ns no off ps = Inr b \<Longrightarrow> length b = 32 * length ps"
  by (induction ps arbitrary: off b)
     (auto simp: bindt_eq_Inr bytes32_def simp del: cat.simps split: if_splits dest!: field_lengths)

lemma serialize_phdrs64_length:
  "serialize_phdrs64 h ns no off ps = Inr b \<Longrightarrow> length b = 56 * length ps"
  by (induction ps arbitrary: off b)
     (auto simp: bindt_eq_Inr bytes32_def simp del: cat.simps split: if_splits dest!: field_lengths)

lemma headers_length:
  assumes "serialize_ehdr h = Inr e" "serialize_phdrs h ns = Inr p" "header_sizes h = Inr (hs, ps)"
    "arrays_ok h"
  shows "hs + ps = of_nat (length (e @ p))" "length (e @ p) < 2 ^ 39"
proof -
  have n: "unat (e_phnum h) < 2 ^ 32" using unsigned_less [of "e_phnum h"] by simp
  have c: "of_nat (unat (e_phnum h)) = (ucast (e_phnum h) :: u64)" by simp
  have "length e = unat hs \<and> length p = (if ei_class h = ELFCLASS32 then 32 else 56) * unat (e_phnum h)
      \<and> ps = (if ei_class h = ELFCLASS32 then 32 else 56) * ucast (e_phnum h) \<and> unat hs \<le> 64"
    using assms serialize_ehdr_length [OF assms(1)]
    by (auto simp: serialize_phdrs_def header_sizes_def arrays_ok_def Let_def elf_sizes
        split: if_splits dest!: serialize_phdrs32_length serialize_phdrs64_length)
  then show "hs + ps = of_nat (length (e @ p))" "length (e @ p) < 2 ^ 39"
    using n by (auto simp: c split: if_splits)
qed

lemma serialize_phdrs_cong:
  assumes "ei_data h = ei_data g"
  shows "serialize_phdrs32 h = serialize_phdrs32 g" "serialize_phdrs64 h = serialize_phdrs64 g"
    "half h = half g" "word h = word g" "xword h = xword g"
proof -
  have c: "cpu_to_elf16 h = cpu_to_elf16 g" "cpu_to_elf32 h = cpu_to_elf32 g" "cpu_to_elf64 h = cpu_to_elf64 g"
    using assms by (simp_all add: cpu_to_elf16_def cpu_to_elf32_def cpu_to_elf64_def fun_eq_iff)
  then show w: "half h = half g" "word h = word g" "xword h = xword g"
    by (simp_all add: half_def word_def xword_def fun_eq_iff)
  show "serialize_phdrs32 h = serialize_phdrs32 g"
  proof (intro ext)
    show "serialize_phdrs32 h a b d ps = serialize_phdrs32 g a b d ps" for a b d ps
      by (induction ps arbitrary: d) (simp_all add: c w cong: if_cong)
  qed
  show "serialize_phdrs64 h = serialize_phdrs64 g"
  proof (intro ext)
    show "serialize_phdrs64 h a b d ps = serialize_phdrs64 g a b d ps" for a b d ps
      by (induction ps arbitrary: d) (simp_all add: c w cong: if_cong)
  qed
qed

lemma show_checksum_headers [simp]:
  "serialize_ehdr (show_checksum h) = serialize_ehdr h"
  "serialize_phdrs (show_checksum h) = serialize_phdrs h"
  by (simp_all add: serialize_ehdr_def serialize_phdrs_def fun_eq_iff e_ident_def Let_def show_checksum_def
      serialize_phdrs_cong [of "h\<lparr>e_notes := x\<rparr>" h for x])

abbreviation segments :: "memelfheader \<Rightarrow> memelfphdr list" where
  "segments h \<equiv> take (unat (e_phnum h)) (e_phdr h)"

lemma write_elf_pieces:
  assumes "write_elf h out H = (Inr (), H')" "notes_size (show_checksum h) < 2 ^ 31"
  obtains e p n c where "serialize_ehdr h = Inr e" "serialize_phdrs h (notes_size (show_checksum h)) = Inr p"
    "checksum_segs (of_nat (length (e @ p))) (ipchksum (e @ p)) (segments h) = Inr c"
    "serialize_notes (show_checksum h) c = Inr n" "length n = unat (notes_size (show_checksum h))"
    "files H out = None" "arrays_ok h"
    "files H' = (files H)(out \<mapsto> e @ p @ n @ concat (map file_image (segments h)))"
proof (rule write_elf_runs [OF assms(1)], unfold show_checksum_headers)
  fix e p n hs ps
  assume *: "serialize_ehdr h = Inr e" "header_sizes h = Inr (hs, ps)"
    "serialize_phdrs h (notes_size (show_checksum h)) = Inr p"
    "length n = unat (notes_size (show_checksum h))" "files H out = None"
    "files H' = (files H)(out \<mapsto> take (unat (hs + ps + notes_size (show_checksum h))) (e @ p @ n)
       @ concat (map file_image (segments h)))"
    "\<exists>c. checksum_segs (hs + ps) (ipchksum (e @ p)) (segments h) = Inr c
       \<and> serialize_notes (show_checksum h) c = Inr n" "arrays_ok h"
  note hl = headers_length [OF *(1,3,2) *(8)]
  have "unat (hs + ps + notes_size (show_checksum h)) = length (e @ p @ n)"
    using hl(2) *(4) assms(2)
    by (simp add: hl(1) unat_word_ariths unat_of_nat word_less_nat_alt)
  then have f: "files H' = (files H)(out \<mapsto> e @ p @ n @ concat (map file_image (segments h)))"
    using *(6) by simp
  obtain c where c: "checksum_segs (hs + ps) (ipchksum (e @ p)) (segments h) = Inr c"
      "serialize_notes (show_checksum h) c = Inr n"
    using *(7) by blast
  show thesis
    by (rule that [OF *(1) *(3) _ c(2) *(4) *(5) *(8) f]) (use c(1) hl(1) in simp)
qed

text \<open>C32: a run of \<open>write_elf\<close> that returns, with notes of less than 2 GB, has made a new file of the headers,
  the notes and the segments, however the system splits the writes; and the checksum it puts into the
  notes, which is computed piece by piece over the contents of the segments, is the IP checksum of the
  headers followed by the memory that the segments fill, zeros up to the size in memory included
  (\<open>elf_boot.h\<close>: "ip style checksum of the memory image"), when no segment has more bytes in the file than
  in memory.  (A bzImage of more than 7 MB has: \<open>mkelf-linux-i386.c\<close> fixes its size in memory.)\<close>

theorem write_elf_image:
  assumes "write_elf h out H = (Inr (), H')"
    and "notes_size (show_checksum h) < 2 ^ 31"
  shows "\<exists>e p n c. serialize_ehdr h = Inr e \<and> serialize_phdrs h (notes_size (show_checksum h)) = Inr p \<and>
    serialize_notes (show_checksum h) c = Inr n \<and>
    ((\<forall>p\<in>set (segments h). p_filesz p \<le> p_memsz p) \<longrightarrow> c = ipchksum (e @ p @ concat (map memory_image (segments h)))) \<and>
    files H out = None \<and>
    files H' = (files H)(out \<mapsto> e @ p @ n @ concat (map file_image (segments h)))"
proof (rule write_elf_pieces [OF assms])
  fix e p n c
  assume *: "serialize_ehdr h = Inr e" "serialize_phdrs h (notes_size (show_checksum h)) = Inr p"
    "checksum_segs (of_nat (length (e @ p))) (ipchksum (e @ p)) (segments h) = Inr c"
    "serialize_notes (show_checksum h) c = Inr n" "files H out = None"
    "files H' = (files H)(out \<mapsto> e @ p @ n @ concat (map file_image (segments h)))"
  have "(\<forall>p\<in>set (segments h). p_filesz p \<le> p_memsz p) \<longrightarrow> c = ipchksum (e @ p @ concat (map memory_image (segments h)))"
    using checksum_segs_whole [OF *(3)] by simp
  then show ?thesis
    using * by blast
qed

subsection \<open>Reading headers\<close>

text \<open>The little endian fields of a structure, by their places.\<close>

definition rd8 :: "u8 list \<Rightarrow> nat \<Rightarrow> u8 tool" where
  "rd8 b i = (if i < length b then Inr (b ! i) else Inl Stray)"

definition rd16 :: "u8 list \<Rightarrow> nat \<Rightarrow> u16 tool" where
  "rd16 b i = bindt (rd8 b i) (\<lambda>l. bindt (rd8 b (i + 1)) (\<lambda>h. Inr (ucast l OR push_bit 8 (ucast h))))"

definition rd32 :: "u8 list \<Rightarrow> nat \<Rightarrow> u32 tool" where
  "rd32 b i = bindt (rd16 b i) (\<lambda>l. bindt (rd16 b (i + 2)) (\<lambda>h. Inr (ucast l OR push_bit 16 (ucast h))))"

definition rd64 :: "u8 list \<Rightarrow> nat \<Rightarrow> u64 tool" where
  "rd64 b i = bindt (rd32 b i) (\<lambda>l. bindt (rd32 b (i + 4)) (\<lambda>h. Inr (ucast l OR push_bit 32 (ucast h))))"

lemma rd_append_right:
  "rd8 (a @ b) (length a + i) = rd8 b i" "rd16 (a @ b) (length a + i) = rd16 b i"
  "rd32 (a @ b) (length a + i) = rd32 b i" "rd64 (a @ b) (length a + i) = rd64 b i"
proof -
  show *: "rd8 (a @ b) (length a + i) = rd8 b i" for i
    by (simp add: rd8_def nth_append)
  show **: "rd16 (a @ b) (length a + i) = rd16 b i" for i
    using * [of "i + 1"] by (simp add: rd16_def * add.assoc)
  show ***: "rd32 (a @ b) (length a + i) = rd32 b i" for i
    using ** [of "i + 2"] by (simp add: rd32_def ** add.assoc)
  show "rd64 (a @ b) (length a + i) = rd64 b i"
    using *** [of "i + 4"] by (simp add: rd64_def *** add.assoc)
qed

lemma join_bytes:
  "ucast (ucast v :: u8) OR push_bit 8 (ucast (ucast (drop_bit 8 v) :: u8)) = (v :: u16)"
  "ucast (ucast w :: u16) OR push_bit 16 (ucast (ucast (drop_bit 16 w) :: u16)) = (w :: u32)"
  "ucast (ucast x :: u32) OR push_bit 32 (ucast (ucast (drop_bit 32 x) :: u32)) = (x :: u64)"
  by (rule bit_word_eqI, auto simp: bit_simps)+

lemma bytes32_halves: "bytes32 w = bytes16 (ucast w) @ bytes16 (ucast (drop_bit 16 w))"
proof -
  have "(ucast (ucast w :: u16) :: u8) = ucast w" "(ucast (drop_bit 8 (ucast w :: u16)) :: u8) = ucast (drop_bit 8 w)"
    "(ucast (ucast (drop_bit 16 w) :: u16) :: u8) = ucast (drop_bit 16 w)"
    "(ucast (drop_bit 8 (ucast (drop_bit 16 w) :: u16)) :: u8) = ucast (drop_bit 24 w)"
    by (rule bit_word_eqI, auto simp: bit_simps)+
  then show ?thesis
    by (simp add: bytes32_def bytes16_def)
qed

lemma rd_bytes:
  "rd16 (bytes16 v @ r) 0 = Inr v" "rd32 (bytes32 w @ r) 0 = Inr w" "rd64 (bytes64 x @ r) 0 = Inr x"
proof -
  show *: "rd16 (bytes16 v @ r) 0 = Inr v" for v r
    by (simp add: rd8_def rd16_def bytes16_def join_bytes)
  show **: "rd32 (bytes32 w @ r) 0 = Inr w" for w r
    using rd_append_right(2) [of "bytes16 (ucast w)" "bytes16 (ucast (drop_bit 16 w)) @ r" 0]
    by (simp add: rd32_def bytes32_halves *) (simp add: bytes16_def * [unfolded bytes16_def] join_bytes)
  have l: "length (bytes32 w) = 4" for w by (simp add: bytes32_def)
  have "rd32 (bytes64 x @ r) 4 = Inr (ucast (drop_bit 32 x))" "rd32 (bytes64 x @ r) 0 = Inr (ucast x)"
    using rd_append_right(3) [of "bytes32 (ucast x)" "bytes32 (ucast (drop_bit 32 x)) @ r" 0]
    by (simp_all add: bytes64_def ** l)
  then show "rd64 (bytes64 x @ r) 0 = Inr x"
    by (simp add: rd64_def join_bytes)
qed

lemma rd32_prefix: "rd32 a i = Inr w \<Longrightarrow> rd32 (a @ b) i = Inr w"
  by (auto simp: rd32_def rd16_def rd8_def bindt_eq_Inr nth_append split: if_splits)

subsection \<open>The places of the segments\<close>

definition seg_offset :: "memelfphdr list \<Rightarrow> nat \<Rightarrow> u64" where
  "seg_offset ps i = sum_list (map p_filesz (filter (\<lambda>p. p_type p \<noteq> PT_NOTE) (take i ps)))"

lemma lsb_fields:
  assumes "ei_data h = ELFDATA2LSB"
  shows "cpu_to_elf32 h v = Inr v" "word h x = Inr (bytes32 (ucast x))"
  using assms by (simp_all add: word_def cpu_to_elf32_def)

lemma phdrs32_entry:
  assumes "ei_data h = ELFDATA2LSB" "serialize_phdrs32 h ns no off ps = Inr b" "i < length ps"
    "p_type (ps ! i) \<noteq> PT_NOTE"
  shows "rd32 b (32 * i + 4) = Inr (ucast (off + seg_offset ps i)) \<and>
    rd32 b (32 * i + 12) = Inr (ucast (p_paddr (ps ! i))) \<and>
    rd32 b (32 * i + 16) = Inr (ucast (p_filesz (ps ! i)))"
  using assms(2-4)
proof (induction ps arbitrary: i off b)
  case (Cons p ps)
  obtain a r where b: "b = a @ r" "length a = 32"
      "serialize_phdrs32 h ns no (if p_type p = PT_NOTE then off else off + p_filesz p) ps = Inr r"
      "p_type p \<noteq> PT_NOTE \<Longrightarrow> a = bytes32 (p_type p) @ bytes32 (ucast off) @ bytes32 (ucast (p_vaddr p)) @
        bytes32 (ucast (p_paddr p)) @ bytes32 (ucast (p_filesz p)) @ bytes32 (ucast (p_memsz p)) @
        bytes32 (ucast (ucast (p_flags p) :: u64)) @ bytes32 0"
    using Cons.prems(1) assms(1)
    by (auto simp: lsb_fields bytes32_def simp del: cat.simps split: if_splits)
  show ?case
  proof (cases i)
    case 0
    have l: "length (bytes32 x) = 4" for x by (simp add: bytes32_def)
    have t: "p_type p \<noteq> PT_NOTE" using Cons.prems(3) 0 by simp
    have "rd32 (bytes32 x @ bytes32 y @ z) 4 = Inr y" for x y z
      using rd_append_right(3) [of "bytes32 x" "bytes32 y @ z" 0] by (simp add: l rd_bytes)
    moreover have "rd32 (bytes32 x @ bytes32 y @ bytes32 z @ bytes32 u @ v) 12 = Inr u" for x y z u v
      using rd_append_right(3) [of "bytes32 x @ bytes32 y @ bytes32 z" "bytes32 u @ v" 0]
      by (simp add: l rd_bytes)
    moreover have "rd32 (bytes32 x @ bytes32 y @ bytes32 z @ bytes32 u @ bytes32 v @ w) 16 = Inr v" for x y z u v w
      using rd_append_right(3) [of "bytes32 x @ bytes32 y @ bytes32 z @ bytes32 u" "bytes32 v @ w" 0]
      by (simp add: l rd_bytes)
    ultimately show ?thesis
      using 0 b(1) b(4) [OF t] by (simp add: seg_offset_def)
  next
    case (Suc j)
    have "rd32 b (32 * Suc j + k) = rd32 r (32 * j + k)" for k
      using rd_append_right(3) [of a r "32 * j + k"] by (simp add: b(1,2) algebra_simps)
    then show ?thesis
      using Cons.IH [OF b(3), of j] Cons.prems(2,3) Suc by (simp only: Suc) (simp add: seg_offset_def add.assoc)
  qed
qed simp

lemma seg_offset_length:
  assumes "\<forall>p\<in>set ps. p_type p = PT_NOTE \<longrightarrow> p_filesz p = 0"
    "\<forall>p\<in>set ps. unat (p_filesz p) \<le> length (p_data p)"
  shows "seg_offset ps i = of_nat (length (concat (map file_image (take i ps))))"
  using assms
proof (induction i arbitrary: ps)
  case (Suc i)
  then show ?case
    by (cases ps) (auto simp: seg_offset_def file_image_def)
qed (simp add: seg_offset_def)

lemma concat_split:
  assumes "i < length ps"
  shows "concat (map f ps) = concat (map f (take i ps)) @ f (ps ! i) @ concat (map f (drop (Suc i) ps))"
  by (subst id_take_nth_drop [OF assms]) simp

lemma checksum_segs_data:
  "checksum_segs n c ps = Inr d \<Longrightarrow> p \<in> set ps \<Longrightarrow> unat (p_filesz p) \<le> length (p_data p)"
  by (induction ps arbitrary: n c) (auto simp: bindt_eq_Inr bytes_at_def split: if_splits)

lemma ehdr32_entry:
  assumes "ei_class h = ELFCLASS32" "ei_data h = ELFDATA2LSB" "serialize_ehdr h = Inr e"
  shows "rd32 (e @ r) 24 = Inr (ucast (e_entry h))"
proof -
  have f: "half h v = Inr (bytes16 (ucast v))" for v
    using assms(2) by (simp add: half_def cpu_to_elf16_def)
  have l: "length (bytes16 x) = 2" "length (bytes32 y) = 4" for x y
    by (simp_all add: bytes16_def bytes32_def)
  let ?a = "e_ident h @ bytes16 (ucast (e_type h)) @ bytes16 (ucast (e_machine h)) @ bytes32 (ucast (ucast EV_CURRENT :: u64))"
  obtain t where "e = ?a @ bytes32 (ucast (e_entry h)) @ t"
    using assms by (auto simp: serialize_ehdr_def f lsb_fields simp del: cat.simps)
  then show ?thesis
    using rd_append_right(3) [of ?a "bytes32 (ucast (e_entry h)) @ t @ r" 0] by (simp add: l rd_bytes)
qed

text \<open>In a 32-bit little endian image of less than 4 GB, the header of each segment that is not the
  note tells where the segment is and where it goes: the bytes of the file from its \<open>p_offset\<close> on are the
  contents of the segment, its \<open>p_filesz\<close> is their number, and its \<open>p_paddr\<close> the address to load
  them at.\<close>

lemma image_segment:
  assumes "write_elf h out H = (Inr (), H')" "files H' out = Some img" "length img < 2 ^ 32"
    and "ei_class h = ELFCLASS32" "ei_data h = ELFDATA2LSB" "notes_size (show_checksum h) < 2 ^ 31"
    and "\<forall>p\<in>set (segments h). p_type p = PT_NOTE \<longrightarrow> p_filesz p = 0"
    and "i < length (segments h)" "p_type (segments h ! i) \<noteq> PT_NOTE"
  shows "\<exists>off sz. rd32 img (52 + 32 * i + 4) = Inr off \<and> rd32 img (52 + 32 * i + 16) = Inr sz \<and>
    rd32 img (52 + 32 * i + 12) = Inr (ucast (p_paddr (segments h ! i))) \<and>
    take (unat sz) (drop (unat off) img) = file_image (segments h ! i) \<and>
    unat sz = unat (p_filesz (segments h ! i))"
proof (rule write_elf_pieces [OF assms(1,6)])
  fix e p n c
  let ?ps = "segments h" and ?k = "length (concat (map file_image (take i (segments h))))"
  assume *: "serialize_ehdr h = Inr e" "serialize_phdrs h (notes_size (show_checksum h)) = Inr p"
    "checksum_segs (of_nat (length (e @ p))) (ipchksum (e @ p)) ?ps = Inr c"
    "serialize_notes (show_checksum h) c = Inr n" "length n = unat (notes_size (show_checksum h))"
    "files H' = (files H)(out \<mapsto> e @ p @ n @ concat (map file_image ?ps))" "arrays_ok h"
  have img: "img = e @ p @ n @ concat (map file_image ?ps)"
    using *(6) assms(2) by simp
  have e: "length e = 52"
    using serialize_ehdr_length [OF *(1)] assms(4) by simp
  have hs: "header_sizes h = Inr (52, 32 * ucast (e_phnum h))"
    using assms(4) by (simp add: header_sizes_def elf_sizes)
  have o: "serialize_phdrs32 h (notes_size (show_checksum h)) (of_nat (length (e @ p)))
      (of_nat (length (e @ p @ n))) ?ps = Inr p"
    using *(2,5) assms(4) headers_length(1) [OF *(1,2) hs *(7)]
    by (simp add: serialize_phdrs_def Let_def elf_sizes algebra_simps)
  have d: "\<forall>q\<in>set ?ps. unat (p_filesz q) \<le> length (p_data q)"
    using checksum_segs_data [OF *(3)] by blast
  have m: "?ps ! i \<in> set ?ps"
    using assms(8) by (rule nth_mem)
  note cs = concat_split [OF assms(8), of file_image]
  have k: "length (e @ p @ n) + ?k + length (file_image (?ps ! i)) \<le> length img"
    using arg_cong [OF cs, of length] by (simp add: img)
  have f: "length (file_image (?ps ! i)) = unat (p_filesz (?ps ! i))"
    using d m by (simp add: file_image_def)
  have u: "unat (ucast (p_filesz (?ps ! i)) :: u32) = unat (p_filesz (?ps ! i))"
    using k f assms(3) by (simp add: unsigned_ucast_eq take_bit_nat_eq_self)
  have v: "unat (ucast (of_nat (length (e @ p @ n) + ?k) :: u64) :: u32) = length (e @ p @ n) + ?k"
  proof -
    have *: "unat (ucast (of_nat m :: u64) :: u32) = m" if "m < 2 ^ 32" for m
      using that by (simp add: unsigned_ucast_eq unat_of_nat take_bit_nat_eq_self)
    have "length (e @ p @ n) + ?k < 2 ^ 32" using k assms(3) by linarith
    then show ?thesis by (rule *)
  qed
  have "rd32 p (32 * i + 4) = Inr (ucast (of_nat (length (e @ p @ n) + ?k) :: u64)) \<and>
      rd32 p (32 * i + 12) = Inr (ucast (p_paddr (?ps ! i))) \<and>
      rd32 p (32 * i + 16) = Inr (ucast (p_filesz (?ps ! i)))"
    using phdrs32_entry [OF assms(5) o assms(8,9)] seg_offset_length [OF assms(7) d, of i] by simp
  moreover have "rd32 img (52 + j) = Inr w" if "rd32 p j = Inr w" for j w
    using rd_append_right(3) [of e "p @ n @ concat (map file_image ?ps)" j] rd32_prefix [OF that]
    by (simp add: img e)
  ultimately have r: "rd32 img (52 + 32 * i + 4) = Inr (ucast (of_nat (length (e @ p @ n) + ?k) :: u64)) \<and>
      rd32 img (52 + 32 * i + 12) = Inr (ucast (p_paddr (?ps ! i))) \<and>
      rd32 img (52 + 32 * i + 16) = Inr (ucast (p_filesz (?ps ! i)))"
    by (simp only: add.assoc)
  have "take (unat (p_filesz (?ps ! i))) (drop (length (e @ p @ n) + ?k) img) = file_image (?ps ! i)"
    using f by (simp add: img cs)
  then show ?thesis
    using r u v by fastforce
qed

subsection \<open>Images that are written\<close>

text \<open>When the system takes every write at once, \<open>write_elf\<close> returns.\<close>

lemma write_buf_full:
  assumes "io H = map Moved ns" "ns \<noteq> []" "n \<le> hd ns" "n \<le> length buf"
  obtains H' where "write_buf f buf n H = (Inr (), H')" "io H' = map Moved ns \<or> io H' = map Moved (tl ns)"
    "call_ok H' = call_ok H"
proof (cases "n = 0")
  case True
  then show ?thesis
    using that [of H] assms by (simp add: write_buf_def write_loop.simps)
next
  case False
  obtain m ms where ns: "ns = m # ms" using assms(2) by (cases ns) auto
  let ?K = "H\<lparr>io := map Moved ms, files := (files H)(f := map_option (\<lambda>c. c @ take n buf) (files H f))\<rparr>"
  have "write_loop f buf n 0 H = write_loop f buf n n ?K"
    using False assms ns by (subst write_loop.simps) simp
  then have "write_buf f buf n H = (Inr (), ?K)"
    using assms(4) by (simp add: write_buf_def write_loop.simps)
  then show ?thesis
    using that [of ?K] ns by simp
qed

lemma write_segs_full:
  assumes "io H = map Moved ns" "length ps < length ns"
    "\<forall>p\<in>set ps. unat (p_filesz p) \<le> length (p_data p) \<and> (\<forall>n\<in>set ns. unat (p_filesz p) \<le> n)"
  shows "\<exists>H'. write_segs f ps H = (Inr (), H') \<and> call_ok H' = call_ok H"
  using assms
proof (induction ps arbitrary: H ns)
  case Nil
  then show ?case by (simp add: lift_tool_def)
next
  case (Cons p ps)
  have n: "ns \<noteq> []" using Cons.prems(2) by auto
  then have h: "hd ns \<in> set ns" by simp
  obtain K where K: "write_buf f (p_data p) (unat (p_filesz p)) H = (Inr (), K)"
      "io K = map Moved ns \<or> io K = map Moved (tl ns)" "call_ok K = call_ok H"
    by (rule write_buf_full [OF Cons.prems(1) n, of "unat (p_filesz p)" "p_data p" f]) (use Cons.prems(3) h in auto)
  obtain ms where ms: "io K = map Moved ms" "length ps < length ms" "set ms \<subseteq> set ns"
    using K(2) Cons.prems(2) n by (metis (no_types, opaque_lifting) Suc_lessD length_Cons length_tl less_diff_conv
        list.set_sel(2) order_refl subsetI add.commute plus_1_eq_Suc)
  show ?case
    using Cons.IH [OF ms(1,2)] Cons.prems(3) ms(3) K by (auto simp: bindp_eq_Inr subset_iff)
qed

text \<open>A 32-bit little endian header has a serialized form.\<close>

lemma lsb_serialized:
  assumes "ei_class h = ELFCLASS32" "ei_data h = ELFDATA2LSB"
  shows "\<exists>e. serialize_ehdr h = Inr e" "\<exists>p. serialize_phdrs32 h ns no off ps = Inr p"
proof -
  have f: "half h v = Inr (bytes16 (ucast v))" for v
    using assms(2) by (simp add: half_def cpu_to_elf16_def)
  show "\<exists>e. serialize_ehdr h = Inr e"
    using assms by (simp add: serialize_ehdr_def f lsb_fields del: cat.simps)
  show "\<exists>p. serialize_phdrs32 h ns no off ps = Inr p"
  proof (induction ps arbitrary: off)
    case (Cons p ps)
    show ?case
      using Cons [of off] Cons [of "off + p_filesz p"] assms(2)
      by (auto simp: lsb_fields simp del: cat.simps)
  qed simp
qed

lemma checksum_segs_returns:
  "\<forall>p\<in>set ps. unat (p_filesz p) \<le> length (p_data p) \<Longrightarrow> \<exists>c. checksum_segs n k ps = Inr c"
  by (induction ps arbitrary: n k) (auto simp: bytes_at_def)

lemma write_elf_returns:
  assumes h: "arrays_ok h" "ei_class h = ELFCLASS32" "ei_data h = ELFDATA2LSB"
    and s: "\<forall>p\<in>set (segments h). unat (p_filesz p) \<le> length (p_data p) \<and> (\<forall>n\<in>set ns. unat (p_filesz p) \<le> n)"
    and n: "\<And>c. \<exists>b. serialize_notes (show_checksum h) c = Inr b \<and> length b = unat (notes_size (show_checksum h))"
    and H: "files H out = None" "malloc_ok H = (\<lambda>n. True)" "call_ok H = (\<lambda>c f. True)"
      "io H = map Moved ns" "Suc (length (segments h)) < length ns"
      "notes_size (show_checksum h) < 2 ^ 31" "\<forall>n\<in>set ns. 2 ^ 40 \<le> n"
  shows "\<exists>H'. write_elf h out H = (Inr (), H')"
proof -
  obtain e p where e: "serialize_ehdr h = Inr e" "serialize_phdrs h (notes_size (show_checksum h)) = Inr p"
    using lsb_serialized [OF h(2,3)] h(2) by (fastforce simp: serialize_phdrs_def Let_def)
  have hz: "header_sizes h = Inr (52, 32 * ucast (e_phnum h))" "header_sizes (show_checksum h) = header_sizes h"
    using h(2) by (simp_all add: header_sizes_def elf_sizes)
  note hl = headers_length [OF e hz(1) h(1)]
  obtain c where c: "checksum_segs (52 + 32 * ucast (e_phnum h)) (ipchksum (e @ p)) (segments h) = Inr c"
    using checksum_segs_returns s by blast
  obtain b where b: "serialize_notes (show_checksum h) c = Inr b" "length b = unat (notes_size (show_checksum h))"
    using n by blast
  let ?K = "H\<lparr>files := (files H)(out \<mapsto> [])\<rparr>"
  let ?n = "52 + 32 * ucast (e_phnum h) + notes_size (show_checksum h)"
  have l: "unat ?n = length (e @ p @ b)"
    using hl(2) b(2) H(6) by (simp add: hl(1) unat_word_ariths unat_of_nat word_less_nat_alt)
  have ns: "ns \<noteq> []" "hd ns \<in> set ns" using H(5) by (cases ns; simp)+
  have k: "unat ?n \<le> hd ns"
    using l hl(2) b(2) H(6,7) ns(2) by (auto simp: word_less_nat_alt)
  obtain K2 where K2: "write_buf out (e @ p @ b) (unat ?n) ?K = (Inr (), K2)"
      "io K2 = map Moved ns \<or> io K2 = map Moved (tl ns)" "call_ok K2 = call_ok ?K"
    by (rule write_buf_full [of ?K ns "unat ?n" "e @ p @ b"]) (use H(4) ns k l in auto)
  obtain ms where ms: "io K2 = map Moved ms" "length (segments h) < length ms" "set ms \<subseteq> set ns"
  proof -
    from K2(2) show thesis
    proof
      assume "io K2 = map Moved ns"
      then show thesis by (rule that) (use H(5) in auto)
    next
      assume "io K2 = map Moved (tl ns)"
      then show thesis by (rule that) (use H(5) ns in \<open>auto dest: list.set_sel(2)\<close>)
    qed
  qed
  obtain K3 where K3: "write_segs out (segments h) K2 = (Inr (), K3)" "call_ok K3 = call_ok K2"
    using write_segs_full [OF ms(1,2)] s ms(3) by blast
  show ?thesis
    using h(1) H(1-3) hz e c b K2 K3
    by (auto simp: write_elf_def Let_def bindp_eq_Inr lift_tool_eq_Inr xmalloc_def create_file_def close_file_def)
qed

subsection \<open>An image\<close>

text \<open>A header of a note and of a segment of three bytes that fills five in memory, and a host that takes
  the image in pieces.\<close>

definition small_elf :: memelfheader where
  "small_elf = \<lparr> ei_class = ELFCLASS32, ei_data = ELFDATA2LSB, e_type = ET_EXEC, e_machine = EM_386,
     e_flags = 0, e_phnum = 2, e_notenum = 1, e_entry = 0x10000,
     e_phdr = [\<lparr> p_vaddr = 0, p_paddr = 0, p_filesz = 0, p_memsz = 0, p_data = [], p_type = PT_NOTE, p_flags = 7 \<rparr>,
       \<lparr> p_vaddr = 0x10000, p_paddr = 0x10000, p_filesz = 3, p_memsz = 5, p_data = [0x90, 0x91, 0x92, 0x93],
         p_type = PT_LOAD, p_flags = 7 \<rparr>],
     e_notes = [\<lparr> n_type = EIN_PROGRAM_CHECKSUM, n_name = ''ELFBoot'', n_desc = Desc [], n_descsz = 2 \<rparr>] \<rparr>"

definition small_host :: host where
  "small_host = \<lparr> files = \<lambda>f. None, malloc_ok = \<lambda>n. True, call_ok = \<lambda>c f. True,
     io = [Moved 100, Again, Moved 100, Moved 1, Moved 2], gz = \<lambda>f. [] \<rparr>"

lemma small_elf_runs: "fst (write_elf small_elf ''out'' small_host) = Inr ()"
  by code_simp

lemma small_elf_written:
  "write_elf small_elf ''out'' small_host = (Inr (), snd (write_elf small_elf ''out'' small_host))"
  using small_elf_runs by (metis prod.collapse)

lemma small_elf_sizes: "notes_size (show_checksum small_elf) < 2 ^ 31"
    "\<forall>p\<in>set (segments small_elf). p_filesz p \<le> p_memsz p"
  by code_simp+

theorem write_elf_image_witness:
  "fst (write_elf small_elf ''out'' small_host) = Inr () \<and>
   (\<exists>e p n. serialize_ehdr small_elf = Inr e \<and>
    serialize_phdrs small_elf (notes_size (show_checksum small_elf)) = Inr p \<and>
    serialize_notes (show_checksum small_elf)
      (ipchksum (e @ p @ concat (map memory_image (segments small_elf)))) = Inr n \<and>
    files small_host ''out'' = None \<and>
    files (snd (write_elf small_elf ''out'' small_host))
      = (files small_host)(''out'' \<mapsto> e @ p @ n @ concat (map file_image (segments small_elf))))"
  by (metis fst_conv small_elf_written small_elf_sizes(2) write_elf_image [OF small_elf_written small_elf_sizes(1)])

end
