(* ===== verification/ElfRead.thy ===== *)
theory ElfRead
  imports ElfImage
begin

text \<open>
  How the image tool reads its inputs (\<open>slurp_file\<close> and \<open>slurp_decompress_file\<close> of
  \<open>tools/mkelfImage/main/mkelfImage.c\<close>), and \<open>strtoul\<close> of the C library, which it uses for addresses.
  The lemmas show that a d is read as it is when the system moves its bytes in pieces, and that an
  interrupted \<open>gzread\<close> cuts the kernel.
\<close>

subsection \<open>Plain files\<close>

text \<open>The loop of \<open>slurp_file\<close>: \<open>d\<close> is what the d holds, \<open>buf\<close> what has been read.  A \<open>read\<close> that
  moves nothing, as at the end of a d that has become shorter, is tried again for ever.\<close>

function read_loop :: "u8 list \<Rightarrow> nat \<Rightarrow> u8 list \<Rightarrow> u8 list prog" where
  "read_loop d sz buf H =
     (if length buf \<ge> sz then (Inr buf, H)
      else case io H of
        [] \<Rightarrow> (Inl Waiting, H)
      | Again # rs \<Rightarrow> read_loop d sz buf (H\<lparr>io := rs\<rparr>)
      | Failed # rs \<Rightarrow> (die ''read on %s of %ld bytes failed: %s'', H\<lparr>io := rs\<rparr>)
      | Moved n # rs \<Rightarrow>
          read_loop d sz (buf @ take (min n (sz - length buf)) (drop (length buf) d)) (H\<lparr>io := rs\<rparr>))"
  by pat_completeness auto
termination
  by (relation "measure (\<lambda>(d, sz, buf, H). length (io H))") auto

declare read_loop.simps [simp del]

text \<open>No file name gives no buffer and the size 0.\<close>

definition slurp_file :: "string option \<Rightarrow> u8 list prog" where
  "slurp_file filename = (case filename of
     None \<Rightarrow> lift_tool (Inr [])
   | Some f \<Rightarrow> (\<lambda>H. case files H f of
       None \<Rightarrow> (die ''Cannot open `%s': %s'', H)
     | Some d \<Rightarrow>
         if \<not> call_ok H Sys_open f then (die ''Cannot open `%s': %s'', H)
         else if \<not> call_ok H Sys_fstat f then (die ''Cannot stat: %s: %s'', H)
         else bindp (xmalloc (of_nat (length d))) (\<lambda>_.
              bindp (read_loop d (length d) []) (\<lambda>buf.
              bindp (close_file ''Close of %s failed: %s'' f) (\<lambda>_. lift_tool (Inr buf)))) H))"

lemma read_loop_reads:
  "read_loop d sz buf H = (Inr b, H') \<Longrightarrow> sz = length d \<Longrightarrow> buf = take (length buf) d \<Longrightarrow>
    b = d \<and> files H' = files H"
proof (induction d sz buf H rule: read_loop.induct)
  case (1 d sz buf H)
  show ?case
  proof (cases "length buf \<ge> sz")
    case True
    then show ?thesis using "1.prems" by (auto simp: read_loop.simps)
  next
    case False
    show ?thesis
    proof (cases "io H")
      case Nil
      then show ?thesis using "1.prems" False by (simp add: read_loop.simps)
    next
      case (Cons r rs)
      show ?thesis
      proof (cases r)
        case (Moved n)
        let ?m = "min n (sz - length buf)"
        let ?b = "buf @ take ?m (drop (length buf) d)"
        have "read_loop d sz buf H = read_loop d sz ?b (H\<lparr>io := rs\<rparr>)"
          using False Cons Moved by (subst read_loop.simps) simp
        moreover have "?b = take (length buf + ?m) d"
          using "1.prems"(3) by (metis take_add)
        moreover have "take k d = take (min (length d) k) d" for k
          by (simp add: min_def)
        ultimately show ?thesis
          using "1.prems"(1,2) "1.IH"(1) [OF False Cons Moved] by simp
      next
        case Again
        then have "read_loop d sz buf H = read_loop d sz buf (H\<lparr>io := rs\<rparr>)"
          using False Cons by (subst read_loop.simps) simp
        then show ?thesis
          using "1.prems" "1.IH"(2) [OF False Cons Again] by simp
      next
        case Failed
        then show ?thesis using "1.prems" False Cons by (simp add: read_loop.simps)
      qed
    qed
  qed
qed

lemma read_whole: "read_loop d (length d) [] H = (Inr b, H') \<Longrightarrow> b = d \<and> files H' = files H"
  by (rule read_loop_reads) auto

lemma slurp_file_reads:
  assumes "slurp_file (Some f) H = (Inr b, H')"
  shows "files H f = Some b \<and> files H' = files H"
  using assms
  by (auto dest!: read_whole simp: slurp_file_def bindp_eq_Inr lift_tool_eq_Inr xmalloc_def close_file_def
      split: option.splits if_splits)

subsection \<open>Compressed files\<close>

text \<open>The loop of \<open>slurp_decompress_file\<close>.  The buffer doubles when it is full; the loop ends when \<open>gzread\<close>
  returns no byte.  An interrupted \<open>gzread\<close> also ends it: \<open>continue\<close> goes to the condition
  \<open>result > 0\<close>, and \<open>result\<close> is negative.\<close>

function gz_loop :: "gz_result list \<Rightarrow> nat \<Rightarrow> u8 list \<Rightarrow> u8 list prog" where
  "gz_loop rs allocated buf =
     (let full = (length buf = allocated);
          allocated = (if full then 2 * allocated else allocated)
      in bindp (if full then xrealloc (of_nat allocated) else lift_tool (Inr ())) (\<lambda>_.
         case rs of
           [] \<Rightarrow> lift_tool (Inl Waiting)
         | GzAgain # rs \<Rightarrow> lift_tool (Inr buf)
         | GzFailed # rs \<Rightarrow> lift_tool (die ''read on %s of %ld bytes failed: %s'')
         | Got bs # rs \<Rightarrow>
             let bs = take (allocated - length buf) bs
             in if bs = [] then lift_tool (Inr buf) else gz_loop rs allocated (buf @ bs)))"
  by pat_completeness auto
termination
  by (relation "measure (\<lambda>(rs, allocated, buf). length rs)") auto

declare gz_loop.simps [simp del]

definition slurp_decompress_file :: "string option \<Rightarrow> u8 list prog" where
  "slurp_decompress_file filename = (case filename of
     None \<Rightarrow> lift_tool (Inr [])
   | Some f \<Rightarrow> (\<lambda>H.
       if files H f = None \<or> \<not> call_ok H Sys_gzopen f then (die ''Cannot open `%s': %s'', H)
       else bindp (xmalloc 65536) (\<lambda>_.
            bindp (gz_loop (gz H f) 65536 []) (\<lambda>buf.
            (\<lambda>H. (if call_ok H Sys_gzclose f then Inr buf else die ''Close of %s failed: %s'', H)))) H))"

subsection \<open>Numbers\<close>

text \<open>\<open>strtoul(s, &end, 0)\<close>: white space, a sign, the prefix that chooses the base, digits; too large a
  number is \<open>ULONG_MAX\<close>.  The result has the text from \<open>end\<close> on, which is the whole text when there is no
  digit.\<close>

definition is_space :: "char \<Rightarrow> bool" where
  "is_space c \<longleftrightarrow> c \<in> {CHR '' '', CHR 0x09, CHR 0x0A, CHR 0x0B, CHR 0x0C, CHR 0x0D}"

definition digit_of :: "char \<Rightarrow> nat" where
  "digit_of c =
     (let n = of_char c :: nat
      in if 48 \<le> n \<and> n \<le> 57 then n - 48
         else if 97 \<le> n \<and> n \<le> 122 then n - 87
         else if 65 \<le> n \<and> n \<le> 90 then n - 55 else 36)"

definition digits_value :: "nat \<Rightarrow> string \<Rightarrow> nat" where
  "digits_value base ds = foldl (\<lambda>v c. base * v + digit_of c) 0 ds"

definition strtoul :: "string \<Rightarrow> u64 \<times> string" where
  "strtoul s =
     (let t = dropWhile is_space s;
          neg = (take 1 t = ''-'');
          t = (if take 1 t = ''-'' \<or> take 1 t = ''+'' then drop 1 t else t);
          hex = (take 2 t = ''0x'' \<or> take 2 t = ''0X'') \<and> drop 2 t \<noteq> [] \<and> digit_of (hd (drop 2 t)) < 16;
          base = (if hex then 16 else if take 1 t = ''0'' then 8 else 10);
          t = (if hex then drop 2 t else t);
          ds = takeWhile (\<lambda>c. digit_of c < base) t;
          v = digits_value base ds
      in if ds = [] then (0, s)
         else (if v \<ge> 2 ^ 64 then - 1 else if neg then - of_nat v else of_nat v, drop (length ds) t))"

subsection \<open>What is read\<close>

primrec gz_bytes :: "gz_result list \<Rightarrow> u8 list" where
  "gz_bytes [] = []"
| "gz_bytes (r # rs) = (case r of Got bs \<Rightarrow> if bs = [] then [] else bs @ gz_bytes rs | _ \<Rightarrow> [])"

text \<open>What \<open>gzread\<close> may return: at most as many bytes as are asked for, which is all the space that the
  buffer has left.\<close>

primrec gz_fits :: "nat \<Rightarrow> nat \<Rightarrow> gz_result list \<Rightarrow> bool" where
  "gz_fits allocated n [] = True"
| "gz_fits allocated n (r # rs) =
     (let allocated = (if n = allocated then 2 * allocated else allocated)
      in case r of Got bs \<Rightarrow> length bs \<le> allocated - n \<and> gz_fits allocated (n + length bs) rs | _ \<Rightarrow> True)"

lemma gz_loop_reads:
  assumes "gz_loop rs allocated buf H = (Inr b, H')" "gz_fits allocated (length buf) rs"
    "length buf \<le> allocated"
  shows "b = buf @ gz_bytes rs \<and> H' = H"
  using assms
proof (induction rs arbitrary: allocated buf H)
  case Nil
  then show ?case
    by (subst (asm) gz_loop.simps)
       (auto simp: Let_def bindp_eq_Inr lift_tool_eq_Inr split: if_splits)
next
  case (Cons r rs)
  let ?a = "if length buf = allocated then 2 * allocated else allocated"
  show ?case
  proof (cases r)
      case (Got bs)
      have l: "take (?a - length buf) bs = bs"
        using Cons.prems(2) Got by (simp add: Let_def split: if_splits)
      have step: "if bs = [] then b = buf \<and> H' = H else gz_loop rs ?a (buf @ bs) H = (Inr b, H')"
        using Cons.prems(1) l unfolding Got
        by (subst (asm) gz_loop.simps)
           (auto simp: Let_def bindp_eq_Inr lift_tool_eq_Inr xrealloc_def split: if_splits)
      show ?thesis
      proof (cases "bs = []")
        case False
        have "b = (buf @ bs) @ gz_bytes rs \<and> H' = H"
          by (rule Cons.IH [of ?a "buf @ bs"])
             (use step False l Cons.prems Got in \<open>auto simp: Let_def split: if_splits\<close>)
        then show ?thesis using Got False by simp
      qed (use step Got in simp)
  qed (use Cons.prems(1) in \<open>subst (asm) gz_loop.simps;
      auto simp: Let_def bindp_eq_Inr lift_tool_eq_Inr xrealloc_def split: if_splits\<close>)+
qed

end
