(* ===== verification/ElfLinux.thy ===== *)
theory ElfLinux
  imports ElfRead
begin

text \<open>
  Images of Linux kernels for the i386: \<open>tools/mkelfImage/linux-i386/mkelf-linux-i386.c\<close>.  The probes tell
  whether a buffer is such a kernel, the parsers find its segments, and \<open>linux_i386_mkelf\<close> lays out the
  image: notes, converter, room for the real mode data, kernel and initial ramdisk.

  The fields of the headers are read where \<open>include/elf.h\<close> and \<open>x86-linux.h\<close> put them; a field outside
  of the kernel is \<open>Stray\<close>.  The converter \<open>payload\<close> (\<open>convert.bin.c\<close>, a generated file) is a parameter:
  its bytes, whose last 284 are the structure \<open>image_parameters\<close>.
\<close>

subsection \<open>Probes\<close>

text \<open>A probe gives the reason why the kernel is refused, or stores the parser.  \<open>refuse\<close> is the step
  \<open>if (c) return msg;\<close>.\<close>

datatype kernel_parser = parse_elf32 | parse_bzImage

type_synonym 'a probe = "(string + 'a) tool"

definition refuse :: "bool tool \<Rightarrow> string \<Rightarrow> 'a probe \<Rightarrow> 'a probe" where
  "refuse c msg k = bindt c (\<lambda>c. if c then Inr (Inl msg) else k)"

definition is_not :: "'a tool \<Rightarrow> 'a \<Rightarrow> bool tool" where
  "is_not t v = bindt t (\<lambda>x. Inr (x \<noteq> v))"

definition or_else :: "bool tool \<Rightarrow> bool tool \<Rightarrow> bool tool" where
  "or_else a b = bindt a (\<lambda>x. if x then Inr True else b)"

text \<open>The signature: the four bytes \<open>EI_MAG0\<close> to \<open>EI_MAG3\<close>.\<close>

definition no_signature :: "u8 list \<Rightarrow> bool tool" where
  "no_signature b = or_else (is_not (rd8 b 0) 0x7F) (or_else (is_not (rd8 b 1) (of_char CHR ''E''))
     (or_else (is_not (rd8 b 2) (of_char CHR ''L'')) (is_not (rd8 b 3) (of_char CHR ''F''))))"

text \<open>The loop over the program headers of \<open>vmlinux_i386_probe\<close>: the indices of the first and second
  loadable one, \<open>None\<close> for the \<open>- 1\<close> of the code.\<close>

primrec probe_phdrs :: "u8 list \<Rightarrow> nat \<Rightarrow> nat option \<Rightarrow> nat option \<Rightarrow> nat list
    \<Rightarrow> (nat option \<times> nat option) probe" where
  "probe_phdrs b phdr hdr1 hdr2 [] = Inr (Inr (hdr1, hdr2))"
| "probe_phdrs b phdr hdr1 hdr2 (i # is) =
     bindt (rd32 b (phdr + 32 * i)) (\<lambda>type.
     if type \<noteq> PT_LOAD then probe_phdrs b phdr hdr1 hdr2 is
     else refuse (or_else (case hdr1 of None \<Rightarrow> Inr False
              | Some k \<Rightarrow> is_not (bindt (rd32 b (phdr + 32 * k + 12)) (\<lambda>a. Inr (a AND 0xFFFFFFF))) 0x100000)
            (Inr (hdr2 \<noteq> None)))
          ''Too many PT_LOAD segments to be a linux kernel''
          (if hdr1 = None then probe_phdrs b phdr (Some i) hdr2 is
           else probe_phdrs b phdr hdr1 (Some i) is))"

definition vmlinux_i386_probe :: "u8 list \<Rightarrow> kernel_parser probe" where
  "vmlinux_i386_probe b =
     refuse (no_signature b) ''No ELF signature found on kernel'' (
     refuse (is_not (rd8 b 4) (ucast ELFCLASS32)) ''Not a 32bit ELF kernel'' (
     refuse (is_not (rd8 b 5) (ucast ELFDATA2LSB)) ''Not a little endian ELF kernel'' (
     refuse (is_not (rd16 b 16) (ucast ET_EXEC)) ''Not an executable kernel'' (
     refuse (is_not (rd16 b 18) (ucast EM_386)) ''Not an i386 kernel'' (
     refuse (or_else (is_not (rd8 b 6) (ucast EV_CURRENT)) (is_not (rd32 b 20) EV_CURRENT))
       ''Kernel not using ELF version 1.'' (
     refuse (is_not (rd16 b 42) (ucast sizeof_Elf32_Phdr)) ''Kernel uses bad program header size.'' (
     bindt (rd32 b 28) (\<lambda>phoff.
     bindt (rd16 b 44) (\<lambda>phnum.
     bindt (probe_phdrs b (unat phoff) None None [0..<unat phnum]) (\<lambda>r. case r of
       Inl reason \<Rightarrow> Inr (Inl reason)
     | Inr (hdr1, hdr2) \<Rightarrow>
         if hdr1 = None then Inr (Inl ''No PT_LOAD segments!'') else Inr (Inr parse_elf32)))))))))))"

text \<open>The sectors of the real mode part, of which the boot sector is not one.\<close>

definition setup_end :: "u8 \<Rightarrow> u64" where
  "setup_end setup_sects = (let n = (if setup_sects = 0 then 4 else ucast setup_sects) in 512 + 512 * n)"

definition bzImage_i386_probe :: "u8 list \<Rightarrow> kernel_parser probe" where
  "bzImage_i386_probe b =
     refuse (is_not (rd16 b 0x1FE) 0xAA55) ''No bootsector magic'' (
     refuse (or_else (is_not (rd8 b 0x202) (of_char CHR ''H'')) (or_else (is_not (rd8 b 0x203) (of_char CHR ''d''))
       (or_else (is_not (rd8 b 0x204) (of_char CHR ''r'')) (is_not (rd8 b 0x205) (of_char CHR ''S'')))))
       ''Not a linux kernel'' (
     refuse (bindt (rd16 b 0x206) (\<lambda>v. Inr (v < 0x202)))
       ''Kernel protcols version before 2.02 not supported'' (
     bindt (rd8 b 0x1F1) (\<lambda>setup_sects.
     if setup_end setup_sects > of_nat (length b) then Inr (Inl ''Not enough bytes'')
     else Inr (Inr parse_bzImage)))))"

text \<open>A result of 0 is success; a reason lets the next probe try.\<close>

definition try_next :: "'a probe \<Rightarrow> 'a probe \<Rightarrow> 'a probe" where
  "try_next p q = bindt p (\<lambda>r. case r of Inl reason \<Rightarrow> q | Inr x \<Rightarrow> Inr (Inr x))"

definition linux_i386_probe :: "u8 list \<Rightarrow> kernel_parser probe" where
  "linux_i386_probe b =
     try_next (try_next (bzImage_i386_probe b) (vmlinux_i386_probe b)) (bzImage_i386_probe b)"

subsection \<open>Parsers\<close>

text \<open>The second segment is absent when \<open>kernel2\<close> is the null pointer.\<close>

record kernel_info =
  kernel :: "u8 list"
  filesz :: u64
  memsz :: u64
  paddr :: u64
  vaddr :: u64
  kernel2 :: "u8 list option"
  filesz2 :: u64
  memsz2 :: u64
  paddr2 :: u64
  vaddr2 :: u64
  entry :: u64
  version :: "u8 list"

definition kernel_info_cleared :: kernel_info where
  "kernel_info_cleared = \<lparr> kernel = [], filesz = 0, memsz = 0, paddr = 0, vaddr = 0,
     kernel2 = None, filesz2 = 0, memsz2 = 0, paddr2 = 0, vaddr2 = 0, entry = 0, version = [] \<rparr>"

primrec parse_phdrs :: "u8 list \<Rightarrow> nat \<Rightarrow> nat option \<Rightarrow> nat option \<Rightarrow> nat list
    \<Rightarrow> (nat option \<times> nat option) tool" where
  "parse_phdrs b phdr hdr1 hdr2 [] = Inr (hdr1, hdr2)"
| "parse_phdrs b phdr hdr1 hdr2 (i # is) =
     bindt (rd32 b (phdr + 32 * i)) (\<lambda>type.
     if type \<noteq> PT_LOAD then parse_phdrs b phdr hdr1 hdr2 is
     else if hdr2 \<noteq> None then die ''Too many PT_LOAD segments to be a linux kernel''
     else if hdr1 = None then parse_phdrs b phdr (Some i) hdr2 is
     else parse_phdrs b phdr hdr1 (Some i) is)"

text \<open>The fields of the program header at \<open>p\<close>: contents, size in the file, size in memory, physical and
  virtual address.\<close>

definition phdr_fields :: "u8 list \<Rightarrow> nat \<Rightarrow> (u8 list \<times> u64 \<times> u64 \<times> u64 \<times> u64) tool" where
  "phdr_fields b p =
     bindt (rd32 b (p + 4)) (\<lambda>off.
     bindt (rd32 b (p + 16)) (\<lambda>fs.
     bindt (rd32 b (p + 20)) (\<lambda>ms.
     bindt (rd32 b (p + 12)) (\<lambda>pa.
     bindt (rd32 b (p + 8)) (\<lambda>va.
     Inr (drop (unat off) b, ucast fs, ucast ms, ucast (pa AND 0xFFFFFFF), ucast va))))))"

definition parse_elf32_kernel :: "kernel_info \<Rightarrow> u8 list \<Rightarrow> kernel_info tool" where
  "parse_elf32_kernel info b =
     bindt (rd32 b 28) (\<lambda>phoff.
     bindt (rd16 b 44) (\<lambda>phnum.
     bindt (parse_phdrs b (unat phoff) None None [0..<unat phnum]) (\<lambda>(hdr1, hdr2). case hdr1 of
       None \<Rightarrow> die ''No PT_LOAD segments!''
     | Some h1 \<Rightarrow>
         bindt (phdr_fields b (unat phoff + 32 * h1)) (\<lambda>(k, fs, ms, pa, va).
         let info = info\<lparr>kernel := k, filesz := fs, memsz := ms, paddr := pa, vaddr := va\<rparr>
         in bindt (case hdr2 of None \<Rightarrow> Inr info
            | Some h2 \<Rightarrow> bindt (phdr_fields b (unat phoff + 32 * h2)) (\<lambda>(k, fs, ms, pa, va).
                Inr (info\<lparr>kernel2 := Some k, filesz2 := fs, memsz2 := ms, paddr2 := pa, vaddr2 := va\<rparr>)))
            (\<lambda>info. Inr (info\<lparr>entry := 0x100000, version := ascii ''unknown'' @ [0]\<rparr>))))))"

definition parse_bzImage_kernel :: "kernel_info \<Rightarrow> u8 list \<Rightarrow> kernel_info tool" where
  "parse_bzImage_kernel info b =
     bindt (rd8 b 0x1F1) (\<lambda>setup_sects.
     bindt (rd16 b 0x20E) (\<lambda>kver_addr.
     let offset = setup_end setup_sects
     in Inr (info\<lparr>kernel := drop (unat offset) b, filesz := of_nat (length b) - offset, memsz := 0x700000,
          paddr := 0x100000, vaddr := 0x100000, entry := 0x100000,
          version := drop (512 + unat kver_addr) b\<rparr>)))"

definition parse_kernel :: "kernel_parser option \<Rightarrow> u8 list \<Rightarrow> kernel_info tool" where
  "parse_kernel p b = (case p of
     None \<Rightarrow> die ''Unknown kernel format''
   | Some parse_elf32 \<Rightarrow> parse_elf32_kernel kernel_info_cleared b
   | Some parse_bzImage \<Rightarrow> parse_bzImage_kernel kernel_info_cleared b)"

subsection \<open>Options\<close>

text \<open>The results of \<open>getopt_long\<close>, in order: the option and its argument.\<close>

datatype option_code = OPT_BAD | OPT_HELP | OPT_VERSION | OPT_TYPE | OPT_KERNEL | OPT_OUTPUT
  | OPT_CMDLINE | OPT_RAMDISK | OPT_RAMDISK_BASE

record i386_options =
  ramdisk_base :: u64
  ramdisk :: "string option"
  cmdline :: string

definition DEFAULT_RAMDISK_BASE :: u64 where "DEFAULT_RAMDISK_BASE = 8 * 1024 * 1024"

text \<open>\<open>case OPT_RAMDISK_BASE\<close> has no \<open>break\<close>: it goes on with \<open>case OPT_RAMDISK\<close>.\<close>

primrec i386_options_loop :: "i386_options \<Rightarrow> (option_code \<times> string) list \<Rightarrow> i386_options tool" where
  "i386_options_loop o' [] = Inr o'"
| "i386_options_loop o' (c # cs) = (case c of (opt, optarg) \<Rightarrow>
     if opt = OPT_BAD then die ''Unknown option %s''
     else if opt = OPT_RAMDISK_BASE then
       (case strtoul optarg of (base, end') \<Rightarrow>
          if end' = optarg \<or> end' \<noteq> [] then die ''Invalid ramdisk base''
          else i386_options_loop (o'\<lparr>ramdisk_base := base, ramdisk := Some optarg\<rparr>) cs)
     else if opt = OPT_RAMDISK then i386_options_loop (o'\<lparr>ramdisk := Some optarg\<rparr>) cs
     else if opt = OPT_CMDLINE then i386_options_loop (o'\<lparr>cmdline := optarg\<rparr>) cs
     else i386_options_loop o' cs)"

definition i386_options_of :: "(option_code \<times> string) list \<Rightarrow> i386_options tool" where
  "i386_options_of cs = i386_options_loop \<lparr> ramdisk_base = DEFAULT_RAMDISK_BASE, ramdisk = None, cmdline = [] \<rparr> cs"

subsection \<open>The image of a kernel\<close>

definition CONVERTLOC :: u64 where "CONVERTLOC = 0x10000"
definition REAL_MODE_DATA_LOC :: u64 where "REAL_MODE_DATA_LOC = 0x20000"
definition GDTLOC :: u64 where "GDTLOC = 0x21000"
definition CMDLINE_MAX :: nat where "CMDLINE_MAX = 256"
definition CONVERT_MAGIC :: u32 where "CONVERT_MAGIC = 0xA5A5A5A5"

text \<open>The structure \<open>image_parameters\<close>: its size and the places of its fields.\<close>

definition sizeof_params :: nat where "sizeof_params = 28 + CMDLINE_MAX"
definition par_magic :: nat where "par_magic = 0"
definition par_gdt_size :: nat where "par_gdt_size = 4"
definition par_bss_size :: nat where "par_bss_size = 8"
definition par_entry :: nat where "par_entry = 16"
definition par_initrd_start :: nat where "par_initrd_start = 20"
definition par_initrd_size :: nat where "par_initrd_size = 24"
definition par_cmdline :: nat where "par_cmdline = 28"

definition put :: "nat \<Rightarrow> u8 list \<Rightarrow> u8 list \<Rightarrow> u8 list" where
  "put i v b = take i b @ v @ drop (i + length v) b"

text \<open>The command line is copied by \<open>strncpy\<close>, which fills up with zeros, and its last byte is cleared.\<close>

definition cmdline_bytes :: "nat \<Rightarrow> string \<Rightarrow> u8 list" where
  "cmdline_bytes n s = (take n (ascii s @ replicate n 0))[n - 1 := 0]"

definition strlen_at :: "u8 list \<Rightarrow> nat tool" where
  "strlen_at b = (if 0 \<in> set b then Inr (length (takeWhile (\<lambda>x. x \<noteq> 0) b)) else Inl Stray)"

text \<open>The three notes; the checksum is filled in by \<open>write_elf\<close>.\<close>

definition elf_boot_notes :: "note_desc \<Rightarrow> u32 \<Rightarrow> memelfnote list" where
  "elf_boot_notes v len =
     [\<lparr> n_type = EIN_PROGRAM_NAME, n_name = ''ELFBoot'', n_desc = Desc (ascii ''Linux'' @ [0]), n_descsz = 6 \<rparr>,
      \<lparr> n_type = EIN_PROGRAM_VERSION, n_name = ''ELFBoot'', n_desc = v, n_descsz = len \<rparr>,
      \<lparr> n_type = EIN_PROGRAM_CHECKSUM, n_name = ''ELFBoot'', n_desc = Desc [], n_descsz = 2 \<rparr>]"

text \<open>The program headers.  \<open>p_data\<close> of the converter is the payload itself, so what is stored into the
  parameters afterwards is in the image.\<close>

definition segment_at :: "u64 \<Rightarrow> u64 \<Rightarrow> u64 \<Rightarrow> u64 \<Rightarrow> u8 list \<Rightarrow> memelfphdr" where
  "segment_at pa va fs ms d = default_phdr\<lparr>p_paddr := pa, p_vaddr := va, p_filesz := fs, p_memsz := ms, p_data := d\<rparr>"

definition i386_phdrs :: "u8 list \<Rightarrow> u32 \<Rightarrow> u32 \<Rightarrow> kernel_info \<Rightarrow> u64 \<Rightarrow> u8 list \<Rightarrow> memelfphdr list" where
  "i386_phdrs payload gdt_size bss_size k base ramdisk_buf =
     [default_phdr\<lparr>p_type := PT_NOTE\<rparr>,
      segment_at CONVERTLOC CONVERTLOC (of_nat (length payload)) (of_nat (length payload) + ucast bss_size) payload,
      segment_at REAL_MODE_DATA_LOC REAL_MODE_DATA_LOC 0
        (ucast (ucast (GDTLOC - REAL_MODE_DATA_LOC) + gdt_size :: u32)) [],
      segment_at (paddr k) (vaddr k) (filesz k) (memsz k) (kernel k)]
     @ (case kernel2 k of None \<Rightarrow> [] | Some k2 \<Rightarrow> [segment_at (paddr2 k) (vaddr2 k) (filesz2 k) (memsz2 k) k2])
     @ (if ramdisk_buf = [] then []
        else [segment_at base base (of_nat (length ramdisk_buf)) (of_nat (length ramdisk_buf)) ramdisk_buf])"

definition fill_params :: "nat \<Rightarrow> string \<Rightarrow> u64 \<Rightarrow> u64 \<Rightarrow> u8 list \<Rightarrow> u8 list \<Rightarrow> u8 list" where
  "fill_params params cmd ent base ramdisk_buf payload =
     (let payload = put (params + par_cmdline) (cmdline_bytes CMDLINE_MAX cmd) payload;
          payload = put (params + par_initrd_start)
            (bytes32 (if ramdisk_buf = [] then 0 else ucast base)) payload;
          payload = put (params + par_initrd_size) (bytes32 (of_nat (length ramdisk_buf))) payload
      in put (params + par_entry) (bytes32 (ucast ent)) payload)"

definition linux_i386_mkelf :: "u8 list \<Rightarrow> (option_code \<times> string) list \<Rightarrow> kernel_parser option \<Rightarrow> u8 list
    \<Rightarrow> memelfheader \<Rightarrow> memelfheader prog" where
  "linux_i386_mkelf payload cs parser kernel_buf ehdr =
     bindp (lift_tool (i386_options_of cs)) (\<lambda>o'.
     bindp (slurp_file (ramdisk o')) (\<lambda>ramdisk_buf.
     bindp (lift_tool (parse_kernel parser kernel_buf)) (\<lambda>k.
     let params = length payload - sizeof_params
     in bindp (lift_tool (if length payload < sizeof_params then Inl Stray else rd32 payload (params + par_magic))) (\<lambda>magic.
        if magic \<noteq> CONVERT_MAGIC then lift_tool (die ''Internal error convert_magic %08x != %08x'')
        else
        bindp (lift_tool (rd32 payload (params + par_gdt_size))) (\<lambda>gdt_size.
        bindp (lift_tool (rd32 payload (params + par_bss_size))) (\<lambda>bss_size.
        let payload = fill_params params (cmdline o') (entry k) (ramdisk_base o') ramdisk_buf payload;
            phdrs = i386_phdrs payload gdt_size bss_size k (ramdisk_base o') ramdisk_buf;
            ehdr = ehdr\<lparr>ei_class := ELFCLASS32, ei_data := ELFDATA2LSB, e_type := ET_EXEC, e_machine := EM_386\<rparr>
        in bindp (add_program_headers (length phdrs) ehdr) (\<lambda>ehdr.
           bindp (add_notes 3 (ehdr\<lparr>e_phdr := phdrs, e_entry := CONVERTLOC\<rparr>)) (\<lambda>ehdr.
           bindp (lift_tool (strlen_at (version k))) (\<lambda>len.
           lift_tool (Inr (ehdr\<lparr>e_notes := elf_boot_notes (Desc (version k)) (of_nat len)\<rparr>)))))))))))"

subsection \<open>The kernel in the image\<close>

lemma segments_of_phdrs:
  "length ps < 2 ^ 32 \<Longrightarrow> e_phdr h = ps \<Longrightarrow> e_phnum h = of_nat (length ps) \<Longrightarrow> segments h = ps"
  by (simp add: unat_of_nat take_bit_nat_eq_self)

lemma length_i386_phdrs: "4 \<le> length (i386_phdrs p g b k base r)" "length (i386_phdrs p g b k base r) \<le> 6"
  by (auto simp: i386_phdrs_def split: option.split)

lemma strlen_at_less: "strlen_at b = Inr n \<Longrightarrow> n < length b"
proof -
  assume "strlen_at b = Inr n"
  then have "0 \<in> set b" "n = length (takeWhile (\<lambda>x. x \<noteq> 0) b)"
    by (auto simp: strlen_at_def split: if_splits)
  moreover from this have "dropWhile (\<lambda>x. x \<noteq> 0) b \<noteq> []"
    by (auto simp: dropWhile_eq_Nil_conv)
  ultimately show "n < length b"
    using arg_cong [OF takeWhile_dropWhile_id [of "\<lambda>x. x \<noteq> 0" b], of length]
    by (metis add_diff_cancel_left' length_0_conv length_append not_less zero_less_diff le_eq_less_or_eq le_add1 add_0_right)
qed

lemma unat_scast_int:
  assumes "w < 2 ^ 31"
  shows "unat (scast w :: u64) = unat (w :: u32)"
proof -
  have "uint w < 2 ^ 31"
    using assms by (simp add: word_less_def)
  then have "\<not> bit (uint w) 31"
    by (simp add: bit_iff_odd div_pos_pos_trivial)
  then have "\<not> bit w 31"
    by (simp add: bit_uint_iff)
  then have "scast w = (ucast w :: u64)"
  proof (intro bit_word_eqI)
    fix n
    assume "\<not> bit w 31"
    then show "bit (scast w :: u64) n = bit (ucast w :: u64) n" if "n < LENGTH(64)"
      using that by (cases "n < 31"; cases "n = 31") (auto simp: bit_simps min_def dest: bit_imp_le_length)
  qed
  then show ?thesis by simp
qed

lemma elf_boot_notes_size:
  assumes "e_notenum h = 3" "e_notes h = elf_boot_notes v (of_nat len)" "len < 2 ^ 30"
  shows "unat (notes_size (show_checksum h)) = 72 + (len + 3) div 4 * 4" "notes_size (show_checksum h) < 2 ^ 31"
proof -
  have c: "roundup (8 :: u64) 4 = 8" "roundup (6 :: u32) 4 = 8" "roundup (2 :: u32) 4 = 4"
    by code_simp+
  have r: "unat (roundup (of_nat len :: u32) 4) = (len + 3) div 4 * 4"
    using assms(3) by (simp add: roundup_def unat_word_ariths unat_div unat_of_nat take_bit_nat_eq_self)
  have "sizeof_notes (e_notes (show_checksum h)) = 72 + roundup (of_nat len) 4"
    using assms(1,2)
    by (simp add: show_checksum_def) (simp add: elf_boot_notes_def is_checksum_note_def elf_consts ascii_def sizeof_notes_def
        elf_sizes c)
  then have u: "unat (sizeof_notes (e_notes (show_checksum h))) = 72 + (len + 3) div 4 * 4"
    using r assms(3) by (simp add: unat_word_ariths)
  have "sizeof_notes (e_notes (show_checksum h)) < 2 ^ 31"
    using assms(3) by (simp add: word_less_nat_alt u)
  then have m: "unat (scast (sizeof_notes (e_notes (show_checksum h))) :: u64)
      = unat (sizeof_notes (e_notes (show_checksum h)))"
    by (rule unat_scast_int)
  have "take (unat (e_notenum h)) (e_notes (show_checksum h)) = e_notes (show_checksum h)"
    using assms(1,2) by (simp add: show_checksum_def elf_boot_notes_def)
  then show *: "unat (notes_size (show_checksum h)) = 72 + (len + 3) div 4 * 4"
    using u m assms(1) by (simp add: notes_size_def ctrue_def)
  then show "notes_size (show_checksum h) < 2 ^ 31"
    using assms(3) by (simp add: word_less_nat_alt)
qed

lemma roundup_int: "len < 2 ^ 30 \<Longrightarrow> unat (roundup (of_nat len :: u32) 4) = (len + 3) div 4 * 4"
  by (simp add: roundup_def unat_word_ariths unat_div unat_of_nat take_bit_nat_eq_self)

lemma serialize_note_length:
  assumes "ei_data h = ELFDATA2LSB" "n_name n = ''ELFBoot''" "desc_bytes c n = Inr d"
    "length d \<le> unat (roundup (n_descsz n) 4)"
  shows "\<exists>b. serialize_note h c n = Inr b \<and> length b = 20 + unat (roundup (n_descsz n) 4)"
proof -
  have r: "unat (roundup (8 :: u64) 4) = 8" by code_simp
  have f: "filled 8 (ascii ''ELFBoot'' @ [0]) = Inr (ascii ''ELFBoot'' @ [0])"
    "filled (unat (roundup (n_descsz n) 4)) d = Inr (d @ replicate (unat (roundup (n_descsz n) 4) - length d) 0)"
    using assms(4) by (simp_all add: filled_def ascii_def)
  show ?thesis
    using assms r f
    by (simp add: serialize_note_def lsb_fields bytes32_def ascii_def del: append.simps)
qed

lemma elf_boot_notes_bytes:
  assumes "ei_data h = ELFDATA2LSB" "e_notenum h = 3" "e_notes h = elf_boot_notes (Desc v) (of_nat len)"
    "len < 2 ^ 30" "len \<le> length v"
  shows "\<exists>b. serialize_notes (show_checksum h) c = Inr b \<and> length b = unat (notes_size (show_checksum h))"
proof -
  have r: "unat (roundup (6 :: u32) 4) = 8" "unat (roundup (2 :: u32) 4) = 4"
    by code_simp+
  have l: "unat (of_nat len :: u32) = len" "len \<le> (len + 3) div 4 * 4"
    using assms(4) by (simp_all add: unat_of_nat take_bit_nat_eq_self)
  have d: "ei_data (show_checksum h) = ELFDATA2LSB" using assms(1) by simp
  let ?n1 = "\<lparr> n_type = EIN_PROGRAM_NAME, n_name = ''ELFBoot'', n_desc = Desc (ascii ''Linux'' @ [0]), n_descsz = 6 \<rparr>"
  let ?n2 = "\<lparr> n_type = EIN_PROGRAM_VERSION, n_name = ''ELFBoot'', n_desc = Desc v, n_descsz = of_nat len \<rparr>"
  let ?n3 = "\<lparr> n_type = EIN_PROGRAM_CHECKSUM, n_name = ''ELFBoot'', n_desc = Checksum, n_descsz = 2 \<rparr>"
  have n: "take (unat (e_notenum h)) (e_notes (show_checksum h)) = [?n1, ?n2, ?n3]"
    using assms(2,3)
    by (simp add: show_checksum_def elf_boot_notes_def is_checksum_note_def elf_consts ascii_def)
  obtain b1 where b1: "serialize_note (show_checksum h) c ?n1 = Inr b1" "length b1 = 28"
    using serialize_note_length [OF d, of ?n1 c "ascii ''Linux'' @ [0]"] r
    by (auto simp: desc_bytes_def bytes_at_def ascii_def)
  obtain b2 where b2: "serialize_note (show_checksum h) c ?n2 = Inr b2" "length b2 = 20 + (len + 3) div 4 * 4"
    using serialize_note_length [OF d, of ?n2 c "take len v"] l assms(5) roundup_int [OF assms(4)]
    by (auto simp: desc_bytes_def bytes_at_def)
  obtain b3 where b3: "serialize_note (show_checksum h) c ?n3 = Inr b3" "length b3 = 24"
    using serialize_note_length [OF d, of ?n3 c "bytes16 c"] r
    by (auto simp: desc_bytes_def bytes_at_def bytes16_def)
  show ?thesis
    using b1 b2 b3 elf_boot_notes_size(1) [OF assms(2,3,4)] by (simp add: serialize_notes_def n)
qed

lemma rd32_inside: "i + 4 \<le> length b \<Longrightarrow> \<exists>w. rd32 b i = Inr w"
  by (simp add: rd32_def rd16_def rd8_def)

text \<open>What the probe of a bzImage has checked.\<close>

lemma refuse_eq_Inr: "refuse c msg k = Inr (Inr x) \<longleftrightarrow> c = Inr False \<and> k = Inr (Inr x)"
  by (auto simp: refuse_def bindt_eq_Inr)

lemma bzImage_probed:
  assumes "bzImage_i386_probe b = Inr (Inr p)"
  shows "p = parse_bzImage" "rd8 b 0x1F1 = Inr (b ! 0x1F1)" "setup_end (b ! 0x1F1) \<le> of_nat (length b)"
  using assms
  by (auto simp: bzImage_i386_probe_def refuse_eq_Inr bindt_eq_Inr rd8_def not_less split: if_splits)

lemma bzImage_mkelf:
  assumes p: "bzImage_i386_probe b = Inr (Inr p)" "length b < 2 ^ 30"
    and o: "i386_options_of cs = Inr o'" "ramdisk o' = None"
    and payload: "sizeof_params \<le> length payload"
      "rd32 payload (length payload - sizeof_params) = Inr CONVERT_MAGIC"
    and v: "rd16 b 0x20E = Inr kver" "strlen_at (drop (512 + unat kver) b) = Inr len"
    and H: "malloc_ok H = (\<lambda>n. True)"
  obtains h pl gdt bss k where "linux_i386_mkelf payload cs (Some p) b ehdr H = (Inr h, H)"
    "segments h = i386_phdrs pl gdt bss k (ramdisk_base o') []" "arrays_ok h"
    "kernel k = drop (unat (setup_end (b ! 0x1F1))) b" "unat (filesz k) = length (kernel k)"
    "paddr k = 0x100000" "kernel2 k = None" "length pl = length payload" "e_entry h = CONVERTLOC"
    "ei_class h = ELFCLASS32" "ei_data h = ELFDATA2LSB" "e_notenum h = 3"
    "e_notes h = elf_boot_notes (Desc (drop (512 + unat kver) b)) (of_nat len)"
proof -
  note bz = bzImage_probed [OF p(1)]
  have m: "rd32 payload (length payload - sizeof_params + par_magic) = Inr CONVERT_MAGIC"
    using payload(2) by (simp add: par_magic_def)
  obtain gdt bss where g: "rd32 payload (length payload - sizeof_params + par_gdt_size) = Inr gdt"
      "rd32 payload (length payload - sizeof_params + par_bss_size) = Inr bss"
    using rd32_inside [of "length payload - sizeof_params + par_gdt_size" payload]
      rd32_inside [of "length payload - sizeof_params + par_bss_size" payload] payload(1)
    by (auto simp: sizeof_params_def CMDLINE_MAX_def par_gdt_size_def par_bss_size_def)
  obtain k where k: "parse_kernel (Some p) b = Inr k" "kernel k = drop (unat (setup_end (b ! 0x1F1))) b"
      "filesz k = of_nat (length b) - setup_end (b ! 0x1F1)" "paddr k = 0x100000" "kernel2 k = None"
      "version k = drop (512 + unat kver) b"
    using bz v(1) by (simp add: parse_kernel_def parse_bzImage_kernel_def Let_def kernel_info_cleared_def)
  have f: "unat (filesz k) = length (kernel k)"
    using bz(3) p(2) by (simp add: k unat_sub unat_of_nat take_bit_nat_eq_self)
  let ?pl = "fill_params (length payload - sizeof_params) (cmdline o') (entry k) (ramdisk_base o') [] payload"
  let ?ps = "i386_phdrs ?pl gdt bss k (ramdisk_base o') []"
  let ?h = "ehdr\<lparr>ei_class := ELFCLASS32, ei_data := ELFDATA2LSB, e_type := ET_EXEC, e_machine := EM_386,
      e_phnum := of_nat (length ?ps), e_phdr := ?ps, e_entry := CONVERTLOC, e_notenum := 3,
      e_notes := elf_boot_notes (Desc (version k)) (of_nat len)\<rparr>"
  have run: "linux_i386_mkelf payload cs (Some p) b ehdr H = (Inr ?h, H)"
    using o payload(1) v(2) k m g H
    by (simp add: linux_i386_mkelf_def Let_def slurp_file_def add_program_headers_def add_notes_def)
       (simp add: bindp_def lift_tool_def xmalloc_def)
  have l: "length ?ps < 2 ^ 32" "unat (of_nat (length ?ps) :: u32) = length ?ps"
    using length_i386_phdrs(2) [of ?pl gdt bss k "ramdisk_base o'" "[]"]
    by (simp_all add: unat_of_nat take_bit_nat_eq_self)
  have pl: "length ?pl = length payload"
    using payload(1)
    by (simp add: fill_params_def Let_def put_def cmdline_bytes_def bytes32_def sizeof_params_def CMDLINE_MAX_def
        par_cmdline_def par_initrd_start_def par_initrd_size_def par_entry_def)
  show ?thesis
    by (rule that [OF run _ _ k(2) f k(4,5) pl])
       (use l k(6) in \<open>simp_all add: arrays_ok_def elf_boot_notes_def\<close>)
qed

text \<open>Every kernel that the bzImage probe accepts becomes an image, with the default options and a host
  that takes the writes, and the image is the one the boot loader needs: its entry point is the converter
  at 64 KB, and its fourth program header has all bytes of the kernel after the real mode sectors, to be
  loaded at 1 MB.\<close>

lemma bzImage_image:
  assumes "bzImage_i386_probe b = Inr (Inr p)" "length b < 2 ^ 30"
    and "i386_options_of cs = Inr o'" "ramdisk o' = None"
    and "sizeof_params \<le> length payload" "length payload < 2 ^ 30"
      "rd32 payload (length payload - sizeof_params) = Inr CONVERT_MAGIC"
    and "rd16 b 0x20E = Inr kver" "strlen_at (drop (512 + unat kver) b) = Inr len"
    and "files H out = None" "malloc_ok H = (\<lambda>n. True)" "call_ok H = (\<lambda>c f. True)"
      "io H = map Moved ns" "5 < length ns" "\<forall>n\<in>set ns. 2 ^ 40 \<le> n"
  shows "\<exists>h H' img off sz. linux_i386_mkelf payload cs (Some p) b ehdr H = (Inr h, H) \<and>
    write_elf h out H = (Inr (), H') \<and> files H' out = Some img \<and> rd32 img 24 = Inr 0x10000 \<and>
    rd32 img (52 + 32 * 3 + 4) = Inr off \<and> rd32 img (52 + 32 * 3 + 16) = Inr sz \<and>
    rd32 img (52 + 32 * 3 + 12) = Inr 0x100000 \<and>
    take (unat sz) (drop (unat off) img) = drop (unat (setup_end (b ! 0x1F1))) b"
proof (rule bzImage_mkelf [OF assms(1-5,7-9,11)])
  fix h pl gdt bss k
  assume h: "linux_i386_mkelf payload cs (Some p) b ehdr H = (Inr h, H)"
    "segments h = i386_phdrs pl gdt bss k (ramdisk_base o') []" "arrays_ok h"
    "kernel k = drop (unat (setup_end (b ! 0x1F1))) b" "unat (filesz k) = length (kernel k)"
    "paddr k = 0x100000" "kernel2 k = None" "length pl = length payload" "e_entry h = CONVERTLOC"
    "ei_class h = ELFCLASS32" "ei_data h = ELFDATA2LSB" "e_notenum h = 3"
    "e_notes h = elf_boot_notes (Desc (drop (512 + unat kver) b)) (of_nat len)"
  have len: "len < 2 ^ 30" "len \<le> length (drop (512 + unat kver) b)"
    using strlen_at_less [OF assms(9)] assms(2) by auto
  note ns = elf_boot_notes_size [OF h(12,13) len(1)]
  have sz: "unat (of_nat (length pl) :: u64) = length pl" "length (kernel k) < 2 ^ 30" "length pl < 2 ^ 30"
    using h(4,8) assms(2,6) by (simp_all add: unat_of_nat take_bit_nat_eq_self)
  have segs: "segments h = [default_phdr\<lparr>p_type := PT_NOTE\<rparr>,
      segment_at CONVERTLOC CONVERTLOC (of_nat (length pl)) (of_nat (length pl) + ucast bss) pl,
      segment_at REAL_MODE_DATA_LOC REAL_MODE_DATA_LOC 0
        (ucast (ucast (GDTLOC - REAL_MODE_DATA_LOC) + gdt :: u32)) [],
      segment_at (paddr k) (vaddr k) (filesz k) (memsz k) (kernel k)]"
    using h(2,7) by (simp add: i386_phdrs_def)
  note seg_defs = segment_at_def default_phdr_def file_image_def elf_consts
  have fits: "\<forall>q\<in>set (segments h). unat (p_filesz q) \<le> length (p_data q) \<and> (\<forall>n\<in>set ns. unat (p_filesz q) \<le> n)"
  proof -
    have "length pl \<le> x" "length (kernel k) \<le> x" if "x \<in> set ns" for x
      using bspec [OF assms(15) that] sz(2,3) by simp_all
    then show ?thesis using sz(1) h(5) by (simp add: segs seg_defs)
  qed
  obtain H' where run: "write_elf h out H = (Inr (), H')"
    using write_elf_returns [OF h(3,10,11) fits elf_boot_notes_bytes [OF h(11-13) len] assms(10-13) _ ns(2) assms(15)]
      assms(14) by (auto simp: segs)
  show ?thesis
  proof (rule write_elf_pieces [OF run ns(2)])
    fix e q n c
    assume i: "serialize_ehdr h = Inr e" "serialize_phdrs h (notes_size (show_checksum h)) = Inr q"
      "length n = unat (notes_size (show_checksum h))"
      "files H' = (files H)(out \<mapsto> e @ q @ n @ concat (map file_image (segments h)))"
    let ?img = "e @ q @ n @ concat (map file_image (segments h))"
    have "serialize_phdrs32 h (notes_size (show_checksum h)) (sizeof_Elf32_Ehdr + sizeof_Elf32_Phdr * ucast (e_phnum h))
        (sizeof_Elf32_Ehdr + sizeof_Elf32_Phdr * ucast (e_phnum h) + notes_size (show_checksum h)) (segments h) = Inr q"
      using i(2) h(10) by (simp only: serialize_phdrs_def Let_def simp_thms if_True)
    then have "length q = 32 * length (segments h)"
      by (rule serialize_phdrs32_length)
    then have "length q = 32 * 4"
      unfolding segs by simp
    then have l: "length ?img < 2 ^ 32"
      using serialize_ehdr_length(1) [OF i(1) h(10)] i(3) ns(1) len(1) sz
      by (simp add: segs seg_defs)
    have "files H' out = Some ?img" using i(4) by simp
    obtain off sz where "rd32 ?img (52 + 32 * 3 + 4) = Inr off" "rd32 ?img (52 + 32 * 3 + 16) = Inr sz"
        "rd32 ?img (52 + 32 * 3 + 12) = Inr 0x100000"
        "take (unat sz) (drop (unat off) ?img) = kernel k"
      using image_segment [OF run \<open>files H' out = Some ?img\<close> l h(10,11) ns(2), of 3] h(5,6)
      by (auto simp: segs seg_defs)
    moreover have "rd32 ?img 24 = Inr 0x10000"
      using ehdr32_entry [OF h(10,11) i(1)] by (simp add: h(9) CONVERTLOC_def)
    ultimately show ?thesis
      using h(1) run \<open>files H' out = Some ?img\<close> unfolding h(4) by blast
  qed
qed

text \<open>A kernel of three bytes after two sectors, a converter of sixteen bytes before its parameters, and a
  host with nothing in its files.\<close>

definition small_kernel :: "u8 list" where
  "small_kernel = replicate 497 0 @ [1] @ replicate 12 0 @ [0x55, 0xAA, 0, 0, 0x48, 0x64, 0x72, 0x53, 2, 2]
     @ replicate 6 0 @ [0x10, 0, 0x32, 0x2E, 0x34, 0] @ replicate 492 0 @ [0x90, 0x91, 0x92]"

definition small_payload :: "u8 list" where
  "small_payload = replicate 16 0 @ [0xA5, 0xA5, 0xA5, 0xA5] @ replicate 280 0"

definition idle_host :: host where
  "idle_host = \<lparr> files = \<lambda>f. None, malloc_ok = \<lambda>n. True, call_ok = \<lambda>c f. True,
     io = map Moved (replicate 6 (2 ^ 40)), gz = \<lambda>f. [] \<rparr>"

lemma small_kernel_facts:
  "bzImage_i386_probe small_kernel = Inr (Inr parse_bzImage)" "length small_kernel < 2 ^ 30"
  "rd16 small_kernel 0x20E = Inr 0x10" "strlen_at (drop (512 + unat (0x10 :: u16)) small_kernel) = Inr 3"
  "sizeof_params \<le> length small_payload" "length small_payload < 2 ^ 30"
  "rd32 small_payload (length small_payload - sizeof_params) = Inr CONVERT_MAGIC"
  by (simp_all add: small_kernel_def small_payload_def bzImage_i386_probe_def refuse_def is_not_def or_else_def
      rd8_def rd16_def rd32_def nth_append setup_end_def strlen_at_def sizeof_params_def CMDLINE_MAX_def CONVERT_MAGIC_def)

lemma no_options: "i386_options_of [] = Inr \<lparr> ramdisk_base = DEFAULT_RAMDISK_BASE, ramdisk = None, cmdline = [] \<rparr>"
  by (simp add: i386_options_of_def)

subsection \<open>The load address of the ramdisk\<close>

lemma i386_options_append:
  "i386_options_loop o' (a @ c) = bindt (i386_options_loop o' a) (\<lambda>o'. i386_options_loop o' c)"
  by (induction a arbitrary: o') (auto split: prod.split)

lemma i386_options_keep:
  assumes "i386_options_loop o' ds = Inr o2" "\<forall>(c, a) \<in> set ds. c \<noteq> OPT_RAMDISK \<and> c \<noteq> OPT_RAMDISK_BASE"
  shows "ramdisk o2 = ramdisk o' \<and> ramdisk_base o2 = ramdisk_base o'"
  using assms by (induction ds arbitrary: o') (auto simp: die_def split: if_splits)

text \<open>C38: the code goes on from the case of the option \<open>--ramdisk-base\<close> to the next one and takes the
  address as the name of the ramdisk too.  When no \<open>--ramdisk\<close> comes after it, the tool dies when it opens
  the ramdisk, unless a file has the address for its name, whatever the other options are, also when a
  ramdisk was named before.  Only a \<open>--ramdisk\<close> after it repairs the name, and then the base is used.\<close>

theorem ramdisk_base_dies:
  assumes "i386_options_of (cs @ (OPT_RAMDISK_BASE, s) # ds) = Inr o'" "strtoul s = (v, [])" "s \<noteq> []"
    and "\<forall>(c, a) \<in> set ds. c \<noteq> OPT_RAMDISK \<and> c \<noteq> OPT_RAMDISK_BASE"
  shows "(files H s = None \<longrightarrow> linux_i386_mkelf payload (cs @ (OPT_RAMDISK_BASE, s) # ds) parser b ehdr H
      = (die ''Cannot open `%s': %s'', H)) \<and>
    i386_options_of ((cs @ (OPT_RAMDISK_BASE, s) # ds) @ [(OPT_RAMDISK, f)]) = Inr (o'\<lparr>ramdisk := Some f\<rparr>) \<and>
    ramdisk_base o' = v"
proof -
  obtain o1 where o1: "i386_options_loop (o1\<lparr>ramdisk_base := v, ramdisk := Some s\<rparr>) ds = Inr o'"
    using assms(1-3) by (auto simp: i386_options_of_def i386_options_append bindt_eq_Inr)
  have k: "ramdisk o' = Some s" "ramdisk_base o' = v"
    using i386_options_keep [OF o1 assms(4)] by simp_all
  moreover have "i386_options_of ((cs @ (OPT_RAMDISK_BASE, s) # ds) @ [(OPT_RAMDISK, f)]) = Inr (o'\<lparr>ramdisk := Some f\<rparr>)"
    using assms(1) unfolding i386_options_of_def i386_options_append [of _ "cs @ (OPT_RAMDISK_BASE, s) # ds"] by simp
  ultimately show ?thesis
    using assms(1) by (simp add: linux_i386_mkelf_def slurp_file_def bindp_def die_def)
qed

theorem ramdisk_base_dies_witness:
  "linux_i386_mkelf [] ([(OPT_RAMDISK, ''initrd'')] @ (OPT_RAMDISK_BASE, ''0x1000000'') # [(OPT_CMDLINE, ''ro'')])
    None [] cleared_header idle_host = (die ''Cannot open `%s': %s'', idle_host)"
proof -
  have v: "strtoul ''0x1000000'' = (0x1000000, [])"
    by (simp add: strtoul_def is_space_def digit_of_def digits_value_def Let_def)
  have c: "i386_options_of ([(OPT_RAMDISK, ''initrd'')] @ (OPT_RAMDISK_BASE, ''0x1000000'') # [(OPT_CMDLINE, ''ro'')])
      = Inr \<lparr>ramdisk_base = 0x1000000, ramdisk = Some ''0x1000000'', cmdline = ''ro''\<rparr>"
    by (simp add: i386_options_of_def v)
  have k: "\<forall>(c, a) \<in> set [(OPT_CMDLINE, ''ro'')]. c \<noteq> OPT_RAMDISK \<and> c \<noteq> OPT_RAMDISK_BASE" by simp
  have "files idle_host ''0x1000000'' = None" by (simp add: idle_host_def)
  with ramdisk_base_dies [OF c v _ k] show ?thesis by blast
qed

end
