(* ===== verification/ElfIa64.thy ===== *)
theory ElfIa64
  imports ElfLinux
begin

text \<open>
  Images of Linux kernels for the ia64: \<open>tools/mkelfImage/linux-ia64/mkelf-linux-ia64.c\<close>.  The kernel is a
  64-bit ELF file, whose loadable segments are put into the image in the order of their addresses, with
  the converter and the initial ramdisk behind them.  The converter is a parameter, as for the i386; its
  structure \<open>image_parameters\<close> has 1056 bytes.
\<close>

subsection \<open>Probe and parser\<close>

primrec count_loads :: "u8 list \<Rightarrow> nat \<Rightarrow> nat \<Rightarrow> nat list \<Rightarrow> nat tool" where
  "count_loads b phdr phdrs [] = Inr phdrs"
| "count_loads b phdr phdrs (i # is) =
     bindt (rd32 b (phdr + 56 * i)) (\<lambda>type.
     count_loads b phdr (if type \<noteq> PT_LOAD then phdrs else phdrs + 1) is)"

definition linux_ia64_probe :: "u8 list \<Rightarrow> unit probe" where
  "linux_ia64_probe b =
     refuse (no_signature b) ''No ELF signature found on kernel'' (
     refuse (is_not (rd8 b 4) (ucast ELFCLASS64)) ''Not a 64bit ELF kernel'' (
     refuse (is_not (rd8 b 5) (ucast ELFDATA2LSB)) ''Not a little endian ELF kernel'' (
     refuse (is_not (rd16 b 16) (ucast ET_EXEC)) ''Not an executable kernel'' (
     refuse (is_not (rd16 b 18) (ucast EM_IA_64)) ''Not an ia64 kernel'' (
     refuse (or_else (is_not (rd8 b 6) (ucast EV_CURRENT)) (is_not (rd32 b 20) EV_CURRENT))
       ''Kernel not using ELF version 1.'' (
     refuse (is_not (rd16 b 54) (ucast sizeof_Elf64_Phdr)) ''Kernel uses bad program header size.'' (
     bindt (rd64 b 32) (\<lambda>phoff.
     bindt (rd16 b 56) (\<lambda>phnum.
     bindt (count_loads b (unat phoff) 0 [0..<unat phnum]) (\<lambda>phdrs.
     if phdrs = 0 then Inr (Inl ''No PT_LOAD segments!'') else Inr (Inr ())))))))))))"

text \<open>What the parser keeps of the kernel: the number of loadable segments, the place of the program
  headers and their number, and the entry point.\<close>

record ia64_info =
  i_phdrs :: nat
  i_phdr :: nat
  i_phnum :: nat
  i_entry :: u64
  i_version :: "u8 list"

definition ia64_parse_kernel :: "u8 list \<Rightarrow> ia64_info tool" where
  "ia64_parse_kernel b =
     bindt (rd64 b 32) (\<lambda>phoff.
     bindt (rd16 b 56) (\<lambda>phnum.
     bindt (count_loads b (unat phoff) 0 [0..<unat phnum]) (\<lambda>phdrs.
     if phdrs = 0 then die ''No PT_LOAD segments!''
     else bindt (rd64 b 24) (\<lambda>entry.
          Inr \<lparr> i_phdrs = phdrs, i_phdr = unat phoff, i_phnum = unat phnum, i_entry = entry,
                i_version = ascii ''unknown'' @ [0] \<rparr>))))"

text \<open>The inner loop of \<open>populate_kernel_phdrs\<close>: of the loadable segments from \<open>pa\<close> on, the one with the
  lowest address.  \<open>hdr\<close> is the place of the header chosen so far.\<close>

primrec choose_hdr :: "u8 list \<Rightarrow> nat \<Rightarrow> u64 \<Rightarrow> nat option \<Rightarrow> nat list \<Rightarrow> nat option tool" where
  "choose_hdr b phdr pa hdr [] = Inr hdr"
| "choose_hdr b phdr pa hdr (j # js) =
     bindt (rd32 b (phdr + 56 * j)) (\<lambda>type.
     if type \<noteq> PT_LOAD then choose_hdr b phdr pa hdr js
     else bindt (rd64 b (phdr + 56 * j + 24)) (\<lambda>a.
     if pa > a then choose_hdr b phdr pa hdr js
     else bindt (case hdr of None \<Rightarrow> Inr False
                 | Some h \<Rightarrow> bindt (rd64 b (h + 24)) (\<lambda>c. Inr (c < a))) (\<lambda>lower.
     if lower then choose_hdr b phdr pa hdr js
     else choose_hdr b phdr pa (Some (phdr + 56 * j)) js)))"

definition kernel_segment :: "u8 list \<Rightarrow> nat \<Rightarrow> memelfphdr tool" where
  "kernel_segment b h =
     bindt (rd64 b (h + 24)) (\<lambda>pa.
     bindt (rd64 b (h + 16)) (\<lambda>va.
     bindt (rd64 b (h + 32)) (\<lambda>fs.
     bindt (rd64 b (h + 40)) (\<lambda>ms.
     bindt (rd64 b (h + 8)) (\<lambda>off.
     Inr (segment_at pa va fs ms (drop (unat off) b)))))))"

text \<open>The outer loop: \<open>n\<close> segments are still to be placed.\<close>

primrec populate_loop :: "u8 list \<Rightarrow> ia64_info \<Rightarrow> nat \<Rightarrow> u64 \<Rightarrow> memelfphdr list tool" where
  "populate_loop b info 0 pa = Inr []"
| "populate_loop b info (Suc n) pa =
     bindt (choose_hdr b (i_phdr info) pa None [0..<i_phnum info]) (\<lambda>hdr. case hdr of
       None \<Rightarrow> die ''Expected %d phdrs found %d!''
     | Some h \<Rightarrow>
         bindt (kernel_segment b h) (\<lambda>p.
         bindt (populate_loop b info n (p_paddr p + p_memsz p)) (\<lambda>ps. Inr (p # ps))))"

definition populate_kernel_phdrs :: "u8 list \<Rightarrow> ia64_info \<Rightarrow> memelfphdr list tool" where
  "populate_kernel_phdrs b info = populate_loop b info (i_phdrs info) 0"

subsection \<open>The image of a kernel\<close>

record ia64_options =
  ia64_ramdisk :: "string option"
  ia64_cmdline :: string

primrec ia64_options_loop :: "ia64_options \<Rightarrow> (option_code \<times> string) list \<Rightarrow> ia64_options tool" where
  "ia64_options_loop o' [] = Inr o'"
| "ia64_options_loop o' (c # cs) = (case c of (opt, optarg) \<Rightarrow>
     if opt = OPT_BAD then die ''Unknown option %s''
     else if opt = OPT_RAMDISK then ia64_options_loop (o'\<lparr>ia64_ramdisk := Some optarg\<rparr>) cs
     else if opt = OPT_CMDLINE then ia64_options_loop (o'\<lparr>ia64_cmdline := optarg\<rparr>) cs
     else ia64_options_loop o' cs)"

definition ia64_CMDLINE_MAX :: nat where "ia64_CMDLINE_MAX = 1024"
definition ia64_CONVERT_MAGIC :: u64 where "ia64_CONVERT_MAGIC = 0xA5A5A5A5A5A5A5A5"

text \<open>The parameters: the magic number, the entry point, start and size of the ramdisk, the command
  line.\<close>

definition ia64_sizeof_params :: nat where "ia64_sizeof_params = 32 + ia64_CMDLINE_MAX"

definition ia64_fill_params :: "nat \<Rightarrow> string \<Rightarrow> u64 \<Rightarrow> u64 \<Rightarrow> u64 \<Rightarrow> u8 list \<Rightarrow> u8 list" where
  "ia64_fill_params params cmd ent start len payload =
     put (params + 24) (bytes64 len) (put (params + 16) (bytes64 start) (put (params + 8) (bytes64 ent)
       (put (params + 32) (cmdline_bytes ia64_CMDLINE_MAX cmd) payload)))"

text \<open>The first multiple of sixteen behind a segment.\<close>

definition behind :: "memelfphdr \<Rightarrow> u64" where
  "behind p = roundup (p_paddr p + p_memsz p) 16"

definition linux_ia64_mkelf :: "u8 list \<Rightarrow> (option_code \<times> string) list \<Rightarrow> u8 list
    \<Rightarrow> memelfheader \<Rightarrow> memelfheader prog" where
  "linux_ia64_mkelf payload cs kernel_buf ehdr =
     bindp (lift_tool (ia64_options_loop \<lparr> ia64_ramdisk = None, ia64_cmdline = [] \<rparr> cs)) (\<lambda>o'.
     bindp (slurp_file (ia64_ramdisk o')) (\<lambda>ramdisk_buf.
     bindp (lift_tool (ia64_parse_kernel kernel_buf)) (\<lambda>k.
     let params = length payload - ia64_sizeof_params
     in bindp (lift_tool (if length payload < ia64_sizeof_params then Inl Stray else rd64 payload params)) (\<lambda>magic.
        if magic \<noteq> ia64_CONVERT_MAGIC
        then lift_tool (die ''Internal error convert_magic %16llx != %16llx'')
        else
        bindp (lift_tool (populate_kernel_phdrs kernel_buf k)) (\<lambda>segs.
        let conv = behind (last (default_phdr\<lparr>p_type := PT_NOTE\<rparr> # segs));
            n = of_nat (length payload);
            start = behind (segment_at conv conv n n []);
            payload = ia64_fill_params params (ia64_cmdline o') (i_entry k)
              (if ramdisk_buf = [] then 0 else start) (of_nat (length ramdisk_buf)) payload;
            phdrs = default_phdr\<lparr>p_type := PT_NOTE\<rparr> # segs @ [segment_at conv conv n n payload]
              @ (if ramdisk_buf = [] then []
                 else [segment_at start start (of_nat (length ramdisk_buf)) (of_nat (length ramdisk_buf)) ramdisk_buf]);
            ehdr = ehdr\<lparr>ei_class := ELFCLASS64, ei_data := ELFDATA2LSB, e_type := ET_EXEC, e_machine := EM_IA_64\<rparr>
        in bindp (add_program_headers (length phdrs) ehdr) (\<lambda>ehdr.
           bindp (add_notes 3 (ehdr\<lparr>e_phdr := phdrs, e_entry := conv\<rparr>)) (\<lambda>ehdr.
           bindp (lift_tool (strlen_at (i_version k))) (\<lambda>len.
           lift_tool (Inr (ehdr\<lparr>e_notes := elf_boot_notes (Desc (i_version k)) (of_nat len + 1)\<rparr>))))))))))"

subsection \<open>The order of the segments\<close>

text \<open>The loadable headers of a kernel, and the segment that each describes.\<close>

definition loads :: "u8 list \<Rightarrow> ia64_info \<Rightarrow> nat list" where
  "loads b info = filter (\<lambda>j. rd32 b (i_phdr info + 56 * j) = Inr PT_LOAD) [0..<i_phnum info]"

definition segment_of :: "u8 list \<Rightarrow> ia64_info \<Rightarrow> nat \<Rightarrow> memelfphdr" where
  "segment_of b info j = (case kernel_segment b (i_phdr info + 56 * j) of Inr p \<Rightarrow> p | Inl _ \<Rightarrow> default_phdr)"

lemma rd64_inside: "i + 8 \<le> length b \<Longrightarrow> \<exists>w. rd64 b i = Inr w"
  by (simp add: rd64_def rd32_def rd16_def rd8_def)

text \<open>The file holds the whole table of headers.\<close>

definition headers_inside :: "u8 list \<Rightarrow> ia64_info \<Rightarrow> bool" where
  "headers_inside b info \<longleftrightarrow> i_phdr info + 56 * i_phnum info \<le> length b"

lemma segment_read:
  assumes "headers_inside b info" "j < i_phnum info"
  shows "kernel_segment b (i_phdr info + 56 * j) = Inr (segment_of b info j)"
    "rd64 b (i_phdr info + 56 * j + 24) = Inr (p_paddr (segment_of b info j))"
    "\<exists>t. rd32 b (i_phdr info + 56 * j) = Inr t"
proof -
  have "56 * Suc j \<le> 56 * i_phnum info" using assms(2) by (intro mult_le_mono2) simp
  then have l: "i_phdr info + 56 * j + 56 \<le> length b" using assms(1) by (simp add: headers_inside_def)
  then obtain a v f m off where r: "rd64 b (i_phdr info + 56 * j + 24) = Inr a" "rd64 b (i_phdr info + 56 * j + 16) = Inr v"
    "rd64 b (i_phdr info + 56 * j + 32) = Inr f" "rd64 b (i_phdr info + 56 * j + 40) = Inr m"
    "rd64 b (i_phdr info + 56 * j + 8) = Inr off"
    using rd64_inside [of "i_phdr info + 56 * j + 24" b] rd64_inside [of "i_phdr info + 56 * j + 16" b]
      rd64_inside [of "i_phdr info + 56 * j + 32" b] rd64_inside [of "i_phdr info + 56 * j + 40" b]
      rd64_inside [of "i_phdr info + 56 * j + 8" b] by auto
  then have k: "kernel_segment b (i_phdr info + 56 * j) = Inr (segment_at a v f m (drop (unat off) b))"
    by (simp add: kernel_segment_def)
  then show "kernel_segment b (i_phdr info + 56 * j) = Inr (segment_of b info j)"
    "rd64 b (i_phdr info + 56 * j + 24) = Inr (p_paddr (segment_of b info j))"
    using r(1) by (simp_all add: segment_of_def segment_at_def)
  show "\<exists>t. rd32 b (i_phdr info + 56 * j) = Inr t"
    using l by (intro rd32_inside) simp
qed

text \<open>The inner loop finds the lowest of the segments from \<open>pa\<close> on, when there is only one.\<close>

lemma choose_hdr_lowest:
  assumes "headers_inside b info" "set ks \<subseteq> {..<i_phnum info}" "j < i_phnum info"
    and "\<forall>k \<in> set ks. k \<in> set (loads b info) \<and> pa \<le> p_paddr (segment_of b info k) \<longrightarrow>
      k = j \<or> p_paddr (segment_of b info j) < p_paddr (segment_of b info k)"
    and "j \<in> set (loads b info)" "pa \<le> p_paddr (segment_of b info j)"
    and "j \<in> set ks \<and> hdr = None \<or>
      (\<exists>k < i_phnum info. hdr = Some (i_phdr info + 56 * k) \<and>
        (k = j \<or> j \<in> set ks \<and> p_paddr (segment_of b info j) < p_paddr (segment_of b info k)))"
  shows "choose_hdr b (i_phdr info) pa hdr ks = Inr (Some (i_phdr info + 56 * j))"
  using assms(2,4,7)
proof (induction ks arbitrary: hdr)
  case (Cons k ks)
  have k: "k < i_phnum info" using Cons.prems(1) by simp
  note r = segment_read [OF assms(1) k]
  obtain t where t: "rd32 b (i_phdr info + 56 * k) = Inr t" using r(3) by blast
  have l: "k \<in> set (loads b info) \<longleftrightarrow> t = PT_LOAD" using k t by (simp add: loads_def)
  show ?case
  proof (cases "t = PT_LOAD \<and> pa \<le> p_paddr (segment_of b info k)")
    case False
    then have "k \<noteq> j" using l assms(5,6) by auto
    then have "choose_hdr b (i_phdr info) pa hdr ks = Inr (Some (i_phdr info + 56 * j))"
      using Cons.prems by (intro Cons.IH) auto
    then show ?thesis using False t r(2) by auto
  next
    case take: True
    have c: "k = j \<or> p_paddr (segment_of b info j) < p_paddr (segment_of b info k)"
      using Cons.prems(2) l take by simp
    have above: "\<not> p_paddr (segment_of b info k) < pa" using take by (simp add: not_less)
    have next_hdr: "choose_hdr b (i_phdr info) pa h ks = Inr (Some (i_phdr info + 56 * j))"
      if "j \<in> set ks \<and> h = None \<or> (\<exists>i < i_phnum info. h = Some (i_phdr info + 56 * i) \<and>
        (i = j \<or> j \<in> set ks \<and> p_paddr (segment_of b info j) < p_paddr (segment_of b info i)))" for h
      using Cons.prems(1,2) that by (intro Cons.IH) auto
    have taken: "choose_hdr b (i_phdr info) pa (Some (i_phdr info + 56 * k)) ks = Inr (Some (i_phdr info + 56 * j))"
      if "k = j \<or> j \<in> set ks"
      by (rule next_hdr) (use c k that in blast)
    show ?thesis
    proof (cases hdr)
      case None
      then have "k = j \<or> j \<in> set ks" using Cons.prems(3) by auto
      then show ?thesis using taken take above t r(2) None by simp
    next
      case (Some h)
      then obtain i where i: "i < i_phnum info" "h = i_phdr info + 56 * i"
        "i = j \<or> j \<in> set (k # ks) \<and> p_paddr (segment_of b info j) < p_paddr (segment_of b info i)"
        using Cons.prems(3) by auto
      note ri = segment_read(2) [OF assms(1) i(1)]
      show ?thesis
      proof (cases "p_paddr (segment_of b info i) < p_paddr (segment_of b info k)")
        case True
        then have "k \<noteq> j" using i(3) by auto
        then have "choose_hdr b (i_phdr info) pa hdr ks = Inr (Some (i_phdr info + 56 * j))"
          using i Some by (intro next_hdr) auto
        then show ?thesis using True take above t r(2) ri i(2) Some by simp
      next
        case False
        then have "k = j \<or> j \<in> set ks" using i(3) c by auto
        then show ?thesis using taken False take above t r(2) ri i(2) Some by simp
      qed
    qed
  qed
qed auto

text \<open>Segments in the order of their addresses, each at or behind the end of the one before.\<close>

fun in_order :: "memelfphdr list \<Rightarrow> bool" where
  "in_order (p # q # ps) \<longleftrightarrow> unat (p_paddr p) + unat (p_memsz p) \<le> unat (p_paddr q) \<and> in_order (q # ps)"
| "in_order ps \<longleftrightarrow> True"

lemma in_order_behind:
  "in_order (p # ps) \<Longrightarrow> \<forall>q \<in> set ps. unat (p_paddr p) + unat (p_memsz p) \<le> unat (p_paddr q)"
proof (induction ps arbitrary: p)
  case (Cons q ps)
  then have "\<forall>r \<in> set ps. unat (p_paddr q) + unat (p_memsz q) \<le> unat (p_paddr r)" by auto
  then show ?case using Cons.prems by auto
qed simp

lemma in_order_tl: "in_order (p # ps) \<Longrightarrow> in_order ps"
  by (cases ps) auto

lemma populate_loop_in_order:
  assumes "headers_inside b info" "in_order (map (segment_of b info) js)"
    and "set js = {j \<in> set (loads b info). pa \<le> p_paddr (segment_of b info j)}" "distinct js"
    and "\<forall>j \<in> set js. 0 < p_memsz (segment_of b info j) \<and>
      unat (p_paddr (segment_of b info j)) + unat (p_memsz (segment_of b info j)) < 2 ^ 64"
  shows "populate_loop b info (length js) pa = Inr (map (segment_of b info) js)"
  using assms(2-)
proof (induction js arbitrary: pa)
  case (Cons j js)
  let ?s = "segment_of b info"
  let ?pa = "p_paddr (?s j) + p_memsz (?s j)"
  have j: "j \<in> set (loads b info)" "pa \<le> p_paddr (?s j)" using Cons.prems(2) by auto
  then have jn: "j < i_phnum info" by (simp add: loads_def)
  have size: "0 < unat (p_memsz (?s j))" "unat ?pa = unat (p_paddr (?s j)) + unat (p_memsz (?s j))"
    using Cons.prems(4) by (simp_all add: word_less_nat_alt unat_plus_if')
  have b: "unat ?pa \<le> unat (p_paddr (?s k))" if "k \<in> set js" for k
    using in_order_behind [of "?s j" "map ?s js"] Cons.prems(1) that size(2) by simp
  have "choose_hdr b (i_phdr info) pa None [0..<i_phnum info] = Inr (Some (i_phdr info + 56 * j))"
  proof (rule choose_hdr_lowest [OF assms(1) _ jn _ j])
    show "\<forall>k \<in> set [0..<i_phnum info]. k \<in> set (loads b info) \<and> pa \<le> p_paddr (?s k) \<longrightarrow>
        k = j \<or> p_paddr (?s j) < p_paddr (?s k)"
    proof (intro ballI impI)
      fix k assume "k \<in> set (loads b info) \<and> pa \<le> p_paddr (?s k)"
      then have "k = j \<or> k \<in> set js" using Cons.prems(2) by auto
      then show "k = j \<or> p_paddr (?s j) < p_paddr (?s k)"
        using b [of k] size by (auto simp: word_less_nat_alt)
    qed
  qed (use jn in auto)
  moreover have "set js = {k \<in> set (loads b info). ?pa \<le> p_paddr (?s k)}"
  proof (intro set_eqI iffI)
    fix k assume "k \<in> set js"
    then show "k \<in> {k \<in> set (loads b info). ?pa \<le> p_paddr (?s k)}"
      using b [of k] Cons.prems(2) by (auto simp: word_le_nat_alt)
  next
    fix k assume k: "k \<in> {k \<in> set (loads b info). ?pa \<le> p_paddr (?s k)}"
    then have "unat pa \<le> unat (p_paddr (?s k))" "k \<noteq> j"
      using j(2) size by (auto simp: word_le_nat_alt)
    then show "k \<in> set js" using Cons.prems(2) k by (auto simp: word_le_nat_alt)
  qed
  then have "populate_loop b info (length js) ?pa = Inr (map ?s js)"
    using Cons.prems(1,3,4) by (intro Cons.IH) (auto intro: in_order_tl)
  ultimately show ?case
    by (simp add: segment_read(1) [OF assms(1) jn])
qed simp

lemma map_sort_key: "map f (sort_key (\<lambda>x. g (f x)) xs) = sort_key g (map f xs)"
proof -
  have "map f (insort_key (\<lambda>x. g (f x)) x ys) = insort_key g (f x) (map f ys)" for x ys
    by (induction ys) simp_all
  then show ?thesis by (induction xs) (simp_all add: sort_key_def)
qed

lemma in_order_sorted:
  assumes "sorted (map (\<lambda>p. unat (p_paddr p)) ps)"
    and "\<forall>i < length ps. \<forall>j < length ps. i \<noteq> j \<longrightarrow>
      unat (p_paddr (ps ! i)) + unat (p_memsz (ps ! i)) \<le> unat (p_paddr (ps ! j)) \<or>
      unat (p_paddr (ps ! j)) + unat (p_memsz (ps ! j)) \<le> unat (p_paddr (ps ! i))"
    and "\<forall>p \<in> set ps. 0 < p_memsz p"
  shows "in_order ps"
  using assms
proof (induction ps rule: in_order.induct)
  case (1 p q ps)
  have "unat (p_paddr p) + unat (p_memsz p) \<le> unat (p_paddr q)"
    using "1.prems"(1,3) "1.prems"(2) [rule_format, of 0 1] by (auto simp: word_less_nat_alt)
  moreover have "in_order (q # ps)"
  proof (rule "1.IH")
    show "\<forall>i < length (q # ps). \<forall>j < length (q # ps). i \<noteq> j \<longrightarrow>
        unat (p_paddr ((q # ps) ! i)) + unat (p_memsz ((q # ps) ! i)) \<le> unat (p_paddr ((q # ps) ! j)) \<or>
        unat (p_paddr ((q # ps) ! j)) + unat (p_memsz ((q # ps) ! j)) \<le> unat (p_paddr ((q # ps) ! i))"
      using "1.prems"(2) by (metis Suc_less_eq length_Cons nth_Cons_Suc old.nat.inject)
  qed (use "1.prems" in auto)
  ultimately show ?case by simp
qed simp_all

text \<open>C37: the loadable segments of an ia64 kernel are put into the image each once and in the order of their
  addresses, whatever their order in the kernel, when the file holds the table of headers and the segments
  are not empty, end below 2 ^ 64 and do not overlap: the result is the list of the segments sorted by
  address.  (Empty segments at the same address are mixed up: one is placed twice and another is lost.)\<close>

theorem populate_kernel_phdrs_sorts:
  assumes "headers_inside b info" "i_phdrs info = length (loads b info)"
    and "\<forall>j \<in> set (loads b info). 0 < p_memsz (segment_of b info j) \<and>
      unat (p_paddr (segment_of b info j)) + unat (p_memsz (segment_of b info j)) < 2 ^ 64"
    and "\<forall>j \<in> set (loads b info). \<forall>k \<in> set (loads b info). j \<noteq> k \<longrightarrow>
      unat (p_paddr (segment_of b info j)) + unat (p_memsz (segment_of b info j)) \<le> unat (p_paddr (segment_of b info k)) \<or>
      unat (p_paddr (segment_of b info k)) + unat (p_memsz (segment_of b info k)) \<le> unat (p_paddr (segment_of b info j))"
  shows "populate_kernel_phdrs b info =
    Inr (sort_key (\<lambda>p. unat (p_paddr p)) (map (segment_of b info) (loads b info)))"
proof -
  let ?s = "segment_of b info"
  let ?js = "sort_key (\<lambda>j. unat (p_paddr (?s j))) (loads b info)"
  have d: "distinct ?js" by (simp add: loads_def)
  have o: "in_order (map ?s ?js)"
  proof (rule in_order_sorted)
    show "sorted (map (\<lambda>p. unat (p_paddr p)) (map ?s ?js))"
      using sorted_sort_key [of "\<lambda>j. unat (p_paddr (?s j))" "loads b info"] by (simp add: comp_def)
    show "\<forall>i < length (map ?s ?js). \<forall>j < length (map ?s ?js). i \<noteq> j \<longrightarrow>
        unat (p_paddr (map ?s ?js ! i)) + unat (p_memsz (map ?s ?js ! i)) \<le> unat (p_paddr (map ?s ?js ! j)) \<or>
        unat (p_paddr (map ?s ?js ! j)) + unat (p_memsz (map ?s ?js ! j)) \<le> unat (p_paddr (map ?s ?js ! i))"
    proof (intro allI impI)
      fix i j assume ij: "i < length (map ?s ?js)" "j < length (map ?s ?js)" "i \<noteq> j"
      then have "?js ! i \<in> set (loads b info)" "?js ! j \<in> set (loads b info)" "?js ! i \<noteq> ?js ! j"
        using nth_mem [of i ?js] nth_mem [of j ?js] nth_eq_iff_index_eq [OF d, of i j] by simp_all
      then show "unat (p_paddr (map ?s ?js ! i)) + unat (p_memsz (map ?s ?js ! i)) \<le> unat (p_paddr (map ?s ?js ! j)) \<or>
          unat (p_paddr (map ?s ?js ! j)) + unat (p_memsz (map ?s ?js ! j)) \<le> unat (p_paddr (map ?s ?js ! i))"
        using assms(4) ij by simp
    qed
  qed (use assms(3) in auto)
  have "populate_loop b info (length ?js) 0 = Inr (map ?s ?js)"
    using assms(3) d by (intro populate_loop_in_order [OF assms(1) o]) auto
  moreover have "map ?s ?js = sort_key (\<lambda>p. unat (p_paddr p)) (map ?s (loads b info))"
    by (rule map_sort_key)
  ultimately show ?thesis
    by (simp add: populate_kernel_phdrs_def assms(2))
qed

text \<open>A kernel of two segments in falling order.\<close>

definition two_segments :: "u8 list" where
  "two_segments = bytes32 PT_LOAD @ bytes32 7 @ bytes64 0 @ bytes64 0x2000 @ bytes64 0x2000 @ bytes64 8 @ bytes64 8 @ bytes64 0
     @ bytes32 PT_LOAD @ bytes32 7 @ bytes64 0 @ bytes64 0x1000 @ bytes64 0x1000 @ bytes64 8 @ bytes64 0x1000 @ bytes64 0"

definition two_segments_info :: ia64_info where
  "two_segments_info = \<lparr> i_phdrs = 2, i_phdr = 0, i_phnum = 2, i_entry = 0x1000, i_version = [0] \<rparr>"

lemma two_segments_read:
  "headers_inside two_segments two_segments_info" "loads two_segments two_segments_info = [0, 1]"
  "segment_of two_segments two_segments_info 0 = segment_at 0x2000 0x2000 8 8 two_segments"
  "segment_of two_segments two_segments_info 1 = segment_at 0x1000 0x1000 8 0x1000 two_segments"
  by code_simp+

theorem populate_kernel_phdrs_sorts_witness:
  "populate_kernel_phdrs two_segments two_segments_info
    = Inr [segment_at 0x1000 0x1000 8 0x1000 two_segments, segment_at 0x2000 0x2000 8 8 two_segments]"
proof -
  have "i_phdrs two_segments_info = 2" by (simp add: two_segments_info_def)
  then show ?thesis
    using populate_kernel_phdrs_sorts [OF two_segments_read(1)]
    by (simp add: two_segments_read two_segments_read(4) [unfolded One_nat_def] segment_at_def)
qed

end
