(* ===== verification/MkElf.thy ===== *)
theory MkElf
  imports ElfIa64
begin

text \<open>
  \<open>main\<close> of \<open>tools/mkelfImage/main/mkelfImage.c\<close>: the kernel and the output are taken from the command
  line, the probes tell the type of the kernel, and the image is laid out and written.

  The two passes of \<open>getopt_long\<close> over the command line are given by their results: the options of the
  first pass (\<open>hvt:\<close> and the long options of the tool), the arguments that are left behind
  \<open>optind\<close>, and the options of the second pass, which is made by the code for the kernel's type.
\<close>

subsection \<open>Types of kernels\<close>

datatype file_type = linux_i386 | bzImage_i386 | vmlinux_i386 | linux_ia64

definition file_types :: "file_type list" where
  "file_types = [linux_i386, bzImage_i386, vmlinux_i386, linux_ia64]"

primrec type_name :: "file_type \<Rightarrow> string" where
  "type_name linux_i386 = ''linux-i386''"
| "type_name bzImage_i386 = ''bzImage-i386''"
| "type_name vmlinux_i386 = ''vmlinux-i386''"
| "type_name linux_ia64 = ''linux-ia64''"

text \<open>A probe of the i386 leaves the parser in \<open>parse_kernel_type\<close>.\<close>

definition probe_type :: "file_type \<Rightarrow> u8 list \<Rightarrow> kernel_parser option probe" where
  "probe_type t b = (case t of
     linux_i386 \<Rightarrow> bindt (linux_i386_probe b) (\<lambda>r. Inr (map_sum id Some r))
   | bzImage_i386 \<Rightarrow> bindt (bzImage_i386_probe b) (\<lambda>r. Inr (map_sum id Some r))
   | vmlinux_i386 \<Rightarrow> bindt (vmlinux_i386_probe b) (\<lambda>r. Inr (map_sum id Some r))
   | linux_ia64 \<Rightarrow> bindt (linux_ia64_probe b) (\<lambda>r. Inr (map_sum id (\<lambda>_. None) r)))"

primrec find_type :: "string option \<Rightarrow> u8 list \<Rightarrow> file_type list \<Rightarrow> (file_type \<times> kernel_parser option) tool" where
  "find_type type b [] = die ''Can not determine the file type of %s''"
| "find_type type b (t # ts) =
     (if type \<noteq> None \<and> type \<noteq> Some (type_name t) then find_type type b ts
      else bindt (probe_type t b) (\<lambda>r. case r of
        Inr parser \<Rightarrow> Inr (t, parser)
      | Inl reason \<Rightarrow> if type \<noteq> None then die ''Not %s: %s'' else find_type type b ts))"

subsection \<open>The command line\<close>

text \<open>The type may come from the name of the program: \<open>strrchr(argv[0], '/')\<close> points to the slash itself.\<close>

definition default_type :: "string \<Rightarrow> string option" where
  "default_type prog =
     (let t = (if CHR ''/'' \<in> set prog
               then CHR ''/'' # rev (takeWhile (\<lambda>c. c \<noteq> CHR ''/'') (rev prog)) else prog)
      in if take 6 t = ''mkelf-'' then Some (drop 6 t) else None)"

record main_options =
  m_kernel :: "string option"
  m_output :: "string option"
  m_type :: "string option"

text \<open>The first pass; \<open>None\<close> is the return after the help or the version.\<close>

primrec main_options_loop :: "main_options \<Rightarrow> (option_code \<times> string) list \<Rightarrow> main_options option" where
  "main_options_loop o' [] = Some o'"
| "main_options_loop o' (c # cs) = (case c of (opt, optarg) \<Rightarrow>
     if opt = OPT_HELP \<or> opt = OPT_VERSION then None
     else if opt = OPT_KERNEL then main_options_loop (o'\<lparr>m_kernel := Some optarg\<rparr>) cs
     else if opt = OPT_OUTPUT then main_options_loop (o'\<lparr>m_output := Some optarg\<rparr>) cs
     else if opt = OPT_TYPE then main_options_loop (o'\<lparr>m_type := Some optarg\<rparr>) cs
     else main_options_loop o' cs)"

definition mkelf_main :: "u8 list \<Rightarrow> u8 list \<Rightarrow> string \<Rightarrow> (option_code \<times> string) list \<Rightarrow> string list
    \<Rightarrow> (option_code \<times> string) list \<Rightarrow> unit prog" where
  "mkelf_main payload_i386 payload_ia64 prog cs args cs' =
     (case main_options_loop \<lparr> m_kernel = None, m_output = None, m_type = default_type prog \<rparr> cs of
       None \<Rightarrow> lift_tool (Inr ())
     | Some o' \<Rightarrow>
         let kern = (if args \<noteq> [] then Some (hd args) else m_kernel o');
             outp = (if tl args \<noteq> [] then Some (hd (tl args)) else m_output o')
         in case kern of None \<Rightarrow> lift_tool (die ''No kernel specified!'')
         | Some kern \<Rightarrow> (case outp of None \<Rightarrow> lift_tool (die ''No output file specified!'')
         | Some outp \<Rightarrow>
             if length args > 2 then lift_tool (die ''%d extra options specified!'')
             else
             bindp (slurp_decompress_file (Some kern)) (\<lambda>kernel_buf.
             bindp (lift_tool (find_type (m_type o') kernel_buf file_types)) (\<lambda>(t, parser).
             bindp (if t = linux_ia64 then linux_ia64_mkelf payload_ia64 cs' kernel_buf cleared_header
                    else linux_i386_mkelf payload_i386 cs' parser kernel_buf cleared_header) (\<lambda>hdr.
             write_elf hdr outp)))))"

subsection \<open>From the command line to the image\<close>

text \<open>A program called by its path never has a type of its own.\<close>

lemma default_type_path: "CHR ''/'' \<in> set prog \<Longrightarrow> default_type prog = None"
  by (simp add: default_type_def Let_def)

text \<open>A file whose every \<open>gzread\<close> succeeds is read whole.\<close>

lemma gz_loop_returns:
  assumes "malloc_ok H = (\<lambda>n. True)" "gz_fits allocated (length buf) (map Got bss)" "[] \<notin> set bss"
    "length buf \<le> allocated"
  shows "gz_loop (map Got bss @ [Got []]) allocated buf H = (Inr (buf @ concat bss), H)"
  using assms
proof (induction bss arbitrary: allocated buf)
  case Nil
  then show ?case
    by (subst gz_loop.simps) (simp add: Let_def bindp_def lift_tool_def xrealloc_def)
next
  case (Cons bs bss)
  let ?a = "if length buf = allocated then 2 * allocated else allocated"
  have f: "length bs \<le> ?a - length buf" "gz_fits ?a (length buf + length bs) (map Got bss)"
    using Cons.prems(2) by (auto simp: Let_def split: if_splits)
  have "gz_loop (map Got (bs # bss) @ [Got []]) allocated buf H
      = gz_loop (map Got bss @ [Got []]) ?a (buf @ bs) H"
    using Cons.prems(1,3) f(1)
    by (subst gz_loop.simps) (auto simp: Let_def bindp_def lift_tool_def xrealloc_def)
  also have "\<dots> = (Inr ((buf @ bs) @ concat bss), H)"
    by (rule Cons.IH) (use Cons.prems f in auto)
  finally show ?case by simp
qed

lemma slurp_decompress_returns:
  assumes "malloc_ok H = (\<lambda>n. True)" "call_ok H = (\<lambda>c f. True)" "files H f \<noteq> None"
    "gz H f = map Got bss @ [Got []]" "gz_fits 65536 0 (map Got bss)" "[] \<notin> set bss"
  shows "slurp_decompress_file (Some f) H = (Inr (concat bss), H)"
  using gz_loop_returns [of H 65536 "[]" bss] assms
  by (simp add: slurp_decompress_file_def bindp_def xmalloc_def)

lemma bzImage_type:
  assumes "bzImage_i386_probe b = Inr (Inr p)"
  shows "find_type None b file_types = Inr (linux_i386, Some p)"
  using assms by (simp add: file_types_def probe_type_def linux_i386_probe_def try_next_def)

text \<open>C31: called with the names of a bzImage and of a new file, the tool writes the image that a boot loader
  needs: the kernel is decompressed, recognised and laid out, the entry point of the image is the
  converter at 64 KB, and its fourth program header has all bytes of the kernel after the real mode
  sectors, to be loaded at 1 MB.  The host must take the reads and writes, and no interruption may come
  to \<open>gzread\<close>.\<close>

theorem mkelf_main_bzImage:
  assumes "files H kern \<noteq> None" "gz H kern = map Got bss @ [Got []]" "gz_fits 65536 0 (map Got bss)"
      "[] \<notin> set bss" "default_type prog = None"
    and "bzImage_i386_probe (concat bss) = Inr (Inr p)" "length (concat bss) < 2 ^ 30"
    and "sizeof_params \<le> length payload" "length payload < 2 ^ 30"
      "rd32 payload (length payload - sizeof_params) = Inr CONVERT_MAGIC"
    and "rd16 (concat bss) 0x20E = Inr kver" "strlen_at (drop (512 + unat kver) (concat bss)) = Inr len"
    and "files H out = None" "malloc_ok H = (\<lambda>n. True)" "call_ok H = (\<lambda>c f. True)"
      "io H = map Moved ns" "5 < length ns" "\<forall>n\<in>set ns. 2 ^ 40 \<le> n"
  shows "\<exists>H' img off sz. mkelf_main payload payload64 prog [] [kern, out] [] H = (Inr (), H') \<and>
    files H' out = Some img \<and> rd32 img 24 = Inr 0x10000 \<and>
    rd32 img (52 + 32 * 3 + 4) = Inr off \<and> rd32 img (52 + 32 * 3 + 16) = Inr sz \<and>
    rd32 img (52 + 32 * 3 + 12) = Inr 0x100000 \<and>
    take (unat sz) (drop (unat off) img) = drop (unat (setup_end (concat bss ! 0x1F1))) (concat bss)"
proof -
  have r: "ramdisk \<lparr> ramdisk_base = DEFAULT_RAMDISK_BASE, ramdisk = None, cmdline = [] \<rparr> = None"
    by simp
  obtain h H' img off sz where *: "linux_i386_mkelf payload [] (Some p) (concat bss) cleared_header H = (Inr h, H)"
      "write_elf h out H = (Inr (), H')" "files H' out = Some img" "rd32 img 24 = Inr 0x10000"
      "rd32 img (52 + 32 * 3 + 4) = Inr off" "rd32 img (52 + 32 * 3 + 16) = Inr sz"
      "rd32 img (52 + 32 * 3 + 12) = Inr 0x100000"
      "take (unat sz) (drop (unat off) img) = drop (unat (setup_end (concat bss ! 0x1F1))) (concat bss)"
    using bzImage_image [where ehdr = cleared_header, OF assms(6,7) no_options r assms(8-18)] by blast
  have "mkelf_main payload payload64 prog [] [kern, out] [] H = (Inr (), H')"
    using *(1,2) assms(5) slurp_decompress_returns [OF assms(14,15,1,2,3,4)] bzImage_type [OF assms(6)]
    by (simp add: mkelf_main_def bindp_def lift_tool_def)
  then show ?thesis using *(3-8) by blast
qed

text \<open>The host with the small kernel, which \<open>gzread\<close> delivers in two pieces.\<close>

definition kernel_host :: host where
  "kernel_host = idle_host\<lparr>files := [''vmlinuz'' \<mapsto> small_kernel],
     gz := \<lambda>f. map Got [take 1000 small_kernel, drop 1000 small_kernel] @ [Got []]\<rparr>"

theorem mkelf_main_bzImage_witness:
  "\<exists>H' img off sz. mkelf_main small_payload [] ''bin/mkelfImage'' [] [''vmlinuz'', ''out''] [] kernel_host = (Inr (), H') \<and>
    files H' ''out'' = Some img \<and> rd32 img 24 = Inr 0x10000 \<and>
    rd32 img (52 + 32 * 3 + 4) = Inr off \<and> rd32 img (52 + 32 * 3 + 16) = Inr sz \<and>
    rd32 img (52 + 32 * 3 + 12) = Inr 0x100000 \<and>
    take (unat sz) (drop (unat off) img) = drop (unat (setup_end (small_kernel ! 0x1F1))) small_kernel"
  by (rule mkelf_main_bzImage [where bss = "[take 1000 small_kernel, drop 1000 small_kernel]" and
        ns = "replicate 6 (2 ^ 40)" and p = parse_bzImage and kver = "0x10" and len = 3 and H = kernel_host
        and kern = "''vmlinuz''" and out = "''out''" and prog = "''bin/mkelfImage''",
      unfolded concat.simps append_Nil2 append_take_drop_id])
     (simp_all only: small_kernel_facts, simp_all add: kernel_host_def idle_host_def default_type_def
       small_kernel_def)

end
