(* ===== verification/Convert.thy ===== *)
theory Convert
  imports Memory "HOL-Library.Monad_Syntax"
begin

text \<open>
  The converter of a boot image, \<open>tools/mkelfImage/linux-i386/convert_params.c\<close>: the first code of an
  image for the i386.  It fills in the page of real mode data that Linux expects at 128 KB
  (\<open>struct parameters\<close>) from what the boot loader, LinuxBIOS or the BIOS say about the machine.

  The converter is a 32-bit program: \<open>unsigned long\<close>, \<open>size_t\<close> and pointers have 32 bits, pointer
  arithmetic wraps around there, and \<open>mem\<close> is used below 4 GB.  The fields of \<open>struct parameters\<close> are
  named by the places that the comments of the code give them.  What the BIOS calls of \<open>head.S\<close>
  return is a parameter (\<open>pcbios\<close>).  Local variables are not in memory.  The messages on the serial line are left out.
\<close>

subsection \<open>Memory\<close>

definition ld8 :: "mem \<Rightarrow> u32 \<Rightarrow> u8" where "ld8 m p = m (ucast p)"
definition ld16 :: "mem \<Rightarrow> u32 \<Rightarrow> u16" where "ld16 m p = load16 m (ucast p)"
definition ld32 :: "mem \<Rightarrow> u32 \<Rightarrow> u32" where "ld32 m p = load32 m (ucast p)"
definition ld64 :: "mem \<Rightarrow> u32 \<Rightarrow> u64" where "ld64 m p = load64 m (ucast p)"
definition st8 :: "u32 \<Rightarrow> u8 \<Rightarrow> mem \<Rightarrow> mem" where "st8 p v m = m(ucast p := v)"
definition st16 :: "u32 \<Rightarrow> u16 \<Rightarrow> mem \<Rightarrow> mem" where "st16 p v m = store16 m (ucast p) v"
definition st32 :: "u32 \<Rightarrow> u32 \<Rightarrow> mem \<Rightarrow> mem" where "st32 p v m = store32 m (ucast p) v"
definition st64 :: "u32 \<Rightarrow> u64 \<Rightarrow> mem \<Rightarrow> mem" where "st64 p v m = store64 m (ucast p) v"

lemmas ld_defs = ld8_def ld16_def ld32_def ld64_def
lemmas st_defs = st8_def st16_def st32_def st64_def

function conv_strnlen :: "mem \<Rightarrow> u32 \<Rightarrow> u32 \<Rightarrow> u32 \<Rightarrow> u32" where
  "conv_strnlen m s mx len =
     (if len < mx \<and> ld8 m s \<noteq> 0 then conv_strnlen m (s + 1) mx (len + 1) else len)"
  by pat_completeness auto
termination
proof (relation "measure (\<lambda>(m, s, mx, len). unat (mx - len))", goal_cases)
  case (2 m s mx len)
  then have "mx - len \<noteq> 0" by auto
  then have "unat (mx - len - 1) < unat (mx - len)"
    by (metis unat_minus_one unat_gt_0 diff_less zero_less_one)
  then show ?case by (simp add: diff_diff_eq)
qed simp

declare conv_strnlen.simps [simp del]

primrec conv_memset :: "nat \<Rightarrow> u32 \<Rightarrow> u8 \<Rightarrow> mem \<Rightarrow> mem" where
  "conv_memset 0 s c m = m"
| "conv_memset (Suc n) s c m = conv_memset n (s + 1) c (st8 s c m)"

primrec conv_memcpy :: "nat \<Rightarrow> u32 \<Rightarrow> u32 \<Rightarrow> mem \<Rightarrow> mem" where
  "conv_memcpy 0 d s m = m"
| "conv_memcpy (Suc n) d s m = conv_memcpy n (d + 1) (s + 1) (st8 d (ld8 m s) m)"

text \<open>\<open>memcmp\<close> does not advance its pointers: the two bytes that they point to are compared again and
  again.\<close>

primrec conv_memcmp :: "nat \<Rightarrow> u8 \<Rightarrow> u8 \<Rightarrow> u32" where
  "conv_memcmp 0 s1 s2 = 0"
| "conv_memcmp (Suc n) s1 s2 = (if s1 \<noteq> s2 then ucast s2 - ucast s1 else conv_memcmp n s1 s2)"

subsection \<open>The checksum\<close>

primrec checksum_bytes :: "nat \<Rightarrow> mem \<Rightarrow> u32 \<Rightarrow> u32 \<Rightarrow> u32 \<Rightarrow> u32" where
  "checksum_bytes 0 m p i s = s"
| "checksum_bytes (Suc n) m p i s =
     (let v = ucast (ld8 m (p + i));
          v = (if ctrue (i AND 1) then push_bit 8 v else v);
          s = s + v;
          s = (if s > 0xFFFF then (s + drop_bit 16 s) AND 0xFFFF else s)
      in checksum_bytes n m p (i + 1) s)"

definition checksum_partial :: "mem \<Rightarrow> u32 \<Rightarrow> u32 \<Rightarrow> u32 \<Rightarrow> u32" where
  "checksum_partial m s addr len = checksum_bytes (unat len) m addr 0 0 AND 0xFFFF"

definition checksum_final :: "u32 \<Rightarrow> u32" where
  "checksum_final partial = NOT partial AND 0xFFFF"

definition compute_checksum :: "mem \<Rightarrow> u32 \<Rightarrow> u32 \<Rightarrow> u32" where
  "compute_checksum m vaddr len = checksum_final (checksum_partial m 0 vaddr len)"

subsection \<open>Helpers\<close>

text \<open>The command line is at 0x800 of the page and has 256 bytes.  \<open>arg_bytes\<close> is an \<open>int\<close>; as the
  length for \<open>strnlen\<close> it is unsigned again.\<close>

definition append_command_line :: "u32 \<Rightarrow> u32 \<Rightarrow> u32 \<Rightarrow> mem \<Rightarrow> mem" where
  "append_command_line rm arg arg_bytes m =
     (let len = conv_strnlen m (rm + 0x800) 256 0;
          dest = rm + 0x800 + len;
          m = st8 dest 0x20 m;
          mx = (if arg_bytes <s 255 then arg_bytes else 255);
          len = conv_strnlen m arg mx 0;
          m = conv_memcpy (unat len) (dest + 1) arg m
      in st8 (dest + 1 + len) 0 m)"

definition set_memsize_k :: "u32 \<Rightarrow> u32 \<Rightarrow> mem \<Rightarrow> mem" where
  "set_memsize_k rm mem_k m =
     (let mem_k = (if mem_k > 0x3FFFFF then 0x3FFFFF else mem_k)
      in if mem_k > ld32 m (rm + 0x1E0) + 0x400
         then let m = st32 (rm + 0x1E0) (mem_k - 0x400) m;
                  m = st16 (rm + 2) (ucast (mem_k - 0x400)) m
              in if mem_k - 0x400 > 0xFFFF then st16 (rm + 2) 0xFC00 m else m
         else m)"

definition E820MAX :: u32 where "E820MAX = 32"

definition add_e820_map :: "u32 \<Rightarrow> u64 \<Rightarrow> u64 \<Rightarrow> u32 \<Rightarrow> mem \<Rightarrow> mem" where
  "add_e820_map rm addr sz type m =
     (let i = ucast (ld8 m (rm + 0x1E8)) :: u32;
          e = rm + 0x2D0 + 20 * i;
          m = (if i < E820MAX
               then st8 (rm + 0x1E8) (ucast i + 1) (st32 (e + 16) type (st64 (e + 8) sz (st64 e addr m)))
               else m)
      in if type = 1
         then let high = addr + sz
              in set_memsize_k rm (if high \<ge> 0x40000000000 then 0xFFFFFFFF else ucast (drop_bit 10 high)) m
         else m)"

subsection \<open>What is known so far\<close>

text \<open>\<open>struct param_info\<close> with memory and the bytes sent to ports.  The structure is a local variable of
  \<open>convert_params\<close>, whose flags for the boot loader are never cleared.\<close>

record conv =
  c_ram :: mem
  c_ports :: "(u8 \<times> u16) list"
  i_type :: u32
  i_data :: u32
  i_param :: u32
  i_image :: u32
  real_mode :: u32
  has_multiboot :: u32
  has_uniform_boot :: u32
  has_elf_boot :: u32
  has_pcbios :: u32
  has_linuxbios :: u32
  lb_table :: u32
  need_mem_sizes :: u32

definition conv_upd :: "(mem \<Rightarrow> mem) \<Rightarrow> conv \<Rightarrow> conv" where
  "conv_upd f s = s\<lparr>c_ram := f (c_ram s)\<rparr>"

subsection \<open>Multiboot\<close>

text \<open>The entries of the map: the distance from one to the next is read once, in front of the first.\<close>

partial_function (option) memmap_loop :: "u32 \<Rightarrow> u32 \<Rightarrow> u32 \<Rightarrow> u32 \<Rightarrow> mem \<Rightarrow> mem option" where
  "memmap_loop rm sz end' seg m =
     (if seg < end'
      then memmap_loop rm sz end' (seg + sz)
             (add_e820_map rm (ld64 m seg) (ld64 m (seg + 8)) (ld32 m (seg + 16)) m)
      else Some m)"

definition convert_multiboot_memmap :: "u32 \<Rightarrow> u32 \<Rightarrow> mem \<Rightarrow> mem option" where
  "convert_multiboot_memmap rm info m =
     (let seg = ld32 m (info + 48)
      in memmap_loop rm (ld32 m (seg - 4)) (seg + ld32 m (info + 44)) seg m)"

definition MULTIBOOT_MAX_COMMAND_LINE :: u32 where "MULTIBOOT_MAX_COMMAND_LINE = 0xFFFFFFFF"

definition convert_multiboot :: "u32 \<Rightarrow> conv \<Rightarrow> conv option" where
  "convert_multiboot mb s =
     (let flags = (\<lambda>s. ld32 (c_ram s) mb);
          s = (if ctrue (need_mem_sizes s) \<and> ctrue (flags s AND 0x01)
               then conv_upd (\<lambda>m. set_memsize_k (real_mode s) (ld32 m (mb + 8) + 0x400) m) s else s);
          s = (if ctrue (flags s AND 0x04)
               then conv_upd (\<lambda>m. append_command_line (real_mode s) (ld32 m (mb + 16)) MULTIBOOT_MAX_COMMAND_LINE m) s
               else s)
      in do {
        m \<leftarrow> (if ctrue (need_mem_sizes s) \<and> ctrue (flags s AND 0x40)
             then convert_multiboot_memmap (real_mode s) mb (c_ram s) else Some (c_ram s));
        let s = s\<lparr>c_ram := m\<rparr>;
        Some (if ctrue (flags s AND (0x01 OR 0x40)) then s\<lparr>need_mem_sizes := 0\<rparr> else s) })"

subsection \<open>Uniform boot environment\<close>

text \<open>The ranges of a memory record, of 20 bytes each; the number of them is an \<open>int\<close>.\<close>

primrec memory_ranges :: "(u32 \<Rightarrow> u32) \<Rightarrow> u32 \<Rightarrow> u32 \<Rightarrow> nat list \<Rightarrow> mem \<Rightarrow> mem" where
  "memory_ranges f rm mp [] m = m"
| "memory_ranges f rm mp (i # is) m =
     (let r = mp + 20 * of_nat i
      in memory_ranges f rm mp is (add_e820_map rm (ld64 m r) (ld64 m (r + 8)) (f (ld32 m (r + 16))) m))"

definition range_count :: "u32 \<Rightarrow> nat" where
  "range_count sz = (let entries = (sz - 8) div 20 in if entries <s 0 then 0 else min (unat entries) (unat E820MAX))"

definition ube_type :: "u32 \<Rightarrow> u32" where
  "ube_type t = (if t = 1 then 1 else if t = 3 then 3 else if t = 4 then 4 else 2)"

definition convert_uniform_boot_memory :: "u32 \<Rightarrow> u32 \<Rightarrow> mem \<Rightarrow> mem" where
  "convert_uniform_boot_memory rm rec m =
     memory_ranges ube_type rm (rec + 8) [0..<range_count (ld32 m (rec + 4))] m"

partial_function (option) ube_loop :: "u32 \<Rightarrow> u32 \<Rightarrow> conv \<Rightarrow> conv option" where
  "ube_loop env env_bytes s =
     (if env_bytes = 0 then Some s
      else let s = (if ld32 (c_ram s) env = 1 \<and> ctrue (need_mem_sizes s)
                    then (conv_upd (convert_uniform_boot_memory (real_mode s) env) s)\<lparr>need_mem_sizes := 0\<rparr> else s);
               sz = ld32 (c_ram s) (env + 4)
           in ube_loop (env + sz) (env_bytes - sz) s)"

definition convert_uniform_boot :: "u32 \<Rightarrow> conv \<Rightarrow> conv option" where
  "convert_uniform_boot header s =
     (let s = (if ctrue (ld32 (c_ram s) (header + 12))
               then conv_upd (\<lambda>m. append_command_line (real_mode s) (ld32 m (header + 8)) (ld32 m (header + 12)) m) s
               else s)
      in ube_loop (ld32 (c_ram s) (header + 16)) (ld32 (c_ram s) (header + 20)) s)"

subsection \<open>Hardware\<close>

definition outb :: "u8 \<Rightarrow> u16 \<Rightarrow> conv \<Rightarrow> conv" where
  "outb v port s = s\<lparr>c_ports := c_ports s @ [(v, port)]\<rparr>"

definition setup_i8259 :: "conv \<Rightarrow> conv" where
  "setup_i8259 s =
     (let s = outb 0x11 0x20 s; s = outb 0x11 0xA0 s;
          s = outb 0x20 0x21 s; s = outb 0x28 0xA1 s;
          s = outb 0x04 0x21 s; s = outb 0x02 0xA1 s;
          s = outb 0x01 0x21 s; s = outb 0x01 0xA1 s;
          s = outb 0xFF 0xA1 s
      in outb 0xFB 0x21 s)"

definition hardware_setup :: "conv \<Rightarrow> conv" where
  "hardware_setup s = setup_i8259 (outb 0 0xF1 (outb 0 0xF0 (outb 0x80 0x70 s)))"

subsection \<open>ELF notes of the boot loader\<close>

text \<open>\<open>Elf_Bhdr\<close> has 12 bytes (signature, size, checksum, number of records) and \<open>Elf_Nhdr\<close> too (sizes of
  name and descriptor, type).\<close>

definition ELF_BHDR_MAGIC :: u32 where "ELF_BHDR_MAGIC = 0x0E1FB007"
definition EBN_FIRMWARE_TYPE :: u32 where "EBN_FIRMWARE_TYPE = 1"
definition EBN_COMMAND_LINE :: u32 where "EBN_COMMAND_LINE = 4"

definition align4 :: "u32 \<Rightarrow> u32" where
  "align4 n = (n + 3) AND NOT 3"

definition note_desc_at :: "mem \<Rightarrow> u32 \<Rightarrow> u32" where
  "note_desc_at m note = note + 12 + align4 (ld32 m note)"

definition next_note :: "mem \<Rightarrow> u32 \<Rightarrow> u32" where
  "next_note m note = note_desc_at m note + align4 (ld32 m (note + 4))"

partial_function (option) count_loop :: "mem \<Rightarrow> u32 \<Rightarrow> u32 \<Rightarrow> u32 \<Rightarrow> u32 option" where
  "count_loop m end' note count =
     (if note < end' \<and> next_note m note \<le> end' then count_loop m end' (next_note m note) (count + 1)
      else Some count)"

definition count_elf_notes :: "mem \<Rightarrow> u32 \<Rightarrow> u32 option" where
  "count_elf_notes m bhdr = count_loop m (bhdr + ld32 m (bhdr + 4)) (bhdr + 12) 0"

text \<open>The search for a note without a name, the only kind that the code looks for; \<open>memcmp\<close> of no byte
  is 0.\<close>

partial_function (option) find_note_loop :: "mem \<Rightarrow> u32 \<Rightarrow> u32 \<Rightarrow> u32 \<Rightarrow> u32 option option" where
  "find_note_loop m end' type note =
     (if note < end' \<and> next_note m note \<le> end'
      then if ld32 m (note + 8) = type \<and> ld32 m note = 0 then Some (Some note)
           else find_note_loop m end' type (next_note m note)
      else Some None)"

definition find_elf_note :: "mem \<Rightarrow> u32 \<Rightarrow> u32 \<Rightarrow> u32 option option" where
  "find_elf_note m bhdr type = find_note_loop m (bhdr + ld32 m (bhdr + 4)) type (bhdr + 12)"

partial_function (option) elf_boot_loop :: "u32 \<Rightarrow> u32 \<Rightarrow> conv \<Rightarrow> conv option" where
  "elf_boot_loop end' note s =
     (if note < end' \<and> next_note (c_ram s) note \<le> end'
      then let next = next_note (c_ram s) note;
               s = (if ld32 (c_ram s) (note + 8) = EBN_COMMAND_LINE \<and> ld32 (c_ram s) note = 0
                    then conv_upd (\<lambda>m. append_command_line (real_mode s) (note_desc_at m note) (ld32 m (note + 4)) m) s
                    else s)
           in elf_boot_loop end' next s
      else Some s)"

definition convert_elf_boot :: "u32 \<Rightarrow> conv \<Rightarrow> conv option" where
  "convert_elf_boot bhdr s = elf_boot_loop (bhdr + ld32 (c_ram s) (bhdr + 4)) (bhdr + 12) s"

subsection \<open>LinuxBIOS\<close>

partial_function (option) lb_records :: "mem \<Rightarrow> u32 \<Rightarrow> u32 \<Rightarrow> u32 \<Rightarrow> u32 option" where
  "lb_records m end' rec count =
     (if rec < end' \<and> ld32 m (rec + 4) \<le> end' - rec then lb_records m end' (rec + ld32 m (rec + 4)) (count + 1)
      else Some count)"

definition count_lb_records :: "mem \<Rightarrow> u32 \<Rightarrow> u32 \<Rightarrow> u32 option" where
  "count_lb_records m start len = lb_records m (start + len) start 0"

text \<open>The header has 24 bytes: signature, sizes and checksums of header and table, number of entries.\<close>

primrec find_lb_from :: "mem \<Rightarrow> u32 list \<Rightarrow> u32 option option" where
  "find_lb_from m [] = Some None"
| "find_lb_from m (p # ps) =
     (if ld8 m p = 0x4C \<and> ld8 m (p + 1) = 0x42 \<and> ld8 m (p + 2) = 0x49 \<and> ld8 m (p + 3) = 0x4F \<and>
         ld32 m (p + 4) = 24 \<and> compute_checksum m p 24 = 0 \<and>
         compute_checksum m (p + 24) (ld32 m (p + 12)) = ld32 m (p + 16)
      then do {
        n \<leftarrow> count_lb_records m (p + 24) (ld32 m (p + 12));
        if n = ld32 m (p + 20) then Some (Some p) else find_lb_from m ps }
      else find_lb_from m ps)"

definition find_lb_between :: "mem \<Rightarrow> u32 \<Rightarrow> nat \<Rightarrow> u32 option option" where
  "find_lb_between m start n = find_lb_from m (map (\<lambda>i. start + 16 * of_nat i) [0..<n])"

definition find_lb_table :: "conv \<Rightarrow> (bool \<times> conv) option" where
  "find_lb_table s = do {
     h \<leftarrow> find_lb_between (c_ram s) 0 256;
     h \<leftarrow> (case h of Some p \<Rightarrow> Some (Some p) | None \<Rightarrow> find_lb_between (c_ram s) 0xF0000 4096);
     Some (case h of Some p \<Rightarrow> (True, s\<lparr>has_linuxbios := 1, lb_table := p\<rparr>) | None \<Rightarrow> (False, s)) }"

definition lb_type :: "u32 \<Rightarrow> u32" where
  "lb_type t = (if t = 1 then 1 else 2)"

definition convert_lb_memory :: "u32 \<Rightarrow> conv \<Rightarrow> conv" where
  "convert_lb_memory rec s =
     (conv_upd (\<lambda>m. memory_ranges lb_type (real_mode s) (rec + 8) [0..<range_count (ld32 m (rec + 4))] m) s)
     \<lparr>need_mem_sizes := 0\<rparr>"

partial_function (option) lb_values_loop :: "u32 \<Rightarrow> u32 \<Rightarrow> conv \<Rightarrow> conv option" where
  "lb_values_loop end' rec s =
     (if rec < end' \<and> ld32 (c_ram s) (rec + 4) \<le> end' - rec
      then let s = (if ld32 (c_ram s) rec = 1 then convert_lb_memory rec s else s)
           in lb_values_loop end' (rec + ld32 (c_ram s) (rec + 4)) s
      else Some s)"

definition query_lb_values :: "conv \<Rightarrow> conv option" where
  "query_lb_values s =
     (let start = lb_table s + 24
      in lb_values_loop (start + ld32 (c_ram s) (lb_table s + 12)) start s)"

subsection \<open>PC BIOS\<close>

text \<open>What the BIOS answers: the entries of its memory map and the two sizes of memory.  \<open>meminfo\<close> is the address
  of the static structure of that name: the number of entries and \<open>E820MAX\<close> entries of 20 bytes.\<close>

record pcbios =
  bios_map :: "(u64 \<times> u64 \<times> u32) list"
  meme801 :: u32
  mem88 :: u16
  meminfo :: u32

text \<open>\<open>struct e820entry\<close>, and \<open>meme820\<close>: it stores at most \<open>count\<close> entries and returns their number.\<close>

definition e820_at :: "mem \<Rightarrow> u32 \<Rightarrow> u64 \<times> u64 \<times> u32" where
  "e820_at m e = (ld64 m e, ld64 m (e + 8), ld32 m (e + 16))"

definition st_entry :: "u32 \<Rightarrow> u64 \<times> u64 \<times> u32 \<Rightarrow> mem \<Rightarrow> mem" where
  "st_entry e x m = (case x of (addr, sz, type) \<Rightarrow> st32 (e + 16) type (st64 (e + 8) sz (st64 e addr m)))"

primrec st_entries :: "u32 \<Rightarrow> (u64 \<times> u64 \<times> u32) list \<Rightarrow> mem \<Rightarrow> mem" where
  "st_entries buf [] m = m"
| "st_entries buf (x # xs) m = st_entries (buf + 20) xs (st_entry buf x m)"

definition meme820 :: "pcbios \<Rightarrow> u32 \<Rightarrow> u32 \<Rightarrow> mem \<Rightarrow> u32 \<times> mem" where
  "meme820 bios buf count m =
     (let xs = take (unat count) (bios_map bios) in (of_nat (length xs), st_entries buf xs m))"

definition e820_step :: "u64 \<times> u64 \<times> u32 \<Rightarrow> conv \<Rightarrow> conv" where
  "e820_step e s = (case e of (addr, sz, type) \<Rightarrow>
     let s = (if type = 1 then s\<lparr>need_mem_sizes := 0\<rparr> else s)
     in conv_upd (add_e820_map (real_mode s) addr sz type) s)"

partial_function (option) e820_loop :: "u32 \<Rightarrow> u32 \<Rightarrow> conv \<Rightarrow> conv option" where
  "e820_loop mi i s =
     (if i <s ld32 (c_ram s) mi
      then e820_loop mi (i + 1) (e820_step (e820_at (c_ram s) (mi + 4 + 20 * i)) s)
      else Some s)"

definition get_meminfo :: "pcbios \<Rightarrow> conv \<Rightarrow> conv option" where
  "get_meminfo bios s = do {
     let (n, m) = meme820 bios (meminfo bios + 4) E820MAX (c_ram s);
     s \<leftarrow> e820_loop (meminfo bios) 0 (s\<lparr>c_ram := st32 (meminfo bios) n m\<rparr>);
     let s = conv_upd (\<lambda>m. st16 (real_mode s + 2) (mem88 bios) (st32 (real_mode s + 0x1E0) (meme801 bios) m)) s;
     Some (if ctrue (ld32 (c_ram s) (real_mode s + 0x1E0)) \<or> ctrue (ld16 (c_ram s) (real_mode s + 2))
           then s\<lparr>need_mem_sizes := 0\<rparr> else s) }"

subsection \<open>Boot loader and firmware\<close>

definition query_bootloader_param_class :: "conv \<Rightarrow> conv option" where
  "query_bootloader_param_class s =
     (let m = c_ram s;
          multi = (i_type s = 0x2BADB002);
          s = (if multi then s\<lparr>has_multiboot := 1\<rparr> else s);
          uni = (\<not> multi \<and> i_type s = 0x0A11B007 \<and> compute_checksum m (i_data s) (ld32 m (i_data s)) = 0);
          s = (if uni then s\<lparr>has_uniform_boot := 1\<rparr> else s);
          hdr = (if i_type s = ELF_BHDR_MAGIC then i_data s else 0);
          hdr = (if i_param s \<noteq> 0 \<and> ld32 m (i_param s) = ELF_BHDR_MAGIC then i_param s else hdr)
      in if multi \<or> uni \<or> hdr = 0 then Some s
         else do {
           let checksum = (if ld16 m (hdr + 8) \<noteq> 0 then compute_checksum m hdr (ld32 m (hdr + 4)) else 0);
           count \<leftarrow> count_elf_notes m hdr;
           Some (if ld32 m hdr = ELF_BHDR_MAGIC \<and> checksum = 0 \<and> ucast (ld16 m (hdr + 10)) = count
                 then s\<lparr>has_elf_boot := 1, i_param := hdr\<rparr> else s) })"

definition query_bootloader_values :: "conv \<Rightarrow> conv option" where
  "query_bootloader_values s =
     (if ctrue (has_multiboot s) then convert_multiboot (i_data s) s
      else if ctrue (has_uniform_boot s) then convert_uniform_boot (i_data s) s
      else if ctrue (has_elf_boot s) then convert_elf_boot (i_param s) s
      else Some s)"

text \<open>The descriptor of the note is compared with \<open>"PCBIOS"\<close>, \<open>"LinuxBIOS"\<close> and \<open>""\<close>, of 7, 10 and 1
  bytes.\<close>

definition bootloader_query_firmware_class :: "conv \<Rightarrow> (bool \<times> conv) option" where
  "bootloader_query_firmware_class s =
     (if \<not> ctrue (has_elf_boot s) then Some (False, s)
      else do {
        h \<leftarrow> find_elf_note (c_ram s) (i_param s) EBN_FIRMWARE_TYPE;
        case h of
          None \<Rightarrow> Some (False, s)
        | Some hdr \<Rightarrow>
            let m = c_ram s; desc = ld8 m (note_desc_at m hdr); descsz = ld32 m (hdr + 4)
            in if descsz = 7 \<and> conv_memcmp 7 desc 0x50 = 0 then Some (True, s\<lparr>has_pcbios := 1\<rparr>)
               else if descsz = 10 \<and> conv_memcmp 10 desc 0x4C = 0 then find_lb_table s
               else if descsz = 0 then Some (True, s)
               else Some (descsz = 1 \<and> conv_memcmp 1 desc 0 = 0, s) })"

definition query_firmware_class :: "conv \<Rightarrow> conv option" where
  "query_firmware_class s = do {
     (d, s) \<leftarrow> bootloader_query_firmware_class (s\<lparr>has_pcbios := 0, has_linuxbios := 0\<rparr>);
     (d, s) \<leftarrow> (if d then Some (d, s) else find_lb_table s);
     Some (if d then s else s\<lparr>has_pcbios := 1\<rparr>) }"

definition query_firmware_values :: "pcbios \<Rightarrow> conv \<Rightarrow> conv option" where
  "query_firmware_values bios s = do {
     s \<leftarrow> (if ctrue (has_linuxbios s) then query_lb_values s else Some s);
     if ctrue (has_pcbios s) then get_meminfo bios s else Some s }"

subsection \<open>The page of real mode data\<close>

text \<open>The places in \<open>image_parameters\<close> are those of \<open>convert.h\<close>.\<close>

definition initialize_linux_params :: "conv \<Rightarrow> conv" where
  "initialize_linux_params s =
     (let rm = real_mode s; im = i_image s;
          m = conv_memset 4096 rm 0 (c_ram s);
          m = st8 rm 0 m; m = st8 (rm + 1) 25 m; m = st16 (rm + 4) 0 m; m = st8 (rm + 6) 0 m;
          m = st8 (rm + 7) 80 m; m = st8 (rm + 0xE) 25 m; m = st16 (rm + 0xA) 0 m;
          m = st8 (rm + 0xF) 1 m; m = st16 (rm + 0x10) 16 m; m = st16 (rm + 2) 0 m;
          m = st8 (rm + 0x1E8) 0 m;
          m = st16 (rm + 0x20) 0xA33F m; m = st16 (rm + 0x22) 2048 m;
          m = st32 (rm + 0x228) (ucast (ld16 m (rm + 0x22)) + rm) m;
          len = conv_strnlen m (im + 28) 255 0;
          m = conv_memcpy (unat len) (rm + 0x800) (im + 28) m;
          m = st8 (rm + 0x800 + len) 0 m;
          m = conv_memset 64 (rm + 0x40) 0 m; m = conv_memset 32 (rm + 0x80) 0 m;
          m = st16 (rm + 0xA0) 0 m; m = st32 (rm + 0x1E0) 0 m; m = st16 (rm + 2) 0 m;
          m = st16 (rm + 0x1F2) 0xFFFF m;
          m = st16 (rm + 0x1F8) (ld16 m (im + 12)) m;
          m = st16 (rm + 0x1FC) (ld16 m (im + 14)) m;
          m = st8 (rm + 0x1FF) 0 m;
          m = st8 (rm + 0x202) 0x48 m; m = st8 (rm + 0x203) 0x64 m;
          m = st8 (rm + 0x204) 0x72 m; m = st8 (rm + 0x205) 0x53 m;
          m = st16 (rm + 0x206) 0x0201 m; m = st8 (rm + 0x210) 0x50 m; m = st8 (rm + 0x211) 0 m;
          m = st32 (rm + 0x218) 0 m; m = st32 (rm + 0x21C) 0 m;
          m = (if ctrue (ld32 m (im + 24))
               then let m = st32 (rm + 0x218) (ld32 m (im + 20)) m in st32 (rm + 0x21C) (ld32 m (im + 24)) m else m)
      in s\<lparr>c_ram := m, need_mem_sizes := 1\<rparr>)"

definition REAL_MODE_DATA :: u32 where "REAL_MODE_DATA = 0x20000"

text \<open>\<open>s\<close> holds memory and the flags as the stack happens to have them.\<close>

definition convert_params :: "pcbios \<Rightarrow> u32 \<Rightarrow> u32 \<Rightarrow> u32 \<Rightarrow> u32 \<Rightarrow> conv \<Rightarrow> (u32 \<times> conv) option" where
  "convert_params bios type data param im s = do {
     let s = initialize_linux_params (s\<lparr>real_mode := REAL_MODE_DATA, i_type := type, i_data := data,
               i_param := param, i_image := im\<rparr>);
     s \<leftarrow> query_bootloader_param_class s;
     s \<leftarrow> query_firmware_class s;
     s \<leftarrow> query_firmware_values bios s;
     s \<leftarrow> query_bootloader_values s;
     let s = hardware_setup s;
     Some (real_mode s, s) }"

subsection \<open>The command line\<close>

lemma unat_u32_less: "unat (w :: u32) < 4294967296"
  using unsigned_less [of w] by simp

lemma unat_plus_small:
  "unat (p :: u32) + n < 2 ^ 32 \<Longrightarrow> unat (p + of_nat n) = unat p + n"
  by (simp add: unat_word_ariths unat_of_nat take_bit_nat_eq_self)

lemma strnlen_bounds: "len \<le> mx \<Longrightarrow> len \<le> conv_strnlen m s mx len \<and> conv_strnlen m s mx len \<le> mx"
proof (induction m s mx len rule: conv_strnlen.induct)
  case (1 m s mx len)
  show ?case
  proof (cases "len < mx \<and> ld8 m s \<noteq> 0")
    case True
    then have "unat (len + 1) = unat len + 1"
      using unat_u32_less [of mx] unat_plus_small [of len 1] by (simp add: word_less_nat_alt)
    then have "len + 1 \<le> mx" "len \<le> len + 1"
      using True by (simp_all add: word_less_nat_alt word_le_nat_alt)
    then show ?thesis
      using 1 True by (subst conv_strnlen.simps, subst (2) conv_strnlen.simps) auto
  next
    case False
    then show ?thesis
      using 1 by (subst conv_strnlen.simps, subst (2) conv_strnlen.simps) auto
  qed
qed

lemma strnlen_string:
  assumes "\<forall>i<n. ld8 m (s + of_nat i) \<noteq> 0" "ld8 m (s + of_nat n) = 0" "unat len + n \<le> unat mx"
  shows "conv_strnlen m s mx len = len + of_nat n"
  using assms
proof (induction n arbitrary: s len)
  case 0
  then show ?case by (subst conv_strnlen.simps) simp
next
  case (Suc n)
  have l: "len < mx" using Suc.prems(3) by (simp add: word_less_nat_alt)
  have "unat (len + 1) = unat len + 1"
    using Suc.prems(3) unat_u32_less [of mx] unat_plus_small [of len 1] by simp
  then have "conv_strnlen m (s + 1) mx (len + 1) = len + 1 + of_nat n"
    using Suc.prems by (intro Suc.IH) (auto simp: add.assoc)
  then show ?case
    using l Suc.prems(1) by (subst conv_strnlen.simps) (auto simp: add.assoc)
qed

lemma st8_other: "unat x \<noteq> unat p \<Longrightarrow> st8 p v m x = m x"
  by (auto simp: st8_def)

lemma memcpy_other:
  "unat d + n \<le> 2 ^ 32 \<Longrightarrow> unat x < unat d \<or> unat d + n \<le> unat x \<Longrightarrow> conv_memcpy n d s m x = m x"
proof (induction n arbitrary: d s m)
  case (Suc n)
  show ?case
  proof (cases "n = 0")
    case False
    then have d: "unat (d + 1) = unat d + 1"
      using Suc.prems(1) unat_plus_small [of d 1] by simp
    have "conv_memcpy n (d + 1) (s + 1) (st8 d (ld8 m s) m) x = st8 d (ld8 m s) m x"
      by (rule Suc.IH) (use Suc.prems d in auto)
    then show ?thesis using Suc.prems(2) by (auto simp: st8_other)
  qed (use Suc.prems(2) in \<open>auto simp: st8_other\<close>)
qed simp

lemma memcpy_copies:
  assumes "unat d + n \<le> 2 ^ 32" "unat s + n \<le> unat d" "i < n"
  shows "ld8 (conv_memcpy n d s m) (d + of_nat i) = ld8 m (s + of_nat i)"
  using assms
proof (induction n arbitrary: d s m i)
  case (Suc n)
  let ?m = "st8 d (ld8 m s) m"
  show ?case
  proof (cases i)
    case 0
    show ?thesis
    proof (cases "n = 0")
      case False
      then have "unat (d + 1) = unat d + 1"
        using Suc.prems(1) unat_plus_small [of d 1] by simp
      then show ?thesis
        using 0 Suc.prems(1) memcpy_other [of "d + 1" n "ucast d" "s + 1" ?m] by (simp add: ld8_def st8_def)
    qed (use 0 in \<open>simp add: ld8_def st8_def\<close>)
  next
    case (Suc j)
    then have "n \<noteq> 0" using Suc.prems by simp
    then have d: "unat (d + 1) = unat d + 1" "unat (s + 1) = unat s + 1"
      using Suc.prems(1,2) unat_plus_small [of d 1] unat_plus_small [of s 1] by simp_all
    have "ld8 (conv_memcpy n (d + 1) (s + 1) ?m) (d + 1 + of_nat j) = ld8 ?m (s + 1 + of_nat j)"
      by (rule Suc.IH) (use Suc.prems Suc d in auto)
    moreover have "unat (s + 1 + of_nat j) \<noteq> unat d"
      using Suc.prems Suc d unat_plus_small [of "s + 1" j] unat_u32_less [of d] by simp
    ultimately show ?thesis
      using Suc by (simp add: ld8_def st8_other add.assoc)
  qed
qed simp

lemma small_signed:
  assumes "0 \<le>s (a :: u32)" "a <s 255"
  shows "a \<le> 255"
proof -
  have "0 \<le> sint a" "sint a < 255"
    using assms by (simp_all add: word_sle_eq word_sless_alt)
  then have "uint a = sint a"
    by (simp add: uint_sint take_bit_int_eq_self)
  then show ?thesis
    using \<open>sint a < 255\<close> by (simp add: word_le_def)
qed

lemma append_places:
  fixes rm :: u32
  assumes "unat rm + 0x800 + 258 + n \<le> 2 ^ 32" "len \<le> 256"
  shows "unat (rm + 0x800 + len) = unat rm + 0x800 + unat len"
    "unat (rm + 0x800 + len + 1) = unat rm + 0x800 + unat len + 1" "unat len \<le> 256"
    "k \<le> n \<Longrightarrow> unat (rm + 0x800 + len + 1 + of_nat k) = unat rm + 0x800 + unat len + 1 + k"
proof -
  show l: "unat len \<le> 256"
    using assms(2) by (simp add: word_le_nat_alt)
  have "unat (rm + of_nat j) = unat rm + j" if "j \<le> 0x800 + 257 + n" for j
    by (rule unat_plus_small) (use assms(1) that in simp)
  from this [of "0x800 + unat len"] this [of "0x800 + unat len + 1"] this [of "0x800 + unat len + 1 + k"]
  show "unat (rm + 0x800 + len) = unat rm + 0x800 + unat len"
    "unat (rm + 0x800 + len + 1) = unat rm + 0x800 + unat len + 1"
    "k \<le> n \<Longrightarrow> unat (rm + 0x800 + len + 1 + of_nat k) = unat rm + 0x800 + unat len + 1 + k"
    using l by (simp_all add: add.assoc)
qed

text \<open>With a length that is not negative, what is appended stays in the page of real mode data: it ends at
  most 513 bytes after the start of the command line (which has 256).\<close>

lemma append_command_line_bounds:
  assumes "unat rm + 4096 \<le> 2 ^ 32" "0 \<le>s arg_bytes"
    "unat x < unat rm + 0x800 \<or> unat rm + 0x800 + 513 \<le> unat x"
  shows "append_command_line rm arg arg_bytes m x = m x"
proof -
  let ?l = "conv_strnlen m (rm + 0x800) 256 0"
  let ?d = "rm + 0x800 + ?l"
  let ?m = "st8 ?d 0x20 m"
  let ?mx = "if arg_bytes <s 255 then arg_bytes else 255"
  let ?k = "conv_strnlen ?m arg ?mx 0"
  have l: "?l \<le> 256"
    using strnlen_bounds [of 0 256] by simp
  have "?k \<le> ?mx"
    using strnlen_bounds [of 0 ?mx] by simp
  also have "?mx \<le> 255"
    using small_signed [OF assms(2)] by simp
  finally have k: "unat ?k \<le> 255"
    by (simp add: word_le_nat_alt)
  have "unat rm + 0x800 + 258 + 255 \<le> 2 ^ 32"
    using assms(1) by simp
  note p = append_places [OF this l]
  have q: "unat (?d + 1 + ?k) = unat rm + 0x800 + unat ?l + 1 + unat ?k"
    using p(4) [OF k] by simp
  have "append_command_line rm arg arg_bytes m x = st8 (?d + 1 + ?k) 0 (conv_memcpy (unat ?k) (?d + 1) arg ?m) x"
    by (simp add: append_command_line_def Let_def)
  also have "\<dots> = conv_memcpy (unat ?k) (?d + 1) arg ?m x"
    using assms(3) p(3) q k by (intro st8_other) auto
  also have "\<dots> = ?m x"
    using assms(1,3) p(2,3) k by (intro memcpy_other) auto
  also have "\<dots> = m x"
    using assms(3) p(1,3) by (intro st8_other) auto
  finally show ?thesis .
qed

text \<open>C35: the command line of a Multiboot loader is copied without any limit: \<open>MULTIBOOT_MAX_COMMAND_LINE\<close>
  is \<open>- 1\<close> as an \<open>int\<close>, which is less than the space that is left, and is the largest length for
  \<open>strnlen\<close>.  A command line of two kilobytes already overwrites what is behind the page of real mode
  data, the descriptor table at \<open>GDTLOC\<close>.\<close>

theorem multiboot_command_line_unbounded:
  assumes "\<forall>i<n. ld8 m (arg + of_nat i) \<noteq> 0" "ld8 m (arg + of_nat n) = 0"
    and "unat arg + n < unat rm" "unat rm + 0x800 + 258 + n \<le> 2 ^ 32"
  shows "\<exists>k\<le>256. \<forall>i<n. ld8 (append_command_line rm arg MULTIBOOT_MAX_COMMAND_LINE m)
    (rm + 0x800 + of_nat k + 1 + of_nat i) = ld8 m (arg + of_nat i)"
proof -
  let ?l = "conv_strnlen m (rm + 0x800) 256 0"
  let ?d = "rm + 0x800 + ?l"
  let ?m = "st8 ?d 0x20 m"
  have l: "?l \<le> 256"
    using strnlen_bounds [of 0 256] by simp
  note p = append_places [OF assms(4) l]
  have a: "ld8 ?m (arg + of_nat i) = ld8 m (arg + of_nat i)" if "i \<le> n" for i
  proof -
    have "unat (arg + of_nat i) = unat arg + i"
      using that assms(3) unat_u32_less [of rm] by (intro unat_plus_small) simp
    then show ?thesis
      using that assms(3) p(1) by (simp add: ld8_def st8_other)
  qed
  have n: "n < 2 ^ 32" using assms(4) by simp
  have k: "conv_strnlen ?m arg 0xFFFFFFFF 0 = of_nat n"
    using strnlen_string [of n ?m arg 0 "0xFFFFFFFF"] assms(1,2) a n by simp
  have un: "unat (of_nat n :: u32) = n"
    using n by (simp add: unat_of_nat take_bit_nat_eq_self)
  have s: "append_command_line rm arg MULTIBOOT_MAX_COMMAND_LINE m
      = st8 (?d + 1 + of_nat n) 0 (conv_memcpy n (?d + 1) arg ?m)"
    using k un by (simp add: append_command_line_def Let_def MULTIBOOT_MAX_COMMAND_LINE_def)
  have "ld8 (append_command_line rm arg MULTIBOOT_MAX_COMMAND_LINE m) (?d + 1 + of_nat i) = ld8 m (arg + of_nat i)"
    if "i < n" for i
  proof -
    have "unat (?d + 1 + of_nat i) \<noteq> unat (?d + 1 + of_nat n)"
      using p(4) [of i] p(4) [of n] that by simp
    then have "ld8 (append_command_line rm arg MULTIBOOT_MAX_COMMAND_LINE m) (?d + 1 + of_nat i)
        = ld8 (conv_memcpy n (?d + 1) arg ?m) (?d + 1 + of_nat i)"
      by (simp add: s ld8_def st8_other)
    also have "\<dots> = ld8 ?m (arg + of_nat i)"
      by (rule memcpy_copies) (use p(2,3) assms(3,4) that in auto)
    finally show ?thesis using a [of i] that by simp
  qed
  then show ?thesis
    using p(3) by (intro exI [of _ "unat ?l"]) simp
qed

text \<open>A command line of 2304 letters.\<close>

definition long_line :: mem where
  "long_line = (\<lambda>a. if 0x1000 \<le> a \<and> a < 0x1900 then 0x61 else 0)"

theorem multiboot_command_line_unbounded_witness:
  "\<exists>k\<le>256. \<forall>i<2304. ld8 (append_command_line REAL_MODE_DATA 0x1000 MULTIBOOT_MAX_COMMAND_LINE long_line)
    (REAL_MODE_DATA + 0x800 + of_nat k + 1 + of_nat i) = ld8 long_line (0x1000 + of_nat i)"
proof -
  have u: "unat (0x1000 + of_nat i :: u32) = 0x1000 + i" if "i \<le> 2304" for i
    using unat_plus_small [of "0x1000" i] that by simp
  have *: "ld8 long_line (0x1000 + of_nat i) = (if i < 2304 then 0x61 else 0)" if "i \<le> 2304" for i
    using u [OF that] by (simp add: ld8_def long_line_def word_le_nat_alt word_less_nat_alt)
  have "ld8 long_line 0x1900 = 0"
    by (simp add: ld8_def long_line_def)
  then show ?thesis
    using * by (intro multiboot_command_line_unbounded) (simp_all add: REAL_MODE_DATA_def)
qed

end
