(* ===== verification/ConvMap.thy ===== *)
theory ConvMap
  imports Convert
begin

text \<open>
  The memory map that the converter hands to Linux (\<open>tools/mkelfImage/linux-i386/convert_params.c\<close>): which
  bytes the operations of \<open>Convert\<close> store, and what the page of real mode data holds in the end when
  neither a boot loader nor LinuxBIOS is recognised, so that the BIOS is asked.
\<close>

subsection \<open>Accesses below 4 GB\<close>

lemma unat_addr [simp]: "unat (ucast (p :: u32) :: u64) = unat p"
  by (simp add: unsigned_ucast_eq take_bit_nat_eq_self less_trans [OF unat_u32_less])

lemma store_other:
  assumes "unat x < unat p \<or> unat p + n \<le> unat x" "n \<le> 8"
  shows "store_le n m (ucast (p :: u32)) v x = m x"
proof -
  have "unat (ucast p :: u64) + n \<le> 2 ^ 64"
    using assms(2) unat_u32_less [of p] by simp
  then have "\<not> in_range (ucast p) n x"
    unfolding in_range_def using assms(1) by (subst unat_minus_less) auto
  then show ?thesis
    using assms(2) by (intro store_le_other) simp_all
qed

lemma st_other:
  "unat x < unat p \<or> unat p + 1 \<le> unat x \<Longrightarrow> st8 p b m x = m x"
  "unat x < unat p \<or> unat p + 2 \<le> unat x \<Longrightarrow> st16 p h m x = m x"
  "unat x < unat p \<or> unat p + 4 \<le> unat x \<Longrightarrow> st32 p w m x = m x"
  "unat x < unat p \<or> unat p + 8 \<le> unat x \<Longrightarrow> st64 p d m x = m x"
  by (auto simp: st8_other st16_def st32_def st64_def store_other)

lemma load_agree:
  assumes "unat p + n \<le> 2 ^ 32"
    and "\<And>x. unat p \<le> unat x \<Longrightarrow> unat x < unat p + n \<Longrightarrow> m x = m' x"
  shows "load_le n m (ucast (p :: u32)) = (load_le n m' (ucast p) :: 'a::len word)"
proof (rule load_le_cong, rule assms(2))
  fix i assume i: "i < n"
  have "unat (ucast p + of_nat i :: u64) = unat p + i"
    using i assms(1) by (subst unat_word_ariths) (simp add: unat_of_nat_u64 unat_of_nat take_bit_nat_eq_self)
  then show "unat p \<le> unat (ucast p + of_nat i :: u64)" "unat (ucast p + of_nat i :: u64) < unat p + n"
    using i by simp_all
qed

lemma ld_agree:
  "unat p + 1 \<le> 2 ^ 32 \<Longrightarrow> (\<And>x. unat p \<le> unat x \<Longrightarrow> unat x < unat p + 1 \<Longrightarrow> m x = m' x) \<Longrightarrow> ld8 m p = ld8 m' p"
  "unat p + 2 \<le> 2 ^ 32 \<Longrightarrow> (\<And>x. unat p \<le> unat x \<Longrightarrow> unat x < unat p + 2 \<Longrightarrow> m x = m' x) \<Longrightarrow> ld16 m p = ld16 m' p"
  "unat p + 4 \<le> 2 ^ 32 \<Longrightarrow> (\<And>x. unat p \<le> unat x \<Longrightarrow> unat x < unat p + 4 \<Longrightarrow> m x = m' x) \<Longrightarrow> ld32 m p = ld32 m' p"
  "unat p + 8 \<le> 2 ^ 32 \<Longrightarrow> (\<And>x. unat p \<le> unat x \<Longrightarrow> unat x < unat p + 8 \<Longrightarrow> m x = m' x) \<Longrightarrow> ld64 m p = ld64 m' p"
  unfolding ld_defs by (auto intro: load_agree)

lemma ld_st [simp]:
  "ld8 (st8 p b m) p = b" "ld16 (st16 p h m) p = h" "ld32 (st32 p w m) p = w" "ld64 (st64 p d m) p = d"
  by (simp_all add: ld_defs st_defs)

subsection \<open>One entry\<close>

text \<open>The number of entries, and the entries as the page of real mode data holds them.\<close>

definition map_count :: "mem \<Rightarrow> u8" where
  "map_count m = ld8 m (REAL_MODE_DATA + 0x1E8)"

definition map_entry :: "mem \<Rightarrow> nat \<Rightarrow> u64 \<times> u64 \<times> u32" where
  "map_entry m i = e820_at m (REAL_MODE_DATA + 0x2D0 + 20 * of_nat i)"

lemma entry_place:
  assumes "i < 32"
  shows "unat (REAL_MODE_DATA + 0x2D0 + 20 * of_nat i) = 0x202D0 + 20 * i"
    "unat (REAL_MODE_DATA + 0x2D0 + 20 * of_nat i + 8) = 0x202D0 + 20 * i + 8"
    "unat (REAL_MODE_DATA + 0x2D0 + 20 * of_nat i + 16) = 0x202D0 + 20 * i + 16"
proof -
  have "unat (0x202D0 + of_nat (20 * i + k) :: u32) = 0x202D0 + 20 * i + k" if "k \<le> 16" for k
    using assms that unat_plus_small [of "0x202D0" "20 * i + k"] by simp
  from this [of 0] this [of 8] this [of 16]
  show "unat (REAL_MODE_DATA + 0x2D0 + 20 * of_nat i) = 0x202D0 + 20 * i"
    "unat (REAL_MODE_DATA + 0x2D0 + 20 * of_nat i + 8) = 0x202D0 + 20 * i + 8"
    "unat (REAL_MODE_DATA + 0x2D0 + 20 * of_nat i + 16) = 0x202D0 + 20 * i + 16"
    by (simp_all add: REAL_MODE_DATA_def add_ac)
qed

text \<open>A byte of the two fields for the size of memory.\<close>

definition in_sizes :: "u64 \<Rightarrow> bool" where
  "in_sizes x \<longleftrightarrow> 0x20002 \<le> unat x \<and> unat x < 0x20004 \<or> 0x201E0 \<le> unat x \<and> unat x < 0x201E4"

lemma memsize_other: "\<not> in_sizes x \<Longrightarrow> set_memsize_k REAL_MODE_DATA k m x = m x"
  by (auto simp: set_memsize_k_def REAL_MODE_DATA_def in_sizes_def Let_def st_other)

text \<open>What \<open>add_e820_map\<close> stores: the entry, the count and the sizes of memory.\<close>

lemma add_shape:
  assumes "map_count m = of_nat i" "i < 32" "\<not> in_sizes x"
  shows "add_e820_map REAL_MODE_DATA addr sz type m x =
    (let e = REAL_MODE_DATA + 0x2D0 + 20 * of_nat i
     in st8 (REAL_MODE_DATA + 0x1E8) (of_nat i + 1) (st32 (e + 16) type (st64 (e + 8) sz (st64 e addr m))) x)"
proof -
  have "ucast (ld8 m (REAL_MODE_DATA + 0x1E8)) = (of_nat i :: u32)"
    using assms(1,2) by (simp add: map_count_def unsigned_of_nat take_bit_nat_eq_self)
  moreover have "(of_nat i :: u32) < E820MAX" "ucast (of_nat i :: u32) = (of_nat i :: u8)"
    using assms(2)
    by (simp_all add: E820MAX_def word_less_nat_alt unat_of_nat unsigned_of_nat take_bit_nat_eq_self)
  ultimately show ?thesis
    using assms(3) unfolding add_e820_map_def Let_def by (simp add: memsize_other)
qed

lemma add_other:
  assumes "map_count m = of_nat i" "i < 32"
    and "\<not> in_sizes x" "unat x \<noteq> 0x201E8" "unat x < 0x202D0 + 20 * i \<or> 0x202D0 + 20 * i + 20 \<le> unat x"
  shows "add_e820_map REAL_MODE_DATA addr sz type m x = m x"
proof -
  have "unat (REAL_MODE_DATA + 0x1E8) = 0x201E8"
    by (simp add: REAL_MODE_DATA_def)
  then have c: "st8 (REAL_MODE_DATA + 0x1E8) b m' x = m' x" for b m'
    using assms(4) by (intro st_other) linarith
  show ?thesis
    unfolding add_shape [OF assms(1-3)] Let_def c
    using assms(5) entry_place [OF assms(2)] by (subst st_other, linarith)+ simp
qed

lemma add_stores:
  assumes "map_count m = of_nat i" "i < 32"
  shows "map_count (add_e820_map REAL_MODE_DATA addr sz type m) = of_nat (Suc i)"
    "map_entry (add_e820_map REAL_MODE_DATA addr sz type m) i = (addr, sz, type)"
proof -
  let ?e = "REAL_MODE_DATA + 0x2D0 + 20 * of_nat i"
  let ?c = "REAL_MODE_DATA + 0x1E8"
  let ?m1 = "st64 ?e addr m"
  let ?m2 = "st64 (?e + 8) sz ?m1"
  let ?m3 = "st32 (?e + 16) type ?m2"
  let ?m4 = "st8 ?c (of_nat i + 1) ?m3"
  let ?m = "add_e820_map REAL_MODE_DATA addr sz type m"
  note e = entry_place [OF assms(2)]
  have c: "unat ?c = 0x201E8"
    by (simp add: REAL_MODE_DATA_def)
  have keep: "?m x = ?m4 x" if "\<not> in_sizes x" for x
    using add_shape [OF assms that] by (simp only: Let_def)
  have "ld8 ?m ?c = ld8 ?m4 ?c"
  proof (rule ld_agree(1))
    fix x :: u64 assume "unat ?c \<le> unat x" "unat x < unat ?c + 1"
    then show "?m x = ?m4 x" unfolding c by (intro keep) (simp add: in_sizes_def)
  qed (simp add: c)
  then show "map_count ?m = of_nat (Suc i)"
    by (simp add: map_count_def add.commute)
  have "ld64 ?m ?e = ld64 ?m1 ?e"
    by (rule ld_agree(4)) (use c e assms(2) in \<open>auto simp: in_sizes_def st_other keep\<close>)
  moreover have "ld64 ?m (?e + 8) = ld64 ?m2 (?e + 8)"
    by (rule ld_agree(4)) (use c e assms(2) in \<open>auto simp: in_sizes_def st_other keep\<close>)
  moreover have "ld32 ?m (?e + 16) = ld32 ?m3 (?e + 16)"
    by (rule ld_agree(3)) (use c e assms(2) in \<open>auto simp: in_sizes_def st_other keep\<close>)
  ultimately show "map_entry ?m i = (addr, sz, type)"
    by (simp add: map_entry_def e820_at_def)
qed

lemma entry_agree:
  assumes "j < 32" "\<And>x. 0x202D0 + 20 * j \<le> unat x \<Longrightarrow> unat x < 0x202D0 + 20 * j + 20 \<Longrightarrow> m x = m' x"
  shows "map_entry m j = map_entry m' j"
  unfolding map_entry_def e820_at_def using entry_place [OF assms(1)] assms
  by (auto intro!: ld_agree)

lemma add_earlier:
  assumes "map_count m = of_nat i" "i < 32" "j < i"
  shows "map_entry (add_e820_map REAL_MODE_DATA addr sz type m) j = map_entry m j"
  by (rule entry_agree) (use assms in \<open>auto simp: in_sizes_def intro!: add_other\<close>)

subsection \<open>The answer of the BIOS\<close>

text \<open>A byte of the page of real mode data.\<close>

definition in_page :: "u64 \<Rightarrow> bool" where
  "in_page x \<longleftrightarrow> 0x20000 \<le> unat x \<and> unat x < 0x21000"

text \<open>The entries of a list, one after the other.\<close>

primrec e820_entries :: "(u64 \<times> u64 \<times> u32) list \<Rightarrow> conv \<Rightarrow> conv" where
  "e820_entries [] s = s"
| "e820_entries (e # es) s = e820_entries es (e820_step e s)"

lemma e820_step_fields [simp]:
  "real_mode (e820_step e s) = real_mode s"
  "has_multiboot (e820_step e s) = has_multiboot s"
  "has_uniform_boot (e820_step e s) = has_uniform_boot s"
  "has_elf_boot (e820_step e s) = has_elf_boot s"
  by (auto simp: e820_step_def Let_def conv_upd_def split: prod.splits)

lemma e820_entries_real_mode [simp]: "real_mode (e820_entries es s) = real_mode s"
  by (induction es arbitrary: s) simp_all

lemma e820_entries_flags [simp]:
  "has_multiboot (e820_entries es s) = has_multiboot s"
  "has_uniform_boot (e820_entries es s) = has_uniform_boot s"
  "has_elf_boot (e820_entries es s) = has_elf_boot s"
  by (induction es arbitrary: s) simp_all

lemma e820_entries_map:
  assumes "map_count (c_ram s) = of_nat k" "k + length es \<le> 32" "real_mode s = REAL_MODE_DATA"
  shows "map_count (c_ram (e820_entries es s)) = of_nat (k + length es)
    \<and> (\<forall>j<k. map_entry (c_ram (e820_entries es s)) j = map_entry (c_ram s) j)
    \<and> (\<forall>j<length es. map_entry (c_ram (e820_entries es s)) (k + j) = es ! j)
    \<and> (\<forall>x. \<not> in_page x \<longrightarrow> c_ram (e820_entries es s) x = c_ram s x)"
  using assms
proof (induction es arbitrary: s k)
  case (Cons e es)
  obtain addr sz type where e: "e = (addr, sz, type)" by (cases e)
  define s1 where "s1 = e820_step e s"
  have s1: "e820_entries (e # es) s = e820_entries es s1" "real_mode s1 = REAL_MODE_DATA"
    "c_ram s1 = add_e820_map REAL_MODE_DATA addr sz type (c_ram s)"
    using Cons.prems(3) by (simp_all add: s1_def e e820_step_def Let_def conv_upd_def)
  have k: "k < 32" using Cons.prems(2) by simp
  have c: "map_count (c_ram s1) = of_nat (Suc k)"
    unfolding s1(3) using Cons.prems(1) k by (rule add_stores(1))
  have n: "map_entry (c_ram s1) k = e"
    unfolding s1(3) e using Cons.prems(1) k by (rule add_stores(2))
  have o: "map_entry (c_ram s1) j = map_entry (c_ram s) j" if "j < k" for j
    unfolding s1(3) using Cons.prems(1) k that by (rule add_earlier)
  have p: "c_ram s1 x = c_ram s x" if "\<not> in_page x" for x
    unfolding s1(3) using Cons.prems(1) k
    by (rule add_other) (use that k in \<open>auto simp: in_page_def in_sizes_def\<close>)
  note IH = Cons.IH [OF c _ s1(2)]
  have ih: "map_count (c_ram (e820_entries es s1)) = of_nat (Suc k + length es)"
    "\<And>j. j < Suc k \<Longrightarrow> map_entry (c_ram (e820_entries es s1)) j = map_entry (c_ram s1) j"
    "\<And>j. j < length es \<Longrightarrow> map_entry (c_ram (e820_entries es s1)) (Suc k + j) = es ! j"
    "\<And>x. \<not> in_page x \<Longrightarrow> c_ram (e820_entries es s1) x = c_ram s1 x"
    using IH Cons.prems(2) by auto
  have "map_entry (c_ram (e820_entries es s1)) (k + j) = (e # es) ! j" if "j < length (e # es)" for j
    using that ih(2) [of k] ih(3) n by (cases j) auto
  then show ?case
    using ih o p unfolding s1(1) by simp
qed simp

subsection \<open>The page before the BIOS is asked\<close>

lemma conv_memset_apply:
  "unat p + n \<le> 2 ^ 32 \<Longrightarrow>
    conv_memset n p c m x = (if unat p \<le> unat x \<and> unat x < unat p + n then c else m x)"
proof (induction n arbitrary: p m)
  case (Suc n)
  show ?case
  proof (cases "n = 0")
    case True
    then show ?thesis by (auto simp: st8_def word_unat_eq_iff)
  next
    case False
    then have "unat (p + 1) = unat p + 1"
      using Suc.prems unat_plus_small [of p 1] by simp
    then show ?thesis using Suc by (auto simp: st8_def word_unat_eq_iff)
  qed
qed auto

text \<open>Only bytes of the page differ from \<open>m0\<close>, and the memory map is empty.\<close>

definition page_of :: "mem \<Rightarrow> mem \<Rightarrow> bool" where
  "page_of m0 m \<longleftrightarrow> (\<forall>x. \<not> in_page x \<longrightarrow> m x = m0 x) \<and> m 0x201E8 = 0"

lemma page_of_st:
  assumes "page_of m0 m" "0x20000 \<le> unat p"
  shows "unat p < 0x21000 \<Longrightarrow> p \<noteq> 0x201E8 \<or> b = 0 \<Longrightarrow> page_of m0 (st8 p b m)"
    "unat p + 2 \<le> 0x201E8 \<or> 0x201E8 < unat p \<and> unat p + 2 \<le> 0x21000 \<Longrightarrow> page_of m0 (st16 p h m)"
    "unat p + 4 \<le> 0x201E8 \<or> 0x201E8 < unat p \<and> unat p + 4 \<le> 0x21000 \<Longrightarrow> page_of m0 (st32 p w m)"
    "unat p + n \<le> 0x201E8 \<or> 0x201E8 < unat p \<and> unat p + n \<le> 0x21000 \<Longrightarrow> page_of m0 (conv_memset n p c m)"
    "unat p + n \<le> 0x201E8 \<or> 0x201E8 < unat p \<and> unat p + n \<le> 0x21000 \<Longrightarrow> page_of m0 (conv_memcpy n p q m)"
proof -
  have u: "unat (0x201E8 :: u64) = 0x201E8" by simp
  show "unat p < 0x21000 \<Longrightarrow> p \<noteq> 0x201E8 \<or> b = 0 \<Longrightarrow> page_of m0 (st8 p b m)"
    using assms by (auto simp: page_of_def in_page_def st8_def word_unat_eq_iff)
  show "unat p + 2 \<le> 0x201E8 \<or> 0x201E8 < unat p \<and> unat p + 2 \<le> 0x21000 \<Longrightarrow> page_of m0 (st16 p h m)"
    "unat p + 4 \<le> 0x201E8 \<or> 0x201E8 < unat p \<and> unat p + 4 \<le> 0x21000 \<Longrightarrow> page_of m0 (st32 p w m)"
    "unat p + n \<le> 0x201E8 \<or> 0x201E8 < unat p \<and> unat p + n \<le> 0x21000 \<Longrightarrow> page_of m0 (conv_memset n p c m)"
    "unat p + n \<le> 0x201E8 \<or> 0x201E8 < unat p \<and> unat p + n \<le> 0x21000 \<Longrightarrow> page_of m0 (conv_memcpy n p q m)"
    using assms by (auto simp: page_of_def in_page_def st_other conv_memset_apply memcpy_other)
qed

lemma page_of_let:
  assumes "page_of m0 A" "\<And>m. page_of m0 m \<Longrightarrow> page_of m0 (c_ram (f m))"
  shows "page_of m0 (c_ram (let m = A in f m))"
  using assms by (simp add: Let_def)

lemma page_of_len:
  assumes "\<And>len. unat len \<le> 255 \<Longrightarrow> page_of m0 (c_ram (f len))"
  shows "page_of m0 (c_ram (let len = conv_strnlen m q 255 0 in f len))"
proof -
  have "conv_strnlen m q 255 0 \<le> 255"
    using strnlen_bounds [of 0 255] by simp
  then show ?thesis
    using assms by (simp add: word_le_nat_alt)
qed

lemma page_of_clear: "page_of m (conv_memset 4096 0x20000 0 m)"
  by (auto simp: page_of_def in_page_def conv_memset_apply)

lemma line_place:
  "unat len \<le> 255 \<Longrightarrow> unat (0x20800 + len :: u32) = 0x20800 + unat len"
  using unat_plus_small [of "0x20800" "unat len"] by simp

lemma page_of_ramdisk:
  "page_of m0 m \<Longrightarrow> page_of m0 (if c then let m = st32 (0x20000 + 0x218) (f m) m in st32 (0x20000 + 0x21C) (g m) m else m)"
  by (auto simp: Let_def intro!: page_of_st)

lemma initialize_page:
  assumes "real_mode s = REAL_MODE_DATA"
  shows "page_of (c_ram s) (c_ram (initialize_linux_params s))"
  unfolding initialize_linux_params_def assms REAL_MODE_DATA_def Let_def [of "0x20000"] Let_def [of "i_image s"]
  by (rule page_of_let, rule page_of_clear)
    (rule page_of_let page_of_len page_of_st page_of_ramdisk | assumption | simp add: line_place)+

subsection \<open>No boot loader and no LinuxBIOS\<close>

text \<open>The places that are searched for the table of LinuxBIOS, and the signature of its header.\<close>

definition lb_places :: "u32 list" where
  "lb_places = map (\<lambda>i. 16 * of_nat i) [0..<256] @ map (\<lambda>i. 0xF0000 + 16 * of_nat i) [0..<4096]"

definition lb_signature :: "mem \<Rightarrow> u32 \<Rightarrow> bool" where
  "lb_signature m p \<longleftrightarrow> ld8 m p = 0x4C \<and> ld8 m (p + 1) = 0x42 \<and> ld8 m (p + 2) = 0x49 \<and> ld8 m (p + 3) = 0x4F"

lemma find_lb_none: "\<forall>p \<in> set ps. \<not> lb_signature m p \<Longrightarrow> find_lb_from m ps = Some None"
  by (induction ps) (auto simp: lb_signature_def)

lemma lb_table_none: "\<forall>p \<in> set lb_places. \<not> lb_signature (c_ram s) p \<Longrightarrow> find_lb_table s = Some (False, s)"
  by (simp add: find_lb_table_def find_lb_between_def find_lb_none lb_places_def)

lemma lb_places_below: "p \<in> set lb_places \<Longrightarrow> unat p < 0x1000 \<or> 0xF0000 \<le> unat p \<and> unat p < 0x100000"
proof -
  have a: "unat (16 * of_nat i :: u32) = 16 * i" if "i < 256" for i
    using that unat_plus_small [of 0 "16 * i"] by simp
  have b: "unat (0xF0000 + 16 * of_nat i :: u32) = 0xF0000 + 16 * i" if "i < 4096" for i
    using that unat_plus_small [of "0xF0000" "16 * i"] by simp
  show "p \<in> set lb_places \<Longrightarrow> unat p < 0x1000 \<or> 0xF0000 \<le> unat p \<and> unat p < 0x100000"
    by (auto simp: lb_places_def a b)
qed

lemma lb_signature_page:
  assumes "page_of m0 m" "p \<in> set lb_places"
  shows "lb_signature m p \<longleftrightarrow> lb_signature m0 p"
proof -
  have "unat p < 0x1000 \<or> 0xF0000 \<le> unat p \<and> unat p < 0x100000"
    using assms(2) by (rule lb_places_below)
  then have "\<not> in_page (ucast (p + of_nat i))" if "i \<le> 3" for i
    using that unat_plus_small [of p i] by (simp add: in_page_def) linarith
  from this [of 0] this [of 1] this [of 2] this [of 3] assms(1) show ?thesis
    by (simp add: lb_signature_def ld8_def page_of_def)
qed

lemma initialize_fields:
  "i_type (initialize_linux_params s) = i_type s" "i_param (initialize_linux_params s) = i_param s"
  "real_mode (initialize_linux_params s) = real_mode s"
  "has_multiboot (initialize_linux_params s) = has_multiboot s"
  "has_uniform_boot (initialize_linux_params s) = has_uniform_boot s"
  "has_elf_boot (initialize_linux_params s) = has_elf_boot s"
  by (simp_all add: initialize_linux_params_def Let_def)

lemma hardware_setup_fields [simp]:
  "c_ram (hardware_setup s) = c_ram s" "real_mode (hardware_setup s) = real_mode s"
  by (simp_all add: hardware_setup_def setup_i8259_def outb_def Let_def)

subsection \<open>The static structure\<close>

lemma entry_parts:
  assumes "unat e + 20 \<le> 2 ^ 32"
  shows "unat (e + 8 :: u32) = unat e + 8" "unat (e + 16) = unat e + 16"
  using assms unat_plus_small [of e 8] unat_plus_small [of e 16] by simp_all

lemma entry_at_agree:
  assumes "unat e + 20 \<le> 2 ^ 32" "\<And>x. unat e \<le> unat x \<Longrightarrow> unat x < unat e + 20 \<Longrightarrow> m x = m' x"
  shows "e820_at m e = e820_at m' e"
  unfolding e820_at_def using entry_parts [OF assms(1)] assms by (auto intro!: ld_agree)

lemma st_entry_other:
  assumes "unat e + 20 \<le> 2 ^ 32" "unat x < unat e \<or> unat e + 20 \<le> unat x"
  shows "st_entry e y m x = m x"
  using entry_parts [OF assms(1)] assms(2) by (auto simp: st_entry_def st_other split: prod.splits)

lemma entry_at_st:
  assumes "unat e + 20 \<le> 2 ^ 32"
  shows "e820_at (st_entry e y m) e = y"
proof -
  obtain a n t where y: "y = (a, n, t)" by (cases y)
  note e = entry_parts [OF assms]
  let ?m1 = "st64 e a m" and ?m2 = "st64 (e + 8) n (st64 e a m)"
  have "ld64 (st_entry e y m) e = ld64 ?m1 e"
    by (rule ld_agree(4)) (use e assms in \<open>auto simp: st_entry_def y st_other\<close>)
  moreover have "ld64 (st_entry e y m) (e + 8) = ld64 ?m2 (e + 8)"
    by (rule ld_agree(4)) (use e assms in \<open>auto simp: st_entry_def y st_other\<close>)
  ultimately show ?thesis by (simp add: e820_at_def y) (simp add: st_entry_def)
qed

lemma st_entries_other:
  assumes "unat buf + 20 * length xs \<le> 2 ^ 32 - 1" "unat x < unat buf \<or> unat buf + 20 * length xs \<le> unat x"
  shows "st_entries buf xs m x = m x"
  using assms
proof (induction xs arbitrary: buf m)
  case (Cons y xs)
  then have "unat (buf + 20) = unat buf + 20" using unat_plus_small [of buf 20] by simp
  then show ?case using Cons by (auto simp: st_entry_other)
qed simp

lemma st_entries_at:
  assumes "unat buf + 20 * length xs \<le> 2 ^ 32 - 1" "i < length xs"
  shows "e820_at (st_entries buf xs m) (buf + 20 * of_nat i) = xs ! i"
  using assms
proof (induction xs arbitrary: buf m i)
  case (Cons y xs)
  have b: "unat (buf + 20) = unat buf + 20" using Cons.prems unat_plus_small [of buf 20] by simp
  show ?case
  proof (cases i)
    case 0
    have "e820_at (st_entries (buf + 20) xs (st_entry buf y m)) buf = e820_at (st_entry buf y m) buf"
      by (rule entry_at_agree) (use Cons.prems b in \<open>auto intro!: st_entries_other\<close>)
    then show ?thesis using 0 Cons.prems by (simp add: entry_at_st)
  next
    case (Suc j)
    have "e820_at (st_entries (buf + 20) xs (st_entry buf y m)) (buf + 20 + 20 * of_nat j) = xs ! j"
      by (rule Cons.IH) (use Cons.prems b Suc in auto)
    then show ?thesis using Suc by (simp add: algebra_simps)
  qed
qed simp

text \<open>A byte of the structure \<open>meminfo\<close>, and where it can be: in the converter, which is below the page.\<close>

definition in_meminfo :: "u32 \<Rightarrow> u64 \<Rightarrow> bool" where
  "in_meminfo mi x \<longleftrightarrow> unat mi \<le> unat x \<and> unat x < unat mi + 644"

definition meminfo_holds :: "u32 \<Rightarrow> (u64 \<times> u64 \<times> u32) list \<Rightarrow> mem \<Rightarrow> bool" where
  "meminfo_holds mi es m \<longleftrightarrow> ld32 m mi = of_nat (length es)
    \<and> (\<forall>i < length es. e820_at m (mi + 4 + 20 * of_nat i) = es ! i)"

lemma meminfo_place:
  fixes mi :: u32
  assumes "unat mi + 644 \<le> 0x20000" "i < 32"
  shows "unat (mi + 4 + 20 * of_nat i) = unat mi + 4 + 20 * i"
  using unat_plus_small [of mi "4 + 20 * i"] assms by (simp add: add_ac)

lemma meminfo_agree:
  assumes "meminfo_holds mi es m" "unat mi + 644 \<le> 0x20000" "length es \<le> 32"
    and "\<And>x. \<not> in_page x \<Longrightarrow> m' x = m x"
  shows "meminfo_holds mi es m'"
proof -
  have low: "m' x = m x" if "unat x < 0x20000" for x using assms(4) that by (simp add: in_page_def)
  have "ld32 m' mi = ld32 m mi"
    by (rule ld_agree(3)) (use assms(2) in \<open>auto intro!: low\<close>)
  moreover have "e820_at m' (mi + 4 + 20 * of_nat i) = e820_at m (mi + 4 + 20 * of_nat i)" if "i < length es" for i
    using meminfo_place [OF assms(2), of i] that assms(2,3) by (intro entry_at_agree low) auto
  ultimately show ?thesis using assms(1) by (simp add: meminfo_holds_def)
qed

lemma meminfo_stored:
  assumes "unat mi + 644 \<le> 0x20000" "length es \<le> 32"
  shows "meminfo_holds mi es (st32 mi (of_nat (length es)) (st_entries (mi + 4) es m))"
    "\<not> in_meminfo mi x \<Longrightarrow> st32 mi (of_nat (length es)) (st_entries (mi + 4) es m) x = m x"
proof -
  define m' where "m' = st32 mi (of_nat (length es)) (st_entries (mi + 4) es m)"
  have b: "unat (mi + 4) = unat mi + 4" using assms(1) unat_plus_small [of mi 4] by simp
  have "e820_at m' (mi + 4 + 20 * of_nat i) = es ! i" if "i < length es" for i
  proof -
    have "e820_at m' (mi + 4 + 20 * of_nat i) = e820_at (st_entries (mi + 4) es m) (mi + 4 + 20 * of_nat i)"
      unfolding m'_def using meminfo_place [OF assms(1), of i] that assms(1,2)
      by (intro entry_at_agree) (auto intro!: st_other)
    then show ?thesis using st_entries_at [of "mi + 4" es i m] that b assms(1,2) by simp
  qed
  then show "meminfo_holds mi es (st32 mi (of_nat (length es)) (st_entries (mi + 4) es m))"
    by (simp add: meminfo_holds_def m'_def)
  show "\<not> in_meminfo mi x \<Longrightarrow> st32 mi (of_nat (length es)) (st_entries (mi + 4) es m) x = m x"
    using assms(1,2) b by (auto simp: in_meminfo_def st_other st_entries_other)
qed

lemma e820_loop_entries:
  assumes "meminfo_holds mi es (c_ram s)" "unat mi + 644 \<le> 0x20000" "length es \<le> 32" "k \<le> length es"
    and "map_count (c_ram s) = of_nat k" "real_mode s = REAL_MODE_DATA"
  shows "e820_loop mi (of_nat k) s = Some (e820_entries (drop k es) s)"
  using assms(1,4-)
proof (induction "length es - k" arbitrary: k s)
  case 0
  then have "k = length es" by simp
  then show ?case using 0 by (subst e820_loop.simps) (simp add: meminfo_holds_def)
next
  case (Suc n)
  then have k: "k < length es" by simp
  have small: "sint (of_nat i :: u32) = int i" if "i \<le> 32" for i
    using that by (simp add: signed_of_nat signed_take_bit_int_eq_self)
  have "(of_nat k :: u32) <s of_nat (length es)"
    using k assms(3) by (simp add: word_sless_alt small)
  then have c: "of_nat k <s ld32 (c_ram s) mi"
    "e820_at (c_ram s) (mi + 4 + 20 * of_nat k) = es ! k"
    using Suc.prems(1) k by (simp_all add: meminfo_holds_def)
  let ?s = "e820_step (es ! k) s"
  have one: "map_count (c_ram ?s) = of_nat (Suc k)" "\<And>x. \<not> in_page x \<Longrightarrow> c_ram ?s x = c_ram s x"
    using e820_entries_map [OF Suc.prems(3) _ Suc.prems(4), of "[es ! k]"] k assms(3) by auto
  have "e820_loop mi (of_nat (Suc k)) ?s = Some (e820_entries (drop (Suc k) es) ?s)"
    using Suc.hyps(1) [of "Suc k" ?s] meminfo_agree [OF Suc.prems(1) assms(2,3) one(2)] one(1) Suc.hyps(2) k Suc.prems(4)
    by simp
  then show ?case
    using c Cons_nth_drop_Suc [OF k] by (subst e820_loop.simps) (simp add: add.commute, metis e820_entries.simps(2))
qed

lemma get_meminfo_map:
  assumes "page_of m0 (c_ram s)" "real_mode s = REAL_MODE_DATA" "length (bios_map bios) \<le> 32"
    and "unat (meminfo bios) + 644 \<le> 0x20000"
  obtains s' where "get_meminfo bios s = Some s'" "real_mode s' = real_mode s" "has_multiboot s' = has_multiboot s"
    "has_uniform_boot s' = has_uniform_boot s" "has_elf_boot s' = has_elf_boot s"
    "map_count (c_ram s') = of_nat (length (bios_map bios))"
    "\<And>i. i < length (bios_map bios) \<Longrightarrow> map_entry (c_ram s') i = bios_map bios ! i"
    "ld32 (c_ram s') (REAL_MODE_DATA + 0x1E0) = meme801 bios" "ld16 (c_ram s') (REAL_MODE_DATA + 2) = mem88 bios"
    "\<And>x. \<not> in_page x \<Longrightarrow> \<not> in_meminfo (meminfo bios) x \<Longrightarrow> c_ram s' x = m0 x"
proof -
  let ?es = "bios_map bios"
  let ?mi = "meminfo bios"
  define s1 where "s1 = s\<lparr>c_ram := st32 ?mi (of_nat (length ?es)) (st_entries (?mi + 4) ?es (c_ram s))\<rparr>"
  note st = meminfo_stored [OF assms(4,3), where m = "c_ram s"]
  have same: "c_ram s1 x = c_ram s x" if "\<not> in_meminfo ?mi x" for x using st(2) that by (simp add: s1_def)
  have "\<not> in_meminfo ?mi 0x201E8" using assms(4) by (simp add: in_meminfo_def)
  then have c: "map_count (c_ram s1) = of_nat 0"
    using assms(1) same by (simp add: map_count_def ld8_def page_of_def REAL_MODE_DATA_def)
  have rm: "real_mode s1 = REAL_MODE_DATA" using assms(2) by (simp add: s1_def)
  have loop: "e820_loop ?mi 0 s1 = Some (e820_entries ?es s1)"
    using e820_loop_entries [OF _ assms(4,3) _ c rm] st(1) by (simp add: s1_def)
  from e820_entries_map [OF c _ rm] assms(3)
  have n: "map_count (c_ram (e820_entries ?es s1)) = of_nat (length ?es)"
    "\<And>i. i < length ?es \<Longrightarrow> map_entry (c_ram (e820_entries ?es s1)) i = ?es ! i"
    "\<And>x. \<not> in_page x \<Longrightarrow> c_ram (e820_entries ?es s1) x = c_ram s1 x"
    by auto
  let ?n = "c_ram (e820_entries ?es s1)"
  let ?n' = "st32 0x201E0 (meme801 bios) ?n"
  let ?m = "st16 0x20002 (mem88 bios) ?n'"
  obtain s' where s': "get_meminfo bios s = Some s'" "c_ram s' = ?m" "real_mode s' = real_mode s"
    "has_multiboot s' = has_multiboot s" "has_uniform_boot s' = has_uniform_boot s" "has_elf_boot s' = has_elf_boot s"
    using assms(2,3) loop rm by (simp add: get_meminfo_def meme820_def Let_def conv_upd_def REAL_MODE_DATA_def E820MAX_def
      s1_def [symmetric]) (simp add: s1_def)
  have k: "?m x = ?n x" if "\<not> in_sizes x" for x
    using that by (auto simp: in_sizes_def st_other)
  show thesis
  proof (rule that [OF s'(1,3-)])
    show "map_count (c_ram s') = of_nat (length ?es)"
      unfolding n(1) [symmetric] map_count_def s'(2)
      by (rule ld_agree(1)) (auto simp: REAL_MODE_DATA_def in_sizes_def intro!: k)
    show "map_entry (c_ram s') i = ?es ! i" if "i < length ?es" for i
      unfolding n(2) [OF that, symmetric] s'(2)
      by (rule entry_agree) (use that assms(3) in \<open>auto simp: in_sizes_def intro!: k\<close>)
    have "ld32 ?m 0x201E0 = ld32 ?n' 0x201E0"
      by (rule ld_agree(3)) (auto simp: st_other)
    then show "ld32 (c_ram s') (REAL_MODE_DATA + 0x1E0) = meme801 bios"
      by (simp add: REAL_MODE_DATA_def s'(2))
    show "ld16 (c_ram s') (REAL_MODE_DATA + 2) = mem88 bios"
      by (simp add: s'(2) REAL_MODE_DATA_def)
    show "c_ram s' x = m0 x" if "\<not> in_page x" "\<not> in_meminfo ?mi x" for x
    proof -
      have "\<not> in_sizes x" using that by (auto simp: in_page_def in_sizes_def)
      then show ?thesis using k n(3) [OF that(1)] same [OF that(2)] assms(1) that by (simp add: page_of_def s'(2))
    qed
  qed
qed


text \<open>A machine with two pieces of memory and nothing in it.\<close>

definition two_pieces :: pcbios where
  "two_pieces = \<lparr>bios_map = [(0, 0xA0000, 1), (0x100000, 0x7F00000, 1)], meme801 = 0x1FC00, mem88 = 0xFC00,
     meminfo = 0x13000\<rparr>"

definition cleared :: conv where
  "cleared = \<lparr>c_ram = \<lambda>_. 0, c_ports = [], i_type = 0, i_data = 0, i_param = 0, i_image = 0, real_mode = 0,
     has_multiboot = 0, has_uniform_boot = 0, has_elf_boot = 0, has_pcbios = 0, has_linuxbios = 0,
     lb_table = 0, need_mem_sizes = 0\<rparr>"


end
