(* ===== verification/ConvIa64.thy ===== *)
theory ConvIa64
  imports Convert ElfIa64
begin

text \<open>
  The converter of an image for the ia64, \<open>tools/mkelfImage/linux-ia64/convert_params.c\<close>: it completes the
  boot parameters of the kernel (\<open>struct ia64_boot_param\<close>) from those of the boot loader, which are
  either the same structure or the ELF notes of Etherboot, and appends the command lines.  Its
  \<open>putchar\<close> sends nothing; of \<open>printf\<close> only the walk over the strings is left.
\<close>

subsection \<open>Strings\<close>

text \<open>\<open>memcmp\<close> with a literal: here the pointers do advance.\<close>

primrec memcmp64 :: "nat \<Rightarrow> mem \<Rightarrow> u64 \<Rightarrow> u8 list \<Rightarrow> int" where
  "memcmp64 0 m s l = 0"
| "memcmp64 (Suc n) m s l = (if m s \<noteq> hd l then uint (m s) - uint (hd l) else memcmp64 n m (s + 1) (tl l))"

text \<open>The two loops of \<open>strappend\<close>: to the end of what is there, and over the source; \<open>n\<close> bytes are left of
  the destination.\<close>

primrec walk_dest :: "nat \<Rightarrow> mem \<Rightarrow> u64 \<Rightarrow> nat" where
  "walk_dest 0 m d = 0"
| "walk_dest (Suc n) m d = (if m d = 0 then 0 else Suc (walk_dest n m (d + 1)))"

primrec walk_src :: "nat \<Rightarrow> u64 \<Rightarrow> u64 \<Rightarrow> mem \<Rightarrow> nat \<times> mem" where
  "walk_src 0 d s m = (0, m)"
| "walk_src (Suc n) d s m =
     (if m s = 0 then (0, m)
      else case walk_src n (d + 1) (s + 1) (m(d := m s)) of (i, m) \<Rightarrow> (Suc i, m))"

definition strappend :: "u64 \<Rightarrow> u64 \<Rightarrow> nat \<Rightarrow> mem \<Rightarrow> mem" where
  "strappend d s mx m =
     (let len = walk_dest mx m d
      in case walk_src (mx - len) (d + of_nat len) s m of (i, m) \<Rightarrow>
           let len = len + i;
               len = (if len \<ge> mx then mx - 1 else len)
           in m(d + of_nat len := 0))"

text \<open>\<open>memcpy\<close>, and the walk of \<open>printf\<close> over the string of a \<open>%s\<close>.\<close>

primrec memcpy64 :: "nat \<Rightarrow> u64 \<Rightarrow> u64 \<Rightarrow> mem \<Rightarrow> mem" where
  "memcpy64 0 d s m = m"
| "memcpy64 (Suc n) d s m = memcpy64 n (d + 1) (s + 1) (m(d := m s))"

partial_function (option) print_string :: "mem \<Rightarrow> u64 \<Rightarrow> unit option" where
  "print_string m p = (if m p = 0 then Some () else print_string m (p + 1))"

subsection \<open>Boot parameters\<close>

text \<open>\<open>struct ia64_boot_param\<close> has 80 bytes: the command line at 0, the EFI tables from 8 on, the version at 40,
  the console at 44 (columns, rows, x, y), the interface of the floating point software at 56 and the
  ramdisk at 64 and 72.  The static \<open>bp\<close> of the converter is in memory at \<open>bp\<close>, with the values that the
  image gives it; \<open>blank\<close> is the address of the literal \<open>" "\<close>.\<close>

definition ia64_append :: "u64 \<Rightarrow> u64 \<Rightarrow> u64 \<Rightarrow> mem \<Rightarrow> mem" where
  "ia64_append bp blank arg m =
     (let m = strappend (load64 m bp) blank ia64_CMDLINE_MAX m
      in strappend (load64 m bp) arg ia64_CMDLINE_MAX m)"

definition convert_ia64_boot_params :: "u64 \<Rightarrow> u64 \<Rightarrow> u64 \<Rightarrow> mem \<Rightarrow> mem" where
  "convert_ia64_boot_params bp blank orig m =
     (let m = store64 m (bp + 8) (load64 m (orig + 8));
          m = store64 m (bp + 16) (load64 m (orig + 16));
          m = store64 m (bp + 24) (load64 m (orig + 24));
          m = store64 m (bp + 32) (load64 m (orig + 32));
          m = store32 m (bp + 40) (load32 m (orig + 40));
          m = store16 m (bp + 44) (load16 m (orig + 44));
          m = store16 m (bp + 46) (load16 m (orig + 46));
          m = store16 m (bp + 48) (load16 m (orig + 48));
          m = store16 m (bp + 50) (load16 m (orig + 50));
          m = store64 m (bp + 56) (load64 m (orig + 56));
          m = (if load64 m (orig + 72) \<noteq> 0 \<and> load64 m (bp + 72) = 0
               then let m = store64 m (bp + 64) (load64 m (orig + 64)) in store64 m (bp + 72) (load64 m (orig + 72))
               else m)
      in if load64 m orig \<noteq> 0 then ia64_append bp blank (load64 m orig) m else m)"

subsection \<open>ELF notes\<close>

definition EB_IA64_SYSTAB :: u32 where "EB_IA64_SYSTAB = 1"
definition EB_IA64_MEMMAP :: u32 where "EB_IA64_MEMMAP = 2"
definition EB_IA64_FPSWA :: u32 where "EB_IA64_FPSWA = 3"
definition EB_IA64_CONINFO :: u32 where "EB_IA64_CONINFO = 4"
definition EBN_BOOTLOADER_NAME :: u32 where "EBN_BOOTLOADER_NAME = 2"
definition EBN_BOOTLOADER_VERSION :: u32 where "EBN_BOOTLOADER_VERSION = 3"

definition ia64_desc :: "mem \<Rightarrow> u64 \<Rightarrow> u64" where
  "ia64_desc m note = note + 12 + ucast (align4 (load32 m note))"

definition ia64_next :: "mem \<Rightarrow> u64 \<Rightarrow> u64" where
  "ia64_next m note = ia64_desc m note + ucast (align4 (load32 m (note + 4)))"

text \<open>Memory, and the local variables of \<open>convert_bhdr_params\<close>: the names that the notes give, 0 for none.\<close>

record note_walk =
  n_mem :: mem
  ldr_name :: u64
  ldr_version :: u64
  firmware :: u64

definition ia64_note :: "u64 \<Rightarrow> u64 \<Rightarrow> u64 \<Rightarrow> note_walk \<Rightarrow> note_walk" where
  "ia64_note bp blank note s =
     (let m = n_mem s; name = note + 12; desc = ia64_desc m note; type = load32 m (note + 8)
      in if load32 m note = 0
         then if type = EBN_FIRMWARE_TYPE then s\<lparr>firmware := desc\<rparr>
              else if type = EBN_BOOTLOADER_NAME then s\<lparr>ldr_name := desc\<rparr>
              else if type = EBN_BOOTLOADER_VERSION then s\<lparr>ldr_version := desc\<rparr>
              else if type = EBN_COMMAND_LINE then s\<lparr>n_mem := ia64_append bp blank desc m\<rparr>
              else s
         else if load32 m note = 10 \<and> memcmp64 10 m name (ascii ''Etherboot'' @ [0]) = 0
         then s\<lparr>n_mem :=
                (if type = EB_IA64_SYSTAB then store64 m (bp + 8) (load64 m desc)
                 else if type = EB_IA64_FPSWA then store64 m (bp + 56) (load64 m desc)
                 else if type = EB_IA64_CONINFO then memcpy64 8 (bp + 44) desc m
                 else if type = EB_IA64_MEMMAP
                 then let m = store64 m (bp + 16) (desc + 32);
                          m = store64 m (bp + 24) (load64 m desc);
                          m = store64 m (bp + 32) (load64 m (desc + 16))
                      in store32 m (bp + 40) (ucast (load64 m (desc + 24)))
                 else m)\<rparr>
         else s)"

partial_function (option) ia64_notes :: "u64 \<Rightarrow> u64 \<Rightarrow> u64 \<Rightarrow> u64 \<Rightarrow> note_walk \<Rightarrow> note_walk option" where
  "ia64_notes bp blank end' note s =
     (if note < end' \<and> ia64_next (n_mem s) note \<le> end'
      then ia64_notes bp blank end' (ia64_next (n_mem s) note) (ia64_note bp blank note s)
      else Some s)"

text \<open>The names are printed, which reads them to their end and sends nothing.\<close>

definition convert_bhdr_params :: "u64 \<Rightarrow> u64 \<Rightarrow> u64 \<Rightarrow> mem \<Rightarrow> mem option" where
  "convert_bhdr_params bp blank bhdr m = do {
     s \<leftarrow> ia64_notes bp blank (bhdr + ucast (load32 m (bhdr + 4))) (bhdr + 12)
            \<lparr>n_mem = m, ldr_name = 0, ldr_version = 0, firmware = 0\<rparr>;
     (if ldr_name s \<noteq> 0 \<and> ldr_version s \<noteq> 0
      then do { print_string (n_mem s) (ldr_name s); print_string (n_mem s) (ldr_version s) } else Some ());
     (if firmware s \<noteq> 0 then print_string (n_mem s) (firmware s) else Some ());
     Some (n_mem s) }"

text \<open>The \<open>convert_params\<close> of the ia64, with \<open>struct image_parameters\<close> at \<open>params\<close>; its result is \<open>bp\<close>.\<close>

definition ia64_convert_params :: "u64 \<Rightarrow> u64 \<Rightarrow> u64 \<Rightarrow> u64 \<Rightarrow> u64 \<Rightarrow> mem \<Rightarrow> (u64 \<times> mem) option" where
  "ia64_convert_params bp blank arg1 r28 params m = do {
     let m = store64 m bp (params + 32);
     let m = store64 m (bp + 64) (load64 m (params + 16));
     let m = store64 m (bp + 72) (load64 m (params + 24));
     m \<leftarrow> (if load32 m arg1 = 0x0E1FB007 then convert_bhdr_params bp blank arg1 m
          else Some (convert_ia64_boot_params bp blank r28 m));
     Some (bp, m) }"

subsection \<open>The command line stays in its buffer\<close>

lemma plus_small64:
  "unat (p :: u64) + n < 2 ^ 64 \<Longrightarrow> unat (p + of_nat n) = unat p + n"
  by (simp add: unat_word_ariths unat_of_nat take_bit_nat_eq_self)

lemma walk_dest_le: "walk_dest n m d \<le> n"
  by (induction n arbitrary: d) auto

lemma walk_src_bounds:
  assumes "walk_src n d s m = (i, m')" "unat d + n \<le> 2 ^ 64"
  shows "i \<le> n \<and> (\<forall>x. unat x < unat d \<or> unat d + n \<le> unat x \<longrightarrow> m' x = m x)"
  using assms
proof (induction n arbitrary: d s m i)
  case (Suc n)
  show ?case
  proof (cases "m s = 0")
    case True
    then show ?thesis using Suc.prems by auto
  next
    case False
    then obtain j where j: "walk_src n (d + 1) (s + 1) (m(d := m s)) = (j, m')" "i = Suc j"
      using Suc.prems(1) by (auto split: prod.splits)
    show ?thesis
    proof (cases "n = 0")
      case True
      then show ?thesis using j by auto
    next
      case n: False
      then have "unat (d + 1) = unat d + 1"
        using Suc.prems(2) plus_small64 [of d 1] by simp
      then show ?thesis
        using Suc.IH [OF j(1)] Suc.prems(2) j(2) by auto
    qed
  qed
qed auto

lemma strappend_bounds:
  assumes "0 < mx" "unat d + mx \<le> 2 ^ 64"
  shows "(\<forall>x. unat x < unat d \<or> unat d + mx \<le> unat x \<longrightarrow> strappend d s mx m x = m x)
    \<and> (\<exists>k<mx. strappend d s mx m (d + of_nat k) = 0)"
proof -
  let ?len = "walk_dest mx m d"
  obtain i m' where w: "walk_src (mx - ?len) (d + of_nat ?len) s m = (i, m')"
    by (meson surj_pair)
  define k where "k = (if ?len + i \<ge> mx then mx - 1 else ?len + i)"
  have r: "strappend d s mx m = m'(d + of_nat k := 0)"
    unfolding strappend_def Let_def w k_def by simp
  have k: "k < mx" "unat (d + of_nat k) = unat d + k"
    using assms plus_small64 [of d k] by (auto simp: k_def)
  have "m' x = m x" if "unat x < unat d \<or> unat d + mx \<le> unat x" for x
  proof (cases "?len = mx")
    case True
    then show ?thesis using w by simp
  next
    case False
    then have "?len < mx" using walk_dest_le [of mx m d] by simp
    then have "unat (d + of_nat ?len) = unat d + ?len"
      using assms(2) by (intro plus_small64) simp
    then show ?thesis
      using walk_src_bounds [OF w] assms(2) that \<open>?len < mx\<close> by auto
  qed
  then show ?thesis
    using k by (auto simp: r intro!: exI [of _ k])
qed

subsection \<open>The walk over the notes ends\<close>

text \<open>Memory as far as \<open>p\<close>, the buffer of the command line, and \<open>bp\<close> are concerned.\<close>

definition line_kept :: "mem \<Rightarrow> u64 \<Rightarrow> u64 \<Rightarrow> mem \<Rightarrow> bool" where
  "line_kept m0 bp p m \<longleftrightarrow> load64 m bp = p
    \<and> (\<forall>x. \<not> in_range p 1024 x \<and> \<not> in_range bp 80 x \<longrightarrow> m x = m0 x)
    \<and> (\<exists>k<1024. m (p + of_nat k) = 0)"

text \<open>Where the buffer and \<open>bp\<close> can be.\<close>

definition apart :: "u64 \<Rightarrow> u64 \<Rightarrow> bool" where
  "apart bp p \<longleftrightarrow> unat p + 1024 \<le> 2 ^ 64 \<and> disjoint_ranges p 1024 bp 80"

lemma buffer_byte: "unat p + 1024 \<le> 2 ^ 64 \<Longrightarrow> k < 1024 \<Longrightarrow> in_range p 1024 (p + of_nat k)"
  by (simp add: in_range_def unat_of_nat_u64 del: unat_of_nat)

lemma minus_swap: "(q :: u64) \<noteq> a \<Longrightarrow> unat (a - q) = 2 ^ 64 - unat (q - a)"
  using u64_bounded [of a] u64_bounded [of q] by (auto simp: unat_sub_if' word_unat_eq_iff)

lemma in_field:
  assumes "8 \<le> unat (q - bp)" "unat (q - bp) + n \<le> 80" "in_range q n x"
  shows "in_range bp 80 x" "\<not> in_range bp 8 x"
proof -
  have "x - bp = (x - q) + (q - bp)" by simp
  then have "unat (x - bp) = unat (x - q) + unat (q - bp)"
    using assms by (simp only: unat_plus_if') (simp add: in_range_def)
  then show "in_range bp 80 x" "\<not> in_range bp 8 x"
    using assms by (auto simp: in_range_def)
qed

lemma fields_kept:
  assumes "line_kept m0 bp p m" "apart bp p"
    and "\<And>x. m' x \<noteq> m x \<Longrightarrow> in_range bp 80 x \<and> \<not> in_range bp 8 x"
  shows "line_kept m0 bp p m'"
proof -
  have "load64 m' bp = load64 m bp"
  proof (rule load_le_cong)
    fix i :: nat assume "i < 8"
    then have "in_range bp 8 (bp + of_nat i)"
      by (simp add: in_range_def unat_of_nat_u64 del: unat_of_nat)
    then show "m' (bp + of_nat i) = m (bp + of_nat i)" using assms(3) by blast
  qed
  moreover have "m' (p + of_nat k) = m (p + of_nat k)" if "k < 1024" for k
    using assms(2,3) buffer_byte [OF _ that, of p] by (auto simp: apart_def disjoint_ranges_def)
  ultimately show ?thesis
    using assms(1,3) unfolding line_kept_def by metis
qed

lemma field_kept:
  assumes "line_kept m0 bp p m" "apart bp p" "8 \<le> unat (q - bp)" "unat (q - bp) + n \<le> 80"
  shows "line_kept m0 bp p (store_le n m q v)"
proof (rule fields_kept [OF assms(1,2)])
  fix x assume "store_le n m q v x \<noteq> m x"
  then have "in_range q n x"
    using assms(4) store_le_other [of n q x m v] by auto
  then show "in_range bp 80 x \<and> \<not> in_range bp 8 x"
    using in_field [OF assms(3,4)] by blast
qed

lemma memcpy64_other: "\<not> in_range d n x \<Longrightarrow> n < 2 ^ 64 \<Longrightarrow> memcpy64 n d s m x = m x"
proof (induction n arbitrary: d s m)
  case (Suc n)
  have "x \<noteq> d" "\<not> in_range (d + 1) n x"
  proof -
    show "x \<noteq> d" using Suc.prems(1) by (auto simp: in_range_def)
    then have "x - d \<noteq> 0" by simp
    then have "unat (x - d) = Suc (unat (x - (d + 1)))"
      by (metis Suc_pred' diff_diff_add unat_gt_0 unat_minus_one)
    then show "\<not> in_range (d + 1) n x" using Suc.prems(1) by (simp add: in_range_def)
  qed
  then show ?case using Suc by simp
qed simp

lemma console_kept:
  assumes "line_kept m0 bp p m" "apart bp p"
  shows "line_kept m0 bp p (memcpy64 8 (bp + 44) s m)"
proof (rule fields_kept [OF assms])
  fix x assume "memcpy64 8 (bp + 44) s m x \<noteq> m x"
  then have "in_range (bp + 44) 8 x" using memcpy64_other [of "bp + 44" 8 x s m] by auto
  then show "in_range bp 80 x \<and> \<not> in_range bp 8 x"
    using in_field [of "bp + 44" bp 8 x] by simp
qed

lemma strappend_kept:
  assumes "line_kept m0 bp p m" "apart bp p"
  shows "line_kept m0 bp p (strappend (load64 m bp) arg ia64_CMDLINE_MAX m)"
proof -
  let ?m = "strappend p arg 1024 m"
  have p: "unat p + 1024 \<le> 2 ^ 64" using assms(2) by (simp add: apart_def)
  have b: "?m x = m x" if "\<not> in_range p 1024 x" for x
    using strappend_bounds [of 1024 p arg m] p that unat_minus_less [OF p, of x] by (auto simp: in_range_def)
  have "\<exists>k<1024. ?m (p + of_nat k) = 0"
    using strappend_bounds [of 1024 p arg m] p by simp
  moreover have "load64 ?m bp = load64 m bp"
  proof (rule load_le_cong, rule b)
    fix i :: nat assume "i < 8"
    then have "in_range bp 80 (bp + of_nat i)"
      by (simp add: in_range_def unat_of_nat_u64 del: unat_of_nat)
    then show "\<not> in_range p 1024 (bp + of_nat i)"
      using assms(2) by (auto simp: apart_def disjoint_ranges_def)
  qed
  ultimately show ?thesis
    using assms(1) b by (simp add: line_kept_def ia64_CMDLINE_MAX_def)
qed

lemma append_kept:
  assumes "line_kept m0 bp p m" "apart bp p"
  shows "line_kept m0 bp p (ia64_append bp blank arg m)"
  unfolding ia64_append_def Let_def by (intro strappend_kept assms)

lemmas kept_intros = append_kept field_kept console_kept

lemma boot_params_kept:
  assumes "line_kept m0 bp p m" "apart bp p"
  shows "line_kept m0 bp p (convert_ia64_boot_params bp blank orig m)"
proof -
  have l: "line_kept m0 bp p (let m = A in f m)"
    if "line_kept m0 bp p A" "\<And>m. line_kept m0 bp p m \<Longrightarrow> line_kept m0 bp p (f m)" for A f
    using that by (simp add: Let_def)
  have r: "line_kept m0 bp p (if c then let m = store64 m (bp + 64) v in store64 m (bp + 72) (f m) else m)"
    if "line_kept m0 bp p m" for c m v f
    using that assms(2) by (auto simp: Let_def intro!: field_kept)
  show ?thesis
    unfolding convert_ia64_boot_params_def
    by (rule l, rule field_kept [OF assms], simp, simp)
      ((rule l, rule field_kept, assumption, rule assms(2), simp, simp)+, rule l, rule r, assumption,
        simp add: append_kept [OF _ assms(2)])
qed

lemma note_kept:
  assumes "line_kept m0 bp p (n_mem s)" "apart bp p"
  shows "line_kept m0 bp p (n_mem (ia64_note bp blank note s))"
  using assms by (simp add: ia64_note_def Let_def kept_intros)

lemma ia64_next_after:
  assumes "unat note < 2 ^ 63 + 2 ^ 32"
  shows "unat note < unat (ia64_next m note)"
proof -
  have u: "unat (ucast (w :: u32) :: u64) < 2 ^ 32" for w :: u32
    using unat_u32_less [of w] by simp
  let ?a = "ucast (align4 (load32 m note)) :: u64"
  let ?b = "ucast (align4 (load32 m (note + 4))) :: u64"
  have n: "ia64_next m note = note + of_nat (12 + unat ?a + unat ?b)"
    by (simp add: ia64_next_def ia64_desc_def add_ac)
  have "unat (ia64_next m note) = unat note + (12 + unat ?a + unat ?b)"
    unfolding n by (rule plus_small64)
      (use assms u [of "align4 (load32 m note)"] u [of "align4 (load32 m (note + 4))"] in simp)
  then show ?thesis by simp
qed

lemma ia64_notes_kept:
  assumes "line_kept m0 bp p (n_mem s)" "apart bp p" "unat end' < 2 ^ 63 + 2 ^ 32"
  shows "\<exists>s'. ia64_notes bp blank end' note s = Some s' \<and> line_kept m0 bp p (n_mem s')"
  using assms(1)
proof (induction "unat end' - unat note" arbitrary: "note" s rule: less_induct)
  case less
  show ?case
  proof (cases "note < end' \<and> ia64_next (n_mem s) note \<le> end'")
    case True
    let ?next = "ia64_next (n_mem s) note"
    have "unat note < unat ?next"
      using True assms(3) by (intro ia64_next_after) (simp add: word_less_nat_alt)
    then have "unat end' - unat ?next < unat end' - unat note"
      using True by (intro diff_less_mono2) (simp_all add: word_less_nat_alt)
    from less.hyps [OF this note_kept [OF less.prems assms(2)]] show ?thesis
      using True by (subst ia64_notes.simps) auto
  next
    case False
    then show ?thesis
      using less.prems by (intro exI [of _ s]) (subst ia64_notes.simps, auto)
  qed
qed

text \<open>A string in memory that holds a zero byte somewhere is printed in the end.\<close>

lemma print_string_returns:
  assumes "m z = 0"
  shows "print_string m p = Some ()"
proof (induction "unat (z - p)" arbitrary: p rule: less_induct)
  case less
  show ?case
  proof (cases "m p = 0")
    case True
    then show ?thesis by (subst print_string.simps) simp
  next
    case False
    then have "z - p \<noteq> 0" using assms by auto
    then have "unat (z - (p + 1)) < unat (z - p)"
      by (metis Suc_pred' diff_diff_add lessI unat_gt_0 unat_minus_one)
    then show ?thesis using less False by (subst print_string.simps) simp
  qed
qed

lemma bhdr_params_kept:
  assumes "line_kept m0 bp p m" "apart bp p" "unat bhdr < 2 ^ 63"
  shows "\<exists>m'. convert_bhdr_params bp blank bhdr m = Some m' \<and> line_kept m0 bp p m'"
proof -
  let ?e = "bhdr + ucast (load32 m (bhdr + 4))"
  have e: "unat (load32 m (bhdr + 4) :: u32) < 2 ^ 32"
    using unat_u32_less [of "load32 m (bhdr + 4)"] by simp
  then have "unat ?e = unat bhdr + unat (load32 m (bhdr + 4) :: u32)"
    using plus_small64 [of bhdr "unat (load32 m (bhdr + 4) :: u32)"] assms(3) by simp
  then have "unat ?e < 2 ^ 63 + 2 ^ 32"
    using e assms(3) by simp
  from ia64_notes_kept [OF _ assms(2) this, of m0 "\<lparr>n_mem = m, ldr_name = 0, ldr_version = 0, firmware = 0\<rparr>" blank "bhdr + 12"]
  obtain s where s: "ia64_notes bp blank ?e (bhdr + 12) \<lparr>n_mem = m, ldr_name = 0, ldr_version = 0, firmware = 0\<rparr> = Some s"
    "line_kept m0 bp p (n_mem s)"
    using assms(1) by auto
  then obtain z where "n_mem s z = 0" by (auto simp: line_kept_def)
  then have "print_string (n_mem s) q = Some ()" for q by (rule print_string_returns)
  then show ?thesis
    using s by (simp add: convert_bhdr_params_def)
qed

text \<open>C34: the converter of the ia64 returns, also with a table of the boot loader that makes no sense, as
  long as the table starts below 2 ^ 63 and the command line of the image is terminated and lies apart from the
  static \<open>bp\<close>: the walk over the notes ends, and so does the printing of names.  The result is \<open>bp\<close>, which
  points to the command line of the image; this is still in its buffer of 1024 bytes and terminated, and
  no byte outside this buffer and \<open>bp\<close> is changed.\<close>

theorem ia64_convert_params_returns:
  assumes "unat params + 1056 \<le> 2 ^ 64" "disjoint_ranges (params + 32) 1024 bp 80"
    and "unat arg1 < 2 ^ 63" "\<exists>k<1024. m (params + 32 + of_nat k) = 0"
  shows "\<exists>m'. ia64_convert_params bp blank arg1 r28 params m = Some (bp, m')
    \<and> load64 m' bp = params + 32 \<and> (\<exists>k<1024. m' (params + 32 + of_nat k) = 0)
    \<and> (\<forall>x. \<not> in_range (params + 32) 1024 x \<and> \<not> in_range bp 80 x \<longrightarrow> m' x = m x)"
proof -
  let ?p = "params + 32"
  let ?m0 = "store64 m bp ?p"
  define m1 where "m1 = store64 ?m0 (bp + 64) (load64 ?m0 (params + 16))"
  define m2 where "m2 = store64 m1 (bp + 72) (load64 m1 (params + 24))"
  have "unat ?p = unat params + 32"
    using plus_small64 [of params 32] assms(1) by simp
  then have ap: "apart bp ?p"
    using assms(1,2) by (simp add: apart_def)
  have b: "in_range bp 80 x" if "in_range bp 8 x" for x using that by (simp add: in_range_def)
  have "?m0 x = m x" if "\<not> in_range bp 80 x" for x
    using that b by (intro store_le_other) auto
  moreover have "?m0 (?p + of_nat k) = m (?p + of_nat k)" if "k < 1024" for k
    using calculation buffer_byte [OF _ that, of ?p] ap by (auto simp: apart_def disjoint_ranges_def)
  ultimately have "line_kept m bp ?p ?m0"
    using assms(4) unfolding line_kept_def by (metis load_store(3))
  then have "line_kept m bp ?p m1"
    unfolding m1_def by (rule field_kept [OF _ ap]) simp_all
  then have start: "line_kept m bp ?p m2"
    unfolding m2_def by (rule field_kept [OF _ ap]) simp_all
  have "\<exists>m'. ia64_convert_params bp blank arg1 r28 params m = Some (bp, m') \<and> line_kept m bp ?p m'"
    using bhdr_params_kept [OF start ap assms(3), of blank] boot_params_kept [OF start ap, of blank r28]
    by (auto simp: ia64_convert_params_def m1_def [symmetric] m2_def [symmetric])
  then show ?thesis by (auto simp: line_kept_def)
qed

text \<open>A table with one note, a command line, at 0x1000, and empty parameters at 0x2000.\<close>

definition one_note :: mem where
  "one_note = store32 (store32 (store32 (store32 (store32 (\<lambda>_. 0) 0x1000 0x0E1FB007) 0x1004 32) 0x1010 4) 0x1014 4)
     0x1018 0x00746F6F"

theorem ia64_convert_params_returns_witness:
  "\<exists>m'. ia64_convert_params 0x4000 0x3000 0x1000 0 0x2000 one_note = Some (0x4000, m') \<and> load64 m' 0x4000 = 0x2020"
proof -
  have "one_note (0x2000 + 32 + of_nat 0) = 0"
    by (simp add: one_note_def store_le_apply)
  then have "\<exists>k<1024. one_note (0x2000 + 32 + of_nat k) = 0"
    by (intro exI [of _ 0]) simp
  moreover have "disjoint_ranges (0x2000 + 32) 1024 0x4000 80"
    by (rule disjoint_gap) simp_all
  ultimately show ?thesis
    using ia64_convert_params_returns [of "0x2000" "0x4000" "0x1000" one_note "0x3000" 0] by auto
qed

end
