(* ===== verification/Spec2Isabelle.thy ===== *)
theory Spec2Isabelle
  imports E820 CString Alloc Printf Paging Vmcb VmInfo Nested Exits Cpu Svm Vmcs Vmx VmxOps Boot Runs Start Launch
    Bootstrap Fat32 Fat32Io Fat32Ui Disk Command MkElf ConvMap ConvIa64
begin

text \<open>
  A model of MAVMM (hv-sebek), a small virtual machine monitor for AMD and Intel processors that boots
  under GRUB, puts the guest into a virtual machine and traces what the processes of the guest do.

  The program and its model.  \<open>start_vmm\<close> (\<open>kernel/setup.c\<close>) reads the memory map, sets up the page
  allocator, builds the record of the machine and its nested page table, identifies the processor,
  enables its virtualisation extension and enters the loop of \<open>vm_boot\<close>: run the guest, handle its exit.
  In the order of the calls:
  \<^item> \<open>Bootstrap\<close>: \<open>kernel/boot.S\<close>, from the boot loader to the call of \<open>start_vmm\<close> in long mode, and the page
    tables of the monitor itself;
  \<^item> \<open>E820\<close>: \<open>kernel/e820.c\<close>, the memory map of the machine as GRUB gives it, and hiding the
    monitor in it (which no part of the program asks for);
  \<^item> \<open>Alloc\<close>: \<open>kernel/alloc.c\<close>, the bitmap of pages and the first-fit allocator over it;
  \<^item> \<open>Paging\<close>: \<open>kernel/page.c\<close>, construction and walks of page tables of three kinds;
  \<^item> \<open>VmInfo\<close>: \<open>include/vm.h\<close>, \<open>kernel/segment.c\<close> and most of \<open>kernel/vm.c\<close>, the record of the machine, its
    nested page tables, interceptions, and lists of files, waiting calls and processes;
  \<^item> \<open>Nested\<close>: the nested page table in memory, mapping by mapping, up to the one that faults;
  \<^item> \<open>Vmcb\<close>: \<open>include/vmcb.h\<close> and \<open>kernel/vmcb.c\<close>, AMD's control block with its checks and traces;
  \<^item> \<open>Cpu\<close>: \<open>kernel/cpu.c\<close>, identification of the processor, and the model-specific registers;
  \<^item> \<open>Svm\<close>: \<open>kernel/svm.c\<close>; \<open>Vmcs\<close> and \<open>Vmx\<close>: \<open>kernel/vmcs.c\<close> and \<open>kernel/vmx.c\<close>, the two extensions;
    \<open>VmxOps\<close>: the operations of \<open>include/vmx.h\<close> that start-up does not use;
  \<^item> \<open>Boot\<close>: \<open>kernel/setup.c\<close> and \<open>vm_init\<close>;
  \<^item> \<open>Syscalls\<close>: the table \<open>include/syscall_ent.h\<close>; \<open>Intercept\<close>: \<open>kernel/intercept.c\<close>, the exit handler; \<open>Exits\<close>:
    the loop of \<open>vm_boot\<close> as a relation between machines; \<open>Runs\<close>: the same loop on an AMD processor, a refinement
    of this relation; \<open>Start\<close>: \<open>start_vmm\<close> from the memory map of the boot loader on;
  \<^item> \<open>Launch\<close>: \<open>kernel/svm_asm.S\<close> and \<open>kernel/vmx_asm.S\<close>, the instructions that enter and leave the guest, on a
    small machine with registers and a stack;
  \<^item> \<open>CString\<close> and \<open>Printf\<close>: \<open>kernel/string.c\<close>, \<open>kernel/printf.c\<close> and \<open>kernel/serial.c\<close>, which all parts use;
  \<^item> \<open>Fat32\<close>: \<open>hostfs/fat32.c\<close>, the file system driver of the host, a program of its own, with \<open>Fat32Io\<close>:
    its buffer, \<open>Fat32Ui\<close>: \<open>hostfs/fat32_ui.c\<close>, and \<open>Disk\<close>: \<open>hostfs/mode.S\<close>, the access to a sector through the BIOS;
  \<^item> \<open>Command\<close>: \<open>user/mavmm-u.c\<close>, the program of the guest that asks the monitor for interceptions;
  \<^item> \<open>tools/mkelfImage\<close>, the program of the build host that makes boot images of kernels: \<open>ImageSum\<close> its checksum,
    \<open>ElfImage\<close> headers, notes and the writing of an image, \<open>ElfRead\<close> the reading of files (all in
    \<open>main/mkelfImage.c\<close>), \<open>ElfLinux\<close> and \<open>ElfIa64\<close> the kernels it knows (\<open>mkelf-linux-i386.c\<close>,
    \<open>mkelf-linux-ia64.c\<close>), \<open>MkElf\<close> its \<open>main\<close>;
  \<^item> the converters, the first code that runs in such an image: \<open>Convert\<close> with \<open>ConvMap\<close>
    (\<open>linux-i386/convert_params.c\<close>) fills in the page that Linux expects, \<open>ConvIa64\<close>
    (\<open>linux-ia64/convert_params.c\<close>) the boot parameters of the ia64.
  \<open>Prelude\<close>, \<open>Memory\<close> and \<open>Pages\<close> hold what they share: the C integers as words, fatal outcomes, byte
  memory with its loads and stores, page arithmetic.

  State.  Physical memory is a function from 64-bit addresses to bytes; tables, lists and strings that
  the code reaches through pointers are in it, at the offsets the compiler gives their fields.
  Structures that are reached by name only are records: \<open>vm_info\<close>, \<open>vmcb\<close>, \<open>e820_map\<close>, \<open>naive_allocator\<close>,
  \<open>cpuinfo_x86\<close>, \<open>vmx_globals\<close>, \<open>fat\<close>.  A \<open>machine\<close> is the record of the machine, the control block,
  memory, the registers that \<open>svm_asm.S\<close> saves and the calls of \<open>outf\<close> so far.  A function of the code
  takes the state it uses and returns it changed.  Integers have the width of the code, conversions
  are written out (\<open>to_int\<close>, \<open>shl_int\<close>, \<open>ucast\<close>, \<open>scast\<close>).

  Outcomes.  \<open>fatal_failure\<close> never returns: functions that may call it have results of type \<open>res\<close>, the
  left side is the message, or the page fault of an access that the page tables of \<open>boot.S\<close> do not map.
  Such faults are modelled where the code follows page table entries that it makes itself
  (\<open>entry_access\<close> in \<open>__mmap_2mb\<close>; \<open>Bootstrap\<close> shows that it decides as those tables do).  All other accesses to
  memory succeed in the model, so statements about them are for addresses below 256 MB.
  The VMX instructions that fail execute \<open>ud2\<close>, which is a fatal outcome too: VMREAD and VMWRITE without a
  current control structure or for a field that the processor does not have, VMPTRLD and VMCLEAR for an address that
  is not one of a region.  \<open>run\<close> adds \<open>None\<close> for a loop that does not end and for an access that C
  leaves undefined, as the counters of \<open>vsnprintf\<close>, of type \<open>int\<close>, above \<open>INT_MAX\<close>.  Variables that the code does not initialise are parameters, or fields such as
  \<open>uninit\<close>, about which nothing is assumed.

  In the image tool \<open>die\<close> and \<open>error\<close> leave the program: results are of type \<open>tool\<close>, where \<open>Stray\<close> is
  an access outside of a buffer; a step on the \<open>host\<close>, the files and system calls of the build
  machine, is a \<open>prog\<close>.

  Bounds and recursion.  No fuel is used: loops with a counter are structural recursions, or functions
  with a measure on the distance to the bound; searches through memory for a NUL, and the loops of the
  file system that may not end, are partial functions, and theorems about them say that they return.
  Theorems on the allocator assume that sums of page numbers do not wrap; \<open>pages_from\<close> says how many of the
  first 32 pages are taken.  At start-up all are, which is \<open>few_pages\<close>, and the allocator answers
  every request for one to three pages with page 32.  The control block is a record of its own, with its address in
  \<open>vmcb_ptr\<close>: a table that is cleared over its page clears it (\<open>clear_over\<close>).  No other write to memory
  reaches the record, also where the program lets one: the lists of the exit handler, which lie in pages of
  their own when the allocator has such pages left (when it has none start-up ends before any exit,
  \<open>Start\<close>), and the page tables of a guest that overlap the block
  (\<open>vm_protect_all_nonPAE_guestpage\<close>).

  Parameters.  \<open>cpuid\<close>, the values of model-specific and control registers and the VMX instructions are
  the processor's (\<open>cpuid_fun\<close>, \<open>host_cpu\<close>, \<open>intel_cpu\<close>); addresses of string literals and of local
  variables are the compiler's.  In \<open>Exits\<close> the guest may change memory, its registers and the part of
  the control block that the processor writes between two exits; that it leaves the rest alone is an assumption,
  \<open>leaves_monitor_alone\<close>, which the program does not enforce: the nested page table shows the guest the image of the monitor, at 2 MB,
  and page 0 with the control block and all tables, and hides the heap only (\<open>VmInfo\<close>).  What is shown about
  runs is what the exit handlers and the processor do to the monitor's data.  In \<open>Launch\<close> the guest is a function on registers and memory, in \<open>Disk\<close> the BIOS is a
  function on registers; the addresses of the linker are parameters of \<open>Bootstrap\<close>.
  Of its host the image tool has the results of \<open>read\<close>, \<open>write\<close>, \<open>gzread\<close> and \<open>getopt_long\<close>, as a script that
  may split transfers in any way, and the generated bytes of the converter.  The converter of the i386 has
  the answers of the BIOS (\<open>pcbios\<close>), which it stores in its static \<open>meminfo\<close>, that of the ia64 the addresses of its static
  \<open>bp\<close> and of a literal.

  What is shown.  \<open>Exits\<close>: an invariant of every run with a guest of that kind (what the monitor controls stays as it was set up,
  a skipped interception can always be restored), each exit makes progress, interrupts are injected
  faithfully, and calls that wait for their return are remembered.  \<open>Runs\<close>
  says in full what such an AMD guest can bring about: as \<open>svm_asm.S\<close> does not save the guest's registers, no
  command is recognised and the monitor only reports exits; every round goes on until a nested page fault.
  \<open>Launch\<close>: the monitor gets its registers back, the guest does not.  \<open>Bootstrap\<close>: the state in which
  \<open>start_vmm\<close> is called, and what its page tables map.  \<open>Boot\<close> and \<open>Svm\<close>: on a suitable AMD
  processor, and with free low pages, start-up returns with a block for which this invariant holds, so that the two
  compose.  \<open>Start\<close>: there are no such pages after \<open>naive_memmap_init\<close>, so that the whole of
  \<open>start_vmm\<close> ends in a page fault of the monitor while it builds the nested page table, before \<open>vm_init\<close>; the
  theorems on \<open>vm_init\<close> and on runs say what the later parts do when they are reached.
  \<open>Vmx\<close> and \<open>Vmcs\<close>: what is written to Intel's control structure once it is the current one; the list of guest registers is a
  finite map; which processors are refused.  \<open>Alloc\<close>: first fit, exact effect and inverse of the bit
  operations, and that the allocator repeats itself, which \<open>Svm\<close> and \<open>VmInfo\<close> inherit.  \<open>Paging\<close>: mapping
  followed by a walk, and agreement of a walk with the architecture.  \<open>Printf\<close>: the text that is
  rendered, and when the buffer overflows.  \<open>VmInfo\<close>: which pages the nested page table
  is built for, that interceptions are turned off as they were turned on, and round trips of the lists; \<open>Nested\<close>: that its
  tables, all in one page, destroy each other, and that one of them is then looked for at 1 GB, where
  the monitor maps nothing.  \<open>Fat32\<close>: positions,
  checksums, that bytes come back from the sector buffer, and the consequences of sectors that are never read; \<open>Disk\<close>: for which sectors the address is
  right.  \<open>Command\<close> with \<open>Intercept\<close>: a command
  of the user changes exactly its flag.  \<open>MkElf\<close>: for every bzImage the tool writes an image with the
  kernel where the program header says; \<open>ElfImage\<close>: the checksum of an image is that of the memory it
  fills, although it is computed piece by piece over the file.
  \<open>ElfIa64\<close>: the segments of a kernel end up sorted by address.  \<open>ConvMap\<close>: the memory map of the BIOS arrives in the page unchanged; \<open>Convert\<close>: where the limit for a
  command line holds and where it does not; \<open>ConvIa64\<close>: the walk over the notes ends and stays in its
  buffer when the table starts in the lower half of the address space.  Loops over tables of the boot loader, which may not end, are partial functions.  Locales state the interfaces (arrays of slots in memory,
  tables of words, operations that keep a part of the machine) and are interpreted on the model.

  Not modelled.  Instructions without effect on the state of the model (\<open>fninit\<close> in \<open>boot.S\<close>, VMLOAD and
  VMSAVE in \<open>svm_asm.S\<close>), and the routines after \<open>#if 0\<close>, which are not assembled.  The messages of the
  start-up functions other than those of \<open>setup.c\<close>, and the debugging output of the file system, which goes through \<open>printf\<close>
  and so nowhere.  On an Intel processor there are no runs of \<open>vm_boot\<close>, as \<open>init_intel\<close> never sets the two functions
  that the loop calls.  \<open>testos\<close> is a guest for trials.  Of \<open>tools/mkelfImage\<close>: the assembler entries of
  the converters (\<open>head.S\<close>), their generated bytes, their output on the serial line, the decompressor \<open>kunzip_src\<close>, which is third-party code that the
  tool does not link, and the texts of its usage.  The bytes of the converters and the models of their
  sources are not related.

  The division fault of \<open>read_sector_asm\<close> and the registers it changes are in \<open>Disk\<close>, not in the driver that
  calls it (\<open>Fat32\<close>).  Page faults of accesses other than those of \<open>__mmap_2mb\<close>.

  Not stated: the nested page table where the first word of memory happens to have its lowest bit set, and is
  followed as an entry that is present; and the effect of opening and creating files on a buffer that
  does hold the directory asked for.
\<close>

end
